(* ===== verification/Prelude.thy ===== *)
theory Prelude
  imports Main "HOL-Library.Word" "HOL-Library.Monad_Syntax"
begin

section \<open>Shared types, the store, and byte buffers\<close>

text \<open>
  The types and the small library that every component of the development uses.

  A fallible C operation is a function into \<open>'a option\<close>: \<open>None\<close> is a run that the C
  language leaves undefined (a NULL or dangling pointer is dereferenced, a block is freed twice,
  a copy leaves its buffer). The monad syntax of the library sequences such steps in the
  order of the source. Values the code itself returns to signal an error (a NULL result, 0 bytes
  copied, -1) stay ordinary values.

  Pointers are natural numbers, 0 is NULL. Each kind of object lives in its own store
  (\<open>heap\<close>), a partial map with the next address that \<open>malloc\<close> hands out.
  \<open>size_t\<close> is a natural number; where the code can overflow it the wrap-around at
  \<open>2 ^ 32\<close> (the size of \<open>size_t\<close> on the ESP32) is written out.
\<close>

type_synonym u8 = "8 word"
type_synonym u16 = "16 word"
type_synonym u32 = "32 word"
type_synonym u64 = "64 word"
type_synonym addr = nat

abbreviation (input) NULL :: addr where "NULL \<equiv> 0"

definition size_limit :: nat where
  "size_limit = 2 ^ 32"

definition size_wrap :: "nat \<Rightarrow> nat" where
  "size_wrap n = n mod size_limit"

definition u16_wrap :: "nat \<Rightarrow> nat" where
  "u16_wrap n = n mod 2 ^ 16"

lemma size_wrap_id [simp]: "n < size_limit \<Longrightarrow> size_wrap n = n"
  by (simp add: size_wrap_def)

lemma u16_wrap_id [simp]: "n < 65536 \<Longrightarrow> u16_wrap n = n"
  by (simp add: u16_wrap_def)

lemma u16_wrap_le: "u16_wrap n \<le> n"
  by (simp add: u16_wrap_def)

named_theorems heap_simps \<open>reads and writes of the object store\<close>
named_theorems cache_defs \<open>definitions of the cache operations\<close>

subsection \<open>The option monad\<close>

definition guard :: "bool \<Rightarrow> unit option" where
  "guard b = (if b then Some () else None)"

lemma guard_simps [simp]: "guard True = Some ()" "guard False = None"
  by (simp_all add: guard_def)

lemma guard_eq_Some [simp]: "guard b = Some u \<longleftrightarrow> b"
  by (simp add: guard_def)

lemma bind_eq_SomeE:
  assumes "Option.bind m f = Some y"
  obtains x where "m = Some x" and "f x = Some y"
  using assms by (cases m) auto

subsection \<open>The object store\<close>

record 'a heap =
  cells :: "addr \<rightharpoonup> 'a"
  next_addr :: addr

definition heap_empty :: "'a heap" where
  "heap_empty = \<lparr>cells = Map.empty, next_addr = 1\<rparr>"

definition heap_get :: "'a heap \<Rightarrow> addr \<Rightarrow> 'a option" where
  "heap_get h a = cells h a"

definition heap_alloc :: "'a \<Rightarrow> 'a heap \<Rightarrow> addr \<times> 'a heap" where
  "heap_alloc v h =
     (next_addr h, h\<lparr>cells := (cells h)(next_addr h \<mapsto> v), next_addr := Suc (next_addr h)\<rparr>)"

definition heap_put :: "addr \<Rightarrow> 'a \<Rightarrow> 'a heap \<Rightarrow> 'a heap" where
  "heap_put a v h = h\<lparr>cells := (cells h)(a \<mapsto> v)\<rparr>"

definition heap_mod :: "addr \<Rightarrow> ('a \<Rightarrow> 'a) \<Rightarrow> 'a heap \<Rightarrow> 'a heap option" where
  "heap_mod a f h = map_option (\<lambda>v. heap_put a (f v) h) (heap_get h a)"

definition heap_del :: "addr \<Rightarrow> 'a heap \<Rightarrow> 'a heap" where
  "heap_del a h = h\<lparr>cells := (cells h)(a := None)\<rparr>"

text \<open>
  \<open>free\<close>: freeing NULL does nothing; freeing an address that is not allocated (a second
  free) is undefined.
\<close>

definition heap_free :: "addr \<Rightarrow> 'a heap \<Rightarrow> 'a heap option" where
  "heap_free a h =
     (if a = NULL then Some h
      else case heap_get h a of None \<Rightarrow> None | Some _ \<Rightarrow> Some (heap_del a h))"

definition heap_wf :: "'a heap \<Rightarrow> bool" where
  "heap_wf h \<longleftrightarrow> (\<forall>a v. heap_get h a = Some v \<longrightarrow> 0 < a \<and> a < next_addr h) \<and> 0 < next_addr h"

lemma heap_get_empty [simp]: "heap_get heap_empty a = None"
  by (simp add: heap_get_def heap_empty_def)

lemma heap_wf_empty [simp]: "heap_wf heap_empty"
  by (simp add: heap_wf_def) (simp add: heap_empty_def)

lemma heap_get_put: "heap_get (heap_put a v h) b = (if b = a then Some v else heap_get h b)"
  by (simp add: heap_get_def heap_put_def)

lemma heap_get_put_simps [simp, heap_simps]:
  "heap_get (heap_put a v h) a = Some v"
  "b \<noteq> a \<Longrightarrow> heap_get (heap_put a v h) b = heap_get h b"
  by (simp_all add: heap_get_put)

lemma heap_get_del: "heap_get (heap_del a h) b = (if b = a then None else heap_get h b)"
  by (simp add: heap_get_def heap_del_def)

lemma heap_get_del_simps [simp, heap_simps]:
  "heap_get (heap_del a h) a = None"
  "b \<noteq> a \<Longrightarrow> heap_get (heap_del a h) b = heap_get h b"
  by (simp_all add: heap_get_del)

lemma heap_mod_Some [simp, heap_simps]:
  "heap_get h a = Some v \<Longrightarrow> heap_mod a f h = Some (heap_put a (f v) h)"
  by (simp add: heap_mod_def)

lemma heap_free_Some [simp, heap_simps]:
  "heap_get h a = Some v \<Longrightarrow> a \<noteq> NULL \<Longrightarrow> heap_free a h = Some (heap_del a h)"
  by (simp add: heap_free_def)

lemma heap_put_same: "heap_get h a = Some v \<Longrightarrow> heap_put a v h = h"
  by (simp add: heap_put_def heap_get_def fun_upd_idem)

lemma heap_put_put [simp]: "heap_put a v (heap_put a w h) = heap_put a v h"
  by (simp add: heap_put_def)

lemma next_addr_put [simp]: "next_addr (heap_put a v h) = next_addr h"
  by (simp add: heap_put_def)

lemma next_addr_del [simp]: "next_addr (heap_del a h) = next_addr h"
  by (simp add: heap_del_def)

lemma heap_wfD: "heap_wf h \<Longrightarrow> heap_get h a = Some v \<Longrightarrow> 0 < a \<and> a < next_addr h"
  by (simp add: heap_wf_def)

lemma heap_wf_nonnull: "heap_wf h \<Longrightarrow> heap_get h a = Some v \<Longrightarrow> a \<noteq> NULL"
  by (auto dest: heap_wfD)

lemma heap_get_NULL [simp]: "heap_wf h \<Longrightarrow> heap_get h NULL = None"
  by (cases "heap_get h NULL") (auto dest: heap_wfD)

lemma heap_wf_put: "heap_wf h \<Longrightarrow> heap_get h a = Some v \<Longrightarrow> heap_wf (heap_put a w h)"
  by (auto simp: heap_wf_def heap_get_put)

lemma heap_wf_put_alloc: "heap_wf h \<Longrightarrow> heap_get h a \<noteq> None \<Longrightarrow> heap_wf (heap_put a w h)"
  by (auto simp: heap_wf_def heap_get_put)

lemma heap_wf_del: "heap_wf h \<Longrightarrow> heap_wf (heap_del a h)"
  by (auto simp: heap_wf_def heap_get_del)

lemma heap_alloc_spec:
  assumes "heap_wf h" and "heap_alloc v h = (a, h')"
  shows "heap_wf h'" and "a \<noteq> NULL" and "heap_get h a = None"
    and "heap_get h' b = (if b = a then Some v else heap_get h b)"
  using assms by (auto simp: heap_alloc_def heap_wf_def heap_get_def less_Suc_eq split: if_splits)

lemma heap_get_alloc:
  "heap_get (snd (heap_alloc v h)) b = (if b = fst (heap_alloc v h) then Some v else heap_get h b)"
  by (simp add: heap_alloc_def heap_get_def)

lemma heap_alloc_fresh: "heap_wf h \<Longrightarrow> heap_get h (fst (heap_alloc v h)) = None"
  by (metis fst_conv heap_alloc_spec(3) surj_pair)

subsection \<open>Byte buffers\<close>

text \<open>
  A buffer is the list of its bytes. \<open>memcpy\<close> between buffers is undefined when it reads
  or writes outside one of them.
\<close>

definition slice :: "'a list \<Rightarrow> nat \<Rightarrow> nat \<Rightarrow> 'a list" where
  "slice xs off n = take n (drop off xs)"

definition splice :: "'a list \<Rightarrow> nat \<Rightarrow> 'a list \<Rightarrow> 'a list" where
  "splice xs off ys = take off xs @ ys @ drop (off + length ys) xs"

definition mem_load :: "'a list \<Rightarrow> nat \<Rightarrow> nat \<Rightarrow> 'a list option" where
  "mem_load xs off n = (if off + n \<le> length xs then Some (slice xs off n) else None)"

definition mem_store :: "'a list \<Rightarrow> nat \<Rightarrow> 'a list \<Rightarrow> 'a list option" where
  "mem_store xs off ys = (if off + length ys \<le> length xs then Some (splice xs off ys) else None)"

lemma length_slice [simp]: "off + n \<le> length xs \<Longrightarrow> length (slice xs off n) = n"
  by (simp add: slice_def)

lemma nth_slice [simp]: "off + n \<le> length xs \<Longrightarrow> i < n \<Longrightarrow> slice xs off n ! i = xs ! (off + i)"
  by (simp add: slice_def)

lemma length_splice [simp]: "off + length ys \<le> length xs \<Longrightarrow> length (splice xs off ys) = length xs"
  by (simp add: splice_def)

lemma nth_splice:
  "off + length ys \<le> length xs \<Longrightarrow> i < length xs \<Longrightarrow>
     splice xs off ys ! i =
       (if off \<le> i \<and> i < off + length ys then ys ! (i - off) else xs ! i)"
  by (auto simp: splice_def nth_append)

lemma mem_load_Some [simp]: "off + n \<le> length xs \<Longrightarrow> mem_load xs off n = Some (slice xs off n)"
  by (simp add: mem_load_def)

lemma mem_store_Some [simp]:
  "off + length ys \<le> length xs \<Longrightarrow> mem_store xs off ys = Some (splice xs off ys)"
  by (simp add: mem_store_def)

lemma slice_all [simp]: "slice xs 0 (length xs) = xs"
  by (simp add: slice_def)

lemma slice_splice_same: "off + length ys \<le> length xs \<Longrightarrow> slice (splice xs off ys) off (length ys) = ys"
  by (simp add: slice_def splice_def)

lemma slice_splice_disjoint:
  assumes "off + length ys \<le> length xs" and "off' + n \<le> length xs"
    and "off' + n \<le> off \<or> off + length ys \<le> off'"
  shows "slice (splice xs off ys) off' n = slice xs off' n"
  using assms by (intro nth_equalityI) (auto simp: nth_splice)

lemma splice_splice:
  assumes "off + length xs + length ys \<le> length zs"
  shows "splice (splice zs off xs) (off + length xs) ys = splice zs off (xs @ ys)"
  using assms by (intro nth_equalityI) (auto simp: nth_splice nth_append)

text \<open>A flat memory is a function from addresses to bytes.\<close>

definition mem_bytes :: "(nat \<Rightarrow> 'b) \<Rightarrow> nat \<Rightarrow> nat \<Rightarrow> 'b list" where
  "mem_bytes mem a n = map (\<lambda>i. mem (a + i)) [0..<n]"

definition mem_write :: "(nat \<Rightarrow> 'b) \<Rightarrow> nat \<Rightarrow> 'b list \<Rightarrow> nat \<Rightarrow> 'b" where
  "mem_write mem a bs = (\<lambda>b. if a \<le> b \<and> b < a + length bs then bs ! (b - a) else mem b)"

lemma length_mem_bytes [simp]: "length (mem_bytes mem a n) = n"
  by (simp add: mem_bytes_def)

lemma mem_bytes_add: "mem_bytes mem a (n + k) = mem_bytes mem a n @ mem_bytes mem (a + n) k"
  by (intro nth_equalityI) (auto simp: mem_bytes_def nth_append add.assoc)

lemma mem_write_Nil [simp]: "mem_write mem a [] = mem"
  by (auto simp: mem_write_def fun_eq_iff)

lemma mem_write_append:
  "mem_write (mem_write mem a xs) (a + length xs) ys = mem_write mem a (xs @ ys)"
  by (auto simp: mem_write_def fun_eq_iff nth_append)

lemma mem_bytes_write_same: "mem_bytes (mem_write mem a bs) a (length bs) = bs"
  by (intro nth_equalityI) (auto simp: mem_bytes_def mem_write_def)

lemma mem_bytes_write_other:
  "b + n \<le> a \<or> a + length bs \<le> b \<Longrightarrow> mem_bytes (mem_write mem a bs) b n = mem_bytes mem b n"
  by (intro nth_equalityI) (auto simp: mem_bytes_def mem_write_def)

end
