(* ===== verification/LList.thy ===== *)
theory LList
  imports Prelude
begin

section \<open>The doubly linked list (lib/list)\<close>

text \<open>
  \<open>llist.c\<close>, \<open>llist_node.c\<close> and \<open>llist_iterator.c\<close>: nodes in an object store,
  linked by \<open>prev\<close> and \<open>next\<close> addresses, and a list header with head, tail and
  length. The header records whether the \<open>free\<close> callback is set and, when it is, the
  values it has been called with; \<open>match\<close> is the optional comparison. A length is a natural
  number: the nodes of a list are distinct objects in a 32-bit address space, so the
  \<open>unsigned int\<close> of the source does not overflow.
\<close>

subsection \<open>Types and operations\<close>

record list_node =
  node_prev :: addr
  node_next :: addr
  node_val :: addr

record llist =
  list_head :: addr
  list_tail :: addr
  list_len :: nat
  list_free :: bool
  list_freed :: "addr list"
  list_match :: "(addr \<Rightarrow> addr \<Rightarrow> bool) option"

datatype list_direction = LIST_HEAD | LIST_TAIL

record list_iterator =
  it_next :: addr
  it_direction :: list_direction

type_synonym node_heap = "list_node heap"

definition list_node_new :: "addr \<Rightarrow> node_heap \<Rightarrow> addr \<times> node_heap" where
  "list_node_new v h = heap_alloc \<lparr>node_prev = NULL, node_next = NULL, node_val = v\<rparr> h"

definition list_new :: llist where
  "list_new = \<lparr>list_head = NULL, list_tail = NULL, list_len = 0, list_free = False,
     list_freed = [], list_match = None\<rparr>"

definition list_iterator_new_from_node :: "addr \<Rightarrow> list_direction \<Rightarrow> list_iterator" where
  "list_iterator_new_from_node n d = \<lparr>it_next = n, it_direction = d\<rparr>"

definition list_iterator_new :: "llist \<Rightarrow> list_direction \<Rightarrow> list_iterator" where
  "list_iterator_new l d =
     list_iterator_new_from_node (if d = LIST_HEAD then list_head l else list_tail l) d"

definition list_iterator_next ::
  "list_iterator \<Rightarrow> node_heap \<Rightarrow> (addr \<times> list_iterator) option" where
  "list_iterator_next it h =
     (let cur = it_next it
      in if cur \<noteq> NULL then do {
           nd \<leftarrow> heap_get h cur;
           Some (cur, it\<lparr>it_next :=
             (if it_direction it = LIST_HEAD then node_next nd else node_prev nd)\<rparr>)
         }
         else Some (cur, it))"

text \<open>\<open>list_free_val\<close>: the guarded call \<open>if (self->free) self->free(val)\<close>.\<close>

definition list_free_val :: "addr \<Rightarrow> llist \<Rightarrow> llist" where
  "list_free_val v l = (if list_free l then l\<lparr>list_freed := list_freed l @ [v]\<rparr> else l)"

fun list_destroy_loop :: "nat \<Rightarrow> addr \<Rightarrow> llist \<Rightarrow> node_heap \<Rightarrow> (llist \<times> node_heap) option" where
  "list_destroy_loop 0 cur l h = Some (l, h)"
| "list_destroy_loop (Suc n) cur l h = do {
     nd \<leftarrow> heap_get h cur;
     h' \<leftarrow> heap_free cur h;
     list_destroy_loop n (node_next nd) (list_free_val (node_val nd) l) h'
   }"

definition list_destroy :: "llist \<Rightarrow> node_heap \<Rightarrow> (llist \<times> node_heap) option" where
  "list_destroy l h = list_destroy_loop (list_len l) (list_head l) l h"

definition list_remove_internal ::
  "llist \<Rightarrow> addr \<Rightarrow> bool \<Rightarrow> node_heap \<Rightarrow> (llist \<times> node_heap) option" where
  "list_remove_internal l node free_node_memory h =
     (if node = NULL \<or> (list_head l = NULL \<and> list_tail l = NULL) then Some (l, h)
      else do {
        nd \<leftarrow> heap_get h node;
        let a = node_prev nd;
        let c = node_next nd;
        h \<leftarrow> (if a \<noteq> NULL then heap_mod a (node_next_update (\<lambda>_. c)) h else Some h);
        h \<leftarrow> (if c \<noteq> NULL then heap_mod c (node_prev_update (\<lambda>_. a)) h else Some h);
        let at_head = (list_head l \<noteq> NULL \<and> list_head l = node);
        let l = (if at_head then l\<lparr>list_head := c\<rparr> else l);
        let at_tail = (list_tail l \<noteq> NULL \<and> list_tail l = node);
        let l = (if at_tail then l\<lparr>list_tail := a\<rparr> else l);
        let removed = (a \<noteq> NULL \<or> c \<noteq> NULL \<or> at_head \<or> at_tail);
        h \<leftarrow> heap_mod node (node_prev_update (\<lambda>_. NULL)) h;
        h \<leftarrow> heap_mod node (node_next_update (\<lambda>_. NULL)) h;
        (l, h) \<leftarrow> (if free_node_memory
                  then do {
                    h \<leftarrow> heap_free node h;
                    Some (list_free_val (node_val nd) l, h)
                  }
                  else Some (l, h));
        Some (if removed then l\<lparr>list_len := list_len l - 1\<rparr> else l, h)
      })"

definition list_remove :: "llist \<Rightarrow> addr \<Rightarrow> node_heap \<Rightarrow> (llist \<times> node_heap) option" where
  "list_remove l node h = list_remove_internal l node True h"

definition list_rpush :: "llist \<Rightarrow> addr \<Rightarrow> node_heap \<Rightarrow> (addr \<times> llist \<times> node_heap) option" where
  "list_rpush l node h =
     (if node = NULL then Some (NULL, l, h)
      else do {
        (l, h) \<leftarrow> list_remove_internal l node False h;
        (l, h) \<leftarrow> (if list_len l \<noteq> 0
                  then do {
                    h \<leftarrow> heap_mod node (node_prev_update (\<lambda>_. list_tail l)) h;
                    h \<leftarrow> heap_mod node (node_next_update (\<lambda>_. NULL)) h;
                    h \<leftarrow> heap_mod (list_tail l) (node_next_update (\<lambda>_. node)) h;
                    Some (l\<lparr>list_tail := node\<rparr>, h)
                  }
                  else do {
                    h \<leftarrow> heap_mod node (node_next_update (\<lambda>_. NULL)) h;
                    h \<leftarrow> heap_mod node (node_prev_update (\<lambda>_. NULL)) h;
                    Some (l\<lparr>list_head := node, list_tail := node\<rparr>, h)
                  });
        Some (node, l\<lparr>list_len := list_len l + 1\<rparr>, h)
      })"

definition list_lpush :: "llist \<Rightarrow> addr \<Rightarrow> node_heap \<Rightarrow> (addr \<times> llist \<times> node_heap) option" where
  "list_lpush l node h =
     (if node = NULL then Some (NULL, l, h)
      else do {
        (l, h) \<leftarrow> list_remove_internal l node False h;
        (l, h) \<leftarrow> (if list_len l \<noteq> 0
                  then do {
                    h \<leftarrow> heap_mod node (node_next_update (\<lambda>_. list_head l)) h;
                    h \<leftarrow> heap_mod node (node_prev_update (\<lambda>_. NULL)) h;
                    h \<leftarrow> heap_mod (list_head l) (node_prev_update (\<lambda>_. node)) h;
                    Some (l\<lparr>list_head := node\<rparr>, h)
                  }
                  else do {
                    h \<leftarrow> heap_mod node (node_next_update (\<lambda>_. NULL)) h;
                    h \<leftarrow> heap_mod node (node_prev_update (\<lambda>_. NULL)) h;
                    Some (l\<lparr>list_head := node, list_tail := node\<rparr>, h)
                  });
        Some (node, l\<lparr>list_len := list_len l + 1\<rparr>, h)
      })"

definition list_rpop :: "llist \<Rightarrow> node_heap \<Rightarrow> (addr \<times> llist \<times> node_heap) option" where
  "list_rpop l h =
     (if list_len l = 0 then Some (NULL, l, h)
      else do {
        let node = list_tail l;
        let l = l\<lparr>list_len := list_len l - 1\<rparr>;
        (l, h) \<leftarrow> (if list_len l \<noteq> 0
                  then do {
                    nd \<leftarrow> heap_get h node;
                    let l = l\<lparr>list_tail := node_prev nd\<rparr>;
                    h \<leftarrow> heap_mod (node_prev nd) (node_next_update (\<lambda>_. NULL)) h;
                    Some (l, h)
                  }
                  else Some (l\<lparr>list_tail := NULL, list_head := NULL\<rparr>, h));
        h \<leftarrow> heap_mod node (node_prev_update (\<lambda>_. NULL)) h;
        h \<leftarrow> heap_mod node (node_next_update (\<lambda>_. NULL)) h;
        Some (node, l, h)
      })"

definition list_lpop :: "llist \<Rightarrow> node_heap \<Rightarrow> (addr \<times> llist \<times> node_heap) option" where
  "list_lpop l h =
     (if list_len l = 0 then Some (NULL, l, h)
      else do {
        let node = list_head l;
        let l = l\<lparr>list_len := list_len l - 1\<rparr>;
        (l, h) \<leftarrow> (if list_len l \<noteq> 0
                  then do {
                    nd \<leftarrow> heap_get h node;
                    let l = l\<lparr>list_head := node_next nd\<rparr>;
                    h \<leftarrow> heap_mod (node_next nd) (node_prev_update (\<lambda>_. NULL)) h;
                    Some (l, h)
                  }
                  else Some (l\<lparr>list_head := NULL, list_tail := NULL\<rparr>, h));
        h \<leftarrow> heap_mod node (node_prev_update (\<lambda>_. NULL)) h;
        h \<leftarrow> heap_mod node (node_next_update (\<lambda>_. NULL)) h;
        Some (node, l, h)
      })"

text \<open>
  The search loop of \<open>list_find\<close>. On a cyclic chain of nodes the loop of the source does not
  end; the model has no result there.
\<close>

partial_function (option) list_find_loop ::
  "llist \<Rightarrow> addr \<Rightarrow> list_iterator \<Rightarrow> node_heap \<Rightarrow> addr option" where
  "list_find_loop l v it h =
     Option.bind (list_iterator_next it h) (\<lambda>(node, it').
       if node = NULL then Some NULL
       else Option.bind (heap_get h node) (\<lambda>nd.
         if (case list_match l of Some m \<Rightarrow> m v (node_val nd) | None \<Rightarrow> v = node_val nd)
         then Some node
         else list_find_loop l v it' h))"

definition list_find :: "llist \<Rightarrow> addr \<Rightarrow> node_heap \<Rightarrow> addr option" where
  "list_find l v h = list_find_loop l v (list_iterator_new l LIST_HEAD) h"

fun list_at_loop :: "nat \<Rightarrow> addr \<Rightarrow> list_iterator \<Rightarrow> node_heap \<Rightarrow> addr option" where
  "list_at_loop 0 node it h = Some node"
| "list_at_loop (Suc i) node it h = do {
     (node', it') \<leftarrow> list_iterator_next it h;
     list_at_loop i node' it' h
   }"

text \<open>A negative index counts from the tail: \<open>~index\<close> is \<open>- index - 1\<close>.\<close>

definition list_at :: "llist \<Rightarrow> int \<Rightarrow> node_heap \<Rightarrow> addr option" where
  "list_at l index h =
     (let direction = (if index < 0 then LIST_TAIL else LIST_HEAD);
          index = nat (if index < 0 then - index - 1 else index)
      in if index < list_len l then do {
           (node, it) \<leftarrow> list_iterator_next (list_iterator_new l direction) h;
           list_at_loop index node it h
         }
         else Some NULL)"

subsection \<open>Representation of a list of node addresses\<close>

text \<open>
  \<open>dseg h p ns n\<close>: the nodes \<open>ns\<close> are linked in this order both ways, the first one
  has \<open>prev\<close> \<open>p\<close>, the last one has \<open>next\<close> \<open>n\<close>.
\<close>

fun first_or :: "addr list \<Rightarrow> addr \<Rightarrow> addr" where
  "first_or [] n = n"
| "first_or (x # xs) n = x"

fun last_or :: "addr \<Rightarrow> addr list \<Rightarrow> addr" where
  "last_or p [] = p"
| "last_or p (x # xs) = last_or x xs"

fun dseg :: "node_heap \<Rightarrow> addr \<Rightarrow> addr list \<Rightarrow> addr \<Rightarrow> bool" where
  "dseg h p [] n \<longleftrightarrow> True"
| "dseg h p (a # as) n \<longleftrightarrow>
     (\<exists>nd. heap_get h a = Some nd \<and> node_prev nd = p \<and> node_next nd = first_or as n
        \<and> dseg h a as n)"

definition list_rep :: "llist \<Rightarrow> node_heap \<Rightarrow> addr list \<Rightarrow> bool" where
  "list_rep l h ns \<longleftrightarrow> heap_wf h \<and> distinct ns \<and> dseg h NULL ns NULL
     \<and> list_head l = first_or ns NULL \<and> list_tail l = last_or NULL ns
     \<and> list_len l = length ns"

definition val_of :: "node_heap \<Rightarrow> addr \<Rightarrow> addr option" where
  "val_of h a = map_option node_val (heap_get h a)"

lemma first_or_append [simp]: "first_or (xs @ ys) n = first_or xs (first_or ys n)"
  by (cases xs) auto

lemma last_or_append [simp]: "last_or p (xs @ ys) = last_or (last_or p xs) ys"
  by (induction xs arbitrary: p) auto

lemma first_or_in: "xs \<noteq> [] \<Longrightarrow> first_or xs n \<in> set xs"
  by (cases xs) auto

lemma last_or_in: "xs \<noteq> [] \<Longrightarrow> last_or p xs \<in> set xs"
  by (induction xs arbitrary: p) (auto, metis last_or.simps(1))

lemma last_or_cases: "last_or p xs = p \<or> last_or p xs \<in> set xs"
  by (cases "xs = []") (auto dest: last_or_in)

lemma first_or_cases: "first_or xs n = n \<or> first_or xs n \<in> set xs"
  by (cases xs) auto

lemma dseg_append:
  "dseg h p (xs @ ys) n \<longleftrightarrow> dseg h p xs (first_or ys n) \<and> dseg h (last_or p xs) ys n"
  by (induction xs arbitrary: p) auto

lemma dseg_frame [simp]: "a \<notin> set xs \<Longrightarrow> dseg (heap_put a v h) p xs n = dseg h p xs n"
  by (induction xs arbitrary: p) (auto simp: heap_get_put)

lemma dseg_frame_del [simp]: "a \<notin> set xs \<Longrightarrow> dseg (heap_del a h) p xs n = dseg h p xs n"
  by (induction xs arbitrary: p) (auto simp: heap_get_del)

lemma dseg_cong:
  "(\<And>a. a \<in> set xs \<Longrightarrow> heap_get h' a = heap_get h a) \<Longrightarrow> dseg h' p xs n = dseg h p xs n"
  by (induction xs arbitrary: p) auto

lemma dseg_alloc:
  "dseg h p xs n \<Longrightarrow> a \<in> set xs \<Longrightarrow> \<exists>nd. heap_get h a = Some nd"
  by (induction xs arbitrary: p) auto

lemma dseg_alloc_dom: "heap_wf h \<Longrightarrow> dseg h p xs n \<Longrightarrow> NULL \<notin> set xs"
  using dseg_alloc heap_get_NULL by fastforce

lemma list_rep_alloc: "list_rep l h ns \<Longrightarrow> a \<in> set ns \<Longrightarrow> \<exists>nd. heap_get h a = Some nd"
  by (auto simp: list_rep_def dest: dseg_alloc)

lemma list_rep_nonnull: "list_rep l h ns \<Longrightarrow> NULL \<notin> set ns"
  by (auto simp: list_rep_def dest: dseg_alloc_dom)

text \<open>Rewriting the links around a gap: what unlinking a node does to its two neighbours.\<close>

definition relink_next :: "node_heap \<Rightarrow> addr \<Rightarrow> addr \<Rightarrow> node_heap" where
  "relink_next h a c = (if a \<noteq> NULL then heap_put a (the (heap_get h a)\<lparr>node_next := c\<rparr>) h else h)"

definition relink_prev :: "node_heap \<Rightarrow> addr \<Rightarrow> addr \<Rightarrow> node_heap" where
  "relink_prev h c a = (if c \<noteq> NULL then heap_put c (the (heap_get h c)\<lparr>node_prev := a\<rparr>) h else h)"

definition unlink_node :: "node_heap \<Rightarrow> addr \<Rightarrow> addr \<Rightarrow> node_heap" where
  "unlink_node h a c = relink_prev (relink_next h a c) c a"

lemmas unlink_defs = unlink_node_def relink_next_def relink_prev_def

lemma unlink_node_get [simp]:
  "x \<noteq> a \<Longrightarrow> x \<noteq> c \<Longrightarrow> heap_get (unlink_node h a c) x = heap_get h x"
  by (simp add: unlink_defs heap_get_put)

lemma unlink_node_wf:
  assumes "heap_wf h" and "a \<noteq> NULL \<Longrightarrow> heap_get h a \<noteq> None"
    and "c \<noteq> NULL \<Longrightarrow> heap_get h c \<noteq> None"
  shows "heap_wf (unlink_node h a c)"
proof -
  let ?h1 = "if a \<noteq> NULL then heap_put a (the (heap_get h a)\<lparr>node_next := c\<rparr>) h else h"
  have "heap_wf ?h1" using assms(1,2) by (auto intro!: heap_wf_put_alloc)
  moreover have "heap_get ?h1 c \<noteq> None" if "c \<noteq> NULL"
    using assms(3) that by (simp add: heap_get_put)
  ultimately show ?thesis by (simp add: unlink_defs heap_wf_put_alloc)
qed

lemma unlink_node_val:
  assumes "a \<noteq> NULL \<Longrightarrow> heap_get h a \<noteq> None" and "c \<noteq> NULL \<Longrightarrow> heap_get h c \<noteq> None"
  shows "val_of (unlink_node h a c) x = val_of h x"
  using assms by (auto simp: unlink_defs heap_get_put val_of_def)

lemma unlink_node_dseg:
  assumes "dseg h NULL xs b" and "dseg h b ys NULL" and "distinct (xs @ ys)"
    and "NULL \<notin> set (xs @ ys)"
  shows "dseg (unlink_node h (last_or NULL xs) (first_or ys NULL)) NULL (xs @ ys) NULL"
proof (cases xs rule: rev_cases)
  case Nil
  then show ?thesis using assms by (cases ys) (auto simp: unlink_defs)
next
  case (snoc xs' x)
  then obtain ndx where ndx: "heap_get h x = Some ndx"
    using assms(1) by (auto simp: dseg_append)
  show ?thesis
  proof (cases ys)
    case Nil
    then show ?thesis using assms snoc ndx
      by (auto simp: unlink_defs dseg_append)
  next
    case (Cons y ys')
    then obtain ndy where ndy: "heap_get h y = Some ndy"
      using assms(2) by auto
    show ?thesis using assms snoc Cons ndx ndy
      by (auto simp: unlink_defs dseg_append heap_get_put)
  qed
qed

subsection \<open>Removing a node\<close>

lemma list_rep_ends:
  assumes "list_rep l h ns"
  shows "list_head l = NULL \<longleftrightarrow> ns = []" and "list_tail l = NULL \<longleftrightarrow> ns = []"
    and "list_head l \<in> set ns \<or> ns = []" and "list_tail l \<in> set ns \<or> ns = []"
proof -
  have rep: "list_head l = first_or ns NULL" "list_tail l = last_or NULL ns"
    using assms by (auto simp: list_rep_def)
  show head: "list_head l \<in> set ns \<or> ns = []" and tail: "list_tail l \<in> set ns \<or> ns = []"
    using rep first_or_in last_or_in by auto
  show "list_head l = NULL \<longleftrightarrow> ns = []" and "list_tail l = NULL \<longleftrightarrow> ns = []"
    using head tail list_rep_nonnull [OF assms] rep by auto
qed

lemma list_remove_internal_detached:
  assumes rep: "list_rep l h ns" and "a \<notin> set ns" and "a \<noteq> NULL"
    and nd: "heap_get h a = Some nd" "node_prev nd = NULL" "node_next nd = NULL"
  shows "list_remove_internal l a False h = Some (l, h)"
proof -
  have "heap_put a (nd\<lparr>node_prev := NULL, node_next := NULL\<rparr>) h = h"
    using nd by (intro heap_put_same) simp
  then show ?thesis
    using assms(2,3) nd list_rep_ends [OF rep] by (auto simp: list_remove_internal_def Let_def)
qed

lemma list_rep_middle:
  assumes "list_rep l h (xs @ a # ys)"
  obtains nd where "heap_get h a = Some nd" "node_prev nd = last_or NULL xs"
    "node_next nd = first_or ys NULL" "dseg h NULL xs a" "dseg h a ys NULL"
    "distinct (xs @ ys)" "a \<notin> set (xs @ ys)" "NULL \<notin> set (xs @ ys)" "a \<noteq> NULL" "heap_wf h"
  using assms list_rep_nonnull [OF assms] by (auto simp: list_rep_def dseg_append)

lemma list_rep_unlink:
  assumes "list_rep l h (xs @ a # ys)"
  defines "h1 \<equiv> unlink_node h (last_or NULL xs) (first_or ys NULL)"
  shows "list_rep (l\<lparr>list_head := first_or (xs @ ys) NULL, list_tail := last_or NULL (xs @ ys),
             list_len := length (xs @ ys)\<rparr>) h1 (xs @ ys)"
    and "\<And>x. val_of h1 x = val_of h x"
    and "heap_get h1 a = heap_get h a"
    and "\<And>x. x \<notin> set (xs @ ys) \<Longrightarrow> x \<noteq> NULL \<Longrightarrow> heap_get h1 x = heap_get h x"
proof -
  obtain nd where nd: "heap_get h a = Some nd" "node_prev nd = last_or NULL xs"
    "node_next nd = first_or ys NULL" "dseg h NULL xs a" "dseg h a ys NULL"
    "distinct (xs @ ys)" "a \<notin> set (xs @ ys)" "NULL \<notin> set (xs @ ys)" "a \<noteq> NULL" "heap_wf h"
    by (rule list_rep_middle [OF assms(1)])
  have ends: "last_or NULL xs = NULL \<or> last_or NULL xs \<in> set xs"
    "first_or ys NULL = NULL \<or> first_or ys NULL \<in> set ys"
    by (cases "xs = []"; use last_or_in in auto) (cases "ys = []"; use first_or_in in auto)
  have alloc: "last_or NULL xs \<noteq> NULL \<Longrightarrow> heap_get h (last_or NULL xs) \<noteq> None"
    "first_or ys NULL \<noteq> NULL \<Longrightarrow> heap_get h (first_or ys NULL) \<noteq> None"
    using ends nd(4,5) dseg_alloc by fastforce+
  show "\<And>x. val_of h1 x = val_of h x"
    unfolding h1_def using unlink_node_val alloc by blast
  show other: "heap_get h1 x = heap_get h x" if "x \<notin> set (xs @ ys)" "x \<noteq> NULL" for x
    unfolding h1_def using that ends by (intro unlink_node_get) auto
  then show "heap_get h1 a = heap_get h a" using nd(7,9) by simp
  show "list_rep (l\<lparr>list_head := first_or (xs @ ys) NULL, list_tail := last_or NULL (xs @ ys),
             list_len := length (xs @ ys)\<rparr>) h1 (xs @ ys)"
    using unlink_node_dseg [OF nd(4-6,8)] unlink_node_wf [OF nd(10) alloc] nd(6)
    by (simp add: list_rep_def h1_def)
qed

lemma list_rep_put_outside:
  assumes "list_rep l h ns" and "a \<notin> set ns" and "heap_get h a \<noteq> None"
  shows "list_rep l (heap_put a nd h) ns"
  using assms by (auto simp: list_rep_def intro: heap_wf_put_alloc)

lemma list_rep_del_outside:
  "list_rep l h ns \<Longrightarrow> a \<notin> set ns \<Longrightarrow> list_rep l (heap_del a h) ns"
  by (auto simp: list_rep_def heap_wf_del)

text \<open>
  Removing a node of the list: it is taken out of the chain and detached, no other node changes
  its value, and no node outside the list changes at all. With \<open>free_node_memory\<close> the node
  is freed.
\<close>

lemma list_remove_internal_linked:
  assumes rep: "list_rep l h (xs @ a # ys)"
  obtains l' h' nd where "list_remove_internal l a f h = Some (l', h')"
    and "list_rep l' h' (xs @ ys)" and "heap_get h a = Some nd"
    and "heap_get h' a =
           (if f then None else Some (nd\<lparr>node_prev := NULL, node_next := NULL\<rparr>))"
    and "\<And>x. x \<noteq> a \<Longrightarrow> val_of h' x = val_of h x"
    and "\<And>x. x \<notin> set (xs @ a # ys) \<Longrightarrow> heap_get h' x = heap_get h x"
proof -
  obtain nd where nd: "heap_get h a = Some nd" "node_prev nd = last_or NULL xs"
    "node_next nd = first_or ys NULL" "dseg h NULL xs a" "dseg h a ys NULL"
    "distinct (xs @ ys)" "a \<notin> set (xs @ ys)" "NULL \<notin> set (xs @ ys)" "a \<noteq> NULL" "heap_wf h"
    by (rule list_rep_middle [OF rep])
  let ?p = "last_or NULL xs" and ?n = "first_or ys NULL"
  let ?h1 = "unlink_node h ?p ?n"
  let ?nd = "nd\<lparr>node_prev := NULL, node_next := NULL\<rparr>"
  let ?l = "l\<lparr>list_head := first_or (xs @ ys) NULL, list_tail := last_or NULL (xs @ ys),
              list_len := length (xs @ ys)\<rparr>"
  note unl = list_rep_unlink [OF rep]
  have ends: "list_head l = first_or xs a" "list_tail l = last_or a ys"
    "list_len l = Suc (length (xs @ ys))"
    using rep by (auto simp: list_rep_def)
  have p: "?p = NULL \<or> heap_get h ?p \<noteq> None \<and> ?p \<in> set xs"
    using last_or_cases [of NULL xs] dseg_alloc [OF nd(4), of ?p] by auto
  have n: "?n = NULL \<or> heap_get h ?n \<noteq> None \<and> ?n \<in> set ys"
    using first_or_cases [of ys NULL] dseg_alloc [OF nd(5), of ?n] by auto
  have step1: "(if ?p \<noteq> NULL then heap_mod ?p (node_next_update (\<lambda>_. ?n)) h else Some h)
      = Some (relink_next h ?p ?n)"
    using p by (auto simp: relink_next_def)
  have step2: "(if ?n \<noteq> NULL then heap_mod ?n (node_prev_update (\<lambda>_. ?p)) (relink_next h ?p ?n)
      else Some (relink_next h ?p ?n)) = Some ?h1"
    using n p by (auto simp: relink_next_def relink_prev_def unlink_node_def heap_get_put)
  have h1a: "heap_get ?h1 a = Some nd" using unl(3) nd(1) by simp
  let ?h2 = "heap_put a ?nd ?h1"
  let ?h3 = "if f then heap_del a ?h2 else ?h2"
  let ?l1 = "if xs = [] then l\<lparr>list_head := ?n\<rparr> else l"
  let ?l2 = "if ys = [] then ?l1\<lparr>list_tail := ?p\<rparr> else ?l1"
  let ?l3 = "if f then list_free_val (node_val nd) ?l2 else ?l2"
  let ?l' = "?l3\<lparr>list_len := list_len ?l3 - 1\<rparr>"
  have live: "(a = NULL \<or> (list_head l = NULL \<and> list_tail l = NULL)) = False"
    using nd(9) list_rep_ends [OF rep] by auto
  have hd_a: "(list_head l \<noteq> NULL \<and> list_head l = a) = (xs = [])"
    using ends nd(7,8,9) by (cases xs) auto
  have tl_a: "(list_tail ?l1 \<noteq> NULL \<and> list_tail ?l1 = a) = (ys = [])"
    using ends nd(7,8,9) last_or_in [of ys a] by (cases "ys = []") auto
  have rem: "(?p \<noteq> NULL \<or> ?n \<noteq> NULL \<or> xs = [] \<or> ys = []) = True"
    using nd(8) last_or_in [of xs NULL] by (cases "xs = []") auto
  have m1: "heap_mod a (node_prev_update (\<lambda>_. NULL)) ?h1 = Some (heap_put a (nd\<lparr>node_prev := NULL\<rparr>) ?h1)"
    and m2: "heap_mod a (node_next_update (\<lambda>_. NULL)) (heap_put a (nd\<lparr>node_prev := NULL\<rparr>) ?h1)
      = Some ?h2"
    using h1a by simp_all
  have run: "list_remove_internal l a f h = Some (?l', ?h3)"
    unfolding list_remove_internal_def
    by (simp only: live if_False nd(1-3) bind.bind_lunit Let_def step1 step2 hd_a tl_a rem m1 m2)
      (use nd(9) in simp)
  show thesis
  proof
    show "heap_get h a = Some nd" by (rule nd(1))
    show "list_remove_internal l a f h = Some (?l', ?h3)" by (rule run)
    have "list_rep ?l ?h2 (xs @ ys)"
      using unl(1) nd(7) h1a by (intro list_rep_put_outside) auto
    then have "list_rep ?l ?h3 (xs @ ys)"
      using nd(7) by (auto intro: list_rep_del_outside)
    moreover have "list_head ?l' = list_head ?l \<and> list_tail ?l' = list_tail ?l \<and> list_len ?l' = list_len ?l"
      using ends by (cases xs; cases ys rule: rev_cases) (auto simp: list_free_val_def)
    ultimately show "list_rep ?l' ?h3 (xs @ ys)"
      by (simp only: list_rep_def)
    show "heap_get ?h3 a = (if f then None else Some ?nd)" by simp
    show "val_of ?h3 x = val_of h x" if "x \<noteq> a" for x
      using unl(2) [of x] that by (simp add: val_of_def)
    show "heap_get ?h3 x = heap_get h x" if "x \<notin> set (xs @ a # ys)" for x
    proof (cases "x = NULL")
      case False
      then show ?thesis using unl(4) [of x] that by simp
    next
      case True
      then show ?thesis using list_rep_put_outside unl(1) nd(9,10) by (simp add: list_rep_def)
    qed
  qed
qed

subsection \<open>Pushing and popping\<close>

text \<open>What the list operations keep: the values of all nodes, and every node they do not own.\<close>

definition frame_except :: "addr set \<Rightarrow> node_heap \<Rightarrow> node_heap \<Rightarrow> bool" where
  "frame_except ns h h' \<longleftrightarrow>
     (\<forall>x. val_of h' x = val_of h x) \<and> (\<forall>x. x \<notin> ns \<longrightarrow> heap_get h' x = heap_get h x)"

lemma frame_except_trans:
  "frame_except ns h h' \<Longrightarrow> frame_except ns h' h'' \<Longrightarrow> frame_except ns h h''"
  by (simp add: frame_except_def)

lemma frame_except_mono: "frame_except ns h h' \<Longrightarrow> ns \<subseteq> ms \<Longrightarrow> frame_except ms h h'"
  by (auto simp: frame_except_def)

lemma val_of_put: "val_of (heap_put a nd h) x = (if x = a then Some (node_val nd) else val_of h x)"
  by (simp add: val_of_def heap_get_put)

lemma val_ofI: "heap_get h a = Some nd \<Longrightarrow> val_of h a = Some (node_val nd)"
  by (simp add: val_of_def)

lemma list_lpush_detached:
  assumes rep: "list_rep l h ns" and a: "a \<notin> set ns"
    and nd: "heap_get h a = Some nd" "node_prev nd = NULL" "node_next nd = NULL"
  obtains l' h' where "list_lpush l a h = Some (a, l', h')" and "list_rep l' h' (a # ns)"
    and "frame_except (insert a (set ns)) h h'"
proof -
  have wf: "heap_wf h" using rep by (simp add: list_rep_def)
  then have a0: "a \<noteq> NULL" by (rule heap_wf_nonnull [OF _ nd(1)])
  have rem: "list_remove_internal l a False h = Some (l, h)"
    using list_remove_internal_detached [OF rep a a0 nd] .
  show thesis
  proof (cases ns)
    case Nil
    let ?h = "heap_put a (nd\<lparr>node_next := NULL, node_prev := NULL\<rparr>) h"
    have "list_lpush l a h = Some (a, l\<lparr>list_head := a, list_tail := a, list_len := 1\<rparr>, ?h)"
      using a0 rem nd(1) rep Nil by (simp add: list_lpush_def list_rep_def)
    moreover have "list_rep (l\<lparr>list_head := a, list_tail := a, list_len := 1\<rparr>) ?h (a # ns)"
      using Nil wf nd(1) by (auto simp: list_rep_def intro: heap_wf_put_alloc)
    moreover have "frame_except (insert a (set ns)) h ?h"
      using nd(1) by (auto simp: frame_except_def val_of_put val_ofI)
    ultimately show thesis by (rule that)
  next
    case (Cons b bs)
    have b: "b \<noteq> a" "list_head l = b" "list_len l = Suc (length bs)" "b \<noteq> NULL"
      using rep a Cons list_rep_nonnull [OF rep] by (auto simp: list_rep_def)
    obtain ndb where ndb: "heap_get h b = Some ndb"
      using list_rep_alloc [OF rep, of b] Cons by auto
    let ?h = "heap_put b (ndb\<lparr>node_prev := a\<rparr>)
                (heap_put a (nd\<lparr>node_next := b, node_prev := NULL\<rparr>) h)"
    have "list_lpush l a h = Some (a, l\<lparr>list_head := a, list_len := Suc (length ns)\<rparr>, ?h)"
      using a0 rem nd(1) b ndb Cons by (simp add: list_lpush_def)
    moreover have "list_rep (l\<lparr>list_head := a, list_len := Suc (length ns)\<rparr>) ?h (a # ns)"
      using Cons wf nd(1) ndb b rep a
      by (auto simp: list_rep_def heap_get_put intro!: heap_wf_put_alloc)
    moreover have "frame_except (insert a (set ns)) h ?h"
      using nd(1) ndb b Cons by (auto simp: frame_except_def val_of_put val_ofI)
    ultimately show thesis by (rule that)
  qed
qed

lemma list_rpush_detached:
  assumes rep: "list_rep l h ns" and a: "a \<notin> set ns"
    and nd: "heap_get h a = Some nd" "node_prev nd = NULL" "node_next nd = NULL"
  obtains l' h' where "list_rpush l a h = Some (a, l', h')" and "list_rep l' h' (ns @ [a])"
    and "frame_except (insert a (set ns)) h h'"
proof -
  have wf: "heap_wf h" using rep by (simp add: list_rep_def)
  then have a0: "a \<noteq> NULL" by (rule heap_wf_nonnull [OF _ nd(1)])
  have rem: "list_remove_internal l a False h = Some (l, h)"
    using list_remove_internal_detached [OF rep a a0 nd] .
  show thesis
  proof (cases ns rule: rev_cases)
    case Nil
    let ?h = "heap_put a (nd\<lparr>node_next := NULL, node_prev := NULL\<rparr>) h"
    have "list_rpush l a h = Some (a, l\<lparr>list_head := a, list_tail := a, list_len := 1\<rparr>, ?h)"
      using a0 rem nd(1) rep Nil by (simp add: list_rpush_def list_rep_def)
    moreover have "list_rep (l\<lparr>list_head := a, list_tail := a, list_len := 1\<rparr>) ?h (ns @ [a])"
      using Nil wf nd(1) by (auto simp: list_rep_def intro: heap_wf_put_alloc)
    moreover have "frame_except (insert a (set ns)) h ?h"
      using nd(1) by (auto simp: frame_except_def val_of_put val_ofI)
    ultimately show thesis by (rule that)
  next
    case (snoc bs b)
    have b: "b \<noteq> a" "list_tail l = b" "list_len l = Suc (length bs)" "b \<noteq> NULL"
      using rep a snoc list_rep_nonnull [OF rep] by (auto simp: list_rep_def)
    obtain ndb where ndb: "heap_get h b = Some ndb"
      using list_rep_alloc [OF rep, of b] snoc by auto
    let ?h = "heap_put b (ndb\<lparr>node_next := a\<rparr>)
                (heap_put a (nd\<lparr>node_prev := b, node_next := NULL\<rparr>) h)"
    have "list_rpush l a h = Some (a, l\<lparr>list_tail := a, list_len := Suc (length ns)\<rparr>, ?h)"
      using a0 rem nd(1) b ndb snoc by (simp add: list_rpush_def)
    moreover have "list_rep (l\<lparr>list_tail := a, list_len := Suc (length ns)\<rparr>) ?h (ns @ [a])"
      using snoc wf nd(1) ndb b rep a
      by (auto simp: list_rep_def heap_get_put dseg_append intro!: heap_wf_put_alloc)
    moreover have "frame_except (insert a (set ns)) h ?h"
      using nd(1) ndb b snoc by (auto simp: frame_except_def val_of_put val_ofI)
    ultimately show thesis by (rule that)
  qed
qed

text \<open>Pushing a node that is already in the list moves it to the front (or to the back).\<close>

lemma remove_then_detached:
  assumes rep: "list_rep l h (xs @ a # ys)"
  obtains l' h' nd' where "list_remove_internal l a False h = Some (l', h')"
    and "list_rep l' h' (xs @ ys)" and "heap_get h' a = Some nd'"
    and "node_prev nd' = NULL" "node_next nd' = NULL"
    and "frame_except (set (xs @ a # ys)) h h'"
    and "a \<notin> set (xs @ ys)"
proof -
  obtain l' h' nd where r: "list_remove_internal l a False h = Some (l', h')"
    "list_rep l' h' (xs @ ys)" "heap_get h a = Some nd"
    "heap_get h' a = (if False then None else Some (nd\<lparr>node_prev := NULL, node_next := NULL\<rparr>))"
    "\<And>x. x \<noteq> a \<Longrightarrow> val_of h' x = val_of h x"
    "\<And>x. x \<notin> set (xs @ a # ys) \<Longrightarrow> heap_get h' x = heap_get h x"
    using list_remove_internal_linked [OF rep, of False] by blast
  have "val_of h' x = val_of h x" for x
    using r(3,4,5) by (cases "x = a") (auto simp: val_of_def)
  moreover have "a \<notin> set (xs @ ys)" using rep by (auto simp: list_rep_def)
  ultimately show thesis
    using r that [of l' h' "nd\<lparr>node_prev := NULL, node_next := NULL\<rparr>"]
    by (simp add: frame_except_def)
qed

lemma list_lpush_linked:
  assumes rep: "list_rep l h (xs @ a # ys)"
  obtains l' h' where "list_lpush l a h = Some (a, l', h')" and "list_rep l' h' (a # xs @ ys)"
    and "frame_except (set (xs @ a # ys)) h h'"
proof -
  obtain l1 h1 nd1 where r: "list_remove_internal l a False h = Some (l1, h1)"
    "list_rep l1 h1 (xs @ ys)" "heap_get h1 a = Some nd1" "node_prev nd1 = NULL"
    "node_next nd1 = NULL" "frame_except (set (xs @ a # ys)) h h1" "a \<notin> set (xs @ ys)"
    by (rule remove_then_detached [OF rep])
  obtain l2 h2 where p: "list_lpush l1 a h1 = Some (a, l2, h2)" "list_rep l2 h2 (a # xs @ ys)"
    "frame_except (insert a (set (xs @ ys))) h1 h2"
    by (rule list_lpush_detached [OF r(2,7,3,4,5)])
  have a0: "a \<noteq> NULL" using list_rep_nonnull [OF rep] by auto
  have "list_remove_internal l1 a False h1 = Some (l1, h1)"
    using list_remove_internal_detached [OF r(2,7) a0 r(3-5)] .
  then have "list_lpush l a h = list_lpush l1 a h1"
    using r(1) a0 by (simp add: list_lpush_def)
  moreover have "frame_except (set (xs @ a # ys)) h h2"
    using frame_except_trans [OF r(6) frame_except_mono [OF p(3)]] by auto
  ultimately show thesis using p(1,2) that by simp
qed

lemma list_remove_linked:
  assumes rep: "list_rep l h (xs @ a # ys)"
  obtains l' h' where "list_remove l a h = Some (l', h')" and "list_rep l' h' (xs @ ys)"
    and "heap_get h' a = None" and "\<And>x. x \<noteq> a \<Longrightarrow> val_of h' x = val_of h x"
    and "\<And>x. x \<notin> set (xs @ a # ys) \<Longrightarrow> heap_get h' x = heap_get h x"
proof -
  obtain l' h' nd where r: "list_remove_internal l a True h = Some (l', h')"
    "list_rep l' h' (xs @ ys)" "heap_get h a = Some nd"
    "heap_get h' a = (if True then None else Some (nd\<lparr>node_prev := NULL, node_next := NULL\<rparr>))"
    "\<And>x. x \<noteq> a \<Longrightarrow> val_of h' x = val_of h x"
    "\<And>x. x \<notin> set (xs @ a # ys) \<Longrightarrow> heap_get h' x = heap_get h x"
    using list_remove_internal_linked [OF rep, of True] by blast
  then show thesis using that [of l' h'] by (simp add: list_remove_def)
qed

lemma list_rpop_empty: "list_rep l h [] \<Longrightarrow> list_rpop l h = Some (NULL, l, h)"
  by (simp add: list_rep_def list_rpop_def)

lemma list_rpop_snoc:
  assumes rep: "list_rep l h (ns @ [a])"
  obtains l' h' nd where "list_rpop l h = Some (a, l', h')" and "list_rep l' h' ns"
    and "heap_get h' a = Some nd" "node_prev nd = NULL" "node_next nd = NULL"
    and "frame_except (set (ns @ [a])) h h'"
proof -
  have wf: "heap_wf h" using rep by (simp add: list_rep_def)
  obtain nda where nda: "heap_get h a = Some nda" "node_prev nda = last_or NULL ns"
    using rep by (auto simp: list_rep_def dseg_append)
  have a: "list_tail l = a" "list_len l = Suc (length ns)" "a \<notin> set ns"
    using rep by (auto simp: list_rep_def)
  let ?nd = "nda\<lparr>node_prev := NULL, node_next := NULL\<rparr>"
  show thesis
  proof (cases ns rule: rev_cases)
    case Nil
    let ?h = "heap_put a ?nd h"
    have "list_rpop l h = Some (a, l\<lparr>list_len := 0, list_tail := NULL, list_head := NULL\<rparr>, ?h)"
      using a nda Nil by (simp add: list_rpop_def)
    moreover have "heap_wf ?h" using wf nda(1) by (rule heap_wf_put)
    moreover have "frame_except (set (ns @ [a])) h ?h"
      using nda(1) by (auto simp: frame_except_def val_of_put val_ofI)
    ultimately show thesis
      using Nil that [of "l\<lparr>list_len := 0, list_tail := NULL, list_head := NULL\<rparr>" ?h ?nd]
      by (simp add: list_rep_def)
  next
    case (snoc bs b)
    obtain ndb where ndb: "heap_get h b = Some ndb"
      using list_rep_alloc [OF rep, of b] snoc by auto
    have b: "b \<noteq> a" "node_prev nda = b" using snoc a nda by auto
    let ?h = "heap_put a ?nd (heap_put b (ndb\<lparr>node_next := NULL\<rparr>) h)"
    have "list_rpop l h = Some (a, l\<lparr>list_len := length ns, list_tail := b\<rparr>, ?h)"
      using a nda ndb b snoc by (simp add: list_rpop_def)
    moreover have "list_rep (l\<lparr>list_len := length ns, list_tail := b\<rparr>) ?h ns"
      using snoc wf nda ndb b rep a
      by (auto simp: list_rep_def heap_get_put dseg_append intro!: heap_wf_put_alloc)
    moreover have "frame_except (set (ns @ [a])) h ?h"
      using nda ndb b snoc by (auto simp: frame_except_def val_of_put val_ofI)
    ultimately show thesis using that [of _ ?h ?nd] by simp
  qed
qed

lemma list_lpop_Cons:
  assumes rep: "list_rep l h (a # ns)"
  obtains l' h' nd where "list_lpop l h = Some (a, l', h')" and "list_rep l' h' ns"
    and "heap_get h' a = Some nd" "node_prev nd = NULL" "node_next nd = NULL"
    and "frame_except (set (a # ns)) h h'"
proof -
  have wf: "heap_wf h" using rep by (simp add: list_rep_def)
  obtain nda where nda: "heap_get h a = Some nda" "node_next nda = first_or ns NULL"
    using rep by (auto simp: list_rep_def)
  have a: "list_head l = a" "list_len l = Suc (length ns)" "a \<notin> set ns"
    using rep by (auto simp: list_rep_def)
  let ?nd = "nda\<lparr>node_prev := NULL, node_next := NULL\<rparr>"
  show thesis
  proof (cases ns)
    case Nil
    let ?h = "heap_put a ?nd h"
    have "list_lpop l h = Some (a, l\<lparr>list_len := 0, list_head := NULL, list_tail := NULL\<rparr>, ?h)"
      using a nda Nil by (simp add: list_lpop_def)
    moreover have "heap_wf ?h" using wf nda(1) by (rule heap_wf_put)
    moreover have "frame_except (set (a # ns)) h ?h"
      using nda(1) by (auto simp: frame_except_def val_of_put val_ofI)
    ultimately show thesis
      using Nil that [of "l\<lparr>list_len := 0, list_head := NULL, list_tail := NULL\<rparr>" ?h ?nd]
      by (simp add: list_rep_def)
  next
    case (Cons b bs)
    obtain ndb where ndb: "heap_get h b = Some ndb"
      using list_rep_alloc [OF rep, of b] Cons by auto
    have b: "b \<noteq> a" "node_next nda = b" using Cons a nda by auto
    let ?h = "heap_put a ?nd (heap_put b (ndb\<lparr>node_prev := NULL\<rparr>) h)"
    have "list_lpop l h = Some (a, l\<lparr>list_len := length ns, list_head := b\<rparr>, ?h)"
      using a nda ndb b Cons by (simp add: list_lpop_def)
    moreover have "list_rep (l\<lparr>list_len := length ns, list_head := b\<rparr>) ?h ns"
      using Cons wf nda ndb b rep a
      by (auto simp: list_rep_def heap_get_put intro!: heap_wf_put_alloc)
    moreover have "frame_except (set (a # ns)) h ?h"
      using nda ndb b Cons by (auto simp: frame_except_def val_of_put val_ofI)
    ultimately show thesis using that [of _ ?h ?nd] by simp
  qed
qed

subsection \<open>Iteration, indexing and search\<close>

text \<open>
  A forward iterator standing in front of \<open>ns\<close> steps through exactly \<open>ns\<close> and then
  returns NULL for ever; a backward one through the reverse.
\<close>

definition fwd_at :: "list_iterator \<Rightarrow> node_heap \<Rightarrow> addr list \<Rightarrow> bool" where
  "fwd_at it h ns \<longleftrightarrow> it_direction it = LIST_HEAD \<and> it_next it = first_or ns NULL
     \<and> (\<exists>p. dseg h p ns NULL) \<and> NULL \<notin> set ns"

definition bwd_at :: "list_iterator \<Rightarrow> node_heap \<Rightarrow> addr list \<Rightarrow> bool" where
  "bwd_at it h ns \<longleftrightarrow> it_direction it = LIST_TAIL \<and> it_next it = last_or NULL ns
     \<and> (\<exists>n. dseg h NULL ns n) \<and> NULL \<notin> set ns"

lemma fwd_at_new: "list_rep l h ns \<Longrightarrow> fwd_at (list_iterator_new l LIST_HEAD) h ns"
  using list_rep_nonnull [of l h ns]
  by (auto simp: fwd_at_def list_rep_def list_iterator_new_def list_iterator_new_from_node_def)

lemma bwd_at_new: "list_rep l h ns \<Longrightarrow> bwd_at (list_iterator_new l LIST_TAIL) h ns"
  using list_rep_nonnull [of l h ns]
  by (auto simp: bwd_at_def list_rep_def list_iterator_new_def list_iterator_new_from_node_def)

lemma fwd_at_next:
  "fwd_at it h (a # ns) \<Longrightarrow>
     \<exists>it'. list_iterator_next it h = Some (a, it') \<and> fwd_at it' h ns"
  by (auto simp: fwd_at_def list_iterator_next_def)

lemma fwd_at_end: "fwd_at it h [] \<Longrightarrow> list_iterator_next it h = Some (NULL, it)"
  by (auto simp: fwd_at_def list_iterator_next_def)

lemma bwd_at_next:
  "bwd_at it h (ns @ [a]) \<Longrightarrow>
     \<exists>it'. list_iterator_next it h = Some (a, it') \<and> bwd_at it' h ns"
  by (auto simp: bwd_at_def list_iterator_next_def dseg_append)

lemma list_at_loop_fwd:
  "fwd_at it h ns \<Longrightarrow> i < length ns \<Longrightarrow> list_at_loop (Suc i) node it h = Some (ns ! i)"
proof (induction i arbitrary: ns it node)
  case 0
  then obtain a ns' where "ns = a # ns'" by (cases ns) auto
  with 0 show ?case using fwd_at_next by fastforce
next
  case (Suc i)
  then obtain a ns' where ns: "ns = a # ns'" by (cases ns) auto
  with Suc.prems obtain it' where "list_iterator_next it h = Some (a, it')" "fwd_at it' h ns'"
    using fwd_at_next by blast
  with Suc.IH [of it' ns'] Suc.prems ns show ?case
    by (simp del: list_at_loop.simps add: list_at_loop.simps(2) [of "Suc i"])
qed

lemma list_at_loop_bwd:
  "bwd_at it h ns \<Longrightarrow> i < length ns \<Longrightarrow>
     list_at_loop (Suc i) node it h = Some (ns ! (length ns - 1 - i))"
proof (induction i arbitrary: ns it node)
  case 0
  then obtain a ns' where "ns = ns' @ [a]" by (cases ns rule: rev_cases) auto
  with 0 show ?case using bwd_at_next by fastforce
next
  case (Suc i)
  then obtain a ns' where ns: "ns = ns' @ [a]" by (cases ns rule: rev_cases) auto
  with Suc.prems obtain it' where "list_iterator_next it h = Some (a, it')" "bwd_at it' h ns'"
    using bwd_at_next by blast
  moreover have "length ns' - Suc i < length ns'" using Suc.prems ns by simp
  ultimately show ?case
    using Suc.IH [of it' ns'] Suc.prems ns
    by (simp del: list_at_loop.simps add: list_at_loop.simps(2) [of "Suc i"] nth_append)
qed

text \<open>
  \<open>list_at\<close> is indexing from the front for an index \<open>\<ge> 0\<close> and from the back for a
  negative one; out of range it returns NULL.
\<close>

definition list_index :: "addr list \<Rightarrow> int \<Rightarrow> addr" where
  "list_index ns i =
     (if 0 \<le> i \<and> i < int (length ns) then ns ! nat i
      else if i < 0 \<and> - i \<le> int (length ns) then ns ! nat (int (length ns) + i)
      else NULL)"

lemma list_at_correct:
  assumes rep: "list_rep l h ns"
  shows "list_at l i h = Some (list_index ns i)"
proof -
  have len: "list_len l = length ns" using rep by (simp add: list_rep_def)
  show ?thesis
  proof (cases "i < 0")
    case True
    define k where "k = nat (- i - 1)"
    have i: "i = - int k - 1" using True by (simp add: k_def)
    have "nat (int (length ns) + i) = length ns - 1 - k" unfolding i by linarith
    then show ?thesis
      using list_at_loop_bwd [OF bwd_at_new [OF rep], of k NULL] len
      by (simp add: list_at_def list_index_def i)
  next
    case False
    then obtain k where i: "i = int k" by (meson linorder_not_less nonneg_int_cases)
    then show ?thesis
      using list_at_loop_fwd [OF fwd_at_new [OF rep], of k NULL] len
      by (simp add: list_at_def list_index_def)
  qed
qed

text \<open>
  \<open>list_find\<close> returns the first node whose value matches (by \<open>match\<close> when it is set,
  by equality otherwise), NULL when there is none; on a well formed list its loop ends.
\<close>

definition node_matches :: "llist \<Rightarrow> addr \<Rightarrow> node_heap \<Rightarrow> addr \<Rightarrow> bool" where
  "node_matches l v h a =
     (case heap_get h a of None \<Rightarrow> False
      | Some nd \<Rightarrow>
          (case list_match l of Some m \<Rightarrow> m v (node_val nd) | None \<Rightarrow> v = node_val nd))"

lemma list_find_loop_fwd:
  "fwd_at it h ns \<Longrightarrow>
     list_find_loop l v it h
       = Some (case find (node_matches l v h) ns of None \<Rightarrow> NULL | Some a \<Rightarrow> a)"
proof (induction ns arbitrary: it)
  case Nil
  then show ?case by (simp add: list_find_loop.simps [of l v it] fwd_at_end)
next
  case (Cons a ns)
  then obtain it' where it: "list_iterator_next it h = Some (a, it')" "fwd_at it' h ns"
    using fwd_at_next by blast
  obtain nd where "heap_get h a = Some nd" "a \<noteq> NULL"
    using Cons.prems by (auto simp: fwd_at_def)
  with it Cons.IH [OF it(2)] show ?case
    by (auto simp: list_find_loop.simps [of l v it] node_matches_def split: option.splits)
qed

lemma list_find_correct:
  "list_rep l h ns \<Longrightarrow>
     list_find l v h = Some (case find (node_matches l v h) ns of None \<Rightarrow> NULL | Some a \<Rightarrow> a)"
  unfolding list_find_def by (rule list_find_loop_fwd) (rule fwd_at_new)

text \<open>\<open>list_destroy\<close> frees every node exactly once.\<close>

lemma list_destroy_loop_correct:
  "dseg h p ns NULL \<Longrightarrow> heap_wf h \<Longrightarrow> distinct ns \<Longrightarrow>
     \<exists>l' h'. list_destroy_loop (length ns) (first_or ns NULL) l h = Some (l', h')
       \<and> heap_wf h' \<and> (\<forall>x. heap_get h' x = (if x \<in> set ns then None else heap_get h x))"
proof (induction ns arbitrary: h p l)
  case Nil
  then show ?case by simp
next
  case (Cons a ns)
  then obtain nd where nd: "heap_get h a = Some nd" "node_next nd = first_or ns NULL" "a \<noteq> NULL"
    by (auto dest: heap_wf_nonnull)
  have "dseg (heap_del a h) a ns NULL" "heap_wf (heap_del a h)"
    using Cons.prems by (auto intro: heap_wf_del)
  from Cons.IH [OF this, of "list_free_val (node_val nd) l"] Cons.prems nd
  show ?case by (auto simp: heap_get_del)
qed

lemma list_destroy_correct:
  assumes "list_rep l h ns"
  obtains l' h' where "list_destroy l h = Some (l', h')" and "heap_wf h'"
    and "\<And>x. heap_get h' x = (if x \<in> set ns then None else heap_get h x)"
  using assms list_destroy_loop_correct [of h NULL ns l] that
  by (auto simp: list_rep_def list_destroy_def)

lemma list_rep_new: "heap_wf h \<Longrightarrow> list_rep list_new h []"
  by (simp add: list_rep_def list_new_def)

lemma list_node_new_spec:
  assumes "heap_wf h" and "list_node_new v h = (a, h')"
  shows "heap_wf h'" and "a \<noteq> NULL" and "heap_get h a = None"
    and "heap_get h' a = Some \<lparr>node_prev = NULL, node_next = NULL, node_val = v\<rparr>"
    and "x \<noteq> a \<Longrightarrow> heap_get h' x = heap_get h x"
  using heap_alloc_spec [OF assms(1), of _ a h'] assms(2) by (auto simp: list_node_new_def)

lemma list_rep_heap_cong:
  "list_rep l h ns \<Longrightarrow> heap_wf h' \<Longrightarrow> (\<And>x. x \<in> set ns \<Longrightarrow> heap_get h' x = heap_get h x) \<Longrightarrow>
     list_rep l h' ns"
  using dseg_cong [of ns h' h] by (auto simp: list_rep_def)

end
