(* ===== verification/AvlTree.thy ===== *)
theory AvlTree
  imports Prelude
begin

section \<open>The AVL tree (lib/avltree)\<close>

text \<open>
  \<open>avltree.c\<close> in its default build: no separate balance factor field, no next pointers. A
  node holds its payload (the structure the \<open>avl_node\<close> is embedded in), its balance factor
  and its two children. The parent pointers are the path of the functional zipper: a node
  pointer of the source is a position, that is the subtree below the node and the path from it up
  to the root, so that \<open>avl_parent\<close> is one step along the path. The balance factor is stored
  in the two low bits of the parent pointer as \<open>bf + 1\<close>; storing a value that does not fit
  there would corrupt the pointer, so \<open>avl_set_bf\<close> has no result then.
\<close>

subsection \<open>Nodes, positions and the balance factor\<close>

datatype 'a avl_tree =
  Nil
| Node (avl_left: "'a avl_tree") (avl_elem: 'a) (avl_bf: int) (avl_right: "'a avl_tree")

text \<open>
  One step of the path to the root: the parent's data and the sibling, and which child the
  position below is.
\<close>

datatype 'a avl_step =
  LeftOf 'a int "'a avl_tree"
| RightOf "'a avl_tree" 'a int

type_synonym 'a avl_path = "'a avl_step list"
type_synonym 'a avl_pos = "'a avl_tree \<times> 'a avl_path"

fun plug :: "'a avl_step \<Rightarrow> 'a avl_tree \<Rightarrow> 'a avl_tree" where
  "plug (LeftOf e b r) t = Node t e b r"
| "plug (RightOf l e b) t = Node l e b t"

fun is_left_step :: "'a avl_step \<Rightarrow> bool" where
  "is_left_step (LeftOf e b r) = True"
| "is_left_step (RightOf l e b) = False"

fun zip_up :: "'a avl_tree \<Rightarrow> 'a avl_path \<Rightarrow> 'a avl_tree" where
  "zip_up t [] = t"
| "zip_up t (c # cs) = zip_up (plug c t) cs"

text \<open>\<^verbatim>\<open>_abs\<close>, by the sign mask of a 32-bit \<open>int\<close>.\<close>

definition avl_abs :: "int \<Rightarrow> int" where
  "avl_abs n =
     (let w = word_of_int n :: 32 word; mask = signed_drop_bit 31 w
      in sint (xor (mask + w) mask))"

fun avl_set_bf :: "'a avl_tree \<Rightarrow> int \<Rightarrow> 'a avl_tree option" where
  "avl_set_bf Nil bf = None"
| "avl_set_bf (Node l e b r) bf =
     (if 0 \<le> bf + 1 \<and> bf + 1 \<le> 3 then Some (Node l e bf r) else None)"

definition avl_has :: "'a avl_tree \<Rightarrow> int" where
  "avl_has t = (if t = Nil then 0 else 1)"

fun get_balance :: "'a avl_tree \<Rightarrow> int" where
  "get_balance Nil = 0"
| "get_balance (Node l e b r) = b"

subsection \<open>Rotations\<close>

text \<open>
  \<^verbatim>\<open>_rotate_LL\<close>: from the parent and the two balance factors, the new subtree with the new
  balance factor of the child (an out parameter of the source) and the height difference.
\<close>

fun rotate_LL :: "'a avl_tree \<Rightarrow> int \<Rightarrow> int \<Rightarrow> ('a avl_tree \<times> int \<times> int) option" where
  "rotate_LL (Node (Node cl ce cb cr) pe pb pr) parent_bf child_bf =
     (let c_left = avl_has cl; c_right = avl_has cr;
          (c_left, c_right, p_right, height_delta) =
            (if child_bf < 0 then
               let c_left = c_right - child_bf; p_right = c_left + 1 + parent_bf
               in (c_left, c_right, p_right,
                   max c_left (max c_right p_right + 1) - (c_left + 1))
             else
               let c_right = c_left + child_bf; p_right = c_right + 1 + parent_bf
               in (c_left, c_right, p_right,
                   max c_left (max c_right p_right + 1) - (c_right + 1)));
          child_bf = (max c_right p_right + 1) - c_left
      in do {
           parent \<leftarrow> avl_set_bf (Node cr pe pb pr) (p_right - c_right);
           Some (Node cl ce cb parent, child_bf, height_delta)
         })"
| "rotate_LL _ _ _ = None"

fun rotate_RR :: "'a avl_tree \<Rightarrow> int \<Rightarrow> int \<Rightarrow> ('a avl_tree \<times> int \<times> int) option" where
  "rotate_RR (Node pl pe pb (Node cl ce cb cr)) parent_bf child_bf =
     (let c_left = avl_has cl; c_right = avl_has cr;
          (c_left, c_right, p_left, height_delta) =
            (if child_bf < 0 then
               let c_left = c_right - child_bf; p_left = c_left + 1 - parent_bf
               in (c_left, c_right, p_left,
                   max c_right (max c_left p_left + 1) - (c_left + 1))
             else
               let c_right = c_left + child_bf; p_left = c_right + 1 - parent_bf
               in (c_left, c_right, p_left,
                   max c_right (max c_left p_left + 1) - (c_right + 1)));
          child_bf = c_right - (max c_left p_left + 1)
      in do {
           parent \<leftarrow> avl_set_bf (Node pl pe pb cl) (c_left - p_left);
           Some (Node parent ce cb cr, child_bf, height_delta)
         })"
| "rotate_RR _ _ _ = None"

fun rotate_LR :: "'a avl_tree \<Rightarrow> int \<Rightarrow> 'a avl_tree option" where
  "rotate_LR (Node (Node cl ce cb cr) pe pb pr) parent_bf = do {
     (left, child_bf, height_delta) \<leftarrow>
       (if cr \<noteq> Nil then rotate_RR (Node cl ce cb cr) cb (avl_bf cr)
        else Some (Node cl ce cb cr, cb, 0));
     (ret, child_bf, _) \<leftarrow> rotate_LL (Node left pe pb pr) (parent_bf - height_delta) child_bf;
     avl_set_bf ret child_bf
   }"
| "rotate_LR _ _ = None"

fun rotate_RL :: "'a avl_tree \<Rightarrow> int \<Rightarrow> 'a avl_tree option" where
  "rotate_RL (Node pl pe pb (Node cl ce cb cr)) parent_bf = do {
     (right, child_bf, height_delta) \<leftarrow>
       (if cl \<noteq> Nil then rotate_LL (Node cl ce cb cr) cb (avl_bf cl)
        else Some (Node cl ce cb cr, cb, 0));
     (ret, child_bf, _) \<leftarrow> rotate_RR (Node pl pe pb right) (parent_bf + height_delta) child_bf;
     avl_set_bf ret child_bf
   }"
| "rotate_RL _ _ = None"

fun balance_tree :: "'a avl_tree \<Rightarrow> int \<Rightarrow> 'a avl_tree option" where
  "balance_tree Nil bf = Some Nil"
| "balance_tree (Node l e b r) bf =
     (let height_diff = b + bf in
      if height_diff < -1 \<and> l \<noteq> Nil then
        if get_balance l \<le> 0 then do {
          (node, child_bf, _) \<leftarrow> rotate_LL (Node l e b r) height_diff (avl_bf l);
          avl_set_bf node child_bf
        }
        else rotate_LR (Node l e b r) height_diff
      else if height_diff > 1 \<and> r \<noteq> Nil then
        if get_balance r \<ge> 0 then do {
          (node, child_bf, _) \<leftarrow> rotate_RR (Node l e b r) height_diff (avl_bf r);
          avl_set_bf node child_bf
        }
        else rotate_RL (Node l e b r) height_diff
      else avl_set_bf (Node l e b r) (b + bf))"

subsection \<open>Moving through the tree\<close>

text \<open>
  \<open>leftmost\<close> and \<open>rightmost\<close> are the loops that follow \<open>left\<close> (or \<open>right\<close>)
  pointers down to the last node.
\<close>

fun leftmost :: "'a avl_tree \<Rightarrow> 'a avl_path \<Rightarrow> 'a avl_pos" where
  "leftmost (Node (Node ll le lb lr) e b r) cs = leftmost (Node ll le lb lr) (LeftOf e b r # cs)"
| "leftmost t cs = (t, cs)"

fun rightmost :: "'a avl_tree \<Rightarrow> 'a avl_path \<Rightarrow> 'a avl_pos" where
  "rightmost (Node l e b (Node rl re rb rr)) cs = rightmost (Node rl re rb rr) (RightOf l e b # cs)"
| "rightmost t cs = (t, cs)"

definition avl_first :: "'a avl_tree \<Rightarrow> 'a avl_pos" where
  "avl_first t = leftmost t []"

definition avl_last :: "'a avl_tree \<Rightarrow> 'a avl_pos" where
  "avl_last t = rightmost t []"

text \<open>
  The climbing loops of \<open>avl_next\<close> and \<open>avl_prev\<close>: up to the first ancestor reached
  from its left (right) child; NULL (a \<open>Nil\<close> position) when there is none.
\<close>

fun climb_next :: "'a avl_tree \<Rightarrow> 'a avl_path \<Rightarrow> 'a avl_pos" where
  "climb_next t [] = (Nil, [])"
| "climb_next t (c # cs) = (if is_left_step c then (plug c t, cs) else climb_next (plug c t) cs)"

fun climb_prev :: "'a avl_tree \<Rightarrow> 'a avl_path \<Rightarrow> 'a avl_pos" where
  "climb_prev t [] = (Nil, [])"
| "climb_prev t (c # cs) = (if \<not> is_left_step c then (plug c t, cs) else climb_prev (plug c t) cs)"

fun avl_next :: "'a avl_pos \<Rightarrow> 'a avl_pos" where
  "avl_next (Nil, cs) = (Nil, [])"
| "avl_next (Node l e b r, cs) =
     (if r \<noteq> Nil then leftmost r (RightOf l e b # cs) else climb_next (Node l e b r) cs)"

fun avl_prev :: "'a avl_pos \<Rightarrow> 'a avl_pos" where
  "avl_prev (Nil, cs) = (Nil, [])"
| "avl_prev (Node l e b r, cs) =
     (if l \<noteq> Nil then rightmost l (LeftOf e b r # cs) else climb_prev (Node l e b r) cs)"

subsection \<open>Searching\<close>

text \<open>
  \<open>cmp\<close> is the comparison of the stored payload with the query, as the source calls
  \<open>func(p, node, aux)\<close>: positive when the stored one is greater.
\<close>

fun avl_search_loop :: "('a \<Rightarrow> int) \<Rightarrow> 'a avl_tree \<Rightarrow> 'a avl_path \<Rightarrow> 'a avl_pos" where
  "avl_search_loop cmp Nil cs = (Nil, [])"
| "avl_search_loop cmp (Node l e b r) cs =
     (if cmp e > 0 then avl_search_loop cmp l (LeftOf e b r # cs)
      else if cmp e < 0 then avl_search_loop cmp r (RightOf l e b # cs)
      else (Node l e b r, cs))"

definition avl_search :: "('a \<Rightarrow> int) \<Rightarrow> 'a avl_tree \<Rightarrow> 'a avl_pos" where
  "avl_search cmp t = avl_search_loop cmp t []"

text \<open>
  The loop shared by \<open>avl_search_greater\<close> and \<open>avl_search_smaller\<close>: the matching
  position, or the last node \<open>pp\<close> that was compared.
\<close>

fun search_last :: "('a \<Rightarrow> int) \<Rightarrow> 'a avl_tree \<Rightarrow> 'a avl_path \<Rightarrow> 'a avl_pos \<Rightarrow> bool \<times> 'a avl_pos" where
  "search_last cmp Nil cs pp = (False, pp)"
| "search_last cmp (Node l e b r) cs pp =
     (if cmp e > 0 then search_last cmp l (LeftOf e b r # cs) (Node l e b r, cs)
      else if cmp e < 0 then search_last cmp r (RightOf l e b # cs) (Node l e b r, cs)
      else (True, (Node l e b r, cs)))"

definition avl_search_greater :: "('a \<Rightarrow> int) \<Rightarrow> 'a avl_tree \<Rightarrow> 'a avl_pos" where
  "avl_search_greater cmp t =
     (let (found, pp) = search_last cmp t [] (Nil, [])
      in if found then pp
         else case pp of
           (Nil, cs) \<Rightarrow> (Nil, cs)
         | (Node l e b r, cs) \<Rightarrow> if cmp e > 0 then pp else avl_next pp)"

definition avl_search_smaller :: "('a \<Rightarrow> int) \<Rightarrow> 'a avl_tree \<Rightarrow> 'a avl_pos" where
  "avl_search_smaller cmp t =
     (let (found, pp) = search_last cmp t [] (Nil, [])
      in if found then pp
         else case pp of
           (Nil, cs) \<Rightarrow> (Nil, cs)
         | (Node l e b r, cs) \<Rightarrow> if cmp e < 0 then pp else avl_prev pp)"

subsection \<open>Insertion\<close>

text \<open>
  The descent of \<open>avl_insert\<close>: the path to the free place, or the position of the
  node that is equal. The source compares once more with the parent to pick the child to
  set; a comparison has one value, so that is the direction of the last step.
\<close>

fun insert_descend :: "('a \<Rightarrow> int) \<Rightarrow> 'a avl_tree \<Rightarrow> 'a avl_path \<Rightarrow> 'a avl_pos + 'a avl_path" where
  "insert_descend cmp Nil cs = Inr cs"
| "insert_descend cmp (Node l e b r) cs =
     (if cmp e > 0 then insert_descend cmp l (LeftOf e b r # cs)
      else if cmp e < 0 then insert_descend cmp r (RightOf l e b # cs)
      else Inl (Node l e b r, cs))"

definition is_leaf :: "'a avl_tree \<Rightarrow> bool" where
  "is_leaf t \<longleftrightarrow> avl_left t = Nil \<and> avl_right t = Nil"

text \<open>
  The rebalancing loop, from the new node towards the root. \<open>bf\<close> is the change of the
  node's balance factor that is still to be applied; the loop stops when the parent's does not
  change. The result is the whole tree.
\<close>

fun insert_rebalance :: "'a avl_tree \<Rightarrow> 'a avl_path \<Rightarrow> int \<Rightarrow> 'a avl_tree option" where
  "insert_rebalance node [] bf = balance_tree node bf"
| "insert_rebalance node (c # cs) bf = do {
     let bf_old = get_balance node;
     node \<leftarrow> balance_tree node bf;
     let side = (if is_left_step c then -1 else 1);
     let bf = (if is_leaf node then side
               else if avl_abs bf_old < avl_abs (get_balance node) then side else 0);
     if bf = 0 then Some (zip_up (plug c node) cs) else insert_rebalance (plug c node) cs bf
   }"

text \<open>
  \<open>avl_insert\<close> returns the tree and whether the node was inserted (the source returns
  the node itself, or the equal node that is already there).
\<close>

definition avl_insert :: "('a \<Rightarrow> int) \<Rightarrow> 'a \<Rightarrow> 'a avl_tree \<Rightarrow> ('a avl_tree \<times> bool) option" where
  "avl_insert cmp x t =
     (case insert_descend cmp t [] of
        Inl _ \<Rightarrow> Some (t, False)
      | Inr cs \<Rightarrow> do {
          node \<leftarrow> avl_set_bf (Node Nil x 0 Nil) 0;
          t' \<leftarrow> insert_rebalance node cs 0;
          Some (t', True)
        })"

subsection \<open>Removal\<close>

fun remove_rebalance :: "'a avl_tree \<Rightarrow> 'a avl_path \<Rightarrow> int \<Rightarrow> 'a avl_tree option" where
  "remove_rebalance cur [] bf = balance_tree cur bf"
| "remove_rebalance cur (c # cs) bf = do {
     let bf_old = get_balance cur;
     cur \<leftarrow> balance_tree cur bf;
     let side = (if is_left_step c then 1 else -1);
     let bf = (if is_leaf cur then side
               else if avl_abs bf_old > avl_abs (get_balance cur) then side else 0);
     if bf = 0 then Some (zip_up (plug c cur) cs) else remove_rebalance (plug c cur) cs bf
   }"

text \<open>
  \<open>avl_remove\<close> of the node at a position. With a right subtree, \<open>next\<close> is its
  smallest node: it is unlinked (its right child takes its place when it is not the direct
  child), takes over the node's place, children and balance factor, and the rebalancing starts at
  its former parent, or at itself. Without one, the left child moves up.
\<close>

fun avl_remove :: "'a avl_tree \<Rightarrow> 'a avl_pos \<Rightarrow> 'a avl_tree option" where
  "avl_remove t (Nil, path) = Some t"
| "avl_remove t (Node l e b r, path) =
     (case leftmost r [] of
        (Node nl ne nb nr, []) \<Rightarrow> remove_rebalance (Node l ne b nr) path (-1)
      | (Node nl ne nb nr, c # cs) \<Rightarrow>
          remove_rebalance (plug c nr) (cs @ RightOf l ne b # path) 1
      | (Nil, _) \<Rightarrow>
          (case path of
             [] \<Rightarrow> Some l
           | c # cs \<Rightarrow> remove_rebalance (plug c l) cs (if is_left_step c then 1 else -1)))"

end
