(* ===== verification/AvlBalance.thy ===== *)
theory AvlBalance
  imports AvlTree
begin

section \<open>Balance and contents of the AVL tree\<close>

text \<open>
  The height invariant (\<open>avl_ok\<close>: every stored balance factor is the difference of the
  heights and lies between -1 and 1), the in-order contents, and what the rotations, the two
  rebalancing loops, insertion and removal do to both. The loops are followed along the path to
  the root: the invariant says what is still to be applied to the node they stand at.
\<close>

subsection \<open>Heights and contents\<close>

fun ht :: "'a avl_tree \<Rightarrow> int" where
  "ht Nil = 0"
| "ht (Node l e b r) = 1 + max (ht l) (ht r)"

fun inorder :: "'a avl_tree \<Rightarrow> 'a list" where
  "inorder Nil = []"
| "inorder (Node l e b r) = inorder l @ e # inorder r"

fun avl_ok :: "'a avl_tree \<Rightarrow> bool" where
  "avl_ok Nil = True"
| "avl_ok (Node l e b r) \<longleftrightarrow> b = ht r - ht l \<and> \<bar>b\<bar> \<le> 1 \<and> avl_ok l \<and> avl_ok r"

lemma ht_nonneg [simp]: "0 \<le> ht t"
  by (induction t) auto

lemma ht_pos [simp]: "t \<noteq> Nil \<Longrightarrow> 1 \<le> ht t"
  by (cases t) (auto simp: max_def)

lemma ht_0_iff [simp]: "ht t = 0 \<longleftrightarrow> t = Nil"
proof (cases t)
  case (Node l e b r)
  then show ?thesis using ht_nonneg [of l] ht_nonneg [of r] by (simp add: max_def del: ht_nonneg)
qed simp

lemma avl_abs_small: "n \<in> {-2, -1, 0, 1, 2} \<Longrightarrow> avl_abs n = \<bar>n\<bar>"
  by (auto simp: avl_abs_def Let_def)

lemma avl_set_bf_Some [simp]:
  "-1 \<le> bf \<Longrightarrow> bf \<le> 2 \<Longrightarrow> avl_set_bf (Node l e b r) bf = Some (Node l e bf r)"
  by simp

subsection \<open>Rotations\<close>

lemma rotate_LL_correct:
  assumes "child_bf = ht cr - ht cl" and "parent_bf = ht pr - (1 + max (ht cl) (ht cr))"
    and "-1 \<le> ht pr - ht cr" and "ht pr - ht cr \<le> 2"
  shows "\<exists>hd. rotate_LL (Node (Node cl ce cb cr) pe pb pr) parent_bf child_bf =
    Some (Node cl ce cb (Node cr pe (ht pr - ht cr) pr), 1 + max (ht cr) (ht pr) - ht cl, hd)
    \<and> (parent_bf \<le> 0 \<longrightarrow>
        hd = 1 + max (ht cl) (1 + max (ht cr) (ht pr)) - (2 + max (ht cl) (ht cr)))"
  using assms by (cases "child_bf < 0") (auto simp: Let_def max_def)

lemma rotate_RR_correct:
  assumes "child_bf = ht cr - ht cl" and "parent_bf = 1 + max (ht cl) (ht cr) - ht pl"
    and "-1 \<le> ht cl - ht pl" and "ht cl - ht pl \<le> 2"
  shows "\<exists>hd. rotate_RR (Node pl pe pb (Node cl ce cb cr)) parent_bf child_bf =
    Some (Node (Node pl pe (ht cl - ht pl) cl) ce cb cr, ht cr - (1 + max (ht pl) (ht cl)), hd)
    \<and> (parent_bf \<ge> 0 \<longrightarrow>
        hd = 1 + max (ht cr) (1 + max (ht pl) (ht cl)) - (2 + max (ht cl) (ht cr)))"
  using assms by (cases "child_bf < 0") (auto simp: Let_def max_def)

declare rotate_LL.simps [simp del] rotate_RR.simps [simp del]

lemma rotate_LR_correct:
  assumes "avl_ok (Node cl ce 1 (Node gl ge gb gr))" and "avl_ok pr"
    and "ht pr = ht (Node cl ce 1 (Node gl ge gb gr)) - 2"
  shows "rotate_LR (Node (Node cl ce 1 (Node gl ge gb gr)) pe pb pr) (-2) =
    Some (Node (Node cl ce (ht gl - ht cl) gl) ge 0 (Node gr pe (ht pr - ht gr) pr))"
proof -
  have h: "ht cl = max (ht gl) (ht gr)" "gb = ht gr - ht gl" "\<bar>gb\<bar> \<le> 1" "ht pr = ht cl"
    using assms by (auto simp: max_def)
  have "\<exists>hd. rotate_RR (Node cl ce 1 (Node gl ge gb gr)) 1 gb =
      Some (Node (Node cl ce (ht gl - ht cl) gl) ge gb gr, ht gr - (1 + max (ht cl) (ht gl)), hd)
    \<and> (1 \<ge> (0::int) \<longrightarrow> hd = 1 + max (ht gr) (1 + max (ht cl) (ht gl)) - (2 + max (ht gl) (ht gr)))"
    by (rule rotate_RR_correct) (use h in auto)
  then obtain hd where rr: "rotate_RR (Node cl ce 1 (Node gl ge gb gr)) 1 gb =
      Some (Node (Node cl ce (ht gl - ht cl) gl) ge gb gr, ht gr - (1 + max (ht cl) (ht gl)), hd)"
    and hd: "hd = 1 + max (ht gr) (1 + max (ht cl) (ht gl)) - (2 + max (ht gl) (ht gr))"
    by auto
  let ?cl' = "Node cl ce (ht gl - ht cl) gl"
  have "\<exists>hd'. rotate_LL (Node (Node ?cl' ge gb gr) pe pb pr) (-2 - hd)
      (ht gr - (1 + max (ht cl) (ht gl)))
    = Some (Node ?cl' ge gb (Node gr pe (ht pr - ht gr) pr), 1 + max (ht gr) (ht pr) - ht ?cl', hd')
    \<and> (-2 - hd \<le> 0 \<longrightarrow> hd' = 1 + max (ht ?cl') (1 + max (ht gr) (ht pr)) - (2 + max (ht ?cl') (ht gr)))"
    by (rule rotate_LL_correct) (use h hd in \<open>auto simp: max_def\<close>)
  moreover have "1 + max (ht gr) (ht pr) - ht ?cl' = 0" using h by simp
  ultimately show ?thesis using rr by auto
qed

lemma rotate_RL_correct:
  assumes "avl_ok (Node (Node gl ge gb gr) ce (-1) cr)" and "avl_ok pl"
    and "ht pl = ht (Node (Node gl ge gb gr) ce (-1) cr) - 2"
  shows "rotate_RL (Node pl pe pb (Node (Node gl ge gb gr) ce (-1) cr)) 2 =
    Some (Node (Node pl pe (ht gl - ht pl) gl) ge 0 (Node gr ce (ht cr - ht gr) cr))"
proof -
  have h: "ht cr = max (ht gl) (ht gr)" "gb = ht gr - ht gl" "\<bar>gb\<bar> \<le> 1" "ht pl = ht cr"
    using assms by (auto simp: max_def)
  have "\<exists>hd. rotate_LL (Node (Node gl ge gb gr) ce (-1) cr) (-1) gb =
      Some (Node gl ge gb (Node gr ce (ht cr - ht gr) cr), 1 + max (ht gr) (ht cr) - ht gl, hd)
    \<and> (-1 \<le> (0::int) \<longrightarrow> hd = 1 + max (ht gl) (1 + max (ht gr) (ht cr)) - (2 + max (ht gl) (ht gr)))"
    by (rule rotate_LL_correct) (use h in auto)
  then obtain hd where ll: "rotate_LL (Node (Node gl ge gb gr) ce (-1) cr) (-1) gb =
      Some (Node gl ge gb (Node gr ce (ht cr - ht gr) cr), 1 + max (ht gr) (ht cr) - ht gl, hd)"
    and hd: "hd = 1 + max (ht gl) (1 + max (ht gr) (ht cr)) - (2 + max (ht gl) (ht gr))"
    by auto
  let ?cr' = "Node gr ce (ht cr - ht gr) cr"
  have "\<exists>hd'. rotate_RR (Node pl pe pb (Node gl ge gb ?cr')) (2 + hd)
      (1 + max (ht gr) (ht cr) - ht gl)
    = Some (Node (Node pl pe (ht gl - ht pl) gl) ge gb ?cr', ht ?cr' - (1 + max (ht pl) (ht gl)), hd')
    \<and> (2 + hd \<ge> 0 \<longrightarrow> hd' = 1 + max (ht ?cr') (1 + max (ht pl) (ht gl)) - (2 + max (ht gl) (ht ?cr')))"
    by (rule rotate_RR_correct) (use h hd in \<open>auto simp: max_def\<close>)
  moreover have "ht ?cr' - (1 + max (ht pl) (ht gl)) = 0" using h by simp
  ultimately show ?thesis using ll by auto
qed

declare rotate_LR.simps [simp del] rotate_RL.simps [simp del]

subsection \<open>Rebalancing one node\<close>

text \<open>
  \<open>pending n d\<close>: the subtrees of \<open>n\<close> are balanced and the height difference is the stored
  factor plus \<open>d\<close>. Then \<open>balance_tree n d\<close> returns a balanced tree with the same contents.
  Its height drops by one exactly when it rotates and the higher child was not level.
\<close>

fun pending :: "'a avl_tree \<Rightarrow> int \<Rightarrow> bool" where
  "pending Nil d \<longleftrightarrow> False"
| "pending (Node l e b r) d \<longleftrightarrow> avl_ok l \<and> avl_ok r \<and> ht r - ht l = b + d \<and> \<bar>b\<bar> \<le> 1 \<and> \<bar>d\<bar> \<le> 1"

definition rebalanced :: "'a avl_tree \<Rightarrow> int \<Rightarrow> 'a avl_tree \<Rightarrow> bool" where
  "rebalanced n d n' \<longleftrightarrow> n' \<noteq> Nil \<and> avl_ok n' \<and> inorder n' = inorder n \<and>
     (let b = get_balance n + d in
        (\<bar>b\<bar> \<le> 1 \<longrightarrow> ht n' = ht n \<and> get_balance n' = b) \<and>
        (b = 2 \<longrightarrow> (if get_balance (avl_right n) = 0 then ht n' = ht n \<and> get_balance n' = -1
                   else ht n' = ht n - 1 \<and> get_balance n' = 0)) \<and>
        (b = -2 \<longrightarrow> (if get_balance (avl_left n) = 0 then ht n' = ht n \<and> get_balance n' = 1
                   else ht n' = ht n - 1 \<and> get_balance n' = 0)))"

lemma balance_tree_level:
  assumes "pending (Node l e b r) d" and "\<bar>b + d\<bar> \<le> 1"
  shows "\<exists>n'. balance_tree (Node l e b r) d = Some n' \<and> rebalanced (Node l e b r) d n'"
  using assms by (auto simp: rebalanced_def Let_def)

lemma balance_tree_left:
  assumes "pending (Node l e b r) d" and "b + d = -2"
  shows "\<exists>n'. balance_tree (Node l e b r) d = Some n' \<and> rebalanced (Node l e b r) d n'"
proof -
  have hl: "ht l = ht r + 2" "avl_ok l" "avl_ok r" using assms by auto
  then obtain ll le lb lr where l: "l = Node ll le lb lr"
    using ht_nonneg [of r] by (cases l) auto
  show ?thesis
  proof (cases "lb \<le> 0")
    case True
    then obtain hd where "rotate_LL (Node (Node ll le lb lr) e b r) (-2) lb =
      Some (Node ll le lb (Node lr e (ht r - ht lr) r), 1 + max (ht lr) (ht r) - ht ll, hd)"
      using rotate_LL_correct [of lb lr ll "-2" r le lb e b] hl l by (auto simp: max_def)
    then show ?thesis
      using hl l assms True by (auto simp: rebalanced_def Let_def max_def)
  next
    case False
    then have lb: "lb = 1" using hl l by simp
    then obtain gl ge gb gr where g: "lr = Node gl ge gb gr"
      using hl l ht_nonneg [of ll] by (cases lr) auto
    have "rotate_LR (Node l e b r) (-2) =
      Some (Node (Node ll le (ht gl - ht ll) gl) ge 0 (Node gr e (ht r - ht gr) r))"
      unfolding l g lb by (rule rotate_LR_correct) (use hl l g lb in auto)
    then show ?thesis
      using hl l g lb assms by (auto simp: rebalanced_def Let_def max_def split: if_splits)
  qed
qed

lemma balance_tree_right:
  assumes "pending (Node l e b r) d" and "b + d = 2"
  shows "\<exists>n'. balance_tree (Node l e b r) d = Some n' \<and> rebalanced (Node l e b r) d n'"
proof -
  have hr: "ht r = ht l + 2" "avl_ok l" "avl_ok r" using assms by auto
  then obtain rl re rb rr where r: "r = Node rl re rb rr"
    using ht_nonneg [of l] by (cases r) auto
  show ?thesis
  proof (cases "rb \<ge> 0")
    case True
    then obtain hd where "rotate_RR (Node l e b (Node rl re rb rr)) 2 rb =
      Some (Node (Node l e (ht rl - ht l) rl) re rb rr, ht rr - (1 + max (ht l) (ht rl)), hd)"
      using rotate_RR_correct [of rb rr rl 2 l e b re rb] hr r by (auto simp: max_def)
    then show ?thesis
      using hr r assms True by (auto simp: rebalanced_def Let_def max_def)
  next
    case False
    then have rb: "rb = -1" using hr r by simp
    then obtain gl ge gb gr where g: "rl = Node gl ge gb gr"
      using hr r ht_nonneg [of rr] by (cases rl) auto
    have "rotate_RL (Node l e b r) 2 =
      Some (Node (Node l e (ht gl - ht l) gl) ge 0 (Node gr re (ht rr - ht gr) rr))"
      unfolding r g rb by (rule rotate_RL_correct) (use hr r g rb in auto)
    then show ?thesis
      using hr r g rb assms by (auto simp: rebalanced_def Let_def max_def split: if_splits)
  qed
qed

lemma balance_tree_correct:
  assumes "pending n d"
  shows "\<exists>n'. balance_tree n d = Some n' \<and> rebalanced n d n'"
proof (cases n)
  case Nil
  then show ?thesis using assms by simp
next
  case (Node l e b r)
  have "b + d = -2 \<or> b + d = 2 \<or> \<bar>b + d\<bar> \<le> 1" using assms Node by auto
  then show ?thesis
    using assms Node balance_tree_level balance_tree_left balance_tree_right by metis
qed

declare balance_tree.simps [simp del]

end
