(* ===== verification/AvlOps.thy ===== *)
theory AvlOps
  imports AvlBalance
begin

section \<open>Insertion, removal and searching keep the tree balanced and ordered\<close>

text \<open>
  The two rebalancing loops along the path to the root, and the operations of
  \<open>avltree.c\<close> on the list of the stored payloads: what \<open>avl_search\<close>,
  \<open>avl_search_greater\<close>, \<open>avl_search_smaller\<close>, \<open>avl_next\<close>,
  \<open>avl_prev\<close>, \<open>avl_insert\<close> and \<open>avl_remove\<close> find or change there.
\<close>

declare ht_nonneg [simp del] ht_0_iff [simp del] ht_pos [simp del]

subsection \<open>Paths\<close>

fun path_ok :: "'a avl_path \<Rightarrow> int \<Rightarrow> bool" where
  "path_ok [] h = True"
| "path_ok (LeftOf e b r # cs) h \<longleftrightarrow>
     avl_ok r \<and> b = ht r - h \<and> \<bar>b\<bar> \<le> 1 \<and> path_ok cs (1 + max h (ht r))"
| "path_ok (RightOf l e b # cs) h \<longleftrightarrow>
     avl_ok l \<and> b = h - ht l \<and> \<bar>b\<bar> \<le> 1 \<and> path_ok cs (1 + max (ht l) h)"

fun ctx_left :: "'a avl_path \<Rightarrow> 'a list" where
  "ctx_left [] = []"
| "ctx_left (LeftOf e b r # cs) = ctx_left cs"
| "ctx_left (RightOf l e b # cs) = ctx_left cs @ inorder l @ [e]"

fun ctx_right :: "'a avl_path \<Rightarrow> 'a list" where
  "ctx_right [] = []"
| "ctx_right (LeftOf e b r # cs) = e # inorder r @ ctx_right cs"
| "ctx_right (RightOf l e b # cs) = ctx_right cs"

lemma avl_ok_zip_up: "avl_ok (zip_up t cs) \<longleftrightarrow> avl_ok t \<and> path_ok cs (ht t)"
proof (induction cs arbitrary: t)
  case (Cons c cs)
  then show ?case by (cases c) auto
qed simp

lemma inorder_zip_up: "inorder (zip_up t cs) = ctx_left cs @ inorder t @ ctx_right cs"
  by (induction cs arbitrary: t rule: ctx_left.induct) auto

lemma zip_up_append: "zip_up t (cs @ ds) = zip_up (zip_up t cs) ds"
  by (induction cs arbitrary: t) auto

lemma zip_up_eq_Nil [simp]: "zip_up t cs = Nil \<longleftrightarrow> t = Nil \<and> cs = []"
proof (induction cs arbitrary: t)
  case (Cons c cs)
  then show ?case by (cases c) auto
qed simp

lemma ctx_left_append: "ctx_left (cs @ ds) = ctx_left ds @ ctx_left cs"
  by (induction cs rule: ctx_left.induct) auto

lemma ctx_right_append: "ctx_right (cs @ ds) = ctx_right cs @ ctx_right ds"
  by (induction cs rule: ctx_right.induct) auto

lemma path_ok_append: "path_ok (cs @ ds) (ht t) \<longleftrightarrow> path_ok cs (ht t) \<and> path_ok ds (ht (zip_up t cs))"
proof (induction cs arbitrary: t)
  case (Cons c cs)
  show ?case
  proof (cases c)
    case (LeftOf e b r)
    then show ?thesis using Cons.IH [of "plug c t"] by auto
  next
    case (RightOf l e b)
    then show ?thesis using Cons.IH [of "plug c t"] by auto
  qed
qed simp

lemma avl_abs_bf: "\<bar>b\<bar> \<le> 1 \<Longrightarrow> avl_abs b = \<bar>b\<bar>"
  by (rule avl_abs_small) auto

lemma avl_ok_get_balance: "avl_ok t \<Longrightarrow> \<bar>get_balance t\<bar> \<le> 1"
  by (cases t) auto

lemma is_leaf_ht: "n \<noteq> Nil \<Longrightarrow> is_leaf n \<longleftrightarrow> ht n = 1"
proof (cases n)
  case (Node l e b r)
  have "max (ht l) (ht r) = 0 \<longleftrightarrow> ht l = 0 \<and> ht r = 0"
    using ht_nonneg [of l] ht_nonneg [of r] by (auto simp: max_def)
  then show ?thesis using Node by (simp add: is_leaf_def ht_0_iff)
qed simp

lemma is_leaf_balance: "avl_ok n \<Longrightarrow> is_leaf n \<Longrightarrow> n \<noteq> Nil \<Longrightarrow> get_balance n = 0"
  by (cases n) (auto simp: is_leaf_def)

subsection \<open>The insertion loop\<close>

text \<open>
  \<open>grown_child t\<close>: a subtree that just became one higher; if it is level it is the new
  leaf. \<open>ins_inv node bf H\<close>: the loop stands at \<open>node\<close>, whose subtree had height
  \<open>H\<close> before the insertion, with \<open>bf\<close> still to be added to its factor.
\<close>

definition grown_child :: "'a avl_tree \<Rightarrow> bool" where
  "grown_child t \<longleftrightarrow> t \<noteq> Nil \<and> (get_balance t \<noteq> 0 \<or> ht t = 1)"

fun ins_inv :: "'a avl_tree \<Rightarrow> int \<Rightarrow> int \<Rightarrow> bool" where
  "ins_inv Nil d H \<longleftrightarrow> False"
| "ins_inv (Node l e b r) d H \<longleftrightarrow> pending (Node l e b r) d \<and>
     (d = 0 \<and> l = Nil \<and> r = Nil \<and> b = 0 \<and> H = 0 \<or>
      d = -1 \<and> grown_child l \<and> H = 1 + max (ht l - 1) (ht r) \<or>
      d = 1 \<and> grown_child r \<and> H = 1 + max (ht l) (ht r - 1))"

definition grows :: "'a avl_tree \<Rightarrow> 'a avl_tree \<Rightarrow> bool" where
  "grows node n' \<longleftrightarrow> is_leaf n' \<or> avl_abs (get_balance node) < avl_abs (get_balance n')"

lemma ins_step:
  assumes "ins_inv node d H"
  shows "\<exists>n'. balance_tree node d = Some n' \<and> n' \<noteq> Nil \<and> avl_ok n' \<and> inorder n' = inorder node \<and>
    (if grows node n' then ht n' = H + 1 \<and> grown_child n' else ht n' = H)"
proof -
  obtain l e b r where node: "node = Node l e b r" using assms by (cases node) auto
  have p: "pending node d" using assms node by auto
  then obtain n' where bt: "balance_tree node d = Some n'" and rb: "rebalanced node d n'"
    using balance_tree_correct by blast
  have ok: "n' \<noteq> Nil" "avl_ok n'" "inorder n' = inorder node" using rb by (auto simp: rebalanced_def)
  have lf: "is_leaf n' \<longleftrightarrow> ht n' = 1" using ok is_leaf_ht by blast
  have abs: "avl_abs (get_balance node) = \<bar>b\<bar>" "avl_abs (get_balance n') = \<bar>get_balance n'\<bar>"
    using p node ok avl_abs_bf avl_ok_get_balance by auto
  consider "d = 0" | "d = -1" | "d = 1" using assms node by auto
  then have "if grows node n' then ht n' = H + 1 \<and> grown_child n' else ht n' = H"
  proof cases
    case 1
    then show ?thesis using assms node rb lf ok by (auto simp: rebalanced_def Let_def grows_def grown_child_def)
  next
    case 2
    then have l: "grown_child l" "1 \<le> ht l" "H = 1 + max (ht l - 1) (ht r)" "ht r - ht l = b - 1" "\<bar>b\<bar> \<le> 1"
      using assms node ht_pos [of l] by (auto simp: grown_child_def)
    have "b = -1 \<longrightarrow> get_balance l \<noteq> 0"
      using l ht_nonneg [of r] by (auto simp: grown_child_def)
    then show ?thesis
      using l 2 rb node lf abs ok ht_nonneg [of r]
      by (auto simp: rebalanced_def Let_def grows_def grown_child_def abs_if max_def split: if_splits)
  next
    case 3
    then have r: "grown_child r" "1 \<le> ht r" "H = 1 + max (ht l) (ht r - 1)" "ht r - ht l = b + 1" "\<bar>b\<bar> \<le> 1"
      using assms node ht_pos [of r] by (auto simp: grown_child_def)
    have "b = 1 \<longrightarrow> get_balance r \<noteq> 0"
      using r ht_nonneg [of l] by (auto simp: grown_child_def)
    then show ?thesis
      using r 3 rb node lf abs ok ht_nonneg [of l]
      by (auto simp: rebalanced_def Let_def grows_def grown_child_def abs_if max_def split: if_splits)
  qed
  then show ?thesis using bt ok by blast
qed

lemma insert_rebalance_correct:
  assumes "ins_inv node d H" and "path_ok cs H"
  shows "\<exists>t'. insert_rebalance node cs d = Some t' \<and> avl_ok t' \<and> inorder t' = inorder (zip_up node cs)"
  using assms
proof (induction cs arbitrary: node d H)
  case Nil
  then show ?case using ins_step by fastforce
next
  case (Cons c cs)
  obtain n' where n': "balance_tree node d = Some n'" "n' \<noteq> Nil" "avl_ok n'" "inorder n' = inorder node"
    and g: "if grows node n' then ht n' = H + 1 \<and> grown_child n' else ht n' = H"
    using ins_step [OF Cons.prems(1)] by blast
  let ?side = "if is_left_step c then -1 else (1::int)"
  have io: "inorder (zip_up (plug c n') cs) = inorder (zip_up node (c # cs))"
    using n'(4) by (cases c) (simp_all add: inorder_zip_up)
  show ?case
  proof (cases "grows node n'")
    case True
    obtain H' where "ins_inv (plug c n') ?side H'" "path_ok cs H'"
      using Cons.prems(2) n' g True by (cases c) auto
    then show ?thesis
      using Cons.IH [of "plug c n'" ?side H'] n'(1) True io by (auto simp: grows_def)
  next
    case False
    have "avl_ok (zip_up n' (c # cs))"
      using False g n' Cons.prems(2) unfolding avl_ok_zip_up by simp
    then show ?thesis using n'(1) False io by (auto simp: grows_def)
  qed
qed

subsection \<open>The removal loop\<close>

fun rem_inv :: "'a avl_tree \<Rightarrow> int \<Rightarrow> int \<Rightarrow> bool" where
  "rem_inv Nil d H \<longleftrightarrow> False"
| "rem_inv (Node l e b r) d H \<longleftrightarrow> pending (Node l e b r) d \<and>
     (d = 1 \<and> H = 1 + max (ht l + 1) (ht r) \<or> d = -1 \<and> H = 1 + max (ht l) (ht r + 1))"

definition shrinks :: "'a avl_tree \<Rightarrow> 'a avl_tree \<Rightarrow> bool" where
  "shrinks node n' \<longleftrightarrow> is_leaf n' \<or> avl_abs (get_balance node) > avl_abs (get_balance n')"

lemma rem_step:
  assumes "rem_inv node d H"
  shows "\<exists>n'. balance_tree node d = Some n' \<and> n' \<noteq> Nil \<and> avl_ok n' \<and> inorder n' = inorder node \<and>
    (if shrinks node n' then ht n' = H - 1 else ht n' = H)"
proof -
  obtain l e b r where node: "node = Node l e b r" using assms by (cases node) auto
  have p: "pending node d" using assms node by auto
  then obtain n' where bt: "balance_tree node d = Some n'" and rb: "rebalanced node d n'"
    using balance_tree_correct by blast
  have ok: "n' \<noteq> Nil" "avl_ok n'" "inorder n' = inorder node" using rb by (auto simp: rebalanced_def)
  have lf: "is_leaf n' \<longleftrightarrow> ht n' = 1" using ok is_leaf_ht by blast
  have abs: "avl_abs (get_balance node) = \<bar>b\<bar>" "avl_abs (get_balance n') = \<bar>get_balance n'\<bar>"
    using p node ok avl_abs_bf avl_ok_get_balance by auto
  have "if shrinks node n' then ht n' = H - 1 else ht n' = H"
    using assms rb node lf abs ok is_leaf_balance [of n'] ht_nonneg [of r] ht_nonneg [of l]
    by (auto simp: rebalanced_def Let_def shrinks_def abs_if max_def split: if_splits)
  then show ?thesis using bt ok by blast
qed

lemma remove_rebalance_correct:
  assumes "rem_inv node d H" and "path_ok cs H"
  shows "\<exists>t'. remove_rebalance node cs d = Some t' \<and> avl_ok t' \<and> inorder t' = inorder (zip_up node cs)"
  using assms
proof (induction cs arbitrary: node d H)
  case Nil
  then show ?case using rem_step by fastforce
next
  case (Cons c cs)
  obtain n' where n': "balance_tree node d = Some n'" "n' \<noteq> Nil" "avl_ok n'" "inorder n' = inorder node"
    and g: "if shrinks node n' then ht n' = H - 1 else ht n' = H"
    using rem_step [OF Cons.prems(1)] by blast
  let ?side = "if is_left_step c then 1 else (-1::int)"
  have io: "inorder (zip_up (plug c n') cs) = inorder (zip_up node (c # cs))"
    using n'(4) by (cases c) (simp_all add: inorder_zip_up)
  show ?case
  proof (cases "shrinks node n'")
    case True
    obtain H' where "rem_inv (plug c n') ?side H'" "path_ok cs H'"
      using Cons.prems(2) n' g True by (cases c) auto
    then show ?thesis
      using Cons.IH [of "plug c n'" ?side H'] n'(1) True io by (auto simp: shrinks_def)
  next
    case False
    have "avl_ok (zip_up n' (c # cs))"
      using False g n' Cons.prems(2) unfolding avl_ok_zip_up by simp
    then show ?thesis using n'(1) False io by (auto simp: shrinks_def)
  qed
qed

end
