(* ===== verification/AvlSpec.thy ===== *)
theory AvlSpec
  imports AvlOps
begin

section \<open>The operations of the AVL tree on its contents\<close>

text \<open>
  What each operation of \<open>avltree.c\<close> finds or changes in the in-order list of the stored
  payloads. The order is the comparison's: \<open>ordered cmp xs\<close> says that along the list the
  comparison with the query goes from negative over at most one zero to positive, which is all
  that the search loops rely on.
\<close>

definition ordered :: "('a \<Rightarrow> int) \<Rightarrow> 'a list \<Rightarrow> bool" where
  "ordered cmp xs \<longleftrightarrow> sorted_wrt (\<lambda>a b. cmp a \<ge> 0 \<longrightarrow> cmp b > 0) xs"

lemma ordered_append:
  "ordered cmp (xs @ ys) \<longleftrightarrow> ordered cmp xs \<and> ordered cmp ys \<and>
     (\<forall>x\<in>set xs. \<forall>y\<in>set ys. cmp x \<ge> 0 \<longrightarrow> cmp y > 0)"
  by (auto simp: ordered_def sorted_wrt_append)

lemma ordered_Cons:
  "ordered cmp (x # ys) \<longleftrightarrow> ordered cmp ys \<and> (\<forall>y\<in>set ys. cmp x \<ge> 0 \<longrightarrow> cmp y > 0)"
  by (auto simp: ordered_def)

lemmas ordered_simps = ordered_append ordered_Cons

text \<open>
  A position of the tree \<open>t\<close>, and the contents before it, at it and after it. The NULL
  position is \<open>Nil\<close>.
\<close>

definition pos_of :: "'a avl_tree \<Rightarrow> 'a avl_pos \<Rightarrow> bool" where
  "pos_of t p \<longleftrightarrow> fst p \<noteq> Nil \<and> zip_up (fst p) (snd p) = t"

fun before :: "'a avl_pos \<Rightarrow> 'a list" where
  "before (t, cs) = ctx_left cs @ inorder (avl_left t)"

fun after :: "'a avl_pos \<Rightarrow> 'a list" where
  "after (t, cs) = inorder (avl_right t) @ ctx_right cs"

fun elem :: "'a avl_pos \<Rightarrow> 'a" where
  "elem (t, cs) = avl_elem t"

lemma pos_of_split: "pos_of t p \<Longrightarrow> inorder t = before p @ elem p # after p"
proof (cases p)
  case (Pair n cs)
  assume "pos_of t p"
  then show ?thesis using Pair by (cases n) (auto simp: pos_of_def inorder_zip_up)
qed

subsection \<open>First, last, next and previous\<close>

lemma leftmost_spec:
  "t \<noteq> Nil \<Longrightarrow> pos_of (zip_up t cs) (leftmost t cs) \<and> before (leftmost t cs) = ctx_left cs"
  by (induction t cs rule: leftmost.induct) (auto simp: pos_of_def)

lemma rightmost_spec:
  "t \<noteq> Nil \<Longrightarrow> pos_of (zip_up t cs) (rightmost t cs) \<and> after (rightmost t cs) = ctx_right cs"
  by (induction t cs rule: rightmost.induct) (auto simp: pos_of_def)

lemma climb_next_spec:
  assumes "n \<noteq> Nil"
  shows "if ctx_right cs = [] then climb_next n cs = (Nil, [])
    else pos_of (zip_up n cs) (climb_next n cs) \<and>
      before (climb_next n cs) = ctx_left cs @ inorder n"
  using assms
proof (induction n cs rule: climb_next.induct)
  case (2 t c cs)
  then show ?case by (cases c) (auto simp: pos_of_def split: if_splits)
qed simp

lemma climb_prev_spec:
  assumes "n \<noteq> Nil"
  shows "if ctx_left cs = [] then climb_prev n cs = (Nil, [])
    else pos_of (zip_up n cs) (climb_prev n cs) \<and>
      after (climb_prev n cs) = inorder n @ ctx_right cs"
  using assms
proof (induction n cs rule: climb_prev.induct)
  case (2 t c cs)
  then show ?case by (cases c) (auto simp: pos_of_def split: if_splits)
qed simp

lemma avl_next_spec:
  assumes "pos_of t p"
  shows "if after p = [] then avl_next p = (Nil, [])
    else pos_of t (avl_next p) \<and> before (avl_next p) = before p @ [elem p]"
proof -
  obtain l e b r cs where p: "p = (Node l e b r, cs)"
    using assms by (cases p, cases "fst p") (auto simp: pos_of_def)
  have t: "t = zip_up (Node l e b r) cs" using assms p by (simp add: pos_of_def)
  show ?thesis
  proof (cases "r = Nil")
    case True
    then show ?thesis using p t climb_next_spec [of "Node l e b r" cs] by auto
  next
    case False
    then have "inorder r \<noteq> []" by (cases r) auto
    then show ?thesis using p t False leftmost_spec [of r "RightOf l e b # cs"] by auto
  qed
qed

lemma avl_prev_spec:
  assumes "pos_of t p"
  shows "if before p = [] then avl_prev p = (Nil, [])
    else pos_of t (avl_prev p) \<and> after (avl_prev p) = elem p # after p"
proof -
  obtain l e b r cs where p: "p = (Node l e b r, cs)"
    using assms by (cases p, cases "fst p") (auto simp: pos_of_def)
  have t: "t = zip_up (Node l e b r) cs" using assms p by (simp add: pos_of_def)
  show ?thesis
  proof (cases "l = Nil")
    case True
    then show ?thesis using p t climb_prev_spec [of "Node l e b r" cs] by auto
  next
    case False
    then have "inorder l \<noteq> []" by (cases l) auto
    then show ?thesis using p t False rightmost_spec [of l "LeftOf e b r # cs"] by auto
  qed
qed

subsection \<open>Searching\<close>

lemma avl_search_loop_spec:
  assumes "ordered cmp (inorder t)"
  shows "if \<exists>e\<in>set (inorder t). cmp e = 0
    then pos_of (zip_up t cs) (avl_search_loop cmp t cs) \<and> cmp (elem (avl_search_loop cmp t cs)) = 0
    else avl_search_loop cmp t cs = (Nil, [])"
  using assms
proof (induction cmp t cs rule: avl_search_loop.induct)
  case (2 cmp l e b r cs)
  consider "cmp e > 0" | "cmp e < 0" | "cmp e = 0" by linarith
  then show ?case
  proof cases
    case 1
    then show ?thesis using 2 by (force simp: ordered_simps split: if_splits)
  next
    case 2
    then have "\<forall>x\<in>set (inorder l). cmp x < 0" using "2.prems" by (force simp: ordered_simps)
    then show ?thesis using 2 "2.IH" "2.prems" by (force simp: ordered_simps split: if_splits)
  next
    case 3
    then show ?thesis by (auto simp: pos_of_def)
  qed
qed simp

text \<open>
  The last node compared: with no match, it is a neighbour of the query, so that all the
  contents before it are smaller and all after it are greater.
\<close>

definition closest :: "('a \<Rightarrow> int) \<Rightarrow> 'a avl_tree \<Rightarrow> bool \<times> 'a avl_pos \<Rightarrow> bool" where
  "closest cmp t fp \<longleftrightarrow> pos_of t (snd fp) \<and> (fst fp \<longleftrightarrow> cmp (elem (snd fp)) = 0) \<and>
     (\<forall>x\<in>set (before (snd fp)). cmp x < 0) \<and> (\<forall>x\<in>set (after (snd fp)). cmp x > 0)"

lemma search_last_spec:
  assumes "ordered cmp (inorder (zip_up t cs))"
    and "\<forall>x\<in>set (ctx_left cs). cmp x < 0" and "\<forall>x\<in>set (ctx_right cs). cmp x > 0"
    and "t = Nil \<Longrightarrow> closest cmp (zip_up t cs) (False, pp)"
  shows "closest cmp (zip_up t cs) (search_last cmp t cs pp)"
  using assms
proof (induction cmp t cs pp rule: search_last.induct)
  case (2 cmp l e b r cs pp)
  have o: "cmp e \<ge> 0 \<Longrightarrow> \<forall>x\<in>set (inorder r). cmp x > 0"
    "cmp e \<le> 0 \<Longrightarrow> \<forall>x\<in>set (inorder l). cmp x < 0"
    using "2.prems"(1) by (force simp: inorder_zip_up ordered_simps)+
  note c = "2.prems"(2,3)
  consider (gt) "cmp e > 0" | (lt) "cmp e < 0" | (eq) "cmp e = 0" by linarith
  then show ?case
  proof cases
    case gt
    have "closest cmp (zip_up l (LeftOf e b r # cs)) (search_last cmp l (LeftOf e b r # cs) (Node l e b r, cs))"
      by (rule "2.IH"(1) [OF gt]) (use gt o(1) c "2.prems"(1) in \<open>auto simp: closest_def pos_of_def\<close>)
    then show ?thesis using gt by simp
  next
    case lt
    have "closest cmp (zip_up r (RightOf l e b # cs)) (search_last cmp r (RightOf l e b # cs) (Node l e b r, cs))"
      by (rule "2.IH"(2)) (use lt o(2) c "2.prems"(1) in \<open>auto simp: closest_def pos_of_def\<close>)
    then show ?thesis using lt by simp
  next
    case eq
    then show ?thesis using o c by (auto simp: closest_def pos_of_def)
  qed
qed auto

lemma avl_search_spec:
  assumes "ordered cmp (inorder t)"
  shows "if \<exists>e\<in>set (inorder t). cmp e = 0
    then pos_of t (avl_search cmp t) \<and> cmp (elem (avl_search cmp t)) = 0
    else avl_search cmp t = (Nil, [])"
  using avl_search_loop_spec [OF assms, of "[]"] by (simp add: avl_search_def split: if_splits)

lemma search_last_root:
  assumes "ordered cmp (inorder t)"
  shows "if t = Nil then search_last cmp t [] (Nil, []) = (False, Nil, [])
    else closest cmp t (search_last cmp t [] (Nil, []))"
  using search_last_spec [of cmp t "[]" "(Nil, [])"] assms by (cases "t = Nil") simp_all

lemma avl_search_greater_spec:
  assumes "ordered cmp (inorder t)"
  shows "if \<exists>e\<in>set (inorder t). cmp e \<ge> 0
    then pos_of t (avl_search_greater cmp t) \<and> cmp (elem (avl_search_greater cmp t)) \<ge> 0 \<and>
      (\<forall>e\<in>set (before (avl_search_greater cmp t)). cmp e < 0)
    else avl_search_greater cmp t = (Nil, [])"
proof (cases "t = Nil")
  case True
  then show ?thesis by (simp add: avl_search_greater_def)
next
  case False
  obtain found n cs where s: "search_last cmp t [] (Nil, []) = (found, n, cs)"
    by (cases "search_last cmp t [] (Nil, [])")
  then have c: "closest cmp t (found, n, cs)" using search_last_root [OF assms] False by auto
  then have io: "inorder t = before (n, cs) @ elem (n, cs) # after (n, cs)" and po: "pos_of t (n, cs)"
    using pos_of_split [of t "(n, cs)"] by (auto simp: closest_def)
  obtain l e b r where n: "n = Node l e b r" using po by (cases n) (auto simp: pos_of_def)
  have g: "avl_search_greater cmp t = (if cmp e \<ge> 0 then (n, cs) else avl_next (n, cs))"
    using s n c by (auto simp: avl_search_greater_def closest_def)
  show ?thesis
  proof (cases "cmp e \<ge> 0")
    case True
    then show ?thesis using g n c io by (auto simp: closest_def)
  next
    case False
    show ?thesis
    proof (cases "after (n, cs) = []")
      case True
      then have "avl_search_greater cmp t = (Nil, [])" using g False avl_next_spec [OF po] by simp
      moreover have "\<forall>x\<in>set (inorder t). cmp x < 0"
        using c io True False n by (auto simp: closest_def simp del: before.simps after.simps)
      ultimately show ?thesis by force
    next
      case af: False
      then have nx: "pos_of t (avl_next (n, cs))" "before (avl_next (n, cs)) = before (n, cs) @ [e]"
        using avl_next_spec [OF po] n by auto
      have "after (n, cs) = elem (avl_next (n, cs)) # after (avl_next (n, cs))"
        using pos_of_split [OF nx(1)] io nx(2) n by simp
      then have "elem (avl_next (n, cs)) \<in> set (after (n, cs))" by simp
      then have "cmp (elem (avl_next (n, cs))) > 0" "elem (avl_next (n, cs)) \<in> set (inorder t)"
        using c io by (auto simp: closest_def)
      then show ?thesis using False g nx c n by (auto simp: closest_def intro!: bexI)
    qed
  qed
qed

lemma avl_search_smaller_spec:
  assumes "ordered cmp (inorder t)"
  shows "if \<exists>e\<in>set (inorder t). cmp e \<le> 0
    then pos_of t (avl_search_smaller cmp t) \<and> cmp (elem (avl_search_smaller cmp t)) \<le> 0 \<and>
      (\<forall>e\<in>set (after (avl_search_smaller cmp t)). cmp e > 0)
    else avl_search_smaller cmp t = (Nil, [])"
proof (cases "t = Nil")
  case True
  then show ?thesis by (simp add: avl_search_smaller_def)
next
  case False
  obtain found n cs where s: "search_last cmp t [] (Nil, []) = (found, n, cs)"
    by (cases "search_last cmp t [] (Nil, [])")
  then have c: "closest cmp t (found, n, cs)" using search_last_root [OF assms] False by auto
  then have io: "inorder t = before (n, cs) @ elem (n, cs) # after (n, cs)" and po: "pos_of t (n, cs)"
    using pos_of_split [of t "(n, cs)"] by (auto simp: closest_def)
  obtain l e b r where n: "n = Node l e b r" using po by (cases n) (auto simp: pos_of_def)
  have g: "avl_search_smaller cmp t = (if cmp e \<le> 0 then (n, cs) else avl_prev (n, cs))"
    using s n c by (auto simp: avl_search_smaller_def closest_def)
  show ?thesis
  proof (cases "cmp e \<le> 0")
    case True
    then show ?thesis using g n c io by (auto simp: closest_def)
  next
    case False
    show ?thesis
    proof (cases "before (n, cs) = []")
      case True
      then have "avl_search_smaller cmp t = (Nil, [])" using g False avl_prev_spec [OF po] by simp
      moreover have "\<forall>x\<in>set (inorder t). cmp x > 0"
        using c io True False n by (auto simp: closest_def simp del: before.simps after.simps)
      ultimately show ?thesis by force
    next
      case bf: False
      then have pv: "pos_of t (avl_prev (n, cs))" "after (avl_prev (n, cs)) = e # after (n, cs)"
        using avl_prev_spec [OF po] n by auto
      have "before (n, cs) = before (avl_prev (n, cs)) @ [elem (avl_prev (n, cs))]"
        using pos_of_split [OF pv(1)] io pv(2) n by simp
      then have "elem (avl_prev (n, cs)) \<in> set (before (n, cs))" by simp
      then have "cmp (elem (avl_prev (n, cs))) < 0" "elem (avl_prev (n, cs)) \<in> set (inorder t)"
        using c io by (auto simp: closest_def)
      then show ?thesis using False g pv c n by (auto simp: closest_def intro!: bexI)
    qed
  qed
qed

subsection \<open>Insertion\<close>

lemma insert_descend_Inl:
  "insert_descend cmp t cs = Inl p \<Longrightarrow> pos_of (zip_up t cs) p \<and> cmp (elem p) = 0"
  by (induction cmp t cs rule: insert_descend.induct) (auto simp: pos_of_def split: if_splits)

lemma insert_descend_Inr:
  assumes "insert_descend cmp t cs = Inr ds" and "ordered cmp (inorder t)"
    and "\<forall>x\<in>set (ctx_left cs). cmp x < 0" and "\<forall>x\<in>set (ctx_right cs). cmp x > 0"
  shows "zip_up Nil ds = zip_up t cs \<and>
    (\<forall>x\<in>set (ctx_left ds). cmp x < 0) \<and> (\<forall>x\<in>set (ctx_right ds). cmp x > 0)"
  using assms
proof (induction cmp t cs rule: insert_descend.induct)
  case (2 cmp l e b r cs)
  have o: "ordered cmp (inorder l)" "ordered cmp (inorder r)"
    "cmp e \<ge> 0 \<Longrightarrow> \<forall>x\<in>set (inorder r). cmp x > 0" "cmp e \<le> 0 \<Longrightarrow> \<forall>x\<in>set (inorder l). cmp x < 0"
    using "2.prems"(2) by (force simp: ordered_simps)+
  note c = "2.prems"(3,4)
  consider (gt) "cmp e > 0" | (lt) "cmp e < 0" | (eq) "cmp e = 0" by linarith
  then show ?case
  proof cases
    case gt
    have "zip_up Nil ds = zip_up l (LeftOf e b r # cs) \<and>
      (\<forall>x\<in>set (ctx_left ds). cmp x < 0) \<and> (\<forall>x\<in>set (ctx_right ds). cmp x > 0)"
      by (rule "2.IH"(1) [OF gt]) (use gt o c "2.prems"(1) in auto)
    then show ?thesis by simp
  next
    case lt
    have "zip_up Nil ds = zip_up r (RightOf l e b # cs) \<and>
      (\<forall>x\<in>set (ctx_left ds). cmp x < 0) \<and> (\<forall>x\<in>set (ctx_right ds). cmp x > 0)"
      by (rule "2.IH"(2)) (use lt o c "2.prems"(1) in auto)
    then show ?thesis by simp
  next
    case eq
    then show ?thesis using "2.prems"(1) by simp
  qed
qed auto

lemma avl_insert_spec:
  assumes "avl_ok t" and "ordered cmp (inorder t)"
  shows "if \<exists>e\<in>set (inorder t). cmp e = 0 then avl_insert cmp x t = Some (t, False)
    else \<exists>t'. avl_insert cmp x t = Some (t', True) \<and> avl_ok t' \<and>
      inorder t' = filter (\<lambda>e. cmp e < 0) (inorder t) @ x # filter (\<lambda>e. cmp e > 0) (inorder t)"
proof (cases "insert_descend cmp t []")
  case (Inl p)
  then have "pos_of t p" "cmp (elem p) = 0" using insert_descend_Inl [OF Inl] by auto
  then have "\<exists>e\<in>set (inorder t). cmp e = 0" 
    using pos_of_split [of t p] by (intro bexI [of _ "elem p"]) simp_all
  then show ?thesis using Inl by (simp add: avl_insert_def)
next
  case (Inr ds)
  then have z: "zip_up Nil ds = t" and c: "\<forall>x\<in>set (ctx_left ds). cmp x < 0" "\<forall>x\<in>set (ctx_right ds). cmp x > 0"
    using insert_descend_Inr [OF Inr] assms(2) by auto
  have io: "inorder t = ctx_left ds @ ctx_right ds" using z inorder_zip_up [of Nil ds] by simp
  have "ins_inv (Node Nil x 0 Nil) 0 0" "path_ok ds 0"
    using z assms(1) avl_ok_zip_up [of Nil ds] by auto
  then obtain t' where "insert_rebalance (Node Nil x 0 Nil) ds 0 = Some t'" "avl_ok t'"
    "inorder t' = inorder (zip_up (Node Nil x 0 Nil) ds)"
    using insert_rebalance_correct by blast
  moreover have "filter (\<lambda>e. cmp e < 0) (inorder t) = ctx_left ds"
    "filter (\<lambda>e. cmp e > 0) (inorder t) = ctx_right ds"
    using io c by (auto simp: filter_empty_conv filter_id_conv dest: order.asym)
  moreover have "\<not> (\<exists>e\<in>set (inorder t). cmp e = 0)" using io c by auto
  ultimately show ?thesis using Inr by (auto simp: avl_insert_def inorder_zip_up)
qed

subsection \<open>Removal\<close>

lemma leftmost_shape:
  assumes "leftmost t [] = (n, cs)" and "t \<noteq> Nil"
  shows "\<exists>ne nb nr. n = Node Nil ne nb nr \<and> zip_up n cs = t"
proof -
  have "\<exists>ne nb nr. fst (leftmost t cs) = Node Nil ne nb nr" for cs
    using assms(2) by (induction t cs rule: leftmost.induct) auto
  then have "\<exists>ne nb nr. fst (leftmost t []) = Node Nil ne nb nr" .
  then show ?thesis using assms leftmost_spec [OF assms(2), of "[]"] by (auto simp: pos_of_def)
qed

lemma leftmost_steps: "\<forall>c\<in>set cs. is_left_step c \<Longrightarrow> \<forall>c\<in>set (snd (leftmost t cs)). is_left_step c"
  by (induction t cs rule: leftmost.induct) auto

lemma avl_remove_spec:
  assumes "avl_ok t" and "pos_of t p"
  shows "\<exists>t'. avl_remove t p = Some t' \<and> avl_ok t' \<and> inorder t' = before p @ after p"
proof -
  obtain l e b r path where p: "p = (Node l e b r, path)"
    using assms(2) by (cases p, cases "fst p") (auto simp: pos_of_def)
  have t: "t = zip_up (Node l e b r) path" using assms p by (simp add: pos_of_def)
  have ok: "avl_ok (Node l e b r)" "path_ok path (ht (Node l e b r))"
    using assms(1) t avl_ok_zip_up by blast+
  show ?thesis
  proof (cases "r = Nil")
    case True
    show ?thesis
    proof (cases path)
      case Nil
      then show ?thesis using True p ok by simp
    next
      case (Cons c cs)
      obtain H where "rem_inv (plug c l) (if is_left_step c then 1 else -1) H" "path_ok cs H"
        using ok True Cons ht_nonneg [of l] by (cases c) (auto simp: add.commute)
      then show ?thesis
        using remove_rebalance_correct [of "plug c l" _ H cs] True p Cons
        by (cases c) (fastforce simp: inorder_zip_up)+
    qed
  next
    case False
    obtain n cs where lm: "leftmost r [] = (n, cs)" by (cases "leftmost r []")
    then obtain ne nb nr where n: "n = Node Nil ne nb nr" and z: "zip_up n cs = r"
      using leftmost_shape False by blast
    have okn: "avl_ok n" "path_ok cs (ht n)" using z ok avl_ok_zip_up [of n cs] by auto
    show ?thesis
    proof (cases cs)
      case Nil
      have "rem_inv (Node l ne b nr) (-1) (ht (Node l e b r))"
        using ok okn n z Nil ht_nonneg [of nr] by auto
      then show ?thesis
        using remove_rebalance_correct [OF _ ok(2), of "Node l ne b nr" "-1"] p lm n Nil z
        by (fastforce simp: inorder_zip_up)
    next
      case (Cons c cs')
      have "is_left_step c" using leftmost_steps [of "[]" r] lm Cons by simp
      then obtain ce cb cr where c: "c = LeftOf ce cb cr" by (cases c) auto
      let ?H = "ht (plug c n)"
      have "path_ok (RightOf l ne b # path) (ht r)" using ok by fastforce
      then have "path_ok (cs' @ RightOf l ne b # path) ?H"
        using path_ok_append [of cs' "RightOf l ne b # path" "plug c n"] okn z Cons c by auto
      moreover have "rem_inv (plug c nr) 1 ?H"
        using okn Cons c n ht_nonneg [of nr] by auto
      ultimately obtain t' where "remove_rebalance (plug c nr) (cs' @ RightOf l ne b # path) 1 = Some t'"
        "avl_ok t'" "inorder t' = inorder (zip_up (plug c nr) (cs' @ RightOf l ne b # path))"
        using remove_rebalance_correct by blast
      moreover have "inorder r = ctx_left cs' @ ne # inorder nr @ ce # inorder cr @ ctx_right cs'"
        using z n Cons c by (auto simp: inorder_zip_up)
      moreover have "ctx_left cs' = []"
        using leftmost_spec [OF False, of "[]"] lm n Cons c by simp
      ultimately show ?thesis
        using p lm n Cons c by (simp add: inorder_zip_up ctx_left_append ctx_right_append)
    qed
  qed
qed

declare before.simps [simp del] after.simps [simp del] elem.simps [simp del]

subsection \<open>Properties\<close>

text \<open>C8: Inserting into a balanced, ordered AVL tree either finds the equal payload and leaves
  the tree as it is, or puts the new payload at its place in the order; in both cases every stored
  balance factor is again the difference of two heights and lies between -1 and 1, and no
  rotation ever writes a factor that does not fit into the two bits it is stored in.\<close>

theorem avl_insert_correct:
  assumes "avl_ok t" and "ordered cmp (inorder t)"
  shows "if \<exists>e\<in>set (inorder t). cmp e = 0 then avl_insert cmp x t = Some (t, False)
    else \<exists>t'. avl_insert cmp x t = Some (t', True) \<and> avl_ok t' \<and>
      inorder t' = filter (\<lambda>e. cmp e < 0) (inorder t) @ x # filter (\<lambda>e. cmp e > 0) (inorder t)"
  using assms by (rule avl_insert_spec)

lemma avl_insert_correct_witness:
  "\<exists>t'. avl_insert (\<lambda>e. e - 3) (3::int) (Node Nil 1 1 (Node Nil 2 0 Nil)) = Some (t', True)
    \<and> avl_ok t' \<and> inorder t' = [1, 2, 3]"
  using avl_insert_correct [of "Node Nil (1::int) 1 (Node Nil 2 0 Nil)" "\<lambda>e. e - 3" 3]
  by (simp add: ordered_def)

text \<open>C9: Removing the node at any position of a balanced AVL tree removes exactly its payload from
  the contents and leaves a balanced tree.\<close>

theorem avl_remove_correct:
  assumes "avl_ok t" and "pos_of t p"
  shows "\<exists>t'. avl_remove t p = Some t' \<and> avl_ok t' \<and> inorder t' = before p @ after p"
  using assms by (rule avl_remove_spec)

lemma avl_remove_correct_witness:
  "\<exists>t'. avl_remove (Node Nil (1::int) 1 (Node Nil 2 0 Nil)) (Node Nil 1 1 (Node Nil 2 0 Nil), []) = Some t'
    \<and> avl_ok t' \<and> inorder t' = [2]"
  using avl_remove_correct [of "Node Nil (1::int) 1 (Node Nil 2 0 Nil)" "(Node Nil 1 1 (Node Nil 2 0 Nil), [])"]
  by (simp add: pos_of_def before.simps after.simps)

end
