(* ===== verification/MemoryIndexer.thy ===== *)
theory MemoryIndexer
  imports AvlSpec
begin

section \<open>The memory indexer (lib/memory\_indexer)\<close>

text \<open>
  \<open>memory_indexer.c\<close>: an AVL tree from keys to pointers. A node's payload is the
  \<open>memory_wrapper\<close> around it. The tree operations have no result where they would corrupt
  a node; the theorems show that this never happens on a tree built by this interface.
  What its clients rely on is the locale \<open>map_store\<close>.
\<close>

record memory_wrapper =
  mw_key :: nat
  mw_value :: addr

record memory_indexer =
  avl_root :: "memory_wrapper avl_tree"

definition cmp_func :: "memory_wrapper \<Rightarrow> memory_wrapper \<Rightarrow> int" where
  "cmp_func aa bb =
     (if mw_key aa < mw_key bb then -1 else if mw_key aa > mw_key bb then 1 else 0)"

text \<open>\<open>avl_search\<close> compares a stored node with the query.\<close>

definition find_node :: "memory_indexer \<Rightarrow> nat \<Rightarrow> memory_wrapper avl_pos" where
  "find_node indexer key =
     (let query = \<lparr>mw_key = key, mw_value = NULL\<rparr>
      in avl_search (\<lambda>node. cmp_func node query) (avl_root indexer))"

definition memory_indexer_init :: memory_indexer where
  "memory_indexer_init = \<lparr>avl_root = Nil\<rparr>"

definition memory_indexer_remove :: "memory_indexer \<Rightarrow> nat \<Rightarrow> memory_indexer option" where
  "memory_indexer_remove indexer key =
     (let avl_node = find_node indexer key in
      if fst avl_node \<noteq> Nil then do {
        t \<leftarrow> avl_remove (avl_root indexer) avl_node;
        Some (indexer\<lparr>avl_root := t\<rparr>)
      } else Some indexer)"

definition memory_indexer_set :: "memory_indexer \<Rightarrow> nat \<Rightarrow> addr \<Rightarrow> memory_indexer option" where
  "memory_indexer_set indexer key val = do {
     indexer \<leftarrow> memory_indexer_remove indexer key;
     let memory_item = \<lparr>mw_key = key, mw_value = val\<rparr>;
     (t, _) \<leftarrow> avl_insert (\<lambda>node. cmp_func node memory_item) memory_item (avl_root indexer);
     Some (indexer\<lparr>avl_root := t\<rparr>)
   }"

definition memory_indexer_search :: "memory_indexer \<Rightarrow> nat \<Rightarrow> addr" where
  "memory_indexer_search indexer key =
     (let avl_node = find_node indexer key in
      if fst avl_node \<noteq> Nil then mw_value (elem avl_node) else NULL)"

text \<open>
  \<open>memory_indexer_free\<close> unlinks the nodes in order, following \<open>avl_next\<close> before
  each removal. A removal leaves the other nodes where they are in memory, so the pointer to the
  next node stays valid; in the tree without the removed node it is the position with that
  node's key.
\<close>

partial_function (option) memory_indexer_free_loop ::
  "memory_indexer \<Rightarrow> memory_wrapper avl_pos \<Rightarrow> nat \<Rightarrow> (nat \<times> memory_indexer) option" where
  "memory_indexer_free_loop indexer avl_node x =
     (if fst avl_node = Nil then Some (x, indexer)
      else
        let node = avl_node; avl_node = avl_next node
        in do {
          t \<leftarrow> avl_remove (avl_root indexer) node;
          let indexer = indexer\<lparr>avl_root := t\<rparr>;
          memory_indexer_free_loop indexer
            (if fst avl_node = Nil then (Nil, []) else find_node indexer (mw_key (elem avl_node)))
            (x + 1)
        })"

definition memory_indexer_free :: "memory_indexer \<Rightarrow> (nat \<times> memory_indexer) option" where
  "memory_indexer_free indexer =
     memory_indexer_free_loop indexer
       (if avl_root indexer = Nil then (Nil, []) else avl_first (avl_root indexer)) 0"

subsection \<open>The interface\<close>

text \<open>
  A finite map from keys to pointers behind a stateful interface: \<open>abs\<close> is its contents,
  \<open>ok\<close> its invariant. Lookups return NULL for a key that is not stored.
\<close>

locale map_store =
  fixes new :: "'s"
    and set_key :: "'s \<Rightarrow> nat \<Rightarrow> addr \<Rightarrow> 's option"
    and search :: "'s \<Rightarrow> nat \<Rightarrow> addr"
    and remove_key :: "'s \<Rightarrow> nat \<Rightarrow> 's option"
    and ok :: "'s \<Rightarrow> bool"
    and abs_map :: "'s \<Rightarrow> nat \<rightharpoonup> addr"
  assumes new_ok: "ok new" and new_abs: "abs_map new = Map.empty"
    and search_abs: "ok m \<Longrightarrow> search m k = (case abs_map m k of None \<Rightarrow> NULL | Some v \<Rightarrow> v)"
    and set_key_total: "ok m \<Longrightarrow> \<exists>m'. set_key m k v = Some m' \<and> ok m' \<and> abs_map m' = (abs_map m)(k \<mapsto> v)"
    and remove_key_total: "ok m \<Longrightarrow> \<exists>m'. remove_key m k = Some m' \<and> ok m' \<and> abs_map m' = (abs_map m)(k := None)"
begin

lemma search_new [simp]: "search new k = NULL"
  by (simp add: search_abs new_ok new_abs)

lemma set_keyD:
  assumes "ok m" and "set_key m k v = Some m'"
  shows "ok m' \<and> abs_map m' = (abs_map m)(k \<mapsto> v)"
  using set_key_total [OF assms(1), of k v] assms(2) by auto

lemma remove_keyD:
  assumes "ok m" and "remove_key m k = Some m'"
  shows "ok m' \<and> abs_map m' = (abs_map m)(k := None)"
  using remove_key_total [OF assms(1), of k] assms(2) by auto

lemma search_after_set:
  "ok m \<Longrightarrow> set_key m k v = Some m' \<Longrightarrow> search m' j = (if j = k then v else search m j)"
  using set_keyD [of m k v m'] by (simp add: search_abs)

lemma search_after_remove:
  "ok m \<Longrightarrow> remove_key m k = Some m' \<Longrightarrow> search m' j = (if j = k then NULL else search m j)"
  using remove_keyD [of m k m'] by (simp add: search_abs)

lemma search_nonnull: "ok m \<Longrightarrow> search m k \<noteq> NULL \<Longrightarrow> abs_map m k = Some (search m k)"
  by (cases "abs_map m k") (auto simp: search_abs)

lemma search_Some: "ok m \<Longrightarrow> abs_map m k = Some v \<Longrightarrow> search m k = v"
  by (simp add: search_abs)

lemma search_None: "ok m \<Longrightarrow> abs_map m k = None \<Longrightarrow> search m k = NULL"
  by (simp add: search_abs)

end

subsection \<open>Invariant and contents\<close>

definition mi_entries :: "memory_indexer \<Rightarrow> memory_wrapper list" where
  "mi_entries m = inorder (avl_root m)"

definition mi_ok :: "memory_indexer \<Rightarrow> bool" where
  "mi_ok m \<longleftrightarrow> avl_ok (avl_root m) \<and> sorted_wrt (<) (map mw_key (mi_entries m))"

definition mi_map :: "memory_indexer \<Rightarrow> nat \<rightharpoonup> addr" where
  "mi_map m = map_of (map (\<lambda>w. (mw_key w, mw_value w)) (mi_entries m))"

lemma cmp_func_simps [simp]:
  "cmp_func a b = 0 \<longleftrightarrow> mw_key a = mw_key b"
  "cmp_func a b < 0 \<longleftrightarrow> mw_key a < mw_key b"
  "0 < cmp_func a b \<longleftrightarrow> mw_key a > mw_key b"
  "0 \<le> cmp_func a b \<longleftrightarrow> mw_key a \<ge> mw_key b"
  by (auto simp: cmp_func_def)

lemma ordered_keys:
  "sorted_wrt (<) (map mw_key xs) \<Longrightarrow> ordered (\<lambda>n. cmp_func n q) xs"
  by (induction xs) (auto simp: ordered_simps ordered_def)

lemma map_of_entries_eq_Some:
  assumes "sorted_wrt (<) (map mw_key xs)"
  shows "map_of (map (\<lambda>w. (mw_key w, mw_value w)) xs) k = Some v \<longleftrightarrow>
    (\<exists>w\<in>set xs. mw_key w = k \<and> mw_value w = v)"
proof -
  have "distinct (map fst (map (\<lambda>w. (mw_key w, mw_value w)) xs))"
    using assms strict_sorted_iff [of "map mw_key xs"] by (simp add: comp_def)
  then show ?thesis by (auto simp: map_of_eq_Some_iff)
qed

lemma mi_map_eq_Some:
  "mi_ok m \<Longrightarrow> mi_map m k = Some v \<longleftrightarrow> (\<exists>w\<in>set (mi_entries m). mw_key w = k \<and> mw_value w = v)"
  by (simp add: mi_ok_def mi_map_def map_of_entries_eq_Some)

lemma mi_map_eq_None:
  "mi_map m k = None \<longleftrightarrow> (\<forall>w\<in>set (mi_entries m). mw_key w \<noteq> k)"
  by (auto simp: mi_map_def map_of_eq_None_iff image_iff)

lemma find_node_spec:
  assumes "mi_ok m"
  shows "if k \<in> dom (mi_map m)
    then pos_of (avl_root m) (find_node m k) \<and> mw_key (elem (find_node m k)) = k
    else find_node m k = (Nil, [])"
proof -
  let ?q = "\<lparr>mw_key = k, mw_value = NULL\<rparr>"
  have "ordered (\<lambda>n. cmp_func n ?q) (inorder (avl_root m))"
    using assms by (simp add: mi_ok_def mi_entries_def ordered_keys)
  note * = avl_search_spec [OF this]
  have "k \<in> dom (mi_map m) \<longleftrightarrow> (\<exists>e\<in>set (inorder (avl_root m)). cmp_func e ?q = 0)"
    using mi_map_eq_None [of m k] by (auto simp: mi_entries_def dom_def)
  then show ?thesis using * by (simp add: find_node_def split: if_splits)
qed

lemma mi_pos_elem:
  assumes "mi_ok m" and "pos_of (avl_root m) p"
  shows "mi_map m (mw_key (elem p)) = Some (mw_value (elem p))"
  using pos_of_split [OF assms(2)] by (subst mi_map_eq_Some [OF assms(1)]) (auto simp: mi_entries_def)

lemma mi_remove_pos:
  assumes "mi_ok m" and "pos_of (avl_root m) p"
  shows "\<exists>t. avl_remove (avl_root m) p = Some t \<and> mi_ok (m\<lparr>avl_root := t\<rparr>) \<and>
    mi_entries (m\<lparr>avl_root := t\<rparr>) = before p @ after p \<and>
    mi_map (m\<lparr>avl_root := t\<rparr>) = (mi_map m)(mw_key (elem p) := None)"
proof -
  obtain t where t: "avl_remove (avl_root m) p = Some t" "avl_ok t" "inorder t = before p @ after p"
    using avl_remove_spec [of "avl_root m" p] assms by (auto simp: mi_ok_def)
  have io: "mi_entries m = before p @ elem p # after p" using pos_of_split [OF assms(2)] by (simp add: mi_entries_def)
  let ?m = "m\<lparr>avl_root := t\<rparr>"
  have en: "mi_entries ?m = before p @ after p" using t by (simp add: mi_entries_def)
  have s: "sorted_wrt (<) (map mw_key (before p @ elem p # after p))" using assms(1) io by (simp add: mi_ok_def)
  then have ok: "mi_ok ?m" using t en by (simp add: mi_ok_def sorted_wrt_append)
  have "mi_map ?m k = ((mi_map m)(mw_key (elem p) := None)) k" for k
  proof (cases "k = mw_key (elem p)")
    case True
    then have "\<forall>w\<in>set (mi_entries ?m). mw_key w \<noteq> k" using s unfolding en by (force simp: sorted_wrt_append)
    then show ?thesis using True mi_map_eq_None [of ?m k] by simp
  next
    case False
    then have "mi_map ?m k = Some v \<longleftrightarrow> mi_map m k = Some v" for v
      unfolding mi_map_eq_Some [OF ok] mi_map_eq_Some [OF assms(1)] en io by auto
    then show ?thesis using False by (cases "mi_map m k") (auto simp: option.expand)
  qed
  then show ?thesis using t ok en by auto
qed

lemma mi_insert_new:
  assumes "mi_ok m" and "mi_map m k = None" and w: "w = \<lparr>mw_key = k, mw_value = v\<rparr>"
  shows "\<exists>t. avl_insert (\<lambda>n. cmp_func n w) w (avl_root m) = Some (t, True) \<and>
    mi_ok (m\<lparr>avl_root := t\<rparr>) \<and> mi_map (m\<lparr>avl_root := t\<rparr>) = (mi_map m)(k \<mapsto> v)"
proof -
  let ?xs = "inorder (avl_root m)"
  have s: "sorted_wrt (<) (map mw_key ?xs)" "avl_ok (avl_root m)" using assms(1) by (auto simp: mi_ok_def mi_entries_def)
  have new: "\<forall>e\<in>set ?xs. mw_key e \<noteq> k" using assms(2) by (simp add: mi_map_eq_None mi_entries_def)
  then obtain t where t: "avl_insert (\<lambda>n. cmp_func n w) w (avl_root m) = Some (t, True)" "avl_ok t"
    and io: "inorder t = filter (\<lambda>e. mw_key e < k) ?xs @ w # filter (\<lambda>e. mw_key e > k) ?xs"
    using avl_insert_spec [OF s(2) ordered_keys [OF s(1)], of w w] w by auto
  let ?m = "m\<lparr>avl_root := t\<rparr>"
  have sf: "sorted_wrt (<) (map mw_key (filter P ?xs))" for P
    using s(1) by (simp add: sorted_wrt_map sorted_wrt_filter)
  have "sorted_wrt (<) (map mw_key (inorder t))"
    unfolding io using sf w by (auto simp: sorted_wrt_append)
  then have ok: "mi_ok ?m" using t by (simp add: mi_ok_def mi_entries_def)
  have st: "set (mi_entries ?m) = insert w (set (mi_entries m))"
    using io new by (auto simp: mi_entries_def)
  have "mi_map ?m j = ((mi_map m)(k \<mapsto> v)) j" for j
  proof (cases "j = k")
    case True
    then show ?thesis using mi_map_eq_Some [OF ok] st w by simp
  next
    case False
    then have "mi_map ?m j = Some u \<longleftrightarrow> mi_map m j = Some u" for u
      unfolding mi_map_eq_Some [OF ok] mi_map_eq_Some [OF assms(1)] st using w by auto
    then show ?thesis using False by (cases "mi_map m j") (auto simp: option.expand)
  qed
  then show ?thesis using t ok by auto
qed

subsection \<open>The operations\<close>

lemma mi_init: "mi_ok memory_indexer_init" "mi_map memory_indexer_init = Map.empty"
  by (simp_all add: mi_ok_def mi_map_def memory_indexer_init_def mi_entries_def)

lemma mi_search:
  assumes "mi_ok m"
  shows "memory_indexer_search m k = (case mi_map m k of None \<Rightarrow> NULL | Some v \<Rightarrow> v)"
proof (cases "mi_map m k")
  case None
  then have "find_node m k = (Nil, [])" using find_node_spec [OF assms, of k] by (auto split: if_splits)
  then show ?thesis using None by (simp add: memory_indexer_search_def)
next
  case (Some v)
  then have "pos_of (avl_root m) (find_node m k)" "mw_key (elem (find_node m k)) = k"
    using find_node_spec [OF assms, of k] by (auto split: if_splits)
  then show ?thesis using Some mi_pos_elem [OF assms, of "find_node m k"]
    by (simp add: memory_indexer_search_def pos_of_def)
qed

lemma mi_remove:
  assumes "mi_ok m"
  shows "\<exists>m'. memory_indexer_remove m k = Some m' \<and> mi_ok m' \<and> mi_map m' = (mi_map m)(k := None)"
proof (cases "k \<in> dom (mi_map m)")
  case True
  then have "pos_of (avl_root m) (find_node m k)" "mw_key (elem (find_node m k)) = k"
    using find_node_spec [OF assms, of k] by auto
  then show ?thesis using mi_remove_pos [OF assms] by (fastforce simp: memory_indexer_remove_def pos_of_def)
next
  case False
  then show ?thesis using find_node_spec [OF assms, of k] assms
    by (auto simp: memory_indexer_remove_def fun_upd_idem)
qed

lemma mi_set:
  assumes "mi_ok m"
  shows "\<exists>m'. memory_indexer_set m k v = Some m' \<and> mi_ok m' \<and> mi_map m' = (mi_map m)(k \<mapsto> v)"
proof -
  obtain m1 where m1: "memory_indexer_remove m k = Some m1" "mi_ok m1" "mi_map m1 = (mi_map m)(k := None)"
    using mi_remove [OF assms] by blast
  then have "mi_map m1 k = None" by simp
  then show ?thesis using mi_insert_new [OF m1(2) _ refl, of k v] m1 by (fastforce simp: memory_indexer_set_def)
qed

interpretation mi: map_store memory_indexer_init memory_indexer_set memory_indexer_search
  memory_indexer_remove mi_ok mi_map
  by unfold_locales (simp_all add: mi_init mi_search mi_set mi_remove)

subsection \<open>Releasing the index\<close>

lemma find_first:
  assumes "mi_ok m" and "mi_entries m = w # ws"
  shows "pos_of (avl_root m) (find_node m (mw_key w)) \<and> before (find_node m (mw_key w)) = []"
proof -
  have "mw_key w \<in> dom (mi_map m)"
    using mi_map_eq_Some [OF assms(1), of "mw_key w" "mw_value w"] assms(2) by auto
  then have p: "pos_of (avl_root m) (find_node m (mw_key w))" "mw_key (elem (find_node m (mw_key w))) = mw_key w"
    using find_node_spec [OF assms(1), of "mw_key w"] by auto
  have "before (find_node m (mw_key w)) = []"
  proof (cases "before (find_node m (mw_key w))")
    case (Cons b bs)
    then have "b = w" using pos_of_split [OF p(1)] assms(2) by (simp add: mi_entries_def)
    moreover have "sorted_wrt (<) (map mw_key (before (find_node m (mw_key w)) @
        elem (find_node m (mw_key w)) # after (find_node m (mw_key w))))"
      using assms(1) pos_of_split [OF p(1)] by (simp add: mi_ok_def mi_entries_def)
    ultimately show ?thesis using Cons p(2) by simp
  qed simp
  then show ?thesis using p by simp
qed

lemma memory_indexer_free_loop_spec:
  assumes "mi_ok m" and "if mi_entries m = [] then p = (Nil, []) else pos_of (avl_root m) p \<and> before p = []"
  shows "\<exists>m'. memory_indexer_free_loop m p x = Some (x + length (mi_entries m), m') \<and> avl_root m' = Nil"
  using assms
proof (induction "length (mi_entries m)" arbitrary: m p x)
  case 0
  have "avl_root m = Nil" using "0.hyps" by (cases "avl_root m") (auto simp: mi_entries_def)
  then show ?case using 0 by (subst memory_indexer_free_loop.simps) auto
next
  case (Suc n)
  have ne: "mi_entries m \<noteq> []" using Suc.hyps(2) by auto
  then have p: "pos_of (avl_root m) p" "before p = []" using Suc.prems(2) by auto
  obtain t where t: "avl_remove (avl_root m) p = Some t" and ok: "mi_ok (m\<lparr>avl_root := t\<rparr>)"
    and en: "mi_entries (m\<lparr>avl_root := t\<rparr>) = after p"
    using mi_remove_pos [OF Suc.prems(1) p(1)] p(2) by auto
  let ?m = "m\<lparr>avl_root := t\<rparr>"
  have io: "mi_entries m = elem p # after p" using pos_of_split [OF p(1)] p(2) by (simp add: mi_entries_def)
  let ?q = "if fst (avl_next p) = Nil then (Nil, []) else find_node ?m (mw_key (elem (avl_next p)))"
  have nx: "if after p = [] then avl_next p = (Nil, []) else
      pos_of (avl_root m) (avl_next p) \<and> before (avl_next p) = [elem p]"
    using avl_next_spec [OF p(1)] p(2) by simp
  have q: "if mi_entries ?m = [] then ?q = (Nil, []) else pos_of (avl_root ?m) ?q \<and> before ?q = []"
  proof (cases "after p = []")
    case True
    then show ?thesis using nx en by simp
  next
    case False
    then have nx': "pos_of (avl_root m) (avl_next p)" "before (avl_next p) = [elem p]" using nx by auto
    then have "after p = elem (avl_next p) # after (avl_next p)"
      using pos_of_split [OF nx'(1)] io by (simp add: mi_entries_def)
    moreover have "fst (avl_next p) \<noteq> Nil" using nx'(1) by (simp add: pos_of_def)
    ultimately show ?thesis using find_first [OF ok] en by simp
  qed
  have "\<exists>m'. memory_indexer_free_loop ?m ?q (x + 1) = Some (x + 1 + length (mi_entries ?m), m') \<and> avl_root m' = Nil"
    by (rule Suc.hyps(1)) (use Suc.hyps(2) io en ok q in auto)
  moreover have "fst p \<noteq> Nil" using p(1) by (simp add: pos_of_def)
  ultimately show ?case
    using t io en by (subst memory_indexer_free_loop.simps) (simp add: Let_def)
qed

lemma memory_indexer_free_spec:
  assumes "mi_ok m"
  shows "\<exists>m'. memory_indexer_free m = Some (length (mi_entries m), m') \<and> mi_entries m' = []"
proof -
  have "if mi_entries m = [] then (if avl_root m = Nil then (Nil, []) else avl_first (avl_root m)) = (Nil, [])
    else pos_of (avl_root m) (if avl_root m = Nil then (Nil, []) else avl_first (avl_root m)) \<and>
      before (if avl_root m = Nil then (Nil, []) else avl_first (avl_root m)) = []"
    using leftmost_spec [of "avl_root m" "[]"]
    by (cases "avl_root m") (auto simp: mi_entries_def avl_first_def simp del: leftmost.simps)
  from memory_indexer_free_loop_spec [OF assms this, of 0] show ?thesis
    by (auto simp: memory_indexer_free_def mi_entries_def)
qed

end
