(* ===== verification/LruCache.thy ===== *)
theory LruCache
  imports LList MemoryIndexer
begin

section \<open>The LRU cache (lib/lru\_cache)\<close>

text \<open>
  \<open>lru_cache.c\<close>: cached pointers in a doubly linked list, most recent first, with a memory
  indexer from keys to the cache items. The state holds the stores of the list nodes and of the
  items, and the header with the indexer. \<open>on_flush\<close> is the callback of the client; it works
  on the client's context, which is threaded through the operations that may call it.

  A lookup counts the accesses of its item and moves it to the front only when the count reaches a
  multiple of \<open>LRU_MARKING\<close>.
\<close>

definition LRU_MARKING :: nat where "LRU_MARKING = 100"

record cache_item =
  item_key :: nat
  item_value :: addr
  item_node :: addr
  item_access :: nat

record lru_cache =
  cache_item_list :: llist
  cache_nodes :: node_heap
  cache_items :: "cache_item heap"
  cache_index :: memory_indexer
  number_of_items :: nat

type_synonym 'c flush = "nat \<Rightarrow> addr \<Rightarrow> 'c \<Rightarrow> 'c option"

definition lru_cache_init :: lru_cache where
  "lru_cache_init =
     \<lparr>cache_item_list = list_new, cache_nodes = heap_empty, cache_items = heap_empty,
      cache_index = memory_indexer_init, number_of_items = 0\<rparr>"

definition lru_cache_count :: "lru_cache \<Rightarrow> nat" where
  "lru_cache_count cache = number_of_items cache"

definition lru_cache_get :: "lru_cache \<Rightarrow> nat \<Rightarrow> (addr \<times> lru_cache) option" where
  "lru_cache_get cache key =
     (let ci = memory_indexer_search (cache_index cache) key in
      if ci \<noteq> NULL then do {
        item \<leftarrow> heap_get (cache_items cache) ci;
        let item = item\<lparr>item_access := size_wrap (item_access item + 1)\<rparr>;
        let cache = cache\<lparr>cache_items := heap_put ci item (cache_items cache)\<rparr>;
        cache \<leftarrow> (if item_access item mod LRU_MARKING = 0 then do {
            (_, l, h) \<leftarrow> list_lpush (cache_item_list cache) (item_node item) (cache_nodes cache);
            Some (cache\<lparr>cache_item_list := l, cache_nodes := h\<rparr>)
          } else Some cache);
        Some (item_value item, cache)
      } else Some (NULL, cache))"

text \<open>The loop of \<open>lru_cache_sync\<close>; on a cyclic list it does not end.\<close>

partial_function (option) lru_sync_loop ::
  "'c flush \<Rightarrow> lru_cache \<Rightarrow> list_iterator \<Rightarrow> 'c \<Rightarrow> 'c option" where
  "lru_sync_loop on_flush cache it ctx =
     Option.bind (list_iterator_next it (cache_nodes cache)) (\<lambda>(node, it).
       if node = NULL then Some ctx
       else Option.bind (heap_get (cache_nodes cache) node) (\<lambda>nd.
         if node_val nd \<noteq> NULL
         then Option.bind (heap_get (cache_items cache) (node_val nd)) (\<lambda>item.
           Option.bind (on_flush (item_key item) (item_value item) ctx) (\<lambda>ctx.
             lru_sync_loop on_flush cache it ctx))
         else lru_sync_loop on_flush cache it ctx))"

definition lru_cache_sync :: "'c flush \<Rightarrow> lru_cache \<Rightarrow> 'c \<Rightarrow> 'c option" where
  "lru_cache_sync on_flush cache ctx =
     lru_sync_loop on_flush cache (list_iterator_new (cache_item_list cache) LIST_HEAD) ctx"

definition lru_cache_remove :: "'c flush \<Rightarrow> lru_cache \<Rightarrow> nat \<Rightarrow> 'c \<Rightarrow> (lru_cache \<times> 'c) option" where
  "lru_cache_remove on_flush cache key ctx =
     (let ci = memory_indexer_search (cache_index cache) key in
      if ci \<noteq> NULL then do {
        item \<leftarrow> heap_get (cache_items cache) ci;
        ctx \<leftarrow> on_flush (item_key item) (item_value item) ctx;
        (l, h) \<leftarrow> list_remove (cache_item_list cache) (item_node item) (cache_nodes cache);
        items \<leftarrow> heap_mod ci (item_node_update (\<lambda>_. NULL)) (cache_items cache);
        index \<leftarrow> memory_indexer_remove (cache_index cache) key;
        items \<leftarrow> heap_free ci items;
        Some (cache\<lparr>cache_item_list := l, cache_nodes := h, cache_items := items,
          cache_index := index, number_of_items := number_of_items cache - 1\<rparr>, ctx)
      } else Some (cache, ctx))"

fun lru_cache_flush_items :: "'c flush \<Rightarrow> lru_cache \<Rightarrow> nat \<Rightarrow> 'c \<Rightarrow> (lru_cache \<times> 'c) option" where
  "lru_cache_flush_items on_flush cache 0 ctx = Some (cache, ctx)"
| "lru_cache_flush_items on_flush cache (Suc n) ctx = do {
     (last, l, h) \<leftarrow> list_rpop (cache_item_list cache) (cache_nodes cache);
     let cache = cache\<lparr>cache_item_list := l, cache_nodes := h\<rparr>;
     if last = NULL then Some (cache, ctx)
     else do {
       nd \<leftarrow> heap_get (cache_nodes cache) last;
       item \<leftarrow> heap_get (cache_items cache) (node_val nd);
       ctx \<leftarrow> on_flush (item_key item) (item_value item) ctx;
       h \<leftarrow> heap_free (item_node item) (cache_nodes cache);
       items \<leftarrow> heap_mod (node_val nd) (item_node_update (\<lambda>_. NULL)) (cache_items cache);
       index \<leftarrow> memory_indexer_remove (cache_index cache) (item_key item);
       items \<leftarrow> heap_free (node_val nd) items;
       lru_cache_flush_items on_flush
         (cache\<lparr>cache_nodes := h, cache_items := items, cache_index := index,
           number_of_items := number_of_items cache - 1\<rparr>) n ctx
     }
   }"

definition lru_cache_get_least_recently_used :: "lru_cache \<Rightarrow> addr option" where
  "lru_cache_get_least_recently_used cache = do {
     last \<leftarrow> list_at (cache_item_list cache) (-1) (cache_nodes cache);
     if last \<noteq> NULL then do {
       nd \<leftarrow> heap_get (cache_nodes cache) last;
       item \<leftarrow> heap_get (cache_items cache) (node_val nd);
       Some (item_value item)
     } else Some NULL
   }"

definition lru_cache_add :: "lru_cache \<Rightarrow> nat \<Rightarrow> addr \<Rightarrow> lru_cache option" where
  "lru_cache_add cache key val =
     (let (ci, items) = heap_alloc
            \<lparr>item_key = key, item_value = val, item_node = NULL, item_access = 0\<rparr> (cache_items cache);
          (node, h) = list_node_new ci (cache_nodes cache)
      in do {
        items \<leftarrow> heap_mod ci (item_node_update (\<lambda>_. node)) items;
        index \<leftarrow> memory_indexer_set (cache_index cache) key ci;
        (_, l, h) \<leftarrow> list_lpush (cache_item_list cache) node h;
        Some (cache\<lparr>cache_item_list := l, cache_nodes := h, cache_items := items,
          cache_index := index, number_of_items := number_of_items cache + 1\<rparr>)
      })"

text \<open>
  \<open>lru_cache_free\<close>: the result is the client's context with what is left of the two stores.
\<close>

definition lru_cache_free ::
  "'c flush \<Rightarrow> lru_cache \<Rightarrow> 'c \<Rightarrow> (node_heap \<times> cache_item heap \<times> 'c) option" where
  "lru_cache_free on_flush cache ctx = do {
     (cache, ctx) \<leftarrow> lru_cache_flush_items on_flush cache (number_of_items cache) ctx;
     (_, h) \<leftarrow> list_destroy (cache_item_list cache) (cache_nodes cache);
     _ \<leftarrow> memory_indexer_free (cache_index cache);
     Some (h, cache_items cache, ctx)
   }"

subsection \<open>The abstract cache\<close>

text \<open>
  An entry is a key, a pointer and an access count; the abstract state is the list of entries,
  most recent first.
\<close>

type_synonym entry = "nat \<times> addr \<times> nat"

definition keys :: "entry list \<Rightarrow> nat list" where
  "keys es = map fst es"

definition bindings :: "entry list \<Rightarrow> nat \<rightharpoonup> addr" where
  "bindings es = map_of (map (\<lambda>(k, v, n). (k, v)) es)"

definition touch :: "nat \<Rightarrow> entry list \<Rightarrow> entry list" where
  "touch k es =
     (case find (\<lambda>e. fst e = k) es of
        None \<Rightarrow> es
      | Some (_, v, n) \<Rightarrow>
          let n' = size_wrap (n + 1); e = (k, v, n')
          in if n' mod LRU_MARKING = 0 then e # filter (\<lambda>x. fst x \<noteq> k) es
             else map (\<lambda>x. if fst x = k then e else x) es)"

definition forget :: "nat \<Rightarrow> entry list \<Rightarrow> entry list" where
  "forget k es = filter (\<lambda>x. fst x \<noteq> k) es"

fun flush_all :: "'c flush \<Rightarrow> entry list \<Rightarrow> 'c \<Rightarrow> 'c option" where
  "flush_all f [] ctx = Some ctx"
| "flush_all f ((k, v, n) # es) ctx = Option.bind (f k v ctx) (flush_all f es)"

subsection \<open>Representation\<close>

definition item_at :: "lru_cache \<Rightarrow> addr \<Rightarrow> cache_item" where
  "item_at c a = the (heap_get (cache_items c) a)"

definition entry_at :: "lru_cache \<Rightarrow> addr \<Rightarrow> entry" where
  "entry_at c a = (item_key (item_at c a), item_value (item_at c a), item_access (item_at c a))"

text \<open>The index maps exactly the keys of the addresses in \<open>A\<close>, each to its address.\<close>

definition indexes :: "(nat \<rightharpoonup> addr) \<Rightarrow> (addr \<Rightarrow> nat) \<Rightarrow> addr set \<Rightarrow> bool" where
  "indexes m key A \<longleftrightarrow> (\<forall>k a. m k = Some a \<longleftrightarrow> a \<in> A \<and> key a = k)"

lemma indexesD: "indexes m key A \<Longrightarrow> m k = Some a \<longleftrightarrow> a \<in> A \<and> key a = k"
  by (simp add: indexes_def)

lemma indexes_hit: "indexes m key A \<Longrightarrow> a \<in> A \<Longrightarrow> m (key a) = Some a"
  by (simp add: indexesD)

lemma indexes_miss: "indexes m key A \<Longrightarrow> k \<notin> key ` A \<Longrightarrow> m k = None"
  by (cases "m k") (auto simp: indexesD)

lemma indexes_inj: "indexes m key A \<Longrightarrow> inj_on key A"
  by (rule inj_onI) (metis indexes_hit option.inject)

lemma indexes_cong: "(\<And>a. a \<in> A \<Longrightarrow> key' a = key a) \<Longrightarrow> indexes m key' A \<longleftrightarrow> indexes m key A"
  by (auto simp: indexes_def)

lemma indexes_insert:
  assumes "indexes m key A" and "k \<notin> key ` A" and "a \<notin> A" and "key' a = k"
    and "\<And>x. x \<in> A \<Longrightarrow> key' x = key x"
  shows "indexes (m(k \<mapsto> a)) key' (insert a A)"
  using assms unfolding indexes_def by (auto simp: image_iff)

lemma indexes_remove:
  assumes "indexes m key A" and "a \<in> A" and "\<And>x. x \<in> A \<Longrightarrow> x \<noteq> a \<Longrightarrow> key' x = key x"
  shows "indexes (m(key a := None)) key' (A - {a})"
  using assms indexes_inj [OF assms(1)] unfolding indexes_def inj_on_def by auto

definition lru_rep :: "lru_cache \<Rightarrow> addr list \<Rightarrow> bool" where
  "lru_rep c as \<longleftrightarrow>
     heap_wf (cache_items c) \<and> distinct as \<and>
     (\<forall>a\<in>set as. heap_get (cache_items c) a = Some (item_at c a)) \<and>
     list_rep (cache_item_list c) (cache_nodes c) (map (\<lambda>a. item_node (item_at c a)) as) \<and>
     (\<forall>a\<in>set as. val_of (cache_nodes c) (item_node (item_at c a)) = Some a) \<and>
     mi_ok (cache_index c) \<and>
     indexes (mi_map (cache_index c)) (\<lambda>a. item_key (item_at c a)) (set as) \<and>
     number_of_items c = length as"

definition lru_view :: "lru_cache \<Rightarrow> entry list \<Rightarrow> bool" where
  "lru_view c es \<longleftrightarrow> (\<exists>as. lru_rep c as \<and> es = map (entry_at c) as)"

lemma lru_viewI: "lru_rep c as \<Longrightarrow> es = map (entry_at c) as \<Longrightarrow> lru_view c es"
  by (auto simp: lru_view_def)

lemma lru_repD:
  assumes "lru_rep c as"
  shows "heap_wf (cache_items c)" "distinct as"
    "\<And>a. a \<in> set as \<Longrightarrow> heap_get (cache_items c) a = Some (item_at c a)"
    "list_rep (cache_item_list c) (cache_nodes c) (map (\<lambda>a. item_node (item_at c a)) as)"
    "\<And>a. a \<in> set as \<Longrightarrow> val_of (cache_nodes c) (item_node (item_at c a)) = Some a"
    "mi_ok (cache_index c)"
    "indexes (mi_map (cache_index c)) (\<lambda>a. item_key (item_at c a)) (set as)"
    "number_of_items c = length as"
  using assms by (simp_all add: lru_rep_def)

lemma lru_rep_nonnull: "lru_rep c as \<Longrightarrow> a \<in> set as \<Longrightarrow> a \<noteq> NULL"
  by (rule heap_wf_nonnull [OF lru_repD(1) lru_repD(3)])

lemma keys_entries: "keys (map (entry_at c) as) = map (\<lambda>a. item_key (item_at c a)) as"
  by (simp add: keys_def entry_at_def comp_def)

lemma lru_rep_distinct: "lru_rep c as \<Longrightarrow> distinct (keys (map (entry_at c) as))"
  using lru_repD(2) indexes_inj [OF lru_repD(7)] by (simp add: keys_entries distinct_map)

lemma lru_search_hit:
  assumes "lru_rep c as" and "a \<in> set as"
  shows "memory_indexer_search (cache_index c) (item_key (item_at c a)) = a"
  using mi.search_Some [OF lru_repD(6) [OF assms(1)]] indexes_hit [OF lru_repD(7) [OF assms(1)] assms(2)] .

lemma lru_search_miss:
  assumes "lru_rep c as" and "k \<notin> set (keys (map (entry_at c) as))"
  shows "memory_indexer_search (cache_index c) k = NULL"
  using mi.search_None [OF lru_repD(6) [OF assms(1)]] indexes_miss [OF lru_repD(7) [OF assms(1)]] assms(2)
  by (simp add: keys_entries)

subsection \<open>Lookups\<close>

lemma find_append_None: "find p us = None \<Longrightarrow> find p (us @ vs) = find p vs"
  by (induction us) (auto split: if_splits)

lemma find_entry_at:
  assumes "distinct (keys (xs @ e # ys))" and "fst e = k"
  shows "find (\<lambda>e. fst e = k) (xs @ e # ys) = Some e"
    and "filter (\<lambda>x. fst x \<noteq> k) (xs @ e # ys) = xs @ ys"
    and "map (\<lambda>x. if fst x = k then e' else x) (xs @ e # ys) = xs @ e' # ys"
proof -
  have "fst x \<noteq> k" if "x \<in> set xs \<union> set ys" for x
    using assms that by (simp add: keys_def) (metis disjoint_iff image_eqI)
  then have n: "\<forall>x\<in>set xs. fst x \<noteq> k" "\<forall>x\<in>set ys. fst x \<noteq> k" by (simp_all only: Un_iff simp_thms ball_simps) blast+
  then have "find (\<lambda>e. fst e = k) xs = None" unfolding find_None_iff by blast
  then show "find (\<lambda>e. fst e = k) (xs @ e # ys) = Some e" using assms(2) by (simp add: find_append_None)
  have "filter (\<lambda>x. fst x \<noteq> k) xs = xs" "filter (\<lambda>x. fst x \<noteq> k) ys = ys"
    unfolding filter_id_conv using n by blast+
  then show "filter (\<lambda>x. fst x \<noteq> k) (xs @ e # ys) = xs @ ys" using assms(2) by simp
  have "map (\<lambda>x. if fst x = k then e' else x) xs = xs" "map (\<lambda>x. if fst x = k then e' else x) ys = ys"
    by (rule map_idI, simp only: bspec [OF n(1)] if_False, rule map_idI, simp only: bspec [OF n(2)] if_False)
  then show "map (\<lambda>x. if fst x = k then e' else x) (xs @ e # ys) = xs @ e' # ys" using assms(2) by simp
qed

lemma lru_get_miss:
  assumes "lru_view c es" and "k \<notin> set (keys es)"
  shows "lru_cache_get c k = Some (NULL, c)"
  using assms lru_search_miss by (auto simp: lru_view_def lru_cache_get_def)

lemma lru_view_split:
  assumes "lru_view c es" and "k \<in> set (keys es)"
  obtains xs a ys where "lru_rep c (xs @ a # ys)" and "es = map (entry_at c) (xs @ a # ys)"
    and "item_key (item_at c a) = k"
proof -
  obtain as where as: "lru_rep c as" "es = map (entry_at c) as" using assms(1) by (auto simp: lru_view_def)
  then obtain a where "a \<in> set as" "item_key (item_at c a) = k" using assms(2) by (auto simp: keys_entries)
  then show thesis using that as by (metis split_list)
qed

lemma lru_rep_update_access:
  assumes "lru_rep c as" and "a \<in> set as"
    and c': "c' = c\<lparr>cache_items := heap_put a ((item_at c a)\<lparr>item_access := n\<rparr>) (cache_items c)\<rparr>"
  shows "lru_rep c' as" and "item_at c' = (item_at c)(a := (item_at c a)\<lparr>item_access := n\<rparr>)"
proof -
  note r = lru_repD [OF assms(1)]
  show it: "item_at c' = (item_at c)(a := (item_at c a)\<lparr>item_access := n\<rparr>)"
    by (auto simp: c' item_at_def heap_get_put fun_eq_iff)
  have proj: "item_node (item_at c' x) = item_node (item_at c x)" "item_key (item_at c' x) = item_key (item_at c x)" for x
    using it by auto
  have "heap_wf (cache_items c')" using r(1,3) assms(2) by (auto simp: c' intro: heap_wf_put)
  moreover have "\<forall>x\<in>set as. heap_get (cache_items c') x = Some (item_at c' x)"
    using r(3) it by (auto simp: c' heap_get_put)
  ultimately show "lru_rep c' as" using r unfolding lru_rep_def proj by (simp add: c')
qed

lemma lru_rep_reorder:
  assumes "lru_rep c as" and "set bs = set as" and "distinct bs"
    and "list_rep l h (map (\<lambda>a. item_node (item_at c a)) bs)" and "\<And>x. val_of h x = val_of (cache_nodes c) x"
    and c': "c' = c\<lparr>cache_item_list := l, cache_nodes := h\<rparr>"
  shows "lru_rep c' bs" and "entry_at c' = entry_at c"
proof -
  note r = lru_repD [OF assms(1)]
  have it: "item_at c' = item_at c" by (simp add: c' item_at_def fun_eq_iff)
  then show "entry_at c' = entry_at c" by (simp add: entry_at_def fun_eq_iff)
  have "length bs = length as" using assms(2,3) r(2) by (metis distinct_card)
  then show "lru_rep c' bs"
    using r assms(2-5) unfolding lru_rep_def it by (simp add: c')
qed

lemma entry_at_update_access:
  assumes "item_at c' = (item_at c)(a := (item_at c a)\<lparr>item_access := n\<rparr>)"
  shows "entry_at c' = (entry_at c)(a := (item_key (item_at c a), item_value (item_at c a), n))"
  using assms by (auto simp: entry_at_def fun_eq_iff)

lemma lru_get_hit:
  assumes "lru_rep c (xs @ a # ys)" and "item_key (item_at c a) = k"
  shows "\<exists>c'. lru_cache_get c k = Some (item_value (item_at c a), c') \<and>
    lru_view c' (touch k (map (entry_at c) (xs @ a # ys)))"
proof -
  note r = lru_repD [OF assms(1)]
  have a: "a \<noteq> NULL" using lru_rep_nonnull [OF assms(1), of a] by simp
  have s: "memory_indexer_search (cache_index c) k = a" using lru_search_hit [OF assms(1), of a] assms(2) by simp
  have g: "heap_get (cache_items c) a = Some (item_at c a)" using r(3) by simp
  let ?n = "size_wrap (item_access (item_at c a) + 1)"
  let ?e = "(k, item_value (item_at c a), ?n)"
  obtain c1 where c1: "c1 = c\<lparr>cache_items := heap_put a ((item_at c a)\<lparr>item_access := ?n\<rparr>) (cache_items c)\<rparr>" by simp
  have r1: "lru_rep c1 (xs @ a # ys)" and it: "item_at c1 = (item_at c)(a := (item_at c a)\<lparr>item_access := ?n\<rparr>)"
    using lru_rep_update_access [OF assms(1) _ c1] by auto
  have en: "entry_at c1 = (entry_at c)(a := ?e)" using entry_at_update_access [OF it] assms(2) by simp
  have d: "distinct (keys (map (entry_at c) xs @ entry_at c a # map (entry_at c) ys))"
    using lru_rep_distinct [OF assms(1)] by simp
  have nx: "a \<notin> set xs" "a \<notin> set ys" "distinct (xs @ ys)" using r(2) by auto
  have ea: "entry_at c a = (k, item_value (item_at c a), item_access (item_at c a))"
    using assms(2) by (simp add: entry_at_def)
  note f = find_entry_at [OF d, of k]
  show ?thesis
  proof (cases "?n mod LRU_MARKING = 0")
    case True
    have "list_rep (cache_item_list c1) (cache_nodes c1)
        (map (\<lambda>x. item_node (item_at c1 x)) xs @ item_node (item_at c a) # map (\<lambda>x. item_node (item_at c1 x)) ys)"
      using lru_repD(4) [OF r1] it by simp
    then obtain l h where lp: "list_lpush (cache_item_list c1) (item_node (item_at c a)) (cache_nodes c1) =
        Some (item_node (item_at c a), l, h)"
      and lr: "list_rep l h (item_node (item_at c a) # map (\<lambda>x. item_node (item_at c1 x)) xs @ map (\<lambda>x. item_node (item_at c1 x)) ys)"
      and fr: "frame_except (set (map (\<lambda>x. item_node (item_at c1 x)) xs @ item_node (item_at c a) # map (\<lambda>x. item_node (item_at c1 x)) ys)) (cache_nodes c1) h"
      by (rule list_lpush_linked)
    obtain c2 where c2: "c2 = c1\<lparr>cache_item_list := l, cache_nodes := h\<rparr>" by simp
    have lr': "list_rep l h (map (\<lambda>x. item_node (item_at c1 x)) (a # xs @ ys))" using lr it by simp
    have r2: "lru_rep c2 (a # xs @ ys)" and e2: "entry_at c2 = entry_at c1"
      using lru_rep_reorder [OF r1 _ _ lr' _ c2] fr nx by (auto simp: frame_except_def)
    have "lru_view c2 (touch k (map (entry_at c) (xs @ a # ys)))"
      by (rule lru_viewI [OF r2]) (use True f ea e2 en nx in \<open>simp add: touch_def Let_def\<close>)
    moreover have "lru_cache_get c k = Some (item_value (item_at c a), c2)"
      using s a g True lp c1 c2 by (simp add: lru_cache_get_def Let_def)
    ultimately show ?thesis by blast
  next
    case False
    have "lru_view c1 (touch k (map (entry_at c) (xs @ a # ys)))"
      by (rule lru_viewI [OF r1]) (use False f ea en nx in \<open>simp add: touch_def Let_def\<close>)
    moreover have "lru_cache_get c k = Some (item_value (item_at c a), c1)"
      using s a g False c1 by (simp add: lru_cache_get_def Let_def)
    ultimately show ?thesis by blast
  qed
qed

lemma bindings_entry:
  assumes "distinct (keys (xs @ (k, v, n) # ys))"
  shows "bindings (xs @ (k, v, n) # ys) k = Some v"
  using assms by (force simp: bindings_def keys_def map_add_Some_iff map_of_eq_None_iff)

lemma bindings_None: "bindings es k = None \<longleftrightarrow> k \<notin> set (keys es)"
  by (force simp: bindings_def keys_def map_of_eq_None_iff)

lemma lru_get:
  assumes "lru_view c es"
  shows "\<exists>c'. lru_cache_get c k = Some (case bindings es k of None \<Rightarrow> NULL | Some v \<Rightarrow> v, c') \<and>
    lru_view c' (touch k es)"
proof (cases "k \<in> set (keys es)")
  case True
  then obtain xs a ys where v: "lru_rep c (xs @ a # ys)" "es = map (entry_at c) (xs @ a # ys)"
    "item_key (item_at c a) = k" using lru_view_split [OF assms] by blast
  have "bindings es k = Some (item_value (item_at c a))"
    using bindings_entry [of "map (entry_at c) xs" k "item_value (item_at c a)" "item_access (item_at c a)"]
      lru_rep_distinct [OF v(1)] v(2,3) by (simp add: entry_at_def)
  then show ?thesis using lru_get_hit [OF v(1,3)] v(2) by simp
next
  case False
  then have "find (\<lambda>e. fst e = k) es = None"
    unfolding find_None_iff keys_def by (metis image_eqI list.set_map)
  then show ?thesis using False lru_get_miss [OF assms] assms bindings_None [of es k]
    by (simp add: touch_def)
qed

subsection \<open>Insertion\<close>

lemma lru_add:
  assumes "lru_view c es" and "k \<notin> set (keys es)"
  shows "\<exists>c'. lru_cache_add c k v = Some c' \<and> lru_view c' ((k, v, 0) # es)"
proof -
  obtain as where as: "lru_rep c as" "es = map (entry_at c) as" using assms(1) by (auto simp: lru_view_def)
  note r = lru_repD [OF as(1)]
  obtain ci items where al: "heap_alloc \<lparr>item_key = k, item_value = v, item_node = NULL, item_access = 0\<rparr> (cache_items c) = (ci, items)"
    by (cases "heap_alloc \<lparr>item_key = k, item_value = v, item_node = NULL, item_access = 0\<rparr> (cache_items c)")
  note a = heap_alloc_spec [OF r(1) al]
  obtain node h where nn: "list_node_new ci (cache_nodes c) = (node, h)" by (cases "list_node_new ci (cache_nodes c)")
  have wn: "heap_wf (cache_nodes c)" using r(4) by (simp add: list_rep_def)
  note n = list_node_new_spec [OF wn nn]
  let ?it = "\<lparr>item_key = k, item_value = v, item_node = node, item_access = 0\<rparr>"
  let ?ns = "map (\<lambda>a. item_node (item_at c a)) as"
  have gi: "heap_get items ci = Some \<lparr>item_key = k, item_value = v, item_node = NULL, item_access = 0\<rparr>"
    using a(4) by simp
  have fresh: "ci \<notin> set as" using r(3) a(3) by auto
  have nin: "node \<notin> set ?ns" using list_rep_alloc [OF r(4)] n(3) by force
  obtain index where ix: "memory_indexer_set (cache_index c) k ci = Some index" "mi_ok index"
    "mi_map index = (mi_map (cache_index c))(k \<mapsto> ci)"
    using mi.set_key_total [OF r(6)] by blast
  have "list_rep (cache_item_list c) h ?ns"
    by (rule list_rep_heap_cong [OF r(4) n(1)]) (use n(5) nin in metis)
  then obtain l h' where lp: "list_lpush (cache_item_list c) node h = Some (node, l, h')"
    and lr: "list_rep l h' (node # ?ns)" and fr: "frame_except (insert node (set ?ns)) h h'"
    by (rule list_lpush_detached [OF _ nin n(4)]) simp_all
  obtain c' where c': "c' = c\<lparr>cache_item_list := l, cache_nodes := h', cache_items := heap_put ci ?it items,
      cache_index := index, number_of_items := number_of_items c + 1\<rparr>" by simp
  have it: "item_at c' x = (if x = ci then ?it else item_at c x)" if "x = ci \<or> x \<in> set as" for x
    using that a(4) by (auto simp: c' item_at_def heap_get_put)
  have vals: "val_of h' x = (if x = node then Some ci else val_of (cache_nodes c) x)" for x
    using fr n(4,5) by (auto simp: frame_except_def val_of_def)
  have "lru_rep c' (ci # as)"
    unfolding lru_rep_def
  proof (intro conjI)
    show "heap_wf (cache_items c')" using a(1) gi by (auto simp: c' intro: heap_wf_put)
    show "distinct (ci # as)" using fresh r(2) by simp
    show "\<forall>x\<in>set (ci # as). heap_get (cache_items c') x = Some (item_at c' x)"
      using it r(3) a(4) by (auto simp: c' heap_get_put)
    have m: "map (\<lambda>x. item_node (item_at c' x)) (ci # as) = node # ?ns" using it fresh by auto
    have "cache_item_list c' = l" "cache_nodes c' = h'" by (simp_all add: c')
    then show "list_rep (cache_item_list c') (cache_nodes c') (map (\<lambda>x. item_node (item_at c' x)) (ci # as))"
      using lr by (simp only: m)
    show "\<forall>x\<in>set (ci # as). val_of (cache_nodes c') (item_node (item_at c' x)) = Some x"
      using it fresh vals r(5) nin by (auto simp: c')
    show "mi_ok (cache_index c')" using ix by (simp add: c')
    have "indexes ((mi_map (cache_index c))(k \<mapsto> ci)) (\<lambda>x. item_key (item_at c' x)) (insert ci (set as))"
      by (rule indexes_insert [OF r(7)]) (use assms(2) as(2) fresh it in \<open>auto simp: keys_entries\<close>)
    then show "indexes (mi_map (cache_index c')) (\<lambda>x. item_key (item_at c' x)) (set (ci # as))"
      using ix by (simp add: c')
    show "number_of_items c' = length (ci # as)" using r(8) by (simp add: c')
  qed
  moreover have "(k, v, 0) # es = map (entry_at c') (ci # as)"
    using as(2) it fresh by (auto simp: entry_at_def)
  moreover have "lru_cache_add c k v = Some c'"
    using al nn gi ix lp by (simp add: lru_cache_add_def c')
  ultimately show ?thesis using lru_viewI [of c' "ci # as" "(k, v, 0) # es"] by simp
qed

subsection \<open>Removal\<close>

lemma list_remove_ex:
  assumes "list_rep l h (xs @ a # ys)"
  shows "\<exists>l' h'. list_remove l a h = Some (l', h') \<and> list_rep l' h' (xs @ ys) \<and>
    (\<forall>x. x \<noteq> a \<longrightarrow> val_of h' x = val_of h x)"
proof (rule list_remove_linked [OF assms])
  fix l' h'
  assume "list_remove l a h = Some (l', h')" "list_rep l' h' (xs @ ys)"
    and "\<And>x. x \<noteq> a \<Longrightarrow> val_of h' x = val_of h x"
  then show ?thesis by simp
qed

lemma lru_rep_drop:
  assumes "lru_rep c (xs @ a # ys)"
    and "list_rep l h (map (\<lambda>a. item_node (item_at c a)) (xs @ ys))"
    and "\<And>x. x \<in> set (xs @ ys) \<Longrightarrow> val_of h (item_node (item_at c x)) = Some x"
    and "heap_wf items" and "\<And>x. x \<noteq> a \<Longrightarrow> heap_get items x = heap_get (cache_items c) x"
    and "mi_ok index" and "mi_map index = (mi_map (cache_index c))(item_key (item_at c a) := None)"
    and c': "c' = c\<lparr>cache_item_list := l, cache_nodes := h, cache_items := items,
      cache_index := index, number_of_items := number_of_items c - 1\<rparr>"
  shows "lru_rep c' (xs @ ys)" and "map (entry_at c') (xs @ ys) = map (entry_at c) (xs @ ys)"
proof -
  note r = lru_repD [OF assms(1)]
  have na: "a \<notin> set (xs @ ys)" "distinct (xs @ ys)" using r(2) by auto
  have it: "item_at c' x = item_at c x" if "x \<in> set (xs @ ys)" for x
  proof -
    have "x \<noteq> a" using that na by blast
    then show ?thesis by (simp add: c' item_at_def assms(5))
  qed
  show "map (entry_at c') (xs @ ys) = map (entry_at c) (xs @ ys)"
    using it by (simp add: entry_at_def)
  show "lru_rep c' (xs @ ys)"
    unfolding lru_rep_def
  proof (intro conjI)
    show "heap_wf (cache_items c')" using assms(4) by (simp add: c')
    show "distinct (xs @ ys)" using na by simp
    show "\<forall>x\<in>set (xs @ ys). heap_get (cache_items c') x = Some (item_at c' x)"
    proof
      fix x assume x: "x \<in> set (xs @ ys)"
      then have "heap_get items x = Some (item_at c x)" using r(3) assms(5) [of x] na by auto
      then show "heap_get (cache_items c') x = Some (item_at c' x)" using it [OF x] by (simp add: c')
    qed
    have m: "map (\<lambda>x. item_node (item_at c' x)) (xs @ ys) = map (\<lambda>x. item_node (item_at c x)) (xs @ ys)"
      using it by (intro map_cong) simp_all
    have "cache_item_list c' = l" "cache_nodes c' = h" by (simp_all add: c')
    then show "list_rep (cache_item_list c') (cache_nodes c') (map (\<lambda>x. item_node (item_at c' x)) (xs @ ys))"
      using assms(2) by (simp only: m)
    show "\<forall>x\<in>set (xs @ ys). val_of (cache_nodes c') (item_node (item_at c' x)) = Some x"
      using assms(3) it by (simp add: c')
    show "mi_ok (cache_index c')" using assms(6) by (simp add: c')
    have "indexes ((mi_map (cache_index c))(item_key (item_at c a) := None)) (\<lambda>x. item_key (item_at c' x))
        (set (xs @ a # ys) - {a})"
      by (rule indexes_remove [OF r(7)]) (use it in auto)
    moreover have "set (xs @ a # ys) - {a} = set (xs @ ys)" using na by auto
    ultimately show "indexes (mi_map (cache_index c')) (\<lambda>x. item_key (item_at c' x)) (set (xs @ ys))"
      using assms(7) by (simp add: c')
    show "number_of_items c' = length (xs @ ys)" using r(8) by (simp add: c')
  qed
qed

lemma item_nodes_inj:
  assumes "lru_rep c as" and "a \<in> set as" and "b \<in> set as" and "item_node (item_at c a) = item_node (item_at c b)"
  shows "a = b"
  using lru_repD(5) [OF assms(1,2)] lru_repD(5) [OF assms(1,3)] assms(4) by (metis option.inject)

lemma lru_remove:
  assumes "lru_view c es"
  shows "case find (\<lambda>e. fst e = k) es of
      None \<Rightarrow> lru_cache_remove f c k ctx = Some (c, ctx) \<and> forget k es = es
    | Some (_, v, _) \<Rightarrow> \<exists>c'. lru_view c' (forget k es) \<and>
        lru_cache_remove f c k ctx = map_option (\<lambda>ctx'. (c', ctx')) (f k v ctx)"
proof (cases "k \<in> set (keys es)")
  case True
  then obtain xs a ys where v: "lru_rep c (xs @ a # ys)" "es = map (entry_at c) (xs @ a # ys)"
    "item_key (item_at c a) = k" using lru_view_split [OF assms] by blast
  note r = lru_repD [OF v(1)]
  have a: "a \<noteq> NULL" using lru_rep_nonnull [OF v(1), of a] by simp
  have s: "memory_indexer_search (cache_index c) k = a" using lru_search_hit [OF v(1), of a] v(3) by simp
  have g: "heap_get (cache_items c) a = Some (item_at c a)" using r(3) by simp
  let ?nd = "item_node (item_at c a)"
  let ?ns = "\<lambda>zs. map (\<lambda>x. item_node (item_at c x)) zs"
  have "list_rep (cache_item_list c) (cache_nodes c) (?ns xs @ ?nd # ?ns ys)" using r(4) by simp
  from list_remove_ex [OF this] obtain l h
    where rm: "list_remove (cache_item_list c) ?nd (cache_nodes c) = Some (l, h)"
    and lr: "list_rep l h (?ns xs @ ?ns ys)" and vl: "\<forall>x. x \<noteq> ?nd \<longrightarrow> val_of h x = val_of (cache_nodes c) x"
    by (elim exE conjE) (rule that)
  obtain index where ix: "memory_indexer_remove (cache_index c) k = Some index" "mi_ok index"
    "mi_map index = (mi_map (cache_index c))(k := None)"
    using mi.remove_key_total [OF r(6)] by blast
  let ?items1 = "heap_put a ((item_at c a)\<lparr>item_node := NULL\<rparr>) (cache_items c)"
  obtain c' where c': "c' = c\<lparr>cache_item_list := l, cache_nodes := h, cache_items := heap_del a ?items1,
      cache_index := index, number_of_items := number_of_items c - 1\<rparr>" by simp
  have nd: "?nd \<noteq> item_node (item_at c x)" if "x \<in> set (xs @ ys)" for x
  proof
    assume "?nd = item_node (item_at c x)"
    then have "a = x" using item_nodes_inj [OF v(1)] that by simp
    then show False using r(2) that by auto
  qed
  have p1: "list_rep l h (?ns (xs @ ys))" using lr by simp
  have p2: "val_of h (item_node (item_at c x)) = Some x" if "x \<in> set (xs @ ys)" for x
    using vl nd [OF that] r(5) [of x] that by auto
  have p3: "heap_wf (heap_del a ?items1)" using heap_wf_del [OF heap_wf_put [OF r(1) g]] .
  have p4: "heap_get (heap_del a ?items1) x = heap_get (cache_items c) x" if "x \<noteq> a" for x using that by simp
  have p5: "mi_map index = (mi_map (cache_index c))(item_key (item_at c a) := None)" using ix(3) v(3) by simp
  have d: "lru_rep c' (xs @ ys)" "map (entry_at c') (xs @ ys) = map (entry_at c) (xs @ ys)"
    using lru_rep_drop [OF v(1) p1 p2 p3 p4 ix(2) p5 c'] by simp_all
  have dk: "distinct (keys (map (entry_at c) xs @ entry_at c a # map (entry_at c) ys))"
    using lru_rep_distinct [OF v(1)] by simp
  have ea: "fst (entry_at c a) = k" using v(3) by (simp add: entry_at_def)
  have fe: "forget k es = map (entry_at c) (xs @ ys)" and fd: "find (\<lambda>e. fst e = k) es = Some (entry_at c a)"
    using find_entry_at(1,2) [OF dk ea] v(2) by (simp_all add: forget_def)
  have "lru_cache_remove f c k ctx = map_option (\<lambda>ctx'. (c', ctx')) (f k (item_value (item_at c a)) ctx)"
    using s a g rm ix v(3) c' by (cases "f k (item_value (item_at c a)) ctx") (simp_all add: lru_cache_remove_def)
  moreover have "lru_view c' (forget k es)" unfolding fe d(2) [symmetric] by (rule lru_viewI [OF d(1) refl])
  ultimately show ?thesis using fd by (auto simp: entry_at_def)
next
  case False
  then have "find (\<lambda>e. fst e = k) es = None"
    unfolding find_None_iff keys_def by (metis image_eqI list.set_map)
  moreover obtain as where as: "lru_rep c as" "es = map (entry_at c) as" using assms by (auto simp: lru_view_def)
  moreover have "memory_indexer_search (cache_index c) k = NULL" using lru_search_miss [OF as(1)] False as(2) by simp
  moreover have "forget k es = es" unfolding forget_def filter_id_conv using False
    by (metis image_eqI keys_def list.set_map)
  ultimately show ?thesis by (simp add: lru_cache_remove_def)
qed

subsection \<open>The least recently used entry\<close>

lemma lru_least:
  assumes "lru_view c es"
  shows "lru_cache_get_least_recently_used c = Some (if es = [] then NULL else fst (snd (last es)))"
proof -
  obtain as where as: "lru_rep c as" "es = map (entry_at c) as" using assms by (auto simp: lru_view_def)
  note r = lru_repD [OF as(1)]
  have at: "list_at (cache_item_list c) (-1) (cache_nodes c) =
      Some (list_index (map (\<lambda>a. item_node (item_at c a)) as) (-1))"
    by (rule list_at_correct [OF r(4)])
  show ?thesis
  proof (cases "as = []")
    case True
    then show ?thesis using at as(2) by (simp add: lru_cache_get_least_recently_used_def list_index_def)
  next
    case False
    let ?a = "last as"
    have a: "?a \<in> set as" using False by simp
    have ix: "list_index (map (\<lambda>a. item_node (item_at c a)) as) (-1) = item_node (item_at c ?a)"
      using False by (simp add: list_index_def last_conv_nth nth_map Suc_le_eq nat_diff_distrib)
    have nn: "item_node (item_at c ?a) \<noteq> NULL"
      using list_rep_nonnull [OF r(4)] a by (metis (no_types, lifting) image_eqI list.set_map)
    obtain nd where nd: "heap_get (cache_nodes c) (item_node (item_at c ?a)) = Some nd" "node_val nd = ?a"
      using r(5) [OF a] by (auto simp: val_of_def)
    show ?thesis using at ix nn nd r(3) [OF a] False as(2)
      by (simp add: lru_cache_get_least_recently_used_def entry_at_def last_map)
  qed
qed

subsection \<open>Flushing\<close>

lemma lru_sync_loop_spec:
  assumes "lru_rep c as" and "fwd_at it (cache_nodes c) (map (\<lambda>a. item_node (item_at c a)) bs)" and "set bs \<subseteq> set as"
  shows "lru_sync_loop f c it ctx = flush_all f (map (entry_at c) bs) ctx"
  using assms
proof (induction bs arbitrary: it ctx)
  case Nil
  then show ?case by (subst lru_sync_loop.simps) (simp add: fwd_at_end)
next
  case (Cons b bs)
  note r = lru_repD [OF Cons.prems(1)]
  obtain it' where it': "list_iterator_next it (cache_nodes c) = Some (item_node (item_at c b), it')"
    and fw: "fwd_at it' (cache_nodes c) (map (\<lambda>a. item_node (item_at c a)) bs)"
    using fwd_at_next [of it "cache_nodes c" "item_node (item_at c b)"] Cons.prems(2) by auto
  have b: "b \<in> set as" using Cons.prems(3) by simp
  have nn: "item_node (item_at c b) \<noteq> NULL"
    using list_rep_nonnull [OF r(4)] b by (metis (no_types, lifting) image_eqI list.set_map)
  obtain nd where nd: "heap_get (cache_nodes c) (item_node (item_at c b)) = Some nd" "node_val nd = b"
    using r(5) [OF b] by (auto simp: val_of_def)
  have ih: "lru_sync_loop f c it' ctx' = flush_all f (map (entry_at c) bs) ctx'" for ctx'
    by (rule Cons.IH [OF Cons.prems(1) fw]) (use Cons.prems(3) in simp)
  have ih': "lru_sync_loop f c it' = flush_all f (map (entry_at c) bs)" by (rule ext) (rule ih)
  show ?case
    using it' nn nd r(3) [OF b] lru_rep_nonnull [OF Cons.prems(1) b]
    by (subst lru_sync_loop.simps) (simp add: entry_at_def ih')
qed

lemma lru_sync:
  assumes "lru_view c es"
  shows "lru_cache_sync f c ctx = flush_all f es ctx"
proof -
  obtain as where as: "lru_rep c as" "es = map (entry_at c) as" using assms by (auto simp: lru_view_def)
  show ?thesis unfolding lru_cache_sync_def as(2)
    by (rule lru_sync_loop_spec [OF as(1) fwd_at_new [OF lru_repD(4) [OF as(1)]]]) simp
qed

text \<open>One round of \<open>lru_cache_flush_items\<close> takes the last entry.\<close>

lemma list_rpop_ex:
  assumes "list_rep l h (ns @ [a])"
  shows "\<exists>l' h' nd. list_rpop l h = Some (a, l', h') \<and> list_rep l' h' ns \<and> heap_get h' a = Some nd \<and>
    (\<forall>x. val_of h' x = val_of h x)"
proof (rule list_rpop_snoc [OF assms])
  fix l' h' nd
  assume "list_rpop l h = Some (a, l', h')" "list_rep l' h' ns" "heap_get h' a = Some nd"
    and "frame_except (set (ns @ [a])) h h'"
  then show ?thesis by (simp add: frame_except_def)
qed

lemma lru_flush_round:
  assumes "lru_view c (es @ [(k, v, m)])"
  shows "\<exists>c'. lru_view c' es \<and> (\<forall>n ctx.
    lru_cache_flush_items f c (Suc n) ctx = Option.bind (f k v ctx) (lru_cache_flush_items f c' n))"
proof -
  obtain as where as: "lru_rep c as" "es @ [(k, v, m)] = map (entry_at c) as" using assms by (auto simp: lru_view_def)
  then obtain xs a where xa: "as = xs @ [a]" "es = map (entry_at c) xs" "(k, v, m) = entry_at c a"
    by (cases as rule: rev_cases) auto
  have rep: "lru_rep c (xs @ a # [])" using as(1) xa(1) by simp
  note r = lru_repD [OF rep]
  let ?nd = "item_node (item_at c a)"
  let ?ns = "\<lambda>zs. map (\<lambda>x. item_node (item_at c x)) zs"
  have "list_rep (cache_item_list c) (cache_nodes c) (?ns xs @ [?nd])" using r(4) by simp
  from list_rpop_ex [OF this] obtain l h nd where rp: "list_rpop (cache_item_list c) (cache_nodes c) = Some (?nd, l, h)"
    and lr: "list_rep l h (?ns xs)" and nd: "heap_get h ?nd = Some nd"
    and vl: "\<forall>x. val_of h x = val_of (cache_nodes c) x"
    by (elim exE conjE) (rule that)
  have "val_of h ?nd = Some a" using vl r(5) [of a] by simp
  then have ndv: "node_val nd = a" using nd by (simp add: val_of_def)
  have nn: "?nd \<noteq> NULL" using list_rep_nonnull [OF r(4)] by simp
  have a: "a \<noteq> NULL" using lru_rep_nonnull [OF rep, of a] by simp
  have g: "heap_get (cache_items c) a = Some (item_at c a)" using r(3) by simp
  have kv: "item_key (item_at c a) = k" "item_value (item_at c a) = v" using xa(3) by (simp_all add: entry_at_def)
  obtain index where ix: "memory_indexer_remove (cache_index c) k = Some index" "mi_ok index"
    "mi_map index = (mi_map (cache_index c))(k := None)"
    using mi.remove_key_total [OF r(6)] by blast
  let ?items1 = "heap_put a ((item_at c a)\<lparr>item_node := NULL\<rparr>) (cache_items c)"
  obtain c' where c': "c' = c\<lparr>cache_item_list := l, cache_nodes := heap_del ?nd h, cache_items := heap_del a ?items1,
      cache_index := index, number_of_items := number_of_items c - 1\<rparr>" by simp
  have na: "?nd \<noteq> item_node (item_at c x)" if "x \<in> set (xs @ [])" for x
  proof
    assume "?nd = item_node (item_at c x)"
    then have "a = x" using item_nodes_inj [OF rep] that by simp
    then show False using r(2) that by auto
  qed
  have "?nd \<notin> set (?ns xs)" using na by auto
  then have p1: "list_rep l (heap_del ?nd h) (?ns (xs @ []))" using list_rep_del_outside [OF lr] by simp
  have p2: "val_of (heap_del ?nd h) (item_node (item_at c x)) = Some x" if "x \<in> set (xs @ [])" for x
    using na [OF that] vl r(5) [of x] that by (auto simp: val_of_def heap_get_del)
  have p3: "heap_wf (heap_del a ?items1)" using heap_wf_del [OF heap_wf_put [OF r(1) g]] .
  have p4: "heap_get (heap_del a ?items1) x = heap_get (cache_items c) x" if "x \<noteq> a" for x using that by simp
  have p5: "mi_map index = (mi_map (cache_index c))(item_key (item_at c a) := None)" using ix(3) kv by simp
  have d: "lru_rep c' (xs @ [])" "map (entry_at c') (xs @ []) = map (entry_at c) (xs @ [])"
    using lru_rep_drop [OF rep p1 p2 p3 p4 ix(2) p5 c'] by simp_all
  have "lru_view c' es" by (rule lru_viewI [OF d(1)]) (use d(2) xa(2) in simp)
  moreover have "lru_cache_flush_items f c (Suc n) ctx = Option.bind (f k v ctx) (lru_cache_flush_items f c' n)" for n ctx
    using rp nd ndv nn a g kv ix c' by (cases "f k v ctx") simp_all
  ultimately show ?thesis by blast
qed

lemma lru_flush_items:
  assumes "lru_view c es"
  shows "\<exists>c'. lru_view c' (take (length es - n) es) \<and>
    lru_cache_flush_items f c n ctx =
      map_option (\<lambda>ctx'. (c', ctx')) (flush_all f (take n (rev es)) ctx)"
  using assms
proof (induction n arbitrary: c es ctx)
  case 0
  then show ?case by auto
next
  case (Suc n)
  show ?case
  proof (cases es rule: rev_cases)
    case Nil
    then obtain as where as: "lru_rep c as" "as = []" using Suc.prems by (auto simp: lru_view_def)
    have "list_rpop (cache_item_list c) (cache_nodes c) = Some (NULL, cache_item_list c, cache_nodes c)"
      using list_rpop_empty lru_repD(4) [OF as(1)] as(2) by simp
    then show ?thesis using Suc.prems Nil by auto
  next
    case (snoc ys e)
    obtain k v m where e: "e = (k, v, m)" by (cases e) auto
    obtain c1 where c1: "lru_view c1 ys"
      "\<forall>ctx. lru_cache_flush_items f c (Suc n) ctx = Option.bind (f k v ctx) (lru_cache_flush_items f c1 n)"
      using lru_flush_round [of c ys k v m f] Suc.prems snoc e by blast
    show ?thesis
    proof (cases "f k v ctx")
      case None
      obtain c2 where "lru_view c2 (take (length ys - n) ys)" using Suc.IH [OF c1(1)] by blast
      then show ?thesis using c1(2) None snoc e by auto
    next
      case (Some ctx1)
      then show ?thesis using Suc.IH [OF c1(1), of ctx1] c1(2) snoc e by auto
    qed
  qed
qed

subsection \<open>Creation and release\<close>

lemma lru_init: "lru_view lru_cache_init []"
  by (rule lru_viewI [of _ "[]"])
    (simp_all add: lru_rep_def lru_cache_init_def list_rep_new mi_init indexes_def)

lemma lru_count: "lru_view c es \<Longrightarrow> lru_cache_count c = length es"
  by (auto simp: lru_view_def lru_cache_count_def lru_rep_def)

lemma lru_free:
  assumes "lru_view c es" and "flush_all f (rev es) ctx = Some ctx'"
  shows "\<exists>h items. lru_cache_free f c ctx = Some (h, items, ctx')"
proof -
  have n: "number_of_items c = length es" using lru_count [OF assms(1)] by (simp add: lru_cache_count_def)
  obtain c' where c': "lru_view c' []" "lru_cache_flush_items f c (length es) ctx = Some (c', ctx')"
    using lru_flush_items [OF assms(1), of "length es" f ctx] assms(2) by auto
  then obtain as where as: "lru_rep c' as" "as = []" by (auto simp: lru_view_def)
  obtain l h where "list_destroy (cache_item_list c') (cache_nodes c') = Some (l, h)"
    by (rule list_destroy_correct [OF lru_repD(4) [OF as(1)]])
  moreover obtain m where "memory_indexer_free (cache_index c') = Some m"
    using memory_indexer_free_spec [OF lru_repD(6) [OF as(1)]] by blast
  ultimately show ?thesis using n c' by (simp add: lru_cache_free_def)
qed

subsection \<open>The abstract cache as a map\<close>

lemma bindings_Cons: "bindings ((k, v, n) # es) = (bindings es)(k \<mapsto> v)"
  by (simp add: bindings_def)

lemma bindings_eq_Some:
  "distinct (keys es) \<Longrightarrow> bindings es k = Some v \<longleftrightarrow> (\<exists>n. (k, v, n) \<in> set es)"
proof (induction es)
  case (Cons e es)
  then show ?case by (cases e) (force simp: bindings_Cons keys_def bindings_None)
qed (simp add: bindings_def)

lemma find_key_Some:
  assumes "find (\<lambda>e. fst e = k) es = Some e"
  shows "\<exists>v n. e = (k, v, n)" and "e \<in> set es"
proof -
  show "e \<in> set es" using assms by (auto simp: find_Some_iff)
  have "fst e = k" using assms by (auto simp: find_Some_iff)
  then show "\<exists>v n. e = (k, v, n)" by (cases e) simp
qed

lemma touch_cases:
  assumes "distinct (keys es)"
  obtains "touch k es = es"
  | xs v n ys m where "es = xs @ (k, v, n) # ys" and "touch k es = (k, v, m) # xs @ ys"
  | xs v n ys m where "es = xs @ (k, v, n) # ys" and "touch k es = xs @ (k, v, m) # ys"
proof (cases "find (\<lambda>e. fst e = k) es")
  case None
  then show thesis by (intro that(1)) (simp add: touch_def)
next
  case (Some e)
  then obtain v n where e: "e = (k, v, n)" "e \<in> set es" using find_key_Some [OF Some] by (elim exE) simp
  then obtain xs ys where es: "es = xs @ (k, v, n) # ys" by (meson split_list)
  have d: "distinct (keys (xs @ (k, v, n) # ys))" using assms es by simp
  note f = find_entry_at [OF d, of k]
  let ?m = "size_wrap (n + 1)"
  show thesis
  proof (cases "?m mod LRU_MARKING = 0")
    case True
    then have "touch k es = (k, v, ?m) # xs @ ys" using f es by (simp add: touch_def Let_def)
    then show thesis by (rule that(2) [OF es])
  next
    case False
    then have "touch k es = xs @ (k, v, ?m) # ys" using f es by (simp add: touch_def Let_def)
    then show thesis by (rule that(3) [OF es])
  qed
qed

lemma keys_touch: "distinct (keys es) \<Longrightarrow> set (keys (touch k es)) = set (keys es)"
  by (rule touch_cases [of es k]) (auto simp: keys_def)

lemma bindings_append: "bindings (us @ vs) = bindings vs ++ bindings us"
  by (simp add: bindings_def)

lemma bindings_touch:
  assumes "distinct (keys es)"
  shows "bindings (touch k es) = bindings es"
proof (rule touch_cases [OF assms, of k])
  fix xs v n ys m
  assume es: "es = xs @ (k, v, n) # ys"
  have "k \<notin> dom (bindings xs)" using assms es bindings_None [of xs k] by (simp add: keys_def domIff)
  then have up: "(bindings ys)(k \<mapsto> v) ++ bindings xs = (bindings ys ++ bindings xs)(k \<mapsto> v)"
    by (rule map_add_upd_left)
  show "bindings (touch k es) = bindings es" if "touch k es = (k, v, m) # xs @ ys"
    unfolding that using up by (simp add: es bindings_append bindings_Cons)
  show "bindings (touch k es) = bindings es" if "touch k es = xs @ (k, v, m) # ys"
    unfolding that by (simp add: es bindings_append bindings_Cons)
qed simp

lemma bindings_forget: "bindings (forget k es) = (bindings es)(k := None)"
proof (induction es)
  case (Cons e es)
  then show ?case by (cases e) (auto simp: forget_def bindings_Cons)
qed (simp add: forget_def bindings_def)

end
