(* ===== verification/DirectCache.thy ===== *)
theory DirectCache
  imports Prelude
begin

section \<open>The direct-mapped cache (lib/direct\_cache)\<close>

text \<open>
  \<open>direct_cache.c\<close>: an array of lines, each with a key and a pointer; a key can only be in
  the line \<open>key mod size\<close>, cut to 16 bits. An empty line holds a key that belongs in another
  line (\<open>index + 1\<close>). Keys are the pointer-sized integers the callers pass, natural numbers
  here. A forgetful map is what its clients rely on: the locale \<open>lossy_cache\<close>.
\<close>

record cache_line =
  line_value :: addr
  line_key :: nat

record direct_cache =
  dc_cache :: "cache_line list"
  dc_size :: nat

definition dc_cell :: "direct_cache \<Rightarrow> nat \<Rightarrow> nat" where
  "dc_cell cache key = u16_wrap (key mod dc_size cache)"

text \<open>
  The values of the fresh lines are what \<open>malloc\<close> returned: the parameter \<open>junk\<close>.
\<close>

definition direct_cache_init :: "(nat \<Rightarrow> addr) \<Rightarrow> nat \<Rightarrow> direct_cache" where
  "direct_cache_init junk cache_size =
     \<lparr>dc_cache = map (\<lambda>i. \<lparr>line_value = junk i, line_key = i + 1\<rparr>) [0..<cache_size],
      dc_size = cache_size\<rparr>"

definition dc_line :: "direct_cache \<Rightarrow> nat \<Rightarrow> cache_line option" where
  "dc_line cache key =
     (let cell = dc_cell cache key in
      if dc_size cache \<noteq> 0 \<and> cell < length (dc_cache cache) then Some (dc_cache cache ! cell) else None)"

definition direct_cache_get :: "direct_cache \<Rightarrow> nat \<Rightarrow> addr option" where
  "direct_cache_get cache key = do {
     line \<leftarrow> dc_line cache key;
     Some (if line_key line = key then line_value line else NULL)
   }"

definition direct_cache_set :: "direct_cache \<Rightarrow> nat \<Rightarrow> addr \<Rightarrow> direct_cache option" where
  "direct_cache_set cache key v = do {
     line \<leftarrow> dc_line cache key;
     let line = line\<lparr>line_key := key\<rparr>;
     let line = line\<lparr>line_value := v\<rparr>;
     Some (cache\<lparr>dc_cache := (dc_cache cache)[dc_cell cache key := line]\<rparr>)
   }"

definition direct_cache_remove :: "direct_cache \<Rightarrow> nat \<Rightarrow> direct_cache option" where
  "direct_cache_remove cache key = do {
     line \<leftarrow> dc_line cache key;
     let line = line\<lparr>line_key := dc_cell cache key + 1\<rparr>;
     let line = line\<lparr>line_value := NULL\<rparr>;
     Some (cache\<lparr>dc_cache := (dc_cache cache)[dc_cell cache key := line]\<rparr>)
   }"

subsection \<open>The interface\<close>

text \<open>
  A cache that may forget: a lookup gives what was stored last under the key, or NULL. An
  operation on one key may drop other keys but never changes what they are bound to.
\<close>

locale lossy_cache =
  fixes lookup :: "'s \<Rightarrow> nat \<Rightarrow> addr option"
    and store :: "'s \<Rightarrow> nat \<Rightarrow> addr \<Rightarrow> 's option"
    and evict :: "'s \<Rightarrow> nat \<Rightarrow> 's option"
    and ok :: "'s \<Rightarrow> bool"
    and bound :: "'s \<Rightarrow> nat \<rightharpoonup> addr"
  assumes lookup_bound: "ok c \<Longrightarrow> lookup c k = Some (case bound c k of None \<Rightarrow> NULL | Some v \<Rightarrow> v)"
    and store_total: "ok c \<Longrightarrow> \<exists>c'. store c k v = Some c' \<and> ok c' \<and>
      bound c' k = Some v \<and> (\<forall>j. j \<noteq> k \<longrightarrow> bound c' j = None \<or> bound c' j = bound c j)"
    and evict_total: "ok c \<Longrightarrow> \<exists>c'. evict c k = Some c' \<and> ok c' \<and>
      bound c' k = None \<and> (\<forall>j. bound c' j = None \<or> bound c' j = bound c j)"
begin

definition agrees :: "'s \<Rightarrow> (nat \<rightharpoonup> addr) \<Rightarrow> bool" where
  "agrees c m \<longleftrightarrow> bound c \<subseteq>\<^sub>m m"

lemma agrees_lookup:
  "ok c \<Longrightarrow> agrees c m \<Longrightarrow> lookup c k = Some v \<Longrightarrow> v \<noteq> NULL \<Longrightarrow> m k = Some v"
  by (auto simp: lookup_bound agrees_def map_le_def dom_def split: option.splits)

lemma agrees_store:
  assumes "ok c" and "agrees c m"
  shows "\<exists>c'. store c k v = Some c' \<and> ok c' \<and> agrees c' (m(k \<mapsto> v))"
proof -
  obtain c' where c': "store c k v = Some c'" "ok c'" "bound c' k = Some v"
    "\<And>j. j \<noteq> k \<Longrightarrow> bound c' j = None \<or> bound c' j = bound c j"
    using store_total [OF assms(1)] by metis
  have "agrees c' (m(k \<mapsto> v))"
    using assms(2) c'(3) c'(4) unfolding agrees_def map_le_def dom_def
    by (smt (verit) fun_upd_apply mem_Collect_eq)
  then show ?thesis using c' by auto
qed

lemma agrees_evict:
  assumes "ok c" and "agrees c m"
  shows "\<exists>c'. evict c k = Some c' \<and> ok c' \<and> agrees c' (m(k := None))"
proof -
  obtain c' where c': "evict c k = Some c'" "ok c'" "bound c' k = None"
    "\<And>j. bound c' j = None \<or> bound c' j = bound c j"
    using evict_total [OF assms(1)] by metis
  have "agrees c' (m(k := None))"
    using assms(2) c'(3) c'(4) unfolding agrees_def map_le_def dom_def
    by (smt (verit) fun_upd_apply mem_Collect_eq)
  then show ?thesis using c' by auto
qed

end

subsection \<open>The direct cache is a lossy cache\<close>

definition dc_ok :: "direct_cache \<Rightarrow> bool" where
  "dc_ok c \<longleftrightarrow> 2 \<le> dc_size c \<and> length (dc_cache c) = dc_size c"

definition dc_bound :: "direct_cache \<Rightarrow> nat \<rightharpoonup> addr" where
  "dc_bound c k =
     (let line = dc_cache c ! dc_cell c k in if line_key line = k then Some (line_value line) else None)"

lemma dc_cell_less: "dc_ok c \<Longrightarrow> dc_cell c k < length (dc_cache c)"
  using mod_less_divisor [of "dc_size c" k] u16_wrap_le [of "k mod dc_size c"]
  by (auto simp: dc_cell_def dc_ok_def intro: le_less_trans)

lemma dc_line_ok: "dc_ok c \<Longrightarrow> dc_line c k = Some (dc_cache c ! dc_cell c k)"
  using dc_cell_less [of c k] by (auto simp: dc_line_def dc_ok_def)

text \<open>The key of an empty line never belongs in that line.\<close>

lemma empty_line_key:
  assumes "2 \<le> dc_size c"
  shows "dc_cell c (cell + 1) \<noteq> cell"
proof
  assume eq: "dc_cell c (cell + 1) = cell"
  let ?x = "(cell + 1) mod dc_size c"
  have x: "?x mod 65536 = cell" using eq by (simp add: dc_cell_def u16_wrap_def)
  have "cell < 65536" using x mod_less_divisor [of 65536 ?x] by simp
  have "cell \<le> ?x" using x mod_less_eq_dividend [of ?x 65536] by simp
  moreover have "?x < dc_size c" using assms by simp
  ultimately consider "cell + 1 = dc_size c" | "cell + 1 < dc_size c" by linarith
  then show False
  proof cases
    case 1
    then show ?thesis using x assms by simp
  next
    case 2
    then have "(cell + 1) mod 65536 = cell" using x by simp
    then show ?thesis using \<open>cell < 65536\<close> by (cases "cell + 1 = 65536") auto
  qed
qed

lemma dc_init_ok:
  assumes "2 \<le> n"
  shows "dc_ok (direct_cache_init junk n)" and "dc_bound (direct_cache_init junk n) = Map.empty"
proof -
  let ?c = "direct_cache_init junk n"
  show ok: "dc_ok ?c" using assms by (simp add: dc_ok_def direct_cache_init_def)
  show "dc_bound ?c = Map.empty"
  proof
    fix k
    have "dc_cell ?c k < n" using dc_cell_less [OF ok, of k] by (simp add: direct_cache_init_def)
    then have "line_key (dc_cache ?c ! dc_cell ?c k) = dc_cell ?c k + 1" by (simp add: direct_cache_init_def)
    moreover have "dc_cell ?c k + 1 \<noteq> k"
      using empty_line_key [of ?c "dc_cell ?c k"] assms by (auto simp: direct_cache_init_def)
    ultimately show "dc_bound ?c k = None" by (simp add: dc_bound_def)
  qed
qed

lemma dc_get:
  "dc_ok c \<Longrightarrow> direct_cache_get c k = Some (case dc_bound c k of None \<Rightarrow> NULL | Some v \<Rightarrow> v)"
  by (simp add: direct_cache_get_def dc_line_ok dc_bound_def Let_def)

lemma dc_update:
  assumes "dc_ok c" and "c' = c\<lparr>dc_cache := (dc_cache c)[dc_cell c k := line]\<rparr>"
  shows "dc_ok c'" and "dc_cell c' = dc_cell c"
    and "dc_cache c' ! dc_cell c j = (if dc_cell c j = dc_cell c k then line else dc_cache c ! dc_cell c j)"
  using assms dc_cell_less [OF assms(1)] by (auto simp: dc_ok_def dc_cell_def fun_eq_iff)

lemma dc_set:
  assumes "dc_ok c"
  shows "\<exists>c'. direct_cache_set c k v = Some c' \<and> dc_ok c' \<and> dc_bound c' k = Some v \<and>
    (\<forall>j. j \<noteq> k \<longrightarrow> dc_bound c' j = None \<or> dc_bound c' j = dc_bound c j)"
proof -
  let ?l = "(dc_cache c ! dc_cell c k)\<lparr>line_key := k, line_value := v\<rparr>"
  obtain c' where c': "c' = c\<lparr>dc_cache := (dc_cache c)[dc_cell c k := ?l]\<rparr>" by simp
  have "direct_cache_set c k v = Some c'" using assms c' by (simp add: direct_cache_set_def dc_line_ok)
  moreover have "dc_bound c' j = (if dc_cell c j = dc_cell c k then (if j = k then Some v else None) else dc_bound c j)" for j
    using dc_update(2,3) [OF assms c'] by (simp add: dc_bound_def)
  ultimately show ?thesis using dc_update(1) [OF assms c'] by simp
qed

lemma dc_remove:
  assumes "dc_ok c"
  shows "\<exists>c'. direct_cache_remove c k = Some c' \<and> dc_ok c' \<and> dc_bound c' k = None \<and>
    (\<forall>j. dc_bound c' j = None \<or> dc_bound c' j = dc_bound c j)"
proof -
  let ?l = "(dc_cache c ! dc_cell c k)\<lparr>line_key := dc_cell c k + 1, line_value := NULL\<rparr>"
  obtain c' where c': "c' = c\<lparr>dc_cache := (dc_cache c)[dc_cell c k := ?l]\<rparr>" by simp
  have "direct_cache_remove c k = Some c'" using assms c' by (simp add: direct_cache_remove_def dc_line_ok)
  moreover have "dc_cell c k + 1 \<noteq> j" if "dc_cell c j = dc_cell c k" for j
    using empty_line_key [of c "dc_cell c k"] assms that by (auto simp: dc_ok_def)
  then have "dc_bound c' j = (if dc_cell c j = dc_cell c k then None else dc_bound c j)" for j
    using dc_update(2,3) [OF assms c'] by (simp add: dc_bound_def)
  ultimately show ?thesis using dc_update(1) [OF assms c'] by simp
qed

interpretation dc: lossy_cache direct_cache_get direct_cache_set direct_cache_remove dc_ok dc_bound
  by unfold_locales (simp_all add: dc_get dc_set dc_remove)

lemma dc_init_agrees: "2 \<le> n \<Longrightarrow> dc.agrees (direct_cache_init junk n) m"
  by (simp add: dc.agrees_def dc_init_ok)

end
