(* ===== verification/BackedCache.thy ===== *)
theory BackedCache
  imports LruCache DirectCache
begin

section \<open>A direct cache in front of an LRU cache\<close>

text \<open>
  The page cache and the virtual memory both look a key up in a direct cache first and in an LRU
  cache when that misses, and keep the two in step when an entry is added or dropped. The locale
  \<open>backed_cache\<close> states once what that gives, for any forgetful cache in front of a store
  that \<open>holds\<close> a finite map; it is interpreted on the two caches of this program.
\<close>

locale backed_cache = lossy_cache lookup store evict ok bound
  for lookup :: "'s \<Rightarrow> nat \<Rightarrow> addr option"
    and store :: "'s \<Rightarrow> nat \<Rightarrow> addr \<Rightarrow> 's option"
    and evict :: "'s \<Rightarrow> nat \<Rightarrow> 's option"
    and ok :: "'s \<Rightarrow> bool"
    and bound :: "'s \<Rightarrow> nat \<rightharpoonup> addr" +
  fixes slow_get :: "'t \<Rightarrow> nat \<Rightarrow> (addr \<times> 't) option"
    and slow_add :: "'t \<Rightarrow> nat \<Rightarrow> addr \<Rightarrow> 't option"
    and holds :: "'t \<Rightarrow> (nat \<rightharpoonup> addr) \<Rightarrow> bool"
  assumes slow_get_holds: "holds t m \<Longrightarrow>
      \<exists>t'. slow_get t k = Some (case m k of None \<Rightarrow> NULL | Some v \<Rightarrow> v, t') \<and> holds t' m"
    and slow_add_holds: "holds t m \<Longrightarrow> m k = None \<Longrightarrow> \<exists>t'. slow_add t k v = Some t' \<and> holds t' (m(k \<mapsto> v))"
begin

definition in_step :: "'s \<Rightarrow> 't \<Rightarrow> (nat \<rightharpoonup> addr) \<Rightarrow> bool" where
  "in_step c t m \<longleftrightarrow> ok c \<and> agrees c m \<and> holds t m \<and> NULL \<notin> ran m"

lemma fast_hit:
  assumes "in_step c t m" and "lookup c k = Some v" and "v \<noteq> NULL"
  shows "m k = Some v"
  using assms agrees_lookup by (auto simp: in_step_def)

lemma fast_total: "in_step c t m \<Longrightarrow> \<exists>v. lookup c k = Some v"
  by (simp add: in_step_def lookup_bound)

lemma two_level_get:
  assumes "in_step c t m"
  shows "\<exists>t'. Option.bind (lookup c k) (\<lambda>v. if v = NULL then slow_get t k else Some (v, t)) =
      Some (case m k of None \<Rightarrow> NULL | Some v \<Rightarrow> v, t') \<and> in_step c t' m"
proof -
  obtain v where v: "lookup c k = Some v" using fast_total [OF assms] by blast
  show ?thesis
  proof (cases "v = NULL")
    case True
    then show ?thesis using v slow_get_holds [of t m k] assms by (auto simp: in_step_def)
  next
    case False
    then show ?thesis using v fast_hit [OF assms v False] assms by simp
  qed
qed

lemma two_level_add:
  assumes "in_step c t m" and "m k = None" and "v \<noteq> NULL"
  shows "\<exists>t' c'. slow_add t k v = Some t' \<and> store c k v = Some c' \<and> in_step c' t' (m(k \<mapsto> v))"
proof -
  obtain t' where "slow_add t k v = Some t'" "holds t' (m(k \<mapsto> v))"
    using slow_add_holds [of t m k v] assms by (auto simp: in_step_def)
  moreover obtain c' where "store c k v = Some c'" "ok c'" "agrees c' (m(k \<mapsto> v))"
    using agrees_store [of c m k v] assms by (auto simp: in_step_def)
  moreover have "NULL \<notin> ran (m(k \<mapsto> v))" using assms by (auto simp: in_step_def)
  ultimately show ?thesis by (auto simp: in_step_def)
qed

lemma two_level_drop:
  assumes "in_step c t m" and "holds t' (m(k := None))"
  shows "\<exists>c'. evict c k = Some c' \<and> in_step c' t' (m(k := None))"
proof -
  have "NULL \<notin> ran (m(k := None))" using assms(1) by (auto simp: in_step_def ran_def)
  then show ?thesis using agrees_evict [of c m k] assms by (auto simp: in_step_def)
qed

end

subsection \<open>The LRU cache as a finite map\<close>

definition lru_holds :: "lru_cache \<Rightarrow> (nat \<rightharpoonup> addr) \<Rightarrow> bool" where
  "lru_holds l m \<longleftrightarrow> (\<exists>es. lru_view l es \<and> m = bindings es)"

lemma lru_view_distinct: "lru_view l es \<Longrightarrow> distinct (keys es)"
  using lru_rep_distinct by (auto simp: lru_view_def)

lemma bindings_entries:
  assumes "lru_view l es"
  shows "\<forall>e\<in>set es. bindings es (fst e) = Some (fst (snd e))"
proof
  fix e assume e: "e \<in> set es"
  show "bindings es (fst e) = Some (fst (snd e))"
    unfolding bindings_eq_Some [OF lru_view_distinct [OF assms]] using e by (metis prod.collapse)
qed

lemma lru_holds_init: "lru_holds lru_cache_init Map.empty"
  unfolding lru_holds_def by (rule exI [of _ "[]"]) (simp add: lru_init bindings_def)

lemma lru_holds_get:
  assumes "lru_holds l m"
  shows "\<exists>l'. lru_cache_get l k = Some (case m k of None \<Rightarrow> NULL | Some v \<Rightarrow> v, l') \<and> lru_holds l' m"
proof -
  obtain es where es: "lru_view l es" "m = bindings es" using assms by (auto simp: lru_holds_def)
  obtain l' where "lru_cache_get l k = Some (case m k of None \<Rightarrow> NULL | Some v \<Rightarrow> v, l')" "lru_view l' (touch k es)"
    using lru_get [OF es(1), of k] es(2) by auto
  moreover have "m = bindings (touch k es)" using bindings_touch [OF lru_view_distinct [OF es(1)]] es(2) by simp
  ultimately show ?thesis by (auto simp: lru_holds_def)
qed

lemma lru_holds_add:
  assumes "lru_holds l m" and "m k = None"
  shows "\<exists>l'. lru_cache_add l k v = Some l' \<and> lru_holds l' (m(k \<mapsto> v))"
proof -
  obtain es where es: "lru_view l es" "m = bindings es" using assms by (auto simp: lru_holds_def)
  then obtain l' where "lru_cache_add l k v = Some l'" "lru_view l' ((k, v, 0) # es)"
    using lru_add [OF es(1), of k v] bindings_None [of es k] assms(2) by auto
  moreover have "m(k \<mapsto> v) = bindings ((k, v, 0) # es)" using es(2) by (simp add: bindings_Cons)
  ultimately show ?thesis unfolding lru_holds_def by blast
qed

lemma bindings_find:
  "bindings es k = map_option (\<lambda>e. fst (snd e)) (find (\<lambda>e. fst e = k) es)"
proof (induction es)
  case (Cons e es)
  then show ?case by (cases e) (auto simp: bindings_Cons)
qed (simp add: bindings_def)

lemma lru_holds_remove:
  assumes "lru_holds l m" and "m k = Some v"
  shows "\<exists>l'. lru_holds l' (m(k := None)) \<and>
    lru_cache_remove f l k ctx = map_option (\<lambda>ctx'. (l', ctx')) (f k v ctx)"
proof -
  obtain es where es: "lru_view l es" "m = bindings es" using assms by (auto simp: lru_holds_def)
  obtain e where e: "find (\<lambda>e. fst e = k) es = Some e" "fst (snd e) = v"
    using assms(2) es(2) by (auto simp: bindings_find)
  then obtain n where "e = (k, v, n)" using find_key_Some(1) [OF e(1)] by auto
  then obtain l' where "lru_view l' (forget k es)"
    "lru_cache_remove f l k ctx = map_option (\<lambda>ctx'. (l', ctx')) (f k v ctx)"
    using lru_remove [OF es(1), where k = k and f = f and ctx = ctx] e by auto
  moreover from this have "lru_holds l' (m(k := None))"
    unfolding lru_holds_def es(2) bindings_forget [symmetric] by blast
  ultimately show ?thesis by blast
qed

lemma lru_holds_least:
  assumes "lru_holds l m"
  shows "if m = Map.empty then lru_cache_get_least_recently_used l = Some NULL
    else \<exists>k v. m k = Some v \<and> lru_cache_get_least_recently_used l = Some v"
proof -
  obtain es where es: "lru_view l es" "m = bindings es" using assms by (auto simp: lru_holds_def)
  show ?thesis
  proof (cases es rule: rev_cases)
    case Nil
    then show ?thesis using lru_least [OF es(1)] es(2) by (simp add: bindings_def)
  next
    case (snoc ys e)
    obtain k v n where e: "e = (k, v, n)" by (cases e) auto
    have "m k = Some v"
      unfolding es(2) bindings_eq_Some [OF lru_view_distinct [OF es(1)]] using snoc e by auto
    moreover have "lru_cache_get_least_recently_used l = Some v" using lru_least [OF es(1)] snoc e by simp
    ultimately show ?thesis by auto
  qed
qed

lemma dom_bindings: "dom (bindings es) = set (keys es)"
  unfolding dom_def bindings_None by simp

lemma lru_holds_count:
  assumes "lru_holds l m"
  shows "finite (dom m)" and "lru_cache_count l = card (dom m)"
proof -
  obtain es where es: "lru_view l es" "m = bindings es" using assms by (auto simp: lru_holds_def)
  then show "finite (dom m)" by (simp add: dom_bindings)
  show "lru_cache_count l = card (dom m)"
    using lru_count [OF es(1)] distinct_card [OF lru_view_distinct [OF es(1)]] es(2)
    by (simp add: dom_bindings keys_def)
qed

interpretation tl: backed_cache direct_cache_get direct_cache_set direct_cache_remove dc_ok dc_bound
  lru_cache_get lru_cache_add lru_holds
  by unfold_locales (simp_all add: lru_holds_get lru_holds_add)

lemma in_step_init: "2 \<le> n \<Longrightarrow> tl.in_step (direct_cache_init junk n) lru_cache_init Map.empty"
  by (simp add: tl.in_step_def dc_init_ok dc_init_agrees lru_holds_init)

end
