(* ===== verification/Himem.thy ===== *)
theory Himem
  imports Prelude
begin

section \<open>Block memory (lib/HimemAllocator)\<close>

text \<open>
  \<open>himem_base.h\<close> is a table of functions over an allocator; \<open>himem_allocator.c\<close> calls
  through it. The build for the host and the ESP32-S3 uses \<open>emulated_himem.c\<close>: one buffer of
  \<open>blocks * block_size\<close> bytes. Block sizes, block counts and block numbers are 16-bit; a
  product is an \<open>int\<close>, and a run that overflows it is undefined. A read or write returns the
  number of bytes it copied, 0 when it refuses.

  The table is a record of functions; what its clients rely on is the locale \<open>block_store\<close>.
\<close>

record 'a himem_base =
  base_get_maximum_blocks :: "nat \<Rightarrow> nat option"
  base_init :: "(nat \<Rightarrow> u8) \<Rightarrow> nat \<Rightarrow> nat \<Rightarrow> 'a option"
  base_read :: "'a \<Rightarrow> nat \<Rightarrow> u8 list \<Rightarrow> nat \<Rightarrow> (nat \<times> u8 list) option"
  base_write :: "'a \<Rightarrow> nat \<Rightarrow> u8 list \<Rightarrow> nat \<Rightarrow> (nat \<times> 'a) option"

subsection \<open>The emulated block memory\<close>

record himem_allocator =
  himem_container :: "u8 list"
  alloc_block_size :: nat
  alloc_maximum_blocks :: nat

definition int_limit :: nat where "int_limit = 2 ^ 31"

definition MAXIMUM_MEMORY :: nat where "MAXIMUM_MEMORY = 1024 * 1024 * 4"

definition emulated_himem_get_maximum_blocks :: "nat \<Rightarrow> nat option" where
  "emulated_himem_get_maximum_blocks block_size =
     (if block_size = 0 then None else Some (u16_wrap (MAXIMUM_MEMORY div block_size)))"

text \<open>The fresh container holds what \<open>malloc\<close> returned: the parameter \<open>junk\<close>.\<close>

definition emulated_himem_init :: "(nat \<Rightarrow> u8) \<Rightarrow> nat \<Rightarrow> nat \<Rightarrow> himem_allocator option" where
  "emulated_himem_init junk block_size maximum_blocks = do {
     guard (block_size * maximum_blocks < int_limit);
     Some \<lparr>himem_container = map junk [0..<block_size * maximum_blocks],
       alloc_block_size = block_size, alloc_maximum_blocks = maximum_blocks\<rparr>
   }"

definition emulated_himem_read ::
  "himem_allocator \<Rightarrow> nat \<Rightarrow> u8 list \<Rightarrow> nat \<Rightarrow> (nat \<times> u8 list) option" where
  "emulated_himem_read allocator block_id buf len =
     (if block_id \<ge> alloc_maximum_blocks allocator then Some (0, buf)
      else if len > alloc_block_size allocator then Some (0, buf)
      else do {
        let offset = block_id * alloc_block_size allocator;
        guard (offset < int_limit);
        bytes \<leftarrow> mem_load (himem_container allocator) offset len;
        buf \<leftarrow> mem_store buf 0 bytes;
        Some (len, buf)
      })"

definition emulated_himem_write ::
  "himem_allocator \<Rightarrow> nat \<Rightarrow> u8 list \<Rightarrow> nat \<Rightarrow> (nat \<times> himem_allocator) option" where
  "emulated_himem_write allocator block_id buf len =
     (if block_id \<ge> alloc_maximum_blocks allocator then Some (0, allocator)
      else if len > alloc_block_size allocator then Some (0, allocator)
      else do {
        let offset = block_id * alloc_block_size allocator;
        guard (offset < int_limit);
        bytes \<leftarrow> mem_load buf 0 len;
        container \<leftarrow> mem_store (himem_container allocator) offset bytes;
        Some (len, allocator\<lparr>himem_container := container\<rparr>)
      })"

definition emulated_himem :: "himem_allocator himem_base" where
  "emulated_himem =
     \<lparr>base_get_maximum_blocks = emulated_himem_get_maximum_blocks, base_init = emulated_himem_init,
      base_read = emulated_himem_read, base_write = emulated_himem_write\<rparr>"

subsection \<open>The allocator\<close>

record himem =
  himem_block_size :: nat
  himem_blocks :: nat
  himem_instance :: himem_allocator

text \<open>\<open>himem\<close> is the table that the build selects, here the emulated one.\<close>

definition himem_table :: "himem_allocator himem_base" where
  "himem_table = emulated_himem"

definition himem_allocator_get_maximum_blocks :: "nat \<Rightarrow> nat option" where
  "himem_allocator_get_maximum_blocks block_size =
     base_get_maximum_blocks himem_table (u16_wrap block_size)"

definition himem_allocator_init :: "(nat \<Rightarrow> u8) \<Rightarrow> nat \<Rightarrow> nat \<Rightarrow> himem option" where
  "himem_allocator_init junk block_size blocks = do {
     a \<leftarrow> base_init himem_table junk (u16_wrap block_size) (u16_wrap blocks);
     Some \<lparr>himem_block_size = u16_wrap block_size, himem_blocks = u16_wrap blocks, himem_instance = a\<rparr>
   }"

definition himem_read :: "himem \<Rightarrow> nat \<Rightarrow> u8 list \<Rightarrow> nat \<Rightarrow> (nat \<times> u8 list) option" where
  "himem_read h block_id buf len = base_read himem_table (himem_instance h) (u16_wrap block_id) buf len"

definition himem_write :: "himem \<Rightarrow> nat \<Rightarrow> u8 list \<Rightarrow> nat \<Rightarrow> (nat \<times> himem) option" where
  "himem_write h block_id buf len = do {
     (n, a) \<leftarrow> base_write himem_table (himem_instance h) (u16_wrap block_id) buf len;
     Some (n, h\<lparr>himem_instance := a\<rparr>)
   }"

subsection \<open>The interface\<close>

text \<open>
  A store of \<open>count s\<close> blocks of \<open>size s\<close> bytes each: full-block reads return what was
  written last to the block, writes do not touch other blocks.
\<close>

locale block_store =
  fixes get :: "'s \<Rightarrow> nat \<Rightarrow> 'b list \<Rightarrow> nat \<Rightarrow> (nat \<times> 'b list) option"
    and put :: "'s \<Rightarrow> nat \<Rightarrow> 'b list \<Rightarrow> nat \<Rightarrow> (nat \<times> 's) option"
    and ok :: "'s \<Rightarrow> bool"
    and count :: "'s \<Rightarrow> nat"
    and size :: "'s \<Rightarrow> nat"
    and block :: "'s \<Rightarrow> nat \<Rightarrow> 'b list"
  assumes length_block: "ok s \<Longrightarrow> b < count s \<Longrightarrow> length (block s b) = size s"
    and read_block: "ok s \<Longrightarrow> b < count s \<Longrightarrow> length buf = size s \<Longrightarrow>
      get s b buf (size s) = Some (size s, block s b)"
    and write_block: "ok s \<Longrightarrow> b < count s \<Longrightarrow> length buf = size s \<Longrightarrow>
      \<exists>s'. put s b buf (size s) = Some (size s, s') \<and> ok s' \<and> count s' = count s \<and> size s' = size s
        \<and> block s' b = buf \<and> (\<forall>c. c < count s \<longrightarrow> c \<noteq> b \<longrightarrow> block s' c = block s c)"
begin

lemma read_after_write:
  assumes "ok s" and "b < count s" and "c < count s" and "length buf = size s" and "length out = size s"
    and "put s b buf (size s) = Some (n, s')"
  shows "get s' c out (size s) = Some (size s, if c = b then buf else block s c)"
proof -
  have "ok s'" "count s' = count s" "size s' = size s" "block s' b = buf"
    "\<forall>c. c < count s \<longrightarrow> c \<noteq> b \<longrightarrow> block s' c = block s c"
    using write_block [OF assms(1,2,4)] assms(6) by auto
  then show ?thesis using read_block [of s' c out] assms by auto
qed

end

definition himem_ok :: "himem \<Rightarrow> bool" where
  "himem_ok h \<longleftrightarrow>
     (let a = himem_instance h in
        alloc_block_size a = himem_block_size h \<and> alloc_maximum_blocks a = himem_blocks h \<and>
        himem_block_size h < 65536 \<and> himem_blocks h < 65536 \<and>
        himem_block_size h * himem_blocks h < int_limit \<and>
        length (himem_container a) = himem_block_size h * himem_blocks h)"

definition himem_block :: "himem \<Rightarrow> nat \<Rightarrow> u8 list" where
  "himem_block h b =
     slice (himem_container (himem_instance h)) (b * himem_block_size h) (himem_block_size h)"

lemma himem_offset:
  assumes "himem_ok h" and "b < himem_blocks h"
  shows "b * himem_block_size h + himem_block_size h \<le> length (himem_container (himem_instance h))"
    and "b * himem_block_size h < int_limit"
proof -
  have "Suc b * himem_block_size h \<le> himem_blocks h * himem_block_size h"
    using assms(2) by (intro mult_le_mono1) simp
  then show 1: "b * himem_block_size h + himem_block_size h \<le> length (himem_container (himem_instance h))"
    using assms(1) by (simp add: himem_ok_def Let_def mult.commute)
  then show "b * himem_block_size h < int_limit" using assms(1) by (auto simp: himem_ok_def Let_def)
qed

lemmas himem_defs = himem_table_def emulated_himem_def emulated_himem_read_def emulated_himem_write_def

lemma himem_read_block:
  assumes "himem_ok h" and "b < himem_blocks h" and "length buf = himem_block_size h"
  shows "himem_read h b buf (himem_block_size h) = Some (himem_block_size h, himem_block h b)"
proof -
  note o = himem_offset [OF assms(1,2)]
  have "alloc_block_size (himem_instance h) = himem_block_size h" "alloc_maximum_blocks (himem_instance h) = himem_blocks h"
    "b < 65536" using assms by (auto simp: himem_ok_def Let_def)
  then show ?thesis using o assms
    by (simp add: himem_read_def himem_defs himem_block_def splice_def)
qed

lemma block_disjoint:
  assumes "b \<noteq> c"
  shows "c * n + n \<le> b * n \<or> b * n + n \<le> c * (n::nat)"
proof (cases "c < b")
  case True
  then have "Suc c * n \<le> b * n" by (intro mult_le_mono1) simp
  then show ?thesis by simp
next
  case False
  then have "Suc b * n \<le> c * n" using assms by (intro mult_le_mono1) simp
  then show ?thesis by simp
qed

lemma himem_write_block:
  assumes "himem_ok h" and "b < himem_blocks h" and "length buf = himem_block_size h"
  shows "\<exists>h'. himem_write h b buf (himem_block_size h) = Some (himem_block_size h, h') \<and> himem_ok h' \<and>
    himem_blocks h' = himem_blocks h \<and> himem_block_size h' = himem_block_size h \<and>
    himem_block h' b = buf \<and>
    (\<forall>c. c < himem_blocks h \<longrightarrow> c \<noteq> b \<longrightarrow> himem_block h' c = himem_block h c)"
proof -
  note o = himem_offset [OF assms(1,2)]
  let ?off = "b * himem_block_size h"
  let ?a = "(himem_instance h)\<lparr>himem_container := splice (himem_container (himem_instance h)) ?off buf\<rparr>"
  obtain h' where h': "h' = h\<lparr>himem_instance := ?a\<rparr>" by simp
  have s: "alloc_block_size (himem_instance h) = himem_block_size h" "alloc_maximum_blocks (himem_instance h) = himem_blocks h"
    "b < 65536" using assms by (auto simp: himem_ok_def Let_def)
  have "himem_write h b buf (himem_block_size h) = Some (himem_block_size h, h')"
    using s o assms by (simp add: himem_write_def himem_defs h' slice_def)
  moreover have "himem_ok h'"
    using assms o by (simp add: himem_ok_def Let_def h')
  moreover have "himem_block h' b = buf"
    using o assms(3) slice_splice_same [of ?off buf "himem_container (himem_instance h)"]
    by (simp add: himem_block_def h')
  moreover have "himem_block h' c = himem_block h c" if "c < himem_blocks h" "c \<noteq> b" for c
    using slice_splice_disjoint [of ?off buf "himem_container (himem_instance h)" "c * himem_block_size h" "himem_block_size h"]
      o assms(3) himem_offset(1) [OF assms(1) that(1)] block_disjoint [OF that(2) [symmetric], of "himem_block_size h"]
    by (simp add: himem_block_def h')
  ultimately show ?thesis by (auto simp: h')
qed

interpretation himem: block_store himem_read himem_write himem_ok himem_blocks himem_block_size himem_block
proof unfold_locales
  show "length (himem_block s b) = himem_block_size s" if "himem_ok s" "b < himem_blocks s" for s b
    using himem_offset(1) [OF that] by (simp add: himem_block_def)
qed (simp_all add: himem_read_block himem_write_block)

lemma himem_init:
  assumes "block_size < 65536" and "blocks < 65536" and "block_size * blocks < int_limit"
  shows "\<exists>h. himem_allocator_init junk block_size blocks = Some h \<and> himem_ok h \<and>
    himem_blocks h = blocks \<and> himem_block_size h = block_size"
  using assms by (simp add: himem_allocator_init_def himem_defs emulated_himem_init_def himem_ok_def Let_def)

subsection \<open>Properties\<close>

text \<open>After a full-block write, reading any block returns what was written to it, and the
  other blocks are unchanged.\<close>

theorem himem_read_after_write:
  assumes "himem_ok h" and "b < himem_blocks h" and "c < himem_blocks h"
    and "length buf = himem_block_size h" and "length out = himem_block_size h"
    and "himem_write h b buf (himem_block_size h) = Some (n, h')"
  shows "himem_read h' c out (himem_block_size h) =
    Some (himem_block_size h, if c = b then buf else himem_block h c)"
  using assms by (rule himem.read_after_write)

lemma himem_read_after_write_witness:
  "\<exists>h h'. himem_allocator_init (\<lambda>_. 0) 2 3 = Some h \<and> himem_write h 1 [7, 8] 2 = Some (2, h') \<and>
    himem_read h' 1 [0, 0] 2 = Some (2, [7, 8])"
proof -
  obtain h where h: "himem_allocator_init (\<lambda>_. 0) 2 3 = Some h" "himem_ok h" "himem_blocks h = 3" "himem_block_size h = 2"
    using himem_init [of 2 3 "\<lambda>_. 0"] by (auto simp: int_limit_def)
  obtain h' where "himem_write h 1 [7, 8] 2 = Some (2, h')"
    using himem_write_block [of h 1 "[7, 8]"] h by auto
  then show ?thesis using h himem_read_after_write [of h 1 1 "[7, 8]" "[0, 0]" 2 h'] by auto
qed

text \<open>C7: A block size that does not fit into 16 bits is cut off, and then every read and write of
  a whole block is refused: they return 0 and copy nothing.\<close>

theorem himem_oversized_block_refused:
  assumes "65536 \<le> len" and "himem_allocator_init junk len blocks = Some h"
  shows "himem_read h b buf len = Some (0, buf) \<and> himem_write h b buf len = Some (0, h)"
proof -
  have "u16_wrap len < 65536" by (simp add: u16_wrap_def)
  then have "alloc_block_size (himem_instance h) < len"
    using assms by (auto simp: himem_allocator_init_def himem_defs emulated_himem_init_def elim!: bind_eq_SomeE)
  then show ?thesis
    by (simp_all add: himem_read_def himem_write_def himem_defs)
qed

lemma himem_oversized_block_refused_witness:
  "\<exists>h. himem_allocator_init (\<lambda>_. 0) 65536 4 = Some h \<and> himem_read h 0 [] 65536 = Some (0, [])"
proof -
  obtain h where h: "himem_allocator_init (\<lambda>_. 0) 65536 4 = Some h"
    by (simp add: himem_allocator_init_def himem_defs emulated_himem_init_def u16_wrap_def int_limit_def)
  then show ?thesis using himem_oversized_block_refused [OF _ h, of 0 "[]"] by auto
qed

end
