(* ===== verification/PageCache.thy ===== *)
theory PageCache
  imports BackedCache Himem
begin

section \<open>The page cache (lib/page\_cache)\<close>

text \<open>
  \<open>page_cache.c\<close>: pages of \<open>page_size\<close> bytes kept in block memory. A page item pairs a
  page number with its block; the LRU cache and the direct cache both map page numbers to page
  items. A new page takes the next unused block; when there is none, the least recently used page
  is written out through the client's callback and its block is reused.

  The callback \<open>on_flush\<close> of the client takes the page number, the page and the client's
  context (the field \<open>flush_context\<close> points to it).
\<close>

record page_cache_item =
  page_number :: nat
  block_id :: nat

record page_cache =
  pc_lru_cache :: lru_cache
  pc_direct_cache :: direct_cache
  pc_page_size :: nat
  pc_himem_maximum_blocks :: nat
  pc_himem_last_allocated_block :: nat
  pc_himem :: himem
  pc_flush_buffer :: "u8 list"
  pc_items :: "page_cache_item heap"

type_synonym 'f page_flush = "nat \<Rightarrow> u8 list \<Rightarrow> 'f \<Rightarrow> 'f option"

text \<open>\<open>on_page_flush\<close>: the callback that the page cache gives to its LRU cache.\<close>

definition pc_on_page_flush :: "'f page_flush \<Rightarrow> (page_cache \<times> 'f) flush" where
  "pc_on_page_flush on_flush key val ctx =
     (case ctx of (pc, flush_context) \<Rightarrow> do {
        page_item \<leftarrow> heap_get (pc_items pc) val;
        (_, buf) \<leftarrow> himem_read (pc_himem pc) (block_id page_item) (pc_flush_buffer pc) (pc_page_size pc);
        let pc = pc\<lparr>pc_flush_buffer := buf\<rparr>;
        flush_context \<leftarrow> on_flush key (pc_flush_buffer pc) flush_context;
        Some (pc, flush_context)
      })"

text \<open>
  \<open>junk\<close> and \<open>junk_ptr\<close> are the contents of fresh memory: of the flush buffer and the
  block memory, and of the lines of the direct cache.
\<close>

definition page_cache_init ::
  "(nat \<Rightarrow> u8) \<Rightarrow> (nat \<Rightarrow> addr) \<Rightarrow> nat \<Rightarrow> nat \<Rightarrow> page_cache option" where
  "page_cache_init junk junk_ptr page_size maximum_himem_blocks = do {
     h \<leftarrow> himem_allocator_init junk page_size maximum_himem_blocks;
     Some \<lparr>pc_lru_cache = lru_cache_init, pc_direct_cache = direct_cache_init junk_ptr 2048,
       pc_page_size = page_size, pc_himem_maximum_blocks = maximum_himem_blocks,
       pc_himem_last_allocated_block = 0, pc_himem = h,
       pc_flush_buffer = map junk [0..<page_size], pc_items = heap_empty\<rparr>
   }"

text \<open>The lookup that \<open>page_cache_get\<close> and \<open>page_cache_set\<close> start with.\<close>

definition pc_find :: "page_cache \<Rightarrow> nat \<Rightarrow> (addr \<times> page_cache) option" where
  "pc_find pc page = do {
     page_item \<leftarrow> direct_cache_get (pc_direct_cache pc) page;
     if page_item = NULL then do {
       (page_item, l) \<leftarrow> lru_cache_get (pc_lru_cache pc) page;
       Some (page_item, pc\<lparr>pc_lru_cache := l\<rparr>)
     } else Some (page_item, pc)
   }"

definition page_cache_get :: "page_cache \<Rightarrow> nat \<Rightarrow> u8 list \<Rightarrow> (bool \<times> u8 list \<times> page_cache) option" where
  "page_cache_get pc page buff = do {
     (page_item, pc) \<leftarrow> pc_find pc page;
     if page_item \<noteq> NULL then do {
       item \<leftarrow> heap_get (pc_items pc) page_item;
       (_, buff) \<leftarrow> himem_read (pc_himem pc) (block_id item) buff (pc_page_size pc);
       Some (True, buff, pc)
     } else Some (False, buff, pc)
   }"

text \<open>
  The page item for a page that is not cached: a new one with the next unused block, or the least
  recently used one, after its page has been flushed and taken out of both caches.
\<close>

definition pc_new_item :: "'f page_flush \<Rightarrow> page_cache \<Rightarrow> nat \<Rightarrow> 'f \<Rightarrow> (addr \<times> nat \<times> page_cache \<times> 'f) option" where
  "pc_new_item on_flush pc page ctx =
     (if pc_himem_last_allocated_block pc < pc_himem_maximum_blocks pc then
        let block = pc_himem_last_allocated_block pc;
            (page_item, items) = heap_alloc \<lparr>page_number = page, block_id = block\<rparr> (pc_items pc)
        in Some (page_item, block,
             pc\<lparr>pc_himem_last_allocated_block := block + 1, pc_items := items\<rparr>, ctx)
      else do {
        page_item \<leftarrow> lru_cache_get_least_recently_used (pc_lru_cache pc);
        item \<leftarrow> heap_get (pc_items pc) page_item;
        (l, pc, ctx) \<leftarrow> lru_cache_remove (pc_on_page_flush on_flush) (pc_lru_cache pc) (page_number item) (pc, ctx);
        let pc = pc\<lparr>pc_lru_cache := l\<rparr>;
        item \<leftarrow> heap_get (pc_items pc) page_item;
        d \<leftarrow> direct_cache_remove (pc_direct_cache pc) (page_number item);
        let pc = pc\<lparr>pc_direct_cache := d\<rparr>;
        let block = block_id item;
        items \<leftarrow> heap_mod page_item (page_number_update (\<lambda>_. page)) (pc_items pc);
        Some (page_item, block, pc\<lparr>pc_items := items\<rparr>, ctx)
      })"

definition page_cache_set ::
  "'f page_flush \<Rightarrow> page_cache \<Rightarrow> nat \<Rightarrow> u8 list \<Rightarrow> 'f \<Rightarrow> (page_cache \<times> 'f) option" where
  "page_cache_set on_flush pc page buff ctx = do {
     (page_item, pc) \<leftarrow> pc_find pc page;
     if page_item \<noteq> NULL then do {
       item \<leftarrow> heap_get (pc_items pc) page_item;
       (_, h) \<leftarrow> himem_write (pc_himem pc) (block_id item) buff (pc_page_size pc);
       Some (pc\<lparr>pc_himem := h\<rparr>, ctx)
     } else do {
       (page_item, block, pc, ctx) \<leftarrow> pc_new_item on_flush pc page ctx;
       (_, h) \<leftarrow> himem_write (pc_himem pc) block buff (pc_page_size pc);
       let pc = pc\<lparr>pc_himem := h\<rparr>;
       l \<leftarrow> lru_cache_add (pc_lru_cache pc) page page_item;
       let pc = pc\<lparr>pc_lru_cache := l\<rparr>;
       d \<leftarrow> direct_cache_set (pc_direct_cache pc) page page_item;
       Some (pc\<lparr>pc_direct_cache := d\<rparr>, ctx)
     }
   }"

subsection \<open>Invariant and contents\<close>

definition item_in :: "page_cache \<Rightarrow> addr \<Rightarrow> page_cache_item" where
  "item_in pc a = the (heap_get (pc_items pc) a)"

text \<open>
  With the map \<open>m\<close> that both caches represent: every cached page has a page item with its
  number, the items own different blocks, and together they own all blocks handed out so far.
\<close>

definition pc_part :: "page_cache \<Rightarrow> (nat \<rightharpoonup> addr) \<Rightarrow> bool" where
  "pc_part pc m \<longleftrightarrow>
     tl.in_step (pc_direct_cache pc) (pc_lru_cache pc) m \<and>
     himem_ok (pc_himem pc) \<and> himem_block_size (pc_himem pc) = pc_page_size pc \<and>
     himem_blocks (pc_himem pc) = pc_himem_maximum_blocks pc \<and>
     length (pc_flush_buffer pc) = pc_page_size pc \<and> heap_wf (pc_items pc) \<and>
     (\<forall>k v. m k = Some v \<longrightarrow> heap_get (pc_items pc) v = Some (item_in pc v) \<and>
        page_number (item_in pc v) = k \<and>
        block_id (item_in pc v) < pc_himem_last_allocated_block pc) \<and>
     (\<forall>j k v w. m j = Some v \<longrightarrow> m k = Some w \<longrightarrow>
        block_id (item_in pc v) = block_id (item_in pc w) \<longrightarrow> j = k) \<and>
     pc_himem_last_allocated_block pc \<le> pc_himem_maximum_blocks pc \<and>
     0 < pc_himem_maximum_blocks pc"

definition pc_inv :: "page_cache \<Rightarrow> (nat \<rightharpoonup> addr) \<Rightarrow> bool" where
  "pc_inv pc m \<longleftrightarrow> pc_part pc m \<and> card (dom m) = pc_himem_last_allocated_block pc"

definition pages :: "page_cache \<Rightarrow> (nat \<rightharpoonup> addr) \<Rightarrow> nat \<rightharpoonup> u8 list" where
  "pages pc m k = map_option (\<lambda>v. himem_block (pc_himem pc) (block_id (item_in pc v))) (m k)"

definition pc_holds :: "page_cache \<Rightarrow> (nat \<rightharpoonup> u8 list) \<Rightarrow> bool" where
  "pc_holds pc P \<longleftrightarrow> (\<exists>m. pc_inv pc m \<and> P = pages pc m)"

lemma pc_holdsI: "pc_inv pc m \<Longrightarrow> pages pc m = P \<Longrightarrow> pc_holds pc P"
  by (auto simp: pc_holds_def)

lemma pc_partD:
  assumes "pc_part pc m"
  shows "tl.in_step (pc_direct_cache pc) (pc_lru_cache pc) m"
    "himem_ok (pc_himem pc)" "himem_block_size (pc_himem pc) = pc_page_size pc"
    "himem_blocks (pc_himem pc) = pc_himem_maximum_blocks pc"
    "length (pc_flush_buffer pc) = pc_page_size pc" "heap_wf (pc_items pc)"
    "\<And>k v. m k = Some v \<Longrightarrow> heap_get (pc_items pc) v = Some (item_in pc v)"
    "\<And>k v. m k = Some v \<Longrightarrow> page_number (item_in pc v) = k"
    "\<And>k v. m k = Some v \<Longrightarrow> block_id (item_in pc v) < pc_himem_last_allocated_block pc"
    "\<And>j k v w. m j = Some v \<Longrightarrow> m k = Some w \<Longrightarrow>
        block_id (item_in pc v) = block_id (item_in pc w) \<Longrightarrow> j = k"
    "pc_himem_last_allocated_block pc \<le> pc_himem_maximum_blocks pc" "0 < pc_himem_maximum_blocks pc"
  using assms by (simp_all only: pc_part_def)

lemma pc_inv_part: "pc_inv pc m \<Longrightarrow> pc_part pc m"
  by (simp add: pc_inv_def)

lemma pc_block_lt: "pc_part pc m \<Longrightarrow> m k = Some v \<Longrightarrow> block_id (item_in pc v) < himem_blocks (pc_himem pc)"
  using pc_partD(4,9,11) by (metis order_less_le_trans)

lemma pages_length: "pc_holds pc P \<Longrightarrow> P k = Some bs \<Longrightarrow> length bs = pc_page_size pc"
  using himem.length_block pc_block_lt pc_partD(2,3) by (fastforce simp: pc_holds_def pages_def pc_inv_def)

lemma pc_find_spec:
  assumes "pc_inv pc m"
  shows "\<exists>l. pc_find pc k = Some (case m k of None \<Rightarrow> NULL | Some v \<Rightarrow> v, pc\<lparr>pc_lru_cache := l\<rparr>) \<and>
    pc_inv (pc\<lparr>pc_lru_cache := l\<rparr>) m \<and> pages (pc\<lparr>pc_lru_cache := l\<rparr>) m = pages pc m"
proof -
  obtain l where l: "Option.bind (direct_cache_get (pc_direct_cache pc) k)
        (\<lambda>v. if v = NULL then lru_cache_get (pc_lru_cache pc) k else Some (v, pc_lru_cache pc)) =
      Some (case m k of None \<Rightarrow> NULL | Some v \<Rightarrow> v, l)" "tl.in_step (pc_direct_cache pc) l m"
    using tl.two_level_get [OF pc_partD(1) [OF pc_inv_part [OF assms]], of k] by blast
  have it: "item_in (pc\<lparr>pc_lru_cache := l\<rparr>) = item_in pc" by (simp add: item_in_def fun_eq_iff)
  have "pc_inv (pc\<lparr>pc_lru_cache := l\<rparr>) m" using assms l(2) unfolding pc_inv_def pc_part_def it by simp
  moreover have "pages (pc\<lparr>pc_lru_cache := l\<rparr>) m = pages pc m" by (simp add: pages_def it fun_eq_iff)
  moreover have "pc_find pc k = Some (case m k of None \<Rightarrow> NULL | Some v \<Rightarrow> v, pc\<lparr>pc_lru_cache := l\<rparr>)"
    using l(1) by (cases "direct_cache_get (pc_direct_cache pc) k") (auto simp: pc_find_def split: if_splits)
  ultimately show ?thesis by blast
qed

lemma pc_nonnull: "pc_part pc m \<Longrightarrow> m k = Some v \<Longrightarrow> v \<noteq> NULL"
  using pc_partD(1) [of pc m] by (cases "v = NULL") (auto simp: tl.in_step_def ran_def)

subsection \<open>Lookups\<close>

lemma page_cache_get_spec:
  assumes "pc_holds pc P" and "length buff = pc_page_size pc"
  shows "\<exists>pc'. page_cache_get pc k buff =
      Some (case P k of None \<Rightarrow> (False, buff, pc') | Some bs \<Rightarrow> (True, bs, pc')) \<and>
    pc_holds pc' P \<and> pc_page_size pc' = pc_page_size pc"
proof -
  obtain m where m: "pc_inv pc m" "P = pages pc m" using assms(1) by (auto simp: pc_holds_def)
  obtain l where l: "pc_find pc k = Some (case m k of None \<Rightarrow> NULL | Some v \<Rightarrow> v, pc\<lparr>pc_lru_cache := l\<rparr>)"
    "pc_inv (pc\<lparr>pc_lru_cache := l\<rparr>) m" "pages (pc\<lparr>pc_lru_cache := l\<rparr>) m = pages pc m"
    using pc_find_spec [OF m(1)] by blast
  have h: "pc_holds (pc\<lparr>pc_lru_cache := l\<rparr>) P" using l m(2) by (auto simp: pc_holds_def)
  show ?thesis
  proof (cases "m k")
    case None
    then show ?thesis using l h m(2) by (auto simp: page_cache_get_def pages_def)
  next
    case (Some v)
    note p = pc_inv_part [OF m(1)]
    note r = pc_partD [OF p]
    have "himem_read (pc_himem pc) (block_id (item_in pc v)) buff (pc_page_size pc) =
        Some (pc_page_size pc, himem_block (pc_himem pc) (block_id (item_in pc v)))"
      using himem.read_block [OF r(2) pc_block_lt [OF p Some], of buff] r(3) assms(2) by simp
    then show ?thesis using l h m(2) Some pc_nonnull [OF p Some] r(7) [OF Some]
      by (auto simp: page_cache_get_def pages_def)
  qed
qed

subsection \<open>Eviction\<close>

lemma pc_on_page_flush_spec:
  assumes "pc_part pc m" and "m k = Some v" and "P = pages pc m" and "P k = Some bs"
  shows "pc_on_page_flush f k v (pc, ctx) = map_option (\<lambda>ctx'. (pc\<lparr>pc_flush_buffer := bs\<rparr>, ctx')) (f k bs ctx)"
proof -
  note r = pc_partD [OF assms(1)]
  have "himem_read (pc_himem pc) (block_id (item_in pc v)) (pc_flush_buffer pc) (pc_page_size pc) =
      Some (pc_page_size pc, bs)"
    using himem.read_block [OF r(2) pc_block_lt [OF assms(1,2)], of "pc_flush_buffer pc"] r(3,5) assms(2-4)
    by (simp add: pages_def)
  then show ?thesis using r(7) [OF assms(2)]
    by (cases "f k bs ctx") (simp_all add: pc_on_page_flush_def)
qed

subsection \<open>Storing a page\<close>

text \<open>
  \<open>pc_ready\<close>: a page item and a block for a page that is not cached are set aside.
\<close>

definition pc_ready :: "page_cache \<Rightarrow> (nat \<rightharpoonup> addr) \<Rightarrow> nat \<Rightarrow> addr \<Rightarrow> nat \<Rightarrow> bool" where
  "pc_ready pc m k a b \<longleftrightarrow>
     pc_part pc m \<and> m k = None \<and> a \<noteq> NULL \<and>
     heap_get (pc_items pc) a = Some \<lparr>page_number = k, block_id = b\<rparr> \<and>
     b < pc_himem_last_allocated_block pc \<and> (\<forall>j v. m j = Some v \<longrightarrow> block_id (item_in pc v) \<noteq> b) \<and>
     finite (dom m) \<and> Suc (card (dom m)) = pc_himem_last_allocated_block pc"

lemma pages_write_other:
  assumes "pc_part pc m" and "\<And>j v. m j = Some v \<Longrightarrow> block_id (item_in pc v) \<noteq> b"
    and "\<forall>c. c < himem_blocks (pc_himem pc) \<longrightarrow> c \<noteq> b \<longrightarrow> himem_block h c = himem_block (pc_himem pc) c"
    and "pc' = pc\<lparr>pc_himem := h\<rparr>"
  shows "pages pc' m = pages pc m"
proof
  fix j show "pages pc' m j = pages pc m j"
    using assms(2-4) pc_block_lt [OF assms(1)] by (cases "m j") (simp_all add: pages_def item_in_def)
qed

lemma pc_part_himem:
  assumes "pc_part pc m" and "himem_ok h" and "himem_blocks h = himem_blocks (pc_himem pc)"
    and "himem_block_size h = himem_block_size (pc_himem pc)"
  shows "pc_part (pc\<lparr>pc_himem := h\<rparr>) m"
proof -
  have it: "item_in (pc\<lparr>pc_himem := h\<rparr>) = item_in pc" by (simp add: item_in_def fun_eq_iff)
  show ?thesis using assms unfolding pc_part_def it by simp
qed

lemma page_cache_store_ready:
  assumes rd: "pc_ready pc m k a b" and len: "length buff = pc_page_size pc"
  shows "\<exists>h l d pc'. himem_write (pc_himem pc) b buff (pc_page_size pc) = Some (pc_page_size pc, h) \<and>
    lru_cache_add (pc_lru_cache pc) k a = Some l \<and> direct_cache_set (pc_direct_cache pc) k a = Some d \<and>
    pc' = pc\<lparr>pc_himem := h, pc_lru_cache := l, pc_direct_cache := d\<rparr> \<and>
    pc_inv pc' (m(k \<mapsto> a)) \<and> pages pc' (m(k \<mapsto> a)) = (pages pc m)(k \<mapsto> buff)"
proof -
  have p: "pc_part pc m" and mk: "m k = None" and a: "a \<noteq> NULL" "item_in pc a = \<lparr>page_number = k, block_id = b\<rparr>"
    "heap_get (pc_items pc) a = Some (item_in pc a)"
    and b: "b < pc_himem_last_allocated_block pc" "\<And>j v. m j = Some v \<Longrightarrow> block_id (item_in pc v) \<noteq> b"
    and c: "finite (dom m)" "Suc (card (dom m)) = pc_himem_last_allocated_block pc"
    using rd by (auto simp: pc_ready_def item_in_def)
  note r = pc_partD [OF p]
  have bl: "b < himem_blocks (pc_himem pc)" using b(1) r(4,11) by simp
  obtain h where h: "himem_write (pc_himem pc) b buff (pc_page_size pc) = Some (pc_page_size pc, h)" "himem_ok h"
    "himem_blocks h = himem_blocks (pc_himem pc)" "himem_block_size h = himem_block_size (pc_himem pc)"
    "himem_block h b = buff" "\<forall>c. c < himem_blocks (pc_himem pc) \<longrightarrow> c \<noteq> b \<longrightarrow> himem_block h c = himem_block (pc_himem pc) c"
    using himem.write_block [OF r(2) bl, of buff] r(3) len by auto
  obtain l d where ld: "lru_cache_add (pc_lru_cache pc) k a = Some l" "direct_cache_set (pc_direct_cache pc) k a = Some d"
    "tl.in_step d l (m(k \<mapsto> a))"
    using tl.two_level_add [OF r(1) mk a(1)] by blast
  obtain pc' where pc': "pc' = pc\<lparr>pc_himem := h, pc_lru_cache := l, pc_direct_cache := d\<rparr>" by simp
  have it: "item_in pc' = item_in pc" by (simp add: pc' item_in_def fun_eq_iff)
  have "pc_part pc' (m(k \<mapsto> a))"
    unfolding pc_part_def it
  proof (intro conjI allI impI)
    fix i j v w
    assume *: "(m(k \<mapsto> a)) i = Some v" "(m(k \<mapsto> a)) j = Some w" "block_id (item_in pc v) = block_id (item_in pc w)"
    have ba: "block_id (item_in pc a) = b" using a(2) by simp
    show "i = j"
    proof (cases "i = k")
      case True
      then have "v = a" using *(1) by simp
      then show ?thesis using True *(2,3) ba b(2) [of j w] by (cases "j = k") auto
    next
      case False
      then show ?thesis using * ba b(2) [of i v] r(10) [of i v j w] by (cases "j = k") auto
    qed
  qed (use ld(3) h r a b in \<open>auto simp: pc' split: if_splits\<close>)
  moreover have "card (dom (m(k \<mapsto> a))) = pc_himem_last_allocated_block pc'"
    using c mk by (simp add: pc' card_insert_if domIff)
  ultimately have "pc_inv pc' (m(k \<mapsto> a))" by (simp add: pc_inv_def)
  moreover have "pages pc' (m(k \<mapsto> a)) = (pages pc m)(k \<mapsto> buff)"
  proof
    fix j
    show "pages pc' (m(k \<mapsto> a)) j = ((pages pc m)(k \<mapsto> buff)) j"
    proof (cases "j = k")
      case True
      then show ?thesis using a(2) h(5) by (simp add: pages_def it) (simp add: pc')
    next
      case False
      have "pages pc' m j = pages pc m j"
        using h(6) b(2) pc_block_lt [OF p] by (cases "m j") (simp_all add: pages_def it, simp add: pc')
      then show ?thesis using False by (simp add: pages_def)
    qed
  qed
  ultimately show ?thesis using h(1) ld(1,2) pc' by (intro exI conjI) assumption+
qed

lemma pc_inv_finite: "pc_inv pc m \<Longrightarrow> finite (dom m)"
  using lru_holds_count(1) by (auto simp: pc_inv_def pc_part_def tl.in_step_def)

lemma pc_new_item_fresh:
  assumes inv: "pc_inv pc m" and mk: "m k = None"
    and room: "pc_himem_last_allocated_block pc < pc_himem_maximum_blocks pc"
  shows "\<exists>a b pc'. pc_new_item f pc k ctx = Some (a, b, pc', ctx) \<and> pc_ready pc' m k a b \<and>
    pages pc' m = pages pc m \<and> pc_page_size pc' = pc_page_size pc"
proof -
  have p: "pc_part pc m" using inv by (rule pc_inv_part)
  note r = pc_partD [OF p]
  let ?b = "pc_himem_last_allocated_block pc"
  obtain a items where al: "heap_alloc \<lparr>page_number = k, block_id = ?b\<rparr> (pc_items pc) = (a, items)"
    by (cases "heap_alloc \<lparr>page_number = k, block_id = ?b\<rparr> (pc_items pc)")
  note h = heap_alloc_spec [OF r(6) al]
  obtain pc' where pc': "pc' = pc\<lparr>pc_himem_last_allocated_block := ?b + 1, pc_items := items\<rparr>" by simp
  have old: "heap_get items v = heap_get (pc_items pc) v" if "m j = Some v" for j v
    using h(3,4) r(7) [OF that] by auto
  have it: "item_in pc' v = item_in pc v" if "m j = Some v" for j v
    using old [OF that] by (simp add: item_in_def pc')
  have "pc_part pc' m"
    unfolding pc_part_def
  proof (intro conjI allI impI)
    fix j v assume j: "m j = Some v"
    show "heap_get (pc_items pc') v = Some (item_in pc' v)" using old [OF j] it [OF j] r(7) [OF j] by (simp add: pc')
    show "page_number (item_in pc' v) = j" using it [OF j] r(8) [OF j] by simp
    show "block_id (item_in pc' v) < pc_himem_last_allocated_block pc'" using it [OF j] r(9) [OF j] by (simp add: pc')
  next
    fix i j v w assume *: "m i = Some v" "m j = Some w" "block_id (item_in pc' v) = block_id (item_in pc' w)"
    then show "i = j" using it [OF *(1)] it [OF *(2)] r(10) [OF *(1,2)] by simp
  qed (use r h room in \<open>simp_all add: pc'\<close>)
  moreover have "block_id (item_in pc' v) \<noteq> ?b" if "m j = Some v" for j v
    using it [OF that] r(9) [OF that] by simp
  moreover have "heap_get (pc_items pc') a = Some \<lparr>page_number = k, block_id = ?b\<rparr>" using h(4) by (simp add: pc')
  ultimately have "pc_ready pc' m k a ?b"
    using mk h(2) inv pc_inv_finite [OF inv] by (simp add: pc_ready_def pc_inv_def) (simp add: pc')
  moreover have "pages pc' m = pages pc m"
  proof
    fix j show "pages pc' m j = pages pc m j"
      using it by (cases "m j") (simp_all add: pages_def, simp add: pc')
  qed
  moreover have "pc_new_item f pc k ctx = Some (a, ?b, pc', ctx)"
    using room al by (simp add: pc_new_item_def pc' Let_def)
  ultimately show ?thesis by (intro exI conjI) (assumption | simp add: pc')+
qed

lemma pc_new_item_evict:
  assumes inv: "pc_inv pc m" and mk: "m k = None"
    and full: "\<not> pc_himem_last_allocated_block pc < pc_himem_maximum_blocks pc"
  shows "\<exists>q bs a b pc'. pages pc m q = Some bs \<and>
    pc_new_item f pc k ctx = map_option (\<lambda>ctx'. (a, b, pc', ctx')) (f q bs ctx) \<and>
    pc_ready pc' (m(q := None)) k a b \<and> pages pc' (m(q := None)) = (pages pc m)(q := None) \<and>
    pc_page_size pc' = pc_page_size pc"
proof -
  have p: "pc_part pc m" using inv by (rule pc_inv_part)
  note r = pc_partD [OF p]
  have card: "card (dom m) = pc_himem_last_allocated_block pc" using inv by (simp add: pc_inv_def)
  then have "m \<noteq> Map.empty" using full r(12) by auto
  then obtain q v where q: "m q = Some v" "lru_cache_get_least_recently_used (pc_lru_cache pc) = Some v"
    using lru_holds_least [of "pc_lru_cache pc" m] r(1) by (auto simp: tl.in_step_def)
  obtain bs where bs: "pages pc m q = Some bs" using q(1) by (simp add: pages_def)
  note itv = r(7,8) [OF q(1)]
  let ?b = "block_id (item_in pc v)"
  obtain l where l: "lru_holds l (m(q := None))"
    "lru_cache_remove (pc_on_page_flush f) (pc_lru_cache pc) q (pc, ctx) =
       map_option (\<lambda>ctx'. (l, ctx')) (pc_on_page_flush f q v (pc, ctx))"
    using lru_holds_remove [of "pc_lru_cache pc" m q v "pc_on_page_flush f" "(pc, ctx)"] q(1) r(1)
    by (auto simp: tl.in_step_def)
  obtain d where d: "direct_cache_remove (pc_direct_cache pc) q = Some d" "tl.in_step d l (m(q := None))"
    using tl.two_level_drop [OF r(1) l(1)] by blast
  let ?items = "heap_put v ((item_in pc v)\<lparr>page_number := k\<rparr>) (pc_items pc)"
  obtain pc' where pc': "pc' = pc\<lparr>pc_flush_buffer := bs, pc_lru_cache := l, pc_direct_cache := d, pc_items := ?items\<rparr>" by simp
  have new: "pc_new_item f pc k ctx = map_option (\<lambda>ctx'. (v, ?b, pc', ctx')) (f q bs ctx)"
    using full q(2) itv l(2) pc_on_page_flush_spec [OF p q(1) refl bs, of f ctx] d(1)
    by (cases "f q bs ctx") (simp_all add: pc_new_item_def pc')
  have other: "w \<noteq> v" if "(m(q := None)) j = Some w" for j w
    using that q(1) r(8) [of j w] r(8) [OF q(1)] by (auto split: if_splits)
  have mj: "m j = Some w" if "(m(q := None)) j = Some w" for j w using that by (simp split: if_splits)
  have it: "item_in pc' w = item_in pc w" if "(m(q := None)) j = Some w" for j w
    using other [OF that] by (simp add: item_in_def pc')
  have "pc_part pc' (m(q := None))"
    unfolding pc_part_def
  proof (intro conjI allI impI)
    fix j w assume j: "(m(q := None)) j = Some w"
    show "heap_get (pc_items pc') w = Some (item_in pc' w)"
      using other [OF j] it [OF j] r(7) [OF mj [OF j]] by (simp add: pc')
    show "page_number (item_in pc' w) = j" using it [OF j] r(8) [OF mj [OF j]] by simp
    show "block_id (item_in pc' w) < pc_himem_last_allocated_block pc'"
      using it [OF j] r(9) [OF mj [OF j]] by (simp add: pc')
  next
    fix i j x w assume *: "(m(q := None)) i = Some x" "(m(q := None)) j = Some w"
      "block_id (item_in pc' x) = block_id (item_in pc' w)"
    then show "i = j" using it [OF *(1)] it [OF *(2)] r(10) [OF mj [OF *(1)] mj [OF *(2)]] by simp
  next
    show "length (pc_flush_buffer pc') = pc_page_size pc'"
      using pages_length [of pc "pages pc m" q bs] inv bs by (auto simp: pc' pc_holds_def)
  qed (use r d(2) heap_wf_put [OF r(6) itv(1)] in \<open>simp_all add: pc'\<close>)
  moreover have "block_id (item_in pc' w) \<noteq> ?b" if "(m(q := None)) j = Some w" for j w
    using it [OF that] r(10) [OF mj [OF that] q(1)] that by auto
  moreover have "heap_get (pc_items pc') v = Some \<lparr>page_number = k, block_id = ?b\<rparr>"
    by (simp add: pc')
  moreover have "Suc (card (dom (m(q := None)))) = pc_himem_last_allocated_block pc'"
    using card q(1) pc_inv_finite [OF inv] card_Suc_Diff1 [of "dom m" q] by (auto simp: pc' domIff)
  moreover have "(m(q := None)) k = None" using mk by simp
  moreover have "v \<noteq> NULL" using pc_nonnull [OF p q(1)] .
  moreover have "?b < pc_himem_last_allocated_block pc'" using r(9) [OF q(1)] by (simp add: pc')
  moreover have "finite (dom (m(q := None)))" using pc_inv_finite [OF inv] by simp
  ultimately have rd: "pc_ready pc' (m(q := None)) k v ?b" unfolding pc_ready_def by blast
  have "pages pc' (m(q := None)) = (pages pc m)(q := None)"
  proof
    fix j show "pages pc' (m(q := None)) j = ((pages pc m)(q := None)) j"
    proof (cases "(m(q := None)) j")
      case None
      then show ?thesis by (auto simp: pages_def split: if_splits)
    next
      case (Some w)
      then have "j \<noteq> q" by auto
      then show ?thesis using it [OF Some] Some by (simp add: pages_def) (simp add: pc')
    qed
  qed
  then show ?thesis using bs new rd by (intro exI conjI) (assumption | simp add: pc')+
qed

lemma page_cache_set_hit:
  assumes inv: "pc_inv pc m" and v: "m k = Some v" and len: "length buff = pc_page_size pc"
  shows "\<exists>pc'. page_cache_set f pc k buff ctx = Some (pc', ctx) \<and> pc_inv pc' m \<and>
    pages pc' m = (pages pc m)(k \<mapsto> buff) \<and> pc_page_size pc' = pc_page_size pc"
proof -
  obtain l where l: "pc_find pc k = Some (v, pc\<lparr>pc_lru_cache := l\<rparr>)"
    "pc_inv (pc\<lparr>pc_lru_cache := l\<rparr>) m" "pages (pc\<lparr>pc_lru_cache := l\<rparr>) m = pages pc m"
    using pc_find_spec [OF inv, of k] v by auto
  let ?pc1 = "pc\<lparr>pc_lru_cache := l\<rparr>"
  have p: "pc_part pc m" using inv by (rule pc_inv_part)
  note r = pc_partD [OF p]
  have p1: "pc_part ?pc1 m" using l(2) by (rule pc_inv_part)
  have it: "item_in (pc\<lparr>pc_lru_cache := l', pc_himem := h\<rparr>) = item_in pc" for l' h
    by (simp add: item_in_def fun_eq_iff)
  let ?b = "block_id (item_in pc v)"
  obtain h where h: "himem_write (pc_himem pc) ?b buff (pc_page_size pc) = Some (pc_page_size pc, h)" "himem_ok h"
    "himem_blocks h = himem_blocks (pc_himem pc)" "himem_block_size h = himem_block_size (pc_himem pc)"
    "himem_block h ?b = buff" "\<forall>c. c < himem_blocks (pc_himem pc) \<longrightarrow> c \<noteq> ?b \<longrightarrow> himem_block h c = himem_block (pc_himem pc) c"
    using himem.write_block [OF r(2) pc_block_lt [OF p v], of buff] r(3) len by auto
  let ?pc' = "?pc1\<lparr>pc_himem := h\<rparr>"
  have "pc_inv ?pc' m"
    using pc_part_himem [OF p1, of h] h(2-4) l(2) by (simp add: pc_inv_def)
  moreover have "pages ?pc' m = (pages pc m)(k \<mapsto> buff)"
  proof
    fix j show "pages ?pc' m j = ((pages pc m)(k \<mapsto> buff)) j"
    proof (cases "j = k")
      case True
      then show ?thesis using v h(5) by (simp add: pages_def it)
    next
      case False
      then show ?thesis using h(6) pc_block_lt [OF p, of j] r(10) [OF _ v, of j]
        by (cases "m j") (auto simp: pages_def it)
    qed
  qed
  moreover have "page_cache_set f pc k buff ctx = Some (?pc', ctx)"
    using l(1) pc_nonnull [OF p v] r(7) [OF v] h(1) by (simp add: page_cache_set_def)
  ultimately show ?thesis by (intro exI conjI) (assumption | simp)+
qed

lemma page_cache_set_ready:
  assumes find: "pc_find pc k = Some (NULL, pc1)"
    and new: "pc_new_item f pc1 k ctx = Some (a, b, pc2, ctx')"
    and rd: "pc_ready pc2 m k a b" and len: "length buff = pc_page_size pc2"
  shows "\<exists>pc'. page_cache_set f pc k buff ctx = Some (pc', ctx') \<and> pc_inv pc' (m(k \<mapsto> a)) \<and>
    pages pc' (m(k \<mapsto> a)) = (pages pc2 m)(k \<mapsto> buff) \<and> pc_page_size pc' = pc_page_size pc2"
proof -
  obtain h l d pc' where w: "himem_write (pc_himem pc2) b buff (pc_page_size pc2) = Some (pc_page_size pc2, h)"
    "lru_cache_add (pc_lru_cache pc2) k a = Some l" "direct_cache_set (pc_direct_cache pc2) k a = Some d"
    and pc': "pc' = pc2\<lparr>pc_himem := h, pc_lru_cache := l, pc_direct_cache := d\<rparr>"
    and inv: "pc_inv pc' (m(k \<mapsto> a))" "pages pc' (m(k \<mapsto> a)) = (pages pc2 m)(k \<mapsto> buff)"
    using page_cache_store_ready [OF rd len] by (elim exE conjE) (rule that)
  have "page_cache_set f pc k buff ctx = Some (pc', ctx')"
    using find new w by (simp add: page_cache_set_def pc')
  then show ?thesis using inv by (intro exI conjI) (assumption | simp add: pc')+
qed

text \<open>
  Storing a page: the cached pages change at that page, and at most one other page is taken out, after
  it went through the client's callback with its contents.
\<close>

lemma page_cache_set_spec:
  assumes "pc_holds pc P" and len: "length buff = pc_page_size pc"
  shows "(\<exists>pc'. page_cache_set f pc k buff ctx = Some (pc', ctx) \<and> pc_holds pc' (P(k \<mapsto> buff)) \<and>
      pc_page_size pc' = pc_page_size pc) \<or>
    (\<exists>q bs. q \<noteq> k \<and> P k = None \<and> P q = Some bs \<and>
      (f q bs ctx = None \<longrightarrow> page_cache_set f pc k buff ctx = None) \<and>
      (\<forall>ctx'. f q bs ctx = Some ctx' \<longrightarrow> (\<exists>pc'. page_cache_set f pc k buff ctx = Some (pc', ctx') \<and>
        pc_holds pc' (P(q := None, k \<mapsto> buff)) \<and> pc_page_size pc' = pc_page_size pc)))"
proof -
  obtain m where m: "pc_inv pc m" "P = pages pc m" using assms(1) by (auto simp: pc_holds_def)
  show ?thesis
  proof (cases "m k")
    case (Some v)
    obtain pc' where "page_cache_set f pc k buff ctx = Some (pc', ctx)" "pc_inv pc' m"
      "pages pc' m = (pages pc m)(k \<mapsto> buff)" "pc_page_size pc' = pc_page_size pc"
      using page_cache_set_hit [OF m(1) Some len, of f ctx] by blast
    then show ?thesis using pc_holdsI m(2) by blast
  next
    case mk: None
    obtain l where l: "pc_find pc k = Some (NULL, pc\<lparr>pc_lru_cache := l\<rparr>)"
      "pc_inv (pc\<lparr>pc_lru_cache := l\<rparr>) m" "pages (pc\<lparr>pc_lru_cache := l\<rparr>) m = pages pc m"
      using pc_find_spec [OF m(1), of k] mk by auto
    show ?thesis
    proof (cases "pc_himem_last_allocated_block pc < pc_himem_maximum_blocks pc")
      case True
      then obtain a b pc2 where n: "pc_new_item f (pc\<lparr>pc_lru_cache := l\<rparr>) k ctx = Some (a, b, pc2, ctx)"
        "pc_ready pc2 m k a b" "pages pc2 m = pages pc m" "pc_page_size pc2 = pc_page_size pc"
        using pc_new_item_fresh [OF l(2) mk, of f ctx] l(3) by auto
      then obtain pc' where "page_cache_set f pc k buff ctx = Some (pc', ctx)" "pc_inv pc' (m(k \<mapsto> a))"
        "pages pc' (m(k \<mapsto> a)) = (pages pc m)(k \<mapsto> buff)" "pc_page_size pc' = pc_page_size pc"
        using page_cache_set_ready [OF l(1) n(1,2), of buff] len by auto
      then show ?thesis using pc_holdsI m(2) by blast
    next
      case False
      then obtain q bs a b pc2 where e: "pages pc m q = Some bs"
        "pc_new_item f (pc\<lparr>pc_lru_cache := l\<rparr>) k ctx = map_option (\<lambda>ctx'. (a, b, pc2, ctx')) (f q bs ctx)"
        "pc_ready pc2 (m(q := None)) k a b" "pages pc2 (m(q := None)) = (pages pc m)(q := None)"
        "pc_page_size pc2 = pc_page_size pc"
        using pc_new_item_evict [OF l(2) mk, of f ctx] l(3) by auto
      have qk: "q \<noteq> k" "P k = None" using e(1) mk m(2) by (auto simp: pages_def)
      have "\<exists>pc'. page_cache_set f pc k buff ctx = Some (pc', ctx') \<and>
        pc_holds pc' (P(q := None, k \<mapsto> buff)) \<and> pc_page_size pc' = pc_page_size pc" if f: "f q bs ctx = Some ctx'" for ctx'
      proof -
        obtain pc' where "page_cache_set f pc k buff ctx = Some (pc', ctx')"
          "pc_inv pc' ((m(q := None))(k \<mapsto> a))" "pages pc' ((m(q := None))(k \<mapsto> a)) = (pages pc m)(q := None, k \<mapsto> buff)"
          "pc_page_size pc' = pc_page_size pc"
          using page_cache_set_ready [OF l(1) _ e(3), of f ctx ctx' buff] e(2,4,5) f len by auto
        then show ?thesis using pc_holdsI m(2) by blast
      qed
      moreover have "page_cache_set f pc k buff ctx = None" if "f q bs ctx = None"
        using that l(1) e(2) by (simp add: page_cache_set_def)
      moreover have "P q = Some bs" using e(1) m(2) by simp
      ultimately show ?thesis using qk by (intro disjI2 exI [of _ q] exI [of _ bs]) simp
    qed
  qed
qed

subsection \<open>Creation\<close>

lemma page_cache_init_spec:
  assumes "page_size < 65536" and "blocks < 65536" and "0 < blocks" and "page_size * blocks < int_limit"
  shows "\<exists>pc. page_cache_init junk junk_ptr page_size blocks = Some pc \<and> pc_holds pc Map.empty \<and>
    pc_page_size pc = page_size"
proof -
  obtain h where h: "himem_allocator_init junk page_size blocks = Some h" "himem_ok h" "himem_blocks h = blocks"
    "himem_block_size h = page_size" using himem_init [OF assms(1,2,4)] by blast
  let ?pc = "\<lparr>pc_lru_cache = lru_cache_init, pc_direct_cache = direct_cache_init junk_ptr 2048,
       pc_page_size = page_size, pc_himem_maximum_blocks = blocks,
       pc_himem_last_allocated_block = 0, pc_himem = h,
       pc_flush_buffer = map junk [0..<page_size], pc_items = heap_empty\<rparr>"
  have "pc_inv ?pc Map.empty" using h assms(3) in_step_init [of 2048 junk_ptr]
    by (simp add: pc_inv_def pc_part_def)
  moreover have "pages ?pc Map.empty = Map.empty" by (simp add: pages_def fun_eq_iff)
  ultimately have "pc_holds ?pc Map.empty" unfolding pc_holds_def by metis
  then show ?thesis using h(1) by (simp add: page_cache_init_def)
qed

subsection \<open>Properties\<close>

text \<open>C6: \<open>page_cache_set\<close> makes the page readable with exactly these bytes and keeps every
  other cached page, except at most one: when the blocks are used up, that one is handed to the
  client's callback with its contents before its block is reused.\<close>

theorem page_cache_set_correct:
  assumes "pc_holds pc P" and "length buff = pc_page_size pc"
  shows "(\<exists>pc'. page_cache_set f pc k buff ctx = Some (pc', ctx) \<and> pc_holds pc' (P(k \<mapsto> buff)) \<and>
      pc_page_size pc' = pc_page_size pc) \<or>
    (\<exists>q bs. q \<noteq> k \<and> P k = None \<and> P q = Some bs \<and>
      (f q bs ctx = None \<longrightarrow> page_cache_set f pc k buff ctx = None) \<and>
      (\<forall>ctx'. f q bs ctx = Some ctx' \<longrightarrow> (\<exists>pc'. page_cache_set f pc k buff ctx = Some (pc', ctx') \<and>
        pc_holds pc' (P(q := None, k \<mapsto> buff)) \<and> pc_page_size pc' = pc_page_size pc)))"
  using assms by (rule page_cache_set_spec)

lemma page_cache_set_correct_witness:
  "\<exists>pc pc'. page_cache_init (\<lambda>_. 0) (\<lambda>_. 0) 2 1 = Some pc \<and>
    page_cache_set (\<lambda>k bs ctx. Some ((k, bs) # ctx)) pc 7 [1, 2] [] = Some (pc', []) \<and>
    pc_holds pc' [7 \<mapsto> [1, 2]]"
proof -
  obtain pc where pc: "page_cache_init (\<lambda>_. 0) (\<lambda>_. 0) 2 1 = Some pc" "pc_holds pc Map.empty" "pc_page_size pc = 2"
    using page_cache_init_spec [of 2 1 "\<lambda>_. 0" "\<lambda>_. 0"] by (auto simp: int_limit_def)
  then show ?thesis
    using page_cache_set_correct [OF pc(2), of "[1, 2]" "\<lambda>k bs ctx. Some ((k, bs) # ctx)" 7 "[]"] by auto
qed

text \<open>\<open>page_cache_get\<close> returns the bytes of a cached page, or false with the buffer as it
  was, and the cached pages stay the same.\<close>

theorem page_cache_get_correct:
  assumes "pc_holds pc P" and "length buff = pc_page_size pc"
  shows "\<exists>pc'. page_cache_get pc k buff =
      Some (case P k of None \<Rightarrow> (False, buff, pc') | Some bs \<Rightarrow> (True, bs, pc')) \<and>
    pc_holds pc' P \<and> pc_page_size pc' = pc_page_size pc"
  using assms by (rule page_cache_get_spec)

lemma page_cache_get_correct_witness:
  "\<exists>pc pc'. page_cache_init (\<lambda>_. 0) (\<lambda>_. 0) 2 1 = Some pc \<and> page_cache_get pc 7 [5, 6] = Some (False, [5, 6], pc')"
proof -
  obtain pc where pc: "page_cache_init (\<lambda>_. 0) (\<lambda>_. 0) 2 1 = Some pc" "pc_holds pc Map.empty" "pc_page_size pc = 2"
    using page_cache_init_spec [of 2 1 "\<lambda>_. 0" "\<lambda>_. 0"] by (auto simp: int_limit_def)
  then show ?thesis using page_cache_get_correct [OF pc(2), of "[5, 6]" 7] by auto
qed

end
