(* ===== verification/Vmm.thy ===== *)
theory Vmm
  imports PageCache
begin

section \<open>The virtual memory (lib/VMM)\<close>

text \<open>
  \<open>vmm.c\<close>: a byte memory of \<open>maximum_size\<close> bytes in a page file, of which at most
  \<open>number_of_pages\<close> pages are in RAM. A page in RAM is a \<open>vmTable_t\<close>, found through a
  direct cache and an LRU cache; a dirty page that leaves RAM goes to the page cache in block
  memory, and from there to the file when the block is needed. The buffer of a table is stored in
  it.

  The page file is the list of its bytes. \<open>fseek\<close> and \<open>fwrite\<close> beyond its end fill
  the gap with zeros, \<open>fread\<close> stops at its end; they succeed, as on a working file system.
  What \<open>malloc\<close> returns is a parameter: the fields of a new table and the bytes of its
  buffer (\<open>vm_env\<close>).
\<close>

record vm_table =
  tab_page_number :: nat
  tab_page_address :: nat
  tab_page_cache :: "u8 list"
  tab_dirty :: bool

record vmm =
  vmm_page_size :: nat
  vmm_number_of_pages :: nat
  vmm_pagetable_size :: nat
  vmm_open :: bool
  vmm_file :: "u8 list"
  vmm_lru_cache :: lru_cache
  vmm_direct_cache :: direct_cache
  vmm_page_cache :: page_cache
  vmm_tables :: "vm_table heap"

record vm_env =
  fresh_table :: "addr \<Rightarrow> vm_table"
  fresh_bytes :: "addr \<Rightarrow> nat \<Rightarrow> u8"

definition file_write :: "u8 list \<Rightarrow> nat \<Rightarrow> u8 list \<Rightarrow> u8 list" where
  "file_write f pos bs =
     take pos f @ replicate (pos - length f) 0 @ bs @ drop (pos + length bs) f"

definition file_read :: "u8 list \<Rightarrow> nat \<Rightarrow> nat \<Rightarrow> u8 list" where
  "file_read f pos n = take n (drop pos f)"

subsection \<open>The backing store\<close>

definition get_page_number_by_address :: "vmm \<Rightarrow> nat \<Rightarrow> nat option" where
  "get_page_number_by_address v address =
     (if vmm_page_size v = 0 then None else Some (address div vmm_page_size v))"

definition get_TLB :: "vmm \<Rightarrow> nat \<Rightarrow> (addr \<times> vmm) option" where
  "get_TLB v page = do {
     t \<leftarrow> direct_cache_get (vmm_direct_cache v) page;
     if t \<noteq> NULL then Some (t, v)
     else do {
       (t, l) \<leftarrow> lru_cache_get (vmm_lru_cache v) page;
       let v = v\<lparr>vmm_lru_cache := l\<rparr>;
       if t \<noteq> NULL then Some (t, v) else Some (NULL, v)
     }
   }"

definition on_page_cache_flush :: "vmm page_flush" where
  "on_page_cache_flush page buf v = do {
     bytes \<leftarrow> mem_load buf 0 (vmm_page_size v);
     Some (v\<lparr>vmm_file := file_write (vmm_file v) (size_wrap (page * vmm_page_size v)) bytes\<rparr>)
   }"

definition backing_store_write :: "vmm \<Rightarrow> nat \<Rightarrow> u8 list \<Rightarrow> vmm option" where
  "backing_store_write v page buf = do {
     (pc, v) \<leftarrow> page_cache_set on_page_cache_flush (vmm_page_cache v) page buf v;
     Some (v\<lparr>vmm_page_cache := pc\<rparr>)
   }"

definition backing_store_read :: "vmm \<Rightarrow> nat \<Rightarrow> u8 list \<Rightarrow> nat \<Rightarrow> (u8 list \<times> vmm) option" where
  "backing_store_read v page buf buf_len = do {
     (found, buf, pc) \<leftarrow> page_cache_get (vmm_page_cache v) page buf;
     let v = v\<lparr>vmm_page_cache := pc\<rparr>;
     if found then Some (buf, v)
     else do {
       let bytes = file_read (vmm_file v) (size_wrap (page * vmm_page_size v)) buf_len;
       buf \<leftarrow> mem_store buf 0 bytes;
       buf \<leftarrow> (if length bytes = 0 then mem_store buf 0 (replicate buf_len 0) else Some buf);
       Some (buf, v)
     }
   }"

subsection \<open>Pages in RAM\<close>

text \<open>\<open>on_page_flush\<close>: the callback that the virtual memory gives to its LRU cache.\<close>

definition on_page_flush :: "vmm flush" where
  "on_page_flush key val v = do {
     page \<leftarrow> heap_get (vmm_tables v) val;
     if tab_dirty page then do {
       v \<leftarrow> backing_store_write v (tab_page_number page) (tab_page_cache page);
       tables \<leftarrow> heap_mod val (tab_dirty_update (\<lambda>_. False)) (vmm_tables v);
       Some (v\<lparr>vmm_tables := tables\<rparr>)
     } else Some v
   }"

definition free_vmtable :: "vmm \<Rightarrow> addr \<Rightarrow> vmm option" where
  "free_vmtable v entry = do {
     t \<leftarrow> heap_get (vmm_tables v) entry;
     (l, v) \<leftarrow> lru_cache_remove on_page_flush (vmm_lru_cache v) (tab_page_number t) v;
     let v = v\<lparr>vmm_lru_cache := l\<rparr>;
     t \<leftarrow> heap_get (vmm_tables v) entry;
     d \<leftarrow> direct_cache_remove (vmm_direct_cache v) (tab_page_number t);
     tables \<leftarrow> heap_free entry (vmm_tables v);
     Some (v\<lparr>vmm_direct_cache := d, vmm_tables := tables\<rparr>)
   }"

definition new_vmtable :: "vm_env \<Rightarrow> vmm \<Rightarrow> addr \<times> vmm" where
  "new_vmtable env v =
     (let a = next_addr (vmm_tables v);
          (entry, tables) = heap_alloc
            ((fresh_table env a)\<lparr>tab_page_cache := map (fresh_bytes env a) [0..<vmm_page_size v]\<rparr>)
            (vmm_tables v)
      in (entry, v\<lparr>vmm_tables := tables\<rparr>))"

definition find_empty_TLB :: "vm_env \<Rightarrow> vmm \<Rightarrow> (addr \<times> vmm) option" where
  "find_empty_TLB env v = do {
     v \<leftarrow> (if vmm_pagetable_size v \<ge> vmm_number_of_pages v then do {
         last_page \<leftarrow> lru_cache_get_least_recently_used (vmm_lru_cache v);
         if last_page \<noteq> NULL then do {
           v \<leftarrow> free_vmtable v last_page;
           Some (v\<lparr>vmm_pagetable_size := vmm_pagetable_size v - 1\<rparr>)
         } else Some v
       } else Some v);
     let (page, v) = new_vmtable env v;
     Some (page, v\<lparr>vmm_pagetable_size := vmm_pagetable_size v + 1\<rparr>)
   }"

definition load_page :: "vmm \<Rightarrow> nat \<Rightarrow> addr \<Rightarrow> vmm option" where
  "load_page v pno page = do {
     t \<leftarrow> heap_get (vmm_tables v) page;
     (buf, v) \<leftarrow> backing_store_read v pno (tab_page_cache t) (vmm_page_size v);
     tables \<leftarrow> heap_mod page (tab_page_cache_update (\<lambda>_. buf)) (vmm_tables v);
     Some (v\<lparr>vmm_tables := tables\<rparr>)
   }"

definition get_page :: "vm_env \<Rightarrow> vmm \<Rightarrow> addr \<Rightarrow> (addr \<times> vmm) option" where
  "get_page env v addr = do {
     pno \<leftarrow> get_page_number_by_address v addr;
     let page_offset = pno * vmm_page_size v;
     (page, v) \<leftarrow> get_TLB v pno;
     if page \<noteq> NULL then Some (page, v)
     else do {
       (page, v) \<leftarrow> find_empty_TLB env v;
       tables \<leftarrow> heap_mod page (tab_page_number_update (\<lambda>_. pno)) (vmm_tables v);
       tables \<leftarrow> heap_mod page (tab_page_address_update (\<lambda>_. page_offset)) tables;
       v \<leftarrow> load_page (v\<lparr>vmm_tables := tables\<rparr>) pno page;
       l \<leftarrow> lru_cache_add (vmm_lru_cache v) pno page;
       let v = v\<lparr>vmm_lru_cache := l\<rparr>;
       d \<leftarrow> direct_cache_set (vmm_direct_cache v) pno page;
       Some (page, v\<lparr>vmm_direct_cache := d\<rparr>)
     }
   }"

subsection \<open>Reading and writing\<close>

text \<open>
  The two loops advance by the bytes that the page still holds; a page of size 0 would make them
  undefined (a division by zero) in the first round.
\<close>

definition vmm_read_internal :: "vm_env \<Rightarrow> vmm \<Rightarrow> nat \<Rightarrow> nat \<Rightarrow> (u8 list \<times> vmm) option" where
  "vmm_read_internal env v addr len = do {
     (page, v) \<leftarrow> get_page env v addr;
     t \<leftarrow> heap_get (vmm_tables v) page;
     let offset = addr - tab_page_address t;
     let max_length = vmm_page_size v - offset;
     let len = min len max_length;
     bytes \<leftarrow> mem_load (tab_page_cache t) offset len;
     Some (bytes, v)
   }"

partial_function (option) vmm_read_loop ::
  "vm_env \<Rightarrow> vmm \<Rightarrow> nat \<Rightarrow> u8 list \<Rightarrow> nat \<Rightarrow> nat \<Rightarrow> (u8 list \<times> vmm) option" where
  "vmm_read_loop env v addr target offset remain =
     (if remain = 0 then Some (target, v)
      else Option.bind (vmm_read_internal env v (size_wrap (addr + offset)) remain) (\<lambda>(bytes, v).
        Option.bind (mem_store target offset bytes) (\<lambda>target.
          vmm_read_loop env v addr target (offset + length bytes) (remain - length bytes))))"

definition vmm_read :: "vm_env \<Rightarrow> vmm \<Rightarrow> nat \<Rightarrow> u8 list \<Rightarrow> nat \<Rightarrow> (u8 list \<times> vmm) option" where
  "vmm_read env v addr target len = vmm_read_loop env v addr target 0 len"

text \<open>The source of a write is the rest of the caller's buffer.\<close>

definition vmm_write_internal :: "vm_env \<Rightarrow> vmm \<Rightarrow> nat \<Rightarrow> u8 list \<Rightarrow> nat \<Rightarrow> (nat \<times> vmm) option" where
  "vmm_write_internal env v addr source len = do {
     (page, v) \<leftarrow> get_page env v addr;
     guard (page \<noteq> NULL);
     t \<leftarrow> heap_get (vmm_tables v) page;
     let offset = addr - tab_page_address t;
     let max_length = vmm_page_size v - offset;
     let len = min len max_length;
     bytes \<leftarrow> mem_load source 0 len;
     buf \<leftarrow> mem_store (tab_page_cache t) offset bytes;
     tables \<leftarrow> heap_mod page (tab_page_cache_update (\<lambda>_. buf)) (vmm_tables v);
     tables \<leftarrow> heap_mod page (tab_dirty_update (\<lambda>_. True)) tables;
     Some (len, v\<lparr>vmm_tables := tables\<rparr>)
   }"

partial_function (option) vmm_write_loop ::
  "vm_env \<Rightarrow> vmm \<Rightarrow> nat \<Rightarrow> u8 list \<Rightarrow> nat \<Rightarrow> nat \<Rightarrow> vmm option" where
  "vmm_write_loop env v addr source offset remain =
     (if remain = 0 then Some v
      else Option.bind (vmm_write_internal env v (size_wrap (addr + offset)) (drop offset source) remain) (\<lambda>(n, v).
        vmm_write_loop env v addr source (offset + n) (remain - n)))"

definition vmm_write :: "vm_env \<Rightarrow> vmm \<Rightarrow> nat \<Rightarrow> u8 list \<Rightarrow> nat \<Rightarrow> vmm option" where
  "vmm_write env v addr source len = vmm_write_loop env v addr source 0 len"

subsection \<open>Flushing, creation, destruction\<close>

definition vmm_flush :: "vmm \<Rightarrow> vmm option" where
  "vmm_flush v = lru_cache_sync on_page_flush (vmm_lru_cache v) v"

text \<open>The loop of \<open>vmm_destroy\<close>; its bound is read again in every round.\<close>

partial_function (option) vmm_destroy_loop :: "vmm \<Rightarrow> nat \<Rightarrow> vmm option" where
  "vmm_destroy_loop v i =
     (if i < lru_cache_count (vmm_lru_cache v) then
        Option.bind (lru_cache_get_least_recently_used (vmm_lru_cache v)) (\<lambda>last_page.
          if last_page \<noteq> NULL then
            Option.bind (free_vmtable v last_page) (\<lambda>v.
              vmm_destroy_loop (v\<lparr>vmm_pagetable_size := vmm_pagetable_size v - 1\<rparr>) (i + 1))
          else vmm_destroy_loop v (i + 1))
      else Some v)"

text \<open>What is left after \<open>vmm_destroy\<close> is the page file.\<close>

definition vmm_destroy :: "vmm \<Rightarrow> u8 list option" where
  "vmm_destroy v = do {
     v \<leftarrow> vmm_destroy_loop v 0;
     v \<leftarrow> (if vmm_open v then vmm_flush v else Some v);
     (_, _, v) \<leftarrow> lru_cache_free on_page_flush (vmm_lru_cache v) v;
     Some (vmm_file v)
   }"

text \<open>
  \<open>vmm_create\<close>. The parameters after the environment are the contents of the fresh memory and
  whether \<open>fopen\<close> succeeds each time; a failure of the first is only logged, the stream is
  then NULL. The result is the virtual memory, or NULL (the inner \<open>None\<close>) when the file
  cannot be opened again.
\<close>

definition vmm_create ::
  "(nat \<Rightarrow> u8) \<Rightarrow> (nat \<Rightarrow> addr) \<Rightarrow> (nat \<Rightarrow> addr) \<Rightarrow> bool \<Rightarrow> bool \<Rightarrow> string \<Rightarrow> nat \<Rightarrow> nat \<Rightarrow> nat \<Rightarrow> nat \<Rightarrow>
     vmm option option" where
  "vmm_create junk junk_lines junk_lines' created reopened pagefile maximum_size page_size
     number_of_pages maximum_himem_blocks = do {
     guard (length pagefile < 255);
     pc \<leftarrow> page_cache_init junk junk_lines' page_size maximum_himem_blocks;
     guard created;
     let v = \<lparr>vmm_page_size = page_size, vmm_number_of_pages = number_of_pages,
       vmm_pagetable_size = 0, vmm_open = reopened, vmm_file = replicate (maximum_size + 1) 0,
       vmm_lru_cache = lru_cache_init, vmm_direct_cache = direct_cache_init junk_lines (1024 * 8),
       vmm_page_cache = pc, vmm_tables = heap_empty\<rparr>;
     if reopened then Some (Some v)
     else do {
       _ \<leftarrow> vmm_destroy v;
       Some None
     }
   }"

end
