(* ===== verification/VmmBacking.thy ===== *)
theory VmmBacking
  imports Vmm
begin

section \<open>The backing store of the virtual memory\<close>

text \<open>
  The page cache over the page file behaves as one array of pages: a page written is the page read back later, whether it is still in block memory or has been moved to the file in between. The bytes
  that count are those below the size \<open>M\<close> the file was created with.
\<close>

lemma length_file_write: "length (file_write f pos bs) = max (length f) (pos + length bs)"
  by (simp add: file_write_def)

lemma nth_file_write:
  assumes "i < length f"
  shows "file_write f pos bs ! i = (if pos \<le> i \<and> i < pos + length bs then bs ! (i - pos) else f ! i)"
proof (cases "pos \<le> length f")
  case True
  then show ?thesis using assms by (auto simp: file_write_def nth_append min_def)
next
  case False
  then show ?thesis using assms by (auto simp: file_write_def nth_append)
qed

definition stored :: "vmm \<Rightarrow> (nat \<rightharpoonup> u8 list) \<Rightarrow> nat \<Rightarrow> nat \<Rightarrow> u8" where
  "stored v P k i = (case P k of Some bs \<Rightarrow> bs ! i | None \<Rightarrow> vmm_file v ! (k * vmm_page_size v + i))"

definition backing_ok :: "nat \<Rightarrow> vmm \<Rightarrow> (nat \<rightharpoonup> u8 list) \<Rightarrow> bool" where
  "backing_ok M v P \<longleftrightarrow>
     0 < vmm_page_size v \<and> M \<le> size_limit \<and> M \<le> length (vmm_file v) \<and>
     pc_holds (vmm_page_cache v) P \<and> pc_page_size (vmm_page_cache v) = vmm_page_size v \<and>
     (\<forall>k\<in>dom P. k * vmm_page_size v < M)"

lemma backing_okD:
  assumes "backing_ok M v P"
  shows "0 < vmm_page_size v" "M \<le> size_limit" "M \<le> length (vmm_file v)" "pc_holds (vmm_page_cache v) P"
    "pc_page_size (vmm_page_cache v) = vmm_page_size v" "\<And>k bs. P k = Some bs \<Longrightarrow> k * vmm_page_size v < M"
    "\<And>k bs. P k = Some bs \<Longrightarrow> length bs = vmm_page_size v"
proof -
  show 1: "0 < vmm_page_size v" "M \<le> size_limit" "M \<le> length (vmm_file v)" "pc_holds (vmm_page_cache v) P"
    "pc_page_size (vmm_page_cache v) = vmm_page_size v"
    using assms by (simp_all add: backing_ok_def)
  show "k * vmm_page_size v < M" if "P k = Some bs" for k bs
    using assms that by (auto simp: backing_ok_def dom_def)
  show "length bs = vmm_page_size v" if "P k = Some bs" for k bs
    using pages_length [OF 1(4) that] 1(5) by simp
qed

lemma page_range:
  assumes "(i::nat) < n" and "k * n \<le> j * n + i" and "j * n + i < k * n + n"
  shows "j = k"
proof (rule linorder_cases [of j k])
  assume "j < k"
  then have "Suc j * n \<le> k * n" by (intro mult_le_mono1) simp
  then show ?thesis using assms by simp
next
  assume "k < j"
  then have "Suc k * n \<le> j * n" by (intro mult_le_mono1) simp
  then show ?thesis using assms by simp
qed

lemma backing_store_read_spec:
  assumes ok: "backing_ok M v P" and len: "length buf = vmm_page_size v" and k: "k * vmm_page_size v < M"
  shows "\<exists>buf' pc. backing_store_read v k buf (vmm_page_size v) = Some (buf', v\<lparr>vmm_page_cache := pc\<rparr>) \<and>
    backing_ok M (v\<lparr>vmm_page_cache := pc\<rparr>) P \<and> length buf' = vmm_page_size v \<and>
    (\<forall>i < vmm_page_size v. k * vmm_page_size v + i < M \<longrightarrow> buf' ! i = stored v P k i)"
proof -
  note r = backing_okD [OF ok]
  let ?ps = "vmm_page_size v"
  obtain pc where pc: "page_cache_get (vmm_page_cache v) k buf =
      Some (case P k of None \<Rightarrow> (False, buf, pc) | Some bs \<Rightarrow> (True, bs, pc))"
    "pc_holds pc P" "pc_page_size pc = ?ps"
    using page_cache_get_spec [OF r(4), of buf k] len r(5) by auto
  have ok': "backing_ok M (v\<lparr>vmm_page_cache := pc\<rparr>) P" using ok pc by (simp add: backing_ok_def)
  show ?thesis
  proof (cases "P k")
    case (Some bs)
    then have "backing_store_read v k buf ?ps = Some (bs, v\<lparr>vmm_page_cache := pc\<rparr>)"
      using pc(1) by (simp add: backing_store_read_def)
    then show ?thesis using ok' r(7) [OF Some] Some by (intro exI conjI) (assumption | simp add: stored_def)+
  next
    case None
    have wrap: "size_wrap (k * ?ps) = k * ?ps" using k r(2) by simp
    let ?bytes = "file_read (vmm_file v) (k * ?ps) ?ps"
    have lb: "length ?bytes \<le> ?ps" "0 < length ?bytes"
      using k r(1,3) by (simp_all add: file_read_def)
    let ?buf = "splice buf 0 ?bytes"
    have "backing_store_read v k buf ?ps = Some (?buf, v\<lparr>vmm_page_cache := pc\<rparr>)"
      using pc(1) None lb len by (simp add: backing_store_read_def wrap)
    moreover have "length ?buf = ?ps" using lb len by simp
    moreover have "?buf ! i = stored v P k i" if "i < ?ps" "k * ?ps + i < M" for i
    proof -
      have "i < length ?bytes" using that r(3) by (simp add: file_read_def)
      moreover from this have "?bytes ! i = vmm_file v ! (k * ?ps + i)" using k r(3) by (simp add: file_read_def)
      ultimately show ?thesis using that lb len None by (simp add: nth_splice stored_def)
    qed
    ultimately show ?thesis using ok' by (intro exI conjI) (assumption | simp)+
  qed
qed

lemma on_page_cache_flush_spec:
  assumes "length bs = vmm_page_size v" and "k * vmm_page_size v < size_limit"
  shows "on_page_cache_flush k bs v =
    Some (v\<lparr>vmm_file := file_write (vmm_file v) (k * vmm_page_size v) bs\<rparr>)"
proof -
  have "slice bs 0 (vmm_page_size v) = bs" using slice_all [of bs] assms(1) by simp
  then show ?thesis using assms by (simp add: on_page_cache_flush_def)
qed

lemma backing_store_write_spec:
  assumes ok: "backing_ok M v P" and len: "length buf = vmm_page_size v" and k: "k * vmm_page_size v < M"
  shows "\<exists>pc f P'. backing_store_write v k buf = Some (v\<lparr>vmm_file := f, vmm_page_cache := pc\<rparr>) \<and>
    backing_ok M (v\<lparr>vmm_file := f, vmm_page_cache := pc\<rparr>) P' \<and>
    (\<forall>j i. i < vmm_page_size v \<longrightarrow> j * vmm_page_size v + i < M \<longrightarrow>
      stored (v\<lparr>vmm_file := f, vmm_page_cache := pc\<rparr>) P' j i = (if j = k then buf ! i else stored v P j i))"
proof -
  note r = backing_okD [OF ok]
  let ?ps = "vmm_page_size v"
  have len': "length buf = pc_page_size (vmm_page_cache v)" using len r(5) by simp
  note spec = page_cache_set_spec [OF r(4) len', of on_page_cache_flush k v]
  then show ?thesis
  proof (elim disjE exE conjE)
    fix pc assume pc: "page_cache_set on_page_cache_flush (vmm_page_cache v) k buf v = Some (pc, v)"
      "pc_holds pc (P(k \<mapsto> buf))" "pc_page_size pc = pc_page_size (vmm_page_cache v)"
    let ?v = "v\<lparr>vmm_file := vmm_file v, vmm_page_cache := pc\<rparr>"
    have "backing_store_write v k buf = Some ?v" using pc(1) by (simp add: backing_store_write_def)
    moreover have "backing_ok M ?v (P(k \<mapsto> buf))" using ok pc k r(5) by (auto simp: backing_ok_def)
    moreover have "stored ?v (P(k \<mapsto> buf)) j i = (if j = k then buf ! i else stored v P j i)" for j i
      by (simp add: stored_def split: option.split)
    ultimately show ?thesis by (intro exI conjI) (assumption | simp)+
  next
    fix q bs
    assume q: "q \<noteq> k" "P k = None" "P q = Some bs"
    assume s: "\<forall>v'. on_page_cache_flush q bs v = Some v' \<longrightarrow>
        (\<exists>pc'. page_cache_set on_page_cache_flush (vmm_page_cache v) k buf v = Some (pc', v') \<and>
           pc_holds pc' (P(q := None, k \<mapsto> buf)) \<and> pc_page_size pc' = pc_page_size (vmm_page_cache v))"
    have qM: "q * ?ps < M" "length bs = ?ps" using r(6,7) q(3) by auto
    let ?f = "file_write (vmm_file v) (q * ?ps) bs"
    have "on_page_cache_flush q bs v = Some (v\<lparr>vmm_file := ?f\<rparr>)"
      using on_page_cache_flush_spec [of bs v q] qM r(2) by simp
    then obtain pc where pc: "page_cache_set on_page_cache_flush (vmm_page_cache v) k buf v = Some (pc, v\<lparr>vmm_file := ?f\<rparr>)"
      "pc_holds pc (P(q := None, k \<mapsto> buf))" "pc_page_size pc = ?ps"
      using s r(5) by auto
    let ?v = "v\<lparr>vmm_file := ?f, vmm_page_cache := pc\<rparr>"
    let ?P = "P(q := None, k \<mapsto> buf)"
    have "backing_store_write v k buf = Some ?v" using pc(1) by (simp add: backing_store_write_def)
    moreover have "backing_ok M ?v ?P"
      using ok pc k by (auto simp: backing_ok_def length_file_write)
    moreover have "stored ?v ?P j i = (if j = k then buf ! i else stored v P j i)" if i: "i < ?ps" "j * ?ps + i < M" for j i
    proof -
      have lf: "j * ?ps + i < length (vmm_file v)" using i(2) r(3) by simp
      consider "j = k" | "j = q" "j \<noteq> k" | "j \<noteq> k" "j \<noteq> q" by blast
      then show ?thesis
      proof cases
        case 2
        then show ?thesis using q i qM lf by (simp add: stored_def nth_file_write)
      next
        case 3
        then have "\<not> (q * ?ps \<le> j * ?ps + i \<and> j * ?ps + i < q * ?ps + ?ps)" using page_range i(1) by blast
        then show ?thesis using 3 qM lf by (auto simp: stored_def nth_file_write split: option.split)
      qed (simp add: stored_def)
    qed
    ultimately show ?thesis by (intro exI conjI) (assumption | simp)+
  qed
qed

end
