(* ===== verification/VmmCorrect.thy ===== *)
theory VmmCorrect
  imports VmmBacking
begin

section \<open>The virtual memory is a flat byte memory\<close>

text \<open>
  The invariant of the virtual memory, its contents as a function from addresses to bytes, and
  what each operation does to them: reads and writes are those of an array of \<open>M\<close> bytes,
  loading and evicting pages do not change it.
\<close>

subsection \<open>Invariant and contents\<close>

definition tab :: "vmm \<Rightarrow> addr \<Rightarrow> vm_table" where
  "tab v t = the (heap_get (vmm_tables v) t)"

lemma tab_frame [simp]:
  "tab (v\<lparr>vmm_lru_cache := l\<rparr>) = tab v" "tab (v\<lparr>vmm_direct_cache := d\<rparr>) = tab v"
  "tab (v\<lparr>vmm_page_cache := pc\<rparr>) = tab v" "tab (v\<lparr>vmm_file := f\<rparr>) = tab v"
  "tab (v\<lparr>vmm_pagetable_size := n\<rparr>) = tab v"
  by (simp_all add: tab_def fun_eq_iff)

lemma stored_frame [simp]:
  "stored (v\<lparr>vmm_lru_cache := l\<rparr>) = stored v" "stored (v\<lparr>vmm_direct_cache := d\<rparr>) = stored v"
  "stored (v\<lparr>vmm_page_cache := pc\<rparr>) = stored v" "stored (v\<lparr>vmm_tables := tb\<rparr>) = stored v"
  "stored (v\<lparr>vmm_pagetable_size := n\<rparr>) = stored v"
  by (simp_all add: stored_def fun_eq_iff split: option.split)

text \<open>
  \<open>table_ok\<close>: the table \<open>t\<close> holds page \<open>k\<close>; while it is not dirty its bytes are
  those of the backing store.
\<close>

definition table_ok :: "nat \<Rightarrow> vmm \<Rightarrow> (nat \<rightharpoonup> u8 list) \<Rightarrow> nat \<Rightarrow> addr \<Rightarrow> bool" where
  "table_ok M v P k t \<longleftrightarrow>
     heap_get (vmm_tables v) t = Some (tab v t) \<and> tab_page_number (tab v t) = k \<and>
     tab_page_address (tab v t) = k * vmm_page_size v \<and>
     length (tab_page_cache (tab v t)) = vmm_page_size v \<and> k * vmm_page_size v < M \<and>
     (\<not> tab_dirty (tab v t) \<longrightarrow> (\<forall>i < vmm_page_size v. k * vmm_page_size v + i < M \<longrightarrow>
        tab_page_cache (tab v t) ! i = stored v P k i))"

definition vmm_part :: "nat \<Rightarrow> vmm \<Rightarrow> (nat \<rightharpoonup> addr) \<Rightarrow> (nat \<rightharpoonup> u8 list) \<Rightarrow> bool" where
  "vmm_part M v m P \<longleftrightarrow>
     backing_ok M v P \<and> tl.in_step (vmm_direct_cache v) (vmm_lru_cache v) m \<and>
     heap_wf (vmm_tables v) \<and> (\<forall>k t. m k = Some t \<longrightarrow> table_ok M v P k t)"

definition vmm_inv :: "nat \<Rightarrow> vmm \<Rightarrow> (nat \<rightharpoonup> addr) \<Rightarrow> (nat \<rightharpoonup> u8 list) \<Rightarrow> bool" where
  "vmm_inv M v m P \<longleftrightarrow> vmm_part M v m P \<and> vmm_pagetable_size v = card (dom m) \<and>
     vmm_pagetable_size v \<le> max 1 (vmm_number_of_pages v)"

definition page_byte :: "vmm \<Rightarrow> (nat \<rightharpoonup> addr) \<Rightarrow> (nat \<rightharpoonup> u8 list) \<Rightarrow> nat \<Rightarrow> nat \<Rightarrow> u8" where
  "page_byte v m P k i = (case m k of Some t \<Rightarrow> tab_page_cache (tab v t) ! i | None \<Rightarrow> stored v P k i)"

lemma page_byte_frame [simp]:
  "page_byte (v\<lparr>vmm_lru_cache := l\<rparr>) = page_byte v"
  "page_byte (v\<lparr>vmm_direct_cache := d\<rparr>) = page_byte v"
  "page_byte (v\<lparr>vmm_page_cache := pc\<rparr>) = page_byte v"
  "page_byte (v\<lparr>vmm_pagetable_size := n\<rparr>) = page_byte v"
  by (simp_all add: page_byte_def fun_eq_iff split: option.split)

definition same_bytes ::
  "nat \<Rightarrow> vmm \<Rightarrow> (nat \<rightharpoonup> addr) \<Rightarrow> (nat \<rightharpoonup> u8 list) \<Rightarrow> vmm \<Rightarrow> (nat \<rightharpoonup> addr) \<Rightarrow> (nat \<rightharpoonup> u8 list) \<Rightarrow> bool" where
  "same_bytes M v m P v' m' P' \<longleftrightarrow> vmm_page_size v' = vmm_page_size v \<and>
     vmm_number_of_pages v' = vmm_number_of_pages v \<and>
     (\<forall>k i. i < vmm_page_size v \<longrightarrow> k * vmm_page_size v + i < M \<longrightarrow>
        page_byte v' m' P' k i = page_byte v m P k i)"

lemma same_bytes_refl: "same_bytes M v m P v m P"
  by (simp add: same_bytes_def)

lemma same_bytes_trans:
  "same_bytes M v m P v' m' P' \<Longrightarrow> same_bytes M v' m' P' v'' m'' P'' \<Longrightarrow> same_bytes M v m P v'' m'' P''"
  by (simp add: same_bytes_def)

lemma table_okD:
  assumes "table_ok M v P k t"
  shows "heap_get (vmm_tables v) t = Some (tab v t)" "tab_page_number (tab v t) = k"
    "tab_page_address (tab v t) = k * vmm_page_size v" "length (tab_page_cache (tab v t)) = vmm_page_size v"
    "k * vmm_page_size v < M"
    "\<And>i. \<not> tab_dirty (tab v t) \<Longrightarrow> i < vmm_page_size v \<Longrightarrow> k * vmm_page_size v + i < M \<Longrightarrow>
        tab_page_cache (tab v t) ! i = stored v P k i"
  using assms by (simp_all add: table_ok_def)

lemma vmm_partD:
  assumes "vmm_part M v m P"
  shows "backing_ok M v P" "tl.in_step (vmm_direct_cache v) (vmm_lru_cache v) m" "heap_wf (vmm_tables v)"
    "\<And>k t. m k = Some t \<Longrightarrow> table_ok M v P k t" "0 < vmm_page_size v" "M \<le> size_limit"
  using assms by (simp_all add: vmm_part_def backing_ok_def)

lemma vmm_table_inj:
  assumes "vmm_part M v m P" and "m j = Some t" and "m k = Some t"
  shows "j = k"
  using table_okD(2) [OF vmm_partD(4) [OF assms(1,2)]] table_okD(2) [OF vmm_partD(4) [OF assms(1,3)]] by simp

lemma vmm_nonnull: "vmm_part M v m P \<Longrightarrow> m k = Some t \<Longrightarrow> t \<noteq> NULL"
  using vmm_partD(2) [of M v m P] by (cases "t = NULL") (auto simp: tl.in_step_def ran_def)

subsection \<open>Writing a page back\<close>

text \<open>
  The callback, on a state whose LRU cache may be in the middle of an operation: only the
  backing store and the tables count.
\<close>

lemma on_page_flush_spec:
  assumes ok: "backing_ok M v P" and t: "table_ok M v P k t"
  shows "\<exists>pc f tb P'. on_page_flush k t v = Some (v\<lparr>vmm_file := f, vmm_page_cache := pc, vmm_tables := tb\<rparr>) \<and>
    backing_ok M (v\<lparr>vmm_file := f, vmm_page_cache := pc, vmm_tables := tb\<rparr>) P' \<and>
    tb = heap_put t ((tab v t)\<lparr>tab_dirty := False\<rparr>) (vmm_tables v) \<and>
    (\<forall>j i. i < vmm_page_size v \<longrightarrow> j * vmm_page_size v + i < M \<longrightarrow>
      stored (v\<lparr>vmm_file := f, vmm_page_cache := pc, vmm_tables := tb\<rparr>) P' j i =
        (if j = k then tab_page_cache (tab v t) ! i else stored v P j i))"
proof (cases "tab_dirty (tab v t)")
  case True
  note r = table_okD [OF t]
  obtain pc f P' where w: "backing_store_write v k (tab_page_cache (tab v t)) = Some (v\<lparr>vmm_file := f, vmm_page_cache := pc\<rparr>)"
    "backing_ok M (v\<lparr>vmm_file := f, vmm_page_cache := pc\<rparr>) P'"
    "\<forall>j i. i < vmm_page_size v \<longrightarrow> j * vmm_page_size v + i < M \<longrightarrow>
      stored (v\<lparr>vmm_file := f, vmm_page_cache := pc\<rparr>) P' j i =
        (if j = k then tab_page_cache (tab v t) ! i else stored v P j i)"
    using backing_store_write_spec [OF ok r(4,5)] by blast
  let ?tb = "heap_put t ((tab v t)\<lparr>tab_dirty := False\<rparr>) (vmm_tables v)"
  have "on_page_flush k t v = Some (v\<lparr>vmm_file := f, vmm_page_cache := pc, vmm_tables := ?tb\<rparr>)"
    using r(1,2) True w(1) by (simp add: on_page_flush_def)
  moreover have "backing_ok M (v\<lparr>vmm_file := f, vmm_page_cache := pc, vmm_tables := ?tb\<rparr>) P'"
    using w(2) by (simp add: backing_ok_def)
  moreover have "stored (v\<lparr>vmm_file := f, vmm_page_cache := pc, vmm_tables := ?tb\<rparr>) P' j i =
      stored (v\<lparr>vmm_file := f, vmm_page_cache := pc\<rparr>) P' j i" for j i
    by (simp add: stored_def split: option.split)
  ultimately show ?thesis using w(3) by (intro exI conjI) (assumption | simp)+
next
  case False
  note r = table_okD [OF t]
  have "on_page_flush k t v = Some v" using r(1) False by (simp add: on_page_flush_def)
  moreover have "(tab v t)\<lparr>tab_dirty := False\<rparr> = tab v t" using False by simp
  then have tb: "heap_put t ((tab v t)\<lparr>tab_dirty := False\<rparr>) (vmm_tables v) = vmm_tables v"
    using r(1) by (simp add: heap_put_same)
  moreover have "v\<lparr>vmm_file := vmm_file v, vmm_page_cache := vmm_page_cache v, vmm_tables := vmm_tables v\<rparr> = v" by simp
  ultimately show ?thesis using ok r(6) [OF False]
    by (intro exI [of _ "vmm_page_cache v"] exI [of _ "vmm_file v"] exI [of _ "vmm_tables v"] exI [of _ P]) auto
qed

lemma free_vmtable_spec:
  assumes part: "vmm_part M v m P" and t: "m k = Some t"
  shows "\<exists>v' P'. free_vmtable v t = Some v' \<and> vmm_part M v' (m(k := None)) P' \<and>
    same_bytes M v m P v' (m(k := None)) P' \<and> vmm_pagetable_size v' = vmm_pagetable_size v"
proof -
  note r = vmm_partD [OF part]
  note rt = table_okD [OF r(4) [OF t]]
  obtain pc f tb P' where fl: "on_page_flush k t v = Some (v\<lparr>vmm_file := f, vmm_page_cache := pc, vmm_tables := tb\<rparr>)"
    and bk: "backing_ok M (v\<lparr>vmm_file := f, vmm_page_cache := pc, vmm_tables := tb\<rparr>) P'"
    and tb: "tb = heap_put t ((tab v t)\<lparr>tab_dirty := False\<rparr>) (vmm_tables v)"
    and st: "\<forall>j i. i < vmm_page_size v \<longrightarrow> j * vmm_page_size v + i < M \<longrightarrow>
      stored (v\<lparr>vmm_file := f, vmm_page_cache := pc, vmm_tables := tb\<rparr>) P' j i =
        (if j = k then tab_page_cache (tab v t) ! i else stored v P j i)"
    using on_page_flush_spec [OF r(1) r(4) [OF t]] by (elim exE conjE) (rule that)
  obtain l where l: "lru_holds l (m(k := None))"
    "lru_cache_remove on_page_flush (vmm_lru_cache v) k v = map_option (\<lambda>v'. (l, v')) (on_page_flush k t v)"
    using lru_holds_remove [of "vmm_lru_cache v" m k t on_page_flush v] t r(2) by (auto simp: tl.in_step_def)
  obtain d where d: "direct_cache_remove (vmm_direct_cache v) k = Some d" "tl.in_step d l (m(k := None))"
    using tl.two_level_drop [OF r(2) l(1)] by blast
  let ?v = "v\<lparr>vmm_file := f, vmm_page_cache := pc, vmm_lru_cache := l, vmm_direct_cache := d,
      vmm_tables := heap_del t tb\<rparr>"
  have nn: "t \<noteq> NULL" using vmm_nonnull [OF part t] .
  have "free_vmtable v t = Some ?v"
    using rt(1,2) l(2) fl d(1) nn by (simp add: free_vmtable_def tb)
  moreover have bk': "backing_ok M ?v P'" using bk by (simp add: backing_ok_def)
  moreover have st': "stored ?v P' j i = (if j = k then tab_page_cache (tab v t) ! i else stored v P j i)"
    if "i < vmm_page_size v" "j * vmm_page_size v + i < M" for j i
  proof -
    have "stored ?v P' j i = stored (v\<lparr>vmm_file := f, vmm_page_cache := pc, vmm_tables := tb\<rparr>) P' j i"
      by (simp add: stored_def split: option.split)
    then show ?thesis using st that by simp
  qed
  have other: "tab ?v u = tab v u" "heap_get (vmm_tables ?v) u = heap_get (vmm_tables v) u" if "(m(k := None)) j = Some u" for j u
  proof -
    have "u \<noteq> t" using that vmm_table_inj [OF part _ t, of j] by (auto split: if_splits)
    then show "tab ?v u = tab v u" "heap_get (vmm_tables ?v) u = heap_get (vmm_tables v) u" by (simp_all add: tab_def tb)
  qed
  have "table_ok M ?v P' j u" if j: "(m(k := None)) j = Some u" for j u
  proof -
    have "m j = Some u" "j \<noteq> k" using j by (auto split: if_splits)
    then show ?thesis using r(4) [of j u] other [OF j] st' by (simp add: table_ok_def)
  qed
  moreover have "heap_wf (vmm_tables ?v)" using heap_wf_del [OF heap_wf_put [OF r(3) rt(1)]] by (simp add: tb)
  ultimately have "vmm_part M ?v (m(k := None)) P'" using d(2) by (simp add: vmm_part_def)
  moreover have "same_bytes M v m P ?v (m(k := None)) P'"
    unfolding same_bytes_def
  proof (intro conjI allI impI)
    fix j i assume ji: "i < vmm_page_size v" "j * vmm_page_size v + i < M"
    show "page_byte ?v (m(k := None)) P' j i = page_byte v m P j i"
    proof (cases "(m(k := None)) j")
      case None
      then show ?thesis using st' [OF ji] t by (auto simp: page_byte_def split: if_splits)
    next
      case (Some u)
      then have "j \<noteq> k" by auto
      then show ?thesis using Some other [OF Some] by (simp add: page_byte_def)
    qed
  qed simp_all
  ultimately show ?thesis using \<open>free_vmtable v t = Some ?v\<close> by (intro exI conjI) (assumption | simp)+
qed

subsection \<open>Bringing a page into RAM\<close>

lemma vmm_inv_finite: "vmm_part M v m P \<Longrightarrow> finite (dom m)"
  using lru_holds_count(1) by (auto simp: vmm_part_def tl.in_step_def)

text \<open>Making room: at most one page is dropped, and there is then room for one more.\<close>

definition make_room :: "vmm \<Rightarrow> vmm option" where
  "make_room v = (if vmm_pagetable_size v \<ge> vmm_number_of_pages v then do {
         last_page \<leftarrow> lru_cache_get_least_recently_used (vmm_lru_cache v);
         if last_page \<noteq> NULL then do {
           v \<leftarrow> free_vmtable v last_page;
           Some (v\<lparr>vmm_pagetable_size := vmm_pagetable_size v - 1\<rparr>)
         } else Some v
       } else Some v)"

lemma find_empty_TLB_make_room:
  "find_empty_TLB env v = Option.bind (make_room v) (\<lambda>v. let (page, v) = new_vmtable env v in
     Some (page, v\<lparr>vmm_pagetable_size := vmm_pagetable_size v + 1\<rparr>))"
  by (simp add: find_empty_TLB_def make_room_def)

lemma make_room_spec:
  assumes inv: "vmm_inv M v m P"
  shows "\<exists>v' m' P'. make_room v = Some v' \<and> vmm_part M v' m' P' \<and> same_bytes M v m P v' m' P' \<and>
    m' \<subseteq>\<^sub>m m \<and> vmm_pagetable_size v' = card (dom m') \<and> card (dom m') < max 1 (vmm_number_of_pages v)"
proof (cases "vmm_pagetable_size v \<ge> vmm_number_of_pages v")
  case False
  then show ?thesis using inv by (auto simp: make_room_def vmm_inv_def same_bytes_refl intro!: exI [of _ m] exI [of _ P])
next
  case full: True
  have part: "vmm_part M v m P" and n: "vmm_pagetable_size v = card (dom m)" "card (dom m) \<le> max 1 (vmm_number_of_pages v)"
    using inv by (auto simp: vmm_inv_def)
  have lru: "lru_holds (vmm_lru_cache v) m" using vmm_partD(2) [OF part] by (simp add: tl.in_step_def)
  show ?thesis
  proof (cases "m = Map.empty")
    case True
    then have "make_room v = Some v" using full lru_holds_least [OF lru] by (simp add: make_room_def)
    then show ?thesis using part n True by (intro exI conjI) (assumption | simp add: same_bytes_refl)+
  next
    case False
    then obtain k t where t: "m k = Some t" "lru_cache_get_least_recently_used (vmm_lru_cache v) = Some t"
      using lru_holds_least [OF lru] by auto
    obtain v' P' where v': "free_vmtable v t = Some v'" "vmm_part M v' (m(k := None)) P'"
      "same_bytes M v m P v' (m(k := None)) P'" "vmm_pagetable_size v' = vmm_pagetable_size v"
      using free_vmtable_spec [OF part t(1)] by blast
    let ?v = "v'\<lparr>vmm_pagetable_size := vmm_pagetable_size v' - 1\<rparr>"
    have mr: "make_room v = Some ?v"
      using full t(2) vmm_nonnull [OF part t(1)] v'(1) by (simp add: make_room_def)
    have p: "vmm_part M ?v (m(k := None)) P'"
      using v'(2) by (simp add: vmm_part_def backing_ok_def table_ok_def)
    have s: "same_bytes M v m P ?v (m(k := None)) P'"
      using v'(3) by (simp add: same_bytes_def)
    have c: "Suc (card (dom (m(k := None)))) = card (dom m)"
      using card_Suc_Diff1 [OF vmm_inv_finite [OF part], of k] t(1) by (simp add: domIff)
    have sub: "m(k := None) \<subseteq>\<^sub>m m" by (auto simp: map_le_def)
    show ?thesis using mr p s sub c n v'(4)
      by (intro exI [of _ ?v] exI [of _ "m(k := None)"] exI [of _ P']) auto
  qed
qed

lemma new_vmtable_spec:
  assumes part: "vmm_part M v m P" and new: "new_vmtable env v = (t, v')"
  shows "vmm_part M v' m P" and "same_bytes M v m P v' m P" and "t \<noteq> NULL" and "t \<notin> ran m"
    and "\<exists>tb. heap_get (vmm_tables v') t = Some tb \<and> length (tab_page_cache tb) = vmm_page_size v"
    and "vmm_pagetable_size v' = vmm_pagetable_size v"
proof -
  note r = vmm_partD [OF part]
  let ?tb = "(fresh_table env (next_addr (vmm_tables v)))\<lparr>tab_page_cache := map (fresh_bytes env (next_addr (vmm_tables v))) [0..<vmm_page_size v]\<rparr>"
  obtain tables where al: "heap_alloc ?tb (vmm_tables v) = (t, tables)" and v': "v' = v\<lparr>vmm_tables := tables\<rparr>"
    using new by (cases "heap_alloc ?tb (vmm_tables v)") (simp add: new_vmtable_def Let_def)
  note h = heap_alloc_spec [OF r(3) al]
  have ne: "u \<noteq> t" if "m j = Some u" for j u using table_okD(1) [OF r(4) [OF that]] h(3) by auto
  have tb: "tab v' u = tab v u" "heap_get (vmm_tables v') u = heap_get (vmm_tables v) u" if "m j = Some u" for j u
    using ne [OF that] h(4) by (simp_all add: tab_def v')
  have sd: "stored v' = stored v" by (simp add: v')
  have "table_ok M v' P j u" if "m j = Some u" for j u
    using r(4) [OF that] tb [OF that] by (simp add: table_ok_def sd) (simp add: v')
  then show "vmm_part M v' m P" using part h(1) by (simp add: vmm_part_def backing_ok_def) (simp add: v')
  show "same_bytes M v m P v' m P"
    unfolding same_bytes_def using tb by (auto simp: page_byte_def sd split: option.split) (simp_all add: v')
  show "t \<noteq> NULL" using h(2) .
  show "t \<notin> ran m" using ne by (auto simp: ran_def)
  show "\<exists>tb. heap_get (vmm_tables v') t = Some tb \<and> length (tab_page_cache tb) = vmm_page_size v"
    using h(4) by (simp add: v')
  show "vmm_pagetable_size v' = vmm_pagetable_size v" by (simp add: v')
qed

lemma get_TLB_spec:
  assumes "vmm_inv M v m P"
  shows "\<exists>l. get_TLB v k = Some (case m k of None \<Rightarrow> NULL | Some t \<Rightarrow> t, v\<lparr>vmm_lru_cache := l\<rparr>) \<and>
    vmm_inv M (v\<lparr>vmm_lru_cache := l\<rparr>) m P \<and> same_bytes M v m P (v\<lparr>vmm_lru_cache := l\<rparr>) m P"
proof -
  have part: "vmm_part M v m P" using assms by (simp add: vmm_inv_def)
  obtain l where l: "Option.bind (direct_cache_get (vmm_direct_cache v) k)
        (\<lambda>t. if t = NULL then lru_cache_get (vmm_lru_cache v) k else Some (t, vmm_lru_cache v)) =
      Some (case m k of None \<Rightarrow> NULL | Some t \<Rightarrow> t, l)" "tl.in_step (vmm_direct_cache v) l m"
    using tl.two_level_get [OF vmm_partD(2) [OF part], of k] by blast
  let ?v = "v\<lparr>vmm_lru_cache := l\<rparr>"
  have "vmm_inv M ?v m P"
    using assms l(2) by (simp add: vmm_inv_def vmm_part_def backing_ok_def table_ok_def)
  moreover have "same_bytes M v m P ?v m P" by (simp add: same_bytes_def)
  moreover have "get_TLB v k = Some (case m k of None \<Rightarrow> NULL | Some t \<Rightarrow> t, ?v)"
    using l(1) by (cases "direct_cache_get (vmm_direct_cache v) k") (auto simp: get_TLB_def Let_def split: if_splits)
  ultimately show ?thesis by blast
qed

definition install_page :: "vmm \<Rightarrow> nat \<Rightarrow> nat \<Rightarrow> addr \<Rightarrow> (addr \<times> vmm) option" where
  "install_page v pno page_offset page = do {
       tables \<leftarrow> heap_mod page (tab_page_number_update (\<lambda>_. pno)) (vmm_tables v);
       tables \<leftarrow> heap_mod page (tab_page_address_update (\<lambda>_. page_offset)) tables;
       v \<leftarrow> load_page (v\<lparr>vmm_tables := tables\<rparr>) pno page;
       l \<leftarrow> lru_cache_add (vmm_lru_cache v) pno page;
       let v = v\<lparr>vmm_lru_cache := l\<rparr>;
       d \<leftarrow> direct_cache_set (vmm_direct_cache v) pno page;
       Some (page, v\<lparr>vmm_direct_cache := d\<rparr>)
     }"

lemma get_page_install:
  "get_page env v addr = do {
     pno \<leftarrow> get_page_number_by_address v addr;
     (page, v') \<leftarrow> get_TLB v pno;
     if page \<noteq> NULL then Some (page, v')
     else do {
       (page, v') \<leftarrow> find_empty_TLB env v';
       install_page v' pno (pno * vmm_page_size v) page
     }
   }"
  by (simp add: get_page_def install_page_def Let_def cong: if_cong)

lemma install_page_spec:
  assumes part: "vmm_part M v m P" and k: "m k = None" "k * vmm_page_size v < M"
    and t: "t \<noteq> NULL" "t \<notin> ran m" "heap_get (vmm_tables v) t = Some tb" "length (tab_page_cache tb) = vmm_page_size v"
  shows "\<exists>v'. install_page v k (k * vmm_page_size v) t = Some (t, v') \<and> vmm_part M v' (m(k \<mapsto> t)) P \<and>
    same_bytes M v m P v' (m(k \<mapsto> t)) P \<and> vmm_pagetable_size v' = vmm_pagetable_size v"
proof -
  note r = vmm_partD [OF part]
  let ?ps = "vmm_page_size v"
  let ?tb1 = "tb\<lparr>tab_page_number := k, tab_page_address := k * ?ps\<rparr>"
  let ?v1 = "v\<lparr>vmm_tables := heap_put t ?tb1 (vmm_tables v)\<rparr>"
  have bk1: "backing_ok M ?v1 P" using r(1) by (simp add: backing_ok_def)
  obtain buf pc where b: "backing_store_read ?v1 k (tab_page_cache tb) ?ps = Some (buf, ?v1\<lparr>vmm_page_cache := pc\<rparr>)"
    "backing_ok M (?v1\<lparr>vmm_page_cache := pc\<rparr>) P" "length buf = ?ps"
    "\<forall>i < ?ps. k * ?ps + i < M \<longrightarrow> buf ! i = stored v P k i"
    using backing_store_read_spec [OF bk1, of "tab_page_cache tb" k] t(4) k(2) by auto
  let ?tb2 = "?tb1\<lparr>tab_page_cache := buf\<rparr>"
  obtain l d where ld: "lru_cache_add (vmm_lru_cache v) k t = Some l" "direct_cache_set (vmm_direct_cache v) k t = Some d"
    "tl.in_step d l (m(k \<mapsto> t))"
    using tl.two_level_add [OF r(2) k(1) t(1)] by blast
  let ?v = "v\<lparr>vmm_tables := heap_put t ?tb2 (vmm_tables v), vmm_page_cache := pc, vmm_lru_cache := l, vmm_direct_cache := d\<rparr>"
  have inst: "install_page v k (k * ?ps) t = Some (t, ?v)"
    using t(3) b(1) ld(1,2) by (simp add: install_page_def load_page_def)
  have ne: "u \<noteq> t" if "m j = Some u" for j u using that t(2) by (auto simp: ran_def)
  have tabs: "tab ?v u = tab v u" "heap_get (vmm_tables ?v) u = heap_get (vmm_tables v) u" if "m j = Some u" for j u
    using ne [OF that] by (simp_all add: tab_def)
  have new: "tab ?v t = ?tb2" by (simp add: tab_def)
  have "table_ok M ?v P j u" if j: "(m(k \<mapsto> t)) j = Some u" for j u
  proof (cases "j = k")
    case True
    then have "u = t" using j by simp
    then show ?thesis using True new k(2) b(3,4) by (simp add: table_ok_def)
  next
    case False
    then have "m j = Some u" using j by simp
    then show ?thesis using r(4) [of j u] tabs [of j u] by (simp add: table_ok_def)
  qed
  moreover have "backing_ok M ?v P" using b(2) by (simp add: backing_ok_def)
  moreover have "heap_wf (vmm_tables ?v)" using heap_wf_put [OF r(3) t(3)] by simp
  ultimately have p: "vmm_part M ?v (m(k \<mapsto> t)) P" using ld(3) by (simp add: vmm_part_def)
  have s: "same_bytes M v m P ?v (m(k \<mapsto> t)) P"
    unfolding same_bytes_def
  proof (intro conjI allI impI)
    fix j i assume ji: "i < ?ps" "j * ?ps + i < M"
    show "page_byte ?v (m(k \<mapsto> t)) P j i = page_byte v m P j i"
    proof (cases "j = k")
      case True
      then show ?thesis using b(4) ji new k(1) by (simp add: page_byte_def)
    next
      case False
      then show ?thesis using tabs [of j] by (cases "m j") (simp_all add: page_byte_def)
    qed
  qed simp_all
  show ?thesis using inst p s by (intro exI [of _ ?v]) simp
qed

lemma get_page_spec:
  assumes inv: "vmm_inv M v m P" and a: "addr < M"
  shows "\<exists>t v' m' P'. get_page env v addr = Some (t, v') \<and> vmm_inv M v' m' P' \<and>
    same_bytes M v m P v' m' P' \<and> m' (addr div vmm_page_size v) = Some t"
proof -
  have part: "vmm_part M v m P" using inv by (simp add: vmm_inv_def)
  let ?ps = "vmm_page_size v"
  let ?k = "addr div ?ps"
  have ps: "0 < ?ps" using vmm_partD(5) [OF part] .
  have kM: "?k * ?ps < M" using a by (metis div_times_less_eq_dividend order_le_less_trans)
  have num: "get_page_number_by_address v addr = Some ?k" using ps by (simp add: get_page_number_by_address_def)
  obtain l where l: "get_TLB v ?k = Some (case m ?k of None \<Rightarrow> NULL | Some t \<Rightarrow> t, v\<lparr>vmm_lru_cache := l\<rparr>)"
    "vmm_inv M (v\<lparr>vmm_lru_cache := l\<rparr>) m P" "same_bytes M v m P (v\<lparr>vmm_lru_cache := l\<rparr>) m P"
    using get_TLB_spec [OF inv] by blast
  show ?thesis
  proof (cases "m ?k")
    case (Some t)
    then have "get_page env v addr = Some (t, v\<lparr>vmm_lru_cache := l\<rparr>)"
      using num l(1) vmm_nonnull [OF part Some] by (simp add: get_page_install)
    then show ?thesis using l Some by blast
  next
    case None
    let ?v1 = "v\<lparr>vmm_lru_cache := l\<rparr>"
    obtain v2 m2 P2 where v2: "make_room ?v1 = Some v2" "vmm_part M v2 m2 P2" "same_bytes M ?v1 m P v2 m2 P2"
      "m2 \<subseteq>\<^sub>m m" "vmm_pagetable_size v2 = card (dom m2)" "card (dom m2) < max 1 (vmm_number_of_pages v)"
      using make_room_spec [OF l(2)] by auto
    obtain t v3 where nt: "new_vmtable env v2 = (t, v3)" by (cases "new_vmtable env v2")
    note n = new_vmtable_spec [OF v2(2) nt]
    let ?v3 = "v3\<lparr>vmm_pagetable_size := vmm_pagetable_size v3 + 1\<rparr>"
    have find: "find_empty_TLB env ?v1 = Some (t, ?v3)" using v2(1) nt by (simp add: find_empty_TLB_make_room)
    have p3: "vmm_part M ?v3 m2 P2" using n(1) by (simp add: vmm_part_def backing_ok_def table_ok_def)
    have s3: "same_bytes M v m P ?v3 m2 P2"
      using same_bytes_trans [OF same_bytes_trans [OF l(3) v2(3)] n(2)] by (simp add: same_bytes_def)
    have sz: "vmm_page_size ?v3 = ?ps" "vmm_number_of_pages ?v3 = vmm_number_of_pages v" using s3 by (simp_all add: same_bytes_def)
    have k2: "m2 ?k = None" using v2(4) None by (metis domIff map_le_implies_dom_le subsetD)
    obtain tb where tb: "heap_get (vmm_tables v3) t = Some tb" "length (tab_page_cache tb) = vmm_page_size v2" using n(5) by blast
    have tb': "length (tab_page_cache tb) = vmm_page_size ?v3" using tb(2) n(2) by (simp add: same_bytes_def)
    obtain v4 where v4: "install_page ?v3 ?k (?k * ?ps) t = Some (t, v4)" "vmm_part M v4 (m2(?k \<mapsto> t)) P2"
      "same_bytes M ?v3 m2 P2 v4 (m2(?k \<mapsto> t)) P2" "vmm_pagetable_size v4 = vmm_pagetable_size ?v3"
      using install_page_spec [OF p3 k2 _ n(3,4) _ tb'] kM tb(1) sz(1) by auto
    have "get_page env v addr = Some (t, v4)"
      using num l(1) None find v4(1) by (simp add: get_page_install)
    moreover have "vmm_inv M v4 (m2(?k \<mapsto> t)) P2"
      using v4 v2(5,6) n(6) k2 vmm_inv_finite [OF v2(2)] sz
      by (simp add: vmm_inv_def card_insert_if domIff same_bytes_def)
    moreover have "same_bytes M v m P v4 (m2(?k \<mapsto> t)) P2" using same_bytes_trans [OF s3 v4(3)] .
    ultimately show ?thesis by (intro exI conjI) (assumption | simp)+
  qed
qed

subsection \<open>Reads and writes\<close>

text \<open>
  \<open>flat M v mem\<close>: the virtual memory is well formed and its first \<open>M\<close> bytes are those of
  \<open>mem\<close>.
\<close>

definition flat :: "nat \<Rightarrow> vmm \<Rightarrow> (nat \<Rightarrow> u8) \<Rightarrow> bool" where
  "flat M v mem \<longleftrightarrow> (\<exists>m P. vmm_inv M v m P \<and>
     (\<forall>a < M. mem a = page_byte v m P (a div vmm_page_size v) (a mod vmm_page_size v)))"

lemma flat_page_size: "flat M v mem \<Longrightarrow> 0 < vmm_page_size v \<and> M \<le> size_limit"
  by (auto simp: flat_def vmm_inv_def vmm_part_def backing_ok_def)

lemma flat_cong: "flat M v mem \<Longrightarrow> (\<And>a. a < M \<Longrightarrow> mem' a = mem a) \<Longrightarrow> flat M v mem'"
  by (auto simp: flat_def)

lemma flat_get_page:
  assumes "flat M v mem" and a: "addr < M"
  shows "\<exists>t v' m P. get_page env v addr = Some (t, v') \<and> vmm_inv M v' m P \<and>
    vmm_page_size v' = vmm_page_size v \<and> m (addr div vmm_page_size v') = Some t \<and>
    (\<forall>b < M. mem b = page_byte v' m P (b div vmm_page_size v') (b mod vmm_page_size v'))"
proof -
  obtain m P where inv: "vmm_inv M v m P" and mem: "\<forall>b < M. mem b = page_byte v m P (b div vmm_page_size v) (b mod vmm_page_size v)"
    using assms(1) by (auto simp: flat_def)
  obtain t v' m' P' where g: "get_page env v addr = Some (t, v')" "vmm_inv M v' m' P'" "same_bytes M v m P v' m' P'"
    "m' (addr div vmm_page_size v) = Some t"
    using get_page_spec [OF inv a] by blast
  have ps: "0 < vmm_page_size v" "vmm_page_size v' = vmm_page_size v"
    using flat_page_size [OF assms(1)] g(3) by (simp_all add: same_bytes_def)
  have "mem b = page_byte v' m' P' (b div vmm_page_size v') (b mod vmm_page_size v')" if "b < M" for b
  proof -
    have "b mod vmm_page_size v < vmm_page_size v" "b div vmm_page_size v * vmm_page_size v + b mod vmm_page_size v = b"
      using ps(1) by simp_all
    then show ?thesis using mem that g(3) ps(2) by (simp add: same_bytes_def)
  qed
  then show ?thesis using g ps(2) by auto
qed

text \<open>The part of a transfer that the page at an address can serve.\<close>

definition chunk :: "vmm \<Rightarrow> nat \<Rightarrow> nat \<Rightarrow> nat" where
  "chunk v addr len = min len (vmm_page_size v - addr mod vmm_page_size v)"

lemma chunk_bounds:
  assumes "0 < vmm_page_size v" and "0 < len"
  shows "0 < chunk v addr len" and "chunk v addr len \<le> len"
    and "addr mod vmm_page_size v + chunk v addr len \<le> vmm_page_size v"
proof -
  have "addr mod vmm_page_size v < vmm_page_size v" using assms(1) by simp
  then show "0 < chunk v addr len" "chunk v addr len \<le> len"
    "addr mod vmm_page_size v + chunk v addr len \<le> vmm_page_size v"
    using assms(2) unfolding chunk_def by linarith+
qed

lemma chunk_page:
  assumes "0 < vmm_page_size v" and "i < chunk v addr len"
  shows "(addr + i) div vmm_page_size v = addr div vmm_page_size v"
    and "(addr + i) mod vmm_page_size v = addr mod vmm_page_size v + i"
proof -
  have "i < vmm_page_size v - addr mod vmm_page_size v" using assms(2) by (simp add: chunk_def)
  then have "addr mod vmm_page_size v + i < vmm_page_size v" by linarith
  then show "(addr + i) mod vmm_page_size v = addr mod vmm_page_size v + i"
    by (metis mod_add_left_eq mod_less)
  then show "(addr + i) div vmm_page_size v = addr div vmm_page_size v"
    by (metis (no_types, lifting) add.commute add_right_cancel div_mult_mod_eq group_cancel.add1 assms(1) mult_right_cancel not_gr_zero)
qed

lemma vmm_read_internal_spec:
  assumes fl: "flat M v mem" and a: "addr + chunk v addr len \<le> M" and len: "0 < len"
  shows "\<exists>v'. vmm_read_internal env v addr len = Some (mem_bytes mem addr (chunk v addr len), v') \<and> flat M v' mem \<and>
    vmm_page_size v' = vmm_page_size v"
proof -
  let ?ps = "vmm_page_size v"
  let ?n = "chunk v addr len"
  have ps: "0 < ?ps" using flat_page_size [OF fl] by simp
  note c = chunk_bounds [OF ps len, of addr]
  have aM: "addr < M" using a c(1) by simp
  obtain t v' m P where g: "get_page env v addr = Some (t, v')" "vmm_inv M v' m P" "vmm_page_size v' = ?ps"
    "m (addr div ?ps) = Some t" "\<forall>b < M. mem b = page_byte v' m P (b div ?ps) (b mod ?ps)"
    using flat_get_page [OF fl aM, of env] by auto
  have tok: "table_ok M v' P (addr div ?ps) t" using g(2,4) by (simp add: vmm_inv_def vmm_part_def)
  note t = table_okD [OF tok]
  have off: "addr - tab_page_address (tab v' t) = addr mod ?ps"
    using t(3) g(3) by (simp add: minus_div_mult_eq_mod)
  have "slice (tab_page_cache (tab v' t)) (addr mod ?ps) ?n = mem_bytes mem addr ?n"
  proof (rule nth_equalityI)
    fix i assume "i < length (slice (tab_page_cache (tab v' t)) (addr mod ?ps) ?n)"
    then have i: "i < ?n" using c(3) t(4) g(3) by simp
    have "mem (addr + i) = page_byte v' m P (addr div ?ps) (addr mod ?ps + i)"
      using g(5) a i chunk_page [OF ps i] by simp
    then show "slice (tab_page_cache (tab v' t)) (addr mod ?ps) ?n ! i = mem_bytes mem addr ?n ! i"
      using i c(3) t(4) g(3,4) by (simp add: page_byte_def mem_bytes_def)
  qed (use c(3) t(4) g(3) in simp)
  moreover have "flat M v' mem" using g(2,3,5) by (auto simp: flat_def)
  moreover have "addr mod ?ps + ?n \<le> length (tab_page_cache (tab v' t))" using c(3) t(4) g(3) by simp
  moreover have "min len (vmm_page_size v' - addr mod ?ps) = ?n" using g(3) by (simp add: chunk_def)
  ultimately show ?thesis using g(1,3) t(1) off by (simp add: vmm_read_internal_def Let_def)
qed

lemma vmm_read_loop_spec:
  assumes "flat M v mem" and "addr + offset + remain \<le> M" and "offset + remain \<le> length target"
  shows "\<exists>v'. vmm_read_loop env v addr target offset remain =
      Some (splice target offset (mem_bytes mem (addr + offset) remain), v') \<and> flat M v' mem"
  using assms
proof (induction remain arbitrary: v offset target rule: less_induct)
  case (less remain)
  show ?case
  proof (cases "remain = 0")
    case True
    then show ?thesis using less.prems by (subst vmm_read_loop.simps) (simp add: splice_def mem_bytes_def)
  next
    case False
    let ?n = "chunk v (addr + offset) remain"
    note ps = flat_page_size [OF less.prems(1)]
    have c: "0 < ?n" "?n \<le> remain" using chunk_bounds(1,2) ps False by auto
    have wrap: "size_wrap (addr + offset) = addr + offset" using less.prems(2) ps False by simp
    obtain v1 where v1: "vmm_read_internal env v (addr + offset) remain = Some (mem_bytes mem (addr + offset) ?n, v1)" "flat M v1 mem"
      using vmm_read_internal_spec [OF less.prems(1), of "addr + offset" remain env] c(2) less.prems(2) False by auto
    let ?t = "splice target offset (mem_bytes mem (addr + offset) ?n)"
    have "\<exists>v'. vmm_read_loop env v1 addr ?t (offset + ?n) (remain - ?n) =
      Some (splice ?t (offset + ?n) (mem_bytes mem (addr + (offset + ?n)) (remain - ?n)), v') \<and> flat M v' mem"
      by (rule less.IH) (use c less.prems v1(2) in auto)
    then obtain v' where v': "vmm_read_loop env v1 addr ?t (offset + ?n) (remain - ?n) =
      Some (splice ?t (offset + ?n) (mem_bytes mem (addr + offset + ?n) (remain - ?n)), v')" "flat M v' mem"
      by (auto simp: add.assoc)
    have "splice ?t (offset + ?n) (mem_bytes mem (addr + offset + ?n) (remain - ?n)) =
        splice target offset (mem_bytes mem (addr + offset) remain)"
      using splice_splice [of offset "mem_bytes mem (addr + offset) ?n" "mem_bytes mem (addr + offset + ?n) (remain - ?n)" target]
        mem_bytes_add [of mem "addr + offset" ?n "remain - ?n"] c(2) less.prems(3) by simp
    then show ?thesis using v1 v' False wrap c(2) less.prems(3)
      by (subst vmm_read_loop.simps) simp
  qed
qed

lemma vmm_write_internal_spec:
  assumes fl: "flat M v mem" and a: "addr + chunk v addr len \<le> M" and len: "0 < len" "len \<le> length source"
  shows "\<exists>v'. vmm_write_internal env v addr source len = Some (chunk v addr len, v') \<and>
    flat M v' (mem_write mem addr (take (chunk v addr len) source))"
proof -
  let ?ps = "vmm_page_size v"
  let ?n = "chunk v addr len"
  let ?k = "addr div ?ps"
  let ?o = "addr mod ?ps"
  have ps: "0 < ?ps" using flat_page_size [OF fl] by simp
  note c = chunk_bounds [OF ps len(1), of addr]
  have aM: "addr < M" using a c(1) by simp
  obtain t v' m P where g: "get_page env v addr = Some (t, v')" "vmm_inv M v' m P" "vmm_page_size v' = ?ps"
    "m ?k = Some t" "\<forall>b < M. mem b = page_byte v' m P (b div ?ps) (b mod ?ps)"
    using flat_get_page [OF fl aM, of env] by auto
  have part: "vmm_part M v' m P" using g(2) by (simp add: vmm_inv_def)
  note r = vmm_partD [OF part]
  note t = table_okD [OF r(4) [OF g(4)]]
  let ?bytes = "take ?n source"
  let ?buf = "splice (tab_page_cache (tab v' t)) ?o ?bytes"
  let ?tb = "(tab v' t)\<lparr>tab_page_cache := ?buf, tab_dirty := True\<rparr>"
  let ?v = "v'\<lparr>vmm_tables := heap_put t ?tb (vmm_tables v')\<rparr>"
  have lb: "length ?bytes = ?n" using c(2) len(2) by simp
  have fit: "?o + length ?bytes \<le> length (tab_page_cache (tab v' t))" using lb c(3) t(4) g(3) by simp
  have off: "addr - tab_page_address (tab v' t) = ?o" using t(3) g(3) by (simp add: minus_div_mult_eq_mod)
  have ml: "min len (vmm_page_size v' - ?o) = ?n" using g(3) by (simp add: chunk_def)
  have ld: "mem_load source 0 ?n = Some ?bytes" using c(2) len(2) by (simp add: slice_def)
  have w: "vmm_write_internal env v addr source len = Some (?n, ?v)"
    using g(1) t(1) vmm_nonnull [OF part g(4)] off ml ld fit by (simp add: vmm_write_internal_def Let_def)
  have ne: "u \<noteq> t" if "m j = Some u" "j \<noteq> ?k" for j u using vmm_table_inj [OF part _ g(4), of j] that by auto
  have tabs: "tab ?v u = tab v' u" if "m j = Some u" "j \<noteq> ?k" for j u using ne [OF that] by (simp add: tab_def)
  have new: "tab ?v t = ?tb" by (simp add: tab_def)
  have "table_ok M ?v P j u" if j: "m j = Some u" for j u
  proof (cases "j = ?k")
    case True
    then have "u = t" using j g(4) by simp
    then show ?thesis using True new t(2-5) fit by (simp add: table_ok_def)
  next
    case False
    then show ?thesis using r(4) [OF j] tabs [OF j False] ne [OF j False] by (simp add: table_ok_def)
  qed
  then have inv: "vmm_inv M ?v m P"
    using g(2) heap_wf_put [OF r(3) t(1)] by (simp add: vmm_inv_def vmm_part_def backing_ok_def)
  have "mem_write mem addr ?bytes b = page_byte ?v m P (b div ?ps) (b mod ?ps)" if b: "b < M" for b
  proof (cases "b div ?ps = ?k")
    case True
    have bo: "addr \<le> b \<and> b < addr + ?n \<longleftrightarrow> ?o \<le> b mod ?ps \<and> b mod ?ps < ?o + ?n" "b - addr = b mod ?ps - ?o"
      using div_mult_mod_eq [of b ?ps] div_mult_mod_eq [of addr ?ps] True by (simp_all, linarith+)
    have "b mod ?ps < length (tab_page_cache (tab v' t))" using t(4) g(3) ps by simp
    then show ?thesis
      using bo lb fit g(4,5) b True new by (auto simp: mem_write_def page_byte_def nth_splice)
  next
    case False
    have "\<not> (addr \<le> b \<and> b < addr + ?n)"
    proof
      assume "addr \<le> b \<and> b < addr + ?n"
      then have "b - addr < ?n" "addr + (b - addr) = b" by auto
      then show False using chunk_page(1) [OF ps, of "b - addr" addr len] False by simp
    qed
    then show ?thesis using lb g(5) b False tabs [of "b div ?ps"]
      by (auto simp: mem_write_def page_byte_def split: option.split)
  qed
  then have "flat M ?v (mem_write mem addr ?bytes)" unfolding flat_def using inv g(3) by auto
  then show ?thesis using w by blast
qed

lemma vmm_write_loop_spec:
  assumes "flat M v mem" and "addr + offset + remain \<le> M" and "offset + remain \<le> length source"
  shows "\<exists>v'. vmm_write_loop env v addr source offset remain = Some v' \<and>
    flat M v' (mem_write mem (addr + offset) (slice source offset remain))"
  using assms
proof (induction remain arbitrary: v mem offset rule: less_induct)
  case (less remain)
  show ?case
  proof (cases "remain = 0")
    case True
    then show ?thesis using less.prems by (subst vmm_write_loop.simps) (simp add: slice_def)
  next
    case False
    let ?n = "chunk v (addr + offset) remain"
    note ps = flat_page_size [OF less.prems(1)]
    have c: "0 < ?n" "?n \<le> remain" using chunk_bounds(1,2) ps False by auto
    have wrap: "size_wrap (addr + offset) = addr + offset" using less.prems(2) ps False by simp
    let ?m1 = "mem_write mem (addr + offset) (take ?n (drop offset source))"
    have "remain \<le> length (drop offset source)" using less.prems(3) by (simp only: length_drop)
    then obtain v1 where v1: "vmm_write_internal env v (addr + offset) (drop offset source) remain = Some (?n, v1)" "flat M v1 ?m1"
      using vmm_write_internal_spec [OF less.prems(1), of "addr + offset" remain "drop offset source" env]
        c(2) less.prems(2,3) False by auto
    have "\<exists>v'. vmm_write_loop env v1 addr source (offset + ?n) (remain - ?n) = Some v' \<and>
      flat M v' (mem_write ?m1 (addr + (offset + ?n)) (slice source (offset + ?n) (remain - ?n)))"
      by (rule less.IH) (use c less.prems v1(2) in auto)
    then obtain v' where v': "vmm_write_loop env v1 addr source (offset + ?n) (remain - ?n) = Some v'"
      "flat M v' (mem_write ?m1 (addr + offset + ?n) (slice source (offset + ?n) (remain - ?n)))"
      by (auto simp: add.assoc)
    have "length (take ?n (drop offset source)) = ?n" using c(2) less.prems(3) by simp
    moreover have "take ?n (drop offset source) @ slice source (offset + ?n) (remain - ?n) = slice source offset remain"
      using c(2) take_add [of ?n "remain - ?n" "drop offset source"] by (simp add: slice_def add.commute)
    ultimately have "mem_write ?m1 (addr + offset + ?n) (slice source (offset + ?n) (remain - ?n)) =
        mem_write mem (addr + offset) (slice source offset remain)"
      by (metis mem_write_append)
    then show ?thesis using v1(1) v' False wrap by (subst vmm_write_loop.simps) simp
  qed
qed

lemma vmm_read_flat:
  assumes "flat M v mem" and "addr + len \<le> M" and "len \<le> length target"
  shows "\<exists>v'. vmm_read env v addr target len = Some (splice target 0 (mem_bytes mem addr len), v') \<and> flat M v' mem"
  using vmm_read_loop_spec [of M v mem addr 0 len target env] assms by (simp add: vmm_read_def)

lemma vmm_write_flat:
  assumes "flat M v mem" and "addr + len \<le> M" and "len \<le> length source"
  shows "\<exists>v'. vmm_write env v addr source len = Some v' \<and> flat M v' (mem_write mem addr (take len source))"
  using vmm_write_loop_spec [of M v mem addr 0 len source env] assms by (simp add: vmm_write_def slice_def)

subsection \<open>Flushing\<close>

definition clean_at :: "vmm \<Rightarrow> addr \<Rightarrow> bool" where
  "clean_at v t \<longleftrightarrow> \<not> tab_dirty (tab v t)"

lemma flush_step:
  assumes inv: "vmm_inv M v m P" and t: "m k = Some t"
  shows "\<exists>v' P'. on_page_flush k t v = Some v' \<and> vmm_inv M v' m P' \<and> same_bytes M v m P v' m P' \<and>
    clean_at v' t \<and> (\<forall>u. clean_at v u \<longrightarrow> clean_at v' u) \<and> vmm_lru_cache v' = vmm_lru_cache v"
proof -
  have part: "vmm_part M v m P" using inv by (simp add: vmm_inv_def)
  note r = vmm_partD [OF part]
  note rt = table_okD [OF r(4) [OF t]]
  obtain pc f tb P' where fl: "on_page_flush k t v = Some (v\<lparr>vmm_file := f, vmm_page_cache := pc, vmm_tables := tb\<rparr>)"
    and bk: "backing_ok M (v\<lparr>vmm_file := f, vmm_page_cache := pc, vmm_tables := tb\<rparr>) P'"
    and tb: "tb = heap_put t ((tab v t)\<lparr>tab_dirty := False\<rparr>) (vmm_tables v)"
    and st: "\<forall>j i. i < vmm_page_size v \<longrightarrow> j * vmm_page_size v + i < M \<longrightarrow>
      stored (v\<lparr>vmm_file := f, vmm_page_cache := pc, vmm_tables := tb\<rparr>) P' j i =
        (if j = k then tab_page_cache (tab v t) ! i else stored v P j i)"
    using on_page_flush_spec [OF r(1) r(4) [OF t]] by (elim exE conjE) (rule that)
  obtain v' where v': "v' = v\<lparr>vmm_file := f, vmm_page_cache := pc, vmm_tables := tb\<rparr>" by simp
  have tabs: "tab v' u = (if u = t then (tab v t)\<lparr>tab_dirty := False\<rparr> else tab v u)" for u
    by (simp add: v' tb tab_def)
  have gets: "heap_get (vmm_tables v') u = (if u = t then Some ((tab v t)\<lparr>tab_dirty := False\<rparr>) else heap_get (vmm_tables v) u)" for u
    by (simp add: v' tb)
  have st': "stored v' P' j i = (if j = k then tab_page_cache (tab v t) ! i else stored v P j i)"
    if "i < vmm_page_size v" "j * vmm_page_size v + i < M" for j i using st that by (simp add: v')
  have sz: "vmm_page_size v' = vmm_page_size v" by (simp add: v')
  have ne: "u \<noteq> t" if "m j = Some u" "j \<noteq> k" for j u using vmm_table_inj [OF part _ t, of j] that by auto
  have "table_ok M v' P' j u" if j: "m j = Some u" for j u
  proof (cases "j = k")
    case True
    then have "u = t" using j t by simp
    then show ?thesis using True rt gets tabs st' sz by (simp add: table_ok_def)
  next
    case False
    then show ?thesis using r(4) [OF j] gets tabs st' sz ne [OF j False] by (simp add: table_ok_def)
  qed
  then have "vmm_inv M v' m P'"
    using inv bk heap_wf_put [OF r(3) rt(1)] tb by (simp add: vmm_inv_def vmm_part_def v')
  moreover have "same_bytes M v m P v' m P'"
    unfolding same_bytes_def
  proof (intro conjI allI impI)
    fix j i assume "i < vmm_page_size v" "j * vmm_page_size v + i < M"
    then show "page_byte v' m P' j i = page_byte v m P j i"
      using st' [of i j] tabs ne [of j] t by (cases "m j") (auto simp: page_byte_def)
  qed (simp_all add: v')
  moreover have "clean_at v' t" "\<forall>u. clean_at v u \<longrightarrow> clean_at v' u" using tabs by (simp_all add: clean_at_def)
  moreover have "vmm_lru_cache v' = vmm_lru_cache v" by (simp add: v')
  moreover have "on_page_flush k t v = Some v'" using fl by (simp add: v')
  ultimately show ?thesis by blast
qed

lemma flush_all_pages:
  assumes "vmm_inv M v m P" and "\<forall>e\<in>set es. m (fst e) = Some (fst (snd e))"
  shows "\<exists>v' P'. flush_all on_page_flush es v = Some v' \<and> vmm_inv M v' m P' \<and> same_bytes M v m P v' m P' \<and>
    (\<forall>(k, t, n) \<in> set es. clean_at v' t) \<and> (\<forall>u. clean_at v u \<longrightarrow> clean_at v' u) \<and>
    vmm_lru_cache v' = vmm_lru_cache v"
  using assms
proof (induction es arbitrary: v P)
  case Nil
  then show ?case by (auto intro: same_bytes_refl)
next
  case (Cons e es)
  obtain k t n where e: "e = (k, t, n)" by (cases e) auto
  have mk: "m k = Some t" using Cons.prems(2) e by simp
  obtain v1 P1 where v1: "on_page_flush k t v = Some v1" "vmm_inv M v1 m P1" "same_bytes M v m P v1 m P1"
    "clean_at v1 t" "\<forall>u. clean_at v u \<longrightarrow> clean_at v1 u" "vmm_lru_cache v1 = vmm_lru_cache v"
    using flush_step [OF Cons.prems(1) mk] by blast
  have sub: "\<forall>e\<in>set es. m (fst e) = Some (fst (snd e))" using Cons.prems(2) by simp
  obtain v2 P2 where v2: "flush_all on_page_flush es v1 = Some v2" "vmm_inv M v2 m P2" "same_bytes M v1 m P1 v2 m P2"
    "\<forall>(k, t, n) \<in> set es. clean_at v2 t" "\<forall>u. clean_at v1 u \<longrightarrow> clean_at v2 u" "vmm_lru_cache v2 = vmm_lru_cache v1"
    using Cons.IH [OF v1(2) sub] by blast
  have "flush_all on_page_flush (e # es) v = Some v2" using e v1(1) v2(1) by simp
  moreover have "same_bytes M v m P v2 m P2" using same_bytes_trans [OF v1(3) v2(3)] .
  moreover have "\<forall>(k, t, n) \<in> set (e # es). clean_at v2 t" using e v1(4) v2(4,5) by auto
  ultimately show ?case using v2 v1 by (intro exI conjI) (assumption | simp)+
qed

lemma same_bytes_flat:
  assumes "vmm_inv M v' m' P'" and "same_bytes M v m P v' m' P'" and "0 < vmm_page_size v"
    and "\<forall>a < M. mem a = page_byte v m P (a div vmm_page_size v) (a mod vmm_page_size v)"
  shows "flat M v' mem"
  unfolding flat_def
proof (intro exI conjI allI impI)
  show "vmm_inv M v' m' P'" by (rule assms(1))
  fix a assume a: "a < M"
  have "a mod vmm_page_size v < vmm_page_size v" "a div vmm_page_size v * vmm_page_size v + a mod vmm_page_size v = a"
    using assms(3) by simp_all
  then show "mem a = page_byte v' m' P' (a div vmm_page_size v') (a mod vmm_page_size v')"
    using assms(2,4) a by (simp add: same_bytes_def)
qed

text \<open>All pages in RAM are clean: every byte is the one in the backing store.\<close>

definition synced :: "nat \<Rightarrow> vmm \<Rightarrow> (nat \<Rightarrow> u8) \<Rightarrow> bool" where
  "synced M v mem \<longleftrightarrow> (\<exists>P. backing_ok M v P \<and>
     (\<forall>a < M. mem a = stored v P (a div vmm_page_size v) (a mod vmm_page_size v)))"

lemma vmm_flush_flat:
  assumes "flat M v mem"
  shows "\<exists>v'. vmm_flush v = Some v' \<and> flat M v' mem \<and> synced M v' mem"
proof -
  obtain m P where inv: "vmm_inv M v m P" and mem: "\<forall>a < M. mem a = page_byte v m P (a div vmm_page_size v) (a mod vmm_page_size v)"
    using assms by (auto simp: flat_def)
  have "lru_holds (vmm_lru_cache v) m" using inv by (simp add: vmm_inv_def vmm_part_def tl.in_step_def)
  then obtain es where es: "lru_view (vmm_lru_cache v) es" "m = bindings es" by (auto simp: lru_holds_def)
  have me: "m k = Some t \<longleftrightarrow> (\<exists>n. (k, t, n) \<in> set es)" for k t
    unfolding es(2) by (rule bindings_eq_Some [OF lru_view_distinct [OF es(1)]])
  have "\<forall>e\<in>set es. m (fst e) = Some (fst (snd e))"
    using bindings_entries [OF es(1)] es(2) by simp
  then obtain v' P' where v': "flush_all on_page_flush es v = Some v'" "vmm_inv M v' m P'" "same_bytes M v m P v' m P'"
    "\<forall>(k, t, n) \<in> set es. clean_at v' t"
    using flush_all_pages [OF inv, of es] by blast
  have ps: "0 < vmm_page_size v" using flat_page_size [OF assms] by simp
  have fl: "flat M v' mem" by (rule same_bytes_flat [OF v'(2,3) ps mem])
  have sz: "vmm_page_size v' = vmm_page_size v" using v'(3) by (simp add: same_bytes_def)
  have "mem a = stored v' P' (a div vmm_page_size v') (a mod vmm_page_size v')" if a: "a < M" for a
  proof -
    let ?k = "a div vmm_page_size v" and ?i = "a mod vmm_page_size v"
    have i: "?i < vmm_page_size v" "?k * vmm_page_size v + ?i = a" using ps by simp_all
    have "mem a = page_byte v' m P' ?k ?i" using mem a v'(3) i by (simp add: same_bytes_def)
    also have "\<dots> = stored v' P' ?k ?i"
    proof (cases "m ?k")
      case (Some t)
      then have "table_ok M v' P' ?k t" using v'(2) by (simp add: vmm_inv_def vmm_part_def)
      moreover have "clean_at v' t" using v'(4) me [of ?k t] Some by auto
      ultimately show ?thesis using Some a i sz table_okD(6) [of M v' P' ?k t ?i] by (simp add: page_byte_def clean_at_def)
    qed (simp add: page_byte_def)
    finally show ?thesis using sz by simp
  qed
  then have "synced M v' mem" using v'(2) by (auto simp: synced_def vmm_inv_def vmm_part_def)
  moreover have "vmm_flush v = Some v'" using lru_sync [OF es(1), of on_page_flush v] v'(1) by (simp add: vmm_flush_def)
  ultimately show ?thesis using fl by blast
qed

subsection \<open>Creation\<close>

lemma vmm_create_flat:
  assumes "0 < page_size" and "page_size < 65536" and "0 < blocks" and "blocks < 65536"
    and "page_size * blocks < int_limit" and "length pagefile < 255" and "M < size_limit"
  shows "\<exists>v. vmm_create junk jl jl' True True pagefile M page_size npages blocks = Some (Some v) \<and>
    flat M v (\<lambda>_. 0) \<and> vmm_page_size v = page_size \<and> vmm_number_of_pages v = npages"
proof -
  obtain pc where pc: "page_cache_init junk jl' page_size blocks = Some pc" "pc_holds pc Map.empty" "pc_page_size pc = page_size"
    using page_cache_init_spec [OF assms(2,4,3,5)] by blast
  let ?v = "\<lparr>vmm_page_size = page_size, vmm_number_of_pages = npages,
       vmm_pagetable_size = 0, vmm_open = True, vmm_file = replicate (M + 1) 0,
       vmm_lru_cache = lru_cache_init, vmm_direct_cache = direct_cache_init jl (1024 * 8),
       vmm_page_cache = pc, vmm_tables = heap_empty\<rparr>"
  have inv: "vmm_inv M ?v Map.empty Map.empty"
    using assms(1,7) pc(2,3) in_step_init [of "1024 * 8" jl] by (simp add: vmm_inv_def vmm_part_def backing_ok_def)
  have "page_byte ?v Map.empty Map.empty (a div page_size) (a mod page_size) = 0" if "a < M" for a
    using that by (simp add: page_byte_def stored_def nth_replicate del: replicate_Suc replicate.simps)
  then have "flat M ?v (\<lambda>_. 0)" unfolding flat_def using inv by (intro exI conjI allI impI) (assumption | simp)+
  then show ?thesis using pc(1) assms(6) by (simp add: vmm_create_def)
qed

subsection \<open>Destruction\<close>

lemma vmm_part_pagetable [simp]: "vmm_part M (v\<lparr>vmm_pagetable_size := n\<rparr>) m P \<longleftrightarrow> vmm_part M v m P"
  by (simp add: vmm_part_def backing_ok_def table_ok_def)

lemma vmm_destroy_loop_spec:
  assumes "vmm_inv M v m P"
  shows "\<exists>v' m' P'. vmm_destroy_loop v i = Some v' \<and> vmm_inv M v' m' P' \<and>
    card (dom m') = (if i < card (dom m) then (card (dom m) + i) div 2 else card (dom m))"
  using assms
proof (induction "card (dom m) - i" arbitrary: v m P i rule: less_induct)
  case less
  have part: "vmm_part M v m P" and sz: "vmm_pagetable_size v = card (dom m)" using less.prems by (auto simp: vmm_inv_def)
  have lru: "lru_holds (vmm_lru_cache v) m" using vmm_partD(2) [OF part] by (simp add: tl.in_step_def)
  note cnt = lru_holds_count(2) [OF lru]
  show ?case
  proof (cases "i < card (dom m)")
    case False
    then show ?thesis using less.prems cnt by (subst vmm_destroy_loop.simps) auto
  next
    case True
    then have "m \<noteq> Map.empty" by auto
    then obtain k t where t: "m k = Some t" "lru_cache_get_least_recently_used (vmm_lru_cache v) = Some t"
      using lru_holds_least [OF lru] by auto
    obtain v1 P1 where v1: "free_vmtable v t = Some v1" "vmm_part M v1 (m(k := None)) P1"
      "same_bytes M v m P v1 (m(k := None)) P1" "vmm_pagetable_size v1 = vmm_pagetable_size v"
      using free_vmtable_spec [OF part t(1)] by blast
    let ?v1 = "v1\<lparr>vmm_pagetable_size := vmm_pagetable_size v1 - 1\<rparr>"
    let ?m1 = "m(k := None)"
    have c: "card (dom ?m1) = card (dom m) - 1"
      using vmm_inv_finite [OF part] t(1) by (simp add: domIff)
    have "card (dom m) - 1 \<le> max 1 (vmm_number_of_pages v)" using less.prems by (auto simp: vmm_inv_def)
    then have inv1: "vmm_inv M ?v1 ?m1 P1" using v1(2,3,4) sz c by (simp add: vmm_inv_def same_bytes_def)
    have lt: "card (dom ?m1) - (i + 1) < card (dom m) - i" using True c by linarith
    obtain v' m' P' where ih: "vmm_destroy_loop ?v1 (i + 1) = Some v'" "vmm_inv M v' m' P'"
      "card (dom m') = (if i + 1 < card (dom ?m1) then (card (dom ?m1) + (i + 1)) div 2 else card (dom ?m1))"
      using less.hyps [OF lt inv1] by (elim exE conjE) (rule that)
    have "card (dom m') = (card (dom m) + i) div 2" using ih(3) c True by auto
    moreover have "vmm_destroy_loop v i = Some v'"
      using True cnt t v1(1) ih(1) vmm_nonnull [OF part t(1)] by (subst vmm_destroy_loop.simps) simp
    ultimately show ?thesis using ih(2) True by auto
  qed
qed

lemma vmm_destroy_total:
  assumes "flat M v mem"
  shows "\<exists>f. vmm_destroy v = Some f"
proof -
  obtain m P where inv: "vmm_inv M v m P" using assms by (auto simp: flat_def)
  obtain v1 m1 P1 where v1: "vmm_destroy_loop v 0 = Some v1" "vmm_inv M v1 m1 P1"
    using vmm_destroy_loop_spec [OF inv] by blast
  have "lru_holds (vmm_lru_cache v1) m1" using v1(2) by (simp add: vmm_inv_def vmm_part_def tl.in_step_def)
  then obtain es where es: "lru_view (vmm_lru_cache v1) es" "m1 = bindings es" by (auto simp: lru_holds_def)
  have me: "\<forall>e\<in>set es. m1 (fst e) = Some (fst (snd e))"
    using bindings_entries [OF es(1)] es(2) by simp
  obtain v2 P2 where v2: "(if vmm_open v1 then vmm_flush v1 else Some v1) = Some v2" "vmm_inv M v2 m1 P2"
    "vmm_lru_cache v2 = vmm_lru_cache v1"
  proof (cases "vmm_open v1")
    case True
    obtain v2 P2 where "flush_all on_page_flush es v1 = Some v2" "vmm_inv M v2 m1 P2" "vmm_lru_cache v2 = vmm_lru_cache v1"
      using flush_all_pages [OF v1(2) me] by blast
    then show thesis using that True lru_sync [OF es(1), of on_page_flush v1] by (simp add: vmm_flush_def)
  qed (use that v1(2) in simp)
  have me': "\<forall>e\<in>set (rev es). m1 (fst e) = Some (fst (snd e))" using me by simp
  obtain v3 where "flush_all on_page_flush (rev es) v2 = Some v3" using flush_all_pages [OF v2(2) me'] by blast
  then obtain h items where "lru_cache_free on_page_flush (vmm_lru_cache v2) v2 = Some (h, items, v3)"
    using lru_free [of "vmm_lru_cache v2" es on_page_flush v2 v3] es(1) v2(3) by auto
  then show ?thesis using v1(1) v2(1) by (simp add: vmm_destroy_def)
qed

subsection \<open>Sequences of operations\<close>

datatype vmm_op = VRead nat nat | VWrite nat "u8 list" | VFlush

fun vmm_run :: "vm_env \<Rightarrow> vmm \<Rightarrow> vmm_op list \<Rightarrow> (u8 list list \<times> vmm) option" where
  "vmm_run env v [] = Some ([], v)"
| "vmm_run env v (VRead a n # ops) = do {
     (bs, v) \<leftarrow> vmm_read env v a (replicate n 0) n;
     (out, v) \<leftarrow> vmm_run env v ops;
     Some (bs # out, v)
   }"
| "vmm_run env v (VWrite a bs # ops) = do {
     v \<leftarrow> vmm_write env v a bs (length bs);
     vmm_run env v ops
   }"
| "vmm_run env v (VFlush # ops) = do {
     v \<leftarrow> vmm_flush v;
     vmm_run env v ops
   }"

fun flat_run :: "(nat \<Rightarrow> u8) \<Rightarrow> vmm_op list \<Rightarrow> u8 list list \<times> (nat \<Rightarrow> u8)" where
  "flat_run mem [] = ([], mem)"
| "flat_run mem (VRead a n # ops) = (let (out, mem') = flat_run mem ops in (mem_bytes mem a n # out, mem'))"
| "flat_run mem (VWrite a bs # ops) = flat_run (mem_write mem a bs) ops"
| "flat_run mem (VFlush # ops) = flat_run mem ops"

fun op_in_range :: "nat \<Rightarrow> vmm_op \<Rightarrow> bool" where
  "op_in_range M (VRead a n) \<longleftrightarrow> a + n \<le> M"
| "op_in_range M (VWrite a bs) \<longleftrightarrow> a + length bs \<le> M"
| "op_in_range M VFlush \<longleftrightarrow> True"

lemma vmm_run_flat:
  assumes "flat M v mem" and "list_all (op_in_range M) ops"
  shows "\<exists>v'. vmm_run env v ops = Some (fst (flat_run mem ops), v') \<and> flat M v' (snd (flat_run mem ops))"
  using assms
proof (induction ops arbitrary: v mem)
  case (Cons op ops)
  show ?case
  proof (cases op)
    case (VRead a n)
    then obtain v1 where v1: "vmm_read env v a (replicate n 0) n = Some (splice (replicate n 0) 0 (mem_bytes mem a n), v1)" "flat M v1 mem"
      using vmm_read_flat [OF Cons.prems(1), of a n "replicate n 0" env] Cons.prems(2) by auto
    have "splice (replicate n 0) 0 (mem_bytes mem a n) = mem_bytes mem a n" by (simp add: splice_def)
    then show ?thesis using VRead v1 Cons.IH [OF v1(2)] Cons.prems(2) by (auto simp: split_beta)
  next
    case (VWrite a bs)
    then obtain v1 where "vmm_write env v a bs (length bs) = Some v1" "flat M v1 (mem_write mem a bs)"
      using vmm_write_flat [OF Cons.prems(1), of a "length bs" bs env] Cons.prems(2) by auto
    then show ?thesis using VWrite Cons.IH [of v1 "mem_write mem a bs"] Cons.prems(2) by auto
  next
    case VFlush
    then obtain v1 where "vmm_flush v = Some v1" "flat M v1 mem" using vmm_flush_flat [OF Cons.prems(1)] by blast
    then show ?thesis using VFlush Cons.IH [of v1 mem] Cons.prems(2) by auto
  qed
qed simp

subsection \<open>Properties\<close>

text \<open>An allocator for the witnesses: fresh memory holds junk.\<close>

definition sample_env :: vm_env where
  "sample_env = \<lparr>
     fresh_table = (\<lambda>a. \<lparr>tab_page_number = 7, tab_page_address = a, tab_page_cache = [], tab_dirty = True\<rparr>),
     fresh_bytes = (\<lambda>a i. 165)\<rparr>"

text \<open>C1: A virtual memory that \<open>vmm_create\<close> returns behaves as a flat array of
  \<open>maximum_size\<close> zero bytes: every sequence of in-range reads, writes and flushes runs to
  completion without undefined behaviour and each read returns what the array holds, whatever
  the number of pages in RAM, the number of blocks and the contents of fresh memory are.\<close>

theorem vmm_refines_flat_memory:
  assumes "0 < page_size" and "page_size < 65536" and "0 < blocks" and "blocks < 65536"
    and "page_size * blocks < int_limit" and "length pagefile < 255" and "M < size_limit"
    and "list_all (op_in_range M) ops"
  shows "\<exists>v v'. vmm_create junk jl jl' True True pagefile M page_size npages blocks = Some (Some v) \<and>
    vmm_run env v ops = Some (fst (flat_run (\<lambda>_. 0) ops), v') \<and> flat M v' (snd (flat_run (\<lambda>_. 0) ops))"
proof -
  obtain v where "vmm_create junk jl jl' True True pagefile M page_size npages blocks = Some (Some v)" "flat M v (\<lambda>_. 0)"
    using vmm_create_flat [OF assms(1-7)] by blast
  then show ?thesis using vmm_run_flat [OF _ assms(8)] by blast
qed

lemma vmm_refines_flat_memory_witness:
  "\<exists>v v'. vmm_create (\<lambda>_. 255) (\<lambda>_. 9) (\<lambda>_. 9) True True ''swap'' 6 2 1 1 = Some (Some v) \<and>
    vmm_run sample_env v [VWrite 1 [7, 8, 9], VFlush, VWrite 5 [4], VRead 0 6] = Some ([[0, 7, 8, 9, 0, 4]], v')"
proof -
  have "list_all (op_in_range 6) [VWrite 1 [7, 8, 9], VFlush, VWrite 5 [4], VRead 0 6]" by simp
  moreover have "fst (flat_run (\<lambda>_. 0) [VWrite 1 [7, 8, 9], VFlush, VWrite 5 [4], VRead 0 6]) = [[0, 7, 8, 9, 0, 4]]"
    by (simp add: mem_bytes_def mem_write_def upt_rec)
  ultimately show ?thesis
    using vmm_refines_flat_memory [of 2 1 "''swap''" 6 "[VWrite 1 [7, 8, 9], VFlush, VWrite 5 [4], VRead 0 6]"
        "\<lambda>_. 255" "\<lambda>_. 9" "\<lambda>_. 9" 1 sample_env]
    by (auto simp: int_limit_def size_limit_def)
qed

text \<open>C2: One read: for an in-range address and length, the bytes of the flat memory are copied to
  the start of the target, the rest of the target and the memory stay as they are.\<close>

theorem vmm_read_correct:
  assumes "flat M v mem" and "addr + len \<le> M" and "len \<le> length target"
  shows "\<exists>v'. vmm_read env v addr target len = Some (splice target 0 (mem_bytes mem addr len), v') \<and> flat M v' mem"
  using assms by (rule vmm_read_flat)

lemma vmm_read_correct_witness:
  "\<exists>v v'. flat 6 v (\<lambda>_. 0) \<and> vmm_read sample_env v 1 [1, 2, 3] 2 = Some ([0, 0, 3], v')"
proof -
  obtain v where v: "flat 6 v (\<lambda>_. 0)"
    using vmm_create_flat [of 2 1 "''swap''" 6] by (force simp: int_limit_def size_limit_def)
  then show ?thesis using vmm_read_correct [OF v, of 1 2 "[1, 2, 3]" sample_env]
    by (auto simp: splice_def mem_bytes_def upt_rec)
qed

text \<open>C3: One write: for an in-range address and length the flat memory changes at exactly the
  addressed bytes.\<close>

theorem vmm_write_correct:
  assumes "flat M v mem" and "addr + len \<le> M" and "len \<le> length source"
  shows "\<exists>v'. vmm_write env v addr source len = Some v' \<and> flat M v' (mem_write mem addr (take len source))"
  using assms by (rule vmm_write_flat)

lemma vmm_write_correct_witness:
  "\<exists>v v'. flat 6 v (\<lambda>_. 0) \<and> vmm_write sample_env v 1 [1, 2, 3] 2 = Some v' \<and> flat 6 v' (mem_write (\<lambda>_. 0) 1 [1, 2])"
proof -
  obtain v where v: "flat 6 v (\<lambda>_. 0)"
    using vmm_create_flat [of 2 1 "''swap''" 6] by (force simp: int_limit_def size_limit_def)
  then show ?thesis using vmm_write_correct [OF v, of 1 2 "[1, 2, 3]" sample_env] by auto
qed



text \<open>C5: \<open>vmm_destroy\<close> runs to completion without freeing a page or an entry twice and without
  reading a freed one, on every state the operations can reach.\<close>

theorem vmm_destroy_safe:
  assumes "flat M v mem"
  shows "\<exists>f. vmm_destroy v = Some f"
  using assms by (rule vmm_destroy_total)

lemma vmm_destroy_safe_witness: "\<exists>v f. flat 6 v (\<lambda>_. 0) \<and> vmm_destroy v = Some f"
proof -
  obtain v where v: "flat 6 v (\<lambda>_. 0)"
    using vmm_create_flat [of 2 1 "''swap''" 6] by (force simp: int_limit_def size_limit_def)
  then show ?thesis using vmm_destroy_safe [OF v] by blast
qed

end
