(* ===== verification/PhysMem.thy ===== *)
theory PhysMem
  imports VmmCorrect
begin

unbundle bit_operations_syntax

section \<open>The physical memory map (lib/tinyemu/iomem.c, iomem.h)\<close>

text \<open>
  The map is an array of at most 32 ranges. A RAM range has a virtual memory behind it
  (\<open>pr_vmm\<close>, NULL for a device) and may keep one dirty bit for each 4 KiB page, in one of
  two tables that are swapped when the bits are read. A device range has an \<open>opaque\<close>
  pointer and two access functions; the model keeps the number of the device
  (\<open>pr_opaque\<close>), and what the functions do is given where they are called.

  A pointer to a range is its index, and \<open>None\<close> as an index is NULL. \<open>pr_phys_mem\<close> of the
  source is always NULL (the RAM is behind the virtual memory), so the pointers that the source
  computes from it are offsets. A failing \<open>assert\<close> stops the program, and is \<open>None\<close> like
  the other runs that do not return.

  The four function pointers of the map are only ever set to the default functions and are called
  directly. \<open>flush_tlb_write_range\<close> is the pointer that the machine sets, a parameter of
  the operations that call it; the world \<open>'w\<close> is what it changes.
\<close>

definition DEVRAM_FLAG_ROM :: u32 where "DEVRAM_FLAG_ROM = 1"
definition DEVRAM_FLAG_DIRTY_BITS :: u32 where "DEVRAM_FLAG_DIRTY_BITS = 2"
definition DEVRAM_FLAG_DISABLED :: u32 where "DEVRAM_FLAG_DISABLED = 4"
definition DEVRAM_PAGE_SIZE_LOG2 :: nat where "DEVRAM_PAGE_SIZE_LOG2 = 12"
definition DEVRAM_PAGE_SIZE :: u64 where "DEVRAM_PAGE_SIZE = 4096"
definition DEVIO_SIZE8 :: u32 where "DEVIO_SIZE8 = 1"
definition DEVIO_SIZE16 :: u32 where "DEVIO_SIZE16 = 2"
definition DEVIO_SIZE32 :: u32 where "DEVIO_SIZE32 = 4"
definition DEVIO_DISABLED :: u32 where "DEVIO_DISABLED = 16"
definition PHYS_MEM_RANGE_MAX :: nat where "PHYS_MEM_RANGE_MAX = 32"

lemmas devram_defs = DEVRAM_FLAG_ROM_def DEVRAM_FLAG_DIRTY_BITS_def DEVRAM_FLAG_DISABLED_def
  DEVRAM_PAGE_SIZE_LOG2_def DEVRAM_PAGE_SIZE_def DEVIO_SIZE8_def DEVIO_SIZE16_def DEVIO_SIZE32_def
  DEVIO_DISABLED_def

record phys_mem_range =
  pr_addr :: u64
  pr_org_size :: u64
  pr_size :: u64
  pr_is_ram :: bool
  pr_devram_flags :: u32
  pr_vmm :: "vmm option"
  pr_dirty_bits_size :: nat
  pr_dirty_bits :: "nat option"
  pr_dirty_bits_tab :: "u32 list list"
  pr_dirty_bits_index :: nat
  pr_opaque :: nat
  pr_devio_flags :: u32

text \<open>
  The map is allocated with \<open>mallocz\<close>: a range that is registered starts as zeros. The list
  holds the first \<open>n_phys_mem_range\<close> entries of the array.
\<close>

definition range_zero :: phys_mem_range where
  "range_zero = \<lparr>pr_addr = 0, pr_org_size = 0, pr_size = 0, pr_is_ram = False, pr_devram_flags = 0,
     pr_vmm = None, pr_dirty_bits_size = 0, pr_dirty_bits = None, pr_dirty_bits_tab = [[], []],
     pr_dirty_bits_index = 0, pr_opaque = 0, pr_devio_flags = 0\<rparr>"

record phys_mem_map =
  phys_mem_range :: "phys_mem_range list"

definition phys_mem_map_init :: phys_mem_map where
  "phys_mem_map_init = \<lparr>phys_mem_range = []\<rparr>"

type_synonym 'w flush_tlb = "u64 \<Rightarrow> u64 \<Rightarrow> 'w \<Rightarrow> 'w option"

definition range_at :: "phys_mem_map \<Rightarrow> nat \<Rightarrow> phys_mem_range option" where
  "range_at s i = (if i < length (phys_mem_range s) then Some (phys_mem_range s ! i) else None)"

definition set_range :: "phys_mem_map \<Rightarrow> nat \<Rightarrow> phys_mem_range \<Rightarrow> phys_mem_map" where
  "set_range s i pr = s\<lparr>phys_mem_range := (phys_mem_range s)[i := pr]\<rparr>"

definition in_range :: "phys_mem_range \<Rightarrow> u64 \<Rightarrow> bool" where
  "in_range pr paddr \<longleftrightarrow> paddr \<ge> pr_addr pr \<and> paddr < pr_addr pr + pr_size pr"

fun find_range :: "phys_mem_range list \<Rightarrow> nat \<Rightarrow> u64 \<Rightarrow> nat option" where
  "find_range [] i paddr = None"
| "find_range (pr # prs) i paddr =
     (if paddr \<ge> pr_addr pr \<and> paddr < pr_addr pr + pr_size pr then Some i
      else find_range prs (Suc i) paddr)"

definition get_phys_mem_range :: "phys_mem_map \<Rightarrow> u64 \<Rightarrow> nat option" where
  "get_phys_mem_range s paddr = find_range (phys_mem_range s) 0 paddr"

subsection \<open>Registration\<close>

definition register_ram_entry ::
  "phys_mem_map \<Rightarrow> u64 \<Rightarrow> u64 \<Rightarrow> u32 \<Rightarrow> (nat \<times> phys_mem_map) option" where
  "register_ram_entry s addr sz devram_flags = do {
     guard (length (phys_mem_range s) < PHYS_MEM_RANGE_MAX);
     guard (sz AND (DEVRAM_PAGE_SIZE - 1) = 0 \<and> sz \<noteq> 0);
     let pr = range_zero\<lparr>
       pr_is_ram := True,
       pr_devram_flags := devram_flags AND NOT DEVRAM_FLAG_DISABLED,
       pr_addr := addr,
       pr_org_size := sz,
       pr_size := (if devram_flags AND DEVRAM_FLAG_DISABLED \<noteq> 0 then 0 else sz),
       pr_dirty_bits := None\<rparr>;
     Some (length (phys_mem_range s), s\<lparr>phys_mem_range := phys_mem_range s @ [pr]\<rparr>)
   }"

text \<open>The text of \<open>%\<close>\<open>PRIx64\<close>: hexadecimal digits without leading zeros.\<close>

definition hex_digit :: "nat \<Rightarrow> char" where
  "hex_digit d = char_of (if d < 10 then 48 + d else 87 + d)"

fun hex_string :: "nat \<Rightarrow> string" where
  "hex_string n = (if n < 16 then [hex_digit n] else hex_string (n div 16) @ [hex_digit (n mod 16)])"

declare hex_string.simps [simp del]

text \<open>
  What the surroundings of a registration decide: the current directory of the virtual directory,
  whether \<open>fopen\<close> succeeds, and the contents of fresh memory (as for \<open>vmm_create\<close>).
\<close>

record ram_setup =
  ru_cwd :: string
  ru_created :: bool
  ru_reopened :: bool
  ru_junk :: "nat \<Rightarrow> u8"
  ru_junk_lines :: "nat \<Rightarrow> addr"
  ru_junk_lines' :: "nat \<Rightarrow> addr"

definition dirty_bits_size :: "u64 \<Rightarrow> nat" where
  "dirty_bits_size sz =
     ((size_wrap (unat (drop_bit DEVRAM_PAGE_SIZE_LOG2 sz)) + 31) div 32) * 4"

definition default_register_ram ::
  "ram_setup \<Rightarrow> phys_mem_map \<Rightarrow> u64 \<Rightarrow> u64 \<Rightarrow> u32 \<Rightarrow> (nat \<times> phys_mem_map) option" where
  "default_register_ram setup s addr sz devram_flags = do {
     (i, s) \<leftarrow> register_ram_entry s addr sz devram_flags;
     pr \<leftarrow> range_at s i;
     let filename = ''pagefile0x'' @ hex_string (unat addr) @ ''.bin'';
     guard (length (ru_cwd setup) + length filename < 256);
     let fullpath = ru_cwd setup @ filename;
     let vmm_page_size = 1024 * 8;
     let (maximum_blocks, vmm_pages) = (if addr = 0 then (12, 10) else (500, 400));
     v \<leftarrow> vmm_create (ru_junk setup) (ru_junk_lines setup) (ru_junk_lines' setup)
            (ru_created setup) (ru_reopened setup) fullpath (size_wrap (unat sz)) vmm_page_size
            vmm_pages maximum_blocks;
     v \<leftarrow> v;
     let pr = pr\<lparr>pr_vmm := Some v\<rparr>;
     let pr = (if devram_flags AND DEVRAM_FLAG_DIRTY_BITS \<noteq> 0 then
         let n = dirty_bits_size sz;
             tab = replicate (n div 4) 0
         in pr\<lparr>pr_dirty_bits_size := n, pr_dirty_bits_index := 0,
              pr_dirty_bits_tab := [tab, tab], pr_dirty_bits := Some 0\<rparr>
       else pr);
     Some (i, set_range s i pr)
   }"

definition cpu_register_ram ::
  "ram_setup \<Rightarrow> phys_mem_map \<Rightarrow> u64 \<Rightarrow> u64 \<Rightarrow> u32 \<Rightarrow> (nat \<times> phys_mem_map) option" where
  "cpu_register_ram setup s addr sz devram_flags =
     default_register_ram setup s addr sz devram_flags"

definition cpu_register_device ::
  "phys_mem_map \<Rightarrow> u64 \<Rightarrow> u64 \<Rightarrow> nat \<Rightarrow> u32 \<Rightarrow> (nat \<times> phys_mem_map) option" where
  "cpu_register_device s addr sz opaque devio_flags = do {
     guard (length (phys_mem_range s) < PHYS_MEM_RANGE_MAX);
     guard (sz \<le> 0xffffffff);
     let pr = range_zero\<lparr>
       pr_addr := addr,
       pr_org_size := sz,
       pr_size := (if devio_flags AND DEVIO_DISABLED \<noteq> 0 then 0 else sz),
       pr_is_ram := False,
       pr_opaque := opaque,
       pr_devio_flags := devio_flags\<rparr>;
     Some (length (phys_mem_range s), s\<lparr>phys_mem_range := phys_mem_range s @ [pr]\<rparr>)
   }"

subsection \<open>Dirty bits\<close>

definition dirty_table :: "phys_mem_range \<Rightarrow> nat \<Rightarrow> u32 list option" where
  "dirty_table pr t =
     (if t < length (pr_dirty_bits_tab pr) then Some (pr_dirty_bits_tab pr ! t) else None)"

definition dirty_word :: "phys_mem_range \<Rightarrow> nat \<Rightarrow> nat \<Rightarrow> u32 option" where
  "dirty_word pr t w = do {
     bits \<leftarrow> dirty_table pr t;
     guard (w < length bits);
     Some (bits ! w)
   }"

definition put_dirty_word :: "phys_mem_range \<Rightarrow> nat \<Rightarrow> nat \<Rightarrow> u32 \<Rightarrow> phys_mem_range" where
  "put_dirty_word pr t w x = pr\<lparr>pr_dirty_bits_tab :=
     (pr_dirty_bits_tab pr)[t := (pr_dirty_bits_tab pr ! t)[w := x]]\<rparr>"

definition phys_mem_set_dirty_bit :: "phys_mem_range \<Rightarrow> nat \<Rightarrow> phys_mem_range option" where
  "phys_mem_set_dirty_bit pr offset =
     (case pr_dirty_bits pr of
        None \<Rightarrow> Some pr
      | Some t \<Rightarrow> do {
          let page_index = drop_bit DEVRAM_PAGE_SIZE_LOG2 offset;
          let mask = push_bit (page_index AND 0x1f) (1 :: u32);
          w \<leftarrow> dirty_word pr t (drop_bit 5 page_index);
          Some (put_dirty_word pr t (drop_bit 5 page_index) (w OR mask))
        })"

definition phys_mem_is_dirty_bit :: "phys_mem_range \<Rightarrow> nat \<Rightarrow> bool option" where
  "phys_mem_is_dirty_bit pr offset =
     (case pr_dirty_bits pr of
        None \<Rightarrow> Some True
      | Some t \<Rightarrow> do {
          let page_index = drop_bit DEVRAM_PAGE_SIZE_LOG2 offset;
          w \<leftarrow> dirty_word pr t (drop_bit 5 page_index);
          Some (drop_bit (page_index AND 0x1f) w AND 1 \<noteq> 0)
        })"

definition phys_mem_reset_dirty_bit ::
  "'w flush_tlb \<Rightarrow> phys_mem_range \<Rightarrow> nat \<Rightarrow> 'w \<Rightarrow> (phys_mem_range \<times> 'w) option" where
  "phys_mem_reset_dirty_bit flush_tlb pr offset world =
     (case pr_dirty_bits pr of
        None \<Rightarrow> Some (pr, world)
      | Some t \<Rightarrow> do {
          let page_index = drop_bit DEVRAM_PAGE_SIZE_LOG2 offset;
          let mask = push_bit (page_index AND 0x1f) (1 :: u32);
          w \<leftarrow> dirty_word pr t (drop_bit 5 page_index);
          if w AND mask \<noteq> 0 then do {
            let pr = put_dirty_word pr t (drop_bit 5 page_index) (w AND NOT mask);
            world \<leftarrow> flush_tlb (word_of_nat offset AND NOT (DEVRAM_PAGE_SIZE - 1)) DEVRAM_PAGE_SIZE world;
            Some (pr, world)
          } else Some (pr, world)
        })"

text \<open>The result is the table that was in use; the other one is cleared and used from now on.\<close>

definition default_get_dirty_bits ::
  "'w flush_tlb \<Rightarrow> phys_mem_range \<Rightarrow> 'w \<Rightarrow> (u32 list \<times> phys_mem_range \<times> 'w) option" where
  "default_get_dirty_bits flush_tlb pr world = do {
     t \<leftarrow> pr_dirty_bits pr;
     dirty_bits \<leftarrow> dirty_table pr t;
     let n = pr_dirty_bits_size pr div 4;
     guard (n \<le> length dirty_bits);
     let has_dirty_bits = (\<exists>w \<in> set (take n dirty_bits). w \<noteq> 0);
     world \<leftarrow> (if has_dirty_bits \<and> pr_size pr \<noteq> 0
        then flush_tlb 0 (pr_org_size pr) world else Some world);
     let index = pr_dirty_bits_index pr XOR 1;
     next_bits \<leftarrow> dirty_table pr index;
     guard (n \<le> length next_bits);
     Some (dirty_bits, pr\<lparr>pr_dirty_bits_index := index, pr_dirty_bits := Some index,
       pr_dirty_bits_tab := (pr_dirty_bits_tab pr)[index := replicate n 0 @ drop n next_bits]\<rparr>, world)
   }"

definition phys_mem_get_dirty_bits ::
  "'w flush_tlb \<Rightarrow> phys_mem_range \<Rightarrow> 'w \<Rightarrow> (u32 list \<times> phys_mem_range \<times> 'w) option" where
  "phys_mem_get_dirty_bits flush_tlb pr world = default_get_dirty_bits flush_tlb pr world"

subsection \<open>Moving a range, RAM pointers, IRQ signals\<close>

definition default_set_addr ::
  "'w flush_tlb \<Rightarrow> phys_mem_range \<Rightarrow> u64 \<Rightarrow> bool \<Rightarrow> 'w \<Rightarrow> (phys_mem_range \<times> 'w) option" where
  "default_set_addr flush_tlb pr addr enabled world =
     (if enabled then
        if pr_size pr = 0 \<or> pr_addr pr \<noteq> addr then do {
          world \<leftarrow> (if pr_is_ram pr then flush_tlb 0 (pr_org_size pr) world else Some world);
          Some (pr\<lparr>pr_addr := addr, pr_size := pr_org_size pr\<rparr>, world)
        } else Some (pr, world)
      else
        if pr_size pr \<noteq> 0 then do {
          world \<leftarrow> (if pr_is_ram pr then flush_tlb 0 (pr_org_size pr) world else Some world);
          Some (pr\<lparr>pr_addr := 0, pr_size := 0\<rparr>, world)
        } else Some (pr, world))"

definition phys_mem_set_addr ::
  "'w flush_tlb \<Rightarrow> phys_mem_range \<Rightarrow> u64 \<Rightarrow> bool \<Rightarrow> 'w \<Rightarrow> (phys_mem_range \<times> 'w) option" where
  "phys_mem_set_addr flush_tlb pr addr enabled world =
     (if \<not> pr_is_ram pr then default_set_addr flush_tlb pr addr enabled world
      else default_set_addr flush_tlb pr addr enabled world)"

text \<open>
  The pointer is \<open>phys_mem\<close>, which is NULL, plus the offset of the address in its range:
  the result is NULL (\<open>None\<close>) outside RAM, and otherwise the offset as a pointer.
\<close>

definition phys_mem_get_ram_ptr ::
  "phys_mem_map \<Rightarrow> u64 \<Rightarrow> bool \<Rightarrow> (nat option \<times> phys_mem_map) option" where
  "phys_mem_get_ram_ptr s paddr is_rw =
     (case get_phys_mem_range s paddr of
        None \<Rightarrow> Some (None, s)
      | Some i \<Rightarrow> do {
          pr \<leftarrow> range_at s i;
          if \<not> pr_is_ram pr then Some (None, s)
          else do {
            let offset = size_wrap (unat (paddr - pr_addr pr));
            pr \<leftarrow> (if is_rw then phys_mem_set_dirty_bit pr offset else Some pr);
            Some (Some offset, set_range s i pr)
          }
        })"

record irq_signal =
  irq_opaque :: nat
  irq_num :: int

definition irq_init :: "nat \<Rightarrow> int \<Rightarrow> irq_signal" where
  "irq_init opaque num = \<lparr>irq_opaque = opaque, irq_num = num\<rparr>"

definition set_irq :: "(nat \<Rightarrow> int \<Rightarrow> int \<Rightarrow> 'w \<Rightarrow> 'w option) \<Rightarrow> irq_signal \<Rightarrow> int \<Rightarrow> 'w \<Rightarrow> 'w option" where
  "set_irq func irq level world = func (irq_opaque irq) (irq_num irq) level world"

end
