(* ===== verification/RiscvCpu.thy ===== *)
theory RiscvCpu
  imports PhysMem
begin

unbundle bit_operations_syntax

section \<open>The RISC-V CPU: state and memory access (lib/tinyemu/riscv_cpu.c, riscv_cpu_priv.h)\<close>

text \<open>
  The CPU of the machine \<open>riscv32\<close>: \<open>riscv_cpu32.c\<close> compiles \<open>riscv_cpu.c\<close> with
  \<open>MAX_XLEN\<close> 32, so \<open>FLEN\<close> and \<open>MLEN\<close> are 64, and the branches of the source for other
  widths are not in it. (\<open>riscv_cpu64.c\<close> compiles the same file a second time for \<open>riscv64\<close>.)
  The TLBs are commented out in the source: the functions that flush them do nothing.

  The state is extensible: the state of the devices is a field of an extension of the record, so
  that a device, called with the whole state, can change the CPU (as the source's devices do through
  their \<open>opaque\<close> pointer). A device is a number, and what its access functions do is a
  parameter (\<open>dev_read\<close>, \<open>dev_write\<close>). Signed arithmetic that overflows wraps around,
  as the compilers of the builds implement it.
\<close>

subsection \<open>Constants\<close>

definition CAUSE_ILLEGAL_INSTRUCTION :: u32 where "CAUSE_ILLEGAL_INSTRUCTION = 2"
definition CAUSE_FAULT_FETCH :: u32 where "CAUSE_FAULT_FETCH = 1"
definition CAUSE_BREAKPOINT :: u32 where "CAUSE_BREAKPOINT = 3"
definition CAUSE_USER_ECALL :: u32 where "CAUSE_USER_ECALL = 8"
definition CAUSE_FETCH_PAGE_FAULT :: u32 where "CAUSE_FETCH_PAGE_FAULT = 12"
definition CAUSE_LOAD_PAGE_FAULT :: u32 where "CAUSE_LOAD_PAGE_FAULT = 13"
definition CAUSE_STORE_PAGE_FAULT :: u32 where "CAUSE_STORE_PAGE_FAULT = 15"
definition CAUSE_INTERRUPT :: u32 where "CAUSE_INTERRUPT = push_bit 31 1"

definition PRV_U :: u8 where "PRV_U = 0"
definition PRV_S :: u8 where "PRV_S = 1"
definition PRV_H :: u8 where "PRV_H = 2"
definition PRV_M :: u8 where "PRV_M = 3"

definition MSTATUS_SPIE_SHIFT :: nat where "MSTATUS_SPIE_SHIFT = 5"
definition MSTATUS_MPIE_SHIFT :: nat where "MSTATUS_MPIE_SHIFT = 7"
definition MSTATUS_SPP_SHIFT :: nat where "MSTATUS_SPP_SHIFT = 8"
definition MSTATUS_MPP_SHIFT :: nat where "MSTATUS_MPP_SHIFT = 11"
definition MSTATUS_FS_SHIFT :: nat where "MSTATUS_FS_SHIFT = 13"

definition MSTATUS_UIE :: u32 where "MSTATUS_UIE = push_bit 0 1"
definition MSTATUS_SIE :: u32 where "MSTATUS_SIE = push_bit 1 1"
definition MSTATUS_MIE :: u32 where "MSTATUS_MIE = push_bit 3 1"
definition MSTATUS_UPIE :: u32 where "MSTATUS_UPIE = push_bit 4 1"
definition MSTATUS_SPIE :: u32 where "MSTATUS_SPIE = push_bit MSTATUS_SPIE_SHIFT 1"
definition MSTATUS_MPIE :: u32 where "MSTATUS_MPIE = push_bit MSTATUS_MPIE_SHIFT 1"
definition MSTATUS_SPP :: u32 where "MSTATUS_SPP = push_bit MSTATUS_SPP_SHIFT 1"
definition MSTATUS_MPP :: u32 where "MSTATUS_MPP = push_bit MSTATUS_MPP_SHIFT 3"
definition MSTATUS_FS :: u32 where "MSTATUS_FS = push_bit MSTATUS_FS_SHIFT 3"
definition MSTATUS_XS :: u32 where "MSTATUS_XS = push_bit 15 3"
definition MSTATUS_MPRV :: u32 where "MSTATUS_MPRV = push_bit 17 1"
definition MSTATUS_SUM :: u32 where "MSTATUS_SUM = push_bit 18 1"
definition MSTATUS_MXR :: u32 where "MSTATUS_MXR = push_bit 19 1"

lemmas mstatus_shifts = MSTATUS_SPIE_SHIFT_def MSTATUS_MPIE_SHIFT_def MSTATUS_SPP_SHIFT_def
  MSTATUS_MPP_SHIFT_def MSTATUS_FS_SHIFT_def
lemmas mstatus_bits = MSTATUS_UIE_def MSTATUS_SIE_def MSTATUS_MIE_def MSTATUS_UPIE_def
  MSTATUS_SPIE_def MSTATUS_MPIE_def MSTATUS_SPP_def MSTATUS_MPP_def MSTATUS_FS_def MSTATUS_XS_def
  MSTATUS_MPRV_def MSTATUS_SUM_def MSTATUS_MXR_def
lemmas prv_defs = PRV_U_def PRV_S_def PRV_H_def PRV_M_def
lemmas cause_defs = CAUSE_ILLEGAL_INSTRUCTION_def CAUSE_FAULT_FETCH_def CAUSE_BREAKPOINT_def
  CAUSE_USER_ECALL_def CAUSE_FETCH_PAGE_FAULT_def CAUSE_LOAD_PAGE_FAULT_def
  CAUSE_STORE_PAGE_FAULT_def CAUSE_INTERRUPT_def

definition PG_SHIFT :: nat where "PG_SHIFT = 12"
definition PG_MASK :: u32 where "PG_MASK = 4095"

definition PTE_V_MASK :: u32 where "PTE_V_MASK = push_bit 0 1"
definition PTE_U_MASK :: u32 where "PTE_U_MASK = push_bit 4 1"
definition PTE_A_MASK :: u32 where "PTE_A_MASK = push_bit 6 1"
definition PTE_D_MASK :: u32 where "PTE_D_MASK = push_bit 7 1"
definition ACCESS_READ :: nat where "ACCESS_READ = 0"
definition ACCESS_WRITE :: nat where "ACCESS_WRITE = 1"
definition ACCESS_CODE :: nat where "ACCESS_CODE = 2"

lemmas pte_defs = PTE_V_MASK_def PTE_U_MASK_def PTE_A_MASK_def PTE_D_MASK_def
lemmas access_defs = ACCESS_READ_def ACCESS_WRITE_def ACCESS_CODE_def

subsection \<open>State\<close>

record riscv_cpu =
  pc :: u32
  reg :: "u32 list"
  fp_reg :: "u64 list"
  fflags :: u32
  frm :: u8
  cur_xlen :: u8
  priv :: u8
  fs :: u8
  mxl :: u8
  insn_counter :: u64
  power_down_flag :: bool
  pending_exception :: int
  pending_tval :: u32
  mstatus :: u32
  mtvec :: u32
  mscratch :: u32
  mepc :: u32
  mcause :: u32
  mtval :: u32
  mhartid :: u32
  misa :: u32
  mie :: u32
  mip :: u32
  medeleg :: u32
  mideleg :: u32
  mcounteren :: u32
  stvec :: u32
  sscratch :: u32
  sepc :: u32
  scause :: u32
  stval :: u32
  satp :: u32
  scounteren :: u32
  load_res :: u32
  mem_map :: phys_mem_map

text \<open>
  The floating-point operations of \<open>softfp\<close> on one format, which the theory FloatUnit gives. The
  arguments are the operands, then a rounding mode where there is one, then the accrued flags; the
  result comes with the new flags.
\<close>

record 'w softfp_ops =
  sf_add :: "'w \<Rightarrow> 'w \<Rightarrow> u32 \<Rightarrow> u32 \<Rightarrow> 'w \<times> u32"
  sf_sub :: "'w \<Rightarrow> 'w \<Rightarrow> u32 \<Rightarrow> u32 \<Rightarrow> 'w \<times> u32"
  sf_mul :: "'w \<Rightarrow> 'w \<Rightarrow> u32 \<Rightarrow> u32 \<Rightarrow> 'w \<times> u32"
  sf_div :: "'w \<Rightarrow> 'w \<Rightarrow> u32 \<Rightarrow> u32 \<Rightarrow> 'w \<times> u32"
  sf_sqrt :: "'w \<Rightarrow> u32 \<Rightarrow> u32 \<Rightarrow> 'w \<times> u32"
  sf_fma :: "'w \<Rightarrow> 'w \<Rightarrow> 'w \<Rightarrow> u32 \<Rightarrow> u32 \<Rightarrow> 'w \<times> u32"
  sf_min :: "'w \<Rightarrow> 'w \<Rightarrow> u32 \<Rightarrow> 'w \<times> u32"
  sf_max :: "'w \<Rightarrow> 'w \<Rightarrow> u32 \<Rightarrow> 'w \<times> u32"
  sf_le :: "'w \<Rightarrow> 'w \<Rightarrow> u32 \<Rightarrow> bool \<times> u32"
  sf_lt :: "'w \<Rightarrow> 'w \<Rightarrow> u32 \<Rightarrow> bool \<times> u32"
  sf_eq_quiet :: "'w \<Rightarrow> 'w \<Rightarrow> u32 \<Rightarrow> bool \<times> u32"
  sf_fclass :: "'w \<Rightarrow> u32"
  sf_cvt_i32 :: "'w \<Rightarrow> u32 \<Rightarrow> u32 \<Rightarrow> u32 \<times> u32"
  sf_cvt_u32 :: "'w \<Rightarrow> u32 \<Rightarrow> u32 \<Rightarrow> u32 \<times> u32"
  i32_cvt_sf :: "u32 \<Rightarrow> u32 \<Rightarrow> u32 \<Rightarrow> 'w \<times> u32"
  u32_cvt_sf :: "u32 \<Rightarrow> u32 \<Rightarrow> u32 \<Rightarrow> 'w \<times> u32"

record softfp =
  sf32 :: "u32 softfp_ops"
  sf64 :: "u64 softfp_ops"
  cvt_sf32_sf64 :: "u32 \<Rightarrow> u32 \<Rightarrow> u64 \<times> u32"
  cvt_sf64_sf32 :: "u64 \<Rightarrow> u32 \<Rightarrow> u32 \<Rightarrow> u32 \<times> u32"

text \<open>
  The surroundings of the CPU: what \<open>malloc\<close> hands out to the virtual memory, the contents of
  an uninitialised local variable, the access functions of the devices, and \<open>softfp\<close>.
\<close>

record 's cpu_env =
  ram_env :: vm_env
  uninit :: "'s \<Rightarrow> u64"
  dev_read :: "nat \<Rightarrow> u32 \<Rightarrow> nat \<Rightarrow> 's \<Rightarrow> (u32 \<times> 's) option"
  dev_write :: "nat \<Rightarrow> u32 \<Rightarrow> u32 \<Rightarrow> nat \<Rightarrow> 's \<Rightarrow> 's option"
  fpu :: softfp

text \<open>
  A function that returns 0 or an error code gives \<open>Some\<close> of what it computed, or \<open>None\<close>
  for the error, and the new state; the outer option is as everywhere.
\<close>

type_synonym ('a, 's) attempt = "('a option \<times> 's) option"

definition on_ok :: "('a, 's) attempt \<Rightarrow> ('a \<Rightarrow> 's \<Rightarrow> ('b, 's) attempt) \<Rightarrow> ('b, 's) attempt" where
  "on_ok r f = (case r of
      None \<Rightarrow> None
    | Some (None, s) \<Rightarrow> Some (None, s)
    | Some (Some a, s) \<Rightarrow> f a s)"

lemma on_ok_simps [simp]:
  "on_ok None f = None"
  "on_ok (Some (None, s)) f = Some (None, s)"
  "on_ok (Some (Some a, s)) f = f a s"
  by (simp_all add: on_ok_def)

subsection \<open>Bytes of a word\<close>

text \<open>The targets of the builds are little-endian.\<close>

fun le_word :: "u8 list \<Rightarrow> 'a::len word" where
  "le_word [] = 0"
| "le_word (b # bs) = ucast b OR push_bit 8 (le_word bs)"

fun le_bytes :: "nat \<Rightarrow> 'a::len word \<Rightarrow> u8 list" where
  "le_bytes 0 w = []"
| "le_bytes (Suc n) w = ucast w # le_bytes n (drop_bit 8 w)"

subsection \<open>Physical memory\<close>

definition range_read ::
  "'z riscv_cpu_scheme cpu_env \<Rightarrow> nat \<Rightarrow> nat \<Rightarrow> nat \<Rightarrow> 'z riscv_cpu_scheme \<Rightarrow> (u8 list \<times> 'z riscv_cpu_scheme) option" where
  "range_read env i off n s = do {
     pr \<leftarrow> range_at (mem_map s) i;
     v \<leftarrow> pr_vmm pr;
     (bytes, v) \<leftarrow> vmm_read (ram_env env) v off (replicate n 0) n;
     Some (bytes, s\<lparr>mem_map := set_range (mem_map s) i (pr\<lparr>pr_vmm := Some v\<rparr>)\<rparr>)
   }"

definition range_write ::
  "'z riscv_cpu_scheme cpu_env \<Rightarrow> nat \<Rightarrow> nat \<Rightarrow> u8 list \<Rightarrow> 'z riscv_cpu_scheme \<Rightarrow> 'z riscv_cpu_scheme option" where
  "range_write env i off bytes s = do {
     pr \<leftarrow> range_at (mem_map s) i;
     v \<leftarrow> pr_vmm pr;
     v \<leftarrow> vmm_write (ram_env env) v off bytes (length bytes);
     Some (s\<lparr>mem_map := set_range (mem_map s) i (pr\<lparr>pr_vmm := Some v\<rparr>)\<rparr>)
   }"

definition phys_write_u32 ::
  "'z riscv_cpu_scheme cpu_env \<Rightarrow> u32 \<Rightarrow> u32 \<Rightarrow> 'z riscv_cpu_scheme \<Rightarrow> 'z riscv_cpu_scheme option" where
  "phys_write_u32 env addr val s =
     (case get_phys_mem_range (mem_map s) (ucast addr) of
        None \<Rightarrow> Some s
      | Some i \<Rightarrow> do {
          pr \<leftarrow> range_at (mem_map s) i;
          if \<not> pr_is_ram pr then Some s
          else range_write env i (unat (addr - ucast (pr_addr pr))) (le_bytes 4 val) s
        })"

definition phys_read_u32 ::
  "'z riscv_cpu_scheme cpu_env \<Rightarrow> u32 \<Rightarrow> 'z riscv_cpu_scheme \<Rightarrow> (u32 \<times> 'z riscv_cpu_scheme) option" where
  "phys_read_u32 env addr s =
     (case get_phys_mem_range (mem_map s) (ucast addr) of
        None \<Rightarrow> Some (0, s)
      | Some i \<Rightarrow> do {
          pr \<leftarrow> range_at (mem_map s) i;
          if \<not> pr_is_ram pr then Some (0, s)
          else do {
            (bytes, s) \<leftarrow> range_read env i (unat (addr - ucast (pr_addr pr))) 4 s;
            Some (le_word bytes, s)
          }
        })"

subsection \<open>Address translation\<close>

text \<open>
  The levels of the page table (Sv32 has two). The argument after \<open>pte_addr\<close> is the number of
  levels that are left, \<open>levels - i\<close> in the source. The result is the physical address, or
  \<open>None\<close> for a translation error.
\<close>

definition leaf_denied :: "u8 \<Rightarrow> u32 \<Rightarrow> u32 \<Rightarrow> u32 \<Rightarrow> nat \<Rightarrow> bool" where
  "leaf_denied prv status pte xwr access \<longleftrightarrow>
     xwr = 2 \<or> xwr = 6 \<or>
     (if prv = PRV_S then pte AND PTE_U_MASK \<noteq> 0 \<and> status AND MSTATUS_SUM = 0
      else pte AND PTE_U_MASK = 0) \<or>
     (let xwr = (if status AND MSTATUS_MXR \<noteq> 0 then xwr OR drop_bit 2 xwr else xwr)
      in drop_bit access xwr AND 1 = 0)"

definition translated :: "u32 \<Rightarrow> u32 \<Rightarrow> nat \<Rightarrow> u32" where
  "translated vaddr paddr vaddr_shift =
     (let vaddr_mask = push_bit vaddr_shift 1 - 1
      in (vaddr AND vaddr_mask) OR (paddr AND NOT vaddr_mask))"

definition leaf_write :: "u32 \<Rightarrow> nat \<Rightarrow> bool" where
  "leaf_write pte access \<longleftrightarrow>
     pte AND PTE_A_MASK = 0 \<or> (pte AND PTE_D_MASK = 0 \<and> access = ACCESS_WRITE)"

definition leaf_update :: "u32 \<Rightarrow> nat \<Rightarrow> u32" where
  "leaf_update pte access =
     (let pte = pte OR PTE_A_MASK in if access = ACCESS_WRITE then pte OR PTE_D_MASK else pte)"

primrec page_walk ::
  "'z riscv_cpu_scheme cpu_env \<Rightarrow> u8 \<Rightarrow> u32 \<Rightarrow> nat \<Rightarrow> u32 \<Rightarrow> nat \<Rightarrow> 'z riscv_cpu_scheme \<Rightarrow> (u32, 'z riscv_cpu_scheme) attempt" where
  "page_walk env prv vaddr access pte_addr 0 s = Some (None, s)"
| "page_walk env prv vaddr access pte_addr (Suc n) s = do {
     let vaddr_shift = PG_SHIFT + 10 * n;
     let pte_idx = drop_bit vaddr_shift vaddr AND 0x3ff;
     let pte_addr = pte_addr + push_bit 2 pte_idx;
     (pte, s) \<leftarrow> phys_read_u32 env pte_addr s;
     if pte AND PTE_V_MASK = 0 then Some (None, s)
     else do {
       let paddr = push_bit PG_SHIFT (drop_bit 10 pte);
       let xwr = drop_bit 1 pte AND 7;
       if xwr \<noteq> 0 then
         if leaf_denied prv (mstatus s) pte xwr access then Some (None, s)
         else do {
           s \<leftarrow> (if leaf_write pte access
              then phys_write_u32 env pte_addr (leaf_update pte access) s else Some s);
           Some (Some (translated vaddr paddr vaddr_shift), s)
         }
       else page_walk env prv vaddr access paddr n s
     }
   }"

definition effective_priv :: "'z riscv_cpu_scheme \<Rightarrow> nat \<Rightarrow> u8" where
  "effective_priv s access =
     (if mstatus s AND MSTATUS_MPRV \<noteq> 0 \<and> access \<noteq> ACCESS_CODE
      then ucast (drop_bit MSTATUS_MPP_SHIFT (mstatus s) AND 3) else priv s)"

definition get_phys_addr ::
  "'z riscv_cpu_scheme cpu_env \<Rightarrow> u32 \<Rightarrow> nat \<Rightarrow> 'z riscv_cpu_scheme \<Rightarrow> (u32, 'z riscv_cpu_scheme) attempt" where
  "get_phys_addr env vaddr access s =
     (let prv = effective_priv s access in
      if prv = PRV_M then
        if cur_xlen s < 32 then Some (Some (vaddr AND (push_bit (unat (cur_xlen s)) 1 - 1)), s)
        else Some (Some vaddr, s)
      else if drop_bit 31 (satp s) = 0 then Some (Some vaddr, s)
      else
        let pte_addr = push_bit PG_SHIFT (satp s AND (push_bit 22 1 - 1))
        in page_walk env prv vaddr access pte_addr 2 s)"

subsection \<open>Loads\<close>

text \<open>
  \<open>pval\<close> is what the location of the result holds before the call; it stays there when the
  physical address is in no range. The branch for an aligned address comes first: the branch for an
  unaligned one calls it for the two words around the address.
\<close>

definition ram_offset :: "phys_mem_range \<Rightarrow> u32 \<Rightarrow> nat" where
  "ram_offset pr paddr = size_wrap (unat (ucast paddr - pr_addr pr))"

definition device_read ::
  "'z riscv_cpu_scheme cpu_env \<Rightarrow> phys_mem_range \<Rightarrow> u32 \<Rightarrow> nat \<Rightarrow> 'z riscv_cpu_scheme \<Rightarrow> (u64 \<times> 'z riscv_cpu_scheme) option" where
  "device_read env pr offset size_log2 s =
     (if drop_bit size_log2 (pr_devio_flags pr) AND 1 \<noteq> 0 then do {
        (v, s) \<leftarrow> dev_read env (pr_opaque pr) offset size_log2 s;
        Some (ucast v, s)
      } else if pr_devio_flags pr AND DEVIO_SIZE32 \<noteq> 0 \<and> size_log2 = 3 then do {
        (lo, s) \<leftarrow> dev_read env (pr_opaque pr) offset 2 s;
        (hi, s) \<leftarrow> dev_read env (pr_opaque pr) (offset + 4) 2 s;
        Some (ucast lo OR push_bit 32 (ucast hi), s)
      } else Some (0, s))"

definition target_read_aligned ::
  "'z riscv_cpu_scheme cpu_env \<Rightarrow> u64 \<Rightarrow> u32 \<Rightarrow> nat \<Rightarrow> 'z riscv_cpu_scheme \<Rightarrow> (u64, 'z riscv_cpu_scheme) attempt" where
  "target_read_aligned env pval addr size_log2 s = do {
     (p, s) \<leftarrow> get_phys_addr env addr ACCESS_READ s;
     case p of
       None \<Rightarrow> Some (None, s\<lparr>pending_tval := addr, pending_exception := uint CAUSE_LOAD_PAGE_FAULT\<rparr>)
     | Some paddr \<Rightarrow>
         (case get_phys_mem_range (mem_map s) (ucast paddr) of
            None \<Rightarrow> Some (Some pval, s)
          | Some i \<Rightarrow> do {
              pr \<leftarrow> range_at (mem_map s) i;
              if pr_is_ram pr then do {
                guard (size_log2 \<le> 3);
                (bytes, s) \<leftarrow> range_read env i (ram_offset pr paddr) (2 ^ size_log2) s;
                Some (Some (le_word bytes), s)
              } else do {
                (v, s) \<leftarrow> device_read env pr (ucast (ucast paddr - pr_addr pr)) size_log2 s;
                Some (Some v, s)
              }
            })
   }"

text \<open>The casts at the end of \<open>target_read_u8\<close> to \<open>target_read_u64\<close>, \<open>size_log2\<close> as in \<open>target_read_slow\<close>.\<close>

definition narrow :: "nat \<Rightarrow> u64 \<Rightarrow> u64" where
  "narrow size_log2 v = take_bit (8 * 2 ^ size_log2) v"

definition read_inner ::
  "'z riscv_cpu_scheme cpu_env \<Rightarrow> u32 \<Rightarrow> nat \<Rightarrow> 'z riscv_cpu_scheme \<Rightarrow> (u64, 'z riscv_cpu_scheme) attempt" where
  "read_inner env addr size_log2 s =
     on_ok (target_read_aligned env (uninit env s) addr size_log2 s)
       (\<lambda>v s. Some (Some (narrow size_log2 v), s))"

definition target_read_slow ::
  "'z riscv_cpu_scheme cpu_env \<Rightarrow> u64 \<Rightarrow> u32 \<Rightarrow> nat \<Rightarrow> 'z riscv_cpu_scheme \<Rightarrow> (u64, 'z riscv_cpu_scheme) attempt" where
  "target_read_slow env pval addr size_log2 s =
     (let size = push_bit size_log2 1; al = unat (addr AND (size - 1)) in
      if al \<noteq> 0 then
        if size_log2 = 1 then
          on_ok (read_inner env addr 0 s) (\<lambda>v0 s.
          on_ok (read_inner env (addr + 1) 0 s) (\<lambda>v1 s.
            Some (Some (v0 OR push_bit 8 v1), s)))
        else if size_log2 = 2 then
          let addr = addr - of_nat al in
          on_ok (read_inner env addr 2 s) (\<lambda>v0 s.
          on_ok (read_inner env (addr + 4) 2 s) (\<lambda>v1 s.
            Some (Some (drop_bit (al * 8) v0 OR narrow 2 (push_bit (32 - al * 8) v1)), s)))
        else if size_log2 = 3 then
          let addr = addr - of_nat al in
          on_ok (read_inner env addr 3 s) (\<lambda>v0 s.
          on_ok (read_inner env (addr + 8) 3 s) (\<lambda>v1 s.
            Some (Some (drop_bit (al * 8) v0 OR push_bit (64 - al * 8) v1), s)))
        else None
      else target_read_aligned env pval addr size_log2 s)"

definition target_read_u8 ::
  "'z riscv_cpu_scheme cpu_env \<Rightarrow> u32 \<Rightarrow> 'z riscv_cpu_scheme \<Rightarrow> (u8, 'z riscv_cpu_scheme) attempt" where
  "target_read_u8 env addr s =
     on_ok (target_read_slow env (uninit env s) addr 0 s) (\<lambda>v s. Some (Some (ucast v), s))"

definition target_read_u16 ::
  "'z riscv_cpu_scheme cpu_env \<Rightarrow> u32 \<Rightarrow> 'z riscv_cpu_scheme \<Rightarrow> (u16, 'z riscv_cpu_scheme) attempt" where
  "target_read_u16 env addr s =
     on_ok (target_read_slow env (uninit env s) addr 1 s) (\<lambda>v s. Some (Some (ucast v), s))"

definition target_read_u32 ::
  "'z riscv_cpu_scheme cpu_env \<Rightarrow> u32 \<Rightarrow> 'z riscv_cpu_scheme \<Rightarrow> (u32, 'z riscv_cpu_scheme) attempt" where
  "target_read_u32 env addr s =
     on_ok (target_read_slow env (uninit env s) addr 2 s) (\<lambda>v s. Some (Some (ucast v), s))"

definition target_read_u64 ::
  "'z riscv_cpu_scheme cpu_env \<Rightarrow> u32 \<Rightarrow> 'z riscv_cpu_scheme \<Rightarrow> (u64, 'z riscv_cpu_scheme) attempt" where
  "target_read_u64 env addr s =
     on_ok (target_read_slow env (uninit env s) addr 3 s) (\<lambda>v s. Some (Some v, s))"

subsection \<open>Stores\<close>

definition device_write ::
  "'z riscv_cpu_scheme cpu_env \<Rightarrow> phys_mem_range \<Rightarrow> u32 \<Rightarrow> u64 \<Rightarrow> nat \<Rightarrow> 'z riscv_cpu_scheme \<Rightarrow> 'z riscv_cpu_scheme option" where
  "device_write env pr offset val size_log2 s =
     (if drop_bit size_log2 (pr_devio_flags pr) AND 1 \<noteq> 0
      then dev_write env (pr_opaque pr) offset (ucast val) size_log2 s
      else if pr_devio_flags pr AND DEVIO_SIZE32 \<noteq> 0 \<and> size_log2 = 3 then do {
        s \<leftarrow> dev_write env (pr_opaque pr) offset (ucast (val AND 0xffffffff)) 2 s;
        dev_write env (pr_opaque pr) (offset + 4) (ucast (drop_bit 32 val AND 0xffffffff)) 2 s
      } else Some s)"

definition target_write_aligned ::
  "'z riscv_cpu_scheme cpu_env \<Rightarrow> u32 \<Rightarrow> u64 \<Rightarrow> nat \<Rightarrow> 'z riscv_cpu_scheme \<Rightarrow> (unit, 'z riscv_cpu_scheme) attempt" where
  "target_write_aligned env addr val size_log2 s = do {
     (p, s) \<leftarrow> get_phys_addr env addr ACCESS_WRITE s;
     case p of
       None \<Rightarrow> Some (None, s\<lparr>pending_tval := addr, pending_exception := uint CAUSE_STORE_PAGE_FAULT\<rparr>)
     | Some paddr \<Rightarrow>
         (case get_phys_mem_range (mem_map s) (ucast paddr) of
            None \<Rightarrow> Some (Some (), s)
          | Some i \<Rightarrow> do {
              pr \<leftarrow> range_at (mem_map s) i;
              if pr_is_ram pr then do {
                pr' \<leftarrow> phys_mem_set_dirty_bit pr (ram_offset pr paddr);
                let s = s\<lparr>mem_map := set_range (mem_map s) i pr'\<rparr>;
                guard (size_log2 \<le> 3);
                s \<leftarrow> range_write env i (ram_offset pr paddr) (le_bytes (2 ^ size_log2) val) s;
                Some (Some (), s)
              } else do {
                s \<leftarrow> device_write env pr (ucast (ucast paddr - pr_addr pr)) val size_log2 s;
                Some (Some (), s)
              }
            })
   }"

text \<open>An unaligned store writes the bytes one by one; \<open>n\<close> of the bytes are left.\<close>

primrec write_bytes ::
  "'z riscv_cpu_scheme cpu_env \<Rightarrow> u32 \<Rightarrow> u64 \<Rightarrow> nat \<Rightarrow> nat \<Rightarrow> 'z riscv_cpu_scheme \<Rightarrow> (unit, 'z riscv_cpu_scheme) attempt" where
  "write_bytes env addr val i 0 s = Some (Some (), s)"
| "write_bytes env addr val i (Suc n) s =
     on_ok (target_write_aligned env (addr + of_nat i) (drop_bit (8 * i) val AND 0xff) 0 s)
       (\<lambda>_ s. write_bytes env addr val (Suc i) n s)"

definition target_write_slow ::
  "'z riscv_cpu_scheme cpu_env \<Rightarrow> u32 \<Rightarrow> u64 \<Rightarrow> nat \<Rightarrow> 'z riscv_cpu_scheme \<Rightarrow> (unit, 'z riscv_cpu_scheme) attempt" where
  "target_write_slow env addr val size_log2 s =
     (if addr AND (push_bit size_log2 1 - 1) \<noteq> 0 then write_bytes env addr val 0 (2 ^ size_log2) s
      else target_write_aligned env addr val size_log2 s)"

definition target_write_u8 ::
  "'z riscv_cpu_scheme cpu_env \<Rightarrow> u32 \<Rightarrow> u8 \<Rightarrow> 'z riscv_cpu_scheme \<Rightarrow> (unit, 'z riscv_cpu_scheme) attempt" where
  "target_write_u8 env addr val s = target_write_slow env addr (ucast val) 0 s"

definition target_write_u16 ::
  "'z riscv_cpu_scheme cpu_env \<Rightarrow> u32 \<Rightarrow> u16 \<Rightarrow> 'z riscv_cpu_scheme \<Rightarrow> (unit, 'z riscv_cpu_scheme) attempt" where
  "target_write_u16 env addr val s = target_write_slow env addr (ucast val) 1 s"

definition target_write_u32 ::
  "'z riscv_cpu_scheme cpu_env \<Rightarrow> u32 \<Rightarrow> u32 \<Rightarrow> 'z riscv_cpu_scheme \<Rightarrow> (unit, 'z riscv_cpu_scheme) attempt" where
  "target_write_u32 env addr val s = target_write_slow env addr (ucast val) 2 s"

definition target_write_u64 ::
  "'z riscv_cpu_scheme cpu_env \<Rightarrow> u32 \<Rightarrow> u64 \<Rightarrow> 'z riscv_cpu_scheme \<Rightarrow> (unit, 'z riscv_cpu_scheme) attempt" where
  "target_write_u64 env addr val s = target_write_slow env addr val 3 s"

subsection \<open>Instruction fetch\<close>

text \<open>
  \<open>get_vmm_insn32\<close> reads from the range without asking whether it is RAM: the virtual memory
  of a device is NULL.
\<close>

definition get_vmm_insn32 ::
  "'z riscv_cpu_scheme cpu_env \<Rightarrow> u32 \<Rightarrow> 'z riscv_cpu_scheme \<Rightarrow> (u32 \<times> 'z riscv_cpu_scheme) option" where
  "get_vmm_insn32 env ptr s =
     (case get_phys_mem_range (mem_map s) (ucast ptr) of
        None \<Rightarrow> Some (0, s)
      | Some i \<Rightarrow> do {
          pr \<leftarrow> range_at (mem_map s) i;
          (bytes, s) \<leftarrow> range_read env i (ram_offset pr ptr) 4 s;
          Some (le_word bytes, s)
        })"

definition target_read_insn_slow_vmm ::
  "'z riscv_cpu_scheme cpu_env \<Rightarrow> u32 \<Rightarrow> 'z riscv_cpu_scheme \<Rightarrow> (u32, 'z riscv_cpu_scheme) attempt" where
  "target_read_insn_slow_vmm env addr s = do {
     (p, s) \<leftarrow> get_phys_addr env addr ACCESS_CODE s;
     case p of
       None \<Rightarrow> Some (None, s\<lparr>pending_tval := addr, pending_exception := uint CAUSE_FETCH_PAGE_FAULT\<rparr>)
     | Some paddr \<Rightarrow> Some (Some paddr, s)
   }"

end
