(* ===== verification/RiscvCsr.thy ===== *)
theory RiscvCsr
  imports RiscvCpu
begin

section \<open>Control and status registers, traps (lib/tinyemu/riscv_cpu.c)\<close>

text \<open>
  The CSR accesses, the entry to a trap and the return from it, and the interrupt lines. All of
  them are total functions of the state; -1 of a read is \<open>None\<close>, and the result of
  \<open>csr_write\<close> is its return code and the new state.
\<close>

subsection \<open>mstatus\<close>

definition SSTATUS_MASK :: u32 where
  "SSTATUS_MASK = MSTATUS_UIE OR MSTATUS_SIE OR MSTATUS_UPIE OR MSTATUS_SPIE OR MSTATUS_SPP OR
     MSTATUS_FS OR MSTATUS_XS OR MSTATUS_SUM OR MSTATUS_MXR"

definition MSTATUS_MASK :: u32 where
  "MSTATUS_MASK = MSTATUS_UIE OR MSTATUS_SIE OR MSTATUS_MIE OR MSTATUS_UPIE OR MSTATUS_SPIE OR
     MSTATUS_MPIE OR MSTATUS_SPP OR MSTATUS_MPP OR MSTATUS_FS OR MSTATUS_MPRV OR MSTATUS_SUM OR
     MSTATUS_MXR"

definition COUNTEREN_MASK :: u32 where "COUNTEREN_MASK = push_bit 0 1 OR push_bit 2 1"

definition MIP_SSIP :: u32 where "MIP_SSIP = push_bit 1 1"
definition MIP_MSIP :: u32 where "MIP_MSIP = push_bit 3 1"
definition MIP_STIP :: u32 where "MIP_STIP = push_bit 5 1"
definition MIP_MTIP :: u32 where "MIP_MTIP = push_bit 7 1"
definition MIP_SEIP :: u32 where "MIP_SEIP = push_bit 9 1"
definition MIP_MEIP :: u32 where "MIP_MEIP = push_bit 11 1"

lemmas mip_bits = MIP_SSIP_def MIP_MSIP_def MIP_STIP_def MIP_MTIP_def MIP_SEIP_def MIP_MEIP_def

definition get_mstatus :: "'z riscv_cpu_scheme \<Rightarrow> u32 \<Rightarrow> u32" where
  "get_mstatus s msk =
     (let val = (mstatus s OR push_bit MSTATUS_FS_SHIFT (ucast (fs s))) AND msk;
          sd = (val AND MSTATUS_FS = MSTATUS_FS \<or> val AND MSTATUS_XS = MSTATUS_XS)
      in if sd then val OR push_bit (unat (cur_xlen s) - 1) 1 else val)"

definition set_mstatus :: "'z riscv_cpu_scheme \<Rightarrow> u32 \<Rightarrow> 'z riscv_cpu_scheme" where
  "set_mstatus s val =
     (let s = s\<lparr>fs := ucast (drop_bit MSTATUS_FS_SHIFT val AND 3)\<rparr>;
          msk = MSTATUS_MASK AND NOT MSTATUS_FS
      in s\<lparr>mstatus := (mstatus s AND NOT msk) OR (val AND msk)\<rparr>)"

subsection \<open>Reading a CSR\<close>

definition counter_enabled :: "'z riscv_cpu_scheme \<Rightarrow> u32 \<Rightarrow> bool" where
  "counter_enabled s csr \<longleftrightarrow>
     priv s < PRV_M \<longrightarrow>
       drop_bit (unat (csr AND 0x1f)) (if priv s < PRV_S then scounteren s else mcounteren s) AND 1 \<noteq> 0"

definition csr_access_denied :: "'z riscv_cpu_scheme \<Rightarrow> u32 \<Rightarrow> bool \<Rightarrow> bool" where
  "csr_access_denied s csr will_write \<longleftrightarrow>
     (csr AND 0xc00 = 0xc00 \<and> will_write) \<or> ucast (priv s) < drop_bit 8 csr AND 3"

definition csr_read :: "'z riscv_cpu_scheme \<Rightarrow> u32 \<Rightarrow> bool \<Rightarrow> u32 option" where
  "csr_read s csr will_write =
     (if csr_access_denied s csr will_write then None
      else if csr = 0x001 then (if fs s = 0 then None else Some (fflags s))
      else if csr = 0x002 then (if fs s = 0 then None else Some (ucast (frm s)))
      else if csr = 0x003 then
        (if fs s = 0 then None else Some (fflags s OR push_bit 5 (ucast (frm s))))
      else if csr = 0xc00 \<or> csr = 0xc02 then
        (if counter_enabled s csr then Some (ucast (insn_counter s)) else None)
      else if csr = 0xc80 \<or> csr = 0xc82 then
        (if cur_xlen s = 32 \<and> counter_enabled s csr
         then Some (ucast (drop_bit 32 (insn_counter s))) else None)
      else if csr = 0x100 then Some (get_mstatus s SSTATUS_MASK)
      else if csr = 0x104 then Some (mie s AND mideleg s)
      else if csr = 0x105 then Some (stvec s)
      else if csr = 0x106 then Some (scounteren s)
      else if csr = 0x140 then Some (sscratch s)
      else if csr = 0x141 then Some (sepc s)
      else if csr = 0x142 then Some (scause s)
      else if csr = 0x143 then Some (stval s)
      else if csr = 0x144 then Some (mip s AND mideleg s)
      else if csr = 0x180 then Some (satp s)
      else if csr = 0x300 then Some (get_mstatus s (- 1))
      else if csr = 0x301 then
        Some (misa s OR push_bit (unat (cur_xlen s) - 2) (ucast (mxl s)))
      else if csr = 0x302 then Some (medeleg s)
      else if csr = 0x303 then Some (mideleg s)
      else if csr = 0x304 then Some (mie s)
      else if csr = 0x305 then Some (mtvec s)
      else if csr = 0x306 then Some (mcounteren s)
      else if csr = 0x340 then Some (mscratch s)
      else if csr = 0x341 then Some (mepc s)
      else if csr = 0x342 then Some (mcause s)
      else if csr = 0x343 then Some (mtval s)
      else if csr = 0x344 then Some (mip s)
      else if csr = 0xb00 \<or> csr = 0xb02 then Some (ucast (insn_counter s))
      else if csr = 0xb80 \<or> csr = 0xb82 then
        (if cur_xlen s = 32 then Some (ucast (drop_bit 32 (insn_counter s))) else None)
      else if csr = 0xf14 then Some (mhartid s)
      else None)"

definition set_frm :: "'z riscv_cpu_scheme \<Rightarrow> u32 \<Rightarrow> 'z riscv_cpu_scheme" where
  "set_frm s val = s\<lparr>frm := ucast (if val \<ge> 5 then 0 else val)\<rparr>"

text \<open>-1 (an invalid rounding mode) is \<open>None\<close>.\<close>

definition get_insn_rm :: "'z riscv_cpu_scheme \<Rightarrow> u32 \<Rightarrow> u32 option" where
  "get_insn_rm s rm = (if rm = 7 then Some (ucast (frm s)) else if rm \<ge> 5 then None else Some rm)"

subsection \<open>Writing a CSR\<close>

definition masked :: "u32 \<Rightarrow> u32 \<Rightarrow> u32 \<Rightarrow> u32" where
  "masked old msk val = (old AND NOT msk) OR (val AND msk)"

definition csr_write :: "'z riscv_cpu_scheme \<Rightarrow> u32 \<Rightarrow> u32 \<Rightarrow> int \<times> 'z riscv_cpu_scheme" where
  "csr_write s csr val =
     (if csr = 0x001 then (0, s\<lparr>fflags := val AND 0x1f, fs := 3\<rparr>)
      else if csr = 0x002 then (0, (set_frm s (val AND 7))\<lparr>fs := 3\<rparr>)
      else if csr = 0x003 then
        (0, (set_frm s (drop_bit 5 val AND 7))\<lparr>fflags := val AND 0x1f, fs := 3\<rparr>)
      else if csr = 0x100 then (0, set_mstatus s (masked (mstatus s) SSTATUS_MASK val))
      else if csr = 0x104 then (0, s\<lparr>mie := masked (mie s) (mideleg s) val\<rparr>)
      else if csr = 0x105 then (0, s\<lparr>stvec := val AND NOT 3\<rparr>)
      else if csr = 0x106 then (0, s\<lparr>scounteren := val AND COUNTEREN_MASK\<rparr>)
      else if csr = 0x140 then (0, s\<lparr>sscratch := val\<rparr>)
      else if csr = 0x141 then (0, s\<lparr>sepc := val AND NOT 1\<rparr>)
      else if csr = 0x142 then (0, s\<lparr>scause := val\<rparr>)
      else if csr = 0x143 then (0, s\<lparr>stval := val\<rparr>)
      else if csr = 0x144 then (0, s\<lparr>mip := masked (mip s) (mideleg s) val\<rparr>)
      else if csr = 0x180 then
        (let new_mode = drop_bit 31 val AND 1
         in (2, s\<lparr>satp := (val AND (push_bit 22 1 - 1)) OR push_bit 31 new_mode\<rparr>))
      else if csr = 0x300 then (0, set_mstatus s val)
      else if csr = 0x301 then (0, s)
      else if csr = 0x302 then
        (0, s\<lparr>medeleg := masked (medeleg s) (push_bit (unat CAUSE_STORE_PAGE_FAULT + 1) 1 - 1) val\<rparr>)
      else if csr = 0x303 then
        (0, s\<lparr>mideleg := masked (mideleg s) (MIP_SSIP OR MIP_STIP OR MIP_SEIP) val\<rparr>)
      else if csr = 0x304 then
        (0, s\<lparr>mie := masked (mie s)
           (MIP_MSIP OR MIP_MTIP OR MIP_SSIP OR MIP_STIP OR MIP_SEIP) val\<rparr>)
      else if csr = 0x305 then (0, s\<lparr>mtvec := val AND NOT 3\<rparr>)
      else if csr = 0x306 then (0, s\<lparr>mcounteren := val AND COUNTEREN_MASK\<rparr>)
      else if csr = 0x340 then (0, s\<lparr>mscratch := val\<rparr>)
      else if csr = 0x341 then (0, s\<lparr>mepc := val AND NOT 1\<rparr>)
      else if csr = 0x342 then (0, s\<lparr>mcause := val\<rparr>)
      else if csr = 0x343 then (0, s\<lparr>mtval := val\<rparr>)
      else if csr = 0x344 then (0, s\<lparr>mip := masked (mip s) (MIP_SSIP OR MIP_STIP) val\<rparr>)
      else (- 1, s))"

subsection \<open>Traps\<close>

definition set_priv :: "'z riscv_cpu_scheme \<Rightarrow> u8 \<Rightarrow> 'z riscv_cpu_scheme" where
  "set_priv s prv = (if priv s \<noteq> prv then s\<lparr>priv := prv\<rparr> else s)"

definition delegated :: "'z riscv_cpu_scheme \<Rightarrow> u32 \<Rightarrow> bool" where
  "delegated s cause \<longleftrightarrow> priv s \<le> PRV_S \<and>
     (if cause AND CAUSE_INTERRUPT \<noteq> 0
      then drop_bit (unat (cause AND 31)) (mideleg s) AND 1 \<noteq> 0
      else drop_bit (unat cause) (medeleg s) AND 1 \<noteq> 0)"

definition trap_cause :: "'z riscv_cpu_scheme \<Rightarrow> u32 \<Rightarrow> u32" where
  "trap_cause s cause =
     (let causel = cause AND 0x7fffffff
      in if cause AND CAUSE_INTERRUPT \<noteq> 0 then causel OR push_bit (unat (cur_xlen s) - 1) 1 else causel)"

definition raise_exception2 :: "'z riscv_cpu_scheme \<Rightarrow> u32 \<Rightarrow> u32 \<Rightarrow> 'z riscv_cpu_scheme" where
  "raise_exception2 s cause tval =
     (let causel = trap_cause s cause; ie = drop_bit (unat (priv s)) (mstatus s) AND 1 in
      if delegated s cause then
        let s = s\<lparr>scause := causel, sepc := pc s, stval := tval,
              mstatus := (mstatus s AND NOT MSTATUS_SPIE) OR push_bit MSTATUS_SPIE_SHIFT ie\<rparr>;
            s = s\<lparr>mstatus := (mstatus s AND NOT MSTATUS_SPP) OR push_bit MSTATUS_SPP_SHIFT (ucast (priv s))\<rparr>;
            s = s\<lparr>mstatus := mstatus s AND NOT MSTATUS_SIE\<rparr>;
            s = set_priv s PRV_S
        in s\<lparr>pc := stvec s\<rparr>
      else
        let s = s\<lparr>mcause := causel, mepc := pc s, mtval := tval,
              mstatus := (mstatus s AND NOT MSTATUS_MPIE) OR push_bit MSTATUS_MPIE_SHIFT ie\<rparr>;
            s = s\<lparr>mstatus := (mstatus s AND NOT MSTATUS_MPP) OR push_bit MSTATUS_MPP_SHIFT (ucast (priv s))\<rparr>;
            s = s\<lparr>mstatus := mstatus s AND NOT MSTATUS_MIE\<rparr>;
            s = set_priv s PRV_M
        in s\<lparr>pc := mtvec s\<rparr>)"

definition raise_exception :: "'z riscv_cpu_scheme \<Rightarrow> u32 \<Rightarrow> 'z riscv_cpu_scheme" where
  "raise_exception s cause = raise_exception2 s cause 0"

definition handle_sret :: "'z riscv_cpu_scheme \<Rightarrow> 'z riscv_cpu_scheme" where
  "handle_sret s =
     (let spp = drop_bit MSTATUS_SPP_SHIFT (mstatus s) AND 1;
          spie = drop_bit MSTATUS_SPIE_SHIFT (mstatus s) AND 1;
          s = s\<lparr>mstatus := (mstatus s AND NOT (push_bit (unat spp) 1)) OR push_bit (unat spp) spie\<rparr>;
          s = s\<lparr>mstatus := mstatus s OR MSTATUS_SPIE\<rparr>;
          s = s\<lparr>mstatus := mstatus s AND NOT MSTATUS_SPP\<rparr>;
          s = set_priv s (ucast spp)
      in s\<lparr>pc := sepc s\<rparr>)"

definition handle_mret :: "'z riscv_cpu_scheme \<Rightarrow> 'z riscv_cpu_scheme" where
  "handle_mret s =
     (let mpp = drop_bit MSTATUS_MPP_SHIFT (mstatus s) AND 3;
          mpie = drop_bit MSTATUS_MPIE_SHIFT (mstatus s) AND 1;
          s = s\<lparr>mstatus := (mstatus s AND NOT (push_bit (unat mpp) 1)) OR push_bit (unat mpp) mpie\<rparr>;
          s = s\<lparr>mstatus := mstatus s OR MSTATUS_MPIE\<rparr>;
          s = s\<lparr>mstatus := mstatus s AND NOT MSTATUS_MPP\<rparr>;
          s = set_priv s (ucast mpp)
      in s\<lparr>pc := mepc s\<rparr>)"

subsection \<open>Interrupts\<close>

definition get_pending_irq_mask :: "'z riscv_cpu_scheme \<Rightarrow> u32" where
  "get_pending_irq_mask s =
     (let pending_ints = mip s AND mie s in
      if pending_ints = 0 then 0
      else
        let enabled_ints =
          (if priv s = PRV_M then (if mstatus s AND MSTATUS_MIE \<noteq> 0 then NOT (mideleg s) else 0)
           else if priv s = PRV_S then
             (if mstatus s AND MSTATUS_SIE \<noteq> 0 then NOT (mideleg s) OR mideleg s
              else NOT (mideleg s))
           else - 1)
        in pending_ints AND enabled_ints)"

text \<open>\<open>cutils.h\<close>: the number of trailing zeros, 32 for zero (from bit \<open>i\<close> on, \<open>n\<close> bits left).\<close>

primrec ctz_from :: "nat \<Rightarrow> nat \<Rightarrow> u32 \<Rightarrow> nat" where
  "ctz_from i 0 a = i"
| "ctz_from i (Suc n) a = (if bit a i then i else ctz_from (Suc i) n a)"

definition ctz32 :: "u32 \<Rightarrow> nat" where
  "ctz32 a = ctz_from 0 32 a"

definition raise_interrupt :: "'z riscv_cpu_scheme \<Rightarrow> bool \<times> 'z riscv_cpu_scheme" where
  "raise_interrupt s =
     (let msk = get_pending_irq_mask s in
      if msk = 0 then (False, s)
      else
        let irq_num = ctz32 msk
        in (True, raise_exception s (word_of_nat irq_num OR CAUSE_INTERRUPT)))"

definition riscv_cpu_get_cycles :: "'z riscv_cpu_scheme \<Rightarrow> u64" where
  "riscv_cpu_get_cycles s = insn_counter s"

definition riscv_cpu_set_mip :: "'z riscv_cpu_scheme \<Rightarrow> u32 \<Rightarrow> 'z riscv_cpu_scheme" where
  "riscv_cpu_set_mip s msk =
     (let s = s\<lparr>mip := mip s OR msk\<rparr>
      in if power_down_flag s \<and> mip s AND mie s \<noteq> 0 then s\<lparr>power_down_flag := False\<rparr> else s)"

definition riscv_cpu_reset_mip :: "'z riscv_cpu_scheme \<Rightarrow> u32 \<Rightarrow> 'z riscv_cpu_scheme" where
  "riscv_cpu_reset_mip s msk = s\<lparr>mip := mip s AND NOT msk\<rparr>"

definition riscv_cpu_get_mip :: "'z riscv_cpu_scheme \<Rightarrow> u32" where
  "riscv_cpu_get_mip s = mip s"

definition riscv_cpu_get_power_down :: "'z riscv_cpu_scheme \<Rightarrow> bool" where
  "riscv_cpu_get_power_down s = power_down_flag s"

definition riscv_cpu_get_misa :: "'z riscv_cpu_scheme \<Rightarrow> u32" where
  "riscv_cpu_get_misa s = misa s"

subsection \<open>Creation\<close>

definition get_base_from_xlen :: "nat \<Rightarrow> u8" where
  "get_base_from_xlen xlen = (if xlen = 32 then 1 else if xlen = 64 then 2 else 3)"

definition MCPUID :: "char \<Rightarrow> u32" where
  "MCPUID c = push_bit (of_char c - (65 :: nat)) 1"

text \<open>
  The state is allocated with \<open>mallocz\<close>. The two shifts of \<open>mxl\<close> into \<open>mstatus\<close> are
  64 bit and do not fit the 32 bit field. \<open>rest\<close> is the part of the record that belongs to the
  devices.
\<close>

definition riscv_cpu_init :: "phys_mem_map \<Rightarrow> 'z \<Rightarrow> 'z riscv_cpu_scheme" where
  "riscv_cpu_init memory rest =
     (let m = get_base_from_xlen 32 in
      \<lparr>pc = 0x1000, reg = replicate 32 0, fp_reg = replicate 32 0, fflags = 0, frm = 0, cur_xlen = 32,
       priv = PRV_M, fs = 0, mxl = m, insn_counter = 0, power_down_flag = False,
       pending_exception = 0, pending_tval = 0,
       mstatus = ucast (push_bit 32 (ucast m :: u64) OR push_bit 34 (ucast m)),
       mtvec = 0, mscratch = 0, mepc = 0, mcause = 0, mtval = 0, mhartid = 0,
       misa = MCPUID (CHR ''S'') OR MCPUID (CHR ''U'') OR MCPUID (CHR ''I'') OR MCPUID (CHR ''M'') OR
         MCPUID (CHR ''A'') OR MCPUID (CHR ''F'') OR MCPUID (CHR ''D'') OR MCPUID (CHR ''C''),
       mie = 0, mip = 0, medeleg = 0, mideleg = 0, mcounteren = 0, stvec = 0, sscratch = 0, sepc = 0,
       scause = 0, stval = 0, satp = 0, scounteren = 0, load_res = 0, mem_map = memory, \<dots> = rest\<rparr>)"

end
