(* ===== verification/RiscvAlu.thy ===== *)
theory RiscvAlu
  imports RiscvCsr "HOL-Library.Signed_Division"
begin

section \<open>Arithmetic and instruction fields (riscv_cpu_template.h, riscv_cpu.c)\<close>

text \<open>
  The functions of the template for \<open>XLEN = 32\<close> that compute on register values, and the two
  functions that assemble immediates. A value of type \<open>int32_t\<close> is the word with the same bits,
  read with \<open>sint\<close>.
\<close>

definition div32 :: "u32 \<Rightarrow> u32 \<Rightarrow> u32" where
  "div32 a b =
     (if b = 0 then - 1
      else if a = push_bit 31 1 \<and> b = - 1 then a
      else word_of_int (sint a sdiv sint b))"

definition divu32 :: "u32 \<Rightarrow> u32 \<Rightarrow> u32" where
  "divu32 a b = (if b = 0 then - 1 else a div b)"

definition rem32 :: "u32 \<Rightarrow> u32 \<Rightarrow> u32" where
  "rem32 a b =
     (if b = 0 then a
      else if a = push_bit 31 1 \<and> b = - 1 then 0
      else word_of_int (sint a smod sint b))"

definition remu32 :: "u32 \<Rightarrow> u32 \<Rightarrow> u32" where
  "remu32 a b = (if b = 0 then a else a mod b)"

text \<open>The products are computed in \<open>int64_t\<close>.\<close>

definition mulh32 :: "u32 \<Rightarrow> u32 \<Rightarrow> u32" where
  "mulh32 a b = ucast (signed_drop_bit 32 (scast a * scast b :: u64))"

definition mulhsu32 :: "u32 \<Rightarrow> u32 \<Rightarrow> u32" where
  "mulhsu32 a b = ucast (signed_drop_bit 32 (scast a * ucast b :: u64))"

definition mulhu32 :: "u32 \<Rightarrow> u32 \<Rightarrow> u32" where
  "mulhu32 a b = ucast (signed_drop_bit 32 (ucast a * ucast b :: u64))"

definition sext :: "u32 \<Rightarrow> nat \<Rightarrow> u32" where
  "sext val n = signed_drop_bit (32 - n) (push_bit (32 - n) val)"

text \<open>The \<open>assert\<close> of \<open>get_field1\<close> holds in every call: the positions are literals.\<close>

definition get_field1 :: "u32 \<Rightarrow> nat \<Rightarrow> nat \<Rightarrow> nat \<Rightarrow> u32" where
  "get_field1 val src_pos dst_pos dst_pos_max =
     (let msk = push_bit dst_pos (push_bit (dst_pos_max - dst_pos + 1) 1 - 1)
      in if dst_pos \<ge> src_pos then push_bit (dst_pos - src_pos) val AND msk
         else drop_bit (src_pos - dst_pos) val AND msk)"

definition less_signed :: "u32 \<Rightarrow> u32 \<Rightarrow> bool" where
  "less_signed a b \<longleftrightarrow> sint a < sint b"

definition of_bool32 :: "bool \<Rightarrow> u32" where
  "of_bool32 b = (if b then 1 else 0)"

end
