(* ===== verification/RiscvInsn.thy ===== *)
theory RiscvInsn
  imports RiscvAlu
begin

section \<open>Instructions (riscv_cpu_template.h)\<close>

text \<open>
  The body of the interpreter's \<open>switch\<close>, one definition per group of cases, for
  \<open>XLEN = 32\<close>, \<open>FLEN = 64\<close> and compressed instructions. The arguments are the instruction,
  the value of \<open>GET_PC()\<close> and, where it is used, of \<open>GET_INSN_COUNTER()\<close>.

  An instruction leaves the \<open>switch\<close> in one of five ways: \<open>NEXT_INSN\<close> and
  \<open>C_NEXT_INSN\<close> advance by 4 or 2 bytes, \<open>JUMP_INSN\<close> continues at \<open>s->pc\<close>, and the
  jumps to the labels \<open>illegal_insn\<close>, \<open>mmu_exception\<close>/\<open>exception\<close> (which
  stand at the same place) and \<open>done_interp\<close> leave the loop.
\<close>

datatype outcome = Next_insn u32 | Jump_insn | Illegal_insn | Exception | Done_interp

type_synonym 's step = "(outcome \<times> 's) option"

definition or_exception :: "('a, 's) attempt \<Rightarrow> ('a \<Rightarrow> 's \<Rightarrow> 's step) \<Rightarrow> 's step" where
  "or_exception r f = (case r of
      None \<Rightarrow> None
    | Some (None, s) \<Rightarrow> Some (Exception, s)
    | Some (Some a, s) \<Rightarrow> f a s)"

lemma or_exception_simps [simp]:
  "or_exception None f = None"
  "or_exception (Some (None, s)) f = Some (Exception, s)"
  "or_exception (Some (Some a, s)) f = f a s"
  by (simp_all add: or_exception_def)

definition put_reg :: "nat \<Rightarrow> u32 \<Rightarrow> 'z riscv_cpu_scheme \<Rightarrow> 'z riscv_cpu_scheme" where
  "put_reg rd val s = s\<lparr>reg := (reg s)[rd := val]\<rparr>"

definition put_rd :: "nat \<Rightarrow> u32 \<Rightarrow> 'z riscv_cpu_scheme \<Rightarrow> 'z riscv_cpu_scheme" where
  "put_rd rd val s = (if rd \<noteq> 0 then put_reg rd val s else s)"

definition put_fp :: "nat \<Rightarrow> u64 \<Rightarrow> 'z riscv_cpu_scheme \<Rightarrow> 'z riscv_cpu_scheme" where
  "put_fp rd val s = s\<lparr>fp_reg := (fp_reg s)[rd := val]\<rparr>"

definition F32_HIGH :: u64 where "F32_HIGH = push_bit 32 (- 1)"
definition F64_HIGH :: u64 where "F64_HIGH = 0"
definition FSIGN_MASK32 :: u32 where "FSIGN_MASK32 = push_bit 31 1"
definition FSIGN_MASK64 :: u64 where "FSIGN_MASK64 = push_bit 63 1"

definition insn_rd :: "u32 \<Rightarrow> nat" where
  "insn_rd insn = unat (drop_bit 7 insn AND 0x1f)"

definition insn_rs1 :: "u32 \<Rightarrow> nat" where
  "insn_rs1 insn = unat (drop_bit 15 insn AND 0x1f)"

definition insn_rs2 :: "u32 \<Rightarrow> nat" where
  "insn_rs2 insn = unat (drop_bit 20 insn AND 0x1f)"

subsection \<open>Compressed instructions, quadrant 0\<close>

definition exec_c0 ::
  "'z riscv_cpu_scheme cpu_env \<Rightarrow> u32 \<Rightarrow> 'z riscv_cpu_scheme \<Rightarrow> 'z riscv_cpu_scheme step" where
  "exec_c0 env insn s =
     (let funct3 = drop_bit 13 insn AND 7;
          rd = unat ((drop_bit 2 insn AND 7) OR 8);
          rs1 = unat ((drop_bit 7 insn AND 7) OR 8);
          imm_d = get_field1 insn 10 3 5 OR get_field1 insn 5 6 7;
          imm_w = get_field1 insn 10 3 5 OR get_field1 insn 6 2 2 OR get_field1 insn 5 6 6
      in
      if funct3 = 0 then
        let imm = get_field1 insn 11 4 5 OR get_field1 insn 7 6 9 OR get_field1 insn 6 2 2 OR
              get_field1 insn 5 3 3
        in if imm = 0 then Some (Illegal_insn, s)
           else Some (Next_insn 2, put_reg rd (reg s ! 2 + imm) s)
      else if funct3 = 1 then
        if fs s = 0 then Some (Illegal_insn, s)
        else or_exception (target_read_u64 env (reg s ! rs1 + imm_d) s) (\<lambda>rval s.
          Some (Next_insn 2, (put_fp rd (rval OR F64_HIGH) s)\<lparr>fs := 3\<rparr>))
      else if funct3 = 2 then
        or_exception (target_read_u32 env (reg s ! rs1 + imm_w) s) (\<lambda>rval s.
          Some (Next_insn 2, put_reg rd rval s))
      else if funct3 = 3 then
        if fs s = 0 then Some (Illegal_insn, s)
        else or_exception (target_read_u32 env (reg s ! rs1 + imm_w) s) (\<lambda>rval s.
          Some (Next_insn 2, (put_fp rd (ucast rval OR F32_HIGH) s)\<lparr>fs := 3\<rparr>))
      else if funct3 = 5 then
        if fs s = 0 then Some (Illegal_insn, s)
        else or_exception (target_write_u64 env (reg s ! rs1 + imm_d) (fp_reg s ! rd) s) (\<lambda>_ s.
          Some (Next_insn 2, s))
      else if funct3 = 6 then
        or_exception (target_write_u32 env (reg s ! rs1 + imm_w) (reg s ! rd) s) (\<lambda>_ s.
          Some (Next_insn 2, s))
      else if funct3 = 7 then
        if fs s = 0 then Some (Illegal_insn, s)
        else or_exception (target_write_u32 env (reg s ! rs1 + imm_w) (ucast (fp_reg s ! rd)) s) (\<lambda>_ s.
          Some (Next_insn 2, s))
      else Some (Illegal_insn, s))"

subsection \<open>Compressed instructions, quadrant 1\<close>

text \<open>The register arithmetic of \<open>funct3 = 4\<close>.\<close>

definition exec_c1_alu :: "u32 \<Rightarrow> 'z riscv_cpu_scheme \<Rightarrow> 'z riscv_cpu_scheme step" where
  "exec_c1_alu insn s =
     (let funct3 = drop_bit 10 insn AND 3;
          rd = unat ((drop_bit 7 insn AND 7) OR 8)
      in
      if funct3 = 0 \<or> funct3 = 1 then
        let imm = get_field1 insn 12 5 5 OR get_field1 insn 2 0 4
        in if imm AND 0x20 \<noteq> 0 then Some (Illegal_insn, s)
           else if funct3 = 0 then Some (Next_insn 2, put_reg rd (drop_bit (unat imm) (reg s ! rd)) s)
           else Some (Next_insn 2, put_reg rd (signed_drop_bit (unat imm) (reg s ! rd)) s)
      else if funct3 = 2 then
        let imm = sext (get_field1 insn 12 5 5 OR get_field1 insn 2 0 4) 6
        in Some (Next_insn 2, put_reg rd (reg s ! rd AND imm) s)
      else
        let rs2 = unat ((drop_bit 2 insn AND 7) OR 8);
            funct3 = (drop_bit 5 insn AND 3) OR (drop_bit (12 - 2) insn AND 4)
        in
        if funct3 = 0 then Some (Next_insn 2, put_reg rd (reg s ! rd - reg s ! rs2) s)
        else if funct3 = 1 then Some (Next_insn 2, put_reg rd (reg s ! rd XOR reg s ! rs2) s)
        else if funct3 = 2 then Some (Next_insn 2, put_reg rd (reg s ! rd OR reg s ! rs2) s)
        else if funct3 = 3 then Some (Next_insn 2, put_reg rd (reg s ! rd AND reg s ! rs2) s)
        else Some (Illegal_insn, s))"

definition c_imm_j :: "u32 \<Rightarrow> u32" where
  "c_imm_j insn = sext (get_field1 insn 12 11 11 OR get_field1 insn 11 4 4 OR
     get_field1 insn 9 8 9 OR get_field1 insn 8 10 10 OR get_field1 insn 7 6 6 OR
     get_field1 insn 6 7 7 OR get_field1 insn 3 1 3 OR get_field1 insn 2 5 5) 12"

definition c_imm_b :: "u32 \<Rightarrow> u32" where
  "c_imm_b insn = sext (get_field1 insn 12 8 8 OR get_field1 insn 10 3 4 OR
     get_field1 insn 5 6 7 OR get_field1 insn 3 1 2 OR get_field1 insn 2 5 5) 9"

definition exec_c1 :: "u32 \<Rightarrow> u32 \<Rightarrow> 'z riscv_cpu_scheme \<Rightarrow> 'z riscv_cpu_scheme step" where
  "exec_c1 insn get_pc s =
     (let funct3 = drop_bit 13 insn AND 7;
          rd = insn_rd insn;
          imm_i = sext (get_field1 insn 12 5 5 OR get_field1 insn 2 0 4) 6;
          rs1 = unat ((drop_bit 7 insn AND 7) OR 8)
      in
      if funct3 = 0 then
        Some (Next_insn 2, put_rd rd (reg s ! rd + imm_i) s)
      else if funct3 = 1 then
        let s = put_reg 1 (get_pc + 2) s
        in Some (Jump_insn, s\<lparr>pc := get_pc + c_imm_j insn\<rparr>)
      else if funct3 = 2 then
        Some (Next_insn 2, put_rd rd imm_i s)
      else if funct3 = 3 then
        if rd = 2 then
          let imm = sext (get_field1 insn 12 9 9 OR get_field1 insn 6 4 4 OR get_field1 insn 5 6 6 OR
                get_field1 insn 3 7 8 OR get_field1 insn 2 5 5) 10
          in if imm = 0 then Some (Illegal_insn, s)
             else Some (Next_insn 2, put_reg 2 (reg s ! 2 + imm) s)
        else
          let imm = sext (get_field1 insn 12 17 17 OR get_field1 insn 2 12 16) 18
          in Some (Next_insn 2, put_rd rd imm s)
      else if funct3 = 4 then exec_c1_alu insn s
      else if funct3 = 5 then
        Some (Jump_insn, s\<lparr>pc := get_pc + c_imm_j insn\<rparr>)
      else if funct3 = 6 then
        if reg s ! rs1 = 0 then Some (Jump_insn, s\<lparr>pc := get_pc + c_imm_b insn\<rparr>)
        else Some (Next_insn 2, s)
      else
        if reg s ! rs1 \<noteq> 0 then Some (Jump_insn, s\<lparr>pc := get_pc + c_imm_b insn\<rparr>)
        else Some (Next_insn 2, s))"

subsection \<open>Compressed instructions, quadrant 2\<close>

definition exec_c2_jump :: "u32 \<Rightarrow> u32 \<Rightarrow> 'z riscv_cpu_scheme \<Rightarrow> 'z riscv_cpu_scheme step" where
  "exec_c2_jump insn get_pc s =
     (let rd = insn_rd insn; rs2 = unat (drop_bit 2 insn AND 0x1f) in
      if drop_bit 12 insn AND 1 = 0 then
        if rs2 = 0 then
          if rd = 0 then Some (Illegal_insn, s)
          else Some (Jump_insn, s\<lparr>pc := reg s ! rd AND NOT 1\<rparr>)
        else Some (Next_insn 2, put_rd rd (reg s ! rs2) s)
      else
        if rs2 = 0 then
          if rd = 0 then Some (Exception, s\<lparr>pending_exception := uint CAUSE_BREAKPOINT\<rparr>)
          else
            let val = get_pc + 2;
                s = s\<lparr>pc := reg s ! rd AND NOT 1\<rparr>
            in Some (Jump_insn, put_reg 1 val s)
        else Some (Next_insn 2, put_rd rd (reg s ! rd + reg s ! rs2) s))"

definition exec_c2 ::
  "'z riscv_cpu_scheme cpu_env \<Rightarrow> u32 \<Rightarrow> u32 \<Rightarrow> 'z riscv_cpu_scheme \<Rightarrow> 'z riscv_cpu_scheme step" where
  "exec_c2 env insn get_pc s =
     (let funct3 = drop_bit 13 insn AND 7;
          rd = insn_rd insn;
          rs2 = drop_bit 2 insn AND 0x1f
      in
      if funct3 = 0 then
        let imm = get_field1 insn 12 5 5 OR rs2
        in if imm AND 0x20 \<noteq> 0 then Some (Illegal_insn, s)
           else Some (Next_insn 2, put_rd rd (push_bit (unat imm) (reg s ! rd)) s)
      else if funct3 = 1 then
        if fs s = 0 then Some (Illegal_insn, s)
        else
          let imm = get_field1 insn 12 5 5 OR (rs2 AND push_bit 3 3) OR get_field1 insn 2 6 8
          in or_exception (target_read_u64 env (reg s ! 2 + imm) s) (\<lambda>rval s.
               Some (Next_insn 2, (put_fp rd (rval OR F64_HIGH) s)\<lparr>fs := 3\<rparr>))
      else if funct3 = 2 then
        let imm = get_field1 insn 12 5 5 OR (rs2 AND push_bit 2 7) OR get_field1 insn 2 6 7
        in or_exception (target_read_u32 env (reg s ! 2 + imm) s) (\<lambda>rval s.
             Some (Next_insn 2, put_rd rd rval s))
      else if funct3 = 3 then
        if fs s = 0 then Some (Illegal_insn, s)
        else
          let imm = get_field1 insn 12 5 5 OR (rs2 AND push_bit 2 7) OR get_field1 insn 2 6 7
          in or_exception (target_read_u32 env (reg s ! 2 + imm) s) (\<lambda>rval s.
               Some (Next_insn 2, (put_fp rd (ucast rval OR F32_HIGH) s)\<lparr>fs := 3\<rparr>))
      else if funct3 = 4 then exec_c2_jump insn get_pc s
      else if funct3 = 5 then
        if fs s = 0 then Some (Illegal_insn, s)
        else
          let imm = get_field1 insn 10 3 5 OR get_field1 insn 7 6 8
          in or_exception (target_write_u64 env (reg s ! 2 + imm) (fp_reg s ! unat rs2) s) (\<lambda>_ s.
               Some (Next_insn 2, s))
      else if funct3 = 6 then
        let imm = get_field1 insn 9 2 5 OR get_field1 insn 7 6 7
        in or_exception (target_write_u32 env (reg s ! 2 + imm) (reg s ! unat rs2) s) (\<lambda>_ s.
             Some (Next_insn 2, s))
      else
        if fs s = 0 then Some (Illegal_insn, s)
        else
          let imm = get_field1 insn 9 2 5 OR get_field1 insn 7 6 7
          in or_exception (target_write_u32 env (reg s ! 2 + imm) (ucast (fp_reg s ! unat rs2)) s)
               (\<lambda>_ s. Some (Next_insn 2, s)))"

subsection \<open>Jumps and branches\<close>

definition imm_jal :: "u32 \<Rightarrow> u32" where
  "imm_jal insn =
     (let imm = (drop_bit (31 - 20) insn AND push_bit 20 1) OR (drop_bit (21 - 1) insn AND 0x7fe) OR
            (drop_bit (20 - 11) insn AND push_bit 11 1) OR (insn AND 0xff000)
      in signed_drop_bit 11 (push_bit 11 imm))"

definition exec_jal :: "u32 \<Rightarrow> u32 \<Rightarrow> 'z riscv_cpu_scheme \<Rightarrow> 'z riscv_cpu_scheme step" where
  "exec_jal insn get_pc s =
     (let s = put_rd (insn_rd insn) (get_pc + 4) s
      in Some (Jump_insn, s\<lparr>pc := get_pc + imm_jal insn\<rparr>))"

definition exec_jalr :: "u32 \<Rightarrow> u32 \<Rightarrow> 'z riscv_cpu_scheme \<Rightarrow> 'z riscv_cpu_scheme step" where
  "exec_jalr insn get_pc s =
     (let imm = signed_drop_bit 20 insn;
          val = get_pc + 4;
          s = s\<lparr>pc := (reg s ! insn_rs1 insn + imm) AND NOT 1\<rparr>
      in Some (Jump_insn, put_rd (insn_rd insn) val s))"

definition imm_branch :: "u32 \<Rightarrow> u32" where
  "imm_branch insn =
     (let imm = (drop_bit (31 - 12) insn AND push_bit 12 1) OR (drop_bit (25 - 5) insn AND 0x7e0) OR
            (drop_bit (8 - 1) insn AND 0x1e) OR (push_bit (11 - 7) insn AND push_bit 11 1)
      in signed_drop_bit 19 (push_bit 19 imm))"

definition exec_branch :: "u32 \<Rightarrow> u32 \<Rightarrow> 'z riscv_cpu_scheme \<Rightarrow> 'z riscv_cpu_scheme step" where
  "exec_branch insn get_pc s =
     (let funct3 = drop_bit 12 insn AND 7;
          a = reg s ! insn_rs1 insn;
          b = reg s ! insn_rs2 insn;
          cond = (if drop_bit 1 funct3 = 0 then Some (a = b)
                  else if drop_bit 1 funct3 = 2 then Some (less_signed a b)
                  else if drop_bit 1 funct3 = 3 then Some (a < b)
                  else None)
      in case cond of
           None \<Rightarrow> Some (Illegal_insn, s)
         | Some c \<Rightarrow>
             if c \<noteq> (funct3 AND 1 \<noteq> 0) then Some (Jump_insn, s\<lparr>pc := get_pc + imm_branch insn\<rparr>)
             else Some (Next_insn 4, s))"

subsection \<open>Loads and stores\<close>

definition exec_load ::
  "'z riscv_cpu_scheme cpu_env \<Rightarrow> u32 \<Rightarrow> 'z riscv_cpu_scheme \<Rightarrow> 'z riscv_cpu_scheme step" where
  "exec_load env insn s =
     (let funct3 = drop_bit 12 insn AND 7;
          imm = signed_drop_bit 20 insn;
          addr = reg s ! insn_rs1 insn + imm;
          rd = insn_rd insn
      in
      if funct3 = 0 then
        or_exception (target_read_u8 env addr s) (\<lambda>rval s. Some (Next_insn 4, put_rd rd (scast rval) s))
      else if funct3 = 1 then
        or_exception (target_read_u16 env addr s) (\<lambda>rval s. Some (Next_insn 4, put_rd rd (scast rval) s))
      else if funct3 = 2 then
        or_exception (target_read_u32 env addr s) (\<lambda>rval s. Some (Next_insn 4, put_rd rd rval s))
      else if funct3 = 4 then
        or_exception (target_read_u8 env addr s) (\<lambda>rval s. Some (Next_insn 4, put_rd rd (ucast rval) s))
      else if funct3 = 5 then
        or_exception (target_read_u16 env addr s) (\<lambda>rval s. Some (Next_insn 4, put_rd rd (ucast rval) s))
      else Some (Illegal_insn, s))"

definition imm_store :: "u32 \<Rightarrow> u32" where
  "imm_store insn =
     signed_drop_bit 20 (push_bit 20 ((drop_bit 7 insn AND 0x1f) OR (drop_bit (25 - 5) insn AND 0xfe0)))"

definition exec_store ::
  "'z riscv_cpu_scheme cpu_env \<Rightarrow> u32 \<Rightarrow> 'z riscv_cpu_scheme \<Rightarrow> 'z riscv_cpu_scheme step" where
  "exec_store env insn s =
     (let funct3 = drop_bit 12 insn AND 7;
          addr = reg s ! insn_rs1 insn + imm_store insn;
          val = reg s ! insn_rs2 insn
      in
      if funct3 = 0 then
        or_exception (target_write_u8 env addr (ucast val) s) (\<lambda>_ s. Some (Next_insn 4, s))
      else if funct3 = 1 then
        or_exception (target_write_u16 env addr (ucast val) s) (\<lambda>_ s. Some (Next_insn 4, s))
      else if funct3 = 2 then
        or_exception (target_write_u32 env addr val s) (\<lambda>_ s. Some (Next_insn 4, s))
      else Some (Illegal_insn, s))"

subsection \<open>Integer arithmetic\<close>

definition op_imm :: "u32 \<Rightarrow> u32 \<Rightarrow> u32 \<Rightarrow> u32 option" where
  "op_imm funct3 a imm =
     (if funct3 = 0 then Some (a + imm)
      else if funct3 = 1 then
        (if imm AND NOT 31 \<noteq> 0 then None else Some (push_bit (unat (imm AND 31)) a))
      else if funct3 = 2 then Some (of_bool32 (less_signed a imm))
      else if funct3 = 3 then Some (of_bool32 (a < imm))
      else if funct3 = 4 then Some (a XOR imm)
      else if funct3 = 5 then
        (if imm AND NOT (31 OR 0x400) \<noteq> 0 then None
         else if imm AND 0x400 \<noteq> 0 then Some (signed_drop_bit (unat (imm AND 31)) a)
         else Some (drop_bit (unat (imm AND 31)) a))
      else if funct3 = 6 then Some (a OR imm)
      else Some (a AND imm))"

definition exec_op_imm :: "u32 \<Rightarrow> 'z riscv_cpu_scheme \<Rightarrow> 'z riscv_cpu_scheme step" where
  "exec_op_imm insn s =
     (case op_imm (drop_bit 12 insn AND 7) (reg s ! insn_rs1 insn) (signed_drop_bit 20 insn) of
        None \<Rightarrow> Some (Illegal_insn, s)
      | Some val \<Rightarrow> Some (Next_insn 4, put_rd (insn_rd insn) val s))"

definition op_muldiv :: "u32 \<Rightarrow> u32 \<Rightarrow> u32 \<Rightarrow> u32" where
  "op_muldiv funct3 val val2 =
     (if funct3 = 0 then val * val2
      else if funct3 = 1 then mulh32 val val2
      else if funct3 = 2 then mulhsu32 val val2
      else if funct3 = 3 then mulhu32 val val2
      else if funct3 = 4 then div32 val val2
      else if funct3 = 5 then divu32 val val2
      else if funct3 = 6 then rem32 val val2
      else remu32 val val2)"

definition op_alu :: "u32 \<Rightarrow> u32 \<Rightarrow> u32 \<Rightarrow> u32 option" where
  "op_alu funct3 val val2 =
     (if funct3 = 0 then Some (val + val2)
      else if funct3 = 0 OR 8 then Some (val - val2)
      else if funct3 = 1 then Some (push_bit (unat (val2 AND 31)) val)
      else if funct3 = 2 then Some (of_bool32 (less_signed val val2))
      else if funct3 = 3 then Some (of_bool32 (val < val2))
      else if funct3 = 4 then Some (val XOR val2)
      else if funct3 = 5 then Some (drop_bit (unat (val2 AND 31)) val)
      else if funct3 = 5 OR 8 then Some (signed_drop_bit (unat (val2 AND 31)) val)
      else if funct3 = 6 then Some (val OR val2)
      else if funct3 = 7 then Some (val AND val2)
      else None)"

definition exec_op :: "u32 \<Rightarrow> 'z riscv_cpu_scheme \<Rightarrow> 'z riscv_cpu_scheme step" where
  "exec_op insn s =
     (let imm = drop_bit 25 insn;
          val = reg s ! insn_rs1 insn;
          val2 = reg s ! insn_rs2 insn;
          res = (if imm = 1 then Some (op_muldiv (drop_bit 12 insn AND 7) val val2)
                 else if imm AND NOT 0x20 \<noteq> 0 then None
                 else op_alu ((drop_bit 12 insn AND 7) OR (drop_bit (30 - 3) insn AND push_bit 3 1)) val val2)
      in case res of
           None \<Rightarrow> Some (Illegal_insn, s)
         | Some val \<Rightarrow> Some (Next_insn 4, put_rd (insn_rd insn) val s))"

end
