(* ===== verification/RiscvFp.thy ===== *)
theory RiscvFp
  imports RiscvInsn
begin

section \<open>Floating-point instructions (riscv_cpu_template.h, riscv_cpu_fp_template.h)\<close>

text \<open>
  The loads and stores of the F and D extensions, the fused multiply-add, and the instructions of
  opcode 0x53, which the source generates from one template for the two formats. What the operations
  compute is \<open>softfp\<close>, an argument here; the theory FloatUnit gives the program's. A single is
  kept in the low half of a register, the high half is all ones.
\<close>

subsection \<open>Loads, stores, fused multiply-add\<close>

definition exec_fp_load ::
  "'z riscv_cpu_scheme cpu_env \<Rightarrow> u32 \<Rightarrow> 'z riscv_cpu_scheme \<Rightarrow> 'z riscv_cpu_scheme step" where
  "exec_fp_load env insn s =
     (let funct3 = drop_bit 12 insn AND 7;
          addr = reg s ! insn_rs1 insn + signed_drop_bit 20 insn;
          rd = insn_rd insn
      in
      if fs s = 0 then Some (Illegal_insn, s)
      else if funct3 = 2 then
        or_exception (target_read_u32 env addr s) (\<lambda>rval s.
          Some (Next_insn 4, (put_fp rd (ucast rval OR F32_HIGH) s)\<lparr>fs := 3\<rparr>))
      else if funct3 = 3 then
        or_exception (target_read_u64 env addr s) (\<lambda>rval s.
          Some (Next_insn 4, (put_fp rd (rval OR F64_HIGH) s)\<lparr>fs := 3\<rparr>))
      else Some (Illegal_insn, s))"

definition exec_fp_store ::
  "'z riscv_cpu_scheme cpu_env \<Rightarrow> u32 \<Rightarrow> 'z riscv_cpu_scheme \<Rightarrow> 'z riscv_cpu_scheme step" where
  "exec_fp_store env insn s =
     (let funct3 = drop_bit 12 insn AND 7;
          addr = reg s ! insn_rs1 insn + imm_store insn;
          rs2 = insn_rs2 insn
      in
      if fs s = 0 then Some (Illegal_insn, s)
      else if funct3 = 2 then
        or_exception (target_write_u32 env addr (ucast (fp_reg s ! rs2)) s) (\<lambda>_ s. Some (Next_insn 4, s))
      else if funct3 = 3 then
        or_exception (target_write_u64 env addr (fp_reg s ! rs2) s) (\<lambda>_ s. Some (Next_insn 4, s))
      else Some (Illegal_insn, s))"

text \<open>
  \<open>fmadd\<close>, \<open>fmsub\<close>, \<open>fnmsub\<close> and \<open>fnmadd\<close> differ in the signs of the first and the
  third operand.
\<close>

definition exec_fma ::
  "'z riscv_cpu_scheme cpu_env \<Rightarrow> u32 \<Rightarrow> bool \<Rightarrow> bool \<Rightarrow> 'z riscv_cpu_scheme \<Rightarrow> 'z riscv_cpu_scheme step" where
  "exec_fma env insn neg1 neg3 s =
     (let funct3 = drop_bit 25 insn AND 3;
          rd = insn_rd insn;
          a = fp_reg s ! insn_rs1 insn;
          b = fp_reg s ! insn_rs2 insn;
          c = fp_reg s ! unat (drop_bit 27 insn)
      in
      if fs s = 0 then Some (Illegal_insn, s)
      else case get_insn_rm s (drop_bit 12 insn AND 7) of
        None \<Rightarrow> Some (Illegal_insn, s)
      | Some rm \<Rightarrow>
          if funct3 = 0 then
            let (r, flags) = sf_fma (sf32 (fpu env))
                  (if neg1 then ucast a XOR FSIGN_MASK32 else ucast a) (ucast b)
                  (if neg3 then ucast c XOR FSIGN_MASK32 else ucast c) rm (fflags s)
            in Some (Next_insn 4, (put_fp rd (ucast r OR F32_HIGH) (s\<lparr>fflags := flags\<rparr>))\<lparr>fs := 3\<rparr>)
          else if funct3 = 1 then
            let (r, flags) = sf_fma (sf64 (fpu env))
                  (if neg1 then a XOR FSIGN_MASK64 else a) b
                  (if neg3 then c XOR FSIGN_MASK64 else c) rm (fflags s)
            in Some (Next_insn 4, (put_fp rd (r OR F64_HIGH) (s\<lparr>fflags := flags\<rparr>))\<lparr>fs := 3\<rparr>)
          else Some (Illegal_insn, s))"

subsection \<open>Arithmetic, conversions, comparisons\<close>

text \<open>
  \<open>FSIGN_MASK\<close> as the template's 64 bit expressions see it: for singles it is the \<open>int\<close>
  \<open>1 << 31\<close>, which is negative and is sign-extended.
\<close>

definition fsign_mask :: "u32 \<Rightarrow> u64" where
  "fsign_mask fmt = (if fmt = 0 then scast FSIGN_MASK32 else FSIGN_MASK64)"

definition f_high :: "u32 \<Rightarrow> u64" where
  "f_high fmt = (if fmt = 0 then F32_HIGH else F64_HIGH)"

text \<open>\<open>s->fp_reg[rd] = f(\<dots>, &s->fflags) | F_HIGH; s->fs = 3\<close>.\<close>

definition fp_result :: "nat \<Rightarrow> u64 \<Rightarrow> 'w::len word \<times> u32 \<Rightarrow> 'z riscv_cpu_scheme \<Rightarrow> 'z riscv_cpu_scheme" where
  "fp_result rd high r s =
     (put_fp rd (ucast (fst r) OR high) (s\<lparr>fflags := snd r\<rparr>))\<lparr>fs := 3\<rparr>"

definition int_result :: "nat \<Rightarrow> u32 \<times> u32 \<Rightarrow> 'z riscv_cpu_scheme \<Rightarrow> 'z riscv_cpu_scheme" where
  "int_result rd r s = put_rd rd (fst r) (s\<lparr>fflags := snd r\<rparr>)"

definition bool_result :: "nat \<Rightarrow> bool \<times> u32 \<Rightarrow> 'z riscv_cpu_scheme \<Rightarrow> 'z riscv_cpu_scheme" where
  "bool_result rd r s = int_result rd (of_bool32 (fst r), snd r) s"

text \<open>
  The cases of the template. \<open>rm\<close> is the rounding mode, after \<open>get_insn_rm\<close>, or the
  selector that stands in its field. \<open>None\<close> is \<open>illegal_insn\<close>.
\<close>

definition fp_arith ::
  "'w::len word softfp_ops \<Rightarrow> u32 \<Rightarrow> u32 \<Rightarrow> nat \<Rightarrow> nat \<Rightarrow> nat \<Rightarrow> u32 \<Rightarrow> 'z riscv_cpu_scheme \<Rightarrow> 'z riscv_cpu_scheme option" where
  "fp_arith ops fmt op rd rs1 rs2 rm s =
     (let a = ucast (fp_reg s ! rs1); b = ucast (fp_reg s ! rs2); high = f_high fmt; fl = fflags s in
      if op = 0x00 then Some (fp_result rd high (sf_add ops a b rm fl) s)
      else if op = 0x01 then Some (fp_result rd high (sf_sub ops a b rm fl) s)
      else if op = 0x02 then Some (fp_result rd high (sf_mul ops a b rm fl) s)
      else if op = 0x03 then Some (fp_result rd high (sf_div ops a b rm fl) s)
      else if rs2 \<noteq> 0 then None
      else Some (fp_result rd high (sf_sqrt ops a rm fl) s))"

definition fp_to_int ::
  "'w::len word softfp_ops \<Rightarrow> nat \<Rightarrow> nat \<Rightarrow> nat \<Rightarrow> u32 \<Rightarrow> 'z riscv_cpu_scheme \<Rightarrow> 'z riscv_cpu_scheme option" where
  "fp_to_int ops rd rs1 rs2 rm s =
     (let a = ucast (fp_reg s ! rs1) in
      if rs2 = 0 then Some (int_result rd (sf_cvt_i32 ops a rm (fflags s)) s)
      else if rs2 = 1 then Some (int_result rd (sf_cvt_u32 ops a rm (fflags s)) s)
      else None)"

definition fp_from_int ::
  "'w::len word softfp_ops \<Rightarrow> u32 \<Rightarrow> nat \<Rightarrow> nat \<Rightarrow> nat \<Rightarrow> u32 \<Rightarrow> 'z riscv_cpu_scheme \<Rightarrow> 'z riscv_cpu_scheme option" where
  "fp_from_int ops fmt rd rs1 rs2 rm s =
     (if rs2 = 0 then Some (fp_result rd (f_high fmt) (i32_cvt_sf ops (reg s ! rs1) rm (fflags s)) s)
      else if rs2 = 1 then Some (fp_result rd (f_high fmt) (u32_cvt_sf ops (reg s ! rs1) rm (fflags s)) s)
      else None)"

definition fp_to_fp ::
  "softfp \<Rightarrow> u32 \<Rightarrow> nat \<Rightarrow> nat \<Rightarrow> nat \<Rightarrow> u32 \<Rightarrow> 'z riscv_cpu_scheme \<Rightarrow> 'z riscv_cpu_scheme option" where
  "fp_to_fp fp fmt rd rs1 rs2 rm s =
     (if fmt = 0 \<and> rs2 = 1
      then Some (fp_result rd F32_HIGH (cvt_sf64_sf32 fp (fp_reg s ! rs1) rm (fflags s)) s)
      else if fmt = 1 \<and> rs2 = 0
      then Some (fp_result rd F64_HIGH (cvt_sf32_sf64 fp (ucast (fp_reg s ! rs1)) (fflags s)) s)
      else None)"

definition fsgnj :: "u32 \<Rightarrow> u32 \<Rightarrow> u64 \<Rightarrow> u64 \<Rightarrow> u64 option" where
  "fsgnj fmt rm a b =
     (let m = fsign_mask fmt in
      if rm = 0 then Some ((a AND NOT m) OR (b AND m))
      else if rm = 1 then Some ((a AND NOT m) OR ((b AND m) XOR m))
      else if rm = 2 then Some (a XOR (b AND m))
      else None)"

definition fp_sign ::
  "u32 \<Rightarrow> nat \<Rightarrow> nat \<Rightarrow> nat \<Rightarrow> u32 \<Rightarrow> 'z riscv_cpu_scheme \<Rightarrow> 'z riscv_cpu_scheme option" where
  "fp_sign fmt rd rs1 rs2 rm s =
     map_option (\<lambda>v. (put_fp rd v s)\<lparr>fs := 3\<rparr>) (fsgnj fmt rm (fp_reg s ! rs1) (fp_reg s ! rs2))"

definition fp_minmax ::
  "'w::len word softfp_ops \<Rightarrow> u32 \<Rightarrow> nat \<Rightarrow> nat \<Rightarrow> nat \<Rightarrow> u32 \<Rightarrow> 'z riscv_cpu_scheme \<Rightarrow> 'z riscv_cpu_scheme option" where
  "fp_minmax ops fmt rd rs1 rs2 rm s =
     (let a = ucast (fp_reg s ! rs1); b = ucast (fp_reg s ! rs2) in
      if rm = 0 then Some (fp_result rd (f_high fmt) (sf_min ops a b (fflags s)) s)
      else if rm = 1 then Some (fp_result rd (f_high fmt) (sf_max ops a b (fflags s)) s)
      else None)"

definition fp_compare ::
  "'w::len word softfp_ops \<Rightarrow> nat \<Rightarrow> nat \<Rightarrow> nat \<Rightarrow> u32 \<Rightarrow> 'z riscv_cpu_scheme \<Rightarrow> 'z riscv_cpu_scheme option" where
  "fp_compare ops rd rs1 rs2 rm s =
     (let a = ucast (fp_reg s ! rs1); b = ucast (fp_reg s ! rs2) in
      if rm = 0 then Some (bool_result rd (sf_le ops a b (fflags s)) s)
      else if rm = 1 then Some (bool_result rd (sf_lt ops a b (fflags s)) s)
      else if rm = 2 then Some (bool_result rd (sf_eq_quiet ops a b (fflags s)) s)
      else None)"

definition fp_move_to_int ::
  "'w::len word softfp_ops \<Rightarrow> u32 \<Rightarrow> nat \<Rightarrow> nat \<Rightarrow> nat \<Rightarrow> u32 \<Rightarrow> 'z riscv_cpu_scheme \<Rightarrow> 'z riscv_cpu_scheme option" where
  "fp_move_to_int ops fmt rd rs1 rs2 rm s =
     (if rs2 \<noteq> 0 then None
      else if fmt = 0 \<and> rm = 0 then Some (put_rd rd (ucast (fp_reg s ! rs1)) s)
      else if rm = 1 then Some (put_rd rd (sf_fclass ops (ucast (fp_reg s ! rs1))) s)
      else None)"

definition fp_move_from_int ::
  "u32 \<Rightarrow> nat \<Rightarrow> nat \<Rightarrow> nat \<Rightarrow> u32 \<Rightarrow> 'z riscv_cpu_scheme \<Rightarrow> 'z riscv_cpu_scheme option" where
  "fp_move_from_int fmt rd rs1 rs2 rm s =
     (if fmt \<noteq> 0 \<or> rs2 \<noteq> 0 \<or> rm \<noteq> 0 then None
      else Some ((put_fp rd (scast (reg s ! rs1)) s)\<lparr>fs := 3\<rparr>))"

text \<open>The switch: both formats have the same cases, the last one only for singles.\<close>

definition fp_template ::
  "softfp \<Rightarrow> 'w::len word softfp_ops \<Rightarrow> u32 \<Rightarrow> u32 \<Rightarrow> nat \<Rightarrow> nat \<Rightarrow> nat \<Rightarrow> u32 \<Rightarrow> 'z riscv_cpu_scheme \<Rightarrow> 'z riscv_cpu_scheme option" where
  "fp_template fp ops fmt op rd rs1 rs2 rm s =
     (let rounded = (\<lambda>f. Option.bind (get_insn_rm s rm) (\<lambda>rm. f rm)) in
      if op \<in> {0x00, 0x01, 0x02, 0x03, 0x0b} then rounded (\<lambda>rm. fp_arith ops fmt op rd rs1 rs2 rm s)
      else if op = 0x18 then rounded (\<lambda>rm. fp_to_int ops rd rs1 rs2 rm s)
      else if op = 0x1a then rounded (\<lambda>rm. fp_from_int ops fmt rd rs1 rs2 rm s)
      else if op = 0x08 then rounded (\<lambda>rm. fp_to_fp fp fmt rd rs1 rs2 rm s)
      else if op = 0x04 then fp_sign fmt rd rs1 rs2 rm s
      else if op = 0x05 then fp_minmax ops fmt rd rs1 rs2 rm s
      else if op = 0x14 then fp_compare ops rd rs1 rs2 rm s
      else if op = 0x1c then fp_move_to_int ops fmt rd rs1 rs2 rm s
      else if op = 0x1e then fp_move_from_int fmt rd rs1 rs2 rm s
      else None)"

definition exec_fp ::
  "'z riscv_cpu_scheme cpu_env \<Rightarrow> u32 \<Rightarrow> 'z riscv_cpu_scheme \<Rightarrow> 'z riscv_cpu_scheme step" where
  "exec_fp env insn s =
     (let imm = drop_bit 25 insn; op = drop_bit 2 imm; fmt = imm AND 3;
          rd = insn_rd insn; rs1 = insn_rs1 insn; rs2 = insn_rs2 insn;
          rm = drop_bit 12 insn AND 7;
          res = (if fs s = 0 then None
            else if fmt = 0 then fp_template (fpu env) (sf32 (fpu env)) 0 op rd rs1 rs2 rm s
            else if fmt = 1 then fp_template (fpu env) (sf64 (fpu env)) 1 op rd rs1 rs2 rm s
            else None)
      in case res of None \<Rightarrow> Some (Illegal_insn, s) | Some s \<Rightarrow> Some (Next_insn 4, s))"

end
