(* ===== verification/RiscvInterp.thy ===== *)
theory RiscvInterp
  imports RiscvFp
begin

section \<open>System and atomic instructions, the interpreter loop\<close>

text \<open>
  The rest of \<open>riscv_cpu_template.h\<close>: the groups of the \<open>switch\<close> that are not in
  \<open>RiscvInsn\<close> and \<open>RiscvFp\<close>, the dispatch on the opcode, and \<open>riscv_cpu_interp_x32\<close>
  with its fetch.
\<close>

subsection \<open>CSR instructions\<close>

definition after_csr_write ::
  "u32 \<Rightarrow> nat \<Rightarrow> u32 \<Rightarrow> int \<Rightarrow> 'z riscv_cpu_scheme \<Rightarrow> 'z riscv_cpu_scheme step" where
  "after_csr_write get_pc rd val2 err s =
     (let s = put_rd rd val2 s in
      if err > 0 then
        let s = s\<lparr>pc := get_pc + 4\<rparr>
        in if err = 2 then Some (Jump_insn, s) else Some (Done_interp, s)
      else Some (Next_insn 4, s))"

definition exec_csr ::
  "u32 \<Rightarrow> u32 \<Rightarrow> u64 \<Rightarrow> 'z riscv_cpu_scheme \<Rightarrow> 'z riscv_cpu_scheme step" where
  "exec_csr insn get_pc counter s =
     (let funct3 = drop_bit 12 insn AND 7;
          imm = drop_bit 20 insn;
          rd = insn_rd insn;
          rs1 = insn_rs1 insn;
          val = (if funct3 AND 4 \<noteq> 0 then word_of_nat rs1 else reg s ! rs1);
          funct3 = funct3 AND 3;
          s = s\<lparr>insn_counter := counter\<rparr>
      in
      if funct3 = 1 then
        (case csr_read s imm True of
           None \<Rightarrow> Some (Illegal_insn, s)
         | Some val2 \<Rightarrow>
             let (err, s) = csr_write s imm val
             in if err < 0 then Some (Illegal_insn, s)
                else after_csr_write get_pc rd val2 err s)
      else
        (case csr_read s imm (rs1 \<noteq> 0) of
           None \<Rightarrow> Some (Illegal_insn, s)
         | Some val2 \<Rightarrow>
             let (err, s) =
               (if rs1 \<noteq> 0
                then csr_write s imm (if funct3 = 2 then val2 OR val else val2 AND NOT val)
                else (0, s))
             in if err < 0 then Some (Illegal_insn, s)
                else after_csr_write get_pc rd val2 err s))"

subsection \<open>Privileged instructions\<close>

definition exec_priv :: "u32 \<Rightarrow> u32 \<Rightarrow> 'z riscv_cpu_scheme \<Rightarrow> 'z riscv_cpu_scheme step" where
  "exec_priv insn get_pc s =
     (let imm = drop_bit 20 insn in
      if imm = 0x000 then
        if insn AND 0x000fff80 \<noteq> 0 then Some (Illegal_insn, s)
        else Some (Exception, s\<lparr>pending_exception := uint CAUSE_USER_ECALL + uint (priv s)\<rparr>)
      else if imm = 0x001 then
        if insn AND 0x000fff80 \<noteq> 0 then Some (Illegal_insn, s)
        else Some (Exception, s\<lparr>pending_exception := uint CAUSE_BREAKPOINT\<rparr>)
      else if imm = 0x102 then
        if insn AND 0x000fff80 \<noteq> 0 then Some (Illegal_insn, s)
        else if priv s < PRV_S then Some (Illegal_insn, s)
        else Some (Done_interp, handle_sret (s\<lparr>pc := get_pc\<rparr>))
      else if imm = 0x302 then
        if insn AND 0x000fff80 \<noteq> 0 then Some (Illegal_insn, s)
        else if priv s < PRV_M then Some (Illegal_insn, s)
        else Some (Done_interp, handle_mret (s\<lparr>pc := get_pc\<rparr>))
      else if imm = 0x105 then
        if insn AND 0x00007f80 \<noteq> 0 then Some (Illegal_insn, s)
        else if priv s = PRV_U then Some (Illegal_insn, s)
        else if mip s AND mie s = 0 then
          Some (Done_interp, s\<lparr>power_down_flag := True, pc := get_pc + 4\<rparr>)
        else Some (Next_insn 4, s)
      else if drop_bit 5 imm = 0x09 then
        if insn AND 0x00007f80 \<noteq> 0 then Some (Illegal_insn, s)
        else if priv s = PRV_U then Some (Illegal_insn, s)
        else Some (Jump_insn, s\<lparr>pc := get_pc + 4\<rparr>)
      else Some (Illegal_insn, s))"

definition exec_system ::
  "u32 \<Rightarrow> u32 \<Rightarrow> u64 \<Rightarrow> 'z riscv_cpu_scheme \<Rightarrow> 'z riscv_cpu_scheme step" where
  "exec_system insn get_pc counter s =
     (if drop_bit 12 insn AND 3 = 0 then exec_priv insn get_pc s
      else exec_csr insn get_pc counter s)"

definition exec_misc_mem :: "u32 \<Rightarrow> 'z riscv_cpu_scheme \<Rightarrow> 'z riscv_cpu_scheme step" where
  "exec_misc_mem insn s =
     (let funct3 = drop_bit 12 insn AND 7 in
      if funct3 = 0 then
        if insn AND 0xf00fff80 \<noteq> 0 then Some (Illegal_insn, s) else Some (Next_insn 4, s)
      else if funct3 = 1 then
        if insn \<noteq> 0x0000100f then Some (Illegal_insn, s) else Some (Next_insn 4, s)
      else Some (Illegal_insn, s))"

subsection \<open>Atomic instructions\<close>

definition amo_op :: "u32 \<Rightarrow> u32 \<Rightarrow> u32 \<Rightarrow> u32 option" where
  "amo_op funct val val2 =
     (if funct = 1 then Some val2
      else if funct = 0 then Some (val + val2)
      else if funct = 4 then Some (val XOR val2)
      else if funct = 0xc then Some (val AND val2)
      else if funct = 0x8 then Some (val OR val2)
      else if funct = 0x10 then Some (if sint val < sint val2 then val else val2)
      else if funct = 0x14 then Some (if sint val > sint val2 then val else val2)
      else if funct = 0x18 then Some (if val < val2 then val else val2)
      else if funct = 0x1c then Some (if val > val2 then val else val2)
      else None)"

definition exec_amo ::
  "'z riscv_cpu_scheme cpu_env \<Rightarrow> u32 \<Rightarrow> 'z riscv_cpu_scheme \<Rightarrow> 'z riscv_cpu_scheme step" where
  "exec_amo env insn s =
     (let rd = insn_rd insn;
          rs2 = insn_rs2 insn;
          addr = reg s ! insn_rs1 insn;
          funct = drop_bit 27 insn
      in
      if drop_bit 12 insn AND 7 \<noteq> 2 then Some (Illegal_insn, s)
      else if funct = 2 then
        if rs2 \<noteq> 0 then Some (Illegal_insn, s)
        else or_exception (target_read_u32 env addr s) (\<lambda>rval s.
          Some (Next_insn 4, put_rd rd rval (s\<lparr>load_res := addr\<rparr>)))
      else if funct = 3 then
        if load_res s = addr then
          or_exception (target_write_u32 env addr (reg s ! rs2) s) (\<lambda>_ s.
            Some (Next_insn 4, put_rd rd 0 s))
        else Some (Next_insn 4, put_rd rd 1 s)
      else if amo_op funct 0 0 = None then Some (Illegal_insn, s)
      else or_exception (target_read_u32 env addr s) (\<lambda>val s.
        case amo_op funct val (reg s ! rs2) of
          None \<Rightarrow> Some (Illegal_insn, s)
        | Some val2 \<Rightarrow>
            or_exception (target_write_u32 env addr val2 s) (\<lambda>_ s.
              Some (Next_insn 4, put_rd rd val s))))"

subsection \<open>Dispatch\<close>

definition exec_insn ::
  "'z riscv_cpu_scheme cpu_env \<Rightarrow> u32 \<Rightarrow> u32 \<Rightarrow> u64 \<Rightarrow> 'z riscv_cpu_scheme \<Rightarrow> 'z riscv_cpu_scheme step" where
  "exec_insn env insn get_pc counter s =
     (let opcode = insn AND 0x7f; rd = insn_rd insn in
      if opcode AND 3 = 0 then exec_c0 env insn s
      else if opcode AND 3 = 1 then exec_c1 insn get_pc s
      else if opcode AND 3 = 2 then exec_c2 env insn get_pc s
      else if opcode = 0x37 then Some (Next_insn 4, put_rd rd (insn AND 0xfffff000) s)
      else if opcode = 0x17 then Some (Next_insn 4, put_rd rd (get_pc + (insn AND 0xfffff000)) s)
      else if opcode = 0x6f then exec_jal insn get_pc s
      else if opcode = 0x67 then exec_jalr insn get_pc s
      else if opcode = 0x63 then exec_branch insn get_pc s
      else if opcode = 0x03 then exec_load env insn s
      else if opcode = 0x23 then exec_store env insn s
      else if opcode = 0x13 then exec_op_imm insn s
      else if opcode = 0x33 then exec_op insn s
      else if opcode = 0x73 then exec_system insn get_pc counter s
      else if opcode = 0x0f then exec_misc_mem insn s
      else if opcode = 0x2f then exec_amo env insn s
      else if opcode = 0x07 then exec_fp_load env insn s
      else if opcode = 0x27 then exec_fp_store env insn s
      else if opcode = 0x43 then exec_fma env insn False False s
      else if opcode = 0x47 then exec_fma env insn False True s
      else if opcode = 0x4b then exec_fma env insn True False s
      else if opcode = 0x4f then exec_fma env insn True True s
      else if opcode = 0x53 then exec_fp env insn s
      else Some (Illegal_insn, s))"

subsection \<open>The loop\<close>

text \<open>
  The local variables of \<open>riscv_cpu_interp_x32\<close> that live across the rounds. \<open>code_ptr\<close> is a
  physical address here.
\<close>

record code_ctx =
  code_ptr :: u32
  code_end :: u32
  code_to_pc_addend :: u32
  n_cycles :: int

definition GET_PC :: "code_ctx \<Rightarrow> u32" where
  "GET_PC c = code_ptr c + code_to_pc_addend c"

definition GET_INSN_COUNTER :: "u64 \<Rightarrow> code_ctx \<Rightarrow> u64" where
  "GET_INSN_COUNTER insn_counter_addend c = insn_counter_addend - word_of_int (n_cycles c)"

text \<open>
  The fetch ends with an instruction, at \<open>the_end\<close>, or at \<open>mmu_exception\<close>. An instruction that
  starts in the last two bytes of a page may continue on the next page.
\<close>

datatype fetched = Fetched u32 | Fetch_end | Fetch_fault

definition fetch_half ::
  "'z riscv_cpu_scheme cpu_env \<Rightarrow> u32 \<Rightarrow> code_ctx \<Rightarrow> 'z riscv_cpu_scheme \<Rightarrow> (fetched \<times> 'z riscv_cpu_scheme) option" where
  "fetch_half env vmm_address c s = do {
     (full_insn, s) \<leftarrow> get_vmm_insn32 env vmm_address s;
     let insnvmm = full_insn AND 0xffff;
     if insnvmm AND 3 = 3 then do {
       (high, s) \<leftarrow> target_read_insn_slow_vmm env (GET_PC c + 2) s;
       case high of
         None \<Rightarrow> Some (Fetch_fault, s)
       | Some vmm_address_high \<Rightarrow> do {
           (other_half_insn, s) \<leftarrow> get_vmm_insn32 env vmm_address_high s;
           Some (Fetched (insnvmm OR push_bit 16 (other_half_insn AND 0xffff)), s)
         }
     } else Some (Fetched insnvmm, s)
   }"

definition fetch_block ::
  "'z riscv_cpu_scheme cpu_env \<Rightarrow> code_ctx \<Rightarrow> 'z riscv_cpu_scheme \<Rightarrow> (fetched \<times> code_ctx \<times> 'z riscv_cpu_scheme) option" where
  "fetch_block env c s = do {
     let addr = pc s;
     (p, s) \<leftarrow> target_read_insn_slow_vmm env addr s;
     case p of
       None \<Rightarrow> Some (Fetch_fault, c, s)
     | Some vmm_address \<Rightarrow> do {
         let c = c\<lparr>code_ptr := vmm_address,
               code_end := vmm_address + (PG_MASK - 1 - (addr AND PG_MASK)),
               code_to_pc_addend := addr - vmm_address\<rparr>;
         if code_ptr c \<ge> code_end c then do {
           (f, s) \<leftarrow> fetch_half env vmm_address c s;
           Some (f, c, s)
         } else do {
           (insn, s) \<leftarrow> get_vmm_insn32 env (code_ptr c) s;
           Some (Fetched insn, c, s)
         }
       }
   }"

definition fetch_insn ::
  "'z riscv_cpu_scheme cpu_env \<Rightarrow> code_ctx \<Rightarrow> 'z riscv_cpu_scheme \<Rightarrow> (fetched \<times> code_ctx \<times> 'z riscv_cpu_scheme) option" where
  "fetch_insn env c s =
     (if code_ptr c \<ge> code_end c then
        let s = s\<lparr>pc := GET_PC c\<rparr> in
        if n_cycles c \<le> 0 then Some (Fetch_end, c, s)
        else
          let (taken, s) = (if mip s AND mie s \<noteq> 0 then raise_interrupt s else (False, s))
          in if taken then Some (Fetch_end, c, s) else fetch_block env c s
      else do {
        (insn, s) \<leftarrow> get_vmm_insn32 env (code_ptr c) s;
        Some (Fetched insn, c, s)
      })"

definition the_end :: "u64 \<Rightarrow> code_ctx \<Rightarrow> 'z riscv_cpu_scheme \<Rightarrow> 'z riscv_cpu_scheme" where
  "the_end addend c s = s\<lparr>insn_counter := GET_INSN_COUNTER addend c\<rparr>"

definition done_interp :: "u64 \<Rightarrow> code_ctx \<Rightarrow> 'z riscv_cpu_scheme \<Rightarrow> 'z riscv_cpu_scheme" where
  "done_interp addend c s = the_end addend (c\<lparr>n_cycles := n_cycles c - 1\<rparr>) s"

definition take_exception :: "u64 \<Rightarrow> code_ctx \<Rightarrow> 'z riscv_cpu_scheme \<Rightarrow> 'z riscv_cpu_scheme" where
  "take_exception addend c s =
     (let s = s\<lparr>pc := GET_PC c\<rparr>;
          s = (if pending_exception s \<ge> 0
               then raise_exception2 s (word_of_int (pending_exception s)) (pending_tval s) else s)
      in done_interp addend c s)"

definition illegal_insn :: "u32 \<Rightarrow> 'z riscv_cpu_scheme \<Rightarrow> 'z riscv_cpu_scheme" where
  "illegal_insn insn s =
     s\<lparr>pending_exception := uint CAUSE_ILLEGAL_INSTRUCTION, pending_tval := insn\<rparr>"

text \<open>One round of the loop: it continues (\<open>Inl\<close>) or returns (\<open>Inr\<close>).\<close>

definition interp_round ::
  "'z riscv_cpu_scheme cpu_env \<Rightarrow> u64 \<Rightarrow> code_ctx \<Rightarrow> 'z riscv_cpu_scheme \<Rightarrow> (code_ctx \<times> 'z riscv_cpu_scheme + 'z riscv_cpu_scheme) option" where
  "interp_round env addend c s = do {
     let c = c\<lparr>n_cycles := n_cycles c - 1\<rparr>;
     (f, c, s) \<leftarrow> fetch_insn env c s;
     case f of
       Fetch_end \<Rightarrow> Some (Inr (the_end addend c s))
     | Fetch_fault \<Rightarrow> Some (Inr (take_exception addend c s))
     | Fetched insn \<Rightarrow> do {
         (out, s) \<leftarrow> exec_insn env insn (GET_PC c) (GET_INSN_COUNTER addend c) s;
         case out of
           Next_insn n \<Rightarrow> Some (Inl (c\<lparr>code_ptr := code_ptr c + n\<rparr>, s))
         | Jump_insn \<Rightarrow> Some (Inl (c\<lparr>code_ptr := 0, code_end := 0, code_to_pc_addend := pc s\<rparr>, s))
         | Illegal_insn \<Rightarrow> Some (Inr (take_exception addend c (illegal_insn insn s)))
         | Exception \<Rightarrow> Some (Inr (take_exception addend c s))
         | Done_interp \<Rightarrow> Some (Inr (done_interp addend c s))
       }
   }"

text \<open>
  The number of cycles is only tested between blocks of straight code, and a block can run on from
  the last page of the address space to the first: the loop need not end.
\<close>

partial_function (option) interp_loop ::
  "'z riscv_cpu_scheme cpu_env \<Rightarrow> u64 \<Rightarrow> code_ctx \<Rightarrow> 'z riscv_cpu_scheme \<Rightarrow> 'z riscv_cpu_scheme option" where
  "interp_loop env addend c s =
     Option.bind (interp_round env addend c s) (\<lambda>r.
       if isl r then interp_loop env addend (fst (projl r)) (snd (projl r)) else Some (projr r))"

definition riscv_cpu_interp_x32 ::
  "'z riscv_cpu_scheme cpu_env \<Rightarrow> int \<Rightarrow> 'z riscv_cpu_scheme \<Rightarrow> 'z riscv_cpu_scheme option" where
  "riscv_cpu_interp_x32 env cycles s =
     (if cycles = 0 then Some s
      else
        let addend = insn_counter s + word_of_int cycles;
            c = \<lparr>code_ptr = 0, code_end = 0, code_to_pc_addend = 0, n_cycles = cycles\<rparr>;
            (taken, s) = (if mip s AND mie s \<noteq> 0 then raise_interrupt s else (False, s))
        in if taken then Some (done_interp addend c s)
           else interp_loop env addend (c\<lparr>n_cycles := cycles + 1, code_to_pc_addend := pc s\<rparr>)
                  (s\<lparr>pending_exception := - 1\<rparr>))"

text \<open>\<open>riscv_cpu_interp32\<close>: \<open>abort\<close> for another \<open>cur_xlen\<close> is \<open>None\<close>.\<close>

partial_function (option) riscv_cpu_interp_until ::
  "'z riscv_cpu_scheme cpu_env \<Rightarrow> u64 \<Rightarrow> 'z riscv_cpu_scheme \<Rightarrow> 'z riscv_cpu_scheme option" where
  "riscv_cpu_interp_until env timeout s =
     (let left = sint (ucast (timeout - insn_counter s) :: u32) in
      if \<not> power_down_flag s \<and> left > 0 then
        if cur_xlen s = 32 then
          Option.bind (riscv_cpu_interp_x32 env left s) (riscv_cpu_interp_until env timeout)
        else None
      else Some s)"

definition riscv_cpu_interp ::
  "'z riscv_cpu_scheme cpu_env \<Rightarrow> int \<Rightarrow> 'z riscv_cpu_scheme \<Rightarrow> 'z riscv_cpu_scheme option" where
  "riscv_cpu_interp env cycles s =
     riscv_cpu_interp_until env (insn_counter s + word_of_int cycles) s"

end
