(* ===== verification/RiscvMachine.thy ===== *)
theory RiscvMachine
  imports RiscvInterp
begin

section \<open>The RISC-V machine: timer, interrupt controller, host interface (riscv_machine.c)\<close>

text \<open>
  The machine extends the state of its CPU by the state of the CLINT (timer), the PLIC (interrupt
  controller) and the HTIF (console and power off). The devices have the numbers 1, 2 and 3; the
  others are the virtio devices, whose access functions are a parameter. The monotonic clock is a
  parameter (seconds and nanoseconds). The bytes given to the console's \<open>write_data\<close> are collected
  in \<open>console_out\<close>. \<open>exit\<close> is a run that does not return.
\<close>

definition LOW_RAM_SIZE :: u64 where "LOW_RAM_SIZE = 0x00010000"
definition RAM_BASE_ADDR :: u64 where "RAM_BASE_ADDR = 0x80000000"
definition CLINT_BASE_ADDR :: u64 where "CLINT_BASE_ADDR = 0x02000000"
definition CLINT_SIZE :: u64 where "CLINT_SIZE = 0x000c0000"
definition HTIF_BASE_ADDR :: u64 where "HTIF_BASE_ADDR = 0x40008000"
definition VIRTIO_BASE_ADDR :: u64 where "VIRTIO_BASE_ADDR = 0x40010000"
definition VIRTIO_SIZE :: u64 where "VIRTIO_SIZE = 0x1000"
definition VIRTIO_IRQ :: nat where "VIRTIO_IRQ = 1"
definition PLIC_BASE_ADDR :: u64 where "PLIC_BASE_ADDR = 0x40100000"
definition PLIC_SIZE :: u64 where "PLIC_SIZE = 0x00400000"
definition FRAMEBUFFER_BASE_ADDR :: u64 where "FRAMEBUFFER_BASE_ADDR = 0x41000000"
definition RTC_FREQ :: u64 where "RTC_FREQ = 10000000"
definition RTC_FREQ_DIV :: u64 where "RTC_FREQ_DIV = 16"
definition PLIC_HART_BASE :: u32 where "PLIC_HART_BASE = 0x200000"

lemmas machine_layout = LOW_RAM_SIZE_def RAM_BASE_ADDR_def CLINT_BASE_ADDR_def CLINT_SIZE_def
  HTIF_BASE_ADDR_def VIRTIO_BASE_ADDR_def VIRTIO_SIZE_def PLIC_BASE_ADDR_def PLIC_SIZE_def
  FRAMEBUFFER_BASE_ADDR_def

record riscv_machine = riscv_cpu +
  max_xlen :: nat
  ram_size :: u64
  rtc_real_time :: bool
  rtc_start_time :: u64
  timecmp :: u64
  plic_pending_irq :: u32
  plic_served_irq :: u32
  htif_tohost :: u64
  htif_fromhost :: u64
  console_out :: "u8 list"
  virtio_count :: nat

record 's machine_env =
  clock_gettime :: "'s \<Rightarrow> u64 \<times> u32"
  virtio_read :: "nat \<Rightarrow> u32 \<Rightarrow> nat \<Rightarrow> 's \<Rightarrow> (u32 \<times> 's) option"
  virtio_write :: "nat \<Rightarrow> u32 \<Rightarrow> u32 \<Rightarrow> nat \<Rightarrow> 's \<Rightarrow> 's option"
  alloc_env :: vm_env
  stack_junk :: "'s \<Rightarrow> u64"
  float_ops :: softfp

subsection \<open>Time\<close>

definition rtc_get_real_time :: "'z riscv_machine_scheme machine_env \<Rightarrow> 'z riscv_machine_scheme \<Rightarrow> u64" where
  "rtc_get_real_time menv s =
     (let (tv_sec, tv_nsec) = clock_gettime menv s
      in tv_sec * RTC_FREQ + ucast (tv_nsec div (1000000000 div ucast RTC_FREQ)))"

definition rtc_get_time :: "'z riscv_machine_scheme machine_env \<Rightarrow> 'z riscv_machine_scheme \<Rightarrow> u64" where
  "rtc_get_time menv m =
     (if rtc_real_time m then rtc_get_real_time menv m - rtc_start_time m
      else riscv_cpu_get_cycles m div RTC_FREQ_DIV)"

subsection \<open>HTIF\<close>

text \<open>
  \<open>keep_high\<close> is \<open>x & ~0xffffffff\<close>: the literal is an \<open>unsigned int\<close>, so its complement is
  the 32 bit 0, and no bit of \<open>x\<close> is kept. \<open>keep_low\<close> is \<open>x & 0xffffffff\<close>.
\<close>

definition keep_high :: "u64 \<Rightarrow> u64" where
  "keep_high x = x AND ucast (NOT (0xffffffff :: u32))"

definition keep_low :: "u64 \<Rightarrow> u64" where
  "keep_low x = x AND 0xffffffff"

definition htif_read :: "u32 \<Rightarrow> nat \<Rightarrow> 'z riscv_machine_scheme \<Rightarrow> u32 option" where
  "htif_read offset size_log2 s = do {
     guard (size_log2 = 2);
     Some (if offset = 0 then ucast (htif_tohost s)
           else if offset = 4 then ucast (drop_bit 32 (htif_tohost s))
           else if offset = 8 then ucast (htif_fromhost s)
           else if offset = 12 then ucast (drop_bit 32 (htif_fromhost s))
           else 0)
   }"

definition htif_handle_cmd :: "'z riscv_machine_scheme \<Rightarrow> 'z riscv_machine_scheme option" where
  "htif_handle_cmd s =
     (let device = ucast (drop_bit 56 (htif_tohost s)) :: u32;
          cmd = ucast (drop_bit 48 (htif_tohost s)) AND 0xff :: u32
      in
      if htif_tohost s = 1 then None
      else if device = 1 \<and> cmd = 1 then
        let buf = ucast (htif_tohost s AND 0xff) :: u8;
            s = s\<lparr>console_out := console_out s @ [buf]\<rparr>
        in Some (s\<lparr>htif_tohost := 0,
             htif_fromhost := push_bit 56 (ucast device) OR push_bit 48 (ucast cmd)\<rparr>)
      else if device = 1 \<and> cmd = 0 then Some (s\<lparr>htif_tohost := 0\<rparr>)
      else Some s)"

definition htif_write :: "u32 \<Rightarrow> u32 \<Rightarrow> nat \<Rightarrow> 'z riscv_machine_scheme \<Rightarrow> 'z riscv_machine_scheme option" where
  "htif_write offset val size_log2 s = do {
     guard (size_log2 = 2);
     if offset = 0 then Some (s\<lparr>htif_tohost := keep_high (htif_tohost s) OR ucast val\<rparr>)
     else if offset = 4 then
       htif_handle_cmd (s\<lparr>htif_tohost := keep_low (htif_tohost s) OR push_bit 32 (ucast val)\<rparr>)
     else if offset = 8 then Some (s\<lparr>htif_fromhost := keep_high (htif_fromhost s) OR ucast val\<rparr>)
     else if offset = 12 then
       Some (s\<lparr>htif_fromhost := keep_low (htif_fromhost s) OR push_bit 32 (ucast val)\<rparr>)
     else Some s
   }"

subsection \<open>CLINT\<close>

definition clint_read ::
  "'z riscv_machine_scheme machine_env \<Rightarrow> u32 \<Rightarrow> nat \<Rightarrow> 'z riscv_machine_scheme \<Rightarrow> u32 option" where
  "clint_read menv offset size_log2 m = do {
     guard (size_log2 = 2);
     Some (if offset = 0xbff8 then ucast (rtc_get_time menv m)
           else if offset = 0xbffc then ucast (drop_bit 32 (rtc_get_time menv m))
           else if offset = 0x4000 then ucast (timecmp m)
           else if offset = 0x4004 then ucast (drop_bit 32 (timecmp m))
           else 0)
   }"

definition clint_write :: "u32 \<Rightarrow> u32 \<Rightarrow> nat \<Rightarrow> 'z riscv_machine_scheme \<Rightarrow> 'z riscv_machine_scheme option" where
  "clint_write offset val size_log2 m = do {
     guard (size_log2 = 2);
     if offset = 0x4000 then
       Some (riscv_cpu_reset_mip (m\<lparr>timecmp := keep_high (timecmp m) OR ucast val\<rparr>) MIP_MTIP)
     else if offset = 0x4004 then
       Some (riscv_cpu_reset_mip
         (m\<lparr>timecmp := keep_low (timecmp m) OR push_bit 32 (ucast val)\<rparr>) MIP_MTIP)
     else Some m
   }"

subsection \<open>PLIC\<close>

definition plic_update_mip :: "'z riscv_machine_scheme \<Rightarrow> 'z riscv_machine_scheme" where
  "plic_update_mip s =
     (if plic_pending_irq s AND NOT (plic_served_irq s) \<noteq> 0
      then riscv_cpu_set_mip s (MIP_MEIP OR MIP_SEIP)
      else riscv_cpu_reset_mip s (MIP_MEIP OR MIP_SEIP))"

definition plic_read :: "u32 \<Rightarrow> nat \<Rightarrow> 'z riscv_machine_scheme \<Rightarrow> (u32 \<times> 'z riscv_machine_scheme) option" where
  "plic_read offset size_log2 s = do {
     guard (size_log2 = 2);
     if offset = PLIC_HART_BASE then Some (0, s)
     else if offset = PLIC_HART_BASE + 4 then
       let msk = plic_pending_irq s AND NOT (plic_served_irq s) in
       if msk \<noteq> 0 then
         let i = ctz32 msk;
             s = plic_update_mip (s\<lparr>plic_served_irq := plic_served_irq s OR push_bit i 1\<rparr>)
         in Some (word_of_nat (i + 1), s)
       else Some (0, s)
     else Some (0, s)
   }"

definition plic_write :: "u32 \<Rightarrow> u32 \<Rightarrow> nat \<Rightarrow> 'z riscv_machine_scheme \<Rightarrow> 'z riscv_machine_scheme option" where
  "plic_write offset val size_log2 s = do {
     guard (size_log2 = 2);
     if offset = PLIC_HART_BASE + 4 then
       let val = val - 1 in
       if val < 32 then
         Some (plic_update_mip (s\<lparr>plic_served_irq := plic_served_irq s AND NOT (push_bit (unat val) 1)\<rparr>))
       else Some s
     else Some s
   }"

definition plic_set_irq :: "nat \<Rightarrow> bool \<Rightarrow> 'z riscv_machine_scheme \<Rightarrow> 'z riscv_machine_scheme" where
  "plic_set_irq irq state s =
     (let msk = push_bit (irq - 1) 1
      in plic_update_mip (if state then s\<lparr>plic_pending_irq := plic_pending_irq s OR msk\<rparr>
           else s\<lparr>plic_pending_irq := plic_pending_irq s AND NOT msk\<rparr>))"

subsection \<open>The devices of the CPU\<close>

definition CLINT_DEV :: nat where "CLINT_DEV = 1"
definition PLIC_DEV :: nat where "PLIC_DEV = 2"
definition HTIF_DEV :: nat where "HTIF_DEV = 3"

lemmas dev_defs = CLINT_DEV_def PLIC_DEV_def HTIF_DEV_def

definition machine_read ::
  "'z riscv_machine_scheme machine_env \<Rightarrow> nat \<Rightarrow> u32 \<Rightarrow> nat \<Rightarrow> 'z riscv_machine_scheme \<Rightarrow> (u32 \<times> 'z riscv_machine_scheme) option" where
  "machine_read menv dev offset size_log2 s =
     (if dev = CLINT_DEV then map_option (\<lambda>v. (v, s)) (clint_read menv offset size_log2 s)
      else if dev = PLIC_DEV then plic_read offset size_log2 s
      else if dev = HTIF_DEV then map_option (\<lambda>v. (v, s)) (htif_read offset size_log2 s)
      else virtio_read menv dev offset size_log2 s)"

definition machine_write ::
  "'z riscv_machine_scheme machine_env \<Rightarrow> nat \<Rightarrow> u32 \<Rightarrow> u32 \<Rightarrow> nat \<Rightarrow> 'z riscv_machine_scheme \<Rightarrow> 'z riscv_machine_scheme option" where
  "machine_write menv dev offset val size_log2 s =
     (if dev = CLINT_DEV then clint_write offset val size_log2 s
      else if dev = PLIC_DEV then plic_write offset val size_log2 s
      else if dev = HTIF_DEV then htif_write offset val size_log2 s
      else virtio_write menv dev offset val size_log2 s)"

definition machine_cpu_env ::
  "'z riscv_machine_scheme machine_env \<Rightarrow> 'z riscv_machine_scheme cpu_env" where
  "machine_cpu_env menv = \<lparr>ram_env = alloc_env menv, uninit = stack_junk menv,
     dev_read = machine_read menv, dev_write = machine_write menv, fpu = float_ops menv\<rparr>"

subsection \<open>Running the machine\<close>

definition riscv_machine_interp ::
  "'z riscv_machine_scheme machine_env \<Rightarrow> int \<Rightarrow> 'z riscv_machine_scheme \<Rightarrow> 'z riscv_machine_scheme option" where
  "riscv_machine_interp menv max_exec_cycle s =
     riscv_cpu_interp (machine_cpu_env menv) max_exec_cycle s"

definition riscv_machine_get_sleep_duration ::
  "'z riscv_machine_scheme machine_env \<Rightarrow> int \<Rightarrow> 'z riscv_machine_scheme \<Rightarrow> int \<times> 'z riscv_machine_scheme" where
  "riscv_machine_get_sleep_duration menv delay m =
     (let (delay, m) =
        (if riscv_cpu_get_mip m AND MIP_MTIP = 0 then
           let delay1 = sint (timecmp m - rtc_get_time menv m) in
           if delay1 \<le> 0 then (0, riscv_cpu_set_mip m MIP_MTIP)
           else
             let delay1 = delay1 div (uint RTC_FREQ div 1000)
             in (if delay1 < delay then delay1 else delay, m)
         else (delay, m))
      in (if \<not> riscv_cpu_get_power_down m then 0 else delay, m))"

subsection \<open>Creation\<close>

text \<open>
  \<open>riscv_machine_init\<close> up to the virtio devices. \<open>None\<close> inside is the NULL it returns for an
  unknown machine or a width that the builds do not support (they have the CPUs of 32 and 64 bits;
  what the same code gives with the 64 bit CPU is the argument \<open>machine64\<close>).
\<close>

definition machine_width :: "string \<Rightarrow> nat option" where
  "machine_width machine_name =
     (if machine_name = ''riscv32'' then Some 32
      else if machine_name = ''riscv64'' then Some 64
      else if machine_name = ''riscv128'' then Some 128
      else None)"

definition machine_zero :: "riscv_cpu \<Rightarrow> 'z \<Rightarrow> 'z riscv_machine_scheme" where
  "machine_zero cpu rest = riscv_cpu.extend cpu
     \<lparr>max_xlen = 0, ram_size = 0, rtc_real_time = False, rtc_start_time = 0, timecmp = 0,
      plic_pending_irq = 0, plic_served_irq = 0, htif_tohost = 0, htif_fromhost = 0,
      console_out = [], virtio_count = 0, \<dots> = rest\<rparr>"

definition add_ram ::
  "ram_setup \<Rightarrow> u64 \<Rightarrow> u64 \<Rightarrow> 'z riscv_cpu_scheme \<Rightarrow> 'z riscv_cpu_scheme option" where
  "add_ram setup addr sz s = do {
     (_, memory) \<leftarrow> cpu_register_ram setup (mem_map s) addr sz 0;
     Some (s\<lparr>mem_map := memory\<rparr>)
   }"

definition add_device ::
  "u64 \<Rightarrow> u64 \<Rightarrow> nat \<Rightarrow> 'z riscv_cpu_scheme \<Rightarrow> 'z riscv_cpu_scheme option" where
  "add_device addr sz dev s = do {
     (_, memory) \<leftarrow> cpu_register_device (mem_map s) addr sz dev DEVIO_SIZE32;
     Some (s\<lparr>mem_map := memory\<rparr>)
   }"

definition riscv_machine_init ::
  "'z riscv_machine_scheme machine_env \<Rightarrow> ram_setup \<Rightarrow> ram_setup \<Rightarrow> string \<Rightarrow> u64 \<Rightarrow> bool \<Rightarrow> 'z \<Rightarrow>
     'z riscv_machine_scheme option option \<Rightarrow> 'z riscv_machine_scheme option option" where
  "riscv_machine_init menv setup_ram setup_low machine_name p_ram_size real_time rest machine64 =
     (case machine_width machine_name of
        None \<Rightarrow> Some None
      | Some width \<Rightarrow>
          if width = 64 then machine64
          else if width \<noteq> 32 then Some None
          else do {
            let s = (machine_zero (riscv_cpu_init phys_mem_map_init ()) rest)\<lparr>
                  ram_size := p_ram_size, max_xlen := width\<rparr>;
            s \<leftarrow> add_ram setup_ram RAM_BASE_ADDR p_ram_size s;
            s \<leftarrow> add_ram setup_low 0x00000000 LOW_RAM_SIZE s;
            let s = s\<lparr>rtc_real_time := real_time\<rparr>;
            let s = (if real_time then s\<lparr>rtc_start_time := rtc_get_real_time menv s\<rparr> else s);
            s \<leftarrow> add_device CLINT_BASE_ADDR CLINT_SIZE CLINT_DEV s;
            s \<leftarrow> add_device PLIC_BASE_ADDR PLIC_SIZE PLIC_DEV s;
            s \<leftarrow> add_device HTIF_BASE_ADDR 16 HTIF_DEV s;
            Some (Some s)
          })"

end
