(* ===== verification/Fdt.thy ===== *)
theory Fdt
  imports RiscvMachine
begin

section \<open>The device tree and the boot memory (riscv_machine.c)\<close>

text \<open>
  The flattened device tree that the machine hands to the guest, and \<open>copy_bios\<close>, which loads
  the images into RAM and writes the tree and the reset code into the low RAM.

  The structure block \<open>tab\<close> of the source is an array of big-endian words; the model holds its
  bytes. The arrays grow by \<open>realloc\<close>; a write beyond the capacity would be undefined. The
  files are a parameter (from paths to contents).
\<close>

definition FDT_MAGIC :: u32 where "FDT_MAGIC = 0xd00dfeed"
definition FDT_VERSION :: u32 where "FDT_VERSION = 17"
definition FDT_BEGIN_NODE :: u32 where "FDT_BEGIN_NODE = 1"
definition FDT_END_NODE :: u32 where "FDT_END_NODE = 2"
definition FDT_PROP :: u32 where "FDT_PROP = 3"
definition FDT_END :: u32 where "FDT_END = 9"

lemmas fdt_tokens = FDT_BEGIN_NODE_def FDT_END_NODE_def FDT_PROP_def FDT_END_def

record fdt_state =
  fdt_tab :: "u8 list"
  fdt_tab_size :: nat
  fdt_open_nodes :: int
  fdt_strings :: "u8 list"
  fdt_strings_size :: nat

definition fdt_init :: fdt_state where
  "fdt_init = \<lparr>fdt_tab = [], fdt_tab_size = 0, fdt_open_nodes = 0, fdt_strings = [], fdt_strings_size = 0\<rparr>"

definition be_bytes :: "u32 \<Rightarrow> u8 list" where
  "be_bytes v = rev (le_bytes 4 v)"

definition c_bytes :: "string \<Rightarrow> u8 list" where
  "c_bytes name = map of_char name"

definition c_string :: "string \<Rightarrow> u8 list" where
  "c_string name = c_bytes name @ [0]"

subsection \<open>The structure block\<close>

definition fdt_tab_len :: "fdt_state \<Rightarrow> nat" where
  "fdt_tab_len s = length (fdt_tab s) div 4"

definition fdt_alloc_len :: "fdt_state \<Rightarrow> nat \<Rightarrow> fdt_state" where
  "fdt_alloc_len s len =
     (if len > fdt_tab_size s then s\<lparr>fdt_tab_size := max len (fdt_tab_size s * 3 div 2)\<rparr> else s)"

definition fdt_put32 :: "u32 \<Rightarrow> fdt_state \<Rightarrow> fdt_state option" where
  "fdt_put32 v s = do {
     let s = fdt_alloc_len s (fdt_tab_len s + 1);
     guard (fdt_tab_len s < fdt_tab_size s);
     Some (s\<lparr>fdt_tab := fdt_tab s @ be_bytes v\<rparr>)
   }"

definition fdt_put_data :: "u8 list \<Rightarrow> fdt_state \<Rightarrow> fdt_state option" where
  "fdt_put_data data s = do {
     let len1 = (length data + 3) div 4;
     let s = fdt_alloc_len s (fdt_tab_len s + len1);
     guard (fdt_tab_len s * 4 + length data + nat (- int (length data) mod 4) \<le> fdt_tab_size s * 4);
     Some (s\<lparr>fdt_tab := fdt_tab s @ data @ replicate (nat (- int (length data) mod 4)) 0\<rparr>)
   }"

definition fdt_begin_node :: "string \<Rightarrow> fdt_state \<Rightarrow> fdt_state option" where
  "fdt_begin_node name s = do {
     s \<leftarrow> fdt_put32 FDT_BEGIN_NODE s;
     s \<leftarrow> fdt_put_data (c_string name) s;
     Some (s\<lparr>fdt_open_nodes := fdt_open_nodes s + 1\<rparr>)
   }"

definition fdt_begin_node_num :: "string \<Rightarrow> u64 \<Rightarrow> fdt_state \<Rightarrow> fdt_state option" where
  "fdt_begin_node_num name n = fdt_begin_node (take 255 (name @ ''@'' @ hex_string (unat n)))"

definition fdt_end_node :: "fdt_state \<Rightarrow> fdt_state option" where
  "fdt_end_node s = do {
     s \<leftarrow> fdt_put32 FDT_END_NODE s;
     Some (s\<lparr>fdt_open_nodes := fdt_open_nodes s - 1\<rparr>)
   }"

subsection \<open>The strings block\<close>

text \<open>The C string at a position of a table of strings.\<close>

definition string_at :: "u8 list \<Rightarrow> nat \<Rightarrow> u8 list" where
  "string_at table pos = takeWhile (\<lambda>b. b \<noteq> 0) (drop pos table)"

function find_string :: "u8 list \<Rightarrow> u8 list \<Rightarrow> nat \<Rightarrow> nat option" where
  "find_string table name pos =
     (if pos < length table then
        if string_at table pos = name then Some pos
        else find_string table name (pos + length (string_at table pos) + 1)
      else None)"
  by pat_completeness auto
termination
  by (relation "measure (\<lambda>(table, name, pos). length table - pos)") auto

declare find_string.simps [simp del]

definition fdt_get_string_offset :: "string \<Rightarrow> fdt_state \<Rightarrow> (nat \<times> fdt_state) option" where
  "fdt_get_string_offset name s =
     (case find_string (fdt_strings s) (c_bytes name) 0 of
        Some pos \<Rightarrow> Some (pos, s)
      | None \<Rightarrow> do {
          let new_len = length (fdt_strings s) + length (c_string name);
          let s = (if new_len > fdt_strings_size s
                then s\<lparr>fdt_strings_size := max new_len (fdt_strings_size s * 3 div 2)\<rparr> else s);
          guard (new_len \<le> fdt_strings_size s);
          Some (length (fdt_strings s), s\<lparr>fdt_strings := fdt_strings s @ c_string name\<rparr>)
        })"

subsection \<open>Properties of a node\<close>

definition fdt_prop :: "string \<Rightarrow> u8 list \<Rightarrow> fdt_state \<Rightarrow> fdt_state option" where
  "fdt_prop prop_name data s = do {
     s \<leftarrow> fdt_put32 FDT_PROP s;
     s \<leftarrow> fdt_put32 (word_of_nat (length data)) s;
     (pos, s) \<leftarrow> fdt_get_string_offset prop_name s;
     s \<leftarrow> fdt_put32 (word_of_nat pos) s;
     fdt_put_data data s
   }"

primrec fdt_put_words :: "u32 list \<Rightarrow> fdt_state \<Rightarrow> fdt_state option" where
  "fdt_put_words [] s = Some s"
| "fdt_put_words (w # ws) s = Option.bind (fdt_put32 w s) (fdt_put_words ws)"

definition fdt_prop_tab_u32 :: "string \<Rightarrow> u32 list \<Rightarrow> fdt_state \<Rightarrow> fdt_state option" where
  "fdt_prop_tab_u32 prop_name ws s = do {
     s \<leftarrow> fdt_put32 FDT_PROP s;
     s \<leftarrow> fdt_put32 (word_of_nat (length ws * 4)) s;
     (pos, s) \<leftarrow> fdt_get_string_offset prop_name s;
     s \<leftarrow> fdt_put32 (word_of_nat pos) s;
     fdt_put_words ws s
   }"

definition fdt_prop_u32 :: "string \<Rightarrow> u32 \<Rightarrow> fdt_state \<Rightarrow> fdt_state option" where
  "fdt_prop_u32 prop_name val = fdt_prop_tab_u32 prop_name [val]"

definition fdt_prop_tab_u64 :: "string \<Rightarrow> u64 \<Rightarrow> fdt_state \<Rightarrow> fdt_state option" where
  "fdt_prop_tab_u64 prop_name v0 = fdt_prop_tab_u32 prop_name [ucast (drop_bit 32 v0), ucast v0]"

definition fdt_prop_tab_u64_2 :: "string \<Rightarrow> u64 \<Rightarrow> u64 \<Rightarrow> fdt_state \<Rightarrow> fdt_state option" where
  "fdt_prop_tab_u64_2 prop_name v0 v1 = fdt_prop_tab_u32 prop_name
     [ucast (drop_bit 32 v0), ucast v0, ucast (drop_bit 32 v1), ucast v1]"

definition fdt_prop_str :: "string \<Rightarrow> string \<Rightarrow> fdt_state \<Rightarrow> fdt_state option" where
  "fdt_prop_str prop_name str = fdt_prop prop_name (c_string str)"

definition fdt_prop_tab_str :: "string \<Rightarrow> string list \<Rightarrow> fdt_state \<Rightarrow> fdt_state option" where
  "fdt_prop_tab_str prop_name strs = fdt_prop prop_name (concat (map c_string strs))"

subsection \<open>The blob\<close>

text \<open>The padding loops: zero bytes up to the next multiple of 8.\<close>

lemma and_7_mod: "(n :: nat) AND 7 = n mod 8"
  using take_bit_eq_mod [of 3 n] take_bit_eq_mask [of 3 n] by (simp add: mask_eq_exp_minus_1)

function fdt_pad :: "vm_env \<Rightarrow> vmm \<Rightarrow> nat \<Rightarrow> nat \<Rightarrow> (nat \<times> vmm) option" where
  "fdt_pad env v dst pos =
     (if pos AND 7 \<noteq> 0 then
        Option.bind (vmm_write env v (size_wrap (dst + pos)) [0] 1) (\<lambda>v. fdt_pad env v dst (pos + 1))
      else Some (pos, v))"
  by pat_completeness auto
termination
proof (relation "measure (\<lambda>(env, v, dst, pos). 7 - (pos + 7) mod 8)", goal_cases)
  case (2 env v dst pos v')
  then have "pos mod 8 \<noteq> 0" by (simp add: and_7_mod)
  then have "7 - (pos + 1 + 7) mod 8 < 7 - (pos + 7) mod 8" by presburger
  then show ?case by simp
qed simp

declare fdt_pad.simps [simp del]

definition fdt_header_put :: "u8 list \<Rightarrow> nat \<Rightarrow> u32 \<Rightarrow> u8 list option" where
  "fdt_header_put hdr off val = mem_store hdr off (be_bytes val)"

text \<open>
  The fields of the header in the order of their offsets: magic 0, totalsize 4, off_dt_struct 8,
  off_dt_strings 12, off_mem_rsvmap 16, version 20, last_comp_version 24, boot_cpuid_phys 28,
  size_dt_strings 32, size_dt_struct 36. The result is the size of the blob.
\<close>

definition fdt_set_field :: "vm_env \<Rightarrow> vmm \<Rightarrow> nat \<Rightarrow> nat \<Rightarrow> nat \<Rightarrow> vmm option" where
  "fdt_set_field env v dst off val = do {
     (hdr, v) \<leftarrow> vmm_read env v dst (replicate 40 0) 40;
     hdr \<leftarrow> fdt_header_put hdr off (word_of_nat val);
     vmm_write env v dst hdr 40
   }"

definition fdt_output :: "vm_env \<Rightarrow> vmm \<Rightarrow> fdt_state \<Rightarrow> nat \<Rightarrow> (nat \<times> vmm) option" where
  "fdt_output env v s dst = do {
     let dt_struct_size = length (fdt_tab s);
     let dt_strings_size = length (fdt_strings s);
     (hdr, v) \<leftarrow> vmm_read env v dst (replicate 40 0) 40;
     hdr \<leftarrow> fdt_header_put hdr 0 FDT_MAGIC;
     hdr \<leftarrow> fdt_header_put hdr 20 FDT_VERSION;
     hdr \<leftarrow> fdt_header_put hdr 24 16;
     hdr \<leftarrow> fdt_header_put hdr 28 0;
     hdr \<leftarrow> fdt_header_put hdr 32 (word_of_nat dt_strings_size);
     hdr \<leftarrow> fdt_header_put hdr 36 (word_of_nat dt_struct_size);
     let pos = 40;
     hdr \<leftarrow> fdt_header_put hdr 8 (word_of_nat pos);
     v \<leftarrow> vmm_write env v dst hdr 40;
     v \<leftarrow> vmm_write env v (size_wrap (dst + pos)) (fdt_tab s) dt_struct_size;
     let pos = pos + dt_struct_size;
     (pos, v) \<leftarrow> fdt_pad env v dst pos;
     v \<leftarrow> fdt_set_field env v dst 16 pos;
     (_, v) \<leftarrow> vmm_read env v (size_wrap (dst + pos)) (replicate 16 0) 16;
     v \<leftarrow> vmm_write env v (size_wrap (dst + pos)) (replicate 16 0) 16;
     let pos = pos + 16;
     v \<leftarrow> fdt_set_field env v dst 12 pos;
     v \<leftarrow> vmm_write env v (size_wrap (dst + pos)) (fdt_strings s) dt_strings_size;
     let pos = pos + dt_strings_size;
     (pos, v) \<leftarrow> fdt_pad env v dst pos;
     v \<leftarrow> fdt_set_field env v dst 4 pos;
     Some (pos, v)
   }"

end
