(* ===== verification/Boot.thy ===== *)
theory Boot
  imports Fdt
begin

section \<open>The machine's device tree and its boot memory (riscv_machine.c)\<close>

text \<open>
  \<open>riscv_build_fdt\<close> as the list of the calls it makes, and \<open>copy_bios\<close>: the images go to
  RAM, the device tree and the reset code to the low RAM.
\<close>

subsection \<open>The device tree of the machine\<close>

primrec fdt_run :: "(fdt_state \<Rightarrow> fdt_state option) list \<Rightarrow> fdt_state \<Rightarrow> fdt_state option" where
  "fdt_run [] s = Some s"
| "fdt_run (f # calls) s = Option.bind (f s) (fdt_run calls)"

lemma fdt_run_append: "fdt_run (xs @ ys) s = Option.bind (fdt_run xs s) (fdt_run ys)"
  by (induction xs arbitrary: s) (auto split: bind_splits)

definition isa_string :: "nat \<Rightarrow> u32 \<Rightarrow> string" where
  "isa_string width isa = ''rv'' @ (if width = 32 then ''32'' else if width = 64 then ''64'' else ''128'') @
     map (\<lambda>i. char_of (97 + i)) (filter (\<lambda>i. isa AND push_bit i 1 \<noteq> 0) [0..<26])"

record framebuffer =
  fb_size :: u64
  fb_width :: u32
  fb_height :: u32
  fb_stride :: u32

definition fdt_cpu_calls :: "nat \<Rightarrow> u32 \<Rightarrow> (fdt_state \<Rightarrow> fdt_state option) list" where
  "fdt_cpu_calls width isa =
    [fdt_begin_node ''cpus'',
     fdt_prop_u32 ''#address-cells'' 1,
     fdt_prop_u32 ''#size-cells'' 0,
     fdt_prop_u32 ''timebase-frequency'' (ucast RTC_FREQ),
     fdt_begin_node_num ''cpu'' 0,
     fdt_prop_str ''device_type'' ''cpu'',
     fdt_prop_u32 ''reg'' 0,
     fdt_prop_str ''status'' ''okay'',
     fdt_prop_str ''compatible'' ''riscv'',
     fdt_prop_str ''riscv,isa'' (isa_string width isa),
     fdt_prop_str ''mmu-type'' (if width \<le> 32 then ''riscv,sv32'' else ''riscv,sv48''),
     fdt_prop_u32 ''clock-frequency'' 2000000000,
     fdt_begin_node ''interrupt-controller'',
     fdt_prop_u32 ''#interrupt-cells'' 1,
     fdt_prop ''interrupt-controller'' [],
     fdt_prop_str ''compatible'' ''riscv,cpu-intc'',
     fdt_prop_u32 ''phandle'' 1,
     fdt_end_node,
     fdt_end_node,
     fdt_end_node]"

definition fdt_memory_calls :: "u64 \<Rightarrow> (fdt_state \<Rightarrow> fdt_state option) list" where
  "fdt_memory_calls ram =
    [fdt_begin_node_num ''memory'' RAM_BASE_ADDR,
     fdt_prop_str ''device_type'' ''memory'',
     fdt_prop_tab_u32 ''reg'' [ucast (drop_bit 32 RAM_BASE_ADDR), ucast RAM_BASE_ADDR,
       ucast (drop_bit 32 ram), ucast ram],
     fdt_end_node,
     fdt_begin_node ''htif'',
     fdt_prop_str ''compatible'' ''ucb,htif0'',
     fdt_end_node]"

definition fdt_virtio_calls :: "nat \<Rightarrow> (fdt_state \<Rightarrow> fdt_state option) list" where
  "fdt_virtio_calls i =
     (let base = VIRTIO_BASE_ADDR + word_of_nat i * VIRTIO_SIZE in
    [fdt_begin_node_num ''virtio'' base,
     fdt_prop_str ''compatible'' ''virtio,mmio'',
     fdt_prop_tab_u64_2 ''reg'' base VIRTIO_SIZE,
     fdt_prop_tab_u32 ''interrupts-extended'' [2, word_of_nat (VIRTIO_IRQ + i)],
     fdt_end_node])"

definition fdt_framebuffer_calls :: "framebuffer option \<Rightarrow> (fdt_state \<Rightarrow> fdt_state option) list" where
  "fdt_framebuffer_calls fb = (case fb of None \<Rightarrow> [] | Some d \<Rightarrow>
    [fdt_begin_node_num ''framebuffer'' FRAMEBUFFER_BASE_ADDR,
     fdt_prop_str ''compatible'' ''simple-framebuffer'',
     fdt_prop_tab_u64_2 ''reg'' FRAMEBUFFER_BASE_ADDR (fb_size d),
     fdt_prop_u32 ''width'' (fb_width d),
     fdt_prop_u32 ''height'' (fb_height d),
     fdt_prop_u32 ''stride'' (fb_stride d),
     fdt_prop_str ''format'' ''a8r8g8b8'',
     fdt_end_node])"

definition fdt_soc_calls :: "nat \<Rightarrow> framebuffer option \<Rightarrow> (fdt_state \<Rightarrow> fdt_state option) list" where
  "fdt_soc_calls virtios fb =
    [fdt_begin_node ''soc'',
     fdt_prop_u32 ''#address-cells'' 2,
     fdt_prop_u32 ''#size-cells'' 2,
     fdt_prop_tab_str ''compatible'' [''ucbbar,riscvemu-bar-soc'', ''simple-bus''],
     fdt_prop ''ranges'' [],
     fdt_begin_node_num ''clint'' CLINT_BASE_ADDR,
     fdt_prop_str ''compatible'' ''riscv,clint0'',
     fdt_prop_tab_u32 ''interrupts-extended'' [1, 3, 1, 7],
     fdt_prop_tab_u64_2 ''reg'' CLINT_BASE_ADDR CLINT_SIZE,
     fdt_end_node,
     fdt_begin_node_num ''plic'' PLIC_BASE_ADDR,
     fdt_prop_u32 ''#interrupt-cells'' 1,
     fdt_prop ''interrupt-controller'' [],
     fdt_prop_str ''compatible'' ''riscv,plic0'',
     fdt_prop_u32 ''riscv,ndev'' 31,
     fdt_prop_tab_u64_2 ''reg'' PLIC_BASE_ADDR PLIC_SIZE,
     fdt_prop_tab_u32 ''interrupts-extended'' [1, 9, 1, 11],
     fdt_prop_u32 ''phandle'' 2,
     fdt_end_node] @
    concat (map fdt_virtio_calls [0..<virtios]) @
    fdt_framebuffer_calls fb @
    [fdt_end_node]"

record boot_image =
  kernel_start :: u64
  kernel_size :: u64
  initrd_start :: u64
  initrd_size :: u64
  cmd_line :: "string option"

definition fdt_chosen_calls :: "boot_image \<Rightarrow> (fdt_state \<Rightarrow> fdt_state option) list" where
  "fdt_chosen_calls img =
    [fdt_begin_node ''chosen'',
     fdt_prop_str ''bootargs'' (case cmd_line img of None \<Rightarrow> '''' | Some l \<Rightarrow> l)] @
    (if kernel_size img > 0 then
      [fdt_prop_tab_u64 ''riscv,kernel-start'' (kernel_start img),
       fdt_prop_tab_u64 ''riscv,kernel-end'' (kernel_start img + kernel_size img)] else []) @
    (if initrd_size img > 0 then
      [fdt_prop_tab_u64 ''linux,initrd-start'' (initrd_start img),
       fdt_prop_tab_u64 ''linux,initrd-end'' (initrd_start img + initrd_size img)] else []) @
    [fdt_end_node]"

definition fdt_calls ::
  "'z riscv_machine_scheme \<Rightarrow> framebuffer option \<Rightarrow> boot_image \<Rightarrow> (fdt_state \<Rightarrow> fdt_state option) list" where
  "fdt_calls m fb img =
    [fdt_begin_node '''',
     fdt_prop_u32 ''#address-cells'' 2,
     fdt_prop_u32 ''#size-cells'' 2,
     fdt_prop_str ''compatible'' ''ucbbar,riscvemu-bar_dev'',
     fdt_prop_str ''model'' ''ucbbar,riscvemu-bare''] @
    fdt_cpu_calls (max_xlen m) (riscv_cpu_get_misa m) @
    fdt_memory_calls (ram_size m) @
    fdt_soc_calls (virtio_count m) fb @
    fdt_chosen_calls img @
    [fdt_end_node]"

text \<open>The virtual memory of a range, and its replacement.\<close>

definition range_vmm :: "'z riscv_cpu_scheme \<Rightarrow> nat \<Rightarrow> vmm option" where
  "range_vmm s i = Option.bind (range_at (mem_map s) i) pr_vmm"

definition put_range_vmm :: "nat \<Rightarrow> vmm \<Rightarrow> 'z riscv_cpu_scheme \<Rightarrow> 'z riscv_cpu_scheme" where
  "put_range_vmm i v s = s\<lparr>mem_map :=
     set_range (mem_map s) i ((phys_mem_range (mem_map s) ! i)\<lparr>pr_vmm := Some v\<rparr>)\<rparr>"

definition riscv_build_fdt ::
  "'z riscv_machine_scheme machine_env \<Rightarrow> nat \<Rightarrow> framebuffer option \<Rightarrow> boot_image \<Rightarrow> 'z riscv_machine_scheme \<Rightarrow>
     (nat \<times> 'z riscv_machine_scheme) option" where
  "riscv_build_fdt menv dst fb img m = do {
     s \<leftarrow> fdt_run (fdt_calls m fb img) fdt_init;
     guard (fdt_open_nodes s = 0);
     s \<leftarrow> fdt_put32 FDT_END s;
     i \<leftarrow> get_phys_mem_range (mem_map m) 0;
     v \<leftarrow> range_vmm m i;
     (n, v) \<leftarrow> fdt_output (alloc_env menv) v s dst;
     Some (n, put_range_vmm i v m)
   }"

subsection \<open>Loading the images\<close>

text \<open>\<open>fread\<close> returns blocks of 1024 bytes until the file ends.\<close>

function write_blocks :: "vm_env \<Rightarrow> vmm \<Rightarrow> u32 \<Rightarrow> u8 list \<Rightarrow> vmm option" where
  "write_blocks env v address bytes =
     (if bytes = [] then Some v
      else
        let buffer = take 1024 bytes
        in Option.bind (vmm_write env v (unat address) buffer (length buffer)) (\<lambda>v.
             write_blocks env v (address + word_of_nat (length buffer)) (drop 1024 bytes)))"
  by pat_completeness auto
termination
  by (relation "measure (\<lambda>(env, v, address, bytes). length bytes)") auto

declare write_blocks.simps [simp del]

definition load_file_to_vmm ::
  "vm_env \<Rightarrow> string \<Rightarrow> (string \<rightharpoonup> u8 list) \<Rightarrow> vmm \<Rightarrow> string \<Rightarrow> u32 \<Rightarrow> (u32 \<times> vmm) option" where
  "load_file_to_vmm env cwd files v filename address = do {
     guard (length cwd + length filename < 256);
     bytes \<leftarrow> files (cwd @ filename);
     v \<leftarrow> write_blocks env v address bytes;
     Some (word_of_nat (length bytes), v)
   }"

text \<open>A RAM pointer minus \<open>phys_mem\<close>.\<close>

definition get_ram_ptr ::
  "'z riscv_machine_scheme \<Rightarrow> u64 \<Rightarrow> (nat \<times> 'z riscv_machine_scheme) option" where
  "get_ram_ptr s paddr = do {
     (p, memory) \<leftarrow> phys_mem_get_ram_ptr (mem_map s) paddr True;
     Some (case p of None \<Rightarrow> 0 | Some offset \<Rightarrow> offset, s\<lparr>mem_map := memory\<rparr>)
   }"

definition load_image ::
  "'z riscv_machine_scheme machine_env \<Rightarrow> string \<Rightarrow> (string \<rightharpoonup> u8 list) \<Rightarrow> string \<Rightarrow> nat \<Rightarrow> u32 \<Rightarrow> 'z riscv_machine_scheme \<Rightarrow>
     (u32 \<times> 'z riscv_machine_scheme) option" where
  "load_image menv cwd files filename i address s = do {
     v \<leftarrow> range_vmm s i;
     (n, v) \<leftarrow> load_file_to_vmm (alloc_env menv) cwd files v filename address;
     Some (n, put_range_vmm i v s)
   }"

definition kernel_base_of :: "nat \<Rightarrow> u32 \<Rightarrow> u32" where
  "kernel_base_of width bios_size =
     (let kernel_align = (if width = 32 then push_bit 20 4 else push_bit 20 2)
      in (bios_size + kernel_align - 1) AND NOT (kernel_align - 1))"

definition initrd_base_of :: "u64 \<Rightarrow> u32" where
  "initrd_base_of ram =
     (let initrd_base = ucast (ram div 2) in if initrd_base > push_bit 20 128 then push_bit 20 128 else initrd_base)"

text \<open>The five instructions at the reset address.\<close>

definition FDT_ADDR :: u32 where "FDT_ADDR = 0x1000 + 8 * 8"

definition reset_code :: "u32 list" where
  "reset_code = [0x297 + 0x80000000 - 0x1000, 0x597, 0x58593 + push_bit 20 (FDT_ADDR - 4),
     0xf1402573, 0x00028067]"

definition write_reset_code ::
  "'z riscv_machine_scheme machine_env \<Rightarrow> nat \<Rightarrow> nat \<Rightarrow> 'z riscv_machine_scheme \<Rightarrow> 'z riscv_machine_scheme option" where
  "write_reset_code menv i ram_ptr s = do {
     v \<leftarrow> range_vmm s i;
     (_, v) \<leftarrow> vmm_read (alloc_env menv) v (size_wrap (ram_ptr + 0x1000)) (replicate 20 0) 20;
     v \<leftarrow> vmm_write (alloc_env menv) v (size_wrap (ram_ptr + 0x1000)) (concat (map (le_bytes 4) reset_code)) 20;
     Some (put_range_vmm i v s)
   }"

definition copy_bios ::
  "'z riscv_machine_scheme machine_env \<Rightarrow> string \<Rightarrow> (string \<rightharpoonup> u8 list) \<Rightarrow> string \<Rightarrow> string \<Rightarrow> string option \<Rightarrow>
     string option \<Rightarrow> framebuffer option \<Rightarrow> 'z riscv_machine_scheme \<Rightarrow> 'z riscv_machine_scheme option" where
  "copy_bios menv cwd files bios kernel_file initrd cmdline fb s = do {
     (ram_ptr, s) \<leftarrow> get_ram_ptr s RAM_BASE_ADDR;
     i \<leftarrow> get_phys_mem_range (mem_map s) RAM_BASE_ADDR;
     (bios_size, s) \<leftarrow> load_image menv cwd files bios i (word_of_nat ram_ptr) s;
     let kernel_base = (if kernel_file \<noteq> '''' then kernel_base_of (max_xlen s) bios_size else 0);
     (k_size, s) \<leftarrow> (if kernel_file \<noteq> ''''
        then load_image menv cwd files kernel_file i (word_of_nat ram_ptr + kernel_base) s
        else Some (0, s));
     let initrd_base = (if initrd \<noteq> None \<and> initrd \<noteq> Some '''' then initrd_base_of (ram_size s) else 0);
     (i_size, s) \<leftarrow> (case initrd of
          None \<Rightarrow> Some (0, s)
        | Some name \<Rightarrow>
            if name \<noteq> '''' then load_image menv cwd files name i (word_of_nat ram_ptr + initrd_base) s
            else Some (0, s));
     (ram_ptr, s) \<leftarrow> get_ram_ptr s 0;
     i \<leftarrow> get_phys_mem_range (mem_map s) 0;
     (_, s) \<leftarrow> riscv_build_fdt menv (ram_ptr + unat FDT_ADDR) fb
        \<lparr>kernel_start = ucast (ucast RAM_BASE_ADDR + kernel_base), kernel_size = ucast k_size,
         initrd_start = ucast (ucast RAM_BASE_ADDR + initrd_base), initrd_size = ucast i_size,
         cmd_line = cmdline\<rparr> s;
     write_reset_code menv i ram_ptr s
   }"

end
