(* ===== verification/SoftFp.thy ===== *)
theory SoftFp
  imports Prelude
begin

unbundle bit_operations_syntax

section \<open>Floating-point arithmetic (softfp.h, softfp.c, softfp_template.h, softfp_template_icvt.h)\<close>

text \<open>
  The library of IEEE 754 operations. The source is a template that is included once for each
  format; the type \<open>'f word\<close> stands for \<open>F_UINT\<close>, so that \<open>LENGTH('f)\<close> is \<open>F_SIZE\<close>, and every
  operation is defined once for all formats. The build for the ESP32 has no 128-bit integers: the
  formats are 32 and 64 bits, and where the template has two versions the 32-bit format computes
  with the double-width type \<open>F_ULONG\<close> and the 64-bit format with half words.

  Signs are booleans, exponents (\<open>int32_t\<close>, far from its bounds) integers. The accrued flags are
  threaded through as an argument and a result. The assertions of the source, that a mantissa has a
  free top bit and that a quotient fits, hold at every call from an operation; the shifts below them
  are total.
\<close>

subsection \<open>Formats (softfp_template.h, cutils.h)\<close>

definition MANT_SIZE :: "'f::len itself \<Rightarrow> nat" where
  "MANT_SIZE T = (if LENGTH('f) = 32 then 23 else if LENGTH('f) = 64 then 52 else 112)"

definition EXP_SIZE :: "'f::len itself \<Rightarrow> nat" where
  "EXP_SIZE T = (if LENGTH('f) = 32 then 8 else if LENGTH('f) = 64 then 11 else 15)"

definition EXP_MASK :: "'f::len itself \<Rightarrow> int" where
  "EXP_MASK T = 2 ^ EXP_SIZE T - 1"

definition MANT_MASK :: "'f::len word" where
  "MANT_MASK = push_bit (MANT_SIZE TYPE('f)) 1 - 1"

definition SIGN_MASK :: "'f::len word" where
  "SIGN_MASK = push_bit (LENGTH('f) - 1) 1"

definition IMANT_SIZE :: "'f::len itself \<Rightarrow> nat" where
  "IMANT_SIZE T = LENGTH('f) - 2"

definition RND_SIZE :: "'f::len itself \<Rightarrow> nat" where
  "RND_SIZE T = IMANT_SIZE T - MANT_SIZE T"

definition QNAN_MASK :: "'f::len word" where
  "QNAN_MASK = push_bit (MANT_SIZE TYPE('f) - 1) 1"

definition F_QNAN :: "'f::len word" where
  "F_QNAN = push_bit (MANT_SIZE TYPE('f)) (word_of_int (EXP_MASK TYPE('f))) OR QNAN_MASK"

text \<open>The rounding modes, as they stand in an instruction, and the flags.\<close>

definition RM_RNE :: u32 where "RM_RNE = 0"
definition RM_RTZ :: u32 where "RM_RTZ = 1"
definition RM_RDN :: u32 where "RM_RDN = 2"
definition RM_RUP :: u32 where "RM_RUP = 3"
definition RM_RMM :: u32 where "RM_RMM = 4"

definition FFLAG_INVALID_OP :: u32 where "FFLAG_INVALID_OP = push_bit 4 1"
definition FFLAG_DIVIDE_ZERO :: u32 where "FFLAG_DIVIDE_ZERO = push_bit 3 1"
definition FFLAG_OVERFLOW :: u32 where "FFLAG_OVERFLOW = push_bit 2 1"
definition FFLAG_UNDERFLOW :: u32 where "FFLAG_UNDERFLOW = push_bit 1 1"
definition FFLAG_INEXACT :: u32 where "FFLAG_INEXACT = push_bit 0 1"

definition FCLASS_NINF :: u32 where "FCLASS_NINF = push_bit 0 1"
definition FCLASS_NNORMAL :: u32 where "FCLASS_NNORMAL = push_bit 1 1"
definition FCLASS_NSUBNORMAL :: u32 where "FCLASS_NSUBNORMAL = push_bit 2 1"
definition FCLASS_NZERO :: u32 where "FCLASS_NZERO = push_bit 3 1"
definition FCLASS_PZERO :: u32 where "FCLASS_PZERO = push_bit 4 1"
definition FCLASS_PSUBNORMAL :: u32 where "FCLASS_PSUBNORMAL = push_bit 5 1"
definition FCLASS_PNORMAL :: u32 where "FCLASS_PNORMAL = push_bit 6 1"
definition FCLASS_PINF :: u32 where "FCLASS_PINF = push_bit 7 1"
definition FCLASS_SNAN :: u32 where "FCLASS_SNAN = push_bit 8 1"
definition FCLASS_QNAN :: u32 where "FCLASS_QNAN = push_bit 9 1"

datatype minmax_type = FMINMAX_PROP | FMINMAX_IEEE754_2008 | FMINMAX_IEEE754_201X

text \<open>\<open>__builtin_clz\<close> through the length of the binary representation.\<close>

fun bit_length :: "nat \<Rightarrow> nat" where
  "bit_length n = (if n = 0 then 0 else Suc (bit_length (n div 2)))"

declare bit_length.simps [simp del]

definition clz :: "'f::len word \<Rightarrow> nat" where
  "clz a = LENGTH('f) - bit_length (unat a)"

subsection \<open>Packing and rounding\<close>

definition pack_sf :: "bool \<Rightarrow> int \<Rightarrow> 'f::len word \<Rightarrow> 'f word" where
  "pack_sf a_sign a_exp a_mant =
     push_bit (LENGTH('f) - 1) (of_bool a_sign) OR push_bit (MANT_SIZE TYPE('f)) (word_of_int a_exp) OR
     (a_mant AND MANT_MASK)"

text \<open>The three fields, which the operations take apart in the same way.\<close>

definition unpack_sf :: "'f::len word \<Rightarrow> bool \<times> int \<times> 'f word" where
  "unpack_sf a =
     (bit a (LENGTH('f) - 1),
      uint (drop_bit (MANT_SIZE TYPE('f)) a AND word_of_int (EXP_MASK TYPE('f))),
      a AND MANT_MASK)"

definition rshift_rnd :: "'f::len word \<Rightarrow> int \<Rightarrow> 'f word" where
  "rshift_rnd a d =
     (if d \<noteq> 0 then
        if d \<ge> int LENGTH('f) then of_bool (a \<noteq> 0)
        else let msk = push_bit (nat d) 1 - 1
             in drop_bit (nat d) a OR of_bool (a AND msk \<noteq> 0)
      else a)"

definition rnd_addend :: "u32 \<Rightarrow> bool \<Rightarrow> 'f::len word" where
  "rnd_addend rm a_sign =
     (if rm = RM_RNE \<or> rm = RM_RMM then push_bit (RND_SIZE TYPE('f) - 1) 1
      else if rm = RM_RTZ then 0
      else if a_sign \<noteq> (rm AND 1 = 1) then push_bit (RND_SIZE TYPE('f)) 1 - 1
      else 0)"

definition rnd_bits_of :: "'f::len word \<Rightarrow> 'f word" where
  "rnd_bits_of a_mant = a_mant AND (push_bit (RND_SIZE TYPE('f)) 1 - 1)"

text \<open>The mantissa without its rounding bits.\<close>

definition rnd_mant :: "u32 \<Rightarrow> 'f::len word \<Rightarrow> 'f word \<Rightarrow> 'f word" where
  "rnd_mant rm addend a_mant =
     (let r = drop_bit (RND_SIZE TYPE('f)) (a_mant + addend)
      in if rm = RM_RNE \<and> rnd_bits_of a_mant = push_bit (RND_SIZE TYPE('f) - 1) 1 then r AND NOT 1 else r)"

definition round_pack_sf :: "bool \<Rightarrow> int \<Rightarrow> 'f::len word \<Rightarrow> u32 \<Rightarrow> u32 \<Rightarrow> 'f word \<times> u32" where
  "round_pack_sf a_sign a_exp a_mant rm fl =
     (let addend = rnd_addend rm a_sign;
          (a_exp, a_mant, fl) =
            (if a_exp \<le> 0 then
               let is_subnormal = a_exp < 0 \<or> a_mant + addend < push_bit (LENGTH('f) - 1) 1;
                   a_mant = rshift_rnd a_mant (1 - a_exp);
                   fl = (if is_subnormal \<and> rnd_bits_of a_mant \<noteq> 0 then fl OR FFLAG_UNDERFLOW else fl)
               in (1, a_mant, fl)
             else (a_exp, a_mant, fl));
          fl = (if rnd_bits_of a_mant \<noteq> 0 then fl OR FFLAG_INEXACT else fl);
          a_mant = rnd_mant rm addend a_mant;
          a_exp = a_exp + uint (drop_bit (MANT_SIZE TYPE('f) + 1) a_mant)
      in
      if a_mant \<le> MANT_MASK then (pack_sf a_sign 0 a_mant, fl)
      else if a_exp \<ge> EXP_MASK TYPE('f) then
        ((if addend = 0 then pack_sf a_sign (EXP_MASK TYPE('f) - 1) MANT_MASK
          else pack_sf a_sign (EXP_MASK TYPE('f)) 0),
         fl OR FFLAG_OVERFLOW OR FFLAG_INEXACT)
      else (pack_sf a_sign a_exp a_mant, fl))"

definition norm_shift :: "'f::len itself \<Rightarrow> nat \<Rightarrow> nat" where
  "norm_shift T l = l - (LENGTH('f) - 1 - IMANT_SIZE T)"

definition normalize_sf :: "bool \<Rightarrow> int \<Rightarrow> 'f::len word \<Rightarrow> u32 \<Rightarrow> u32 \<Rightarrow> 'f word \<times> u32" where
  "normalize_sf a_sign a_exp a_mant rm fl =
     (let shift = norm_shift TYPE('f) (clz a_mant)
      in round_pack_sf a_sign (a_exp - int shift) (push_bit shift a_mant) rm fl)"

definition normalize2_sf :: "bool \<Rightarrow> int \<Rightarrow> 'f::len word \<Rightarrow> 'f word \<Rightarrow> u32 \<Rightarrow> u32 \<Rightarrow> 'f word \<times> u32" where
  "normalize2_sf a_sign a_exp a_mant1 a_mant0 rm fl =
     (let l = (if a_mant1 = 0 then LENGTH('f) + clz a_mant0 else clz a_mant1);
          shift = norm_shift TYPE('f) l;
          a_exp = a_exp - int shift;
          a_mant1 =
            (if shift = 0 then a_mant1 OR of_bool (a_mant0 \<noteq> 0)
             else if shift < LENGTH('f) then
               push_bit shift a_mant1 OR drop_bit (LENGTH('f) - shift) a_mant0 OR
                 of_bool (push_bit shift a_mant0 \<noteq> 0)
             else push_bit (shift - LENGTH('f)) a_mant0)
      in round_pack_sf a_sign a_exp a_mant1 rm fl)"

definition issignan_sf :: "'f::len word \<Rightarrow> bool" where
  "issignan_sf a \<longleftrightarrow>
     uint (drop_bit (MANT_SIZE TYPE('f) - 1) a AND (push_bit (EXP_SIZE TYPE('f) + 1) 1 - 1)) = 2 * EXP_MASK TYPE('f) \<and>
     a AND MANT_MASK \<noteq> 0"

definition isnan_sf :: "'f::len word \<Rightarrow> bool" where
  "isnan_sf a \<longleftrightarrow>
     uint (drop_bit (MANT_SIZE TYPE('f)) a AND word_of_int (EXP_MASK TYPE('f))) = EXP_MASK TYPE('f) \<and>
     a AND MANT_MASK \<noteq> 0"

definition invalid_if :: "bool \<Rightarrow> u32 \<Rightarrow> u32" where
  "invalid_if b fl = (if b then fl OR FFLAG_INVALID_OP else fl)"

subsection \<open>Addition\<close>

definition add_sf :: "'f::len word \<Rightarrow> 'f word \<Rightarrow> u32 \<Rightarrow> u32 \<Rightarrow> 'f word \<times> u32" where
  "add_sf a b rm fl =
     (let (a, b) = (if a AND NOT SIGN_MASK < b AND NOT SIGN_MASK then (b, a) else (a, b));
          (a_sign, a_exp, a_mant) = unpack_sf a;
          (b_sign, b_exp, b_mant) = unpack_sf b;
          a_mant = push_bit 3 a_mant;
          b_mant = push_bit 3 b_mant
      in
      if a_exp = EXP_MASK TYPE('f) then
        if a_mant \<noteq> 0 then
          (F_QNAN, invalid_if (a_mant AND push_bit 3 QNAN_MASK = 0 \<or> issignan_sf b) fl)
        else if b_exp = EXP_MASK TYPE('f) \<and> a_sign \<noteq> b_sign then (F_QNAN, fl OR FFLAG_INVALID_OP)
        else (a, fl)
      else
        let (a_exp, a_mant) = (if a_exp = 0 then (1, a_mant)
              else (a_exp, a_mant OR push_bit (MANT_SIZE TYPE('f) + 3) 1));
            (b_exp, b_mant) = (if b_exp = 0 then (1, b_mant)
              else (b_exp, b_mant OR push_bit (MANT_SIZE TYPE('f) + 3) 1));
            b_mant = rshift_rnd b_mant (a_exp - b_exp);
            (a_sign, a_mant) =
              (if a_sign = b_sign then (a_sign, a_mant + b_mant)
               else let a_mant = a_mant - b_mant
                    in (if a_mant = 0 then rm = RM_RDN else a_sign, a_mant))
        in normalize_sf a_sign (a_exp + int (RND_SIZE TYPE('f)) - 3) a_mant rm fl)"

definition sub_sf :: "'f::len word \<Rightarrow> 'f word \<Rightarrow> u32 \<Rightarrow> u32 \<Rightarrow> 'f word \<times> u32" where
  "sub_sf a b rm fl = add_sf a (b XOR SIGN_MASK) rm fl"

subsection \<open>Multiplication\<close>

definition normalize_subnormal_sf :: "'f::len word \<Rightarrow> int \<times> 'f word" where
  "normalize_subnormal_sf a_mant =
     (let shift = MANT_SIZE TYPE('f) - (LENGTH('f) - 1 - clz a_mant)
      in (1 - int shift, push_bit shift a_mant))"

text \<open>A finite operand other than zero: a subnormal number is normalised, a normal one gets its leading bit.\<close>

definition with_leading_bit :: "int \<Rightarrow> 'f::len word \<Rightarrow> int \<times> 'f word" where
  "with_leading_bit a_exp a_mant =
     (if a_exp = 0 then normalize_subnormal_sf a_mant
      else (a_exp, a_mant OR push_bit (MANT_SIZE TYPE('f)) 1))"

text \<open>The high and the low word of a product.\<close>

definition mul_u_long :: "'f::len word \<Rightarrow> 'f word \<Rightarrow> 'f word \<times> 'f word" where
  "mul_u_long a b = (let r = unat a * unat b in (word_of_nat (r div 2 ^ LENGTH('f)), word_of_nat r))"

definition mul_u_half :: "'f::len word \<Rightarrow> 'f word \<Rightarrow> 'f word \<times> 'f word" where
  "mul_u_half a b =
     (let h = LENGTH('f) div 2;
          a0 = take_bit h a; a1 = take_bit h (drop_bit h a);
          b0 = take_bit h b; b1 = take_bit h (drop_bit h b);
          r00 = a0 * b0; r01 = a0 * b1; r10 = a1 * b0; r11 = a1 * b1;
          r0 = take_bit h r00;
          c = drop_bit h r00 + take_bit h r01 + take_bit h r10;
          r1 = take_bit h c;
          c = drop_bit h c + drop_bit h r01 + drop_bit h r10 + take_bit h r11;
          r2 = take_bit h c;
          r3 = take_bit h (drop_bit h c + drop_bit h r11)
      in (push_bit h r3 OR r2, push_bit h r1 OR r0))"

definition mul_u :: "'f::len word \<Rightarrow> 'f word \<Rightarrow> 'f word \<times> 'f word" where
  "mul_u a b = (if LENGTH('f) = 32 then mul_u_long a b else mul_u_half a b)"

definition mul_sf :: "'f::len word \<Rightarrow> 'f word \<Rightarrow> u32 \<Rightarrow> u32 \<Rightarrow> 'f word \<times> u32" where
  "mul_sf a b rm fl =
     (let (a_sign, a_exp, a_mant) = unpack_sf a;
          (b_sign, b_exp, b_mant) = unpack_sf b;
          r_sign = (a_sign \<noteq> b_sign)
      in
      if a_exp = EXP_MASK TYPE('f) \<or> b_exp = EXP_MASK TYPE('f) then
        if isnan_sf a \<or> isnan_sf b then (F_QNAN, invalid_if (issignan_sf a \<or> issignan_sf b) fl)
        else if (a_exp = EXP_MASK TYPE('f) \<and> b_exp = 0 \<and> b_mant = 0) \<or>
            (b_exp = EXP_MASK TYPE('f) \<and> a_exp = 0 \<and> a_mant = 0)
        then (F_QNAN, fl OR FFLAG_INVALID_OP)
        else (pack_sf r_sign (EXP_MASK TYPE('f)) 0, fl)
      else if a_exp = 0 \<and> a_mant = 0 then (pack_sf r_sign 0 0, fl)
      else if b_exp = 0 \<and> b_mant = 0 then (pack_sf r_sign 0 0, fl)
      else
        let (a_exp, a_mant) = with_leading_bit a_exp a_mant;
            (b_exp, b_mant) = with_leading_bit b_exp b_mant;
            r_exp = a_exp + b_exp - 2 ^ (EXP_SIZE TYPE('f) - 1) + 2;
            (r_mant, r_mant_low) =
              mul_u (push_bit (RND_SIZE TYPE('f)) a_mant) (push_bit (RND_SIZE TYPE('f) + 1) b_mant)
        in normalize_sf r_sign r_exp (r_mant OR of_bool (r_mant_low \<noteq> 0)) rm fl)"

end
