(* ===== verification/SoftFpOps.thy ===== *)
theory SoftFpOps
  imports SoftFp
begin

section \<open>More floating-point operations (softfp_template.h, softfp_template_icvt.h)\<close>

text \<open>
  The fused multiply-add, division, square root, comparisons, and conversions between the formats
  and to and from integers.
\<close>

subsection \<open>Fused multiply-add\<close>

text \<open>The label \<open>mul_zero\<close>: the product is zero.\<close>

definition fma_mul_zero :: "bool \<Rightarrow> 'f::len word \<Rightarrow> u32 \<Rightarrow> u32 \<Rightarrow> 'f word \<times> u32" where
  "fma_mul_zero r_sign c rm fl =
     (let (c_sign, c_exp, c_mant) = unpack_sf c in
      if c_exp = 0 \<and> c_mant = 0 then
        (pack_sf (if c_sign \<noteq> r_sign then rm = RM_RDN else r_sign) 0 0, fl)
      else (c, fl))"

text \<open>The double-word mantissa of the smaller operand, shifted to the exponent of the larger one.\<close>

definition fma_align :: "int \<Rightarrow> 'f::len word \<times> 'f word \<Rightarrow> 'f word \<times> 'f word" where
  "fma_align shift c =
     (let (c_mant1, c_mant0) = c in
      if shift \<ge> 2 * int LENGTH('f) then (0, of_bool (c_mant0 OR c_mant1 \<noteq> 0))
      else if shift \<ge> int LENGTH('f) + 1 then (0, rshift_rnd c_mant1 (shift - int LENGTH('f)))
      else if shift = int LENGTH('f) then (0, c_mant1 OR of_bool (c_mant0 \<noteq> 0))
      else if shift \<noteq> 0 then
        let n = nat shift; msk = push_bit n 1 - 1
        in (drop_bit n c_mant1,
            push_bit (LENGTH('f) - n) c_mant1 OR drop_bit n c_mant0 OR of_bool (c_mant0 AND msk \<noteq> 0))
      else (c_mant1, c_mant0))"

text \<open>The sum or difference of two aligned double words, with the sign of the result.\<close>

definition fma_combine ::
  "bool \<Rightarrow> bool \<Rightarrow> u32 \<Rightarrow> 'f::len word \<times> 'f word \<Rightarrow> 'f word \<times> 'f word \<Rightarrow> bool \<times> 'f word \<times> 'f word" where
  "fma_combine r_sign c_sign rm r c =
     (let (r_mant1, r_mant0) = r; (c_mant1, c_mant0) = c in
      if r_sign = c_sign then
        let r_mant0 = r_mant0 + c_mant0
        in (r_sign, r_mant1 + (c_mant1 + of_bool (r_mant0 < c_mant0)), r_mant0)
      else
        let tmp = r_mant0;
            r_mant0 = r_mant0 - c_mant0;
            r_mant1 = r_mant1 - c_mant1 - of_bool (r_mant0 > tmp)
        in (if r_mant0 OR r_mant1 = 0 then rm = RM_RDN else r_sign, r_mant1, r_mant0))"

definition fma_add ::
  "bool \<Rightarrow> int \<Rightarrow> 'f::len word \<times> 'f word \<Rightarrow> bool \<Rightarrow> int \<Rightarrow> 'f word \<Rightarrow> u32 \<Rightarrow> u32 \<Rightarrow> 'f word \<times> u32" where
  "fma_add r_sign r_exp r c_sign c_exp c_mant rm fl =
     (let c_exp = c_exp + 1;
          c = (push_bit (RND_SIZE TYPE('f) - 1) c_mant, 0);
          ((r_sign, r_exp, r), (c_sign, c_exp, c)) =
            (if \<not> (r_exp > c_exp \<or> (r_exp = c_exp \<and> fst r \<ge> fst c))
             then ((c_sign, c_exp, c), (r_sign, r_exp, r))
             else ((r_sign, r_exp, r), (c_sign, c_exp, c)));
          c = fma_align (r_exp - c_exp) c;
          (r_sign, r_mant1, r_mant0) = fma_combine r_sign c_sign rm r c
      in normalize2_sf r_sign r_exp r_mant1 r_mant0 rm fl)"

definition fma_sf :: "'f::len word \<Rightarrow> 'f word \<Rightarrow> 'f word \<Rightarrow> u32 \<Rightarrow> u32 \<Rightarrow> 'f word \<times> u32" where
  "fma_sf a b c rm fl =
     (let (a_sign, a_exp, a_mant) = unpack_sf a;
          (b_sign, b_exp, b_mant) = unpack_sf b;
          (c_sign, c_exp, c_mant) = unpack_sf c;
          r_sign = (a_sign \<noteq> b_sign);
          max_exp = EXP_MASK TYPE('f)
      in
      if a_exp = max_exp \<or> b_exp = max_exp \<or> c_exp = max_exp then
        if isnan_sf a \<or> isnan_sf b \<or> isnan_sf c then
          (F_QNAN, invalid_if (issignan_sf a \<or> issignan_sf b \<or> issignan_sf c) fl)
        else if (a_exp = max_exp \<and> b_exp = 0 \<and> b_mant = 0) \<or>
            (b_exp = max_exp \<and> a_exp = 0 \<and> a_mant = 0) \<or>
            ((a_exp = max_exp \<or> b_exp = max_exp) \<and> c_exp = max_exp \<and> r_sign \<noteq> c_sign)
        then (F_QNAN, fl OR FFLAG_INVALID_OP)
        else if c_exp = max_exp then (pack_sf c_sign max_exp 0, fl)
        else (pack_sf r_sign max_exp 0, fl)
      else if a_exp = 0 \<and> a_mant = 0 then fma_mul_zero r_sign c rm fl
      else if b_exp = 0 \<and> b_mant = 0 then fma_mul_zero r_sign c rm fl
      else
        let (a_exp, a_mant) = with_leading_bit a_exp a_mant;
            (b_exp, b_mant) = with_leading_bit b_exp b_mant;
            r_exp = a_exp + b_exp - 2 ^ (EXP_SIZE TYPE('f) - 1) + 3;
            (r_mant1, r_mant0) =
              mul_u (push_bit (RND_SIZE TYPE('f)) a_mant) (push_bit (RND_SIZE TYPE('f)) b_mant);
            (r_exp, r_mant1, r_mant0) =
              (if r_mant1 < push_bit (LENGTH('f) - 3) 1
               then (r_exp - 1, push_bit 1 r_mant1 OR drop_bit (LENGTH('f) - 1) r_mant0, push_bit 1 r_mant0)
               else (r_exp, r_mant1, r_mant0))
        in
        if c_exp = 0 \<and> c_mant = 0 then
          normalize_sf r_sign r_exp (r_mant1 OR of_bool (r_mant0 \<noteq> 0)) rm fl
        else
          let (c_exp, c_mant) = with_leading_bit c_exp c_mant
          in fma_add r_sign r_exp (r_mant1, r_mant0) c_sign c_exp c_mant rm fl)"

subsection \<open>Division\<close>

text \<open>The quotient and the remainder of a double word.\<close>

definition divrem_u_long :: "'f::len word \<Rightarrow> 'f word \<Rightarrow> 'f word \<Rightarrow> 'f word \<times> 'f word" where
  "divrem_u_long ah al b =
     (let a = unat ah * 2 ^ LENGTH('f) + unat al
      in (word_of_nat (a div unat b), word_of_nat (a mod unat b)))"

primrec divrem_loop :: "nat \<Rightarrow> 'f::len word \<Rightarrow> 'f word \<Rightarrow> 'f word \<Rightarrow> 'f word \<times> 'f word" where
  "divrem_loop 0 a1 a0 b = (a0, a1)"
| "divrem_loop (Suc n) a1 a0 b =
     (let ab = bit a1 (LENGTH('f) - 1);
          a1 = push_bit 1 a1 OR drop_bit (LENGTH('f) - 1) a0;
          qb = (ab \<or> a1 \<ge> b);
          a1 = (if qb then a1 - b else a1)
      in divrem_loop n a1 (push_bit 1 a0 OR of_bool qb) b)"

definition divrem_u :: "'f::len word \<Rightarrow> 'f word \<Rightarrow> 'f word \<Rightarrow> 'f word \<times> 'f word" where
  "divrem_u a1 a0 b =
     (if LENGTH('f) = 32 then divrem_u_long a1 a0 b else divrem_loop LENGTH('f) a1 a0 b)"

definition div_sf :: "'f::len word \<Rightarrow> 'f word \<Rightarrow> u32 \<Rightarrow> u32 \<Rightarrow> 'f word \<times> u32" where
  "div_sf a b rm fl =
     (let (a_sign, a_exp, a_mant) = unpack_sf a;
          (b_sign, b_exp, b_mant) = unpack_sf b;
          r_sign = (a_sign \<noteq> b_sign);
          max_exp = EXP_MASK TYPE('f)
      in
      if a_exp = max_exp then
        if a_mant \<noteq> 0 \<or> isnan_sf b then (F_QNAN, invalid_if (issignan_sf a \<or> issignan_sf b) fl)
        else if b_exp = max_exp then (F_QNAN, fl OR FFLAG_INVALID_OP)
        else (pack_sf r_sign max_exp 0, fl)
      else if b_exp = max_exp then
        if b_mant \<noteq> 0 then (F_QNAN, invalid_if (issignan_sf a \<or> issignan_sf b) fl)
        else (pack_sf r_sign 0 0, fl)
      else if b_exp = 0 \<and> b_mant = 0 then
        if a_exp = 0 \<and> a_mant = 0 then (F_QNAN, fl OR FFLAG_INVALID_OP)
        else (pack_sf r_sign max_exp 0, fl OR FFLAG_DIVIDE_ZERO)
      else if a_exp = 0 \<and> a_mant = 0 then (pack_sf r_sign 0 0, fl)
      else
        let (b_exp, b_mant) = with_leading_bit b_exp b_mant;
            (a_exp, a_mant) = with_leading_bit a_exp a_mant;
            r_exp = a_exp - b_exp + 2 ^ (EXP_SIZE TYPE('f) - 1) - 1;
            (r_mant, r) = divrem_u a_mant 0 (push_bit 2 b_mant)
        in normalize_sf r_sign r_exp (if r \<noteq> 0 then r_mant OR 1 else r_mant) rm fl)"

subsection \<open>Square root\<close>

text \<open>The logarithm, rounded up, of a double word other than zero.\<close>

definition sqrt_log :: "'f::len word \<Rightarrow> 'f word \<Rightarrow> nat" where
  "sqrt_log a1 a0 =
     (if a1 \<noteq> 0 then 2 * LENGTH('f) - clz (a1 - 1) else LENGTH('f) - clz (a0 - 1))"

function newton_long :: "nat \<Rightarrow> nat \<Rightarrow> nat" where
  "newton_long a s = (let u = (a div s + s) div 2 in if u \<ge> s then s else newton_long a u)"
  by pat_completeness auto
termination
  by (relation "measure snd") auto

declare newton_long.simps [simp del]

function newton :: "'f::len word \<Rightarrow> 'f word \<Rightarrow> 'f word \<Rightarrow> 'f word" where
  "newton a1 a0 s =
     (let u = (fst (divrem_u a1 a0 s) + s) div 2 in if u \<ge> s then s else newton a1 a0 u)"
  by pat_completeness auto
termination
  by (relation "measure (\<lambda>(a1, a0, s). unat s)") (auto simp: word_less_nat_alt not_le)

declare newton.simps [simp del]

text \<open>The root, and whether it is inexact.\<close>

definition sqrtrem_u :: "'f::len word \<Rightarrow> 'f word \<Rightarrow> bool \<times> 'f word" where
  "sqrtrem_u a1 a0 =
     (if a1 = 0 \<and> a0 = 0 then (False, 0)
      else if LENGTH('f) = 32 then
        let a = unat a1 * 2 ^ LENGTH('f) + unat a0;
            s = newton_long a (2 ^ ((sqrt_log a1 a0 + 1) div 2))
        in (a - s * s \<noteq> 0, word_of_nat s)
      else
        let s = newton a1 a0 (push_bit ((sqrt_log a1 a0 + 1) div 2) 1);
            (sq1, sq0) = mul_u s s
        in (sq0 \<noteq> a0 \<or> sq1 \<noteq> a1, s))"

definition sqrt_sf :: "'f::len word \<Rightarrow> u32 \<Rightarrow> u32 \<Rightarrow> 'f word \<times> u32" where
  "sqrt_sf a rm fl =
     (let (a_sign, a_exp, a_mant) = unpack_sf a in
      if a_exp = EXP_MASK TYPE('f) \<and> a_mant \<noteq> 0 then (F_QNAN, invalid_if (issignan_sf a) fl)
      else if a_exp = EXP_MASK TYPE('f) \<and> \<not> a_sign then (a, fl)
      else if a_sign then
        if a_exp = 0 \<and> a_mant = 0 then (a, fl) else (F_QNAN, fl OR FFLAG_INVALID_OP)
      else if a_exp = 0 \<and> a_mant = 0 then (pack_sf False 0 0, fl)
      else
        let (a_exp, a_mant) = with_leading_bit a_exp a_mant;
            a_exp = a_exp - EXP_MASK TYPE('f) div 2;
            (a_exp, a_mant) = (if odd a_exp then (a_exp - 1, push_bit 1 a_mant) else (a_exp, a_mant));
            a_exp = a_exp div 2 + EXP_MASK TYPE('f) div 2;
            a_mant = push_bit (LENGTH('f) - 4 - MANT_SIZE TYPE('f)) a_mant;
            (inexact, a_mant) = sqrtrem_u a_mant 0
        in normalize_sf a_sign a_exp (if inexact then a_mant OR 1 else a_mant) rm fl)"

subsection \<open>Comparisons\<close>

definition min_max_nan_sf :: "'f::len word \<Rightarrow> 'f word \<Rightarrow> u32 \<Rightarrow> minmax_type \<Rightarrow> 'f word \<times> u32" where
  "min_max_nan_sf a b fl minmax_type =
     (let signan = (issignan_sf a \<or> issignan_sf b); fl = invalid_if signan fl in
      if signan \<and> minmax_type = FMINMAX_IEEE754_2008 then (F_QNAN, fl)
      else if minmax_type = FMINMAX_PROP then (F_QNAN, fl)
      else if isnan_sf a then if isnan_sf b then (F_QNAN, fl) else (b, fl)
      else (a, fl))"

definition min_sf :: "'f::len word \<Rightarrow> 'f word \<Rightarrow> u32 \<Rightarrow> minmax_type \<Rightarrow> 'f word \<times> u32" where
  "min_sf a b fl minmax_type =
     (if isnan_sf a \<or> isnan_sf b then min_max_nan_sf a b fl minmax_type
      else
        let a_sign = bit a (LENGTH('f) - 1); b_sign = bit b (LENGTH('f) - 1) in
        if a_sign \<noteq> b_sign then if a_sign then (a, fl) else (b, fl)
        else if (a < b) \<noteq> a_sign then (a, fl) else (b, fl))"

definition max_sf :: "'f::len word \<Rightarrow> 'f word \<Rightarrow> u32 \<Rightarrow> minmax_type \<Rightarrow> 'f word \<times> u32" where
  "max_sf a b fl minmax_type =
     (if isnan_sf a \<or> isnan_sf b then min_max_nan_sf a b fl minmax_type
      else
        let a_sign = bit a (LENGTH('f) - 1); b_sign = bit b (LENGTH('f) - 1) in
        if a_sign \<noteq> b_sign then if a_sign then (b, fl) else (a, fl)
        else if (a < b) \<noteq> a_sign then (b, fl) else (a, fl))"

definition eq_quiet_sf :: "'f::len word \<Rightarrow> 'f word \<Rightarrow> u32 \<Rightarrow> bool \<times> u32" where
  "eq_quiet_sf a b fl =
     (if isnan_sf a \<or> isnan_sf b then (False, invalid_if (issignan_sf a \<or> issignan_sf b) fl)
      else if push_bit 1 (a OR b) = 0 then (True, fl)
      else (a = b, fl))"

definition le_sf :: "'f::len word \<Rightarrow> 'f word \<Rightarrow> u32 \<Rightarrow> bool \<times> u32" where
  "le_sf a b fl =
     (if isnan_sf a \<or> isnan_sf b then (False, fl OR FFLAG_INVALID_OP)
      else
        let a_sign = bit a (LENGTH('f) - 1); b_sign = bit b (LENGTH('f) - 1) in
        if a_sign \<noteq> b_sign then (a_sign \<or> push_bit 1 (a OR b) = 0, fl)
        else if a_sign then (a \<ge> b, fl) else (a \<le> b, fl))"

definition lt_sf :: "'f::len word \<Rightarrow> 'f word \<Rightarrow> u32 \<Rightarrow> bool \<times> u32" where
  "lt_sf a b fl =
     (if isnan_sf a \<or> isnan_sf b then (False, fl OR FFLAG_INVALID_OP)
      else
        let a_sign = bit a (LENGTH('f) - 1); b_sign = bit b (LENGTH('f) - 1) in
        if a_sign \<noteq> b_sign then (a_sign \<and> push_bit 1 (a OR b) \<noteq> 0, fl)
        else if a_sign then (a > b, fl) else (a < b, fl))"

definition fclass_sf :: "'f::len word \<Rightarrow> u32" where
  "fclass_sf a =
     (let (a_sign, a_exp, a_mant) = unpack_sf a in
      if a_exp = EXP_MASK TYPE('f) then
        if a_mant \<noteq> 0 then if a_mant AND QNAN_MASK \<noteq> 0 then FCLASS_QNAN else FCLASS_SNAN
        else if a_sign then FCLASS_NINF else FCLASS_PINF
      else if a_exp = 0 then
        if a_mant = 0 then if a_sign then FCLASS_NZERO else FCLASS_PZERO
        else if a_sign then FCLASS_NSUBNORMAL else FCLASS_PSUBNORMAL
      else if a_sign then FCLASS_NNORMAL else FCLASS_PNORMAL)"

subsection \<open>Conversions between the formats\<close>

definition cvt_sf32_sf :: "u32 \<Rightarrow> u32 \<Rightarrow> 'f::len word \<times> u32" where
  "cvt_sf32_sf a fl =
     (let (a_sign, a_exp, a_mant) = unpack_sf a in
      if a_exp = 0xff then
        if a_mant \<noteq> 0 then (F_QNAN, invalid_if (issignan_sf a) fl)
        else (pack_sf a_sign (EXP_MASK TYPE('f)) 0, fl)
      else if a_exp = 0 \<and> a_mant = 0 then (pack_sf a_sign 0 0, fl)
      else
        let (a_exp, a_mant) = (if a_exp = 0 then normalize_subnormal_sf a_mant else (a_exp, a_mant));
            a_exp = a_exp - 0x7f + EXP_MASK TYPE('f) div 2
        in (pack_sf a_sign a_exp (push_bit (MANT_SIZE TYPE('f) - 23) (ucast a_mant)), fl))"

text \<open>The source drops the mantissa of a normalised subnormal number and keeps its exponent.\<close>

definition cvt_sf_sf32 :: "'f::len word \<Rightarrow> u32 \<Rightarrow> u32 \<Rightarrow> u32 \<times> u32" where
  "cvt_sf_sf32 a rm fl =
     (let (a_sign, a_exp, a_mant) = unpack_sf a in
      if a_exp = EXP_MASK TYPE('f) then
        if a_mant \<noteq> 0 then (F_QNAN, invalid_if (issignan_sf a) fl)
        else (pack_sf a_sign 0xff 0, fl)
      else if a_exp = 0 \<and> a_mant = 0 then (pack_sf a_sign 0 0, fl)
      else
        let (a_exp, a_mant) =
              (if a_exp = 0 then (fst (normalize_subnormal_sf a_mant), a_mant)
               else (a_exp, a_mant OR push_bit (MANT_SIZE TYPE('f)) 1));
            a_exp = a_exp - EXP_MASK TYPE('f) div 2 + 0x7f;
            a_mant = rshift_rnd a_mant (int (MANT_SIZE TYPE('f)) - (32 - 2))
        in normalize_sf a_sign a_exp (ucast a_mant) rm fl)"

subsection \<open>Conversions to and from integers\<close>

text \<open>The type \<open>'i word\<close> stands for \<open>ICVT_UINT\<close>.\<close>

definition internal_cvt_sf_i :: "'f::len word \<Rightarrow> u32 \<Rightarrow> u32 \<Rightarrow> bool \<Rightarrow> 'i::len word \<times> u32" where
  "internal_cvt_sf_i a rm fl is_unsigned =
     (let (a_sign, a_exp, a_mant) = unpack_sf a;
          a_sign = (if a_exp = EXP_MASK TYPE('f) \<and> a_mant \<noteq> 0 then False else a_sign);
          (a_exp, a_mant) = (if a_exp = 0 then (1, a_mant)
            else (a_exp, a_mant OR push_bit (MANT_SIZE TYPE('f)) 1));
          a_mant = push_bit (RND_SIZE TYPE('f)) a_mant;
          a_exp = a_exp - EXP_MASK TYPE('f) div 2 - int (MANT_SIZE TYPE('f));
          r_max = (if is_unsigned then of_bool a_sign - 1
            else push_bit (LENGTH('i) - 1) 1 - of_bool (\<not> a_sign));
          overflow = (r_max, fl OR FFLAG_INVALID_OP)
      in
      if a_exp \<ge> 0 then
        if a_exp \<le> int LENGTH('i) - 1 - int (MANT_SIZE TYPE('f)) then
          let r = push_bit (nat a_exp) (ucast (drop_bit (RND_SIZE TYPE('f)) a_mant))
          in if r > r_max then overflow else (if a_sign then - r else r, fl)
        else overflow
      else
        let a_mant = rshift_rnd a_mant (- a_exp);
            addend = rnd_addend rm a_sign;
            rnd_bits = rnd_bits_of a_mant;
            a_mant = rnd_mant rm addend a_mant
        in
        if unat a_mant > unat r_max then overflow
        else
          let r = ucast a_mant
          in (if a_sign then - r else r, if rnd_bits \<noteq> 0 then fl OR FFLAG_INEXACT else fl))"

definition cvt_sf_i :: "'f::len word \<Rightarrow> u32 \<Rightarrow> u32 \<Rightarrow> 'i::len word \<times> u32" where
  "cvt_sf_i a rm fl = internal_cvt_sf_i a rm fl False"

definition cvt_sf_u :: "'f::len word \<Rightarrow> u32 \<Rightarrow> u32 \<Rightarrow> 'i::len word \<times> u32" where
  "cvt_sf_u a rm fl = internal_cvt_sf_i a rm fl True"

definition internal_cvt_i_sf :: "'i::len word \<Rightarrow> u32 \<Rightarrow> u32 \<Rightarrow> bool \<Rightarrow> 'f::len word \<times> u32" where
  "internal_cvt_i_sf a rm fl is_unsigned =
     (let (a_sign, r) = (if \<not> is_unsigned \<and> a <s 0 then (True, - a) else (False, a));
          a_exp = EXP_MASK TYPE('f) div 2 + int LENGTH('f) - 2;
          l = int LENGTH('i) - int (clz r) - (int LENGTH('f) - 1);
          (a_exp, r) =
            (if l > 0 then
               let n = nat l; msk = r AND (push_bit n 1 - 1)
               in (a_exp + l, drop_bit n r OR of_bool (r AND msk \<noteq> 0))
             else (a_exp, r))
      in normalize_sf a_sign a_exp (ucast r) rm fl)"

definition cvt_i_sf :: "'i::len word \<Rightarrow> u32 \<Rightarrow> u32 \<Rightarrow> 'f::len word \<times> u32" where
  "cvt_i_sf a rm fl = internal_cvt_i_sf a rm fl False"

definition cvt_u_sf :: "'i::len word \<Rightarrow> u32 \<Rightarrow> u32 \<Rightarrow> 'f::len word \<times> u32" where
  "cvt_u_sf a rm fl = internal_cvt_i_sf a rm fl True"

end
