(* ===== verification/FloatUnit.thy ===== *)
theory FloatUnit
  imports RiscvCpu SoftFpOps
begin

section \<open>The floating-point operations of the CPU\<close>

text \<open>
  The functions of \<open>softfp.c\<close> for its two formats, as the interpreter calls them:
  \<open>add_sf32\<close>, \<open>add_sf64\<close> and so on are the template at 32 and 64 bits. The minimum and the
  maximum are those of the revision of 2019, the integers are of 32 bits.
\<close>

definition sf_ops :: "'f::len word softfp_ops" where
  "sf_ops = \<lparr>sf_add = add_sf, sf_sub = sub_sf, sf_mul = mul_sf, sf_div = div_sf, sf_sqrt = sqrt_sf,
     sf_fma = fma_sf, sf_min = \<lambda>a b fl. min_sf a b fl FMINMAX_IEEE754_201X,
     sf_max = \<lambda>a b fl. max_sf a b fl FMINMAX_IEEE754_201X, sf_le = le_sf, sf_lt = lt_sf,
     sf_eq_quiet = eq_quiet_sf, sf_fclass = fclass_sf, sf_cvt_i32 = cvt_sf_i, sf_cvt_u32 = cvt_sf_u,
     i32_cvt_sf = cvt_i_sf, u32_cvt_sf = cvt_u_sf\<rparr>"

definition softfp_unit :: softfp where
  "softfp_unit = \<lparr>sf32 = sf_ops, sf64 = sf_ops, cvt_sf32_sf64 = cvt_sf32_sf, cvt_sf64_sf32 = cvt_sf_sf32\<rparr>"

end
