(* ===== verification/SampleEnv.thy ===== *)
theory SampleEnv
  imports FloatUnit
begin

section \<open>Surroundings for the witnesses\<close>

text \<open>
  Concrete parameters for the witnesses of the theorems on the CPU: the floating-point operations of
  the program and devices that do not answer.
\<close>

definition sample_cpu_env :: "riscv_cpu cpu_env" where
  "sample_cpu_env = \<lparr>ram_env = sample_env, uninit = \<lambda>_. 0, dev_read = \<lambda>_ _ _ _. None,
     dev_write = \<lambda>_ _ _ _ _. None, fpu = softfp_unit\<rparr>"

end
