(* ===== verification/RamAccess.thy ===== *)
theory RamAccess
  imports RiscvCsr SampleEnv
begin

section \<open>Loads and stores in RAM\<close>

text \<open>
  What the memory accesses of the CPU do when they hit RAM, on top of the virtual memory behind the
  range: a load gives the bytes of the flat memory as a little-endian word, a store changes these
  bytes only, at any alignment. \<open>byte_store\<close> is the interface: a store of bytes that can be read
  and written in ranges. The virtual memory is an instance.
\<close>

subsection \<open>Words as bytes\<close>

lemma bit_le_word:
  "bit (le_word bs :: 'a::len word) n \<longleftrightarrow>
     n < LENGTH('a) \<and> n div 8 < length bs \<and> bit (bs ! (n div 8)) (n mod 8)"
proof (induction bs arbitrary: n)
  case (Cons b bs)
  have e: "bit (le_word (b # bs) :: 'a word) n \<longleftrightarrow>
      n < LENGTH('a) \<and> (bit b n \<or> 8 \<le> n \<and> bit (le_word bs :: 'a word) (n - 8))"
    by (auto simp: bit_or_iff bit_push_bit_iff bit_unsigned_iff)
  show ?case
  proof (cases "n < 8")
    case True
    then show ?thesis using e by simp
  next
    case False
    then have "n div 8 = Suc ((n - 8) div 8)" "n mod 8 = (n - 8) mod 8"
      by (simp_all add: le_div_geq le_mod_geq)
    moreover have "\<not> bit b n" using False bit_imp_le_length [of b n] by auto
    ultimately show ?thesis using False e Cons.IH [of "n - 8"] by auto
  qed
qed simp

lemma length_le_bytes [simp]: "length (le_bytes n w) = n"
  by (induction n arbitrary: w) auto

lemma nth_le_bytes: "i < n \<Longrightarrow> le_bytes n w ! i = ucast (drop_bit (8 * i) w)"
  by (induction n arbitrary: i w) (auto simp: nth_Cons drop_bit_drop_bit add.commute split: nat.splits)

lemma le_word_le_bytes:
  "le_word (le_bytes n w) = (take_bit (8 * n) w :: 'a::len word)"
proof (rule bit_word_eqI)
  fix i assume "i < LENGTH('a)"
  then show "bit (le_word (le_bytes n w) :: 'a word) i = bit (take_bit (8 * n) w) i"
    by (cases "i div 8 < n")
      (auto simp: bit_le_word nth_le_bytes bit_take_bit_iff bit_unsigned_iff bit_drop_bit_eq
        div_less_iff_less_mult mult.commute)
qed

subsection \<open>Stores of bytes\<close>

locale byte_store =
  fixes rd :: "'v \<Rightarrow> nat \<Rightarrow> nat \<Rightarrow> (u8 list \<times> 'v) option"
    and wr :: "'v \<Rightarrow> nat \<Rightarrow> u8 list \<Rightarrow> 'v option"
    and holds :: "nat \<Rightarrow> 'v \<Rightarrow> (nat \<Rightarrow> u8) \<Rightarrow> bool"
  assumes read_law: "holds M v mem \<Longrightarrow> a + n \<le> M \<Longrightarrow> \<exists>v'. rd v a n = Some (mem_bytes mem a n, v') \<and> holds M v' mem"
    and write_law: "holds M v mem \<Longrightarrow> a + length bs \<le> M \<Longrightarrow> \<exists>v'. wr v a bs = Some v' \<and> holds M v' (mem_write mem a bs)"
begin

text \<open>A word that is written is read back; a word elsewhere stays.\<close>

lemma write_read_word:
  assumes "holds M v mem" and "a + n \<le> M"
  shows "\<exists>v' bs v''. wr v a (le_bytes n w) = Some v' \<and> rd v' a n = Some (bs, v'') \<and>
    le_word bs = (take_bit (8 * n) w :: 'b::len word) \<and> holds M v'' (mem_write mem a (le_bytes n w))"
proof -
  obtain v' where v': "wr v a (le_bytes n w) = Some v'" "holds M v' (mem_write mem a (le_bytes n w))"
    using write_law [OF assms(1), of a "le_bytes n w"] assms(2) by auto
  have "mem_bytes (mem_write mem a (le_bytes n w)) a n = le_bytes n w"
    by (intro nth_equalityI) (simp_all add: mem_bytes_def mem_write_def)
  then show ?thesis using v' read_law [OF v'(2) assms(2)] le_word_le_bytes [of n w] by auto
qed

end

definition vmm_rd :: "vm_env \<Rightarrow> vmm \<Rightarrow> nat \<Rightarrow> nat \<Rightarrow> (u8 list \<times> vmm) option" where
  "vmm_rd env v a n = vmm_read env v a (replicate n 0) n"

definition vmm_wr :: "vm_env \<Rightarrow> vmm \<Rightarrow> nat \<Rightarrow> u8 list \<Rightarrow> vmm option" where
  "vmm_wr env v a bs = vmm_write env v a bs (length bs)"

interpretation ram: byte_store "vmm_rd env" "vmm_wr env" flat for env
proof unfold_locales
  fix M v mem a n
  assume "flat M v mem" "a + n \<le> M"
  then show "\<exists>v'. vmm_rd env v a n = Some (mem_bytes mem a n, v') \<and> flat M v' mem"
    using vmm_read_flat [of M v mem a n "replicate n 0" env] by (simp add: vmm_rd_def splice_def)
next
  fix M v mem a and bs :: "u8 list"
  assume "flat M v mem" "a + length bs \<le> M"
  then show "\<exists>v'. vmm_wr env v a bs = Some v' \<and> flat M v' (mem_write mem a bs)"
    using vmm_write_flat [of M v mem a "length bs" bs env] by (simp add: vmm_wr_def)
qed

subsection \<open>RAM in the memory map\<close>

text \<open>
  \<open>ram_at i base M mem s\<close>: range \<open>i\<close> of the map is RAM of \<open>M\<close> bytes at \<open>base\<close>, no earlier
  range hides it, and its bytes are those of \<open>mem\<close>.
\<close>

definition ram_range :: "nat \<Rightarrow> nat \<Rightarrow> (nat \<Rightarrow> u8) \<Rightarrow> phys_mem_range \<Rightarrow> bool" where
  "ram_range base M mem pr \<longleftrightarrow> pr_is_ram pr \<and> unat (pr_addr pr) = base \<and> unat (pr_size pr) = M \<and>
     base + M \<le> 2 ^ 32 \<and> M < size_limit \<and> pr_dirty_bits pr = None \<and>
     (\<exists>v. pr_vmm pr = Some v \<and> flat M v mem)"

definition ram_at :: "nat \<Rightarrow> nat \<Rightarrow> nat \<Rightarrow> (nat \<Rightarrow> u8) \<Rightarrow> 'z riscv_cpu_scheme \<Rightarrow> bool" where
  "ram_at i base M mem s \<longleftrightarrow>
     (\<exists>pr. range_at (mem_map s) i = Some pr \<and> ram_range base M mem pr) \<and>
     (\<forall>a :: u32. base \<le> unat a \<longrightarrow> unat a < base + M \<longrightarrow> get_phys_mem_range (mem_map s) (ucast a) = Some i)"

text \<open>The states that differ in range \<open>i\<close> only.\<close>

definition moved :: "nat \<Rightarrow> 'z riscv_cpu_scheme \<Rightarrow> 'z riscv_cpu_scheme \<Rightarrow> bool" where
  "moved i s s' \<longleftrightarrow> (\<exists>pr. s' = s\<lparr>mem_map := set_range (mem_map s) i pr\<rparr>)"

lemma moved_trans: "moved i s t \<Longrightarrow> moved i t u \<Longrightarrow> moved i s u"
  by (auto simp: moved_def set_range_def)

lemma moved_refl [simp]: "moved i s s"
proof -
  have "s = s\<lparr>mem_map := set_range (mem_map s) i (phys_mem_range (mem_map s) ! i)\<rparr>"
    by (simp add: set_range_def list_update_id)
  then show ?thesis unfolding moved_def by blast
qed

lemma movedD:
  assumes "moved i s s'"
  shows "priv s' = priv s" "mstatus s' = mstatus s" "satp s' = satp s" "cur_xlen s' = cur_xlen s"
    "reg s' = reg s" "pc s' = pc s"
  using assms by (auto simp: moved_def)

lemma find_range_update:
  assumes "j < length prs" and "pr_addr pr = pr_addr (prs ! j)" and "pr_size pr = pr_size (prs ! j)"
  shows "find_range (prs[j := pr]) i a = find_range prs i a"
  using assms by (induction prs i a arbitrary: j rule: find_range.induct) (auto split: nat.splits)

lemma ram_at_update:
  assumes "ram_at i base M mem s" and "range_at (mem_map s) i = Some pr" and "flat M v mem'"
  shows "ram_at i base M mem' (s\<lparr>mem_map := set_range (mem_map s) i (pr\<lparr>pr_vmm := Some v\<rparr>)\<rparr>)"
  using assms
  by (auto simp: ram_at_def ram_range_def range_at_def set_range_def get_phys_mem_range_def
      find_range_update split: if_splits)

lemma range_read_ram:
  assumes "ram_at i base M mem s" and "off + n \<le> M"
  shows "\<exists>s'. range_read env i off n s = Some (mem_bytes mem off n, s') \<and> ram_at i base M mem s' \<and> moved i s s'"
proof -
  obtain pr v where pr: "range_at (mem_map s) i = Some pr" "pr_vmm pr = Some v" "flat M v mem"
    using assms(1) by (auto simp: ram_at_def ram_range_def)
  obtain v' where v': "vmm_rd (ram_env env) v off n = Some (mem_bytes mem off n, v')" "flat M v' mem"
    using ram.read_law [OF pr(3) assms(2)] by blast
  then show ?thesis using pr(1,2) ram_at_update [OF assms(1) pr(1) v'(2)]
    by (auto simp: range_read_def vmm_rd_def moved_def)
qed

lemma range_write_ram:
  assumes "ram_at i base M mem s" and "off + length bs \<le> M"
  shows "\<exists>s'. range_write env i off bs s = Some s' \<and> ram_at i base M (mem_write mem off bs) s' \<and> moved i s s'"
proof -
  obtain pr v where pr: "range_at (mem_map s) i = Some pr" "pr_vmm pr = Some v" "flat M v mem"
    using assms(1) by (auto simp: ram_at_def ram_range_def)
  obtain v' where v': "vmm_wr (ram_env env) v off bs = Some v'" "flat M v' (mem_write mem off bs)"
    using ram.write_law [OF pr(3) assms(2)] by blast
  then show ?thesis using pr(1,2) ram_at_update [OF assms(1) pr(1) v'(2)]
    by (auto simp: range_write_def vmm_wr_def moved_def)
qed

text \<open>Addresses in the range.\<close>

lemma unat_address [simp]: "unat (ucast (a :: u32) :: u64) = unat a"
  using unsigned_less [where 'a = nat, of a] by (simp add: unsigned_ucast_eq take_bit_nat_eq_self)

lemma ram_atD:
  assumes "ram_at i base M mem s" and "base \<le> unat a" and "unat a < base + M"
  obtains pr where "get_phys_mem_range (mem_map s) (ucast (a :: u32)) = Some i"
    "range_at (mem_map s) i = Some pr" "pr_is_ram pr" "pr_dirty_bits pr = None"
    "ram_offset pr a = unat a - base" "unat (a - ucast (pr_addr pr)) = unat a - base"
proof -
  obtain pr where pr: "range_at (mem_map s) i = Some pr" "ram_range base M mem pr"
    using assms(1) by (auto simp: ram_at_def)
  have base: "unat (pr_addr pr) = base" and lim: "base + M \<le> 2 ^ 32" using pr(2) by (auto simp: ram_range_def)
  have le: "pr_addr pr \<le> ucast a" using assms(2) base by (simp add: word_le_nat_alt)
  have off: "ram_offset pr a = unat a - base"
  proof -
    have "unat a - base < size_limit" using assms(2,3) pr(2) by (auto simp: ram_range_def)
    then show ?thesis using le base by (simp add: ram_offset_def unat_sub)
  qed
  have small: "unat (pr_addr pr) < 2 ^ 32" using base assms(2,3) lim by linarith
  have "unat (ucast (pr_addr pr) :: u32) = base"
    using small base by (simp add: unsigned_ucast_eq take_bit_nat_eq_self)
  then have "unat (a - ucast (pr_addr pr)) = unat a - base"
    using assms(2) by (subst unat_sub) (simp_all add: word_le_nat_alt)
  then show ?thesis using that pr off assms by (auto simp: ram_at_def ram_range_def)
qed

text \<open>Accesses without translation.\<close>

definition bare :: "'z riscv_cpu_scheme \<Rightarrow> nat \<Rightarrow> bool" where
  "bare s access \<longleftrightarrow> cur_xlen s = 32 \<and> (effective_priv s access = PRV_M \<or> drop_bit 31 (satp s) = 0)"

lemma bare_get_phys_addr: "bare s access \<Longrightarrow> get_phys_addr env a access s = Some (Some a, s)"
  by (auto simp: bare_def get_phys_addr_def Let_def)

lemma bare_moved: "moved i s s' \<Longrightarrow> bare s' access = bare s access"
  by (auto simp: bare_def effective_priv_def moved_def)

lemma load_aligned_ram:
  assumes "ram_at i base M mem s" and "bare s ACCESS_READ" and "k \<le> 3"
    and "base \<le> unat a" and "unat a - base + 2 ^ k \<le> M"
  shows "\<exists>s'. target_read_aligned env pval a k s =
      Some (Some (le_word (mem_bytes mem (unat a - base) (2 ^ k))), s') \<and> ram_at i base M mem s' \<and> moved i s s'"
proof -
  have "unat a < base + M" using assms(4,5) zero_less_power [of "2::nat" k] by linarith
  then obtain pr where pr: "get_phys_mem_range (mem_map s) (ucast a) = Some i"
    "range_at (mem_map s) i = Some pr" "pr_is_ram pr" "ram_offset pr a = unat a - base"
    using ram_atD [OF assms(1,4)] by metis
  then show ?thesis using range_read_ram [OF assms(1,5), of env] assms(2,3)
    by (auto simp: target_read_aligned_def bare_get_phys_addr)
qed

lemma store_aligned_ram:
  assumes "ram_at i base M mem s" and "bare s ACCESS_WRITE" and "k \<le> 3"
    and "base \<le> unat a" and "unat a - base + 2 ^ k \<le> M"
  shows "\<exists>s'. target_write_aligned env a w k s = Some (Some (), s') \<and>
      ram_at i base M (mem_write mem (unat a - base) (le_bytes (2 ^ k) w)) s' \<and> moved i s s'"
proof -
  have "unat a < base + M" using assms(4,5) zero_less_power [of "2::nat" k] by linarith
  then obtain pr where pr: "get_phys_mem_range (mem_map s) (ucast a) = Some i"
    "range_at (mem_map s) i = Some pr" "pr_is_ram pr" "pr_dirty_bits pr = None"
    "ram_offset pr a = unat a - base"
    using ram_atD [OF assms(1,4)] by metis
  have same: "set_range (mem_map s) i pr = mem_map s"
    using pr(2) by (auto simp: set_range_def range_at_def split: if_splits)
  show ?thesis using pr same range_write_ram [OF assms(1), of "unat a - base" "le_bytes (2 ^ k) w" env] assms(2,3,5)
    by (auto simp: target_write_aligned_def bare_get_phys_addr phys_mem_set_dirty_bit_def)
qed

subsection \<open>Any alignment\<close>

lemma narrow_le_word:
  "k \<le> 3 \<Longrightarrow> narrow k (le_word (mem_bytes mem a (2 ^ k))) = le_word (mem_bytes mem a (2 ^ k))"
  by (rule bit_word_eqI)
    (auto simp: narrow_def bit_take_bit_iff bit_le_word div_less_iff_less_mult mult.commute)

lemma read_inner_ram:
  assumes "ram_at i base M mem s" and "bare s ACCESS_READ" and "k \<le> 3"
    and "base \<le> unat a" and "unat a - base + 2 ^ k \<le> M"
  shows "\<exists>s'. read_inner env a k s =
      Some (Some (le_word (mem_bytes mem (unat a - base) (2 ^ k))), s') \<and> ram_at i base M mem s' \<and> moved i s s'"
  using load_aligned_ram [OF assms, of env "uninit env s"] assms(3)
  by (auto simp: read_inner_def narrow_le_word)

lemma and_mask_unat: "unat (a AND (push_bit k 1 - 1)) = unat (a :: u32) mod 2 ^ k"
  by (metis mask_eq_exp_minus_1 push_bit_of_1 take_bit_eq_mask take_bit_eq_mod unsigned_take_bit_eq)

lemma below_aligned:
  assumes "unat a mod 2 ^ k = n"
  shows "unat (a - of_nat n :: u32) = unat a - n"
proof -
  have "n \<le> unat a" using assms by (metis mod_less_eq_dividend)
  moreover have "unat (of_nat n :: u32) = n"
    using calculation unsigned_less [where 'a = nat, of a] by (simp add: unsigned_of_nat take_bit_nat_eq_self)
  ultimately show ?thesis by (subst unat_sub) (simp_all add: word_le_nat_alt)
qed

lemma bit_le_mem:
  "bit (le_word (mem_bytes mem b W) :: 'a::len word) i \<longleftrightarrow>
     i < LENGTH('a) \<and> i div 8 < W \<and> bit (mem (b + i div 8)) (i mod 8)"
  by (auto simp: bit_le_word mem_bytes_def)

lemma take_bit_le_mem [simp]:
  "8 * W \<le> n \<Longrightarrow> take_bit n (le_word (mem_bytes mem b W) :: 'a::len word) = le_word (mem_bytes mem b W)"
  by (auto simp: bit_eq_iff bit_take_bit_iff bit_le_mem div_less_iff_less_mult)

text \<open>Two neighbouring words hold an unaligned one.\<close>

lemma split_word:
  assumes n: "0 < n" "n < W" and W: "W = 4 \<or> W = 8"
  shows "take_bit (8 * W) (drop_bit (n * 8) (le_word (mem_bytes mem b W) :: u64) OR
      push_bit (8 * W - n * 8) (le_word (mem_bytes mem (b + W) W))) = le_word (mem_bytes mem (b + n) W)"
proof (rule bit_word_eqI)
  fix i assume i: "i < LENGTH(64)"
  let ?l = "le_word (mem_bytes mem b W) :: u64" and ?h = "le_word (mem_bytes mem (b + W) W) :: u64"
  have "bit (le_word (mem_bytes mem (b + n) W) :: u64) i \<longleftrightarrow>
      i < 8 * W \<and> (bit ?l (i + n * 8) \<or> 8 * W - n * 8 \<le> i \<and> bit ?h (i - (8 * W - n * 8)))"
  proof (cases "i + n * 8 < 8 * W")
    case True
    then show ?thesis using i W n by (auto simp: bit_le_mem ac_simps)
  next
    case False
    then obtain j where j: "i = 8 * W - n * 8 + j" using n by (metis add_diff_inverse_nat less_diff_conv)
    then have e: "i + 8 * n = j + 8 * W" using n by auto
    have dm: "i div 8 + n = j div 8 + W" "i mod 8 = j mod 8"
      using arg_cong [OF e, of "\<lambda>x. x div 8"] arg_cong [OF e, of "\<lambda>x. x mod 8"] by simp_all
    have ad: "b + n + i div 8 = b + W + j div 8" using dm(1) by simp
    have lt: "i < 8 * W \<longleftrightarrow> i div 8 < W" "i < 8 * W \<Longrightarrow> j < 64 \<and> j div 8 < W"
      using e n W dm(1) by auto
    have "bit ?h j \<longleftrightarrow> j < 64 \<and> j div 8 < W \<and> bit (mem (b + n + i div 8)) (i mod 8)"
      unfolding bit_le_mem ad dm(2) by simp
    moreover have "\<not> bit ?l (i + n * 8)" using False W n by (auto simp: bit_le_mem)
    moreover have "8 * W - n * 8 \<le> i \<and> i - (8 * W - n * 8) = j" using j by simp
    ultimately show ?thesis using i lt unfolding bit_le_mem by auto
  qed
  then show "bit (take_bit (8 * W) (drop_bit (n * 8) ?l OR push_bit (8 * W - n * 8) ?h)) i =
      bit (le_word (mem_bytes mem (b + n) W) :: u64) i"
    using i by (auto simp: bit_take_bit_iff bit_or_iff bit_drop_bit_eq bit_push_bit_iff ac_simps)
qed

lemma unat_add_ram:
  "ram_at i base M mem s \<Longrightarrow> unat a + n < base + M \<Longrightarrow> unat (a + of_nat n :: u32) = unat a + n"
proof -
  assume "ram_at i base M mem s" and lt: "unat a + n < base + M"
  then have "base + M \<le> 2 ^ 32" by (auto simp: ram_at_def ram_range_def)
  then have "unat a + n < 2 ^ 32" using lt by linarith
  moreover have "unat (of_nat n :: u32) = n"
    using calculation by (simp add: unsigned_of_nat take_bit_nat_eq_self)
  ultimately show ?thesis by (subst unat_add_lem [THEN iffD1]) simp_all
qed

lemma read_two_ram:
  assumes "ram_at i base M mem s" and "bare s ACCESS_READ" and "k \<le> 3"
    and "base \<le> unat a" and "unat a - base + 2 ^ k \<le> M"
    and "base \<le> unat b" and "unat b - base + 2 ^ k \<le> M"
  shows "\<exists>s'. on_ok (read_inner env a k s) (\<lambda>v0 s. on_ok (read_inner env b k s) (\<lambda>v1 s. Some (Some (f v0 v1), s))) =
      Some (Some (f (le_word (mem_bytes mem (unat a - base) (2 ^ k)))
        (le_word (mem_bytes mem (unat b - base) (2 ^ k)))), s') \<and> ram_at i base M mem s' \<and> moved i s s'"
proof -
  obtain t where t: "read_inner env a k s = Some (Some (le_word (mem_bytes mem (unat a - base) (2 ^ k))), t)"
    "ram_at i base M mem t" "moved i s t"
    using read_inner_ram [OF assms(1-5)] by blast
  then have "bare t ACCESS_READ" using assms(2) by (simp add: bare_moved)
  then obtain u where "read_inner env b k t = Some (Some (le_word (mem_bytes mem (unat b - base) (2 ^ k))), u)"
    "ram_at i base M mem u" "moved i t u"
    using read_inner_ram [OF t(2) _ assms(3,6,7)] by blast
  then show ?thesis using t moved_trans [OF t(3)] by auto
qed

lemma aligned_room:
  fixes x base M W :: nat
  assumes "0 < W" and "W dvd base" and "W dvd M" and "base \<le> x" and "x - base + W \<le> M" and "x mod W \<noteq> 0"
  shows "base \<le> x - x mod W \<and> x - x mod W - base + 2 * W \<le> M"
proof -
  obtain b m where bm: "base = W * b" "M = W * m" using assms(2,3) by (auto elim!: dvdE)
  let ?q = "x div W" and ?r = "x mod W"
  have x: "x = W * ?q + ?r" by simp
  have r: "?r < W" "0 < ?r" using assms(1,6) by simp_all
  have "W * b < W * (?q + 1)" using assms(4) bm(1) x r(1) by (simp only: distrib_left mult_1_right)
  then have "b < ?q + 1" by (rule mult_less_cancel1 [THEN iffD1, THEN conjunct2])
  then have b: "W * b \<le> W * ?q" by (intro mult_le_mono2) simp
  have "W * (?q + 1) < W * (m + b)"
    using assms(5) bm x r b unfolding distrib_left by linarith
  then have "?q + 1 < m + b" by (rule mult_less_cancel1 [THEN iffD1, THEN conjunct2])
  then have "?q + 2 \<le> m + b" by simp
  then have "W * (?q + 2) \<le> W * (m + b)" by (rule mult_le_mono2)
  then show ?thesis using bm x b unfolding distrib_left by linarith
qed

lemma load_unaligned_half:
  assumes "ram_at i base M mem s" and "bare s ACCESS_READ" and "base \<le> unat a" and "unat a - base + 2 \<le> M"
    and "unat a mod 2 \<noteq> 0"
  shows "\<exists>s'. target_read_slow env pval a 1 s =
      Some (Some (le_word (mem_bytes mem (unat a - base) 2)), s') \<and> ram_at i base M mem s' \<and> moved i s s'"
proof -
  have b: "unat (a + 1) = unat a + 1" using unat_add_ram [OF assms(1), of a 1] assms(3,4) by simp
  have two: "le_word (mem_bytes mem o1 2) = (le_word (mem_bytes mem o1 1) OR push_bit 8 (le_word (mem_bytes mem (o1 + 1) 1)) :: u64)" for o1
    by (simp add: mem_bytes_def upt_rec)
  have "unat (a AND (push_bit 1 1 - 1)) \<noteq> 0" using assms(5) by (simp only: and_mask_unat power_one_right not_False_eq_True)
  then show ?thesis
    using read_two_ram [OF assms(1,2), of 0 a "a + 1" env "\<lambda>v0 v1. v0 OR push_bit 8 v1"] assms(3,4) b
      two [of "unat a - base"]
    by (simp add: target_read_slow_def Let_def Suc_diff_le)
qed

text \<open>The two aligned words around an unaligned one.\<close>

lemma word_pair:
  assumes "ram_at i base M mem s" and k: "k = 2 \<or> k = 3" and "8 dvd base" and "8 dvd M"
    and "base \<le> unat a" and "unat a - base + 2 ^ k \<le> M" and "unat (a :: u32) mod 2 ^ k = n" and "0 < n"
  shows "base \<le> unat (a - of_nat n)" and "unat (a - of_nat n) - base + 2 ^ k \<le> M"
    and "base \<le> unat (a - of_nat n + of_nat (2 ^ k))"
    and "unat (a - of_nat n + of_nat (2 ^ k)) - base + 2 ^ k \<le> M"
    and "unat (a - of_nat n + of_nat (2 ^ k)) - base = unat (a - of_nat n) - base + 2 ^ k"
    and "unat (a - of_nat n) - base + n = unat a - base"
proof -
  let ?W = "2 ^ k :: nat"
  have d: "?W dvd base" "?W dvd M" using assms(3,4) k by (auto intro: dvd_trans [of 4 8])
  have room: "base \<le> unat a - n" "unat a - n - base + 2 * ?W \<le> M"
    using aligned_room [OF _ d assms(5,6)] assms(7,8) by simp_all
  have a: "unat (a - of_nat n) = unat a - n" using assms(7) by (rule below_aligned)
  have W: "0 < ?W" by simp
  have "unat (a - of_nat n) + ?W < base + M" using a room W by linarith
  then have b: "unat (a - of_nat n + of_nat ?W) = unat a - n + ?W"
    using unat_add_ram [OF assms(1), of "a - of_nat n" ?W] a by linarith
  have n: "n \<le> unat a" using assms(7) by (metis mod_less_eq_dividend)
  show "base \<le> unat (a - of_nat n)" using a room by linarith
  show "unat (a - of_nat n) - base + ?W \<le> M" using a room by linarith
  show "base \<le> unat (a - of_nat n + of_nat ?W)" using b room by linarith
  show "unat (a - of_nat n + of_nat ?W) - base + ?W \<le> M" using b room by linarith
  show "unat (a - of_nat n + of_nat ?W) - base = unat (a - of_nat n) - base + ?W" using a b room by linarith
  show "unat (a - of_nat n) - base + n = unat a - base" using a room n by linarith
qed

lemma load_unaligned_word:
  assumes "ram_at i base M mem s" and "bare s ACCESS_READ" and "8 dvd base" and "8 dvd M"
    and "base \<le> unat a" and "unat a - base + 4 \<le> M" and "unat a mod 4 \<noteq> 0"
  shows "\<exists>s'. target_read_slow env pval a 2 s =
      Some (Some (le_word (mem_bytes mem (unat a - base) 4)), s') \<and> ram_at i base M mem s' \<and> moved i s s'"
proof -
  let ?n = "unat a mod 4" and ?o = "unat (a - of_nat (unat a mod 4)) - base"
  have n: "unat (a AND (push_bit 2 1 - 1)) = ?n" by (simp only: and_mask_unat) simp
  note pair = word_pair [OF assms(1) _ assms(3-5), of 2, simplified, OF assms(6) refl] 
  have w: "drop_bit (?n * 8) (le_word (mem_bytes mem ?o 4)) OR
      narrow 2 (push_bit (32 - ?n * 8) (le_word (mem_bytes mem (?o + 4) 4))) =
      (le_word (mem_bytes mem (?o + ?n) 4) :: u64)"
    using split_word [of ?n 4 mem ?o] assms(7)
    by (simp add: narrow_def take_bit_or take_bit_drop_bit)
  show ?thesis
    using read_two_ram [OF assms(1,2), of 2 "a - of_nat ?n" "a - of_nat ?n + 4" env
        "\<lambda>v0 v1. drop_bit (?n * 8) v0 OR narrow 2 (push_bit (32 - ?n * 8) v1)"] w pair assms(7)
    unfolding target_read_slow_def Let_def n by simp
qed

lemma load_unaligned_double:
  assumes "ram_at i base M mem s" and "bare s ACCESS_READ" and "8 dvd base" and "8 dvd M"
    and "base \<le> unat a" and "unat a - base + 8 \<le> M" and "unat a mod 8 \<noteq> 0"
  shows "\<exists>s'. target_read_slow env pval a 3 s =
      Some (Some (le_word (mem_bytes mem (unat a - base) 8)), s') \<and> ram_at i base M mem s' \<and> moved i s s'"
proof -
  let ?n = "unat a mod 8" and ?o = "unat (a - of_nat (unat a mod 8)) - base"
  have n: "unat (a AND (push_bit 3 1 - 1)) = ?n" by (simp only: and_mask_unat) simp
  note pair = word_pair [OF assms(1) _ assms(3-5), of 3, simplified, OF assms(6) refl] 
  have w: "drop_bit (?n * 8) (le_word (mem_bytes mem ?o 8)) OR
      push_bit (64 - ?n * 8) (le_word (mem_bytes mem (?o + 8) 8)) =
      (le_word (mem_bytes mem (?o + ?n) 8) :: u64)"
    using split_word [of ?n 8 mem ?o] assms(7) by (simp add: take_bit_word_eq_self)
  show ?thesis
    using read_two_ram [OF assms(1,2), of 3 "a - of_nat ?n" "a - of_nat ?n + 8" env
        "\<lambda>v0 v1. drop_bit (?n * 8) v0 OR push_bit (64 - ?n * 8) v1"] w pair assms(7)
    unfolding target_read_slow_def Let_def n by simp
qed

text \<open>A load at any address.\<close>

lemma load_ram:
  assumes "ram_at i base M mem s" and "bare s ACCESS_READ" and "k \<le> 3" and "8 dvd base" and "8 dvd M"
    and "base \<le> unat a" and "unat a - base + 2 ^ k \<le> M"
  shows "\<exists>s'. target_read_slow env pval a k s =
      Some (Some (le_word (mem_bytes mem (unat a - base) (2 ^ k))), s') \<and> ram_at i base M mem s' \<and> moved i s s'"
proof (cases "unat a mod 2 ^ k = 0")
  case True
  then have "unat (a AND (push_bit k 1 - 1)) = 0" by (simp only: and_mask_unat)
  then show ?thesis using load_aligned_ram [OF assms(1,2,3,6,7)]
    unfolding target_read_slow_def Let_def by simp
next
  case False
  then consider "k = 1" | "k = 2" | "k = 3" using assms(3) by (cases k) (auto, linarith)
  then show ?thesis
    using load_unaligned_half [OF assms(1,2,6)] load_unaligned_word [OF assms(1,2,4,5,6)]
      load_unaligned_double [OF assms(1,2,4,5,6)] False assms(7)
    by cases simp_all
qed

text \<open>A store at any address.\<close>

lemma write_bytes_ram:
  assumes "ram_at i base M mem s" and "bare s ACCESS_WRITE" and "base \<le> unat a"
    and "unat a - base + j + n \<le> M"
  shows "\<exists>s'. write_bytes env a w j n s = Some (Some (), s') \<and>
      ram_at i base M (mem_write mem (unat a - base + j) (le_bytes n (drop_bit (8 * j) w))) s' \<and> moved i s s'"
  using assms(1,2,4)
proof (induction n arbitrary: j s mem)
  case (Suc n)
  have b: "unat (a + of_nat j) = unat a + j"
    using unat_add_ram [OF Suc.prems(1), of a j] Suc.prems(3) assms(3) by linarith
  let ?w = "drop_bit (8 * j) w AND 0xff"
  have byte: "le_bytes (Suc 0) ?w = [ucast (drop_bit (8 * j) w)]"
  proof -
    have "?w = take_bit 8 (drop_bit (8 * j) w)" by (simp add: take_bit_eq_mask mask_eq_exp_minus_1)
    then show ?thesis by (auto simp: bit_eq_iff bit_unsigned_iff bit_take_bit_iff)
  qed
  have room: "Suc (unat a + j - base) \<le> M" using Suc.prems(3) assms(3) by linarith
  obtain t where t: "target_write_aligned env (a + of_nat j) ?w 0 s = Some (Some (), t)"
    "ram_at i base M (mem_write mem (unat a - base + j) [ucast (drop_bit (8 * j) w)]) t" "moved i s t"
    using store_aligned_ram [OF Suc.prems(1,2), of 0 "a + of_nat j" env ?w] b byte room Suc.prems(3) assms(3)
    by auto
  have bt: "bare t ACCESS_WRITE" using t(3) Suc.prems(2) by (simp add: bare_moved)
  have "\<exists>s'. write_bytes env a w (Suc j) n t = Some (Some (), s') \<and>
      ram_at i base M (mem_write (mem_write mem (unat a - base + j) [ucast (drop_bit (8 * j) w)])
        (unat a - base + Suc j) (le_bytes n (drop_bit (8 * Suc j) w))) s' \<and> moved i t s'"
    using Suc.IH [OF t(2) bt, of "Suc j"] Suc.prems(3) by simp
  moreover have "mem_write (mem_write mem (unat a - base + j) [ucast (drop_bit (8 * j) w)])
        (unat a - base + Suc j) (le_bytes n (drop_bit (8 * Suc j) w)) =
      mem_write mem (unat a - base + j) (le_bytes (Suc n) (drop_bit (8 * j) w))"
    using mem_write_append [of mem "unat a - base + j" "[ucast (drop_bit (8 * j) w)]" "le_bytes n (drop_bit (8 * Suc j) w)"]
    by (simp add: drop_bit_drop_bit add.commute)
  ultimately show ?case using t moved_trans [OF t(3)] by auto
qed (auto)

lemma store_ram:
  assumes "ram_at i base M mem s" and "bare s ACCESS_WRITE" and "k \<le> 3"
    and "base \<le> unat a" and "unat a - base + 2 ^ k \<le> M"
  shows "\<exists>s'. target_write_slow env a w k s = Some (Some (), s') \<and>
      ram_at i base M (mem_write mem (unat a - base) (le_bytes (2 ^ k) w)) s' \<and> moved i s s'"
  using store_aligned_ram [OF assms, of env w] write_bytes_ram [OF assms(1,2,4), of 0 "2 ^ k" env w] assms(5)
  by (simp add: target_write_slow_def)

subsection \<open>Properties\<close>

text \<open>A CPU with one page of RAM.\<close>

definition one_range :: "vmm \<Rightarrow> phys_mem_map" where
  "one_range v = \<lparr>phys_mem_range = [range_zero\<lparr>pr_is_ram := True, pr_addr := 0x80000000,
     pr_org_size := 4096, pr_size := 4096, pr_vmm := Some v\<rparr>]\<rparr>"

lemma ram_at_one_range:
  assumes "flat 4096 v mem" and "mem_map s = one_range v"
  shows "ram_at 0 0x80000000 4096 mem s"
  using assms by (simp add: ram_at_def ram_range_def one_range_def range_at_def
      get_phys_mem_range_def range_zero_def size_limit_def word_le_nat_alt word_less_nat_alt)

lemma one_range_vmm: "\<exists>v. flat 4096 v (\<lambda>_. 0)"
  using vmm_create_flat [of 2 1 "''swap''" 4096] by (force simp: int_limit_def size_limit_def)

lemma ram_sample:
  "\<exists>s :: riscv_cpu. ram_at 0 0x80000000 4096 (\<lambda>_. 0) s \<and> bare s ACCESS_READ \<and> bare s ACCESS_WRITE"
proof -
  obtain v where v: "flat 4096 v (\<lambda>_. 0)" using one_range_vmm by blast
  let ?s = "riscv_cpu_init (one_range v) () :: riscv_cpu"
  have "ram_at 0 0x80000000 4096 (\<lambda>_. 0) ?s"
    using v by (rule ram_at_one_range) (simp add: riscv_cpu_init_def Let_def)
  then show ?thesis
    by (intro exI [of _ ?s]) (simp add: bare_def effective_priv_def riscv_cpu_init_def Let_def
        get_base_from_xlen_def)
qed

text \<open>C13: A load from RAM without translation, of 1, 2, 4 or 8 bytes at any alignment, gives the
  bytes of the memory as a little-endian word and changes nothing but the caches of the range.\<close>

theorem load_correct:
  assumes "ram_at i base M mem s" and "bare s ACCESS_READ" and "k \<le> 3" and "8 dvd base" and "8 dvd M"
    and "base \<le> unat a" and "unat a - base + 2 ^ k \<le> M"
  shows "\<exists>s'. target_read_slow env pval a k s =
      Some (Some (le_word (mem_bytes mem (unat a - base) (2 ^ k))), s') \<and> ram_at i base M mem s' \<and> moved i s s'"
  using assms by (rule load_ram)

lemma load_correct_witness:
  "\<exists>s s'. target_read_slow sample_cpu_env 7 0x80000003 2 s = Some (Some 0, s') \<and> ram_at 0 0x80000000 4096 (\<lambda>_. 0) s'"
proof -
  obtain s :: riscv_cpu where s: "ram_at 0 0x80000000 4096 (\<lambda>_. 0) s" "bare s ACCESS_READ"
    using ram_sample by blast
  show ?thesis using load_correct [OF s, of 2 "0x80000003" sample_cpu_env 7]
    by (auto simp: mem_bytes_def upt_rec)
qed

text \<open>C14: A store of 1, 2, 4 or 8 bytes to RAM without translation, at any alignment, changes
  exactly the addressed bytes: to those of the value, in little-endian order.\<close>

theorem store_correct:
  assumes "ram_at i base M mem s" and "bare s ACCESS_WRITE" and "k \<le> 3"
    and "base \<le> unat a" and "unat a - base + 2 ^ k \<le> M"
  shows "\<exists>s'. target_write_slow env a w k s = Some (Some (), s') \<and>
      ram_at i base M (mem_write mem (unat a - base) (le_bytes (2 ^ k) w)) s' \<and> moved i s s'"
  using assms by (rule store_ram)

lemma store_correct_witness:
  "\<exists>s s'. target_write_slow sample_cpu_env 0x80000003 0x1234 1 s = Some (Some (), s') \<and>
    ram_at 0 0x80000000 4096 (mem_write (\<lambda>_. 0) 3 [0x34, 0x12]) s'"
proof -
  obtain s :: riscv_cpu where s: "ram_at 0 0x80000000 4096 (\<lambda>_. 0) s" "bare s ACCESS_WRITE"
    using ram_sample by blast
  have "le_bytes (2 ^ 1) (0x1234 :: u64) = [0x34, 0x12]" by code_simp
  then show ?thesis using store_correct [OF s, of 1 "0x80000003" sample_cpu_env "0x1234"] by auto
qed



end
