(* ===== verification/BootRun.thy ===== *)
theory BootRun
  imports Boot RamAccess
begin

section \<open>From reset to the firmware\<close>

text \<open>
  The reset code that the machine writes to the low RAM, and its execution: it ends at the start of
  RAM with the hart number and the address of the device tree in the registers where the firmware
  expects them.
\<close>

lemma fetch_word_ram:
  assumes "ram_at i base M mem s" and "base \<le> unat a" and "unat a - base + 4 \<le> M"
  shows "\<exists>s'. get_vmm_insn32 env a s = Some (le_word (mem_bytes mem (unat a - base) 4), s') \<and>
    ram_at i base M mem s' \<and> moved i s s'"
proof -
  have "unat a < base + M" using assms(2,3) by linarith
  then obtain pr where pr: "get_phys_mem_range (mem_map s) (ucast a) = Some i"
    "range_at (mem_map s) i = Some pr" "ram_offset pr a = unat a - base"
    using ram_atD [OF assms(1,2)] by metis
  then show ?thesis using range_read_ram [OF assms(1,3), of env] by (auto simp: get_vmm_insn32_def)
qed

subsection \<open>The five instructions\<close>

lemma reset_code_words: "reset_code = [0x7ffff297, 0x597, 0x3c58593, 0xf1402573, 0x28067]"
  by (simp add: reset_code_def FDT_ADDR_def)

lemma exec_auipc_t0: "exec_insn env 0x7ffff297 a n s = Some (Next_insn 4, put_reg 5 (a + 0x7ffff000) s)"
  by (simp add: exec_insn_def insn_rd_def put_rd_def Let_def)

lemma exec_auipc_a1: "exec_insn env 0x597 a n s = Some (Next_insn 4, put_reg 11 a s)"
  by (simp add: exec_insn_def insn_rd_def put_rd_def Let_def)

lemma exec_addi_a1: "exec_insn env 0x3c58593 a n s = Some (Next_insn 4, put_reg 11 (reg s ! 11 + 0x3c) s)"
  by (simp add: exec_insn_def exec_op_imm_def op_imm_def insn_rd_def insn_rs1_def put_rd_def Let_def)

lemma exec_csrr_a0:
  "priv s = PRV_M \<Longrightarrow> exec_insn env 0xf1402573 a n s =
     Some (Next_insn 4, put_reg 10 (mhartid s) (s\<lparr>insn_counter := n\<rparr>))"
  by (simp add: exec_insn_def exec_system_def exec_csr_def csr_read_def csr_access_denied_def prv_defs
      after_csr_write_def insn_rd_def insn_rs1_def put_rd_def Let_def)

lemma exec_jr_t0:
  "exec_insn env 0x28067 a n s = Some (Jump_insn, s\<lparr>pc := reg s ! 5 AND NOT 1\<rparr>)"
  by (simp add: exec_insn_def exec_jalr_def insn_rd_def insn_rs1_def put_rd_def Let_def)

subsection \<open>Their execution\<close>

definition reset_bytes :: "u8 list" where
  "reset_bytes = concat (map (le_bytes 4) reset_code)"

lemma reset_word:
  assumes "mem_bytes mem 0x1000 20 = reset_bytes" and "k < 5"
  shows "le_word (mem_bytes mem (0x1000 + 4 * k) 4) = reset_code ! k"
proof -
  have b: "mem_bytes mem (0x1000 + 4 * k) 4 = take 4 (drop (4 * k) reset_bytes)"
    using assms(2) unfolding assms(1) [symmetric]
    by (intro nth_equalityI) (auto simp: mem_bytes_def add.assoc)
  have "take 4 (drop (4 * k) reset_bytes) = le_bytes 4 (reset_code ! k)"
  proof -
    have "k = 0 \<or> k = 1 \<or> k = 2 \<or> k = 3 \<or> k = 4" using assms(2) by arith
    then show ?thesis by (elim disjE) (simp_all add: reset_bytes_def reset_code_words)
  qed
  then show ?thesis using b by (simp add: le_word_le_bytes take_bit_word_eq_self)
qed

text \<open>The machine-mode states on the way, with the registers \<open>rs\<close>.\<close>

definition booting :: "nat \<Rightarrow> nat \<Rightarrow> (nat \<Rightarrow> u8) \<Rightarrow> u32 \<Rightarrow> u32 list \<Rightarrow> 'z riscv_cpu_scheme \<Rightarrow> bool" where
  "booting i M mem hart rs s \<longleftrightarrow> ram_at i 0 M mem s \<and> priv s = PRV_M \<and> cur_xlen s = 32 \<and> mhartid s = hart \<and> reg s = rs"

lemma booting_moved: "booting i M mem hart rs s \<Longrightarrow> ram_at i 0 M mem t \<Longrightarrow> moved i s t \<Longrightarrow> booting i M mem hart rs t"
  by (auto simp: booting_def moved_def)

lemma booting_put [simp]:
  "booting i M mem hart rs s \<Longrightarrow> booting i M mem hart (rs[r := v]) (put_reg r v s)"
  "booting i M mem hart rs s \<Longrightarrow> booting i M mem hart rs (s\<lparr>insn_counter := n\<rparr>)"
  "booting i M mem hart rs s \<Longrightarrow> booting i M mem hart rs (s\<lparr>pc := a\<rparr>)"
  by (simp_all add: booting_def put_reg_def ram_at_def)

text \<open>A round inside the block of the reset code.\<close>

definition reset_ctx :: "nat \<Rightarrow> int \<Rightarrow> code_ctx" where
  "reset_ctx k n = \<lparr>code_ptr = 0x1000 + 4 * of_nat k, code_end = 0x1ffe, code_to_pc_addend = 0, n_cycles = n\<rparr>"

lemma fetch_reset:
  assumes "booting i M mem hart rs s" and "mem_bytes mem 0x1000 20 = reset_bytes" and "k < 5" and "0x1014 \<le> M"
  shows "\<exists>t. get_vmm_insn32 env (0x1000 + 4 * of_nat k) s = Some (reset_code ! k, t) \<and> booting i M mem hart rs t"
proof -
  have k: "k = 0 \<or> k = 1 \<or> k = 2 \<or> k = 3 \<or> k = 4" using assms(3) by arith
  then have a: "unat (0x1000 + 4 * of_nat k :: u32) = 0x1000 + 4 * k" by auto
  obtain t where "get_vmm_insn32 env (0x1000 + 4 * of_nat k) s = Some (le_word (mem_bytes mem (0x1000 + 4 * k) 4), t)"
    "ram_at i 0 M mem t" "moved i s t"
    using fetch_word_ram [of i 0 M mem s "0x1000 + 4 * of_nat k" env] assms(1,3,4) a by (auto simp: booting_def)
  then show ?thesis using reset_word [OF assms(2,3)] booting_moved [OF assms(1)] by auto
qed

lemma reset_round:
  assumes "booting i M mem hart rs s" and "mem_bytes mem 0x1000 20 = reset_bytes" and "k < 5" and "0x1014 \<le> M"
    and "\<And>t. booting i M mem hart rs t \<Longrightarrow>
      \<exists>u. exec_insn env (reset_code ! k) (0x1000 + 4 * of_nat k) (addend - word_of_int n) t = Some (Next_insn 4, u) \<and>
        booting i M mem hart rs' u"
  shows "\<exists>u. interp_round env addend (reset_ctx k (n + 1)) s = Some (Inl (reset_ctx (Suc k) n, u)) \<and> booting i M mem hart rs' u"
proof -
  obtain t where t: "get_vmm_insn32 env (0x1000 + 4 * of_nat k) s = Some (reset_code ! k, t)" "booting i M mem hart rs t"
    using fetch_reset [OF assms(1-4)] by blast
  obtain u where u: "exec_insn env (reset_code ! k) (0x1000 + 4 * of_nat k) (addend - word_of_int n) t = Some (Next_insn 4, u)"
    "booting i M mem hart rs' u" using assms(5) [OF t(2)] by blast
  have k: "k = 0 \<or> k = 1 \<or> k = 2 \<or> k = 3 \<or> k = 4" using assms(3) by arith
  then have "\<not> (0x1000 + 4 * of_nat k :: u32) \<ge> 0x1ffe" by auto
  then show ?thesis using t u
    by (simp add: interp_round_def fetch_insn_def reset_ctx_def GET_PC_def GET_INSN_COUNTER_def ac_simps)
qed

lemma first_round:
  assumes "booting i M mem hart rs s" and "mem_bytes mem 0x1000 20 = reset_bytes" and "0x1014 \<le> M"
    and "mip s AND mie s = 0" and "0 < n"
  shows "\<exists>u. interp_round env addend \<lparr>code_ptr = 0, code_end = 0, code_to_pc_addend = 0x1000, n_cycles = n + 1\<rparr> s =
      Some (Inl (reset_ctx 1 n, u)) \<and> booting i M mem hart (rs[5 := 0x80000000]) u"
proof -
  let ?s = "s\<lparr>pc := 0x1000\<rparr>"
  have b: "booting i M mem hart rs ?s" using assms(1) by simp
  then have bare: "get_phys_addr env 0x1000 ACCESS_CODE ?s = Some (Some 0x1000, ?s)"
    by (intro bare_get_phys_addr) (simp add: bare_def booting_def effective_priv_def)
  obtain t where t: "get_vmm_insn32 env 0x1000 ?s = Some (0x7ffff297, t)" "booting i M mem hart rs t"
    using fetch_reset [OF b assms(2) _ assms(3), of 0 env] by (auto simp: reset_code_words)
  have "booting i M mem hart (rs[5 := 0x80000000]) (put_reg 5 0x80000000 t)" using t(2) by simp
  then show ?thesis using t(1) bare assms(4,5)
    by (simp add: interp_round_def fetch_insn_def fetch_block_def target_read_insn_slow_vmm_def GET_PC_def
        PG_MASK_def exec_auipc_t0 reset_ctx_def Let_def)
qed

lemma loop_next: "interp_round env a c s = Some (Inl (c', s')) \<Longrightarrow> interp_loop env a c s = interp_loop env a c' s'"
  by (subst interp_loop.simps) simp

lemma loop_last: "interp_round env a c s = Some (Inr s') \<Longrightarrow> interp_loop env a c s = Some s'"
  by (subst interp_loop.simps) simp

lemma boot_rounds:
  assumes s: "booting i M mem hart rs s" and code: "mem_bytes mem 0x1000 20 = reset_bytes" and M: "0x1014 \<le> M"
    and irq: "mip s AND mie s = 0" and n: "0 < n" "n \<le> 5" and rs: "length rs = 32"
  shows "\<exists>t. interp_loop env addend \<lparr>code_ptr = 0, code_end = 0, code_to_pc_addend = 0x1000, n_cycles = n + 1\<rparr> s =
      Some (t\<lparr>pc := 0x80000000, insn_counter := addend - word_of_int (n - 5)\<rparr>) \<and>
    booting i M mem hart (rs[5 := 0x80000000, 11 := 0x1040, 10 := hart]) t"
proof -
  let ?rs1 = "rs[5 := 0x80000000]" and ?rs2 = "rs[5 := 0x80000000, 11 := 0x1004]"
  let ?rs3 = "rs[5 := 0x80000000, 11 := 0x1040]" and ?rs4 = "rs[5 := 0x80000000, 11 := 0x1040, 10 := hart]"
  obtain s1 where s1: "interp_round env addend \<lparr>code_ptr = 0, code_end = 0, code_to_pc_addend = 0x1000, n_cycles = n + 1\<rparr> s =
      Some (Inl (reset_ctx 1 n, s1))" "booting i M mem hart ?rs1 s1"
    using first_round [OF s code M irq n(1)] by blast
  obtain s2 where s2: "interp_round env addend (reset_ctx 1 n) s1 = Some (Inl (reset_ctx 2 (n - 1), s2))"
    "booting i M mem hart ?rs2 s2"
    using reset_round [OF s1(2) code _ M, of 1 env addend "n - 1" ?rs2]
    by (auto simp: reset_code_words exec_auipc_a1 numeral_2_eq_2)
  obtain s3 where s3: "interp_round env addend (reset_ctx 2 (n - 1)) s2 = Some (Inl (reset_ctx 3 (n - 2), s3))"
    "booting i M mem hart ?rs3 s3"
  proof -
    have "\<exists>u. exec_insn env (reset_code ! 2) (0x1000 + 4 * of_nat 2) (addend - word_of_int (n - 2)) t = Some (Next_insn 4, u) \<and>
        booting i M mem hart ?rs3 u" if "booting i M mem hart ?rs2 t" for t
      using that rs booting_put(1) [OF that, of 11 "0x1040"]
      by (simp add: reset_code_words exec_addi_a1 booting_def)
    then show thesis using that reset_round [OF s2(2) code _ M, of 2 env addend "n - 2" ?rs3] by force
  qed
  obtain s4 where s4: "interp_round env addend (reset_ctx 3 (n - 2)) s3 = Some (Inl (reset_ctx 4 (n - 3), s4))"
    "booting i M mem hart ?rs4 s4"
  proof -
    have "\<exists>u. exec_insn env (reset_code ! 3) (0x1000 + 4 * of_nat 3) (addend - word_of_int (n - 3)) t = Some (Next_insn 4, u) \<and>
        booting i M mem hart ?rs4 u" if "booting i M mem hart ?rs3 t" for t
      using that booting_put(1) [OF booting_put(2) [OF that], of 10 hart]
      by (simp add: reset_code_words exec_csrr_a0 booting_def)
    then show thesis using that reset_round [OF s3(2) code _ M, of 3 env addend "n - 3" ?rs4] by force
  qed
  obtain t where t: "get_vmm_insn32 env (0x1000 + 4 * of_nat 4) s4 = Some (0x28067, t)" "booting i M mem hart ?rs4 t"
    using fetch_reset [OF s4(2) code _ M, of 4 env] by (auto simp: reset_code_words)
  let ?c = "\<lparr>code_ptr = 0, code_end = 0, code_to_pc_addend = 0x80000000, n_cycles = n - 4\<rparr>"
  let ?t = "t\<lparr>pc := 0x80000000\<rparr>"
  have "reg t ! 5 = 0x80000000" using t(2) rs by (simp add: booting_def)
  then have s5: "interp_round env addend (reset_ctx 4 (n - 3)) s4 = Some (Inl (?c, ?t))"
    using t(1) by (simp add: interp_round_def fetch_insn_def reset_ctx_def exec_jr_t0)
  have s6: "interp_round env addend ?c ?t = Some (Inr (?t\<lparr>insn_counter := addend - word_of_int (n - 5)\<rparr>))"
    using n(2) by (simp add: interp_round_def fetch_insn_def GET_PC_def the_end_def GET_INSN_COUNTER_def Let_def)
  have "interp_loop env addend \<lparr>code_ptr = 0, code_end = 0, code_to_pc_addend = 0x1000, n_cycles = n + 1\<rparr> s =
      Some (?t\<lparr>insn_counter := addend - word_of_int (n - 5)\<rparr>)"
    using loop_next [OF s1(1)] loop_next [OF s2(1)] loop_next [OF s3(1)] loop_next [OF s4(1)] loop_next [OF s5]
      loop_last [OF s6] by simp
  then show ?thesis using t(2) by auto
qed

text \<open>A CPU that has only the low RAM, with the reset code in it.\<close>

definition low_range :: "vmm \<Rightarrow> phys_mem_map" where
  "low_range v = \<lparr>phys_mem_range = [range_zero\<lparr>pr_is_ram := True, pr_addr := 0, pr_org_size := 0x10000,
     pr_size := 0x10000, pr_vmm := Some v\<rparr>]\<rparr>"

lemma boot_sample:
  "\<exists>v mem. ram_at 0 0 0x10000 mem (riscv_cpu_init (low_range v) () :: riscv_cpu) \<and> mem_bytes mem 0x1000 20 = reset_bytes"
proof -
  obtain v where v: "flat 0x10000 v (\<lambda>_. 0)"
    using vmm_create_flat [of 2 1 "''swap''" "0x10000"] by (force simp: int_limit_def size_limit_def)
  have len: "length reset_bytes = 20" by (simp add: reset_bytes_def reset_code_words)
  let ?mem = "mem_write (\<lambda>_. 0) 0x1000 reset_bytes"
  obtain v' where v': "flat 0x10000 v' ?mem"
    using vmm_write_flat [OF v, of "0x1000" 20 reset_bytes sample_env] len by auto
  then have "ram_at 0 0 0x10000 ?mem (riscv_cpu_init (low_range v') () :: riscv_cpu)"
    by (simp add: ram_at_def ram_range_def low_range_def range_at_def riscv_cpu_init_def
        get_phys_mem_range_def range_zero_def size_limit_def word_le_nat_alt word_less_nat_alt Let_def)
  moreover have "mem_bytes ?mem 0x1000 20 = reset_bytes"
    using mem_bytes_write_same [of "\<lambda>_. 0" "0x1000" reset_bytes] len by simp
  ultimately show ?thesis by blast
qed

subsection \<open>Property\<close>



end
