(* ===== verification/CpuFrame.thy ===== *)
theory CpuFrame
  imports RiscvMachine
begin

section \<open>What instructions leave alone\<close>

text \<open>
  Two views of the CPU state: \<open>core\<close> is all of it except what a memory access can change (the
  memory, the interrupt lines and the power-down flag through a device, the pending exception), and
  \<open>privileged\<close> is the part of the core that user code must not change. The locale
  \<open>quiet_devices\<close> is what the CPU expects of its devices: that they leave the core alone. Inside
  it, every memory access keeps the core; the instructions follow.
\<close>

named_theorems frame_defs \<open>definitions unfolded in frame proofs\<close>

definition core :: "'z riscv_cpu_scheme \<Rightarrow> riscv_cpu" where
  "core s = riscv_cpu.truncate (s\<lparr>mip := 0, power_down_flag := False, pending_exception := 0,
     pending_tval := 0, mem_map := phys_mem_map_init\<rparr>)"

definition privileged :: "'z riscv_cpu_scheme \<Rightarrow> riscv_cpu" where
  "privileged s = core (s\<lparr>pc := 0, reg := [], fp_reg := [], fflags := 0, frm := 0, fs := 0,
     insn_counter := 0, load_res := 0\<rparr>)"

lemma core_eqD:
  assumes "core s = core t"
  shows "pc s = pc t" "reg s = reg t" "fp_reg s = fp_reg t" "fflags s = fflags t" "frm s = frm t"
    "cur_xlen s = cur_xlen t" "priv s = priv t" "fs s = fs t" "mxl s = mxl t"
    "insn_counter s = insn_counter t" "mstatus s = mstatus t" "mtvec s = mtvec t"
    "mscratch s = mscratch t" "mepc s = mepc t" "mcause s = mcause t" "mtval s = mtval t"
    "mhartid s = mhartid t" "misa s = misa t" "mie s = mie t" "medeleg s = medeleg t"
    "mideleg s = mideleg t" "mcounteren s = mcounteren t" "stvec s = stvec t"
    "sscratch s = sscratch t" "sepc s = sepc t" "scause s = scause t" "stval s = stval t"
    "satp s = satp t" "scounteren s = scounteren t" "load_res s = load_res t"
  using assms by (simp_all add: core_def riscv_cpu.truncate_def)

lemma core_simps [simp]:
  "core (s\<lparr>mip := a\<rparr>) = core s"
  "core (s\<lparr>power_down_flag := b\<rparr>) = core s"
  "core (s\<lparr>pending_exception := i\<rparr>) = core s"
  "core (s\<lparr>pending_tval := a\<rparr>) = core s"
  "core (s\<lparr>mem_map := m\<rparr>) = core s"
  by (simp_all add: core_def riscv_cpu.truncate_def)

lemma privileged_core: "core s = core t \<Longrightarrow> privileged s = privileged t"
  by (simp add: privileged_def core_def riscv_cpu.truncate_def)

lemma privileged_simps [simp]:
  "privileged (s\<lparr>mip := a\<rparr>) = privileged s"
  "privileged (s\<lparr>power_down_flag := b\<rparr>) = privileged s"
  "privileged (s\<lparr>pending_exception := i\<rparr>) = privileged s"
  "privileged (s\<lparr>pending_tval := a\<rparr>) = privileged s"
  "privileged (s\<lparr>mem_map := m\<rparr>) = privileged s"
  "privileged (s\<lparr>pc := a\<rparr>) = privileged s"
  "privileged (s\<lparr>reg := rs\<rparr>) = privileged s"
  "privileged (s\<lparr>fp_reg := xs\<rparr>) = privileged s"
  "privileged (s\<lparr>fflags := a\<rparr>) = privileged s"
  "privileged (s\<lparr>frm := q\<rparr>) = privileged s"
  "privileged (s\<lparr>fs := q\<rparr>) = privileged s"
  "privileged (s\<lparr>insn_counter := n\<rparr>) = privileged s"
  "privileged (s\<lparr>load_res := a\<rparr>) = privileged s"
  by (simp_all add: privileged_def core_def riscv_cpu.truncate_def)

lemma privileged_put [simp]:
  "privileged (put_reg r v s) = privileged s"
  "privileged (put_rd r v s) = privileged s"
  "privileged (put_fp r x s) = privileged s"
  by (simp_all add: put_reg_def put_rd_def put_fp_def)

lemma range_read_core: "range_read env i off n s = Some (bs, s') \<Longrightarrow> core s' = core s"
  by (auto simp: range_read_def split: bind_splits)

lemma range_write_core: "range_write env i off bs s = Some s' \<Longrightarrow> core s' = core s"
  by (auto simp: range_write_def split: bind_splits)

lemma phys_read_core: "phys_read_u32 env a s = Some (v, s') \<Longrightarrow> core s' = core s"
  by (auto simp: phys_read_u32_def split: bind_splits option.splits if_splits dest: range_read_core)

lemma phys_write_core: "phys_write_u32 env a v s = Some s' \<Longrightarrow> core s' = core s"
  by (auto simp: phys_write_u32_def split: bind_splits option.splits if_splits dest: range_write_core)

lemma page_walk_core:
  "page_walk env prv vaddr access pte_addr n s = Some (r, s') \<Longrightarrow> core s' = core s"
proof (induction n arbitrary: pte_addr s)
  case (Suc n)
  obtain pte t where pte: "phys_read_u32 env (pte_addr + push_bit 2 (drop_bit (PG_SHIFT + 10 * n) vaddr AND 0x3ff)) s = Some (pte, t)"
    using Suc.prems by (auto simp: Let_def split: bind_splits)
  then have "core t = core s" by (rule phys_read_core)
  then show ?case using Suc.prems pte
    by (auto simp: Let_def split: if_splits bind_splits dest: phys_write_core Suc.IH)
qed simp

lemma get_phys_addr_core: "get_phys_addr env vaddr access s = Some (r, s') \<Longrightarrow> core s' = core s"
  by (auto simp: get_phys_addr_def Let_def split: if_splits dest: page_walk_core)

lemma get_vmm_insn32_core: "get_vmm_insn32 env ptr s = Some (v, s') \<Longrightarrow> core s' = core s"
  by (auto simp: get_vmm_insn32_def split: bind_splits option.splits dest: range_read_core)

lemma target_read_insn_core:
  "target_read_insn_slow_vmm env addr s = Some (r, s') \<Longrightarrow> core s' = core s"
  by (auto simp: target_read_insn_slow_vmm_def split: bind_splits option.splits dest!: get_phys_addr_core)

subsection \<open>The interface to the devices\<close>

locale quiet_devices =
  fixes env :: "'z riscv_cpu_scheme cpu_env"
  assumes read_core: "dev_read env d off n s = Some (v, s') \<Longrightarrow> core s' = core s"
    and write_core: "dev_write env d off v n s = Some s' \<Longrightarrow> core s' = core s"
begin

lemma device_read_core: "device_read env pr off n s = Some (v, s') \<Longrightarrow> core s' = core s"
  by (auto simp: device_read_def split: if_splits bind_splits dest!: read_core)

lemma device_write_core: "device_write env pr off v n s = Some s' \<Longrightarrow> core s' = core s"
  by (auto simp: device_write_def split: if_splits bind_splits dest!: write_core)

lemma target_read_aligned_core:
  assumes "target_read_aligned env pval addr n s = Some (r, s')"
  shows "core s' = core s"
proof -
  obtain p t where p: "get_phys_addr env addr ACCESS_READ s = Some (p, t)"
    using assms by (auto simp: target_read_aligned_def split: bind_splits)
  then show ?thesis using assms get_phys_addr_core [OF p]
    by (auto simp: target_read_aligned_def split: bind_splits option.splits if_splits
        dest!: range_read_core device_read_core)
qed

lemma target_write_aligned_core:
  assumes "target_write_aligned env addr v n s = Some (r, s')"
  shows "core s' = core s"
proof -
  obtain p t where p: "get_phys_addr env addr ACCESS_WRITE s = Some (p, t)"
    using assms by (auto simp: target_write_aligned_def split: bind_splits)
  then show ?thesis using assms get_phys_addr_core [OF p]
    by (auto simp: target_write_aligned_def split: bind_splits option.splits if_splits
        dest!: range_write_core device_write_core)
qed

lemma on_ok_core:
  assumes "on_ok r f = Some (x, s')" and "\<And>y t. r = Some (y, t) \<Longrightarrow> core t = core s"
    and "\<And>a t. f a t = Some (x, s') \<Longrightarrow> core s' = core t"
  shows "core s' = core s"
  using assms by (auto simp: on_ok_def split: option.splits prod.splits)

lemma read_inner_core: "read_inner env addr n s = Some (r, s') \<Longrightarrow> core s' = core s"
  unfolding read_inner_def by (erule on_ok_core) (auto dest: target_read_aligned_core)

lemma target_read_slow_core:
  assumes "target_read_slow env pval addr n s = Some (r, s')"
  shows "core s' = core s"
proof -
  have two: "core s' = core s"
    if "on_ok (read_inner env a m s) (\<lambda>v0 t. on_ok (read_inner env b m t) (\<lambda>v1 u. Some (Some (g v0 v1), u))) = Some (r, s')"
    for a b m g
    using that by (rule on_ok_core) (auto elim!: on_ok_core dest: read_inner_core)
  show ?thesis using assms unfolding target_read_slow_def Let_def
    by (auto split: if_splits dest: two target_read_aligned_core)
qed

lemma write_bytes_core: "write_bytes env addr v i n s = Some (r, s') \<Longrightarrow> core s' = core s"
proof (induction n arbitrary: i s)
  case (Suc n)
  then show ?case by (auto elim!: on_ok_core dest: target_write_aligned_core)
qed simp

lemma target_write_slow_core: "target_write_slow env addr v n s = Some (r, s') \<Longrightarrow> core s' = core s"
  by (auto simp: target_write_slow_def split: if_splits dest: write_bytes_core target_write_aligned_core)

lemma target_read_core:
  "target_read_u8 env addr s = Some (r8, s') \<Longrightarrow> core s' = core s"
  "target_read_u16 env addr s = Some (r16, s') \<Longrightarrow> core s' = core s"
  "target_read_u32 env addr s = Some (r32, s') \<Longrightarrow> core s' = core s"
  "target_read_u64 env addr s = Some (r64, s') \<Longrightarrow> core s' = core s"
  unfolding target_read_u8_def target_read_u16_def target_read_u32_def target_read_u64_def
  by (auto elim!: on_ok_core dest: target_read_slow_core)

lemma target_write_core:
  "target_write_u8 env addr v8 s = Some (r, s') \<Longrightarrow> core s' = core s"
  "target_write_u16 env addr v16 s = Some (r, s') \<Longrightarrow> core s' = core s"
  "target_write_u32 env addr v32 s = Some (r, s') \<Longrightarrow> core s' = core s"
  "target_write_u64 env addr v64 s = Some (r, s') \<Longrightarrow> core s' = core s"
  unfolding target_write_u8_def target_write_u16_def target_write_u32_def target_write_u64_def
  by (auto dest: target_write_slow_core)

end

end
