(* ===== verification/CpuTame.thy ===== *)
theory CpuTame
  imports CpuFrame
begin

section \<open>Every instruction keeps the registers well-formed\<close>

text \<open>
  \<open>tame\<close> is what one instruction does at most, unless it is a privileged one: it leaves the
  privileged state alone, keeps the register files well-formed (with \<open>x0\<close> zero), continues only
  at even addresses, and does not leave the interpreter. It is shown for each group of the
  \<open>switch\<close> that is not a system instruction.
\<close>

definition regs_ok :: "'z riscv_cpu_scheme \<Rightarrow> bool" where
  "regs_ok s \<longleftrightarrow> length (reg s) = 32 \<and> reg s ! 0 = 0 \<and> length (fp_reg s) = 32 \<and> frm s < 5 \<and> fs s < 4"

definition tame :: "u32 \<Rightarrow> 'z riscv_cpu_scheme \<Rightarrow> outcome \<Rightarrow> 'z riscv_cpu_scheme \<Rightarrow> bool" where
  "tame get_pc s out s' \<longleftrightarrow> privileged s' = privileged s \<and> (regs_ok s \<longrightarrow> regs_ok s') \<and>
     out \<noteq> Done_interp \<and> (even get_pc \<longrightarrow> even (pc s) \<longrightarrow> even (pc s')) \<and>
     (\<forall>n. out = Next_insn n \<longrightarrow> even n)"

lemma regs_ok_core: "core t = core s \<Longrightarrow> regs_ok t = regs_ok s"
  using core_eqD (2,3,5,8) [of t s] by (simp add: regs_ok_def)

lemma regs_ok_simps [simp]:
  "regs_ok (s\<lparr>mip := a\<rparr>) = regs_ok s"
  "regs_ok (s\<lparr>power_down_flag := b\<rparr>) = regs_ok s"
  "regs_ok (s\<lparr>pending_exception := i\<rparr>) = regs_ok s"
  "regs_ok (s\<lparr>pending_tval := a\<rparr>) = regs_ok s"
  "regs_ok (s\<lparr>mem_map := m\<rparr>) = regs_ok s"
  "regs_ok (s\<lparr>pc := a\<rparr>) = regs_ok s"
  "regs_ok (s\<lparr>fflags := a\<rparr>) = regs_ok s"
  "regs_ok (s\<lparr>insn_counter := n\<rparr>) = regs_ok s"
  "regs_ok (s\<lparr>load_res := a\<rparr>) = regs_ok s"
  by (simp_all add: regs_ok_def)

lemma regs_ok_put [simp]:
  "0 < r \<Longrightarrow> regs_ok s \<Longrightarrow> regs_ok (put_reg r v s)"
  "regs_ok s \<Longrightarrow> regs_ok (put_rd r v s)"
  "regs_ok s \<Longrightarrow> regs_ok (put_fp r x s)"
  "regs_ok s \<Longrightarrow> regs_ok (s\<lparr>fs := 3\<rparr>)"
  by (simp_all add: regs_ok_def put_reg_def put_rd_def put_fp_def)

lemma pc_put [simp]: "pc (put_rd r v s) = pc s" "pc (put_reg r v s) = pc s" "pc (put_fp r x s) = pc s"
  by (simp_all add: put_rd_def put_reg_def put_fp_def)

lemma c_reg_nonzero [simp]: "0 < unat ((x AND 7) OR 8 :: u32)"
proof -
  have "bit ((x AND 7) OR 8 :: u32) 3" by (simp add: bit_or_iff bit_numeral_rec)
  then have "(x AND 7) OR 8 \<noteq> (0 :: u32)" by auto
  then show ?thesis by (simp add: unat_gt_0)
qed

lemma tame_trans:
  assumes "core t = core s" and "tame get_pc t out s'"
  shows "tame get_pc s out s'"
  using assms(2) privileged_core [OF assms(1)] regs_ok_core [OF assms(1)] core_eqD(1) [OF assms(1)]
  by (simp add: tame_def)

lemma tame_Exception:
  assumes "core t = core s"
  shows "tame get_pc s Exception t"
  using privileged_core [OF assms] regs_ok_core [OF assms] core_eqD(1) [OF assms]
  by (simp add: tame_def)

lemma or_exception_tame:
  assumes r: "or_exception r f = Some (out, s')" and keep: "\<And>y t. r = Some (y, t) \<Longrightarrow> core t = core s"
    and f: "\<And>a t. f a t = Some (out, s') \<Longrightarrow> tame get_pc t out s'"
  shows "tame get_pc s out s'"
proof -
  obtain y t where p: "r = Some (y, t)"
    using r by (cases r) auto
  then have t: "core t = core s" by (rule keep)
  show ?thesis
  proof (cases y)
    case None
    then show ?thesis using r p tame_Exception [OF t] by auto
  next
    case (Some a)
    then show ?thesis using r p t f [of a t] by (auto intro: tame_trans)
  qed
qed

subsection \<open>Even offsets\<close>

lemma even_get_field1: "0 < lo \<Longrightarrow> even (get_field1 v src lo hi)"
  by (simp add: get_field1_def Let_def even_and_iff even_push_bit_iff)

lemma even_sign_extend: "n < 32 \<Longrightarrow> even (signed_drop_bit n (push_bit n (v :: u32))) \<longleftrightarrow> even v"
  using bit_signed_drop_bit_iff [of n "push_bit n v" 0] by (auto simp: bit_push_bit_iff bit_0)

lemma even_sext: "0 < n \<Longrightarrow> even v \<Longrightarrow> even (sext v n)"
  by (simp add: sext_def even_sign_extend)

lemma even_c_imm [simp]: "even (c_imm_j insn)" "even (c_imm_b insn)"
  by (simp_all add: c_imm_j_def c_imm_b_def even_sext even_or_iff even_get_field1)

lemma even_imm_jal [simp]: "even (imm_jal insn)"
  by (simp add: imm_jal_def Let_def even_sign_extend even_or_iff even_and_iff del: push_bit_or push_bit_and)

lemma even_imm_branch [simp]: "even (imm_branch insn)"
  by (simp add: imm_branch_def Let_def even_sign_extend even_or_iff even_and_iff del: push_bit_or push_bit_and)

lemma even_clear [simp]: "even (a AND - 2 :: u32)"
  by (simp add: even_and_iff)

subsection \<open>The groups without memory accesses\<close>

lemma exec_c1_tame:
  assumes "exec_c1 insn get_pc s = Some (out, s')"
  shows "tame get_pc s out s'"
  using assms unfolding exec_c1_def exec_c1_alu_def Let_def tame_def
  by (auto split: if_splits)

lemma exec_c2_jump_tame:
  assumes "exec_c2_jump insn get_pc s = Some (out, s')"
  shows "tame get_pc s out s'"
  using assms unfolding exec_c2_jump_def Let_def tame_def
  by (auto split: if_splits)

lemma exec_jumps_tame:
  "exec_jal insn get_pc s = Some (out, s') \<Longrightarrow> tame get_pc s out s'"
  "exec_jalr insn get_pc s = Some (out, s') \<Longrightarrow> tame get_pc s out s'"
  "exec_branch insn get_pc s = Some (out, s') \<Longrightarrow> tame get_pc s out s'"
  unfolding exec_jal_def exec_jalr_def exec_branch_def Let_def tame_def
  by (auto split: if_splits option.splits)

lemma exec_ops_tame:
  "exec_op_imm insn s = Some (out, s') \<Longrightarrow> tame get_pc s out s'"
  "exec_op insn s = Some (out, s') \<Longrightarrow> tame get_pc s out s'"
  "exec_misc_mem insn s = Some (out, s') \<Longrightarrow> tame get_pc s out s'"
  unfolding exec_op_imm_def exec_op_def exec_misc_mem_def Let_def tame_def
  by (auto split: if_splits option.splits)

subsection \<open>The groups with memory accesses\<close>

text \<open>A floating-point operation that is legal.\<close>

lemma tame_fp_result:
  "tame get_pc s (Next_insn 4) (fp_result rd high r s)"
  "tame get_pc s (Next_insn 4) (int_result rd r' s)"
  "tame get_pc s (Next_insn 4) (bool_result rd r'' s)"
  "tame get_pc s (Next_insn 4) (put_rd rd v s)"
  "tame get_pc s (Next_insn 4) ((put_fp rd x s)\<lparr>fs := 3\<rparr>)"
  by (simp_all add: tame_def fp_result_def int_result_def bool_result_def)

lemma fp_template_tame:
  "fp_template fp ops fmt op rd rs1 rs2 rm s = Some s' \<Longrightarrow> tame get_pc s (Next_insn 4) s'"
  unfolding fp_template_def Let_def fp_arith_def fp_to_int_def fp_from_int_def fp_to_fp_def fp_sign_def
    fp_minmax_def fp_compare_def fp_move_to_int_def fp_move_from_int_def
  by (auto split: if_splits bind_splits simp: tame_fp_result)

lemma tame_Illegal: "tame get_pc s Illegal_insn s"
  by (simp add: tame_def)

lemma exec_fp_tame: "exec_fp env insn s = Some (out, s') \<Longrightarrow> tame get_pc s out s'"
  unfolding exec_fp_def Let_def
  by (auto split: if_splits option.splits simp: tame_Illegal intro: fp_template_tame)

lemma exec_fma_tame: "exec_fma env insn n1 n3 s = Some (out, s') \<Longrightarrow> tame get_pc s out s'"
  unfolding exec_fma_def Let_def
  by (auto split: if_splits option.splits prod.splits simp: tame_Illegal) (auto simp: tame_def)

context quiet_devices
begin

lemma exec_c0_tame: "exec_c0 env insn s = Some (out, s') \<Longrightarrow> tame get_pc s out s'"
  unfolding exec_c0_def Let_def
  by (auto split: if_splits simp: tame_Illegal elim!: or_exception_tame
      dest: target_read_core target_write_core) (auto simp: tame_def)

lemma exec_c2_tame: "exec_c2 env insn get_pc s = Some (out, s') \<Longrightarrow> tame get_pc s out s'"
  unfolding exec_c2_def Let_def
  by (auto split: if_splits simp: tame_Illegal elim!: or_exception_tame
      dest: target_read_core target_write_core exec_c2_jump_tame) (auto simp: tame_def)

lemma exec_load_tame: "exec_load env insn s = Some (out, s') \<Longrightarrow> tame get_pc s out s'"
  unfolding exec_load_def Let_def
  by (auto split: if_splits simp: tame_Illegal elim!: or_exception_tame
      dest: target_read_core) (auto simp: tame_def)

lemma exec_store_tame: "exec_store env insn s = Some (out, s') \<Longrightarrow> tame get_pc s out s'"
  unfolding exec_store_def Let_def
  by (auto split: if_splits simp: tame_Illegal elim!: or_exception_tame
      dest: target_write_core) (auto simp: tame_def)

lemma exec_fp_mem_tame:
  "exec_fp_load env insn s = Some (out, s') \<Longrightarrow> tame get_pc s out s'"
  "exec_fp_store env insn s = Some (out, s') \<Longrightarrow> tame get_pc s out s'"
  unfolding exec_fp_load_def exec_fp_store_def Let_def
  by (auto split: if_splits simp: tame_Illegal elim!: or_exception_tame
      dest: target_read_core target_write_core) (auto simp: tame_def)

lemma exec_amo_tame: "exec_amo env insn s = Some (out, s') \<Longrightarrow> tame get_pc s out s'"
  unfolding exec_amo_def Let_def
  by (auto split: if_splits option.splits simp: tame_Illegal elim!: or_exception_tame
      dest: target_read_core target_write_core) (auto simp: tame_def dest!: target_write_core)

text \<open>All instructions but those of the system opcode.\<close>

lemma exec_insn_tame:
  assumes "exec_insn env insn get_pc counter s = Some (out, s')" and "insn AND 0x7f \<noteq> 0x73"
  shows "tame get_pc s out s'"
proof -
  have u: "tame get_pc s (Next_insn 4) (put_rd rd v s)" for rd v by (simp add: tame_def)
  show ?thesis
    using assms unfolding exec_insn_def Let_def
    by (auto split: if_splits simp: u tame_Illegal dest: exec_c0_tame exec_c1_tame exec_c2_tame
        exec_jumps_tame exec_load_tame exec_store_tame exec_ops_tame exec_amo_tame exec_fp_mem_tame
        exec_fma_tame exec_fp_tame)
qed

end

end
