(* ===== verification/CpuInvariant.thy ===== *)
theory CpuInvariant
  imports CpuTame
begin

section \<open>The invariant of the CPU and the boundary of user mode\<close>

text \<open>
  \<open>cpu_ok\<close> is what holds of the CPU whenever the machine runs: \<open>x0\<close> is zero, the register
  files have their lengths, the width is 32, and the program counter, the trap vectors and the
  saved counters are even. The system instructions, traps and interrupts keep it, and so does the
  interpreter.
\<close>

definition sys_ok :: "'z riscv_cpu_scheme \<Rightarrow> bool" where
  "sys_ok s \<longleftrightarrow> cur_xlen s = 32 \<and> priv s < 4 \<and> even (sepc s) \<and> even (mepc s) \<and>
     even (stvec s) \<and> even (mtvec s)"

definition cpu_ok :: "'z riscv_cpu_scheme \<Rightarrow> bool" where
  "cpu_ok s \<longleftrightarrow> regs_ok s \<and> sys_ok s \<and> even (pc s)"

lemma sys_ok_privileged: "privileged t = privileged s \<Longrightarrow> sys_ok t = sys_ok s"
  by (simp add: sys_ok_def privileged_def core_def riscv_cpu.truncate_def)

lemma cpu_ok_core: "core t = core s \<Longrightarrow> cpu_ok t = cpu_ok s"
  using regs_ok_core [of t s] sys_ok_privileged [OF privileged_core, of t s] core_eqD(1) [of t s]
  by (simp add: cpu_ok_def)

lemma cpu_ok_tame:
  "tame get_pc s out s' \<Longrightarrow> even get_pc \<Longrightarrow> cpu_ok s \<Longrightarrow> cpu_ok s'"
  using sys_ok_privileged [of s' s] by (simp add: cpu_ok_def tame_def)

lemma even_mask_3 [simp]: "even (a AND - 4 :: u32)"
  by (simp add: even_and_iff)

lemma sys_ok_simps [simp]:
  "sys_ok (s\<lparr>pc := a\<rparr>) = sys_ok s"
  "sys_ok (s\<lparr>mip := a\<rparr>) = sys_ok s"
  "sys_ok (s\<lparr>power_down_flag := b\<rparr>) = sys_ok s"
  "sys_ok (s\<lparr>pending_exception := i\<rparr>) = sys_ok s"
  "sys_ok (s\<lparr>pending_tval := a\<rparr>) = sys_ok s"
  "sys_ok (s\<lparr>insn_counter := n\<rparr>) = sys_ok s"
  "sys_ok (s\<lparr>mstatus := a\<rparr>) = sys_ok s"
  by (simp_all add: sys_ok_def)

lemma sys_ok_put [simp]: "sys_ok (put_rd r v s) = sys_ok s" "sys_ok (put_reg r v s) = sys_ok s"
  by (simp_all add: sys_ok_def put_rd_def put_reg_def)

lemma regs_ok_sys_simps [simp]:
  "regs_ok (s\<lparr>mstatus := a\<rparr>) = regs_ok s"
  "regs_ok (s\<lparr>priv := p\<rparr>) = regs_ok s"
  "regs_ok (s\<lparr>mcause := a\<rparr>) = regs_ok s"
  "regs_ok (s\<lparr>mepc := a\<rparr>) = regs_ok s"
  "regs_ok (s\<lparr>mtval := a\<rparr>) = regs_ok s"
  "regs_ok (s\<lparr>scause := a\<rparr>) = regs_ok s"
  "regs_ok (s\<lparr>sepc := a\<rparr>) = regs_ok s"
  "regs_ok (s\<lparr>stval := a\<rparr>) = regs_ok s"
  by (simp_all add: regs_ok_def)

subsection \<open>Traps\<close>

lemma set_priv_ok [simp]: "p < 4 \<Longrightarrow> sys_ok s \<Longrightarrow> sys_ok (set_priv s p)"
  by (simp add: set_priv_def sys_ok_def)

lemma set_priv_frame [simp]:
  "regs_ok (set_priv s p) = regs_ok s" "stvec (set_priv s p) = stvec s" "mtvec (set_priv s p) = mtvec s"
  "sepc (set_priv s p) = sepc s" "mepc (set_priv s p) = mepc s" "priv (set_priv s p) = p"
  "pc (set_priv s p) = pc s" "cur_xlen (set_priv s p) = cur_xlen s" "mstatus (set_priv s p) = mstatus s"
  by (simp_all add: set_priv_def)

lemma raise_exception2_ok: "cpu_ok s \<Longrightarrow> cpu_ok (raise_exception2 s cause tval)"
  by (auto simp: cpu_ok_def raise_exception2_def Let_def prv_defs sys_ok_def)

lemma raise_interrupt_ok: "cpu_ok s \<Longrightarrow> cpu_ok (snd (raise_interrupt s))"
  by (simp add: raise_interrupt_def Let_def raise_exception_def raise_exception2_ok)

lemma ucast8_less: "x \<le> n \<Longrightarrow> unat n < unat m \<Longrightarrow> ucast (x :: u32) < (m :: u8)"
  by (simp add: word_less_nat_alt word_le_nat_alt unsigned_ucast_eq
      le_less_trans [OF take_bit_nat_less_eq_self])

lemma ucast_and_3_less: "ucast (a AND 3 :: u32) < (4 :: u8)" "ucast (a AND 1 :: u32) < (4 :: u8)"
  using ucast8_less [OF word_and_le1 [of a 3], of 4] ucast8_less [OF word_and_le1 [of a 1], of 4]
  by simp_all

lemma handle_ret_ok: "cpu_ok s \<Longrightarrow> cpu_ok (handle_sret s)" "cpu_ok s \<Longrightarrow> cpu_ok (handle_mret s)"
  by (auto simp: cpu_ok_def handle_sret_def handle_mret_def Let_def sys_ok_def ucast_and_3_less)

subsection \<open>CSR instructions\<close>

lemma set_frm_ok: "regs_ok s \<Longrightarrow> regs_ok (set_frm s (a AND 7))"
proof -
  have "ucast (if (a AND 7 :: u32) \<ge> 5 then 0 else a AND 7) < (5 :: u8)"
    using ucast8_less [of "a AND 7" 4 5] word_less_nat_alt [of "a AND 7" 5]
    by (auto simp: not_le word_le_nat_alt)
  then show "regs_ok s \<Longrightarrow> regs_ok (set_frm s (a AND 7))"
    by (simp add: set_frm_def regs_ok_def)
qed

lemma set_mstatus_ok: "cpu_ok s \<Longrightarrow> cpu_ok (set_mstatus s a)"
  by (simp add: cpu_ok_def set_mstatus_def Let_def regs_ok_def sys_ok_def ucast_and_3_less)

lemma csr_write_ok: "cpu_ok s \<Longrightarrow> cpu_ok (snd (csr_write s csr val))"
  unfolding csr_write_def
  by (auto simp: cpu_ok_def set_mstatus_ok [unfolded cpu_ok_def] set_frm_ok Let_def)
    (auto simp: regs_ok_def sys_ok_def set_frm_def)

lemma csr_write_priv:
  "priv (snd (csr_write s csr val)) = priv s"
  unfolding csr_write_def by (simp add: Let_def set_mstatus_def set_frm_def)

text \<open>At user level the only CSRs that can be written are those of the floating-point unit.\<close>

lemma csr_write_user:
  assumes "priv s = PRV_U" and "csr_read s csr True = Some v"
  shows "privileged (snd (csr_write s csr val)) = privileged s \<and> fst (csr_write s csr val) \<le> 0"
proof -
  have "\<not> csr_access_denied s csr True"
    using assms(2) by (auto simp: csr_read_def split: if_splits)
  then have "drop_bit 8 csr AND 3 = 0" and "csr AND 0xc00 \<noteq> 0xc00"
    using assms(1) by (auto simp: csr_access_denied_def prv_defs word_gt_0)
  then have "csr \<noteq> 0x100" "csr \<noteq> 0x104" "csr \<noteq> 0x105" "csr \<noteq> 0x106" "csr \<noteq> 0x140" "csr \<noteq> 0x141"
    "csr \<noteq> 0x142" "csr \<noteq> 0x143" "csr \<noteq> 0x144" "csr \<noteq> 0x180" "csr \<noteq> 0x300" "csr \<noteq> 0x301"
    "csr \<noteq> 0x302" "csr \<noteq> 0x303" "csr \<noteq> 0x304" "csr \<noteq> 0x305" "csr \<noteq> 0x306" "csr \<noteq> 0x340"
    "csr \<noteq> 0x341" "csr \<noteq> 0x342" "csr \<noteq> 0x343" "csr \<noteq> 0x344"
    by auto
  then show ?thesis by (simp add: csr_write_def set_frm_def)
qed

lemma csr_read_weaken: "csr_read s csr w = Some v \<Longrightarrow> w \<Longrightarrow> csr_read s csr True = Some v"
  by simp

lemma after_csr_write_ok:
  assumes "after_csr_write get_pc rd v err s = Some (out, s')" and "even get_pc" and "cpu_ok s"
  shows "cpu_ok s' \<and> (\<forall>n. out = Next_insn n \<longrightarrow> even n)"
  using assms by (auto simp: after_csr_write_def Let_def cpu_ok_def split: if_splits)

lemma cpu_ok_counter [simp]: "cpu_ok (s\<lparr>insn_counter := n\<rparr>) = cpu_ok s"
  by (simp add: cpu_ok_def)

lemma exec_csr_ok:
  assumes "exec_csr insn get_pc counter s = Some (out, s')" and "even get_pc" and "cpu_ok s"
  shows "cpu_ok s' \<and> (\<forall>n. out = Next_insn n \<longrightarrow> even n)"
proof -
  have w: "cpu_ok t'" if "csr_write (s\<lparr>insn_counter := counter\<rparr>) csr v = (e, t')" for csr v e t'
    using csr_write_ok [of "s\<lparr>insn_counter := counter\<rparr>" csr v] that assms(3) by simp
  show ?thesis
    using assms unfolding exec_csr_def Let_def
    by (auto split: if_splits option.splits prod.splits dest: w after_csr_write_ok)
qed

lemma exec_priv_ok:
  assumes "exec_priv insn get_pc s = Some (out, s')" and "even get_pc" and "cpu_ok s"
  shows "cpu_ok s' \<and> (\<forall>n. out = Next_insn n \<longrightarrow> even n)"
  using assms unfolding exec_priv_def Let_def
  by (auto split: if_splits intro!: handle_ret_ok) (auto simp: cpu_ok_def)

lemma exec_system_ok:
  "exec_system insn get_pc counter s = Some (out, s') \<Longrightarrow> even get_pc \<Longrightarrow> cpu_ok s \<Longrightarrow>
     cpu_ok s' \<and> (\<forall>n. out = Next_insn n \<longrightarrow> even n)"
  by (auto simp: exec_system_def split: if_splits dest: exec_priv_ok exec_csr_ok)

subsection \<open>User mode\<close>

lemma exec_csr_user:
  assumes "exec_csr insn get_pc counter s = Some (out, s')" and "priv s = PRV_U"
  shows "privileged s' = privileged s \<and> out \<noteq> Done_interp"
proof -
  let ?t = "s\<lparr>insn_counter := counter\<rparr>"
  have w: "privileged t' = privileged s \<and> e \<le> 0"
    if "csr_write ?t csr v = (e, t')" and "csr_read ?t csr True = Some u" for csr v u e t'
    using csr_write_user [of ?t csr u v] that assms(2) by simp
  have a: "privileged u = privileged t \<and> out \<noteq> Done_interp"
    if "after_csr_write get_pc rd v e t = Some (out, u)" and "e \<le> 0" for rd v e t u out
    using that by (auto simp: after_csr_write_def Let_def)
  show ?thesis
    using assms(1) unfolding exec_csr_def Let_def
    by (auto split: if_splits option.splits prod.splits dest!: a w)
qed

lemma exec_priv_user:
  assumes "exec_priv insn get_pc s = Some (out, s')" and "priv s = PRV_U"
  shows "privileged s' = privileged s \<and> out \<noteq> Done_interp"
  using assms unfolding exec_priv_def Let_def prv_defs by (auto split: if_splits)

context quiet_devices
begin

lemma exec_insn_user:
  assumes "exec_insn env insn get_pc counter s = Some (out, s')" and "priv s = PRV_U"
  shows "privileged s' = privileged s \<and> out \<noteq> Done_interp"
proof (cases "insn AND 0x7f = 0x73")
  case True
  then have "exec_system insn get_pc counter s = Some (out, s')"
    using assms(1) by (simp add: exec_insn_def)
  then show ?thesis using assms(2)
    by (auto simp: exec_system_def split: if_splits dest: exec_csr_user exec_priv_user)
next
  case False
  then show ?thesis using exec_insn_tame [OF assms(1)] by (simp add: tame_def)
qed

lemma exec_insn_ok:
  assumes "exec_insn env insn get_pc counter s = Some (out, s')" and "even get_pc" and "cpu_ok s"
  shows "cpu_ok s' \<and> (\<forall>n. out = Next_insn n \<longrightarrow> even n)"
proof (cases "insn AND 0x7f = 0x73")
  case True
  then have "exec_system insn get_pc counter s = Some (out, s')"
    using assms(1) by (simp add: exec_insn_def)
  then show ?thesis using assms(2,3) by (rule exec_system_ok)
next
  case False
  then have "tame get_pc s out s'" using exec_insn_tame [OF assms(1)] by simp
  then show ?thesis using assms(2,3) cpu_ok_tame [of get_pc s out s'] by (simp add: tame_def)
qed

end

end
