(* ===== verification/CpuRun.thy ===== *)
theory CpuRun
  imports CpuInvariant
begin

section \<open>Runs of the interpreter\<close>

text \<open>
  The invariant of the CPU along whole runs of \<open>riscv_cpu_interp\<close>: fetch, rounds, the loop, and the
  loop over the loop. The devices of the machine meet the contract \<open>quiet_devices\<close>.
\<close>

text \<open>
  A property of the states between the rounds that every round keeps gives a property of the final
  state.
\<close>

lemma interp_loop_invariant:
  assumes run: "interp_loop env addend c s = Some r" and start: "I c s"
    and more: "\<And>c s c' s'. interp_round env addend c s = Some (Inl (c', s')) \<Longrightarrow> I c s \<Longrightarrow> I c' s'"
    and last: "\<And>c s s'. interp_round env addend c s = Some (Inr s') \<Longrightarrow> I c s \<Longrightarrow> Q s'"
  shows "Q r"
proof -
  have "(e, a) = (env, addend) \<longrightarrow> I c s \<longrightarrow> Q r" if "interp_loop e a c s = Some r" for e a c s r
  proof (rule interp_loop.raw_induct
      [where P = "\<lambda>e a c s r. (e, a) = (env, addend) \<longrightarrow> I c s \<longrightarrow> Q r", OF _ that])
    fix loop e a c s r
    assume IH: "\<And>e a c s r. loop e a c s = Some r \<Longrightarrow> (e, a) = (env, addend) \<longrightarrow> I c s \<longrightarrow> Q r"
      and hyp: "Option.bind (interp_round e a c s) (\<lambda>r.
        if isl r then loop e a (fst (projl r)) (snd (projl r)) else Some (projr r)) = Some r"
    show "(e, a) = (env, addend) \<longrightarrow> I c s \<longrightarrow> Q r"
    proof (intro impI)
      assume e: "(e, a) = (env, addend)" and i: "I c s"
      obtain q where q: "interp_round env addend c s = Some q"
        using hyp e by (cases "interp_round env addend c s") auto
      show "Q r"
      proof (cases q)
        case (Inl p)
        obtain c' s' where p: "p = (c', s')" by (cases p)
        have l: "loop e a c' s' = Some r" using hyp e q Inl p by simp
        have "I c' s'" using q Inl p by (intro more [OF _ i]) simp
        then show ?thesis using IH [OF l] e by simp
      next
        case (Inr s')
        then show ?thesis using hyp e q last [OF _ i] by simp
      qed
    qed
  qed
  then show ?thesis using run start by blast
qed

lemma fetch_block_end: "fetch_block env c s = Some (f, d, t) \<Longrightarrow> f \<noteq> Fetch_end"
  by (auto simp: fetch_block_def fetch_half_def Let_def split: bind_splits option.splits if_splits)

context quiet_devices
begin

lemma fetch_half_core:
  "fetch_half env a c s = Some (f, s') \<Longrightarrow> core s' = core s"
  by (auto simp: fetch_half_def Let_def split: bind_splits option.splits if_splits
      dest!: get_vmm_insn32_core target_read_insn_core)

lemma fetch_block_core:
  assumes "fetch_block env c s = Some (f, c', s')"
  shows "core s' = core s \<and> (c' = c \<or> GET_PC c' = pc s)"
  using assms
  by (auto simp: fetch_block_def Let_def GET_PC_def split: bind_splits option.splits if_splits
      dest!: get_vmm_insn32_core target_read_insn_core fetch_half_core)

lemma fetch_insn_ok:
  assumes f: "fetch_insn env c s = Some (f, c', s')" and s: "cpu_ok s" and c: "even (GET_PC c)"
  shows "cpu_ok s' \<and> even (GET_PC c')"
proof (cases "code_ptr c \<ge> code_end c")
  case False
  then show ?thesis using f s c
    by (auto simp: fetch_insn_def split: bind_splits dest!: get_vmm_insn32_core dest: cpu_ok_core)
next
  case True
  let ?s = "s\<lparr>pc := GET_PC c\<rparr>"
  have s1: "cpu_ok ?s" using s c by (simp add: cpu_ok_def)
  have block: "cpu_ok t \<and> even (GET_PC d)" if b: "fetch_block env c ?s = Some (g, d, t)" for g d t
    using fetch_block_core [OF b] cpu_ok_core [of t ?s] s1 c by auto
  have same: "u = ?s" if "raise_interrupt ?s = (False, u)" for u
    using that by (auto simp: raise_interrupt_def Let_def split: if_splits)
  have irq: "cpu_ok t" if "raise_interrupt u = (b, t)" and "cpu_ok u" for b t u
    using raise_interrupt_ok [OF that(2)] that(1) by simp
  have even: "even (GET_PC c')" if "c' = c" using c that by simp
  show ?thesis using f True s1
    by (auto simp: fetch_insn_def Let_def even split: if_splits prod.splits dest!: same
        dest: block irq)
qed

lemma take_exception_ok:
  assumes "cpu_ok s" and "even (GET_PC c)"
  shows "cpu_ok (take_exception addend c s)"
proof -
  have "cpu_ok (s\<lparr>pc := GET_PC c\<rparr>)" using assms by (simp add: cpu_ok_def)
  then show ?thesis
    by (simp add: take_exception_def Let_def done_interp_def the_end_def raise_exception2_ok)
qed

lemma end_ok [simp]:
  "cpu_ok (the_end addend c s) = cpu_ok s"
  "cpu_ok (done_interp addend c s) = cpu_ok s"
  "cpu_ok (illegal_insn insn s) = cpu_ok s"
  by (simp_all add: the_end_def done_interp_def illegal_insn_def cpu_ok_def)

text \<open>A round keeps the invariant, and the loop goes on at an even address.\<close>

lemma interp_round_ok:
  assumes r: "interp_round env addend c s = Some r" and s: "cpu_ok s" and c: "even (GET_PC c)"
  shows "case r of Inl (c', s') \<Rightarrow> cpu_ok s' \<and> even (GET_PC c') | Inr s' \<Rightarrow> cpu_ok s'"
proof -
  let ?c = "c\<lparr>n_cycles := n_cycles c - 1\<rparr>"
  have c1: "even (GET_PC ?c)" using c by (simp add: GET_PC_def)
  obtain f d t where f: "fetch_insn env ?c s = Some (f, d, t)"
    using r by (auto simp: interp_round_def Let_def split: bind_splits)
  have d: "cpu_ok t" "even (GET_PC d)" using fetch_insn_ok [OF f s c1] by auto
  show ?thesis
  proof (cases f)
    case (Fetched insn)
    obtain out u where x: "exec_insn env insn (GET_PC d) (GET_INSN_COUNTER addend d) t = Some (out, u)"
      using r f Fetched by (auto simp: interp_round_def Let_def split: bind_splits)
    have u: "cpu_ok u" "\<And>n. out = Next_insn n \<Longrightarrow> even n"
      using exec_insn_ok [OF x d(2,1)] by auto
    then have pc: "even (pc u)" by (simp add: cpu_ok_def)
    show ?thesis
      using r f Fetched x u pc d(2) take_exception_ok [of "illegal_insn insn u" d addend]
        take_exception_ok [of u d addend]
      by (cases out) (auto simp: interp_round_def GET_PC_def)
  qed (use r f d take_exception_ok in \<open>auto simp: interp_round_def\<close>)
qed

lemma interp_loop_ok:
  assumes "interp_loop env addend c s = Some s'" and "cpu_ok s" and "even (GET_PC c)"
  shows "cpu_ok s'"
proof (rule interp_loop_invariant [OF assms(1), where I = "\<lambda>c s. cpu_ok s \<and> even (GET_PC c)" and Q = cpu_ok])
  show "cpu_ok s \<and> even (GET_PC c)" using assms(2,3) by simp
qed (auto dest: interp_round_ok)

lemma interp_x32_ok:
  assumes r: "riscv_cpu_interp_x32 env n s = Some s'" and s: "cpu_ok s"
  shows "cpu_ok s'"
proof -
  have irq: "cpu_ok t" if "raise_interrupt s = (b, t)" for b t
    using raise_interrupt_ok [OF s] that by simp
  have loop: "cpu_ok s'"
    if "cpu_ok t" and "interp_loop env a \<lparr>code_ptr = 0, code_end = 0, code_to_pc_addend = pc t,
        n_cycles = i\<rparr> (t\<lparr>pending_exception := - 1\<rparr>) = Some s'" for t a i
    using that by (intro interp_loop_ok [OF that(2)]) (simp_all add: cpu_ok_def GET_PC_def)
  show ?thesis
    using r s by (auto simp: riscv_cpu_interp_x32_def Let_def split: if_splits prod.splits
        dest: irq loop [OF irq] loop [OF s])
qed

lemma interp_until_ok:
  assumes "riscv_cpu_interp_until env timeout s = Some s'" and "cpu_ok s"
  shows "cpu_ok s'"
proof -
  have "e = env \<longrightarrow> cpu_ok s \<longrightarrow> cpu_ok r" if "riscv_cpu_interp_until e t s = Some r" for e t s r
  proof (rule riscv_cpu_interp_until.raw_induct
      [where P = "\<lambda>e t s r. e = env \<longrightarrow> cpu_ok s \<longrightarrow> cpu_ok r", OF _ that])
  qed (auto simp: Let_def split: if_splits bind_splits dest: interp_x32_ok)
  then show ?thesis using assms by blast
qed

lemma riscv_cpu_interp_ok:
  "riscv_cpu_interp env n s = Some s' \<Longrightarrow> cpu_ok s \<Longrightarrow> cpu_ok s'"
  by (simp add: riscv_cpu_interp_def interp_until_ok)

end

end
