(* ===== verification/TrapSpec.thy ===== *)
theory TrapSpec
  imports CpuRun SampleEnv
begin

section \<open>Traps and their return\<close>

text \<open>
  What \<open>raise_exception2\<close>, \<open>handle_mret\<close> and \<open>handle_sret\<close> do to \<open>mstatus\<close>, bit by bit; which
  interrupt \<open>raise_interrupt\<close> takes; and what the CSR instructions refuse.
\<close>

subsection \<open>Bits of mstatus\<close>

lemma bit_3_iff: "bit (3 :: 'a::len word) n \<longleftrightarrow> n < 2 \<and> n < LENGTH('a)"
  using bit_mask_iff [where 'a = "'a word", of 2 n] by (simp add: mask_eq_exp_minus_1 conj_commute)

lemma bit_3_int [simp]: "bit (3 :: int) n \<longleftrightarrow> n < 2"
  using bit_mask_iff [where 'a = int, of 2 n] by (simp add: mask_eq_exp_minus_1)

lemma bit_mstatus:
  "bit MSTATUS_SIE n \<longleftrightarrow> n = 1" "bit MSTATUS_MIE n \<longleftrightarrow> n = 3" "bit MSTATUS_SPIE n \<longleftrightarrow> n = 5"
  "bit MSTATUS_MPIE n \<longleftrightarrow> n = 7" "bit MSTATUS_SPP n \<longleftrightarrow> n = 8" "bit MSTATUS_MPP n \<longleftrightarrow> n = 11 \<or> n = 12"
  unfolding mstatus_bits mstatus_shifts bit_push_bit_iff bit_1_iff bit_3_iff by auto

lemmas bits = bit_and_iff bit_or_iff bit_not_iff bit_push_bit_iff bit_drop_bit_eq bit_1_iff bit_3_iff
  bit_unsigned_iff bit_exp_iff

lemma bit_priv:
  assumes "(p :: u8) < 4" and "bit p k"
  shows "k < 2"
proof -
  have "unat p < 4" using assms(1) by (simp add: word_less_nat_alt)
  then have "take_bit 2 (unat p) = unat p" by (simp add: take_bit_nat_eq_self)
  moreover have "bit (unat p) k" using assms(2) by (simp add: bit_unsigned_iff)
  ultimately show ?thesis by (metis bit_take_bit_iff)
qed

lemma bit_low:
  assumes "(p :: u8) < 2" and "bit p k"
  shows "k = 0"
proof -
  have "unat p < 2" using assms(1) by (simp add: word_less_nat_alt)
  then have "take_bit 1 (unat p) = unat p" by (simp add: take_bit_nat_eq_self)
  moreover have "bit (unat p) k" using assms(2) by (simp add: bit_unsigned_iff)
  ultimately show ?thesis by (metis bit_take_bit_iff less_one)
qed

lemma bit_trap_mstatus:
  assumes "\<not> delegated s cause" and "priv s < 4"
  shows "bit (mstatus (raise_exception2 s cause tval)) n \<longleftrightarrow> n < 32 \<and>
    (if n = 3 then False
     else if n = 7 then bit (mstatus s) (unat (priv s))
     else if n = 11 then bit (priv s) 0
     else if n = 12 then bit (priv s) 1
     else bit (mstatus s) n)"
proof -
  have "bit (priv s) (n - 11) \<Longrightarrow> n < 13" using bit_priv [OF assms(2), of "n - 11"] by simp
  then show ?thesis using assms(1)
    by (auto simp: raise_exception2_def Let_def set_priv_def bit_mstatus mstatus_shifts bits
        simp del: push_bit_and push_bit_or)
qed

lemma bit_delegated_mstatus:
  assumes "delegated s cause" and "priv s < 4"
  shows "bit (mstatus (raise_exception2 s cause tval)) n \<longleftrightarrow> n < 32 \<and>
    (if n = 1 then False
     else if n = 5 then bit (mstatus s) (unat (priv s))
     else if n = 8 then bit (priv s) 0
     else bit (mstatus s) n)"
proof -
  have "priv s < 2" using assms(1) by (auto simp: delegated_def prv_defs word_le_nat_alt word_less_nat_alt)
  then have "bit (priv s) (n - 8) \<Longrightarrow> n < 9" using bit_priv [OF assms(2), of "n - 8"]
      bit_low [of "priv s" "n - 8"] by simp
  then show ?thesis using assms(1)
    by (auto simp: raise_exception2_def Let_def set_priv_def bit_mstatus mstatus_shifts bits
        simp del: push_bit_and push_bit_or)
qed

definition mpp_of :: "'z riscv_cpu_scheme \<Rightarrow> u32" where
  "mpp_of s = drop_bit MSTATUS_MPP_SHIFT (mstatus s) AND 3"

definition spp_of :: "'z riscv_cpu_scheme \<Rightarrow> u32" where
  "spp_of s = drop_bit MSTATUS_SPP_SHIFT (mstatus s) AND 1"

lemma mpp_less: "unat (mpp_of s) < 4" and spp_less: "unat (spp_of s) < 2"
  using word_and_le1 [of "drop_bit MSTATUS_MPP_SHIFT (mstatus s)" 3]
    word_and_le1 [of "drop_bit MSTATUS_SPP_SHIFT (mstatus s)" 1]
  by (auto simp: mpp_of_def spp_of_def word_le_nat_alt)

lemma bit_mret_mstatus:
  "bit (mstatus (handle_mret s)) n \<longleftrightarrow> n < 32 \<and>
     (if n = 7 then True
      else if n = 11 \<or> n = 12 then False
      else if n = unat (mpp_of s) then bit (mstatus s) 7
      else bit (mstatus s) n)"
  using mpp_less [of s]
  by (auto simp: handle_mret_def mpp_of_def Let_def set_priv_def bit_mstatus mstatus_shifts bits
      simp del: push_bit_and push_bit_or)

lemma bit_sret_mstatus:
  "bit (mstatus (handle_sret s)) n \<longleftrightarrow> n < 32 \<and>
     (if n = 5 then True
      else if n = 8 then False
      else if n = unat (spp_of s) then bit (mstatus s) 5
      else bit (mstatus s) n)"
  using spp_less [of s]
  by (auto simp: handle_sret_def spp_of_def Let_def set_priv_def bit_mstatus mstatus_shifts bits
      simp del: push_bit_and push_bit_or)

lemma set_priv_eq: "set_priv s p = s\<lparr>priv := p\<rparr>"
  by (cases s) (simp add: set_priv_def)

lemma same_priv: "s\<lparr>mstatus := m, priv := priv s\<rparr> = s\<lparr>mstatus := m\<rparr>"
  by (cases s) simp

lemma ucast_priv [simp]: "ucast (ucast (p :: u8) :: u32) = p"
  by (rule bit_word_eqI) (simp add: bit_unsigned_iff)

lemma unat_priv [simp]: "unat (ucast (p :: u8) :: u32) = unat p"
  using unsigned_less [where 'a = nat, of p] by (simp add: unsigned_ucast_eq take_bit_nat_eq_self)

lemma trap_mpp:
  assumes "\<not> delegated s cause" and "priv s < 4"
  shows "mpp_of (raise_exception2 s cause tval) = ucast (priv s)"
proof (rule bit_word_eqI)
  fix n assume "n < LENGTH(32)"
  have "bit (mpp_of (raise_exception2 s cause tval)) n \<longleftrightarrow> n < 2 \<and> bit (mstatus (raise_exception2 s cause tval)) (11 + n)"
    by (auto simp: mpp_of_def bit_and_iff bit_drop_bit_eq bit_3_iff mstatus_shifts)
  also have "\<dots> \<longleftrightarrow> n < 2 \<and> bit (priv s) n"
    by (auto simp: bit_trap_mstatus [OF assms] less_2_cases_iff)
  also have "\<dots> \<longleftrightarrow> bit (ucast (priv s) :: u32) n"
    using \<open>n < LENGTH(32)\<close> by (auto simp: bit_unsigned_iff dest: bit_priv [OF assms(2)])
  finally show "bit (mpp_of (raise_exception2 s cause tval)) n = bit (ucast (priv s) :: u32) n" .
qed

lemma trap_spp:
  assumes "delegated s cause" and "priv s < 4"
  shows "spp_of (raise_exception2 s cause tval) = ucast (priv s)"
proof -
  have "priv s < 2" using assms(1) by (auto simp: delegated_def prv_defs word_le_nat_alt word_less_nat_alt)
  then show ?thesis
    by (intro bit_word_eqI)
      (auto simp: spp_of_def bits mstatus_shifts bit_delegated_mstatus [OF assms] dest: bit_low)
qed

lemma trap_fields:
  "\<not> delegated s cause \<Longrightarrow> \<exists>m. raise_exception2 s cause tval =
     s\<lparr>mcause := trap_cause s cause, mepc := pc s, mtval := tval, mstatus := m, priv := PRV_M, pc := mtvec s\<rparr>"
  "delegated s cause \<Longrightarrow> \<exists>m. raise_exception2 s cause tval =
     s\<lparr>scause := trap_cause s cause, sepc := pc s, stval := tval, mstatus := m, priv := PRV_S, pc := stvec s\<rparr>"
  by (auto simp: raise_exception2_def Let_def set_priv_eq)

lemma return_fields:
  "\<exists>m. handle_mret s = s\<lparr>mstatus := m, priv := ucast (mpp_of s), pc := mepc s\<rparr>"
  "\<exists>m. handle_sret s = s\<lparr>mstatus := m, priv := ucast (spp_of s), pc := sepc s\<rparr>"
  by (auto simp: handle_mret_def handle_sret_def Let_def set_priv_eq mpp_of_def spp_of_def)

subsection \<open>Properties of traps\<close>

text \<open>C16: Entering a machine-level trap and returning from it with \<open>mret\<close> gives back the state:
  program counter, privilege level, the interrupt enable of that level and all else are as before;
  only \<open>mcause\<close>, \<open>mepc\<close>, \<open>mtval\<close> and the bits MIE, MPIE and MPP of \<open>mstatus\<close> are used up.\<close>

theorem trap_mret_roundtrip:
  assumes "\<not> delegated s cause" and "priv s < 4"
  shows "\<exists>m. handle_mret (raise_exception2 s cause tval) =
      s\<lparr>mcause := trap_cause s cause, mepc := pc s, mtval := tval, mstatus := m\<rparr> \<and>
    (\<forall>n. bit m n = (n < 32 \<and> (if n = unat (priv s) then bit (mstatus s) n
      else if n = 3 \<or> n = 11 \<or> n = 12 then False else if n = 7 then True else bit (mstatus s) n)))"
proof -
  let ?t = "raise_exception2 s cause tval" and ?m = "mstatus (handle_mret (raise_exception2 s cause tval))"
  obtain a b where t: "?t = s\<lparr>mcause := trap_cause s cause, mepc := pc s, mtval := tval, mstatus := a,
      priv := PRV_M, pc := mtvec s\<rparr>" and r: "handle_mret ?t = ?t\<lparr>mstatus := b, priv := ucast (mpp_of ?t), pc := mepc ?t\<rparr>"
    using trap_fields(1) [OF assms(1)] return_fields(1) by blast
  have mpp: "mpp_of ?t = ucast (priv s)" by (rule trap_mpp [OF assms])
  have "handle_mret ?t = s\<lparr>mcause := trap_cause s cause, mepc := pc s, mtval := tval, mstatus := ?m\<rparr>"
    using r mpp same_priv [of "s\<lparr>mcause := trap_cause s cause, mepc := pc s, mtval := tval\<rparr>" b] unfolding t by simp
  moreover have "unat (priv s) < 4" using assms(2) by (simp add: word_less_nat_alt)
  then have "bit ?m n = (n < 32 \<and> (if n = unat (priv s) then bit (mstatus s) n
      else if n = 3 \<or> n = 11 \<or> n = 12 then False else if n = 7 then True else bit (mstatus s) n))" for n
    using mpp by (auto simp: bit_mret_mstatus bit_trap_mstatus [OF assms])
  ultimately show ?thesis by blast
qed

definition sample_cpu :: riscv_cpu where
  "sample_cpu = riscv_cpu_init phys_mem_map_init ()"

lemma sample_cpu_select [simp]:
  "priv sample_cpu = PRV_M" "medeleg sample_cpu = 0" "mideleg sample_cpu = 0" "mip sample_cpu = 0"
  "mie sample_cpu = 0" "mstatus sample_cpu = 0" "pc sample_cpu = 0x1000" "reg sample_cpu = replicate 32 0"
  "cur_xlen sample_cpu = 32"
  by (simp_all add: sample_cpu_def riscv_cpu_init_def get_base_from_xlen_def Let_def)

lemma trap_mret_roundtrip_witness:
  "\<exists>m. handle_mret (raise_exception2 sample_cpu CAUSE_BREAKPOINT 5) =
      sample_cpu\<lparr>mcause := trap_cause sample_cpu CAUSE_BREAKPOINT, mepc := 0x1000, mtval := 5, mstatus := m\<rparr> \<and>
    bit m 7 \<and> \<not> bit m 3"
proof -
  have "\<not> delegated sample_cpu CAUSE_BREAKPOINT" by (simp add: delegated_def prv_defs)
  then show ?thesis
    using trap_mret_roundtrip [of sample_cpu CAUSE_BREAKPOINT 5] by (auto simp: prv_defs)
qed

text \<open>C17: Entering a trap that is delegated to the supervisor and returning from it with \<open>sret\<close>
  gives back the state in the same way, with \<open>scause\<close>, \<open>sepc\<close>, \<open>stval\<close> and SIE, SPIE, SPP used up.\<close>

theorem trap_sret_roundtrip:
  assumes "delegated s cause"
  shows "\<exists>m. handle_sret (raise_exception2 s cause tval) =
      s\<lparr>scause := trap_cause s cause, sepc := pc s, stval := tval, mstatus := m\<rparr> \<and>
    (\<forall>n. bit m n = (n < 32 \<and> (if n = unat (priv s) then bit (mstatus s) n
      else if n = 1 \<or> n = 8 then False else if n = 5 then True else bit (mstatus s) n)))"
proof -
  have low: "unat (priv s) < 2" and p4: "priv s < 4"
    using assms by (auto simp: delegated_def prv_defs word_le_nat_alt word_less_nat_alt)
  let ?t = "raise_exception2 s cause tval" and ?m = "mstatus (handle_sret (raise_exception2 s cause tval))"
  obtain a b where t: "?t = s\<lparr>scause := trap_cause s cause, sepc := pc s, stval := tval, mstatus := a,
      priv := PRV_S, pc := stvec s\<rparr>" and r: "handle_sret ?t = ?t\<lparr>mstatus := b, priv := ucast (spp_of ?t), pc := sepc ?t\<rparr>"
    using trap_fields(2) [OF assms] return_fields(2) by blast
  have spp: "spp_of ?t = ucast (priv s)" by (rule trap_spp [OF assms p4])
  have "handle_sret ?t = s\<lparr>scause := trap_cause s cause, sepc := pc s, stval := tval, mstatus := ?m\<rparr>"
    using r spp same_priv [of "s\<lparr>scause := trap_cause s cause, sepc := pc s, stval := tval\<rparr>" b] unfolding t by simp
  moreover have "bit ?m n = (n < 32 \<and> (if n = unat (priv s) then bit (mstatus s) n
      else if n = 1 \<or> n = 8 then False else if n = 5 then True else bit (mstatus s) n))" for n
    using spp low by (auto simp: bit_sret_mstatus bit_delegated_mstatus [OF assms p4])
  ultimately show ?thesis by blast
qed

lemma trap_sret_roundtrip_witness:
  "\<exists>m. handle_sret (raise_exception2 (sample_cpu\<lparr>priv := PRV_U, medeleg := 8\<rparr>) CAUSE_BREAKPOINT 5) =
      sample_cpu\<lparr>priv := PRV_U, medeleg := 8, scause := trap_cause sample_cpu CAUSE_BREAKPOINT,
        sepc := 0x1000, stval := 5, mstatus := m\<rparr> \<and> bit m 5 \<and> \<not> bit m 8"
proof -
  have "delegated (sample_cpu\<lparr>priv := PRV_U, medeleg := 8\<rparr>) CAUSE_BREAKPOINT"
    by (simp add: delegated_def prv_defs cause_defs)
  then show ?thesis
    using trap_sret_roundtrip [of "sample_cpu\<lparr>priv := PRV_U, medeleg := 8\<rparr>" CAUSE_BREAKPOINT 5]
    by (auto simp: prv_defs trap_cause_def Let_def)
qed

subsection \<open>Interrupts\<close>

lemma ctz_from_spec:
  "(\<forall>j. i \<le> j \<and> j < ctz_from i n a \<longrightarrow> \<not> bit a j) \<and> i \<le> ctz_from i n a \<and> ctz_from i n a \<le> i + n \<and>
   (ctz_from i n a < i + n \<longrightarrow> bit a (ctz_from i n a))"
proof (induction n arbitrary: i)
  case (Suc n)
  show ?case using Suc.IH [of "Suc i"] by (auto simp: Suc_le_eq) (metis le_neq_implies_less)+
qed auto

lemma ctz32_least:
  assumes "bit (a :: u32) k"
  shows "bit a (ctz32 a) \<and> ctz32 a \<le> k"
proof -
  have "k < 32" using bit_imp_le_length [OF assms] by simp
  moreover have "\<not> k < ctz32 a"
    using assms ctz_from_spec [of 0 32 a] by (auto simp: ctz32_def)
  ultimately show ?thesis using ctz_from_spec [of 0 32 a] by (auto simp: ctz32_def)
qed

text \<open>The interrupts that are taken at the privilege level of the state: pending, enabled in
  \<open>mie\<close>, and enabled at this level (the privileged specification).\<close>

definition irq_ready :: "'z riscv_cpu_scheme \<Rightarrow> nat \<Rightarrow> bool" where
  "irq_ready s n \<longleftrightarrow> bit (mip s) n \<and> bit (mie s) n \<and>
     (if bit (mideleg s) n then priv s < PRV_S \<or> priv s = PRV_S \<and> bit (mstatus s) 1
      else priv s < PRV_M \<or> priv s = PRV_M \<and> bit (mstatus s) 3)"

lemma and_bit_zero:
  assumes "\<And>n. bit (m :: u32) n \<longleftrightarrow> n = k"
  shows "x AND m = 0 \<longleftrightarrow> \<not> bit x k"
proof
  show "\<not> bit x k" if "x AND m = 0" using arg_cong [OF that, of "\<lambda>y. bit y k"] assms by (simp add: bit_and_iff)
  show "x AND m = 0" if "\<not> bit x k" using that assms by (intro bit_word_eqI) (auto simp: bit_and_iff)
qed

lemmas enable_bits = and_bit_zero [OF bit_mstatus(1)] and_bit_zero [OF bit_mstatus(2)]

lemma bit_pending:
  assumes "priv s = PRV_U \<or> priv s = PRV_S \<or> priv s = PRV_M"
  shows "bit (get_pending_irq_mask s) n \<longleftrightarrow> irq_ready s n"
proof -
  have z: "\<not> (bit (mip s) n \<and> bit (mie s) n)" if "mip s AND mie s = 0"
    using arg_cong [OF that, of "\<lambda>y. bit y n"] by (simp add: bit_and_iff)
  show ?thesis using assms z bit_imp_le_length [of "mip s" n]
    by (auto simp: get_pending_irq_mask_def irq_ready_def enable_bits bit_and_iff bit_not_iff bit_or_iff
        prv_defs Let_def)
qed

text \<open>C18: An interrupt is taken exactly when one is pending and enabled at the current privilege
  level, and then it is the one with the lowest number; its trap has the cause of this number.\<close>

theorem raise_interrupt_correct:
  assumes "priv s = PRV_U \<or> priv s = PRV_S \<or> priv s = PRV_M"
  shows "case raise_interrupt s of
      (False, s') \<Rightarrow> s' = s \<and> (\<forall>n. \<not> irq_ready s n)
    | (True, s') \<Rightarrow> (\<exists>n. irq_ready s n \<and> (\<forall>j < n. \<not> irq_ready s j) \<and>
        s' = raise_exception2 s (word_of_nat n OR CAUSE_INTERRUPT) 0)"
proof (cases "get_pending_irq_mask s = 0")
  case True
  then show ?thesis using bit_pending [OF assms] by (simp add: raise_interrupt_def)
next
  case False
  then obtain k where k: "bit (get_pending_irq_mask s) k" by (auto simp: bit_eq_iff)
  let ?n = "ctz32 (get_pending_irq_mask s)"
  have "irq_ready s ?n" using ctz32_least [OF k] bit_pending [OF assms] by simp
  moreover have "\<not> irq_ready s j" if "j < ?n" for j
    using ctz32_least [of "get_pending_irq_mask s" j] bit_pending [OF assms, of j] that by auto
  ultimately show ?thesis using False
    by (auto simp: raise_interrupt_def raise_exception_def Let_def intro!: exI [of _ ?n])
qed

lemma raise_interrupt_correct_witness:
  "\<exists>t. raise_interrupt (sample_cpu\<lparr>priv := PRV_U, mip := 0xa0, mie := 0xa0\<rparr>) = (True, t) \<and>
     t = raise_exception2 (sample_cpu\<lparr>priv := PRV_U, mip := 0xa0, mie := 0xa0\<rparr>) (5 OR CAUSE_INTERRUPT) 0"
proof -
  let ?s = "sample_cpu\<lparr>priv := PRV_U, mip := 0xa0, mie := 0xa0\<rparr>"
  have five: "irq_ready ?s 5" by (simp add: irq_ready_def prv_defs)
  obtain b t where r: "raise_interrupt ?s = (b, t)" by fastforce
  have c: "case (b, t) of (False, s') \<Rightarrow> s' = ?s \<and> (\<forall>n. \<not> irq_ready ?s n)
    | (True, s') \<Rightarrow> (\<exists>n. irq_ready ?s n \<and> (\<forall>j < n. \<not> irq_ready ?s j) \<and>
        s' = raise_exception2 ?s (word_of_nat n OR CAUSE_INTERRUPT) 0)"
    using raise_interrupt_correct [of ?s] unfolding r by simp
  then have b: b using five by (cases b) auto
  then obtain n where n: "irq_ready ?s n" "\<forall>j < n. \<not> irq_ready ?s j"
    "t = raise_exception2 ?s (word_of_nat n OR CAUSE_INTERRUPT) 0" using c by auto
  have "bit (0xa0 :: u32) n" using n(1) by (simp add: irq_ready_def)
  moreover have "n \<le> 5" using n(2) five by (metis not_less)
  then have "n = 0 \<or> n = 1 \<or> n = 2 \<or> n = 3 \<or> n = 4 \<or> n = 5" by arith
  ultimately have "n = 5" by auto
  then show ?thesis using r b n(3) by simp
qed

subsection \<open>Refused CSR accesses\<close>

lemma csr_read_denied: "csr_access_denied s csr w \<Longrightarrow> csr_read s csr w = None"
  by (simp add: csr_read_def)

text \<open>C19: A CSR instruction on a register that the privilege level may not touch, or that would
  write a read-only register, is an illegal instruction without any effect (\<open>insn_counter\<close> is
  brought up to date first, as for every CSR instruction).\<close>

theorem csr_denied:
  assumes "ucast (priv s) < drop_bit 8 (drop_bit 20 insn) AND (3 :: u32) \<or>
      drop_bit 20 insn AND 0xc00 = 0xc00 \<and> (drop_bit 12 insn AND 3 = 1 \<or> insn_rs1 insn \<noteq> 0)"
  shows "exec_csr insn get_pc counter s = Some (Illegal_insn, s\<lparr>insn_counter := counter\<rparr>)"
proof -
  have f: "(drop_bit 12 insn AND 7) AND 3 = drop_bit 12 insn AND 3"
    by (simp add: and.assoc)
  let ?s = "s\<lparr>insn_counter := counter\<rparr>" and ?csr = "drop_bit 20 insn"
  have r: "csr_read ?s ?csr True = None"
    using assms by (intro csr_read_denied) (auto simp: csr_access_denied_def)
  show ?thesis
  proof (cases "drop_bit 12 insn AND 3 = 1")
    case True
    then show ?thesis using r unfolding exec_csr_def Let_def f by simp
  next
    case False
    then have "csr_read ?s ?csr (insn_rs1 insn \<noteq> 0) = None"
      using assms by (intro csr_read_denied) (auto simp: csr_access_denied_def)
    then show ?thesis using False unfolding exec_csr_def Let_def f by simp
  qed
qed

text \<open>The witness is \<open>csrrw x1, mstatus, x2\<close> at user level.\<close>

lemma csr_denied_witness:
  "exec_csr 0x300110f3 0 7 (sample_cpu\<lparr>priv := PRV_U\<rparr>) =
     Some (Illegal_insn, sample_cpu\<lparr>priv := PRV_U, insn_counter := 7\<rparr>)"
  using csr_denied [of "sample_cpu\<lparr>priv := PRV_U\<rparr>" "0x300110f3" 0 7] by (simp add: prv_defs)

end
