(* ===== verification/Confinement.thy ===== *)
theory Confinement
  imports CpuRun TrapSpec
begin

section \<open>What the lower privilege levels cannot do\<close>

text \<open>
  A run of the interpreter that starts inside a privilege boundary ends inside it or at the entry of
  a trap handler. \<open>confined\<close> is the argument: it needs that traps leave the boundary properly and
  that no instruction crosses it. It is used for the boundary of user mode and for the boundary of
  the supervisor.
\<close>

locale confined = quiet_devices env for env :: "'z riscv_cpu_scheme cpu_env" +
  fixes inside :: "'z riscv_cpu_scheme \<Rightarrow> bool" and left :: "'z riscv_cpu_scheme \<Rightarrow> bool"
  assumes inside_core: "core t = core s \<Longrightarrow> inside s \<Longrightarrow> inside t"
    and inside_pc: "inside s \<Longrightarrow> inside (s\<lparr>pc := a\<rparr>)"
    and inside_left: "inside s \<Longrightarrow> left s"
    and left_counter: "left s \<Longrightarrow> left (s\<lparr>insn_counter := n\<rparr>)"
    and trap_left: "inside s \<Longrightarrow> left (raise_exception2 s cause tval)"
    and exec_inside: "exec_insn env insn a n s = Some (out, s') \<Longrightarrow> inside s \<Longrightarrow> inside s'"
begin

lemma inside_frame: "inside s \<Longrightarrow> inside (s\<lparr>pending_exception := i\<rparr>)"
    "inside s \<Longrightarrow> inside (s\<lparr>pending_exception := i, pending_tval := b\<rparr>)"
  by (auto intro: inside_core [of _ s])

lemma left_end: "left s \<Longrightarrow> left (the_end addend c s)" "left s \<Longrightarrow> left (done_interp addend c s)"
  by (simp_all add: the_end_def done_interp_def left_counter)

lemma interrupt_left:
  "raise_interrupt s = (b, s') \<Longrightarrow> inside s \<Longrightarrow> if b then left s' else s' = s"
  by (auto simp: raise_interrupt_def raise_exception_def Let_def split: if_splits intro: trap_left)

lemma exception_left: "inside s \<Longrightarrow> left (take_exception addend c s)"
    "inside s \<Longrightarrow> left (take_exception addend c (illegal_insn insn s))"
  by (auto simp: take_exception_def illegal_insn_def Let_def
      intro!: left_end trap_left inside_pc inside_frame intro: inside_left)

lemma fetch_left:
  assumes f: "fetch_insn env c s = Some (f, c', s')" and i: "inside s"
  shows "if f = Fetch_end then left s' else inside s'"
proof (cases "code_ptr c \<ge> code_end c")
  case False
  then show ?thesis using f i
    by (auto simp: fetch_insn_def split: bind_splits dest!: get_vmm_insn32_core intro: inside_core)
next
  case True
  note s1 = inside_pc [OF i]
  have block: "g \<noteq> Fetch_end \<and> inside t" if b: "fetch_block env c (s\<lparr>pc := a\<rparr>) = Some (g, d, t)" for a d g t
    using fetch_block_core [OF b] fetch_block_end [OF b] inside_core [OF _ s1] by blast
  have irq: "if b then left t else t = s\<lparr>pc := a\<rparr>"
    if "raise_interrupt (s\<lparr>pc := a\<rparr>) = (b, t)" for a b t
    using interrupt_left [OF that s1] .
  show ?thesis using f True i
    by (auto simp: fetch_insn_def Let_def split: if_splits prod.splits
        dest!: irq dest: block intro: inside_left inside_pc)
qed

lemma round_left:
  assumes r: "interp_round env addend c s = Some r" and i: "inside s"
  shows "case r of Inl (c', s') \<Rightarrow> inside s' | Inr s' \<Rightarrow> left s'"
proof -
  let ?c = "c\<lparr>n_cycles := n_cycles c - 1\<rparr>"
  obtain f d t where f: "fetch_insn env ?c s = Some (f, d, t)"
    using r by (auto simp: interp_round_def Let_def split: bind_splits)
  have t: "if f = Fetch_end then left t else inside t" by (rule fetch_left [OF f i])
  show ?thesis
  proof (cases f)
    case (Fetched insn)
    obtain out v where x: "exec_insn env insn (GET_PC d) (GET_INSN_COUNTER addend d) t = Some (out, v)"
      using r f Fetched by (auto simp: interp_round_def Let_def split: bind_splits)
    then have "inside v" using exec_inside t Fetched by simp
    then show ?thesis
      using r f Fetched x
      by (cases out) (auto simp: interp_round_def exception_left intro!: left_end intro: inside_left)
  qed (use r f t in \<open>auto simp: interp_round_def exception_left left_end\<close>)
qed

lemma interp_x32_left:
  assumes r: "riscv_cpu_interp_x32 env n s = Some s'" and i: "inside s"
  shows "left s'"
proof -
  have loop: "left s'" if "interp_loop env a c (s\<lparr>pending_exception := j\<rparr>) = Some s'" for a c j
  proof (rule interp_loop_invariant [OF that, where I = "\<lambda>c s. inside s" and Q = left])
    show "inside (s\<lparr>pending_exception := j\<rparr>)" using i by (rule inside_frame)
  qed (auto dest: round_left)
  show ?thesis using r i
    by (auto simp: riscv_cpu_interp_x32_def Let_def split: if_splits prod.splits
        dest!: interrupt_left dest: loop intro: inside_left left_end)
qed

end

subsection \<open>The boundary of user mode\<close>

text \<open>
  What user mode cannot change: \<open>user_of p\<close> are the states at user level with the privileged
  part \<open>p\<close>. \<open>left_user p\<close> adds the states at the entry of a trap handler that \<open>p\<close> has
  registered.
\<close>

definition user_of :: "riscv_cpu \<Rightarrow> 'z riscv_cpu_scheme \<Rightarrow> bool" where
  "user_of p s \<longleftrightarrow> privileged s = p \<and> priv s = PRV_U"

definition left_user :: "riscv_cpu \<Rightarrow> 'z riscv_cpu_scheme \<Rightarrow> bool" where
  "left_user p s \<longleftrightarrow> user_of p s \<or> priv s = PRV_S \<and> pc s = stvec p \<or> priv s = PRV_M \<and> pc s = mtvec p"

lemma user_of_left: "user_of p s \<Longrightarrow> left_user p s"
  by (simp add: left_user_def)

lemma user_of_core: "core t = core s \<Longrightarrow> user_of p s \<Longrightarrow> user_of p t"
  using privileged_core [of t s] core_eqD [of t s] by (simp add: user_of_def)

lemma priv_privileged: "priv (privileged s) = priv s"
  by (simp add: privileged_def core_def riscv_cpu.truncate_def)

lemma user_of_privileged: "privileged t = privileged s \<Longrightarrow> user_of p s \<Longrightarrow> user_of p t"
  using priv_privileged [of t] priv_privileged [of s] by (simp add: user_of_def)

lemma user_of_simps [simp]:
  "user_of p (s\<lparr>pc := a\<rparr>) = user_of p s"
  "user_of p (s\<lparr>insn_counter := n\<rparr>) = user_of p s"
  "user_of p (s\<lparr>pending_exception := i\<rparr>) = user_of p s"
  "user_of p (s\<lparr>pending_tval := a\<rparr>) = user_of p s"
  by (simp_all add: user_of_def)

lemma left_user_counter [simp]:
  "left_user p (s\<lparr>insn_counter := n\<rparr>) = left_user p s"
  by (simp_all add: left_user_def user_of_def)

lemma raise_exception2_user:
  "user_of p s \<Longrightarrow> left_user p (raise_exception2 s cause tval)"
  by (auto simp: left_user_def user_of_def raise_exception2_def set_priv_def Let_def prv_defs
      privileged_def core_def riscv_cpu.truncate_def)

context quiet_devices
begin

lemma user_confined: "confined env (user_of p) (left_user p)"
proof unfold_locales
  show "user_of p s'" if "exec_insn env insn a n s = Some (out, s')" "user_of p s" for insn a n s out s'
    using exec_insn_user [OF that(1)] that(2) user_of_privileged [of s' s p] by (simp add: user_of_def)
qed (auto intro: user_of_left user_of_core raise_exception2_user)

end

subsection \<open>The boundary of the supervisor\<close>

text \<open>
  What code below machine level cannot change: the machine-level registers, the bits of \<open>mie\<close>
  that are not delegated, and the bits of \<open>mstatus\<close> that are not in \<open>sstatus\<close>.
\<close>

definition machine_level :: "'z riscv_cpu_scheme \<Rightarrow> riscv_cpu" where
  "machine_level s = (privileged s)\<lparr>priv := 0, stvec := 0, sscratch := 0, sepc := 0, scause := 0,
     stval := 0, satp := 0, scounteren := 0, mie := mie s AND NOT (mideleg s),
     mstatus := mstatus s AND NOT SSTATUS_MASK\<rparr>"

definition below_machine :: "riscv_cpu \<Rightarrow> 'z riscv_cpu_scheme \<Rightarrow> bool" where
  "below_machine p s \<longleftrightarrow> machine_level s = p \<and> priv s \<le> PRV_S"

definition left_below :: "riscv_cpu \<Rightarrow> 'z riscv_cpu_scheme \<Rightarrow> bool" where
  "left_below p s \<longleftrightarrow> below_machine p s \<or> priv s = PRV_M \<and> pc s = mtvec p"

lemma machine_level_privileged:
  assumes "privileged t = privileged s"
  shows "machine_level t = machine_level s \<and> priv t = priv s"
proof -
  have "mie t = mie s" "mideleg t = mideleg s" "mstatus t = mstatus s" "priv t = priv s"
    using arg_cong [OF assms, of mie] arg_cong [OF assms, of mideleg] arg_cong [OF assms, of mstatus]
      arg_cong [OF assms, of priv]
    by (simp_all add: privileged_def core_def riscv_cpu.truncate_def)
  then show ?thesis unfolding machine_level_def assms by simp
qed

lemma below_privileged: "privileged t = privileged s \<Longrightarrow> below_machine p s \<Longrightarrow> below_machine p t"
  using machine_level_privileged [of t s] by (simp add: below_machine_def)

lemma below_core: "core t = core s \<Longrightarrow> below_machine p s \<Longrightarrow> below_machine p t"
  using below_privileged [OF privileged_core, of t s p] by simp

lemma masked_and_not [simp]: "masked old m val AND NOT m = old AND NOT m"
  by (rule bit_word_eqI) (auto simp: masked_def bits)

lemma machine_level_simps [simp]:
  "machine_level (s\<lparr>pc := a\<rparr>) = machine_level s"
  "machine_level (s\<lparr>priv := q\<rparr>) = machine_level s"
  "machine_level (s\<lparr>fs := q\<rparr>) = machine_level s"
  "machine_level (s\<lparr>fflags := a\<rparr>) = machine_level s"
  "machine_level (s\<lparr>frm := q\<rparr>) = machine_level s"
  "machine_level (s\<lparr>stvec := a\<rparr>) = machine_level s"
  "machine_level (s\<lparr>sscratch := a\<rparr>) = machine_level s"
  "machine_level (s\<lparr>sepc := a\<rparr>) = machine_level s"
  "machine_level (s\<lparr>scause := a\<rparr>) = machine_level s"
  "machine_level (s\<lparr>stval := a\<rparr>) = machine_level s"
  "machine_level (s\<lparr>satp := a\<rparr>) = machine_level s"
  "machine_level (s\<lparr>scounteren := a\<rparr>) = machine_level s"
  "machine_level (s\<lparr>mip := a\<rparr>) = machine_level s"
  "machine_level (s\<lparr>insn_counter := n\<rparr>) = machine_level s"
  "machine_level (s\<lparr>power_down_flag := b\<rparr>) = machine_level s"
  "machine_level (s\<lparr>pending_exception := i\<rparr>) = machine_level s"
  "machine_level (s\<lparr>reg := rs\<rparr>) = machine_level s"
  by (simp_all add: machine_level_def privileged_def core_def riscv_cpu.truncate_def)

lemma machine_level_mie:
  "a AND NOT (mideleg s) = mie s AND NOT (mideleg s) \<Longrightarrow> machine_level (s\<lparr>mie := a\<rparr>) = machine_level s"
  by (simp add: machine_level_def privileged_def core_def riscv_cpu.truncate_def)

lemma machine_level_mstatus:
  "a AND NOT SSTATUS_MASK = mstatus s AND NOT SSTATUS_MASK \<Longrightarrow> machine_level (s\<lparr>mstatus := a\<rparr>) = machine_level s"
  by (simp add: machine_level_def privileged_def core_def riscv_cpu.truncate_def)

lemma bit_sstatus: "bit SSTATUS_MASK 0" "bit SSTATUS_MASK 1" "bit SSTATUS_MASK 5" "bit SSTATUS_MASK 8"
  by (simp_all add: SSTATUS_MASK_def mstatus_bits mstatus_shifts)

lemma set_sstatus:
  fixes s :: "'z riscv_cpu_scheme"
  shows "machine_level (set_mstatus s (masked (mstatus s) SSTATUS_MASK val)) = machine_level s"
proof -
  have "((m AND NOT k) OR (masked m SSTATUS_MASK val AND k)) AND NOT SSTATUS_MASK = m AND NOT SSTATUS_MASK" for m k
    by (rule bit_word_eqI) (auto simp: masked_def bits)
  then have x: "machine_level (t\<lparr>mstatus := (mstatus t AND NOT k) OR (masked (mstatus s) SSTATUS_MASK val AND k)\<rparr>) =
      machine_level t" if "mstatus t = mstatus s" for t :: "'z riscv_cpu_scheme" and k
    using that by (intro machine_level_mstatus) simp
  show ?thesis unfolding set_mstatus_def Let_def by (subst x) simp_all
qed

lemma csr_write_below:
  assumes "priv s \<le> PRV_S" and "csr_read s csr True = Some v"
  shows "machine_level (snd (csr_write s csr val)) = machine_level s"
proof -
  have "\<not> csr_access_denied s csr True"
    using assms(2) by (auto simp: csr_read_def split: if_splits)
  then have "drop_bit 8 csr AND 3 \<le> 1" and "csr AND 0xc00 \<noteq> 0xc00"
    using assms(1) by (auto simp: csr_access_denied_def prv_defs not_less word_le_nat_alt)
  then have "csr \<noteq> 0x300" "csr \<noteq> 0x301" "csr \<noteq> 0x302" "csr \<noteq> 0x303" "csr \<noteq> 0x304" "csr \<noteq> 0x305" "csr \<noteq> 0x306"
    "csr \<noteq> 0x340" "csr \<noteq> 0x341" "csr \<noteq> 0x342" "csr \<noteq> 0x343" "csr \<noteq> 0x344"
    by (auto simp: word_le_nat_alt)
  then show ?thesis by (simp add: csr_write_def set_frm_def machine_level_mie set_sstatus)
qed

lemma sret_below:
  assumes "below_machine p s"
  shows "below_machine p (handle_sret s)"
proof -
  obtain m where h: "handle_sret s = s\<lparr>mstatus := m, priv := ucast (spp_of s), pc := sepc s\<rparr>"
    using return_fields(2) by blast
  have "m = mstatus (handle_sret s)" using h by simp
  then have "m AND NOT SSTATUS_MASK = mstatus s AND NOT SSTATUS_MASK"
    using spp_less [of s] bit_sstatus by (intro bit_word_eqI) (auto simp: bits bit_sret_mstatus less_2_cases_iff)
  moreover have "ucast (spp_of s) \<le> PRV_S" using spp_less [of s]
    by (auto simp: prv_defs word_le_nat_alt unsigned_ucast_eq less_2_cases_iff)
  ultimately show ?thesis using assms h by (simp add: below_machine_def machine_level_mstatus)
qed

lemma exec_csr_below:
  assumes "exec_csr insn get_pc counter s = Some (out, s')" and "below_machine p s"
  shows "below_machine p s'"
proof -
  have w: "below_machine p t'"
    if "csr_read (s\<lparr>insn_counter := n\<rparr>) csr wr = Some a" "wr" "csr_write (s\<lparr>insn_counter := n\<rparr>) csr v = (e, t')"
    for n csr a wr v e t'
  proof -
    let ?s = "s\<lparr>insn_counter := n\<rparr>"
    have "csr_read ?s csr True = Some a" using that by simp
    then have "machine_level (snd (csr_write ?s csr v)) = machine_level ?s"
      using assms(2) by (intro csr_write_below) (simp_all add: below_machine_def)
    then show ?thesis using that(3) assms(2) csr_write_priv [of ?s csr v] by (simp add: below_machine_def)
  qed
  have a: "below_machine p t'" if "after_csr_write get_pc rd v err t = Some (out, t')" "below_machine p t"
    for rd v err t t'
    using that by (auto simp: after_csr_write_def below_machine_def put_rd_def put_reg_def Let_def split: if_splits)
  have c: "below_machine p (s\<lparr>insn_counter := n\<rparr>)" for n using assms(2) by (simp add: below_machine_def)
  show ?thesis
    using assms(1) c unfolding exec_csr_def Let_def
    by (auto split: if_splits option.splits prod.splits intro: w a)
qed

lemma exec_priv_below:
  assumes "exec_priv insn get_pc s = Some (out, s')" and "below_machine p s"
  shows "below_machine p s'"
proof -
  have "priv s \<le> PRV_S" using assms(2) by (simp add: below_machine_def)
  then have m: "priv s < PRV_M" by (simp add: prv_defs word_le_nat_alt word_less_nat_alt)
  have r: "below_machine p (handle_sret (s\<lparr>pc := a\<rparr>))" for a
    using assms(2) by (intro sret_below) (simp add: below_machine_def)
  show ?thesis using assms m r
    by (auto simp: exec_priv_def Let_def below_machine_def split: if_splits)
qed

lemma raise_exception2_below:
  assumes "below_machine p s"
  shows "left_below p (raise_exception2 s cause tval)"
proof (cases "delegated s cause")
  case True
  let ?t = "raise_exception2 s cause tval"
  have p4: "priv s < 4" using True by (auto simp: delegated_def prv_defs word_le_nat_alt word_less_nat_alt)
  obtain m where t: "?t = s\<lparr>scause := trap_cause s cause, sepc := pc s, stval := tval, mstatus := m,
      priv := PRV_S, pc := stvec s\<rparr>"
    using trap_fields(2) [OF True] by blast
  then have "m = mstatus ?t" by simp
  then have "m AND NOT SSTATUS_MASK = mstatus s AND NOT SSTATUS_MASK"
    using bit_sstatus by (intro bit_word_eqI) (auto simp: bits bit_delegated_mstatus [OF True p4])
  then show ?thesis using assms t by (simp add: left_below_def below_machine_def machine_level_mstatus)
next
  case False
  have "mtvec (machine_level s) = mtvec s"
    by (simp add: machine_level_def privileged_def core_def riscv_cpu.truncate_def)
  then show ?thesis using trap_fields(1) [OF False, of tval] assms
    by (auto simp: left_below_def below_machine_def)
qed

context quiet_devices
begin

lemma exec_insn_below:
  assumes "exec_insn env insn get_pc counter s = Some (out, s')" and "below_machine p s"
  shows "below_machine p s'"
proof (cases "insn AND 0x7f = 0x73")
  case True
  then have "exec_system insn get_pc counter s = Some (out, s')"
    using assms(1) by (simp add: exec_insn_def)
  then show ?thesis using assms(2)
    by (auto simp: exec_system_def split: if_splits dest: exec_csr_below exec_priv_below)
next
  case False
  then show ?thesis using exec_insn_tame [OF assms(1)] assms(2) by (auto simp: tame_def intro: below_privileged)
qed

lemma below_confined: "confined env (below_machine p) (left_below p)"
proof unfold_locales
  show "below_machine p s'" if "exec_insn env insn a n s = Some (out, s')" "below_machine p s" for insn a n s out s'
    using that by (rule exec_insn_below)
  show "below_machine p t" if "core t = core s" "below_machine p s" for t s :: "'a riscv_cpu_scheme"
    using that by (rule below_core)
  show "left_below p (raise_exception2 s cause tval)" if "below_machine p s" for s :: "'a riscv_cpu_scheme" and cause tval
    using that by (rule raise_exception2_below)
qed (simp_all add: left_below_def below_machine_def)

end

end
