(* ===== verification/MachineRun.thy ===== *)
theory MachineRun
  imports Confinement RiscvMachine
begin

section \<open>Runs of the machine\<close>

text \<open>
  The devices of the machine meet the contract of the CPU (\<open>quiet_devices\<close>) when the virtio
  devices do, so the invariant of the CPU and the boundary of user mode hold of whole runs of
  \<open>riscv_machine_interp\<close>.
\<close>

subsection \<open>The contract of the devices\<close>

text \<open>
  What is asked of the virtio devices, which are a parameter: an access changes the interrupt lines,
  the power-down flag and the memory at most (the device raises its interrupt and moves data to and
  from RAM).
\<close>

definition virtio_quiet :: "'z riscv_machine_scheme machine_env \<Rightarrow> bool" where
  "virtio_quiet menv \<longleftrightarrow>
     (\<forall>d off n s v s'. virtio_read menv d off n s = Some (v, s') \<longrightarrow> core s' = core s) \<and>
     (\<forall>d off v n s s'. virtio_write menv d off v n s = Some s' \<longrightarrow> core s' = core s)"

lemma core_machine [simp]:
  "core (s\<lparr>timecmp := a\<rparr>) = core s"
  "core (s\<lparr>plic_pending_irq := b\<rparr>) = core s"
  "core (s\<lparr>plic_served_irq := b\<rparr>) = core s"
  "core (s\<lparr>htif_tohost := a\<rparr>) = core s"
  "core (s\<lparr>htif_fromhost := a\<rparr>) = core s"
  "core (s\<lparr>console_out := out\<rparr>) = core s"
  by (simp_all add: core_def riscv_cpu.truncate_def)

lemma core_irq [simp]:
  "core (riscv_cpu_set_mip s a) = core s"
  "core (riscv_cpu_reset_mip s a) = core s"
  "core (plic_update_mip t) = core t"
  by (simp_all add: riscv_cpu_set_mip_def riscv_cpu_reset_mip_def plic_update_mip_def Let_def)

lemma machine_read_core:
  assumes "virtio_quiet menv" and "machine_read menv d off n s = Some (v, s')"
  shows "core s' = core s"
  using assms
  by (auto simp: machine_read_def plic_read_def virtio_quiet_def Let_def split: if_splits bind_splits)

lemma htif_handle_cmd_core: "htif_handle_cmd s = Some s' \<Longrightarrow> core s' = core s"
  by (auto simp: htif_handle_cmd_def Let_def split: if_splits)

lemma machine_write_core:
  assumes "virtio_quiet menv" and "machine_write menv d off v n s = Some s'"
  shows "core s' = core s"
  using assms
  by (auto simp: machine_write_def clint_write_def plic_write_def htif_write_def virtio_quiet_def
      Let_def split: if_splits bind_splits dest!: htif_handle_cmd_core)

lemma machine_quiet: "virtio_quiet menv \<Longrightarrow> quiet_devices (machine_cpu_env menv)"
  by unfold_locales
    (auto simp: machine_cpu_env_def dest: machine_read_core machine_write_core)

text \<open>The machine without virtio devices meets the contract.\<close>

definition no_virtio :: "'z riscv_machine_scheme machine_env \<Rightarrow> 'z riscv_machine_scheme machine_env" where
  "no_virtio menv = menv\<lparr>virtio_read := \<lambda>_ _ _ _. None, virtio_write := \<lambda>_ _ _ _ _. None\<rparr>"

lemma no_virtio_quiet: "virtio_quiet (no_virtio menv)"
  by (simp add: virtio_quiet_def no_virtio_def)

interpretation bare_machine: quiet_devices "machine_cpu_env (no_virtio menv)" for menv
  by (rule machine_quiet [OF no_virtio_quiet])

interpretation machine_below: confined "machine_cpu_env (no_virtio menv)" "below_machine p" "left_below p" for menv p
  by (rule bare_machine.below_confined)

interpretation user_machine: confined "machine_cpu_env (no_virtio menv)" "user_of p" "left_user p" for menv p
  by (rule bare_machine.user_confined)

subsection \<open>A machine for the witnesses\<close>

definition sample_board :: "unit riscv_machine_scheme machine_env" where
  "sample_board = \<lparr>clock_gettime = \<lambda>_. (0, 0), virtio_read = \<lambda>_ _ _ _. None,
     virtio_write = \<lambda>_ _ _ _ _. None, alloc_env = sample_env, stack_junk = \<lambda>_. 0,
     float_ops = softfp_unit\<rparr>"

lemma sample_board_quiet: "virtio_quiet sample_board"
  by (simp add: virtio_quiet_def sample_board_def)

definition sample_machine :: riscv_machine where
  "sample_machine = machine_zero (riscv_cpu_init phys_mem_map_init ()) ()"

lemma sample_machine_select [simp]:
  "pc sample_machine = 0x1000" "priv sample_machine = PRV_M" "mip sample_machine = 0"
  "mie sample_machine = 0" "cur_xlen sample_machine = 32" "insn_counter sample_machine = 0"
  "power_down_flag sample_machine = False" "mem_map sample_machine = phys_mem_map_init"
  "mstatus sample_machine = 0" "stvec sample_machine = 0" "mtvec sample_machine = 0"
  "satp sample_machine = 0" "mideleg sample_machine = 0" "medeleg sample_machine = 0"
  by (simp_all add: sample_machine_def machine_zero_def riscv_cpu_init_def riscv_cpu.defs
      get_base_from_xlen_def)

text \<open>Without memory the first fetch gives the word 0, which is no instruction.\<close>

lemma no_memory [simp]:
  "get_phys_mem_range phys_mem_map_init a = None"
  by (simp add: get_phys_mem_range_def phys_mem_map_init_def)

lemma exec_zero: "exec_insn env 0 a n s = Some (Illegal_insn, s)"
  by (simp add: exec_insn_def exec_c0_def get_field1_def Let_def)

lemma sample_trap:
  "riscv_cpu_interp_x32 (machine_cpu_env sample_board) 1 (sample_machine\<lparr>priv := p\<rparr>) =
     Some (raise_exception2 (sample_machine\<lparr>priv := p, pending_exception := 2, pending_tval := 0, pc := 0x1000\<rparr>) 2 0
       \<lparr>insn_counter := 1\<rparr>)"
  by (simp add: riscv_cpu_interp_x32_def Let_def interp_loop.simps interp_round_def fetch_insn_def
      fetch_block_def target_read_insn_slow_vmm_def get_phys_addr_def GET_PC_def get_vmm_insn32_def
      PG_MASK_def exec_zero take_exception_def illegal_insn_def done_interp_def the_end_def
      GET_INSN_COUNTER_def cause_defs)

lemma raise_exception2_frame [simp]:
  "insn_counter (raise_exception2 s cause tval) = insn_counter s"
  "power_down_flag (raise_exception2 s cause tval) = power_down_flag s"
  by (simp_all add: raise_exception2_def set_priv_def Let_def)

lemma sample_run:
  "\<exists>s. riscv_machine_interp sample_board 1 (sample_machine\<lparr>priv := p\<rparr>) = Some s"
  by (simp add: riscv_machine_interp_def riscv_cpu_interp_def riscv_cpu_interp_until.simps Let_def
      sample_trap)

lemma sample_machine_ok: "cpu_ok (sample_machine\<lparr>priv := PRV_M\<rparr>)"
  by (simp add: cpu_ok_def regs_ok_def sys_ok_def sample_machine_def machine_zero_def
      riscv_cpu_init_def riscv_cpu.defs get_base_from_xlen_def prv_defs)

lemma privileged_vectors: "stvec (privileged s) = stvec s" "mtvec (privileged s) = mtvec s"
  by (simp_all add: privileged_def core_def riscv_cpu.truncate_def)

subsection \<open>Properties\<close>







end
