(* ===== verification/AluSpec.thy ===== *)
theory AluSpec
  imports RiscvInsn
begin

section \<open>Arithmetic and immediates against the instruction set manual\<close>

text \<open>
  The M extension on integers, and the immediates bit by bit: the definitions of the manual, in
  mathematical terms, and the proofs that the code's word arithmetic computes them.
\<close>

subsection \<open>Multiplication\<close>

lemma signed_drop_high:
  "ucast (signed_drop_bit 32 (word_of_int p :: u64)) = (word_of_int (p div 2 ^ 32) :: u32)"
proof -
  have "word_of_int (p div 2 ^ 32) = (word_of_int (drop_bit 32 p) :: u32)" by (simp add: drop_bit_eq_div)
  moreover have "ucast (signed_drop_bit 32 (word_of_int p :: u64)) = (word_of_int (drop_bit 32 p) :: u32)"
    by (rule bit_word_eqI)
      (auto simp: bit_unsigned_iff bit_signed_drop_bit_iff bit_word_of_int_iff bit_drop_bit_eq)
  ultimately show ?thesis by simp
qed

lemma scast_int: "(scast (a :: u32) :: u64) = word_of_int (sint a)"
  and ucast_int: "(ucast (a :: u32) :: u64) = word_of_int (uint a)"
  by (rule scast_eq, rule ucast_eq)

text \<open>C20: The upper halves: \<open>mulh\<close>, \<open>mulhsu\<close> and \<open>mulhu\<close> give the upper 32 bits of the exact product
  of the operands, read as signed, signed and unsigned, and unsigned.\<close>

theorem mul_upper_halves:
  "mulh32 a b = word_of_int ((sint a * sint b) div 2 ^ 32) \<and>
   mulhsu32 a b = word_of_int ((sint a * uint b) div 2 ^ 32) \<and>
   mulhu32 a b = word_of_int ((uint a * uint b) div 2 ^ 32)"
  by (simp only: mulh32_def mulhsu32_def mulhu32_def scast_int ucast_int wi_hom_mult signed_drop_high)

subsection \<open>Division\<close>

text \<open>The table of the manual: division by zero gives all ones and the dividend as the remainder, the
  overflow of the signed division gives the dividend and zero, and otherwise the quotient is rounded
  towards zero and the remainder has the sign of the dividend.\<close>

definition div_spec :: "int \<Rightarrow> int \<Rightarrow> int" where
  "div_spec a b = (if b = 0 then - 1 else sgn a * sgn b * (\<bar>a\<bar> div \<bar>b\<bar>))"

definition rem_spec :: "int \<Rightarrow> int \<Rightarrow> int" where
  "rem_spec a b = (if b = 0 then a else sgn a * (\<bar>a\<bar> mod \<bar>b\<bar>))"

lemma sint_overflow: "sint (push_bit 31 1 :: u32) = - (2 ^ 31)" "sint (- 1 :: u32) = - 1"
  by simp_all

text \<open>C21: Division and remainder follow the manual for all operands: with the quotient rounded
  towards zero, the remainder with the sign of the dividend, and the values for a zero divisor and
  for the overflow, which is what the wrapped exact quotient gives.\<close>

theorem div_rem_correct:
  "div32 a b = word_of_int (div_spec (sint a) (sint b)) \<and>
   rem32 a b = word_of_int (rem_spec (sint a) (sint b)) \<and>
   divu32 a b = word_of_int (div_spec (uint a) (uint b)) \<and>
   remu32 a b = word_of_int (rem_spec (uint a) (uint b))"
proof -
  have z: "(sint b = 0) = (b = 0)" "(uint b = 0) = (b = 0)" by (rule signed_eq_0_iff, rule uint_0_iff)
  have d: "div32 a b = word_of_int (div_spec (sint a) (sint b))"
    using z sint_overflow
    by (auto simp: div32_def div_spec_def signed_divide_int_def)
  have r: "rem32 a b = word_of_int (rem_spec (sint a) (sint b))"
    using z sint_overflow
    by (auto simp: rem32_def rem_spec_def signed_modulo_int_def signed_divide_int_def)
  have u: "divu32 a b = word_of_int (div_spec (uint a) (uint b))"
    using z by (auto simp: divu32_def div_spec_def word_div_def)
  have v: "remu32 a b = word_of_int (rem_spec (uint a) (uint b))"
    using z by (auto simp: remu32_def rem_spec_def word_mod_def)
  show ?thesis using d r u v by blast
qed

subsection \<open>Immediates\<close>

text \<open>
  A format of the manual is the list of the instruction bits that make up the immediate, from bit 0
  on (\<open>None\<close> is a zero); the last one is repeated up to bit 31 (the sign).
\<close>

definition imm_bit :: "nat option list \<Rightarrow> u32 \<Rightarrow> nat \<Rightarrow> bool" where
  "imm_bit fmt insn n = (case (if n < length fmt then fmt ! n else last fmt) of None \<Rightarrow> False | Some k \<Rightarrow> bit insn k)"

definition format_i :: "nat option list" where
  "format_i = map Some [20..<32]"

definition format_s :: "nat option list" where
  "format_s = map Some ([7..<12] @ [25..<32])"

definition format_b :: "nat option list" where
  "format_b = None # map Some ([8..<12] @ [25..<31] @ [7, 31])"

definition format_j :: "nat option list" where
  "format_j = None # map Some ([21..<31] @ [20] @ [12..<20] @ [31])"

definition format_cj :: "nat option list" where
  "format_cj = None # map Some [3, 4, 5, 11, 2, 7, 6, 9, 10, 8, 12]"

definition format_cb :: "nat option list" where
  "format_cb = None # map Some [3, 4, 10, 11, 2, 5, 6, 12]"

definition follows :: "(u32 \<Rightarrow> u32) \<Rightarrow> nat option list \<Rightarrow> bool" where
  "follows imm fmt \<longleftrightarrow> (\<forall>insn. \<forall>n < 32. bit (imm insn) n = imm_bit fmt insn n)"

lemma followsI:
  "(\<And>insn. list_all (\<lambda>n. bit (imm insn) n = imm_bit fmt insn n) [0..<32]) \<Longrightarrow> follows imm fmt"
  by (auto simp: follows_def list_all_iff)

lemma bit_times_2: "bit (a * 2 :: u32) n \<longleftrightarrow> 0 < n \<and> n < 32 \<and> bit a (n - 1)"
  using bit_double_iff [of a n] by (auto simp: mult.commute)

lemma three: "Suc (Suc (Suc 0)) = 3" by simp

lemmas imm_bits = bit_times_2 three imm_bit_def upt_rec bit_signed_drop_bit_iff bit_push_bit_iff bit_or_iff bit_and_iff
  bit_drop_bit_eq bit_mask_iff

lemma follows_i: "follows (signed_drop_bit 20) format_i"
  by (intro followsI) (simp add: imm_bits format_i_def)

lemma follows_s: "follows imm_store format_s"
  by (intro followsI) (simp add: imm_bits imm_store_def format_s_def)

lemma follows_b: "follows imm_branch format_b"
  by (intro followsI) (simp add: imm_bits imm_branch_def format_b_def Let_def)

lemma follows_j: "follows imm_jal format_j"
  by (intro followsI) (simp add: imm_bits imm_jal_def format_j_def Let_def)

lemma follows_cj: "follows c_imm_j format_cj"
  by (intro followsI) (simp add: imm_bits c_imm_j_def format_cj_def get_field1_def sext_def Let_def)

lemma follows_cb: "follows c_imm_b format_cb"
  by (intro followsI) (simp add: imm_bits c_imm_b_def format_cb_def get_field1_def sext_def Let_def)

text \<open>C22: The immediates that the interpreter assembles have the bits that the manual says: of the I, S,
  B and J formats and of the compressed jumps and branches.\<close>

theorem immediates_follow_formats:
  "follows (signed_drop_bit 20) format_i \<and> follows imm_store format_s \<and> follows imm_branch format_b \<and>
   follows imm_jal format_j \<and> follows c_imm_j format_cj \<and> follows c_imm_b format_cb"
  using follows_i follows_s follows_b follows_j follows_cj follows_cb by blast

end
