(* ===== verification/Mmu.thy ===== *)
theory Mmu
  imports RamAccess
begin

section \<open>Address translation against Sv32\<close>

text \<open>
  The page walk of the CPU on page tables in RAM, compared with the description of Sv32 in the
  manual: which PTE is the leaf, whether it allows the access, the physical address, and the
  accessed and dirty bits that are set in memory.
\<close>

subsection \<open>The description\<close>

text \<open>
  \<open>rd\<close> reads a word of physical memory. The result is the address of the leaf PTE, the leaf PTE and
  the number of bits of the page offset (12, or 22 for a superpage); \<open>None\<close> is a page fault.
\<close>

definition vpn :: "u32 \<Rightarrow> nat \<Rightarrow> u32" where
  "vpn va i = take_bit 10 (drop_bit (12 + 10 * i) va)"

definition pte_xwr :: "u32 \<Rightarrow> u32" where
  "pte_xwr pte = take_bit 3 (drop_bit 1 pte)"

definition pte_page :: "u32 \<Rightarrow> u32" where
  "pte_page pte = push_bit 12 (drop_bit 10 pte)"

definition sv32_leaf :: "(u32 \<Rightarrow> u32) \<Rightarrow> u32 \<Rightarrow> u32 \<Rightarrow> (u32 \<times> u32 \<times> nat) option" where
  "sv32_leaf rd root va =
     (let a1 = root + 4 * vpn va 1; pte1 = rd a1;
          a0 = pte_page pte1 + 4 * vpn va 0; pte0 = rd a0
      in if \<not> bit pte1 0 then None
         else if pte_xwr pte1 \<noteq> 0 then Some (a1, pte1, 22)
         else if \<not> bit pte0 0 then None
         else if pte_xwr pte0 \<noteq> 0 then Some (a0, pte0, 12)
         else None)"

text \<open>Bits 1, 2, 3 and 4 of a PTE are R, W, X and U; W without R is reserved.\<close>

definition sv32_allowed :: "u8 \<Rightarrow> u32 \<Rightarrow> u32 \<Rightarrow> nat \<Rightarrow> bool" where
  "sv32_allowed prv status pte access \<longleftrightarrow>
     (bit pte 2 \<longrightarrow> bit pte 1) \<and>
     (if bit pte 4 then prv = PRV_S \<longrightarrow> bit status 18 else prv = PRV_S) \<and>
     (if access = ACCESS_READ then bit pte 1 \<or> bit pte 3 \<and> bit status 19
      else if access = ACCESS_WRITE then bit pte 2
      else bit pte 3)"

definition sv32_address :: "u32 \<Rightarrow> u32 \<Rightarrow> nat \<Rightarrow> u32" where
  "sv32_address va pte n = take_bit n va OR push_bit n (drop_bit n (pte_page pte))"

definition sv32_pte :: "u32 \<Rightarrow> nat \<Rightarrow> u32" where
  "sv32_pte pte access = (if access = ACCESS_WRITE then set_bit 7 (set_bit 6 pte) else set_bit 6 pte)"

subsection \<open>Words of RAM\<close>

definition ram_word :: "nat \<Rightarrow> (nat \<Rightarrow> u8) \<Rightarrow> u32 \<Rightarrow> u32" where
  "ram_word base mem a = le_word (mem_bytes mem (unat a - base) 4)"

definition word_in :: "nat \<Rightarrow> nat \<Rightarrow> u32 \<Rightarrow> bool" where
  "word_in base M a \<longleftrightarrow> base \<le> unat a \<and> unat a + 4 \<le> base + M"

lemma phys_read_ram:
  assumes "ram_at i base M mem s" and "word_in base M a"
  shows "\<exists>s'. phys_read_u32 env a s = Some (ram_word base mem a, s') \<and> ram_at i base M mem s' \<and> moved i s s'"
proof -
  have b: "base \<le> unat a" "unat a < base + M" "unat a - base + 4 \<le> M" using assms(2) by (auto simp: word_in_def)
  obtain pr where pr: "get_phys_mem_range (mem_map s) (ucast a) = Some i"
    "range_at (mem_map s) i = Some pr" "pr_is_ram pr" "unat (a - ucast (pr_addr pr)) = unat a - base"
    using ram_atD [OF assms(1) b(1,2)] by metis
  then show ?thesis using range_read_ram [OF assms(1) b(3), of env]
    by (auto simp: phys_read_u32_def ram_word_def)
qed

lemma phys_write_ram:
  assumes "ram_at i base M mem s" and "word_in base M a"
  shows "\<exists>s'. phys_write_u32 env a w s = Some s' \<and>
    ram_at i base M (mem_write mem (unat a - base) (le_bytes 4 w)) s' \<and> moved i s s'"
proof -
  have b: "base \<le> unat a" "unat a < base + M" "unat a - base + 4 \<le> M" using assms(2) by (auto simp: word_in_def)
  obtain pr where pr: "get_phys_mem_range (mem_map s) (ucast a) = Some i"
    "range_at (mem_map s) i = Some pr" "pr_is_ram pr" "unat (a - ucast (pr_addr pr)) = unat a - base"
    using ram_atD [OF assms(1) b(1,2)] by metis
  then show ?thesis using range_write_ram [OF assms(1), of "unat a - base" "le_bytes 4 w" env] b(3)
    by (auto simp: phys_write_u32_def)
qed

subsection \<open>The fields of the code\<close>

lemma and_mask_take: "(a :: u32) AND 7 = take_bit 3 a" "a AND 0x3ff = take_bit 10 a"
  by (simp_all add: take_bit_eq_mask mask_eq_exp_minus_1)

lemma flag_zero: "(a AND PTE_V_MASK = 0) = (\<not> bit a 0)" "(a AND PTE_U_MASK = 0) = (\<not> bit a 4)"
  "(a AND PTE_A_MASK = 0) = (\<not> bit a 6)" "(a AND PTE_D_MASK = 0) = (\<not> bit a 7)"
  "(a AND MSTATUS_SUM = 0) = (\<not> bit a 18)" "(a AND MSTATUS_MXR = 0) = (\<not> bit a 19)"
  by (simp_all only: pte_defs mstatus_bits push_bit_of_1 and_exp_eq_0_iff_not_bit)

lemma bit_small: "bit (2 :: int) n \<longleftrightarrow> n = 1" "bit (4 :: int) n \<longleftrightarrow> n = 2"
  using bit_exp_iff [where 'a = int, of 1 n] bit_exp_iff [where 'a = int, of 2 n] by auto

lemma pte_xwr_bits:
  "pte_xwr pte = of_bool (bit pte 1) OR push_bit 1 (of_bool (bit pte 2)) OR push_bit 2 (of_bool (bit pte 3))"
proof (rule bit_word_eqI)
  fix n assume "n < LENGTH(32)"
  consider "n = 0" | "n = 1" | "n = 2" | "3 \<le> n" by linarith
  then show "bit (pte_xwr pte) n = bit (of_bool (bit pte 1) OR push_bit 1 (of_bool (bit pte 2)) OR
      push_bit 2 (of_bool (bit pte 3)) :: u32) n"
    by cases (auto simp: pte_xwr_def bit_take_bit_iff bit_drop_bit_eq bit_or_iff bit_push_bit_iff bit_of_bool_iff
        bit_small simp flip: numeral_2_eq_2 numeral_3_eq_3)
qed

lemma leaf_denied_sv32:
  assumes "access = ACCESS_READ \<or> access = ACCESS_WRITE \<or> access = ACCESS_CODE"
  shows "leaf_denied prv status pte (pte_xwr pte) access \<longleftrightarrow> \<not> sv32_allowed prv status pte access"
  using assms unfolding leaf_denied_def sv32_allowed_def Let_def pte_xwr_bits flag_zero
  by (cases "bit pte 1"; cases "bit pte 2"; cases "bit pte 3") (auto simp: access_defs)

lemma translated_sv32: "n < 32 \<Longrightarrow> translated va (pte_page pte) n = sv32_address va pte n"
  by (rule bit_word_eqI)
    (auto simp: translated_def sv32_address_def bit_or_iff bit_and_iff bit_not_iff bit_take_bit_iff
      bit_push_bit_iff bit_drop_bit_eq bit_mask_iff Let_def simp flip: mask_eq_exp_minus_1)

lemma leaf_update_sv32: "leaf_update pte access = sv32_pte pte access"
  by (rule bit_word_eqI)
    (auto simp: leaf_update_def sv32_pte_def pte_defs bit_or_iff bit_set_bit_iff bit_push_bit_iff bit_1_iff Let_def
      simp del: push_bit_of_1)

lemma set_bit_same: "n < 32 \<Longrightarrow> set_bit n (pte :: u32) = pte \<longleftrightarrow> bit pte n"
proof
  show "bit pte n" if "n < 32" "set_bit n pte = pte"
    using arg_cong [OF that(2), of "\<lambda>w. bit w n"] that(1) by (simp add: bit_set_bit_iff)
  show "set_bit n pte = pte" if "bit pte n"
    using that by (intro bit_word_eqI) (auto simp: bit_set_bit_iff)
qed

lemma leaf_write_sv32: "leaf_write pte access \<longleftrightarrow> sv32_pte pte access \<noteq> pte"
proof -
  have "bit pte 6 \<and> bit pte 7" if "set_bit 7 (set_bit 6 pte) = pte"
    using arg_cong [OF that, of "\<lambda>w. bit w 6"] arg_cong [OF that, of "\<lambda>w. bit w 7"]
    by (simp add: bit_set_bit_iff)
  moreover have "set_bit 7 (set_bit 6 pte) = pte" if "bit pte 6" "bit pte 7"
    using that set_bit_same [of 6 pte] set_bit_same [of 7 pte] by simp
  ultimately show ?thesis by (auto simp: leaf_write_def sv32_pte_def flag_zero set_bit_same)
qed

subsection \<open>The walk\<close>

text \<open>One level of the walk, in the terms of the description.\<close>

lemma page_walk_Suc:
  "page_walk env prv va access table (Suc n) s = do {
     let a = table + 4 * vpn va n;
     (pte, s) \<leftarrow> phys_read_u32 env a s;
     if \<not> bit pte 0 then Some (None, s)
     else if pte_xwr pte \<noteq> 0 then
       if leaf_denied prv (mstatus s) pte (pte_xwr pte) access then Some (None, s)
       else do {
         s \<leftarrow> (if leaf_write pte access then phys_write_u32 env a (leaf_update pte access) s else Some s);
         Some (Some (translated va (pte_page pte) (12 + 10 * n)), s)
       }
     else page_walk env prv va access (pte_page pte) n s
   }"
proof -
  have "push_bit 2 (take_bit 10 (drop_bit (12 + 10 * n) va)) = 4 * vpn va n"
    by (simp add: vpn_def push_bit_eq_mult)
  then show ?thesis
    by (simp only: page_walk.simps Let_def PG_SHIFT_def flag_zero and_mask_take pte_xwr_def pte_page_def)
qed

definition leaf_result ::
  "nat \<Rightarrow> (nat \<Rightarrow> u8) \<Rightarrow> u8 \<Rightarrow> u32 \<Rightarrow> u32 \<Rightarrow> nat \<Rightarrow> (u32 \<times> u32 \<times> nat) option \<Rightarrow> u32 option \<times> (nat \<Rightarrow> u8)" where
  "leaf_result base mem prv status va access leaf = (case leaf of
      None \<Rightarrow> (None, mem)
    | Some (a, pte, n) \<Rightarrow>
        if sv32_allowed prv status pte access
        then (Some (sv32_address va pte n),
          if sv32_pte pte access = pte then mem
          else mem_write mem (unat a - base) (le_bytes 4 (sv32_pte pte access)))
        else (None, mem))"

lemma leaf_step:
  assumes ram: "ram_at i base M mem s" and a: "word_in base M a" and n: "n < 32"
    and access: "access = ACCESS_READ \<or> access = ACCESS_WRITE \<or> access = ACCESS_CODE"
  shows "\<exists>r mem' s'. (if leaf_denied prv (mstatus s) pte (pte_xwr pte) access then Some (None, s)
       else Option.bind (if leaf_write pte access then phys_write_u32 env a (leaf_update pte access) s else Some s)
         (\<lambda>s. Some (Some (translated va (pte_page pte) n), s))) = Some (r, s') \<and>
     leaf_result base mem prv (mstatus s) va access (Some (a, pte, n)) = (r, mem') \<and>
     ram_at i base M mem' s' \<and> moved i s s'"
proof (cases "sv32_allowed prv (mstatus s) pte access")
  case True
  show ?thesis
  proof (cases "leaf_write pte access")
    case True
    then obtain s' where "phys_write_u32 env a (sv32_pte pte access) s = Some s'"
      "ram_at i base M (mem_write mem (unat a - base) (le_bytes 4 (sv32_pte pte access))) s'" "moved i s s'"
      using phys_write_ram [OF ram a] by blast
    then show ?thesis using \<open>sv32_allowed prv (mstatus s) pte access\<close> True n access
      by (simp add: leaf_denied_sv32 leaf_write_sv32 leaf_update_sv32 translated_sv32 leaf_result_def)
  qed (use True ram n access in \<open>simp add: leaf_denied_sv32 leaf_write_sv32 translated_sv32 leaf_result_def\<close>)
qed (use ram access in \<open>simp add: leaf_denied_sv32 leaf_result_def\<close>)

lemma page_walk_sv32:
  assumes ram: "ram_at i base M mem s" and a1: "word_in base M (root + 4 * vpn va 1)"
    and a0: "word_in base M (pte_page (ram_word base mem (root + 4 * vpn va 1)) + 4 * vpn va 0)"
    and access: "access = ACCESS_READ \<or> access = ACCESS_WRITE \<or> access = ACCESS_CODE"
  shows "\<exists>r mem' s'. page_walk env prv va access root 2 s = Some (r, s') \<and>
     leaf_result base mem prv (mstatus s) va access (sv32_leaf (ram_word base mem) root va) = (r, mem') \<and>
     ram_at i base M mem' s' \<and> moved i s s'"
proof -
  let ?a1 = "root + 4 * vpn va 1"
  let ?pte1 = "ram_word base mem ?a1"
  let ?a0 = "pte_page ?pte1 + 4 * vpn va 0"
  let ?pte0 = "ram_word base mem ?a0"
  obtain t where t: "phys_read_u32 env ?a1 s = Some (?pte1, t)" "ram_at i base M mem t" "moved i s t"
    using phys_read_ram [OF ram a1] by blast
  obtain u where u: "phys_read_u32 env ?a0 t = Some (?pte0, u)" "ram_at i base M mem u" "moved i t u"
    using phys_read_ram [OF t(2) a0] by blast
  have mu: "moved i s u" using t(3) u(3) by (rule moved_trans)
  have st: "mstatus t = mstatus s" "mstatus u = mstatus s" using movedD(2) t(3) mu by blast+
  have two: "(2::nat) = Suc (Suc 0)" by simp
  consider "\<not> bit ?pte1 0" | "bit ?pte1 0" "pte_xwr ?pte1 \<noteq> 0" | "bit ?pte1 0" "pte_xwr ?pte1 = 0" "\<not> bit ?pte0 0"
    | "bit ?pte1 0" "pte_xwr ?pte1 = 0" "bit ?pte0 0" "pte_xwr ?pte0 \<noteq> 0"
    | "bit ?pte1 0" "pte_xwr ?pte1 = 0" "bit ?pte0 0" "pte_xwr ?pte0 = 0" by blast
  then show ?thesis
  proof cases
    case 1
    then show ?thesis using t by (simp add: two page_walk_Suc sv32_leaf_def leaf_result_def Let_def del: page_walk.simps(2))
  next
    case 2
    then show ?thesis using t leaf_step [OF t(2) a1 _ access, of 22 prv ?pte1 env va] st moved_trans [OF t(3)]
      by (force simp: two page_walk_Suc sv32_leaf_def Let_def simp del: page_walk.simps(2))
  next
    case 3
    then show ?thesis using t u mu by (simp add: two page_walk_Suc sv32_leaf_def leaf_result_def Let_def del: page_walk.simps(2))
  next
    case 4
    then show ?thesis using t u leaf_step [OF u(2) a0 _ access, of 12 prv ?pte0 env va] st moved_trans [OF mu]
      by (force simp: two page_walk_Suc sv32_leaf_def Let_def simp del: page_walk.simps(2))
  next
    case 5
    then show ?thesis using t u mu by (simp add: two page_walk_Suc sv32_leaf_def leaf_result_def Let_def del: page_walk.simps(2))
  qed
qed

definition root_of :: "'z riscv_cpu_scheme \<Rightarrow> u32" where
  "root_of s = push_bit 12 (take_bit 22 (satp s))"

text \<open>Translation is on for the access, and the two page tables of the address are in RAM.\<close>

definition tables_in_ram :: "nat \<Rightarrow> nat \<Rightarrow> (nat \<Rightarrow> u8) \<Rightarrow> 'z riscv_cpu_scheme \<Rightarrow> u32 \<Rightarrow> bool" where
  "tables_in_ram base M mem s va \<longleftrightarrow> word_in base M (root_of s + 4 * vpn va 1) \<and>
     word_in base M (pte_page (ram_word base mem (root_of s + 4 * vpn va 1)) + 4 * vpn va 0)"

definition paged :: "'z riscv_cpu_scheme \<Rightarrow> nat \<Rightarrow> bool" where
  "paged s access \<longleftrightarrow> effective_priv s access \<noteq> PRV_M \<and> bit (satp s) 31 \<and>
     (access = ACCESS_READ \<or> access = ACCESS_WRITE \<or> access = ACCESS_CODE)"

lemma drop_31: "drop_bit 31 (w :: u32) = 0 \<longleftrightarrow> \<not> bit w 31"
proof
  show "\<not> bit w 31" if "drop_bit 31 w = 0" using arg_cong [OF that, of "\<lambda>x. bit x 0"] by (simp add: bit_drop_bit_eq)
  show "drop_bit 31 w = 0" if "\<not> bit w 31"
  proof (rule bit_word_eqI)
    fix n show "bit (drop_bit 31 w) n = bit (0 :: u32) n"
      using that bit_imp_le_length [of w "31 + n"] by (cases n) (auto simp: bit_drop_bit_eq)
  qed
qed

lemma get_phys_addr_sv32:
  assumes ram: "ram_at i base M mem s" and p: "paged s access" and t: "tables_in_ram base M mem s va"
  shows "\<exists>r mem' s'. get_phys_addr env va access s = Some (r, s') \<and>
     leaf_result base mem (effective_priv s access) (mstatus s) va access
       (sv32_leaf (ram_word base mem) (root_of s) va) = (r, mem') \<and>
     ram_at i base M mem' s' \<and> moved i s s'"
proof -
  have "push_bit PG_SHIFT (satp s AND (push_bit 22 1 - 1)) = root_of s"
    unfolding root_of_def PG_SHIFT_def by (simp add: take_bit_eq_mask mask_eq_exp_minus_1)
  then have "get_phys_addr env va access s = page_walk env (effective_priv s access) va access (root_of s) 2 s"
    using p unfolding get_phys_addr_def Let_def drop_31 by (simp add: paged_def)
  then show ?thesis using page_walk_sv32 [OF ram] t p by (simp add: tables_in_ram_def paged_def)
qed

subsection \<open>A second translation\<close>

lemma sv32_pte_bits: "bit (sv32_pte pte access) n \<longleftrightarrow> n < 32 \<and> (bit pte n \<or> n = 6 \<or> n = 7 \<and> access = ACCESS_WRITE)"
  by (auto simp: sv32_pte_def bit_set_bit_iff dest: bit_imp_le_length)

lemma sv32_pte_same:
  "sv32_pte (sv32_pte pte access) access = sv32_pte pte access"
  "pte_xwr (sv32_pte pte access) = pte_xwr pte" "pte_page (sv32_pte pte access) = pte_page pte"
  by (rule bit_word_eqI; auto simp: sv32_pte_bits pte_xwr_def pte_page_def bit_take_bit_iff bit_drop_bit_eq
      bit_push_bit_iff)+

lemma sv32_allowed_same: "sv32_allowed prv status (sv32_pte pte access') access = sv32_allowed prv status pte access"
  by (simp add: sv32_allowed_def sv32_pte_bits)

lemma ram_word_write_same:
  "ram_word base (mem_write mem (unat a - base) (le_bytes 4 w)) a = w"
  using mem_bytes_write_same [of mem "unat a - base" "le_bytes 4 w"]
  by (simp add: ram_word_def le_word_le_bytes take_bit_word_eq_self)

lemma ram_word_write_other:
  assumes "word_in base M a" and "word_in base M b" and "a \<noteq> b" and "4 dvd unat a" and "4 dvd unat b"
  shows "ram_word base (mem_write mem (unat a - base) (le_bytes 4 w)) b = ram_word base mem b"
proof -
  obtain x y where xy: "unat a = 4 * x" "unat b = 4 * y" using assms(4,5) by (auto elim!: dvdE)
  have "x \<noteq> y" using xy assms(3) by (metis word_unat_eq_iff)
  then have "unat b - base + 4 \<le> unat a - base \<or> unat a - base + 4 \<le> unat b - base"
    using assms(1,2) xy unfolding word_in_def by linarith
  then show ?thesis unfolding ram_word_def by (subst mem_bytes_write_other) auto
qed

lemma table_aligned: "4 dvd unat (push_bit 12 p + 4 * v :: u32)"
proof -
  have "push_bit 12 p + 4 * v = push_bit 2 (push_bit 10 p + v)"
    by (simp add: push_bit_eq_mult distrib_left mult.commute)
  then have low: "bit (push_bit 12 p + 4 * v) n \<Longrightarrow> 2 \<le> n" for n by (simp add: bit_push_bit_iff)
  have "take_bit 2 (push_bit 12 p + 4 * v) = 0"
    by (intro bit_word_eqI) (auto simp: bit_take_bit_iff dest: low)
  then have "take_bit 2 (unat (push_bit 12 p + 4 * v)) = 0"
    by (metis unsigned_0 unsigned_take_bit_eq)
  then show ?thesis by (simp add: take_bit_eq_mod mod_eq_0_iff_dvd)
qed

lemma sv32_leaf_marked:
  assumes leaf: "sv32_leaf (ram_word base mem) root va = Some (a, pte, n)"
    and root: "root = push_bit 12 p" and a1: "word_in base M (root + 4 * vpn va 1)"
    and a0: "word_in base M (pte_page (ram_word base mem (root + 4 * vpn va 1)) + 4 * vpn va 0)"
  shows "sv32_leaf (ram_word base (mem_write mem (unat a - base) (le_bytes 4 (sv32_pte pte access)))) root va =
    Some (a, sv32_pte pte access, n) \<and>
    pte_page (ram_word base (mem_write mem (unat a - base) (le_bytes 4 (sv32_pte pte access))) (root + 4 * vpn va 1)) =
    pte_page (ram_word base mem (root + 4 * vpn va 1))"
proof -
  let ?a1 = "root + 4 * vpn va 1"
  let ?pte1 = "ram_word base mem ?a1"
  let ?a0 = "pte_page ?pte1 + 4 * vpn va 0"
  let ?rd = "ram_word base (mem_write mem (unat a - base) (le_bytes 4 (sv32_pte pte access)))"
  have same: "?rd a = sv32_pte pte access" by (rule ram_word_write_same)
  have v: "bit (sv32_pte pte access) 0 = bit pte 0" by (simp add: sv32_pte_bits)
  consider "a = ?a1" "pte = ?pte1" "n = 22" "bit pte 0" "pte_xwr pte \<noteq> 0"
    | "a = ?a0" "pte = ram_word base mem ?a0" "n = 12" "bit ?pte1 0" "pte_xwr ?pte1 = 0" "bit pte 0" "pte_xwr pte \<noteq> 0"
    using leaf by (auto simp: sv32_leaf_def Let_def split: if_splits)
  then show ?thesis
  proof cases
    case 1
    then show ?thesis using same v by (simp add: sv32_leaf_def Let_def sv32_pte_same)
  next
    case 2
    have "?a0 \<noteq> ?a1" using 2 by auto
    then have "?rd ?a1 = ?pte1"
      unfolding 2(1) by (intro ram_word_write_other [OF a0 a1]) (simp_all add: root table_aligned pte_page_def)
    then show ?thesis using 2 same v by (simp add: sv32_leaf_def Let_def sv32_pte_same)
  qed
qed

subsection \<open>Properties\<close>


text \<open>The supervisor with one superpage, whose PTE is the first word of RAM.\<close>

definition paged_cpu :: "vmm \<Rightarrow> riscv_cpu" where
  "paged_cpu v = (riscv_cpu_init (one_range v) ())\<lparr>priv := PRV_S, satp := 0x80080000\<rparr>"

definition paged_mem :: "nat \<Rightarrow> u8" where
  "paged_mem = mem_write (\<lambda>_. 0) 0 (le_bytes 4 (0x2000000f :: u32))"

lemma paged_sample:
  "\<exists>v. ram_at 0 0x80000000 4096 paged_mem (paged_cpu v)"
proof -
  obtain v where "flat 4096 v (\<lambda>_. 0)" using one_range_vmm by blast
  then obtain v' where "flat 4096 v' paged_mem"
    using vmm_write_flat [of 4096 v "\<lambda>_. 0" 0 4 "le_bytes 4 (0x2000000f :: u32)" sample_env]
    by (auto simp: paged_mem_def)
  then have "ram_at 0 0x80000000 4096 paged_mem (paged_cpu v')"
    by (rule ram_at_one_range) (simp add: paged_cpu_def riscv_cpu_init_def Let_def)
  then show ?thesis by blast
qed

lemma paged_word: "ram_word 0x80000000 paged_mem 0x80000000 = 0x2000000f"
  using ram_word_write_same [of "0x80000000" "\<lambda>_. 0" "0x80000000" "0x2000000f"] by (simp add: paged_mem_def)

lemma paged_facts:
  "paged (paged_cpu v) ACCESS_READ" "root_of (paged_cpu v) = 0x80000000"
  "tables_in_ram 0x80000000 4096 paged_mem (paged_cpu v) 0x123"
  "effective_priv (paged_cpu v) ACCESS_READ = PRV_S" "mstatus (paged_cpu v) = 0"
proof -
  have p: "priv (paged_cpu v) = PRV_S" "satp (paged_cpu v) = 0x80080000" "mstatus (paged_cpu v) = 0"
    by (simp_all add: paged_cpu_def riscv_cpu_init_def Let_def get_base_from_xlen_def)
  show "mstatus (paged_cpu v) = 0" by (rule p(3))
  show e: "effective_priv (paged_cpu v) ACCESS_READ = PRV_S" using p by (simp add: effective_priv_def)
  show r: "root_of (paged_cpu v) = 0x80000000" using p by (simp add: root_of_def take_bit_eq_mod)
  show "paged (paged_cpu v) ACCESS_READ" using p e by (simp add: paged_def prv_defs)
  have "vpn 0x123 1 = 0" "vpn 0x123 0 = 0" by (simp_all add: vpn_def)
  then show "tables_in_ram 0x80000000 4096 paged_mem (paged_cpu v) 0x123"
    using r paged_word by (simp add: tables_in_ram_def word_in_def pte_page_def)
qed

lemma paged_leaf: "sv32_leaf (ram_word 0x80000000 paged_mem) 0x80000000 0x123 = Some (0x80000000, 0x2000000f, 22)"
  using paged_word by (simp add: sv32_leaf_def vpn_def pte_xwr_def Let_def)




end
