(* ===== verification/DeviceSpec.thy ===== *)
theory DeviceSpec
  imports RiscvMachine TrapSpec
begin

section \<open>The devices of the machine\<close>

text \<open>
  What the interrupt controller, the timer and the host interface do over several accesses: claim
  and completion of an interrupt, the two halves of \<open>timecmp\<close>, the timer interrupt, and the output
  of a character.
\<close>

subsection \<open>Interrupt controller\<close>

definition plic_ready :: "'z riscv_machine_scheme \<Rightarrow> u32" where
  "plic_ready s = plic_pending_irq s AND NOT (plic_served_irq s)"

text \<open>The external interrupt lines of the CPU show whether an interrupt can be claimed.\<close>

definition lines_ok :: "'z riscv_machine_scheme \<Rightarrow> bool" where
  "lines_ok s \<longleftrightarrow> (bit (mip s) 11 \<longleftrightarrow> plic_ready s \<noteq> 0) \<and> (bit (mip s) 9 \<longleftrightarrow> plic_ready s \<noteq> 0)"

lemma bit_mip: "bit MIP_MEIP n \<longleftrightarrow> n = 11" "bit MIP_SEIP n \<longleftrightarrow> n = 9" "bit MIP_MTIP n \<longleftrightarrow> n = 7"
  unfolding mip_bits bit_push_bit_iff bit_1_iff by auto

lemma plic_update_mip_lines: "lines_ok (plic_update_mip s)"
  by (auto simp: plic_update_mip_def lines_ok_def plic_ready_def riscv_cpu_set_mip_def
      riscv_cpu_reset_mip_def bit_or_iff bit_and_iff bit_not_iff bit_mip Let_def
      simp del: push_bit_or)

lemma plic_update_mip_frame [simp]:
  "plic_pending_irq (plic_update_mip s) = plic_pending_irq s"
  "plic_served_irq (plic_update_mip s) = plic_served_irq s"
  by (simp_all add: plic_update_mip_def riscv_cpu_set_mip_def riscv_cpu_reset_mip_def Let_def)

inductive plic_step :: "'z riscv_machine_scheme \<Rightarrow> 'z riscv_machine_scheme \<Rightarrow> bool" where
  raise: "plic_step s (plic_set_irq irq level s)"
| claim: "plic_read (PLIC_HART_BASE + 4) 2 s = Some (v, s') \<Longrightarrow> plic_step s s'"
| complete: "plic_write (PLIC_HART_BASE + 4) v 2 s = Some s' \<Longrightarrow> plic_step s s'"

lemma plic_step_lines: "plic_step s s' \<Longrightarrow> lines_ok s \<Longrightarrow> lines_ok s'"
  by (induction rule: plic_step.induct)
    (auto simp: plic_set_irq_def plic_read_def plic_write_def Let_def plic_update_mip_lines split: if_splits)

text \<open>Claiming.\<close>

lemma claim_ready:
  assumes "plic_ready s \<noteq> 0"
  shows "plic_read (PLIC_HART_BASE + 4) 2 s = Some (word_of_nat (ctz32 (plic_ready s) + 1),
      plic_update_mip (s\<lparr>plic_served_irq := plic_served_irq s OR push_bit (ctz32 (plic_ready s)) 1\<rparr>))"
  using assms by (simp add: plic_read_def plic_ready_def PLIC_HART_BASE_def Let_def)

lemma ready_bit:
  assumes "plic_ready s \<noteq> 0"
  obtains i where "ctz32 (plic_ready s) = i" "i < 32" "bit (plic_pending_irq s) i" "\<not> bit (plic_served_irq s) i"
    "\<And>j. j < i \<Longrightarrow> \<not> bit (plic_ready s) j"
proof -
  obtain k where "bit (plic_ready s) k" using assms by (auto simp: bit_eq_iff)
  then have b: "bit (plic_ready s) (ctz32 (plic_ready s))" "ctz32 (plic_ready s) \<le> k"
    using ctz32_least by blast+
  have l: "\<not> bit (plic_ready s) j" if "j < ctz32 (plic_ready s)" for j
    using ctz32_least [of "plic_ready s" j] that by auto
  show ?thesis
    using that [OF refl] b(1) l bit_imp_le_length [OF b(1)]
    by (simp add: plic_ready_def bit_and_iff bit_not_iff)
qed

lemma complete_write:
  assumes "i < 32"
  shows "plic_write (PLIC_HART_BASE + 4) (word_of_nat (i + 1)) 2 s =
    Some (plic_update_mip (s\<lparr>plic_served_irq := plic_served_irq s AND NOT (push_bit i 1)\<rparr>))"
proof -
  have "unat (word_of_nat i :: u32) = i" using assms by (simp add: unsigned_of_nat take_bit_nat_eq_self)
  then show ?thesis using assms
    by (simp add: plic_write_def Let_def word_less_nat_alt del: push_bit_of_1)
qed


lemma lines_ok_start: "lines_ok (machine_zero (riscv_cpu_init phys_mem_map_init ()) () :: riscv_machine)"
  by (simp add: lines_ok_def plic_ready_def machine_zero_def riscv_cpu_init_def riscv_cpu.defs Let_def)


text \<open>C29: A claim returns the number of the lowest interrupt that is ready and takes it out of the
  ready ones; completing it puts the controller back: the interrupt is ready again if its level is
  still up, and nothing else has changed.\<close>

theorem plic_claim_complete:
  assumes "plic_ready s \<noteq> 0"
  shows "\<exists>i s' s''. plic_read (PLIC_HART_BASE + 4) 2 s = Some (word_of_nat (i + 1), s') \<and>
    i < 32 \<and> bit (plic_ready s) i \<and> (\<forall>j < i. \<not> bit (plic_ready s) j) \<and>
    (\<forall>j. bit (plic_ready s') j \<longleftrightarrow> bit (plic_ready s) j \<and> j \<noteq> i) \<and>
    plic_write (PLIC_HART_BASE + 4) (word_of_nat (i + 1)) 2 s' = Some s'' \<and>
    plic_pending_irq s'' = plic_pending_irq s \<and> plic_served_irq s'' = plic_served_irq s \<and> lines_ok s''"
proof -
  obtain i where i: "ctz32 (plic_ready s) = i" "i < 32" "bit (plic_pending_irq s) i" "\<not> bit (plic_served_irq s) i"
    "\<And>j. j < i \<Longrightarrow> \<not> bit (plic_ready s) j"
    using ready_bit [OF assms] by blast
  let ?s' = "plic_update_mip (s\<lparr>plic_served_irq := plic_served_irq s OR push_bit i 1\<rparr>)"
  let ?s'' = "plic_update_mip (?s'\<lparr>plic_served_irq := plic_served_irq ?s' AND NOT (push_bit i 1)\<rparr>)"
  have r: "bit (plic_ready ?s') j \<longleftrightarrow> bit (plic_ready s) j \<and> j \<noteq> i" for j
    using i(2) by (auto simp: plic_ready_def bit_and_iff bit_not_iff bit_or_iff bit_exp_iff)
  have b: "(plic_served_irq s OR push_bit i 1) AND NOT (push_bit i 1) = plic_served_irq s"
    using i(2,4) by (intro bit_word_eqI) (auto simp: bit_and_iff bit_not_iff bit_or_iff bit_exp_iff)
  have "plic_read (PLIC_HART_BASE + 4) 2 s = Some (word_of_nat (i + 1), ?s')"
    using claim_ready [OF assms] i(1) by simp
  moreover have "plic_write (PLIC_HART_BASE + 4) (word_of_nat (i + 1)) 2 ?s' = Some ?s''"
    by (rule complete_write [OF i(2)])
  moreover have "plic_served_irq ?s'' = plic_served_irq s" "plic_pending_irq ?s'' = plic_pending_irq s" "lines_ok ?s''"
    using b plic_update_mip_lines by simp_all
  moreover have "bit (plic_ready s) i" using i(2,3,4) by (simp add: plic_ready_def bit_and_iff bit_not_iff)
  ultimately show ?thesis using i(2,5) r by blast
qed

lemma plic_claim_complete_witness:
  "\<exists>s'. plic_read (PLIC_HART_BASE + 4) 2 ((machine_zero (riscv_cpu_init phys_mem_map_init ()) () :: riscv_machine)
     \<lparr>plic_pending_irq := 1\<rparr>) = Some (1, s') \<and> plic_ready s' = 0"
proof -
  let ?s = "(machine_zero (riscv_cpu_init phys_mem_map_init ()) () :: riscv_machine)\<lparr>plic_pending_irq := 1\<rparr>"
  have ready: "plic_ready ?s = 1"
    by (simp add: plic_ready_def machine_zero_def riscv_cpu.defs)
  then obtain i s' where s': "plic_read (PLIC_HART_BASE + 4) 2 ?s = Some (word_of_nat (i + 1), s')"
    "bit (plic_ready ?s) i" "\<forall>j. bit (plic_ready s') j \<longleftrightarrow> bit (plic_ready ?s) j \<and> j \<noteq> i"
    using plic_claim_complete [of ?s] by auto
  then have "i = 0" using ready by (simp add: bit_1_iff)
  moreover from this have "plic_ready s' = 0" using s'(3) ready by (intro bit_word_eqI) (auto simp: bit_1_iff)
  ultimately show ?thesis using s'(1) by auto
qed

subsection \<open>Timer\<close>

lemma keep_high_zero [simp]: "keep_high x = 0"
  by (simp add: keep_high_def)

lemma keep_low_take: "keep_low x = take_bit 32 x"
  by (simp add: keep_low_def take_bit_eq_mask mask_eq_exp_minus_1)

lemma take_bit_u32 [simp]: "take_bit 32 (ucast (a :: u32) :: u64) = ucast a"
  by (rule bit_word_eqI) (auto simp: bit_take_bit_iff bit_unsigned_iff dest: bit_imp_le_length)

text \<open>C30: The two halves of \<open>timecmp\<close>: written low half first, the register holds both; written high
  half first, the write of the low half clears the high one.\<close>

theorem timecmp_write_order:
  "(\<exists>m1 m2. clint_write 0x4000 lo 2 m = Some m1 \<and> clint_write 0x4004 hi 2 m1 = Some m2 \<and>
      timecmp m2 = ucast lo OR push_bit 32 (ucast hi) \<and> \<not> bit (mip m2) 7) \<and>
   (\<exists>m1 m2. clint_write 0x4004 hi 2 m = Some m1 \<and> clint_write 0x4000 lo 2 m1 = Some m2 \<and>
      timecmp m2 = ucast lo)"
proof -
  have m: "\<not> bit (mip (riscv_cpu_reset_mip s MIP_MTIP)) 7" for s :: "'z riscv_machine_scheme"
    by (simp add: riscv_cpu_reset_mip_def bit_and_iff bit_not_iff bit_mip)
  have f: "timecmp (riscv_cpu_reset_mip s a) = timecmp s" for s :: "'z riscv_machine_scheme" and a
    by (simp add: riscv_cpu_reset_mip_def)
  show ?thesis by (simp add: clint_write_def keep_low_take m f)
qed

text \<open>C31: Before the machine sleeps, the timer is looked at: when \<open>timecmp\<close> is reached, the timer
  interrupt becomes pending, the delay is zero, and a CPU that waits for this interrupt is woken; as
  long as it is not reached nothing changes and the CPU, if it is powered down, sleeps at most until
  it is reached, and never longer than asked.\<close>

theorem sleep_until_timer:
  assumes "\<not> bit (mip m) 7"
  shows "case riscv_machine_get_sleep_duration menv delay m of (d, m') \<Rightarrow>
    (let left = sint (timecmp m - rtc_get_time menv m) in
     if left \<le> 0 then d = 0 \<and> bit (mip m') 7 \<and> (bit (mie m) 7 \<longrightarrow> \<not> power_down_flag m')
     else m' = m \<and> d = (if power_down_flag m then min delay (left div 10000) else 0))"
proof -
  have z: "mip m AND MIP_MTIP = 0" using assms and_bit_zero [OF bit_mip(3)] by simp
  have w: "mie m AND (mip m OR MIP_MTIP) \<noteq> 0 \<or> \<not> bit (mie m) 7"
    using bit_mip(3) [of 7] by (metis bit_0_eq bit_and_iff bit_or_iff bot_apply bot_bool_def)
  show ?thesis using z w bit_mip(3) [of 7]
    by (auto simp: riscv_machine_get_sleep_duration_def riscv_cpu_get_mip_def riscv_cpu_set_mip_def
        riscv_cpu_get_power_down_def RTC_FREQ_def bit_or_iff min_def Let_def and.commute)
qed

lemma sleep_until_timer_witness:
  "riscv_machine_get_sleep_duration
     \<lparr>clock_gettime = \<lambda>_. (0, 0), virtio_read = \<lambda>_ _ _ _. None, virtio_write = \<lambda>_ _ _ _ _. None,
      alloc_env = sample_env, stack_junk = \<lambda>_. 0, float_ops = softfp_unit\<rparr> 10
     ((machine_zero sample_cpu () :: riscv_machine)\<lparr>timecmp := 50000, power_down_flag := True\<rparr>) =
   (5, (machine_zero sample_cpu ())\<lparr>timecmp := 50000, power_down_flag := True\<rparr>)"
proof -
  let ?menv = "\<lparr>clock_gettime = \<lambda>_. (0, 0), virtio_read = \<lambda>_ _ _ _. None, virtio_write = \<lambda>_ _ _ _ _. None,
      alloc_env = sample_env, stack_junk = \<lambda>_. 0, float_ops = softfp_unit\<rparr> :: riscv_machine machine_env"
  let ?m = "(machine_zero sample_cpu () :: riscv_machine)\<lparr>timecmp := 50000, power_down_flag := True\<rparr>"
  have "mip ?m = 0" "rtc_get_time ?menv ?m = 0" "power_down_flag ?m"
    by (simp_all add: machine_zero_def riscv_cpu.defs sample_cpu_def riscv_cpu_init_def rtc_get_time_def
        riscv_cpu_get_cycles_def Let_def)
  then show ?thesis using sleep_until_timer [of ?m ?menv 10]
    by (cases "riscv_machine_get_sleep_duration ?menv 10 ?m") simp
qed

subsection \<open>Host interface\<close>

text \<open>The firmware's way to print a character: two writes to \<open>tohost\<close>, low half first, put
  exactly this character on the console, clear \<open>tohost\<close> and acknowledge in \<open>fromhost\<close>.\<close>

theorem htif_putchar:
  "\<exists>m1 m2. htif_write 0 (ucast c) 2 m = Some m1 \<and> htif_write 4 0x01010000 2 m1 = Some m2 \<and>
    console_out m2 = console_out m @ [c] \<and> htif_tohost m2 = 0 \<and> htif_fromhost m2 = 0x0101000000000000"
proof -
  obtain k :: u64 where k: "k = 0x0101000000000000" by blast
  have e: "k = push_bit 48 1 OR push_bit 56 1" by (simp add: k)
  have b: "bit k n \<longleftrightarrow> n = 48 \<or> n = 56" for n
    unfolding e bit_or_iff bit_push_bit_iff bit_1_iff by auto
  have c: "bit c n \<Longrightarrow> n < 8" for n using bit_imp_le_length [of c n] by simp
  let ?t = "ucast (ucast c :: u32) OR k"
  have "ucast (drop_bit 56 ?t) = (1 :: u32)"
    by (rule bit_word_eqI) (auto simp: bits b dest: c)
  moreover have "ucast (drop_bit 48 ?t) AND mask 8 = (1 :: u32)"
    by (rule bit_word_eqI) (auto simp: bits bit_mask_iff b dest: c)
  moreover have "ucast (?t AND mask 8) = c"
    by (rule bit_word_eqI) (auto simp: bits bit_mask_iff b dest: c)
  moreover have "?t \<noteq> 1"
  proof
    assume "?t = 1"
    from arg_cong [OF this, of "\<lambda>x. bit x 48"] show False using b [of 48] by (simp add: bit_or_iff)
  qed
  moreover have "mask 8 = (0xff :: u32)" "mask 8 = (0xff :: u64)" by (simp_all add: mask_eq_exp_minus_1)
  ultimately show ?thesis by (simp add: htif_write_def keep_low_take htif_handle_cmd_def k Let_def)
qed

end
