(* ===== verification/FdtSpec.thy ===== *)
theory FdtSpec
  imports Boot RamAccess MachineRun
begin

section \<open>The device tree can be read back\<close>

text \<open>
  A reader of the structure block, as the devicetree specification describes it, and the proof that
  it gives back the nodes and properties that were written. The machine's own tree is written
  without running out of room and with every node closed.
\<close>

subsection \<open>Reading\<close>

datatype fdt_item = Begin_node string | End_node | Property string "u8 list"

definition to_string :: "u8 list \<Rightarrow> string" where
  "to_string bs = map (\<lambda>b. char_of (unat b)) bs"

definition be_word :: "u8 list \<Rightarrow> u32" where
  "be_word bs = le_word (rev bs)"

definition align4 :: "nat \<Rightarrow> nat" where
  "align4 n = 4 * ((n + 3) div 4)"

text \<open>The first argument is the strings block. The reader stops at the end token.\<close>

function fdt_parse :: "u8 list \<Rightarrow> u8 list \<Rightarrow> fdt_item list option" where
  "fdt_parse strs bs =
     (if length bs < 4 then None
      else
        let token = be_word (take 4 bs); rest = drop 4 bs in
        if token = FDT_END then Some []
        else if token = FDT_BEGIN_NODE then
          let name = takeWhile (\<lambda>b. b \<noteq> 0) rest
          in map_option ((#) (Begin_node (to_string name))) (fdt_parse strs (drop (align4 (length name + 1)) rest))
        else if token = FDT_END_NODE then map_option ((#) End_node) (fdt_parse strs rest)
        else if token = FDT_PROP then
          let len = unat (be_word (take 4 rest));
              off = unat (be_word (take 4 (drop 4 rest)));
              val = take len (drop 8 rest)
          in map_option ((#) (Property (to_string (string_at strs off)) val)) (fdt_parse strs (drop (align4 len) (drop 8 rest)))
        else None)"
  by pat_completeness auto
termination
  by (relation "measure (\<lambda>(strs, bs). length bs)") auto

declare fdt_parse.simps [simp del]

subsection \<open>Writing\<close>

lemma length_be_bytes [simp]: "length (be_bytes v) = 4"
  by (simp add: be_bytes_def)

lemma be_word_be_bytes [simp]: "be_word (be_bytes v) = v"
  by (simp add: be_word_def be_bytes_def le_word_le_bytes take_bit_word_eq_self)

lemma pad_length: "n + nat (- int n mod 4) = align4 n"
proof -
  have "int n + - int n mod 4 = 4 * ((int n + 3) div 4)" by presburger
  moreover have "0 \<le> - int n mod 4" by simp
  ultimately have "int (n + nat (- int n mod 4)) = int (align4 n)"
    by (simp add: align4_def zdiv_int)
  then show ?thesis by linarith
qed

definition pad4 :: "u8 list \<Rightarrow> u8 list" where
  "pad4 bs = bs @ replicate (nat (- int (length bs) mod 4)) 0"

lemma length_pad4 [simp]: "length (pad4 bs) = align4 (length bs)"
  using pad_length [of "length bs"] by (simp add: pad4_def)

text \<open>\<open>writes f bs\<close>: the call appends the bytes to the structure block and keeps the rest.\<close>

definition grows :: "fdt_state \<Rightarrow> u8 list \<Rightarrow> fdt_state \<Rightarrow> bool" where
  "grows s bs s' \<longleftrightarrow> fdt_tab s' = fdt_tab s @ bs \<and> fdt_strings s' = fdt_strings s \<and> fdt_open_nodes s' = fdt_open_nodes s"

lemma put32_grows: "\<exists>s'. fdt_put32 v s = Some s' \<and> grows s (be_bytes v) s'"
  by (auto simp: fdt_put32_def fdt_alloc_len_def fdt_tab_len_def grows_def less_max_iff_disj Let_def)

lemma put_data_grows: "\<exists>s'. fdt_put_data bs s = Some s' \<and> grows s (pad4 bs) s'"
proof -
  have p: "length bs + nat (- int (length bs) mod 4) = 4 * ((length bs + 3) div 4)"
    using pad_length [of "length bs"] by (simp add: align4_def)
  let ?s = "fdt_alloc_len s (fdt_tab_len s + (length bs + 3) div 4)"
  have a: "fdt_tab_len ?s = fdt_tab_len s" "fdt_tab ?s = fdt_tab s" "fdt_strings ?s = fdt_strings s"
    "fdt_open_nodes ?s = fdt_open_nodes s" "fdt_tab_len s + (length bs + 3) div 4 \<le> fdt_tab_size ?s"
    by (auto simp: fdt_alloc_len_def fdt_tab_len_def)
  then have "fdt_tab_len ?s * 4 + length bs + nat (- int (length bs) mod 4) \<le> fdt_tab_size ?s * 4"
    using p by linarith
  then show ?thesis using a by (simp add: fdt_put_data_def grows_def pad4_def Let_def)
qed

text \<open>The strings block is a sequence of C strings, so that a string in it stays when others follow.\<close>

definition strings_ok :: "u8 list \<Rightarrow> bool" where
  "strings_ok t \<longleftrightarrow> t = [] \<or> last t = 0"

definition extends :: "u8 list \<Rightarrow> u8 list \<Rightarrow> bool" where
  "extends t t' \<longleftrightarrow> (\<exists>ys. t' = t @ ys)"

lemma extends_trans: "extends a b \<Longrightarrow> extends b c \<Longrightarrow> extends a c"
  by (auto simp: extends_def)

lemma string_at_extends:
  assumes "strings_ok t" and "pos < length t" and "extends t t'"
  shows "string_at t' pos = string_at t pos"
proof -
  obtain ys where t': "t' = t @ ys" using assms(3) by (auto simp: extends_def)
  have "t \<noteq> []" using assms(2) by auto
  then have "last (drop pos t) = 0" "drop pos t \<noteq> []" using assms(1,2) by (auto simp: strings_ok_def last_drop)
  then have "0 \<in> set (drop pos t)" by (metis last_in_set)
  then show ?thesis unfolding string_at_def t' using assms(2) by (simp add: takeWhile_append1)
qed

lemma find_string_Some: "find_string t name pos = Some p \<Longrightarrow> p < length t \<and> string_at t p = name"
  by (induction t name pos rule: find_string.induct) (subst (asm) find_string.simps, auto split: if_splits)

lemma takeWhile_c_string: "0 \<notin> set (c_bytes name) \<Longrightarrow> takeWhile (\<lambda>b. b \<noteq> 0) (c_string name @ ys) = c_bytes name"
  unfolding c_string_def append_assoc by (subst takeWhile_append2) auto

lemma string_offset:
  assumes "strings_ok (fdt_strings s)" and "0 \<notin> set (c_bytes name)"
  shows "\<exists>pos s'. fdt_get_string_offset name s = Some (pos, s') \<and> fdt_tab s' = fdt_tab s \<and>
    fdt_open_nodes s' = fdt_open_nodes s \<and> extends (fdt_strings s) (fdt_strings s') \<and> strings_ok (fdt_strings s') \<and>
    pos < length (fdt_strings s') \<and> string_at (fdt_strings s') pos = c_bytes name"
proof (cases "find_string (fdt_strings s) (c_bytes name) 0")
  case (Some p)
  then show ?thesis using assms(1) find_string_Some [OF Some]
    by (auto simp: fdt_get_string_offset_def extends_def)
next
  case None
  have "string_at (fdt_strings s @ c_string name) (length (fdt_strings s)) = c_bytes name"
    using takeWhile_c_string [OF assms(2), of "[]"] by (simp add: string_at_def)
  then show ?thesis using None
    by (auto simp: fdt_get_string_offset_def extends_def strings_ok_def c_string_def le_max_iff_disj Let_def)
qed

subsection \<open>One item\<close>

lemma to_string_c_bytes [simp]: "to_string (c_bytes name) = name"
proof -
  have "char_of (unat (of_char c :: u8)) = c" for c
  proof -
    have "unat (of_char c :: u8) = of_char c"
      by (simp add: of_char_def unsigned_of_nat)
    then show ?thesis by simp
  qed
  then show ?thesis by (simp add: to_string_def c_bytes_def map_idI comp_def)
qed

primrec emit :: "fdt_item \<Rightarrow> fdt_state \<Rightarrow> fdt_state option" where
  "emit (Begin_node name) = fdt_begin_node name"
| "emit End_node = fdt_end_node"
| "emit (Property name val) = fdt_prop name val"

primrec item_ok :: "fdt_item \<Rightarrow> bool" where
  "item_ok (Begin_node name) \<longleftrightarrow> 0 \<notin> set (c_bytes name)"
| "item_ok End_node \<longleftrightarrow> True"
| "item_ok (Property name val) \<longleftrightarrow> 0 \<notin> set (c_bytes name) \<and> length val < 2 ^ 32"

primrec depth :: "fdt_item \<Rightarrow> int" where
  "depth (Begin_node name) = 1"
| "depth End_node = - 1"
| "depth (Property name val) = 0"

text \<open>What a call that writes one item appends, seen from the reader.\<close>

definition item_written :: "fdt_item \<Rightarrow> fdt_state \<Rightarrow> fdt_state \<Rightarrow> bool" where
  "item_written item s s' \<longleftrightarrow> strings_ok (fdt_strings s') \<and> extends (fdt_strings s) (fdt_strings s') \<and>
     fdt_open_nodes s' = fdt_open_nodes s + depth item \<and>
     (\<exists>bs. fdt_tab s' = fdt_tab s @ bs \<and>
       (\<forall>strs ys. extends (fdt_strings s') strs \<longrightarrow> length (fdt_strings s') < 2 ^ 32 \<longrightarrow>
         fdt_parse strs (bs @ ys) = map_option ((#) item) (fdt_parse strs ys)))"

lemma extends_refl [simp]: "extends t t"
  by (simp add: extends_def)

lemma begin_node_written:
  assumes "strings_ok (fdt_strings s)" and "0 \<notin> set (c_bytes name)"
  shows "\<exists>s'. fdt_begin_node name s = Some s' \<and> item_written (Begin_node name) s s'"
proof -
  obtain s1 where s1: "fdt_put32 FDT_BEGIN_NODE s = Some s1" "grows s (be_bytes FDT_BEGIN_NODE) s1"
    using put32_grows by blast
  obtain s2 where s2: "fdt_put_data (c_string name) s1 = Some s2" "grows s1 (pad4 (c_string name)) s2"
    using put_data_grows by blast
  let ?bs = "be_bytes FDT_BEGIN_NODE @ pad4 (c_string name)"
  have "fdt_parse strs (?bs @ ys) = map_option ((#) (Begin_node name)) (fdt_parse strs ys)" for strs ys
  proof -
    have t: "takeWhile (\<lambda>b. b \<noteq> 0) (pad4 (c_string name) @ ys) = c_bytes name"
      using takeWhile_c_string [OF assms(2)] by (simp add: pad4_def)
    have l: "length (c_string name) = Suc (length (c_bytes name))"
      by (simp add: c_string_def)
    show ?thesis by (subst fdt_parse.simps) (simp add: Let_def t l fdt_tokens)
  qed
  then show ?thesis using s1 s2 assms(1) by (auto simp: fdt_begin_node_def item_written_def grows_def)
qed

lemma end_node_written:
  assumes "strings_ok (fdt_strings s)"
  shows "\<exists>s'. fdt_end_node s = Some s' \<and> item_written End_node s s'"
proof -
  obtain s1 where s1: "fdt_put32 FDT_END_NODE s = Some s1" "grows s (be_bytes FDT_END_NODE) s1"
    using put32_grows by blast
  have "fdt_parse strs (be_bytes FDT_END_NODE @ ys) = map_option ((#) End_node) (fdt_parse strs ys)" for strs ys
    by (subst fdt_parse.simps) (simp add: Let_def fdt_tokens)
  then show ?thesis using s1 assms by (auto simp: fdt_end_node_def item_written_def grows_def)
qed

text \<open>A property, given by its bytes or by words.\<close>

definition prop_bytes :: "nat \<Rightarrow> nat \<Rightarrow> u8 list \<Rightarrow> u8 list" where
  "prop_bytes len pos val = be_bytes FDT_PROP @ be_bytes (word_of_nat len) @ be_bytes (word_of_nat pos) @ pad4 val"

lemma fields:
  "take 4 (be_bytes v @ xs) = be_bytes v" "drop 4 (be_bytes v @ xs) = xs"
  "drop 8 (be_bytes v @ be_bytes w @ xs) = xs"
  by simp_all

lemma parse_prop:
  assumes "length val < 2 ^ 32" and "pos < 2 ^ 32"
  shows "fdt_parse strs (prop_bytes (length val) pos val @ ys) =
    map_option ((#) (Property (to_string (string_at strs pos)) val)) (fdt_parse strs ys)"
proof -
  have u: "unat (word_of_nat (length val) :: u32) = length val" "unat (word_of_nat pos :: u32) = pos"
    using assms by (simp_all add: unsigned_of_nat take_bit_nat_eq_self)
  have t: "take (length val) (pad4 val @ ys) = val" by (simp add: pad4_def)
  have d: "drop (align4 (length val)) (pad4 val @ ys) = ys" by simp
  show ?thesis
    by (subst fdt_parse.simps)
      (simp add: prop_bytes_def Let_def u t d fields fdt_tokens del: drop_append take_append drop_drop)
qed

lemma prop_written:
  assumes "strings_ok (fdt_strings s)" and "0 \<notin> set (c_bytes name)" and "length val < 2 ^ 32"
    and put: "\<And>s. \<exists>s'. put s = Some s' \<and> grows s (pad4 val) s'"
  shows "\<exists>s'. (do {
     s \<leftarrow> fdt_put32 FDT_PROP s;
     s \<leftarrow> fdt_put32 (word_of_nat (length val)) s;
     (pos, s) \<leftarrow> fdt_get_string_offset name s;
     s \<leftarrow> fdt_put32 (word_of_nat pos) s;
     put s
   }) = Some s' \<and> item_written (Property name val) s s'"
proof -
  obtain s1 where s1: "fdt_put32 FDT_PROP s = Some s1" "grows s (be_bytes FDT_PROP) s1"
    using put32_grows by blast
  obtain s2 where s2: "fdt_put32 (word_of_nat (length val)) s1 = Some s2" "grows s1 (be_bytes (word_of_nat (length val))) s2"
    using put32_grows by blast
  have "strings_ok (fdt_strings s2)" using assms(1) s1(2) s2(2) by (simp add: grows_def)
  then obtain pos s3 where s3: "fdt_get_string_offset name s2 = Some (pos, s3)" "fdt_tab s3 = fdt_tab s2"
    "fdt_open_nodes s3 = fdt_open_nodes s2" "extends (fdt_strings s2) (fdt_strings s3)" "strings_ok (fdt_strings s3)"
    "pos < length (fdt_strings s3)" "string_at (fdt_strings s3) pos = c_bytes name"
    using string_offset [OF _ assms(2), of s2] by blast
  obtain s4 where s4: "fdt_put32 (word_of_nat pos) s3 = Some s4" "grows s3 (be_bytes (word_of_nat pos)) s4"
    using put32_grows by blast
  obtain s5 where s5: "put s4 = Some s5" "grows s4 (pad4 val) s5" using put by blast
  have strs: "fdt_strings s5 = fdt_strings s3" using s4(2) s5(2) by (simp add: grows_def)
  have tab: "fdt_tab s5 = fdt_tab s @ prop_bytes (length val) pos val"
    using s1(2) s2(2) s3(2) s4(2) s5(2) by (simp add: grows_def prop_bytes_def)
  have "fdt_parse strs (prop_bytes (length val) pos val @ ys) = map_option ((#) (Property name val)) (fdt_parse strs ys)"
    if "extends (fdt_strings s3) strs" "length (fdt_strings s3) < 2 ^ 32" for strs ys
    using parse_prop [OF assms(3), of pos strs ys] that s3(6,7) string_at_extends [OF s3(5,6) that(1)] by simp
  then have "item_written (Property name val) s s5"
    using tab strs s1(2) s2(2) s3 s4(2) s5(2) unfolding item_written_def by (auto simp: grows_def)
  then show ?thesis using s1(1) s2(1) s3(1) s4(1) s5(1) by simp
qed

lemma emit_written:
  assumes "strings_ok (fdt_strings s)" and "item_ok item"
  shows "\<exists>s'. emit item s = Some s' \<and> item_written item s s'"
  using assms begin_node_written end_node_written prop_written [OF assms(1) _ _ put_data_grows]
  by (cases item) (auto simp: fdt_prop_def)

subsection \<open>Many items\<close>

definition all_written :: "fdt_item list \<Rightarrow> fdt_state \<Rightarrow> fdt_state \<Rightarrow> bool" where
  "all_written items s s' \<longleftrightarrow> strings_ok (fdt_strings s') \<and> extends (fdt_strings s) (fdt_strings s') \<and>
     fdt_open_nodes s' = fdt_open_nodes s + sum_list (map depth items) \<and>
     (\<exists>bs. fdt_tab s' = fdt_tab s @ bs \<and>
       (\<forall>strs ys. extends (fdt_strings s') strs \<longrightarrow> length (fdt_strings s') < 2 ^ 32 \<longrightarrow>
         fdt_parse strs (bs @ ys) = map_option ((@) items) (fdt_parse strs ys)))"

lemma written_Nil: "strings_ok (fdt_strings s) \<Longrightarrow> all_written [] s s"
proof -
  have "map_option ((@) []) r = r" for r :: "fdt_item list option" by (cases r) simp_all
  then show "strings_ok (fdt_strings s) \<Longrightarrow> all_written [] s s" by (simp add: all_written_def)
qed

lemma extends_length: "extends t t' \<Longrightarrow> length t \<le> length t'"
  by (auto simp: extends_def)

lemma written_Cons:
  assumes i: "item_written item s t" and js: "all_written items t u"
  shows "all_written (item # items) s u"
proof -
  obtain bs where bs: "fdt_tab t = fdt_tab s @ bs"
    "\<And>strs ys. extends (fdt_strings t) strs \<Longrightarrow> length (fdt_strings t) < 2 ^ 32 \<Longrightarrow>
      fdt_parse strs (bs @ ys) = map_option ((#) item) (fdt_parse strs ys)"
    using i by (auto simp: item_written_def)
  obtain cs where cs: "fdt_tab u = fdt_tab t @ cs"
    "\<And>strs ys. extends (fdt_strings u) strs \<Longrightarrow> length (fdt_strings u) < 2 ^ 32 \<Longrightarrow>
      fdt_parse strs (cs @ ys) = map_option ((@) items) (fdt_parse strs ys)"
    using js by (auto simp: all_written_def)
  have e: "extends (fdt_strings s) (fdt_strings t)" "extends (fdt_strings t) (fdt_strings u)"
    using i js by (simp_all add: item_written_def all_written_def)
  have "fdt_parse strs ((bs @ cs) @ ys) = map_option ((@) (item # items)) (fdt_parse strs ys)"
    if "extends (fdt_strings u) strs" "length (fdt_strings u) < 2 ^ 32" for strs ys
  proof -
    have "fdt_parse strs (bs @ cs @ ys) = map_option ((#) item) (fdt_parse strs (cs @ ys))"
      using bs(2) extends_trans [OF e(2) that(1)] extends_length [OF e(2)] that(2) by simp
    then show ?thesis using cs(2) [OF that] by (cases "fdt_parse strs ys") simp_all
  qed
  then show ?thesis using i js bs(1) cs(1) extends_trans [OF e]
    unfolding all_written_def by (auto simp: item_written_def all_written_def)
qed

text \<open>\<open>writes call item\<close>: in every state the call succeeds and writes the item.\<close>

definition writes :: "(fdt_state \<Rightarrow> fdt_state option) \<Rightarrow> fdt_item \<Rightarrow> bool" where
  "writes call item \<longleftrightarrow> (\<forall>s. strings_ok (fdt_strings s) \<longrightarrow> (\<exists>s'. call s = Some s' \<and> item_written item s s'))"

lemma run_written:
  "list_all2 writes calls items \<Longrightarrow> strings_ok (fdt_strings s) \<Longrightarrow>
    \<exists>s'. fdt_run calls s = Some s' \<and> all_written items s s'"
proof (induction calls items arbitrary: s rule: list_all2_induct)
  case Nil
  then show ?case by (simp add: written_Nil)
next
  case (Cons call calls item items)
  obtain t where t: "call s = Some t" "item_written item s t" using Cons by (auto simp: writes_def)
  then have "strings_ok (fdt_strings t)" by (simp add: item_written_def)
  then obtain u where "fdt_run calls t = Some u" "all_written items t u" using Cons.IH by blast
  then show ?case using t written_Cons [OF t(2)] by auto
qed

lemma tree_written:
  assumes "list_all2 writes calls items"
  shows "\<exists>s s'. fdt_run calls fdt_init = Some s \<and> fdt_open_nodes s = sum_list (map depth items) \<and>
    fdt_put32 FDT_END s = Some s' \<and>
    (length (fdt_strings s') < 2 ^ 32 \<longrightarrow> fdt_parse (fdt_strings s') (fdt_tab s') = Some items)"
proof -
  obtain s where s: "fdt_run calls fdt_init = Some s" "all_written items fdt_init s"
    using run_written [OF assms, of fdt_init] by (auto simp: fdt_init_def strings_ok_def)
  obtain s' where s': "fdt_put32 FDT_END s = Some s'" "grows s (be_bytes FDT_END) s'" using put32_grows by blast
  have "fdt_parse strs (be_bytes FDT_END) = Some []" for strs
    by (subst fdt_parse.simps) (simp add: Let_def fdt_tokens)
  then show ?thesis using s s' by (auto simp: all_written_def grows_def fdt_init_def)
qed

text \<open>C26: A device tree that is written item by item is read back as the same items: whatever nodes
  and properties are emitted, a reader of the structure block that follows the devicetree
  specification finds them in order, each property with its name from the shared strings block and
  its value; and writing never fails.\<close>

theorem fdt_roundtrip:
  assumes "list_all item_ok items"
  shows "\<exists>s s'. fdt_run (map emit items) fdt_init = Some s \<and> fdt_put32 FDT_END s = Some s' \<and>
    (length (fdt_strings s') < 2 ^ 32 \<longrightarrow> fdt_parse (fdt_strings s') (fdt_tab s') = Some items)"
proof -
  have "list_all2 writes (map emit items) items"
    using assms by (induction items) (auto simp: writes_def intro: emit_written)
  then show ?thesis using tree_written by blast
qed

lemma fdt_roundtrip_witness:
  "\<exists>s s'. fdt_run (map emit [Begin_node ''a'', Property ''reg'' [1, 2], End_node]) fdt_init = Some s \<and>
    fdt_put32 FDT_END s = Some s' \<and>
    (length (fdt_strings s') < 2 ^ 32 \<longrightarrow>
      fdt_parse (fdt_strings s') (fdt_tab s') = Some [Begin_node ''a'', Property ''reg'' [1, 2], End_node])"
  using fdt_roundtrip [of "[Begin_node ''a'', Property ''reg'' [1, 2], End_node]"] by (simp add: c_bytes_def)

subsection \<open>The tree of the machine\<close>

text \<open>\<open>closes d calls\<close>: the calls write items, with \<open>d\<close> more ends than begins.\<close>

definition closes :: "int \<Rightarrow> (fdt_state \<Rightarrow> fdt_state option) list \<Rightarrow> bool" where
  "closes d calls \<longleftrightarrow> (\<exists>items. list_all2 writes calls items \<and> sum_list (map depth items) = - d)"

lemma closes_Nil: "closes 0 []"
  by (simp add: closes_def)

lemma closes_Cons:
  assumes "writes call item" and "closes (d + depth item) calls"
  shows "closes d (call # calls)"
proof -
  obtain items where "list_all2 writes calls items" "sum_list (map depth items) = - (d + depth item)"
    using assms(2) by (auto simp: closes_def)
  then have "list_all2 writes (call # calls) (item # items)" "sum_list (map depth (item # items)) = - d"
    using assms(1) by simp_all
  then show ?thesis unfolding closes_def by blast
qed

lemma closes_append:
  assumes "closes d xs" and "closes e ys"
  shows "closes (d + e) (xs @ ys)"
proof -
  obtain is' js where "list_all2 writes xs is'" "sum_list (map depth is') = - d"
    "list_all2 writes ys js" "sum_list (map depth js) = - e"
    using assms by (auto simp: closes_def)
  then have "list_all2 writes (xs @ ys) (is' @ js)" "sum_list (map depth (is' @ js)) = - (d + e)"
    by (simp_all add: list_all2_appendI)
  then show ?thesis unfolding closes_def by blast
qed

definition no_nul :: "string \<Rightarrow> bool" where
  "no_nul name \<longleftrightarrow> 0 \<notin> set (c_bytes name)"

lemma closes_begin: "no_nul name \<Longrightarrow> closes (d + 1) calls \<Longrightarrow> closes d (fdt_begin_node name # calls)"
  using closes_Cons [of "fdt_begin_node name" "Begin_node name" d calls] begin_node_written
  by (simp add: writes_def no_nul_def)

lemma closes_end: "closes (d - 1) calls \<Longrightarrow> closes d (fdt_end_node # calls)"
  using closes_Cons [of fdt_end_node End_node d calls] end_node_written by (simp add: writes_def)

lemma closes_prop:
  "no_nul name \<Longrightarrow> length val < 2 ^ 32 \<Longrightarrow> closes d calls \<Longrightarrow> closes d (fdt_prop name val # calls)"
  using closes_Cons [of "fdt_prop name val" "Property name val" d calls]
    emit_written [of _ "Property name val"] by (simp add: writes_def no_nul_def)

lemma put_words_grow:
  "\<exists>s'. fdt_put_words ws s = Some s' \<and> grows s (concat (map be_bytes ws)) s'"
proof (induction ws arbitrary: s)
  case (Cons w ws)
  obtain t where "fdt_put32 w s = Some t" "grows s (be_bytes w) t" using put32_grows by blast
  then show ?case using Cons.IH [of t] by (auto simp: grows_def)
qed (simp add: grows_def)

lemma length_words: "length (concat (map be_bytes ws)) = length ws * 4"
  by (induction ws) simp_all

lemma pad_words: "pad4 (concat (map be_bytes ws)) = concat (map be_bytes ws)"
proof -
  have "- int (length ws * 4) mod 4 = 0" by presburger
  then show ?thesis by (simp add: pad4_def length_words)
qed

lemma closes_words:
  assumes "no_nul name" and "length ws < 2 ^ 30" and "closes d calls"
  shows "closes d (fdt_prop_tab_u32 name ws # calls)"
proof -
  have "writes (fdt_prop_tab_u32 name ws) (Property name (concat (map be_bytes ws)))"
    using prop_written [where name = name and val = "concat (map be_bytes ws)" and put = "fdt_put_words ws"]
      assms(1,2) put_words_grow [of ws]
    by (simp add: writes_def no_nul_def fdt_prop_tab_u32_def length_words pad_words)
  then show ?thesis using closes_Cons [of _ _ d calls] assms(3) by force
qed

lemma closes_done: "d = 0 \<Longrightarrow> closes d []"
  by (simp add: closes_Nil)

lemma no_nul_append: "no_nul (xs @ ys) \<longleftrightarrow> no_nul xs \<and> no_nul ys"
  by (simp add: no_nul_def c_bytes_def)

lemma no_nul_take: "no_nul xs \<Longrightarrow> no_nul (take n xs)"
  by (auto simp: no_nul_def c_bytes_def dest: in_set_takeD)

lemma of_char_u8: "unat (of_char c :: u8) = of_char c"
  by (simp add: of_char_def unsigned_of_nat)

lemma hex_digit_no_nul: "d < 16 \<Longrightarrow> (of_char (hex_digit d) :: u8) \<noteq> 0"
proof
  assume "d < 16" and "(of_char (hex_digit d) :: u8) = 0"
  then have "(of_char (hex_digit d) :: nat) = 0" using of_char_u8 [of "hex_digit d"] by simp
  then show False using \<open>d < 16\<close> by (auto simp: hex_digit_def split: if_splits)
qed

lemma hex_string_no_nul: "no_nul (hex_string n)"
proof (induction n rule: hex_string.induct)
  case (1 n)
  then show ?case using hex_digit_no_nul
    by (subst hex_string.simps) (auto simp: no_nul_append no_nul_def c_bytes_def)
qed

lemma at_no_nul: "no_nul (CHR ''@'' # xs) = no_nul xs"
  by (simp add: no_nul_def c_bytes_def)

lemma closes_begin_num: "no_nul name \<Longrightarrow> closes (d + 1) calls \<Longrightarrow> closes d (fdt_begin_node_num name n # calls)"
  unfolding fdt_begin_node_num_def
  by (intro closes_begin no_nul_take) (simp_all add: no_nul_append hex_string_no_nul at_no_nul)

lemmas closes_calls = closes_begin closes_begin_num closes_end closes_prop closes_words closes_done

lemmas prop_forms = fdt_prop_u32_def fdt_prop_str_def fdt_prop_tab_u64_def fdt_prop_tab_u64_2_def fdt_prop_tab_str_def

lemma no_nul_lit: "no_nul name \<longleftrightarrow> list_all (\<lambda>c. (of_char c :: u8) \<noteq> 0) name"
  by (auto simp: no_nul_def c_bytes_def list_all_iff)

lemma isa_string_length: "length (isa_string w isa) \<le> 31"
proof -
  have "length (filter (\<lambda>i. isa AND push_bit i 1 \<noteq> 0) [0..<26]) \<le> 26"
    using length_filter_le [of _ "[0..<26::nat]"] by simp
  then show ?thesis by (simp add: isa_string_def)
qed

lemma closes_cpu: "closes 0 (fdt_cpu_calls w isa)"
  unfolding fdt_cpu_calls_def prop_forms
  by (intro closes_calls) (simp_all add: no_nul_lit c_string_def c_bytes_def le_less_trans [OF isa_string_length])

lemma closes_memory: "closes 0 (fdt_memory_calls ram)"
  unfolding fdt_memory_calls_def prop_forms
  by (intro closes_calls) (simp_all add: no_nul_lit c_string_def c_bytes_def)

lemma closes_virtio: "closes 0 (fdt_virtio_calls i)"
  unfolding fdt_virtio_calls_def prop_forms Let_def
  by (intro closes_calls) (simp_all add: no_nul_lit c_string_def c_bytes_def)

lemma closes_concat: "(\<And>i. i \<in> set is' \<Longrightarrow> closes 0 (f i)) \<Longrightarrow> closes 0 (concat (map f is'))"
  by (induction is') (auto simp: closes_Nil intro: closes_append [of 0 _ 0, simplified])

lemma closes_framebuffer: "closes 0 (fdt_framebuffer_calls fb)"
proof (cases fb)
  case None
  then show ?thesis by (simp add: fdt_framebuffer_calls_def closes_Nil)
next
  case (Some d)
  then show ?thesis unfolding fdt_framebuffer_calls_def prop_forms option.case Some
    by (intro closes_calls) (simp_all add: no_nul_lit c_string_def c_bytes_def)
qed

lemma closes_last: "closes 1 [fdt_end_node]"
  by (intro closes_calls) simp_all

lemma closes_before: "closes 0 xs \<Longrightarrow> closes d ys \<Longrightarrow> closes d (xs @ ys)"
  using closes_append [of 0 xs d ys] by simp

lemma closes_open: "closes (- 1) xs \<Longrightarrow> closes 1 ys \<Longrightarrow> closes 0 (xs @ ys)"
  using closes_append [of "- 1" xs 1 ys] by simp

lemma closes_soc: "closes 0 (fdt_soc_calls virtios fb)"
  unfolding fdt_soc_calls_def
proof (rule closes_open)
  show "closes 1 (concat (map fdt_virtio_calls [0..<virtios]) @ fdt_framebuffer_calls fb @ [fdt_end_node])"
    by (intro closes_before closes_concat closes_virtio closes_framebuffer closes_last)
qed (unfold prop_forms, intro closes_calls, simp_all add: no_nul_lit c_string_def c_bytes_def)

lemma closes_chosen:
  assumes "\<And>l. cmd_line img = Some l \<Longrightarrow> length l < 2 ^ 31"
  shows "closes 0 (fdt_chosen_calls img)"
  unfolding fdt_chosen_calls_def
proof (rule closes_open)
  have "length (case cmd_line img of None \<Rightarrow> '''' | Some l \<Rightarrow> l) < 2 ^ 31"
    using assms by (cases "cmd_line img") auto
  then show "closes (- 1) [fdt_begin_node ''chosen'',
     fdt_prop_str ''bootargs'' (case cmd_line img of None \<Rightarrow> '''' | Some l \<Rightarrow> l)]"
    unfolding prop_forms by (intro closes_calls) (simp_all add: no_nul_lit c_string_def c_bytes_def)
  have range: "closes 0 (if b then [fdt_prop_tab_u64 p x, fdt_prop_tab_u64 q y] else [])"
    if "no_nul p" "no_nul q" for b p q x y
    unfolding prop_forms using that closes_Nil by (auto intro!: closes_calls)
  show "closes 1 ((if kernel_size img > 0 then
      [fdt_prop_tab_u64 ''riscv,kernel-start'' (kernel_start img),
       fdt_prop_tab_u64 ''riscv,kernel-end'' (kernel_start img + kernel_size img)] else []) @
    (if initrd_size img > 0 then
      [fdt_prop_tab_u64 ''linux,initrd-start'' (initrd_start img),
       fdt_prop_tab_u64 ''linux,initrd-end'' (initrd_start img + initrd_size img)] else []) @
    [fdt_end_node])"
    by (intro closes_before range closes_last) (simp_all add: no_nul_lit)
qed

lemma closes_machine:
  assumes "\<And>l. cmd_line img = Some l \<Longrightarrow> length l < 2 ^ 31"
  shows "closes 0 (fdt_calls m fb img)"
  unfolding fdt_calls_def
proof (rule closes_open)
  show "closes 1 (fdt_cpu_calls (max_xlen m) (riscv_cpu_get_misa m) @ fdt_memory_calls (ram_size m) @
    fdt_soc_calls (virtio_count m) fb @ fdt_chosen_calls img @ [fdt_end_node])"
    by (intro closes_before closes_cpu closes_memory closes_soc closes_chosen closes_last assms)
qed (unfold prop_forms, intro closes_calls, simp_all add: no_nul_lit c_string_def c_bytes_def)

text \<open>C27: The device tree of every machine is written in full: whatever the memory size, the
  devices and the image addresses are, no call of riscv_build_fdt runs out of room, every node it
  opens is closed again (the assertion before the end token holds), and the block can be read back
  item by item.\<close>

theorem machine_tree_written:
  assumes "\<And>l. cmd_line img = Some l \<Longrightarrow> length l < 2 ^ 31"
  shows "\<exists>s s' items. fdt_run (fdt_calls m fb img) fdt_init = Some s \<and> fdt_open_nodes s = 0 \<and>
    fdt_put32 FDT_END s = Some s' \<and> length items = length (fdt_calls m fb img) \<and>
    (length (fdt_strings s') < 2 ^ 32 \<longrightarrow> fdt_parse (fdt_strings s') (fdt_tab s') = Some items)"
proof -
  obtain items where i: "list_all2 writes (fdt_calls m fb img) items" "sum_list (map depth items) = 0"
    using closes_machine [of img m fb] assms unfolding closes_def by fastforce
  then show ?thesis using tree_written [OF i(1)] list_all2_lengthD [OF i(1)] by auto
qed

lemma machine_tree_written_witness:
  "\<exists>s s' items. fdt_run (fdt_calls sample_machine None
      \<lparr>kernel_start = 0, kernel_size = 0, initrd_start = 0, initrd_size = 0, cmd_line = Some ''console=hvc0''\<rparr>) fdt_init = Some s \<and>
    fdt_open_nodes s = 0 \<and> fdt_put32 FDT_END s = Some s' \<and>
    length items = length (fdt_calls sample_machine None
      \<lparr>kernel_start = 0, kernel_size = 0, initrd_start = 0, initrd_size = 0, cmd_line = Some ''console=hvc0''\<rparr>) \<and>
    (length (fdt_strings s') < 2 ^ 32 \<longrightarrow> fdt_parse (fdt_strings s') (fdt_tab s') = Some items)"
  by (rule machine_tree_written) simp

end
