(* ===== verification/FloatSpec.thy ===== *)
theory FloatSpec
  imports Complex_Main SoftFp
begin

unbundle bit_operations_syntax

section \<open>Correct rounding\<close>

text \<open>
  The value of a floating-point number and the rounding of a real number to a format, as IEEE 754
  defines them: the result is the number of the format that the rounding mode selects for the exact
  value, whatever algorithm computes it. The lemmas relate the mantissas of the code, which carry a
  sticky bit for all that was shifted out, to the exact values.
\<close>

subsection \<open>The standard\<close>

definition bias :: "'f::len itself \<Rightarrow> int" where
  "bias T = EXP_MASK T div 2"

definition finite_sf :: "'f::len word \<Rightarrow> bool" where
  "finite_sf a \<longleftrightarrow> fst (snd (unpack_sf a)) \<noteq> EXP_MASK TYPE('f)"

definition sf_sign :: "'f::len word \<Rightarrow> bool" where
  "sf_sign a = bit a (LENGTH('f) - 1)"

definition sf_mag :: "'f::len word \<Rightarrow> real" where
  "sf_mag a = (let (a_sign, a_exp, a_mant) = unpack_sf a in
     if a_exp = 0 then of_int (uint a_mant) * 2 powi (1 - bias TYPE('f) - int (MANT_SIZE TYPE('f)))
     else of_int (2 ^ MANT_SIZE TYPE('f) + uint a_mant) * 2 powi (a_exp - bias TYPE('f) - int (MANT_SIZE TYPE('f))))"

definition sf_value :: "'f::len word \<Rightarrow> real" where
  "sf_value a = (if sf_sign a then - sf_mag a else sf_mag a)"

text \<open>Rounding the magnitude \<open>y\<close> of a number with the given sign to an integer.\<close>

definition round_int :: "u32 \<Rightarrow> bool \<Rightarrow> real \<Rightarrow> int" where
  "round_int rm s y =
     (if rm = RM_RNE then
        if y - of_int \<lfloor>y\<rfloor> < 1 / 2 \<or> (y - of_int \<lfloor>y\<rfloor> = 1 / 2 \<and> even \<lfloor>y\<rfloor>) then \<lfloor>y\<rfloor> else \<lfloor>y\<rfloor> + 1
      else if rm = RM_RMM then \<lfloor>y + 1 / 2\<rfloor>
      else if rm = RM_RDN \<and> s \<or> rm = RM_RUP \<and> \<not> s then \<lceil>y\<rceil>
      else \<lfloor>y\<rfloor>)"

definition rounds_to_infinity :: "u32 \<Rightarrow> bool \<Rightarrow> bool" where
  "rounds_to_infinity rm s \<longleftrightarrow> rm = RM_RNE \<or> rm = RM_RMM \<or> rm = RM_RDN \<and> s \<or> rm = RM_RUP \<and> \<not> s"

text \<open>
  The result for the exact magnitude \<open>x\<close>. The exponent of its leading bit, not below the one of the
  normal numbers, fixes the distance of neighbouring numbers. The encodings of the numbers are in
  the order of their values, so that the encoding of the result is a sum. The result is inexact if
  it is not \<open>x\<close>; it has underflowed if it is inexact and is below the normal numbers after rounding
  with unbounded exponents.
\<close>

definition round_sf :: "u32 \<Rightarrow> bool \<Rightarrow> real \<Rightarrow> u32 \<Rightarrow> 'f::len word \<times> u32" where
  "round_sf rm s x fl =
     (if x = 0 then (pack_sf s 0 0, fl)
      else
        let M = MANT_SIZE TYPE('f);
            e0 = \<lfloor>log 2 x\<rfloor>;
            q0 = 2 powi (e0 - int M);
            e = max e0 (1 - bias TYPE('f));
            q = 2 powi (e - int M);
            n = round_int rm s (x / q);
            k = (e + bias TYPE('f) - 1) * 2 ^ M + n;
            inexact = (of_int n * q \<noteq> x);
            tiny = (of_int (round_int rm s (x / q0)) * q0 < 2 powi (1 - bias TYPE('f)));
            fl = (if tiny \<and> inexact then fl OR FFLAG_UNDERFLOW else fl);
            fl = (if inexact then fl OR FFLAG_INEXACT else fl);
            sgn_bit = push_bit (LENGTH('f) - 1) (of_bool s);
            infinity = EXP_MASK TYPE('f) * 2 ^ M
        in
        if k < infinity then (sgn_bit OR word_of_int k, fl)
        else ((sgn_bit OR word_of_int (if rounds_to_infinity rm s then infinity else infinity - 1)),
          fl OR FFLAG_OVERFLOW OR FFLAG_INEXACT))"

subsection \<open>Numbers that round alike\<close>

text \<open>Two reals that compare alike with all multiples of \<open>g\<close>.\<close>

definition agree :: "real \<Rightarrow> real \<Rightarrow> real \<Rightarrow> bool" where
  "agree g a b \<longleftrightarrow> (\<forall>t::int. (a < of_int t * g \<longleftrightarrow> b < of_int t * g) \<and> (of_int t * g < a \<longleftrightarrow> of_int t * g < b))"

lemma agree_refl [simp]: "agree g a a"
  by (simp add: agree_def)

lemma agree_sym: "agree g a b \<Longrightarrow> agree g b a"
  by (simp add: agree_def)

lemma agree_trans: "agree g a b \<Longrightarrow> agree g b c \<Longrightarrow> agree g a c"
  by (simp add: agree_def)

lemma agreeD:
  assumes "agree g a b"
  shows "a < of_int t * g \<longleftrightarrow> b < of_int t * g" "of_int t * g < a \<longleftrightarrow> of_int t * g < b"
    "a \<le> of_int t * g \<longleftrightarrow> b \<le> of_int t * g" "of_int t * g \<le> a \<longleftrightarrow> of_int t * g \<le> b"
    "a = of_int t * g \<longleftrightarrow> b = of_int t * g"
proof -
  show lt: "a < of_int t * g \<longleftrightarrow> b < of_int t * g" and gt: "of_int t * g < a \<longleftrightarrow> of_int t * g < b"
    using assms unfolding agree_def by blast+
  show "a \<le> of_int t * g \<longleftrightarrow> b \<le> of_int t * g" using gt by linarith
  show "of_int t * g \<le> a \<longleftrightarrow> of_int t * g \<le> b" using lt by linarith
  show "a = of_int t * g \<longleftrightarrow> b = of_int t * g" using lt gt by linarith
qed

lemma agree_scale:
  assumes "agree g a b" and "0 < c"
  shows "agree (c * g) (c * a) (c * b)"
proof -
  have "c * u < of_int t * (c * g) \<longleftrightarrow> u < of_int t * g" "of_int t * (c * g) < c * u \<longleftrightarrow> of_int t * g < u" for t u
    using assms(2) by (simp_all add: mult.left_commute [of _ c])
  then show ?thesis using assms(1) by (simp add: agree_def)
qed

lemma agree_coarse:
  assumes "agree g a b"
  shows "agree (of_int k * g) a b"
  unfolding agree_def
proof
  fix t :: int
  show "(a < of_int t * (of_int k * g) \<longleftrightarrow> b < of_int t * (of_int k * g)) \<and>
    (of_int t * (of_int k * g) < a \<longleftrightarrow> of_int t * (of_int k * g) < b)"
    using agreeD(1,2) [OF assms, of "t * k"] by (simp add: mult.assoc)
qed

lemma agree_powers:
  assumes "agree (2 ^ i) a b" and "i \<le> j"
  shows "agree (2 ^ j) a b"
  using agree_coarse [OF assms(1), of "2 ^ (j - i)"] assms(2) by (simp flip: power_add)

lemma agree_shift:
  assumes "agree g a b"
  shows "agree g (of_int k * g + a) (of_int k * g + b)"
  unfolding agree_def
proof
  fix t :: int
  have "of_int k * g + u < of_int t * g \<longleftrightarrow> u < of_int (t - k) * g" "of_int t * g < of_int k * g + u \<longleftrightarrow> of_int (t - k) * g < u" for u
    by (auto simp: algebra_simps)
  then show "(of_int k * g + a < of_int t * g \<longleftrightarrow> of_int k * g + b < of_int t * g) \<and>
    (of_int t * g < of_int k * g + a \<longleftrightarrow> of_int t * g < of_int k * g + b)"
    using agreeD(1,2) [OF assms, of "t - k"] by simp
qed

lemma agree_minus:
  assumes "agree g a b"
  shows "agree g (- a) (- b)"
  unfolding agree_def
proof
  fix t :: int
  have "- u < of_int t * g \<longleftrightarrow> of_int (- t) * g < u" "of_int t * g < - u \<longleftrightarrow> u < of_int (- t) * g" for u
    by auto
  then show "(- a < of_int t * g \<longleftrightarrow> - b < of_int t * g) \<and> (of_int t * g < - a \<longleftrightarrow> of_int t * g < - b)"
    using agreeD(1,2) [OF assms, of "- t"] by simp
qed

lemma agree_half_floor:
  assumes "agree (1 / 2) a b"
  shows "\<lfloor>a\<rfloor> = \<lfloor>b\<rfloor>" "\<lceil>a\<rceil> = \<lceil>b\<rceil>" "\<lfloor>a + 1 / 2\<rfloor> = \<lfloor>b + 1 / 2\<rfloor>"
    "a - of_int \<lfloor>a\<rfloor> < 1 / 2 \<longleftrightarrow> b - of_int \<lfloor>b\<rfloor> < 1 / 2" "a - of_int \<lfloor>a\<rfloor> = 1 / 2 \<longleftrightarrow> b - of_int \<lfloor>b\<rfloor> = 1 / 2"
    "of_int n = a \<longleftrightarrow> of_int n = b"
proof -
  note d = agreeD [OF assms]
  have "\<lfloor>b\<rfloor> = \<lfloor>a\<rfloor>"
    using d(1) [of "2 * (\<lfloor>a\<rfloor> + 1)"] d(4) [of "2 * \<lfloor>a\<rfloor>"] by (intro floor_unique) (simp_all, linarith+)
  then show f: "\<lfloor>a\<rfloor> = \<lfloor>b\<rfloor>" by simp
  have "\<lceil>b\<rceil> = \<lceil>a\<rceil>"
    using d(2) [of "2 * (\<lceil>a\<rceil> - 1)"] d(3) [of "2 * \<lceil>a\<rceil>"] by (intro ceiling_unique) (simp_all, linarith+)
  then show "\<lceil>a\<rceil> = \<lceil>b\<rceil>" by simp
  let ?k = "\<lfloor>a + 1 / 2\<rfloor>"
  have "\<lfloor>b + 1 / 2\<rfloor> = ?k"
    using d(1) [of "2 * ?k + 1"] d(4) [of "2 * ?k - 1"] by (intro floor_unique) (simp_all, linarith+)
  then show "?k = \<lfloor>b + 1 / 2\<rfloor>" by simp
  show "a - of_int \<lfloor>a\<rfloor> < 1 / 2 \<longleftrightarrow> b - of_int \<lfloor>b\<rfloor> < 1 / 2"
    using d(1) [of "2 * \<lfloor>a\<rfloor> + 1"] unfolding f by (simp add: field_simps)
  show "a - of_int \<lfloor>a\<rfloor> = 1 / 2 \<longleftrightarrow> b - of_int \<lfloor>b\<rfloor> = 1 / 2"
    using d(5) [of "2 * \<lfloor>a\<rfloor> + 1"] unfolding f by (simp add: field_simps)
  show "of_int n = a \<longleftrightarrow> of_int n = b"
    using d(5) [of "2 * n"] by auto
qed

lemma agree_round: "agree (1 / 2) a b \<Longrightarrow> round_int rm s a = round_int rm s b"
  unfolding round_int_def using agree_half_floor by presburger

subsection \<open>Sticky bits\<close>

text \<open>The integer part, made odd if there is a rest: what the code keeps of an exact value.\<close>

definition sticky :: "real \<Rightarrow> int" where
  "sticky y = (if of_int \<lfloor>y\<rfloor> = y \<or> odd \<lfloor>y\<rfloor> then \<lfloor>y\<rfloor> else \<lfloor>y\<rfloor> + 1)"

lemma agree_sticky: "agree 2 (of_int (sticky y)) y"
proof (cases "of_int \<lfloor>y\<rfloor> = y")
  case True
  then have "of_int (sticky y) = y" unfolding sticky_def by presburger
  then show ?thesis by simp
next
  case False
  then have y: "of_int \<lfloor>y\<rfloor> < y" "y < of_int \<lfloor>y\<rfloor> + 1" by linarith+
  have "odd (sticky y)" using False by (simp add: sticky_def)
  moreover have st: "\<lfloor>y\<rfloor> \<le> sticky y" "sticky y \<le> \<lfloor>y\<rfloor> + 1" by (simp_all add: sticky_def)
  ultimately have "of_int (sticky y) < (of_int t * 2 :: real) \<longleftrightarrow> y < of_int t * 2"
    "of_int t * 2 < (of_int (sticky y) :: real) \<longleftrightarrow> of_int t * 2 < y" for t :: int
  proof -
    have i: "(of_int (sticky y) < (of_int t * 2 :: real)) = (sticky y < t * 2)"
      "(of_int t * 2 < (of_int (sticky y) :: real)) = (t * 2 < sticky y)"
      by linarith+
    have "y < of_int (t * 2) \<longleftrightarrow> \<lfloor>y\<rfloor> < t * 2" "of_int (t * 2) < y \<longleftrightarrow> t * 2 \<le> \<lfloor>y\<rfloor>"
      using y by linarith+
    moreover have "sticky y \<noteq> t * 2" using \<open>odd (sticky y)\<close> by auto
    ultimately show "of_int (sticky y) < (of_int t * 2 :: real) \<longleftrightarrow> y < of_int t * 2"
      "of_int t * 2 < (of_int (sticky y) :: real) \<longleftrightarrow> of_int t * 2 < y"
      unfolding i using st \<open>odd (sticky y)\<close> False by (auto simp: sticky_def split: if_splits)
  qed
  then show ?thesis by (simp add: agree_def)
qed

lemma div_less_int: "0 < D \<Longrightarrow> v div D < b \<longleftrightarrow> v < b * D" for v b D :: int
proof -
  assume D: "0 < D"
  have v: "v = v div D * D + v mod D" "0 \<le> v mod D" "v mod D < D" using D by simp_all
  show "v div D < b \<longleftrightarrow> v < b * D"
  proof
    assume "v div D < b"
    then have "(v div D + 1) * D \<le> b * D" using D by (intro mult_right_mono) auto
    then show "v < b * D" using v by (simp only: distrib_right)
  next
    assume "v < b * D"
    then have "v div D * D < b * D" using v by linarith
    then show "v div D < b" using D by simp
  qed
qed

lemma or_1_int: "(n :: int) OR 1 = (if even n then n + 1 else n)"
  by (simp add: or_one_eq)

lemma sticky_div:
  assumes "0 < D"
  shows "sticky (of_int N / of_int D) = (if N mod D \<noteq> 0 then N div D OR 1 else N div D)"
proof -
  have "of_int (N div D) = (of_int N / of_int D :: real) \<longleftrightarrow> N mod D = 0"
  proof -
    have "of_int (N div D) = (of_int N / of_int D :: real) \<longleftrightarrow> of_int (N div D * D) = (of_int N :: real)"
      using assms by (simp add: field_simps)
    also have "\<dots> \<longleftrightarrow> N div D * D = N" by (simp only: of_int_eq_iff)
    also have "\<dots> \<longleftrightarrow> N mod D = 0" using div_mult_mod_eq [of N D] by linarith
    finally show ?thesis .
  qed
  then show ?thesis by (auto simp: sticky_def floor_divide_of_int_eq or_1_int)
qed

subsection \<open>Rounding a mantissa\<close>

lemmas rm_defs = RM_RNE_def RM_RTZ_def RM_RDN_def RM_RUP_def RM_RMM_def

lemma rm_distinct: "distinct [RM_RNE, RM_RTZ, RM_RDN, RM_RUP, RM_RMM]"
  by (simp add: rm_defs)

lemma round_int_div:
  fixes m D :: int and s :: bool
  assumes "0 < D" and "even D" and "rm \<le> RM_RMM"
  defines "add \<equiv> (if rm = RM_RNE \<or> rm = RM_RMM then D div 2 else if rm = RM_RDN \<and> s \<or> rm = RM_RUP \<and> \<not> s then D - 1 else 0)"
  shows "round_int rm s (of_int m / of_int D) =
    (if rm = RM_RNE \<and> m mod D = D div 2 then 2 * ((m + add) div D div 2) else (m + add) div D)"
proof -
  define q where "q = m div D"
  define t where "t = m mod D"
  obtain h where D: "D = 2 * h" "0 < h" using assms(1,2) by auto
  have m: "m = q * D + t" and t: "0 \<le> t" "t < D"
    using assms(1) by (simp_all add: q_def t_def)
  have fl: "\<lfloor>of_int m / of_int D :: real\<rfloor> = q" by (simp add: floor_divide_of_int_eq q_def)
  have fr: "of_int m / of_int D - of_int q = (of_int t / of_int D :: real)"
    using assms(1) by (simp add: m field_simps)
  have half: "(of_int t / of_int D < (1 / 2 :: real)) = (t < h)" "(of_int t / of_int D = (1 / 2 :: real)) = (t = h)"
    using D(2) by (auto simp: D(1) field_simps)
  have up: "(m + u) div D = (if t + u < D then q else q + 1)" if "0 \<le> u" "u < D" for u
  proof -
    have "(m + u) div D = q + (t + u) div D" using assms(1) by (simp add: m add.assoc)
    moreover have "(t + u) div D = (if t + u < D then 0 else 1)"
      using t that assms(1) div_pos_pos_trivial [of "t + u" D] div_pos_pos_trivial [of "t + u - D" D]
        div_add_self2 [of D "t + u - D"] by auto
    ultimately show ?thesis by simp
  qed
  have ce: "\<lceil>of_int m / of_int D :: real\<rceil> = (m + (D - 1)) div D"
  proof -
    have "\<lceil>of_int m / of_int D :: real\<rceil> = (if t = 0 then q else q + 1)"
      using fr fl by (intro ceiling_unique) (use assms(1) t in \<open>auto simp: field_simps\<close>)
    then show ?thesis using up [of "D - 1"] t assms(1) by auto
  qed
  have rmm: "\<lfloor>of_int m / of_int D + 1 / 2 :: real\<rfloor> = (m + h) div D"
  proof -
    have "of_int m / of_int D + 1 / 2 = (of_int (m + h) / of_int D :: real)"
      using D by (simp add: field_simps)
    then show ?thesis by (simp only: floor_divide_of_int_eq)
  qed
  have par: "2 * ((q + 1) div 2) = (if even q then q else q + 1)" by presburger
  have zero: "m div D = q" and add: "(m + h) div D = (if t < h then q else q + 1)"
    using up [of 0] up [of h] D t by auto
  have dh: "D div 2 = h" using D by simp
  show ?thesis
    unfolding round_int_def fl fr half ce rmm add_def t_def [symmetric] dh by (simp add: zero add par rm_distinct)
qed

subsection \<open>The formats\<close>

definition sf_format :: "'f::len itself \<Rightarrow> bool" where
  "sf_format T \<longleftrightarrow> LENGTH('f) = 32 \<or> LENGTH('f) = 64"

lemma format_facts:
  assumes "sf_format TYPE('f::len)"
  shows "LENGTH('f) = MANT_SIZE TYPE('f) + RND_SIZE TYPE('f) + 2" "7 \<le> RND_SIZE TYPE('f)"
    "RND_SIZE TYPE('f) + 3 \<le> MANT_SIZE TYPE('f)" "LENGTH('f) = EXP_SIZE TYPE('f) + MANT_SIZE TYPE('f) + 1"
    "8 \<le> EXP_SIZE TYPE('f)" "EXP_MASK TYPE('f) = 2 * bias TYPE('f) + 1" "bias TYPE('f) = 2 ^ (EXP_SIZE TYPE('f) - 1) - 1"
    "IMANT_SIZE TYPE('f) = MANT_SIZE TYPE('f) + RND_SIZE TYPE('f)" "127 \<le> bias TYPE('f)"
  using assms by (auto simp: sf_format_def MANT_SIZE_def RND_SIZE_def EXP_SIZE_def IMANT_SIZE_def EXP_MASK_def bias_def)

lemma MANT_MASK_mask: "MANT_MASK = (mask (MANT_SIZE TYPE('f)) :: 'f::len word)"
  by (simp add: MANT_MASK_def mask_eq_exp_minus_1 push_bit_eq_mult)

lemma uint_low: "uint ((w :: 'f::len word) AND (push_bit n 1 - 1)) = uint w mod 2 ^ n"
proof -
  have "w AND (push_bit n 1 - 1) = take_bit n w"
    by (simp add: push_bit_eq_mult take_bit_eq_mask mask_eq_exp_minus_1)
  then show ?thesis by (simp only: unsigned_take_bit_eq) (simp only: take_bit_eq_mod)
qed

lemma uint_MANT_MASK_and: "uint ((w :: 'f::len word) AND MANT_MASK) = uint w mod 2 ^ MANT_SIZE TYPE('f)"
  by (simp only: MANT_MASK_def uint_low)

lemma uint_drop: "uint (drop_bit n (w :: 'f::len word)) = uint w div 2 ^ n"
  by (simp only: unsigned_drop_bit_eq) (simp add: drop_bit_eq_div take_bit_int_eq_self)

lemma uint_push:
  assumes "uint (w :: 'f::len word) * 2 ^ n < 2 ^ LENGTH('f)"
  shows "uint (push_bit n w) = uint w * 2 ^ n"
  using assms by (simp only: unsigned_push_bit_eq) (simp add: push_bit_eq_mult take_bit_int_eq_self)

lemma uint_push_1: "n < LENGTH('f) \<Longrightarrow> uint (push_bit n 1 :: 'f::len word) = 2 ^ n"
  using uint_push [of "1 :: 'f word" n] by simp

lemma uint_ones: "n < LENGTH('f) \<Longrightarrow> uint (push_bit n 1 - 1 :: 'f::len word) = 2 ^ n - 1"
  using uint_sub_lem [of "1 :: 'f word" "push_bit n 1"] uint_push_1 [of n, where 'f = 'f] by simp

lemma uint_sum:
  assumes "uint (a :: 'f::len word) + uint b < 2 ^ LENGTH('f)"
  shows "uint (a + b) = uint a + uint b"
  using assms by (simp add: uint_word_ariths)

lemma uint_or_of_bool: "uint ((w :: 'f::len word) OR of_bool p) = (if p then uint w OR 1 else uint w)"
  by (simp add: unsigned_or_eq)

lemma uint_rshift_rnd:
  assumes "0 \<le> d"
  shows "uint (rshift_rnd (w :: 'f::len word) d) = sticky (of_int (uint w) / 2 ^ nat d)"
proof -
  have "(2 :: real) ^ nat d = of_int (2 ^ nat d)" by simp
  then have st: "sticky (of_int (uint w) / 2 ^ nat d) =
      (if uint w mod 2 ^ nat d \<noteq> 0 then uint w div 2 ^ nat d OR 1 else uint w div 2 ^ nat d)"
    using sticky_div [of "2 ^ nat d" "uint w"] by simp
  show ?thesis
  proof (cases "d < int LENGTH('f)")
    case True
    have "(w AND (push_bit (nat d) 1 - 1) \<noteq> 0) = (uint w mod 2 ^ nat d \<noteq> 0)"
      using uint_low [of w "nat d"] by (metis uint_0_iff)
    then show ?thesis unfolding st using True assms
      by (cases "uint w mod 2 ^ nat d = 0"; cases "d = 0")
        (simp_all add: rshift_rnd_def Let_def unsigned_or_eq uint_drop del: push_bit_of_1)
  next
    case False
    then have "2 ^ LENGTH('f) \<le> (2 :: int) ^ nat d" by (intro power_increasing) auto
    then have "uint w < 2 ^ nat d" using uint_lt2p [of w] by linarith
    then have "uint w mod 2 ^ nat d = uint w" "uint w div 2 ^ nat d = 0" by simp_all
    then show ?thesis unfolding st using False assms by (auto simp: rshift_rnd_def uint_0_iff)
  qed
qed

lemma uint_rnd_addend:
  assumes "sf_format TYPE('f::len)" and "rm \<le> RM_RMM"
  shows "uint (rnd_addend rm s :: 'f word) =
    (if rm = RM_RNE \<or> rm = RM_RMM then 2 ^ RND_SIZE TYPE('f) div 2
     else if rm = RM_RDN \<and> s \<or> rm = RM_RUP \<and> \<not> s then 2 ^ RND_SIZE TYPE('f) - 1 else 0)"
proof -
  note ff = format_facts [OF assms(1)]
  have "rm = RM_RNE \<or> rm = RM_RTZ \<or> rm = RM_RDN \<or> rm = RM_RUP \<or> rm = RM_RMM"
  proof -
    have "unat rm \<le> 4" using assms(2) by (simp add: rm_defs word_le_nat_alt)
    then have "unat rm = 0 \<or> unat rm = 1 \<or> unat rm = 2 \<or> unat rm = 3 \<or> unat rm = 4" by arith
    then show ?thesis by (auto simp: rm_defs word_unat_eq_iff)
  qed
  moreover have "uint (push_bit (RND_SIZE TYPE('f)) 1 - 1 :: 'f word) = 2 ^ RND_SIZE TYPE('f) - 1"
    using ff(1) by (intro uint_ones) simp
  moreover have "(2 :: int) ^ RND_SIZE TYPE('f) div 2 = 2 ^ (RND_SIZE TYPE('f) - 1)"
    using ff(2) by (simp add: power_diff)
  moreover have "uint (push_bit (RND_SIZE TYPE('f) - 1) 1 :: 'f word) = 2 ^ (RND_SIZE TYPE('f) - 1)"
    using ff(1) by (intro uint_push_1) simp
  ultimately show ?thesis by (auto simp: rnd_addend_def rm_defs)
qed

subsection \<open>Rounding and packing\<close>

lemma uint_clear_1: "uint ((w :: 'f::len word) AND NOT 1) = 2 * (uint w div 2)"
proof -
  have half_less: "n div 2 * 2 < b" if "n < b" for n b :: int
    using that by presburger
  have "w AND NOT 1 = push_bit 1 (drop_bit 1 w)"
    by (rule bit_eqI) (simp only: bit_simps, auto)
  moreover have "uint (drop_bit 1 w) * 2 ^ 1 < 2 ^ LENGTH('f)"
    using half_less [OF uint_lt2p [of w]] by (simp only: uint_drop power_one_right)
  ultimately show ?thesis using uint_push [of "drop_bit 1 w" 1] by (simp only: uint_drop) simp
qed

lemma uint_rnd_mant:
  fixes m :: "'f::len word"
  assumes "sf_format TYPE('f)" and "rm \<le> RM_RMM" and "uint m < 2 ^ (LENGTH('f) - 1)"
  shows "uint (rnd_mant rm (rnd_addend rm s) m) = round_int rm s (of_int (uint m) / 2 ^ RND_SIZE TYPE('f))"
proof -
  note ff = format_facts [OF assms(1)]
  let ?R = "RND_SIZE TYPE('f)" and ?a = "rnd_addend rm s :: 'f word"
  have "(2 :: int) ^ ?R \<le> 2 ^ (LENGTH('f) - 1)" using ff(1) by (intro power_increasing) auto
  moreover have "(2 :: int) ^ ?R div 2 < 2 ^ ?R" by (simp add: int_div_less_self)
  then have "uint ?a < 2 ^ ?R" using uint_rnd_addend [OF assms(1,2), of s] by auto
  moreover have "(2 :: int) ^ LENGTH('f) = 2 * 2 ^ (LENGTH('f) - 1)" using ff(1) by (simp flip: power_Suc)
  ultimately have sum: "uint (m + ?a) = uint m + uint ?a" using assms(3) by (intro uint_sum) linarith
  have even: "even ((2 :: int) ^ ?R)" using ff(2) by simp
  have bits: "rnd_bits_of m = push_bit (?R - 1) 1 \<longleftrightarrow> uint m mod 2 ^ ?R = 2 ^ ?R div 2"
  proof -
    have "(2 :: int) ^ ?R div 2 = 2 ^ (?R - 1)" using ff(2) by (simp add: power_diff)
    moreover have "uint (push_bit (?R - 1) 1 :: 'f word) = 2 ^ (?R - 1)" using ff(1) by (intro uint_push_1) simp
    ultimately show ?thesis by (simp only: rnd_bits_of_def uint_low word_uint_eq_iff)
  qed
  have "(2 :: real) ^ ?R = of_int (2 ^ ?R)" by simp
  then show ?thesis
    using round_int_div [of "2 ^ ?R" rm s "uint m"] even assms(2) uint_rnd_addend [OF assms(1,2), of s]
    by (simp only: rnd_mant_def Let_def bits uint_clear_1 uint_drop sum if_distrib [of uint]) simp
qed

lemma inexact_iff:
  "rnd_bits_of (m :: 'f::len word) \<noteq> 0 \<longleftrightarrow> of_int (round_int rm s (of_int (uint m) / 2 ^ RND_SIZE TYPE('f))) \<noteq> (of_int (uint m) / 2 ^ RND_SIZE TYPE('f) :: real)"
proof -
  let ?D = "2 ^ RND_SIZE TYPE('f) :: int" and ?z = "of_int (uint m) / 2 ^ RND_SIZE TYPE('f) :: real"
  have "rnd_bits_of m = 0 \<longleftrightarrow> uint m mod ?D = 0"
    using uint_low [of m "RND_SIZE TYPE('f)"] by (simp add: rnd_bits_of_def flip: uint_0_iff del: push_bit_of_1)
  also have "\<dots> \<longleftrightarrow> ?D dvd uint m" by auto
  also have "\<dots> \<longleftrightarrow> ?z \<in> \<int>"
  proof
    assume "?D dvd uint m"
    then obtain k where "uint m = ?D * k" by (auto elim: dvdE)
    then have "?z = of_int k" by simp
    then show "?z \<in> \<int>" by simp
  next
    assume "?z \<in> \<int>"
    then obtain k :: int where "?z = of_int k" by (auto elim: Ints_cases)
    then have "(of_int (uint m) :: real) = of_int (?D * k)" by (simp add: field_simps)
    then have "uint m = ?D * k" by (simp only: of_int_eq_iff)
    then show "?D dvd uint m" by simp
  qed
  also have "\<dots> \<longleftrightarrow> of_int (round_int rm s ?z) = ?z"
  proof
    assume "?z \<in> \<int>"
    then obtain k :: int where k: "?z = of_int k" by (auto elim: Ints_cases)
    have "\<lfloor>of_int k + 1 / 2 :: real\<rfloor> = k" by linarith
    then have "round_int rm s (of_int k) = k" by (simp add: round_int_def)
    then show "of_int (round_int rm s ?z) = ?z" unfolding k by simp
  qed (metis Ints_of_int)
  finally show ?thesis by blast
qed

lemma round_int_bounds:
  "of_int i \<le> z \<Longrightarrow> i \<le> round_int rm s z" "z \<le> of_int i \<Longrightarrow> round_int rm s z \<le> i"
proof -
  have b: "\<lfloor>z\<rfloor> \<le> round_int rm s z" "round_int rm s z \<le> \<lceil>z\<rceil>"
  proof -
    show "\<lfloor>z\<rfloor> \<le> round_int rm s z" unfolding round_int_def by (auto intro: floor_mono)
    have "\<lfloor>z\<rfloor> + 1 \<le> \<lceil>z\<rceil>" if "z \<noteq> of_int \<lfloor>z\<rfloor>" using that by linarith
    moreover have "\<lfloor>z + 1 / 2\<rfloor> \<le> \<lceil>z\<rceil>" by linarith
    ultimately show "round_int rm s z \<le> \<lceil>z\<rceil>" unfolding round_int_def by (auto simp: floor_le_ceiling)
  qed
  show "of_int i \<le> z \<Longrightarrow> i \<le> round_int rm s z" using b(1) le_floor_iff [of i z] by linarith
  show "z \<le> of_int i \<Longrightarrow> round_int rm s z \<le> i" using b(2) ceiling_le_iff [of z i] by linarith
qed

lemma floor_log2: "2 powi k \<le> x \<Longrightarrow> x < 2 powi (k + 1) \<Longrightarrow> \<lfloor>log 2 x\<rfloor> = k"
proof -
  assume a: "2 powi k \<le> x" "x < 2 powi (k + 1)"
  have "0 < (2 :: real) powi k" by simp
  then have x: "0 < x" using a(1) by linarith
  have p: "(2 :: real) powi i = 2 powr of_int i" for i by (simp add: powr_real_of_int')
  have "of_int k \<le> log 2 x" using a(1) x unfolding p by (simp add: le_log_iff)
  moreover have "log 2 x < of_int (k + 1)" using a(2) x unfolding p by (subst log_less_iff) auto
  ultimately show "\<lfloor>log 2 x\<rfloor> = k" by (intro floor_unique) auto
qed

lemma pack_sf_eq:
  fixes m :: "'f::len word"
  assumes "sf_format TYPE('f)"
  shows "pack_sf s e m = push_bit (LENGTH('f) - 1) (of_bool s) OR
    word_of_int (e * 2 ^ MANT_SIZE TYPE('f) + uint m mod 2 ^ MANT_SIZE TYPE('f))"
proof -
  let ?M = "MANT_SIZE TYPE('f)"
  have low: "m AND MANT_MASK = take_bit ?M m" by (simp add: MANT_MASK_mask take_bit_eq_mask)
  have "push_bit ?M (word_of_int e) AND take_bit ?M m = (0 :: 'f word)"
    by (rule bit_eqI) (auto simp: bit_simps)
  then have "push_bit ?M (word_of_int e) OR take_bit ?M m = push_bit ?M (word_of_int e) + take_bit ?M m"
    by (simp add: disjunctive_add_eq_or)
  moreover have "push_bit ?M (word_of_int e :: 'f word) = word_of_int (e * 2 ^ ?M)"
    by (simp add: push_bit_eq_mult)
  moreover have "take_bit ?M m = word_of_int (uint m mod 2 ^ ?M)"
    by (metis unsigned_take_bit_eq take_bit_eq_mod word_of_int_uint)
  ultimately have "push_bit ?M (word_of_int e) OR take_bit ?M m = word_of_int (e * 2 ^ ?M + uint m mod 2 ^ ?M)"
    by (simp only: of_int_add)
  then show ?thesis by (simp only: pack_sf_def low or.assoc)
qed

lemma shifted_mantissa:
  fixes m :: "'f::len word"
  assumes "sf_format TYPE('f)" and "uint m < 2 ^ (LENGTH('f) - 1)"
    and "agree (2 ^ (RND_SIZE TYPE('f) - 1)) (of_int (uint m)) y" and "0 \<le> d"
  shows "uint (rshift_rnd m d) < 2 ^ (LENGTH('f) - 1)"
    "agree (2 ^ (RND_SIZE TYPE('f) - 1)) (of_int (uint (rshift_rnd m d))) (y / 2 ^ nat d)"
proof -
  note ff = format_facts [OF assms(1)]
  let ?z = "of_int (uint m) / 2 ^ nat d :: real"
  have st: "agree (2 ^ 1) (of_int (uint (rshift_rnd m d))) ?z"
    using agree_sticky [of ?z] uint_rshift_rnd [OF assms(4), of m] by simp
  have "?z \<le> of_int (uint m)"
    using divide_left_mono [of 1 "2 ^ nat d :: real" "of_int (uint m)"] of_int_nonneg [OF uint_nonnegative [of m], where 'a = real]
    by simp
  also have "\<dots> < of_int (2 ^ (LENGTH('f) - 2)) * 2 ^ 1"
  proof -
    have "(2 :: int) ^ (LENGTH('f) - 2) * 2 = 2 ^ (LENGTH('f) - 1)"
      using ff(1) power_Suc [of "2 :: int" "LENGTH('f) - 2"] by (simp add: Suc_diff_Suc)
    then have "uint m < 2 ^ (LENGTH('f) - 2) * 2" using assms(2) by simp
    then have "(of_int (uint m) :: real) < of_int (2 ^ (LENGTH('f) - 2) * 2)" by (simp only: of_int_less_iff)
    then show ?thesis by simp
  qed
  finally have "(of_int (uint (rshift_rnd m d)) :: real) < of_int (2 ^ (LENGTH('f) - 2)) * 2 ^ 1"
    using agreeD(1) [OF st] by blast
  then have "(of_int (uint (rshift_rnd m d)) :: real) < of_int (2 ^ (LENGTH('f) - 2) * 2 ^ 1)" by simp
  then have "uint (rshift_rnd m d) < 2 ^ (LENGTH('f) - 2) * 2 ^ 1" by (simp only: of_int_less_iff)
  then show "uint (rshift_rnd m d) < 2 ^ (LENGTH('f) - 1)"
    using ff(1) by (simp flip: power_add power_Suc2 add: Suc_diff_Suc numeral_2_eq_2)
  let ?g = "2 ^ (RND_SIZE TYPE('f) - 1) :: real"
  have "agree (1 / 2 ^ nat d * ?g) (1 / 2 ^ nat d * of_int (uint m)) (1 / 2 ^ nat d * y)"
    using agree_scale [OF assms(3), of "1 / 2 ^ nat d"] by simp
  then have "agree (1 / 2 ^ nat d * ?g) ?z (y / 2 ^ nat d)" by simp
  from agree_coarse [OF this, of "2 ^ nat d"] have "agree ?g ?z (y / 2 ^ nat d)" by simp
  moreover have "agree ?g (of_int (uint (rshift_rnd m d))) ?z"
    using agree_powers [OF st, of "RND_SIZE TYPE('f) - 1"] ff(2) by simp
  ultimately show "agree ?g (of_int (uint (rshift_rnd m d))) (y / 2 ^ nat d)" using agree_trans by blast
qed

text \<open>The end of the packing, for a rounded mantissa.\<close>

lemma pack_rounded:
  fixes r :: "'f::len word"
  assumes "sf_format TYPE('f)" and "uint r \<le> 2 ^ (MANT_SIZE TYPE('f) + 1)" and "1 \<le> e" and "e = 1 \<or> 2 ^ MANT_SIZE TYPE('f) \<le> uint r"
    and "p \<longleftrightarrow> \<not> rounds_to_infinity rm s"
  defines "k \<equiv> (e - 1) * 2 ^ MANT_SIZE TYPE('f) + uint r"
    and "infinity \<equiv> EXP_MASK TYPE('f) * 2 ^ MANT_SIZE TYPE('f)"
    and "sgn_bit \<equiv> push_bit (LENGTH('f) - 1) (of_bool s) :: 'f word"
  shows "(let a_exp = e + uint (drop_bit (MANT_SIZE TYPE('f) + 1) r) in
      if r \<le> MANT_MASK then (pack_sf s 0 r, fl)
      else if a_exp \<ge> EXP_MASK TYPE('f) then
        ((if p then pack_sf s (EXP_MASK TYPE('f) - 1) MANT_MASK else pack_sf s (EXP_MASK TYPE('f)) 0),
         fl OR FFLAG_OVERFLOW OR FFLAG_INEXACT)
      else (pack_sf s a_exp r, fl)) =
    (if k < infinity then (sgn_bit OR word_of_int k, fl)
     else (sgn_bit OR word_of_int (if rounds_to_infinity rm s then infinity else infinity - 1), fl OR FFLAG_OVERFLOW OR FFLAG_INEXACT))"
proof -
  note ff = format_facts [OF assms(1)]
  define B where "B = (2 :: int) ^ MANT_SIZE TYPE('f)"
  have B: "0 < B" "(2 :: int) ^ (MANT_SIZE TYPE('f) + 1) = 2 * B" by (simp_all add: B_def)
  have mm: "uint (MANT_MASK :: 'f word) = B - 1"
    using ff(1) unfolding MANT_MASK_def B_def by (intro uint_ones) simp
  have le: "r \<le> MANT_MASK \<longleftrightarrow> uint r < B" by (simp add: word_le_def mm)
  have drop: "uint (drop_bit (MANT_SIZE TYPE('f) + 1) r) = (if uint r = 2 * B then 1 else 0)"
    using assms(2) B by (simp only: uint_drop B(2)) auto
  have inf: "infinity = EXP_MASK TYPE('f) * B" and k: "k = (e - 1) * B + uint r"
    by (simp_all add: infinity_def k_def B_def)
  have em: "127 \<le> EXP_MASK TYPE('f)" using ff(6,9) by linarith
  show ?thesis
  proof (cases "uint r < B")
    case True
    then have "k = uint r" using assms(4) by (simp add: k B_def)
    moreover have "1 * B \<le> EXP_MASK TYPE('f) * B" using em B(1) by (intro mult_right_mono) auto
    ultimately show ?thesis using True le pack_sf_eq [OF assms(1), of s 0 r]
      by (simp add: inf sgn_bit_def flip: B_def)
  next
    case False
    define a_exp where "a_exp = e + uint (drop_bit (MANT_SIZE TYPE('f) + 1) r)"
    have k': "k = a_exp * B + uint r mod B"
    proof (cases "uint r = 2 * B")
      case True
      then show ?thesis unfolding k a_exp_def drop by (simp add: algebra_simps)
    next
      case ne: False
      then have "uint r - B < B" "0 \<le> uint r - B" using False assms(2) B(2) by linarith+
      then have "uint r mod B = uint r - B"
        using mod_add_self2 [of "uint r - B" B] mod_pos_pos_trivial [of "uint r - B" B] by simp
      then show ?thesis using ne unfolding k a_exp_def drop by (simp add: algebra_simps)
    qed
    have rem: "0 \<le> uint r mod B" "uint r mod B < B" using B(1) by simp_all
    have cmp: "a_exp \<ge> EXP_MASK TYPE('f) \<longleftrightarrow> \<not> k < infinity"
    proof
      assume "a_exp \<ge> EXP_MASK TYPE('f)"
      then have "EXP_MASK TYPE('f) * B \<le> a_exp * B" using B(1) by (intro mult_right_mono) auto
      then show "\<not> k < infinity" using rem unfolding k' inf by linarith
    next
      assume "\<not> k < infinity"
      then have "EXP_MASK TYPE('f) * B < (a_exp + 1) * B" using rem unfolding k' inf by (simp add: algebra_simps)
      then show "a_exp \<ge> EXP_MASK TYPE('f)" using B(1) by (simp add: mult_less_cancel_right)
    qed
    have pk: "pack_sf s a r = sgn_bit OR word_of_int (a * B + uint r mod B)" for a
      by (simp add: pack_sf_eq [OF assms(1)] sgn_bit_def B_def)
    have pi: "pack_sf s (EXP_MASK TYPE('f)) (0 :: 'f word) = sgn_bit OR word_of_int infinity"
      by (simp add: pack_sf_eq [OF assms(1)] sgn_bit_def B_def inf)
    have pm: "pack_sf s (EXP_MASK TYPE('f) - 1) (MANT_MASK :: 'f word) = sgn_bit OR word_of_int (infinity - 1)"
    proof -
      have "(EXP_MASK TYPE('f) - 1) * B + (B - 1) mod B = infinity - 1"
        using B(1) mod_pos_pos_trivial [of "B - 1" B] by (simp add: inf left_diff_distrib)
      then show ?thesis using mm by (simp add: pack_sf_eq [OF assms(1)] sgn_bit_def flip: B_def)
    qed
    show ?thesis
      unfolding Let_def a_exp_def [symmetric] cmp using False le assms(5)
      by (auto simp: pk pi pm k')
  qed
qed

text \<open>The subnormal condition of the code is the one of the standard.\<close>

lemma subnormal_iff:
  fixes m :: "'f::len word"
  assumes "sf_format TYPE('f)"
  shows "m + rnd_addend rm s < push_bit (LENGTH('f) - 1) 1 \<longleftrightarrow>
    uint (rnd_mant rm (rnd_addend rm s) m) < 2 ^ (MANT_SIZE TYPE('f) + 1)"
proof -
  note ff = format_facts [OF assms(1)]
  let ?M = "MANT_SIZE TYPE('f)" and ?R = "RND_SIZE TYPE('f)" and ?v = "uint (m + rnd_addend rm s)"
  have split: "(2 :: int) ^ (LENGTH('f) - 1) = 2 ^ (?M + 1) * 2 ^ ?R"
    using ff(1) by (simp flip: power_add power_Suc)
  have "uint (push_bit (LENGTH('f) - 1) 1 :: 'f word) = 2 ^ (LENGTH('f) - 1)"
    by (intro uint_push_1) simp
  then have "m + rnd_addend rm s < push_bit (LENGTH('f) - 1) 1 \<longleftrightarrow> ?v < 2 ^ (?M + 1) * 2 ^ ?R"
    by (simp only: word_less_def split)
  also have "\<dots> \<longleftrightarrow> ?v div 2 ^ ?R < 2 ^ (?M + 1)"
    using div_less_int [of "2 ^ ?R" ?v "2 ^ (?M + 1)"] by simp
  also have "\<dots> \<longleftrightarrow> uint (rnd_mant rm (rnd_addend rm s) m) < 2 ^ (?M + 1)"
  proof -
    have "2 * (v div 2) < 2 ^ (?M + 1) \<longleftrightarrow> v < 2 ^ (?M + 1)" for v :: int
      unfolding power_add power_one_right by presburger
    then show ?thesis
      by (cases "rm = RM_RNE \<and> rnd_bits_of m = push_bit (?R - 1) 1")
        (simp_all only: rnd_mant_def Let_def uint_clear_1 uint_drop if_True if_False simp_thms)
  qed
  finally show ?thesis .
qed

lemma pow2_int: "of_int (2 ^ n) = (2 :: real) ^ n"
  by simp

lemma round_pack_shape:
  assumes "m' = rshift_rnd m (max e 1 - e)" and "a = rnd_addend rm s" and "r = rnd_mant rm a (m' :: 'f::len word)"
  shows "round_pack_sf s e m rm fl =
    (let fl = (if (e < 0 \<or> e = 0 \<and> m + a < push_bit (LENGTH('f) - 1) 1) \<and> rnd_bits_of m' \<noteq> 0 then fl OR FFLAG_UNDERFLOW else fl);
         fl = (if rnd_bits_of m' \<noteq> 0 then fl OR FFLAG_INEXACT else fl)
     in let a_exp = max e 1 + uint (drop_bit (MANT_SIZE TYPE('f) + 1) r) in
      if r \<le> MANT_MASK then (pack_sf s 0 r, fl)
      else if a_exp \<ge> EXP_MASK TYPE('f) then
        ((if a = 0 then pack_sf s (EXP_MASK TYPE('f) - 1) MANT_MASK else pack_sf s (EXP_MASK TYPE('f)) 0),
         fl OR FFLAG_OVERFLOW OR FFLAG_INEXACT)
      else (pack_sf s a_exp r, fl))"
proof (cases "e \<le> 0")
  case True
  then have "max e 1 = 1" by simp
  then show ?thesis using True unfolding assms round_pack_sf_def Let_def
    by (simp only: if_True prod.case) (auto simp del: push_bit_of_1)
next
  case False
  then have "max e 1 - e = 0" "max e 1 = e" "\<not> e < 0" "e \<noteq> 0" by simp_all
  moreover have "rshift_rnd m 0 = m" by (simp add: rshift_rnd_def)
  ultimately show ?thesis using False unfolding assms round_pack_sf_def Let_def
    by (simp only: if_False prod.case simp_thms)
qed

text \<open>
  A normalised mantissa that agrees with the exact value \<open>y\<close>, at half the weight of the last bit
  that is kept, is rounded and packed as the standard says.
\<close>

theorem round_pack_sf_correct:
  fixes m :: "'f::len word"
  assumes fmt: "sf_format TYPE('f)" and rm: "rm \<le> RM_RMM"
    and m: "2 ^ IMANT_SIZE TYPE('f) \<le> uint m" "uint m < 2 ^ (LENGTH('f) - 1)"
    and agree: "agree (2 ^ (RND_SIZE TYPE('f) - 1)) (of_int (uint m)) y"
  shows "round_pack_sf s e m rm fl =
    round_sf rm s (y * 2 powi (e - bias TYPE('f) - int (IMANT_SIZE TYPE('f)))) fl"
proof -
  note ff = format_facts [OF fmt]
  define M R b where "M = MANT_SIZE TYPE('f)" and "R = RND_SIZE TYPE('f)" and "b = bias TYPE('f)"
  have L: "LENGTH('f) = M + R + 2" "LENGTH('f) - 1 = M + R + 1" and R: "7 \<le> R" and IM: "IMANT_SIZE TYPE('f) = M + R"
    using ff by (simp_all add: M_def R_def)
  define e1 where "e1 = max e 1"
  define d where "d = nat (e1 - e)"
  define m' where "m' = rshift_rnd m (e1 - e)"
  define a :: "'f word" where "a = rnd_addend rm s"
  define r where "r = rnd_mant rm a m'"
  define x where "x = y * 2 powi (e - b - int (M + R))"
  have e1: "1 \<le> e1" "e \<le> e1" "int d = e1 - e" by (simp_all add: e1_def d_def)
  have y: "2 ^ (M + R) \<le> y" "y < 2 ^ (M + R + 1)"
  proof -
    have g: "of_int (2 ^ (M + 1)) * 2 ^ (R - 1) = (2 :: real) ^ (M + R)" "of_int (2 ^ (M + 2)) * 2 ^ (R - 1) = (2 :: real) ^ (M + R + 1)"
    proof -
      have "M + 1 + (R - 1) = M + R" "M + 2 + (R - 1) = M + R + 1" using R by simp_all
      then show "of_int (2 ^ (M + 1)) * 2 ^ (R - 1) = (2 :: real) ^ (M + R)" "of_int (2 ^ (M + 2)) * 2 ^ (R - 1) = (2 :: real) ^ (M + R + 1)"
        unfolding pow2_int power_add [symmetric] by simp_all
    qed
    have "of_int (2 ^ (M + R)) \<le> (of_int (uint m) :: real)" "(of_int (uint m) :: real) < of_int (2 ^ (M + R + 1))"
      using m unfolding IM L(2) by (simp_all only: of_int_le_iff of_int_less_iff)
    then show "2 ^ (M + R) \<le> y" "y < 2 ^ (M + R + 1)"
      using agreeD(4) [OF agree, of "2 ^ (M + 1)"] agreeD(1) [OF agree, of "2 ^ (M + 2)"] g by (simp_all only: R_def [symmetric] pow2_int)
  qed
  have p: "(2 :: real) powi i * 2 powi j = 2 powi (i + j)" "(2 :: real) powi i / 2 powi j = 2 powi (i - j)" for i j
    by (simp_all add: power_int_add power_int_diff)
  have pn: "(2 :: real) ^ n = 2 powi (int n)" for n by simp
  have pos: "0 < (2 :: real) powi i" for i by simp
  have y0: "0 < y" using y(1) zero_less_power [of "2 :: real" "M + R"] by linarith
  then have x0: "0 < x" "x \<noteq> 0" by (simp_all add: x_def)
  have lg: "\<lfloor>log 2 x\<rfloor> = e - b"
  proof (rule floor_log2)
    have "2 powi (e - b) = 2 ^ (M + R) * (2 :: real) powi (e - b - int (M + R))" by (simp only: pn p) simp
    also have "\<dots> \<le> x" unfolding x_def using y(1) by (intro mult_right_mono) auto
    finally show "2 powi (e - b) \<le> x" .
    have "x < 2 ^ (M + R + 1) * (2 :: real) powi (e - b - int (M + R))"
      unfolding x_def using y(2) by (intro mult_strict_right_mono) auto
    also have "\<dots> = 2 powi (e - b + 1)" by (simp only: pn p) (simp add: add.commute)
    finally show "x < 2 powi (e - b + 1)" .
  qed
  have mx: "max (e - b) (1 - b) = e1 - b" by (simp add: e1_def)
  have q: "x / 2 powi (e1 - b - int M) = y / 2 ^ d / 2 ^ R" "x / 2 powi (e - b - int M) = y / 2 ^ R"
  proof -
    have i: "y / 2 ^ i / 2 ^ R = y * 2 powi (- int (i + R))" for i
      by (simp only: power_int_minus power_int_of_nat power_add) (simp add: divide_inverse)
    have e: "e - b - int (M + R) - (e1 - b - int M) = - int (d + R)" "e - b - int (M + R) - (e - b - int M) = - int (0 + R)"
      using e1(3) by simp_all
    show "x / 2 powi (e1 - b - int M) = y / 2 ^ d / 2 ^ R" "x / 2 powi (e - b - int M) = y / 2 ^ R"
      unfolding x_def times_divide_eq_right [symmetric] p e using i [of d] i [of 0] by simp_all
  qed
  have m': "uint m' < 2 ^ (LENGTH('f) - 1)" "agree (2 ^ (R - 1)) (of_int (uint m')) (y / 2 ^ d)"
    using shifted_mantissa [OF fmt m(2) agree, of "e1 - e"] e1(2) by (simp_all add: m'_def d_def R_def)
  have half: "agree (1 / 2) (u / 2 ^ R) (v / 2 ^ R)" if "agree (2 ^ (R - 1)) u v" for u v :: real
  proof -
    have "(1 / 2 ^ R) * (2 :: real) ^ (R - 1) = 1 / 2" using R by (simp add: power_diff)
    then show ?thesis using agree_scale [OF that, of "1 / 2 ^ R"] by simp
  qed
  have rn: "uint r = round_int rm s (x / 2 powi (e1 - b - int M))"
    unfolding q r_def a_def uint_rnd_mant [OF fmt rm m'(1)] R_def [symmetric]
    using agree_round [OF half [OF m'(2)]] by simp
  have ix: "rnd_bits_of m' \<noteq> 0 \<longleftrightarrow> of_int (uint r) * 2 powi (e1 - b - int M) \<noteq> x"
  proof -
    have "rnd_bits_of m' \<noteq> 0 \<longleftrightarrow> of_int (uint r) \<noteq> (of_int (uint m') / 2 ^ R :: real)"
      using inexact_iff [of m' rm s] uint_rnd_mant [OF fmt rm m'(1), of s] by (simp add: R_def r_def a_def)
    also have "\<dots> \<longleftrightarrow> of_int (uint r) \<noteq> x / 2 powi (e1 - b - int M)"
      unfolding q using agree_half_floor(6) [OF half [OF m'(2)], of "uint r"] by simp
    finally show ?thesis using pos [of "e1 - b - int M"] by (simp add: field_simps)
  qed
  define n0 where "n0 = round_int rm s (x / 2 powi (e - b - int M))"
  have yR: "of_int (2 ^ M) \<le> y / 2 ^ R" "y / 2 ^ R \<le> of_int (2 ^ (M + 1))"
    using y by (simp_all add: field_simps power_add)
  have n0: "2 ^ M \<le> n0" "n0 \<le> 2 ^ (M + 1)"
    using round_int_bounds(1) [OF yR(1)] round_int_bounds(2) [OF yR(2)] by (simp_all only: n0_def q)
  have n0m: "n0 = uint (rnd_mant rm a m)"
    unfolding n0_def q a_def uint_rnd_mant [OF fmt rm m(2)] R_def [symmetric]
    using agree_round [OF half [OF agree [folded R_def]]] by simp
  have tiny: "of_int n0 * 2 powi (e - b - int M) < (2 :: real) powi (1 - b) \<longleftrightarrow> e < 0 \<or> e = 0 \<and> m + a < push_bit (LENGTH('f) - 1) 1"
  proof -
    have "of_int n0 * 2 powi (e - b - int M) < (2 :: real) powi (1 - b) \<longleftrightarrow> of_int n0 < (2 :: real) powi (int M + 1 - e)"
    proof -
      have "(2 :: real) powi (1 - b) = 2 powi (int M + 1 - e) * 2 powi (e - b - int M)" unfolding p by simp
      then show ?thesis using pos [of "e - b - int M"] by simp
    qed
    moreover have "of_int n0 < (2 :: real) powi (int M + 1 - e) \<longleftrightarrow> e < 0 \<or> e = 0 \<and> n0 < 2 ^ (M + 1)"
    proof (cases "0 < e")
      case True
      then have "(2 :: real) powi (int M + 1 - e) \<le> 2 powi (int M)" by (intro power_int_increasing) auto
      also have "\<dots> = of_int (2 ^ M)" by simp
      also have "\<dots> \<le> of_int n0" using n0(1) by (simp only: of_int_le_iff)
      finally show ?thesis using True by auto
    next
      case False
      show ?thesis
      proof (cases "e = 0")
        case True
        have "(2 :: real) powi (int M + 1 - e) = of_int (2 ^ (M + 1))" using pn [of "M + 1"] True by (simp only: pow2_int) (simp add: add.commute)
        then show ?thesis using True by (simp only: of_int_less_iff) simp
      next
        case ne: False
        have "of_int n0 \<le> (of_int (2 ^ (M + 1)) :: real)" using n0(2) by (simp only: of_int_le_iff)
        also have "\<dots> = 2 powi (int M + 1)" using pn [of "M + 1"] by (simp only: pow2_int) (simp add: add.commute)
        also have "\<dots> < 2 powi (int M + 1 - e)" using ne False by (intro power_int_strict_increasing) auto
        finally show ?thesis using ne False by auto
      qed
    qed
    ultimately show ?thesis
      using subnormal_iff [OF fmt, of m rm s] by (simp add: n0m a_def M_def)
  qed
  have rb: "uint r \<le> 2 ^ (M + 1)" "e1 = 1 \<or> 2 ^ M \<le> uint r"
  proof -
    have "y / 2 ^ d \<le> y" using y0 divide_left_mono [of 1 "2 ^ d" y] by simp
    then have "y / 2 ^ d / 2 ^ R \<le> of_int (2 ^ (M + 1))"
      using yR(2) divide_right_mono [of "y / 2 ^ d" y "2 ^ R"] by simp
    then show "uint r \<le> 2 ^ (M + 1)" unfolding rn q by (rule round_int_bounds(2))
    show "e1 = 1 \<or> 2 ^ M \<le> uint r"
    proof (cases "e1 = 1")
      case False
      then have "e1 = e" by (auto simp: e1_def)
      then have "d = 0" by (simp add: d_def)
      then show ?thesis using round_int_bounds(1) [OF yR(1)] unfolding rn q by simp
    qed simp
  qed
  have p0: "a = 0 \<longleftrightarrow> \<not> rounds_to_infinity rm s"
  proof -
    have "a = 0 \<longleftrightarrow> uint a = 0" by (simp add: uint_0_iff)
    moreover have "2 ^ R div 2 \<noteq> (0 :: int)" "2 ^ R - 1 \<noteq> (0 :: int)"
      using R power_increasing [of 1 R "2 :: int"] by (simp_all add: power_diff)
    ultimately show ?thesis using uint_rnd_addend [OF fmt rm, of s]
      by (auto simp: a_def rounds_to_infinity_def R_def split: if_splits)
  qed
  note shape = round_pack_shape [OF m'_def [unfolded e1_def] a_def r_def, folded e1_def]
  show ?thesis
    unfolding IM b_def [symmetric] x_def [symmetric] shape round_sf_def
    unfolding Let_def M_def [symmetric] b_def [symmetric] lg mx rn [symmetric] ix n0_def [symmetric]
    using x0(2) pack_rounded [OF fmt rb(1) [unfolded M_def] e1(1) rb(2) [unfolded M_def] p0, folded M_def]
    by (simp only: tiny if_False Let_def simp_thms diff_add_cancel)
qed

end
