(* ===== verification/FloatArith.thy ===== *)
theory FloatArith
  imports FloatSpec SoftFpOps
begin

unbundle bit_operations_syntax

section \<open>The floating-point operations round correctly\<close>

text \<open>
  Every operation computes a mantissa that agrees with the exact result up to a sticky bit and
  leaves the rest to the normalisation and the packing.
\<close>

subsection \<open>Normalisation\<close>

lemma bit_length_bounds: "0 < n \<Longrightarrow> 2 ^ (bit_length n - 1) \<le> n \<and> n < 2 ^ bit_length n \<and> 0 < bit_length n"
proof (induction n rule: bit_length.induct)
  case (1 n)
  show ?case
  proof (cases "n div 2 = 0")
    case True
    then have "n = 1" using 1 by simp
    then show ?thesis by (simp add: bit_length.simps [of "Suc 0"] bit_length.simps [of 0])
  next
    case False
    then have ih: "2 ^ (bit_length (n div 2) - 1) \<le> n div 2" "n div 2 < 2 ^ bit_length (n div 2)" "0 < bit_length (n div 2)"
      using 1 by auto
    then have "2 ^ bit_length (n div 2) = 2 * (2 ^ (bit_length (n div 2) - 1) :: nat)" by (simp flip: power_Suc)
    then show ?thesis using ih 1(2) by (simp add: bit_length.simps [of n]) linarith
  qed
qed

lemma bit_length_eqI: "2 ^ k \<le> n \<Longrightarrow> n < 2 ^ Suc k \<Longrightarrow> bit_length n = Suc k"
proof -
  assume a: "2 ^ k \<le> n" "n < 2 ^ Suc k"
  then have "0 < n" using zero_less_power [of "2 :: nat" k] by linarith
  note b = bit_length_bounds [OF this]
  have "(2 :: nat) ^ (bit_length n - 1) < 2 ^ Suc k" "(2 :: nat) ^ k < 2 ^ bit_length n" using a b by linarith+
  then have "bit_length n - 1 < Suc k" "k < bit_length n" by (simp_all only: power_strict_increasing_iff one_less_numeral_iff semiring_norm)
  then show ?thesis using b by linarith
qed

lemma norm_shift_eq:
  assumes "sf_format TYPE('f::len)"
  shows "norm_shift TYPE('f) l = l - 1"
  using format_facts(1,8) [OF assms] by (simp add: norm_shift_def)

lemma normalize_sf_correct:
  fixes m :: "'f::len word"
  assumes fmt: "sf_format TYPE('f)" and rm: "rm \<le> RM_RMM" and m: "0 < uint m" "uint m < 2 ^ (LENGTH('f) - 1)"
    and y: "of_int (uint m) = y \<or> agree 2 (of_int (uint m)) y \<and> 2 ^ (MANT_SIZE TYPE('f) + 2) \<le> uint m"
  shows "normalize_sf s e m rm fl = round_sf rm s (y * 2 powi (e - bias TYPE('f) - int (IMANT_SIZE TYPE('f)))) fl"
proof -
  note ff = format_facts [OF fmt]
  let ?F = "LENGTH('f)" and ?R = "RND_SIZE TYPE('f)"
  define l where "l = bit_length (unat m)"
  have "0 < unat m" using m(1) by (simp add: unat_gt_0 flip: uint_0_iff)
  then have nb: "2 ^ (l - 1) \<le> unat m" "unat m < 2 ^ l" "0 < l" using bit_length_bounds by (auto simp: l_def)
  have ub: "2 ^ (l - 1) \<le> uint m" "uint m < 2 ^ l"
    using nb(1,2) by (metis of_nat_le_iff of_nat_numeral of_nat_power uint_nat) (metis nb(2) of_nat_less_iff of_nat_numeral of_nat_power uint_nat)
  have "(2 :: int) ^ (l - 1) < 2 ^ (?F - 1)" using ub(1) m(2) by linarith
  then have lF: "l \<le> ?F - 1" using nb(3) by (simp only: power_strict_increasing_iff one_less_numeral_iff semiring_norm)
  define k where "k = norm_shift TYPE('f) (clz m)"
  have k: "k = ?F - 1 - l" by (simp add: k_def norm_shift_eq [OF fmt] clz_def l_def)
  have kl: "l - 1 + k = ?F - 2" "l + k = ?F - 1" using k lF nb(3) by simp_all
  have hi: "uint m * 2 ^ k < 2 ^ (?F - 1)" "2 ^ (?F - 2) \<le> uint m * 2 ^ k"
    using mult_strict_right_mono [OF ub(2), of "2 ^ k"] mult_right_mono [OF ub(1), of "2 ^ k"]
    unfolding power_add [symmetric] kl by simp_all
  have "(2 :: int) ^ (?F - 1) < 2 ^ ?F" using ff(1) by (intro power_strict_increasing) auto
  then have u: "uint (push_bit k m) = uint m * 2 ^ k" using hi(1) by (intro uint_push) linarith
  have "agree (2 ^ (?R - 1)) (of_int (uint (push_bit k m))) (y * 2 ^ k)"
    using y
  proof
    assume "of_int (uint m) = y"
    then show ?thesis by (simp add: u)
  next
    assume a: "agree 2 (of_int (uint m)) y \<and> 2 ^ (MANT_SIZE TYPE('f) + 2) \<le> uint m"
    then have "(2 :: int) ^ (MANT_SIZE TYPE('f) + 2) < 2 ^ l" using ub(2) by linarith
    then have "MANT_SIZE TYPE('f) + 2 < l" by (simp only: power_strict_increasing_iff one_less_numeral_iff semiring_norm)
    then have kR: "k + 1 \<le> ?R - 1" using k ff(1,2) by simp
    have "agree (2 ^ k * 2) (2 ^ k * of_int (uint m)) (2 ^ k * y)" using a by (intro agree_scale) auto
    then have "agree (2 ^ (k + 1)) (of_int (uint (push_bit k m))) (y * 2 ^ k)" by (simp add: u mult.commute)
    then show ?thesis using kR by (rule agree_powers)
  qed
  moreover have "IMANT_SIZE TYPE('f) = ?F - 2" by (simp add: IMANT_SIZE_def)
  ultimately have "round_pack_sf s (e - int k) (push_bit k m) rm fl =
      round_sf rm s (y * 2 ^ k * 2 powi (e - int k - bias TYPE('f) - int (IMANT_SIZE TYPE('f)))) fl"
    using hi by (intro round_pack_sf_correct [OF fmt rm]) (simp_all only: u)
  moreover have "y * 2 ^ k * 2 powi (e - int k - bias TYPE('f) - int (IMANT_SIZE TYPE('f))) =
      y * 2 powi (e - bias TYPE('f) - int (IMANT_SIZE TYPE('f)))"
    by (simp add: mult.assoc algebra_simps flip: power_int_of_nat power_int_add)
  ultimately show ?thesis by (simp add: normalize_sf_def Let_def flip: k_def)
qed

lemma rnd_mant_zero: "sf_format TYPE('f::len) \<Longrightarrow> rm \<le> RM_RMM \<Longrightarrow> rnd_mant rm (rnd_addend rm s) (0 :: 'f word) = 0"
  using uint_rnd_mant [of rm "0 :: 'f word" s] by (simp add: round_int_def flip: uint_0_iff)

lemma normalize_sf_zero:
  assumes "sf_format TYPE('f::len)" and "rm \<le> RM_RMM"
  shows "normalize_sf s e (0 :: 'f word) rm fl = (pack_sf s 0 0, fl)"
proof -
  have "rshift_rnd (0 :: 'f word) d = 0" for d by (simp add: rshift_rnd_def)
  moreover have "rnd_bits_of (0 :: 'f word) = 0" by (simp add: rnd_bits_of_def)
  ultimately show ?thesis
    using rnd_mant_zero [OF assms, of s]
    by (simp add: normalize_sf_def Let_def round_pack_shape [OF refl refl refl])
qed

subsection \<open>Operands\<close>

text \<open>The mantissa and the exponent of a finite number other than zero, normalised.\<close>

lemma unpack_bounds:
  fixes a :: "'f::len word"
  assumes "sf_format TYPE('f)" and "unpack_sf a = (s, e, m)"
  shows "uint m < 2 ^ MANT_SIZE TYPE('f)" "0 \<le> e" "e \<le> EXP_MASK TYPE('f)" "s = sf_sign a"
proof -
  note ff = format_facts [OF assms(1)]
  have m: "m = a AND MANT_MASK" and e: "e = uint (drop_bit (MANT_SIZE TYPE('f)) a AND word_of_int (EXP_MASK TYPE('f)))"
    using assms(2) by (auto simp: unpack_sf_def)
  show "uint m < 2 ^ MANT_SIZE TYPE('f)" by (simp add: m uint_MANT_MASK_and)
  have "word_of_int (EXP_MASK TYPE('f)) = (push_bit (EXP_SIZE TYPE('f)) 1 - 1 :: 'f word)"
    by (simp add: EXP_MASK_def push_bit_eq_mult)
  then have "e = uint (drop_bit (MANT_SIZE TYPE('f)) a) mod 2 ^ EXP_SIZE TYPE('f)"
    by (simp only: e uint_low)
  then show "0 \<le> e" "e \<le> EXP_MASK TYPE('f)"
    by (simp_all add: EXP_MASK_def)
  show "s = sf_sign a" using assms(2) by (simp add: unpack_sf_def sf_sign_def)
qed

lemma uint_or_disjoint:
  assumes "uint (a :: 'f::len word) < 2 ^ n" and "n < LENGTH('f)"
  shows "uint (a OR push_bit n 1) = uint a + 2 ^ n"
proof -
  have a: "a = take_bit n a"
    using assms(1) by (metis unsigned_take_bit_eq take_bit_int_eq_self uint_nonnegative word_uint_eqI)
  have "a AND push_bit n 1 = 0"
    by (subst a, rule bit_eqI) (auto simp: bit_simps simp del: push_bit_of_1)
  then have "a OR push_bit n 1 = a + push_bit n 1" by (simp add: disjunctive_add_eq_or del: push_bit_of_1)
  moreover have p: "uint (push_bit n 1 :: 'f word) = 2 ^ n" using assms(2) by (rule uint_push_1)
  moreover have "uint a + 2 ^ n < 2 ^ LENGTH('f)"
  proof -
    have "(2 :: int) * 2 ^ n \<le> 2 ^ LENGTH('f)" using assms(2) power_increasing [of "Suc n" "LENGTH('f)" "2 :: int"] by simp
    then show ?thesis using assms(1) by linarith
  qed
  ultimately show ?thesis using uint_sum [of a "push_bit n 1"] by (simp only: p)
qed

lemma with_leading_bit_spec:
  fixes a :: "'f::len word"
  assumes fmt: "sf_format TYPE('f)" and "unpack_sf a = (s, e, m)" and "\<not> (e = 0 \<and> m = 0)"
  obtains e' m' where "with_leading_bit e m = (e', m')"
    "2 ^ MANT_SIZE TYPE('f) \<le> uint m'" "uint m' < 2 ^ (MANT_SIZE TYPE('f) + 1)"
    "sf_mag a = of_int (uint m') * 2 powi (e' - bias TYPE('f) - int (MANT_SIZE TYPE('f)))"
proof -
  note ff = format_facts [OF fmt] and ub = unpack_bounds [OF fmt assms(2)]
  let ?M = "MANT_SIZE TYPE('f)"
  show thesis
  proof (cases "e = 0")
    case False
    have "uint (m OR push_bit ?M 1) = uint m + 2 ^ ?M" using ub(1) ff(1) by (intro uint_or_disjoint) auto
    then show thesis using that [of e "m OR push_bit ?M 1"] False ub(1) assms(2) uint_nonnegative [of m]
      by (simp add: with_leading_bit_def sf_mag_def add.commute del: push_bit_of_1)
  next
    case True
    then have "m \<noteq> 0" using assms(3) by simp
    define l where "l = bit_length (unat m)"
    have "0 < unat m" using \<open>m \<noteq> 0\<close> by (simp add: unat_gt_0)
    then have nb: "2 ^ (l - 1) \<le> unat m" "unat m < 2 ^ l" "0 < l" using bit_length_bounds by (auto simp: l_def)
    then have lb: "2 ^ (l - 1) \<le> uint m" "uint m < 2 ^ l"
      by (metis of_nat_le_iff of_nat_numeral of_nat_power uint_nat) (metis nb(2) of_nat_less_iff of_nat_numeral of_nat_power uint_nat)
    have "(2 :: int) ^ (l - 1) < 2 ^ ?M" using lb(1) ub(1) by linarith
    then have lM: "l \<le> ?M" using nb(3) by (simp only: power_strict_increasing_iff one_less_numeral_iff semiring_norm)
    define k where "k = ?M - (LENGTH('f) - 1 - clz m)"
    have k: "k = ?M + 1 - l" "l - 1 + k = ?M" "l + k = ?M + 1"
      using lM nb(3) ff(1) by (simp_all add: k_def clz_def flip: l_def)
    have hi: "uint m * 2 ^ k < 2 ^ (?M + 1)" "2 ^ ?M \<le> uint m * 2 ^ k"
      using mult_strict_right_mono [OF lb(2), of "2 ^ k"] mult_right_mono [OF lb(1), of "2 ^ k"]
      unfolding power_add [symmetric] k(2,3) by simp_all
    have "(2 :: int) ^ (?M + 1) < 2 ^ LENGTH('f)" using ff(1) by (intro power_strict_increasing) auto
    then have u: "uint (push_bit k m) = uint m * 2 ^ k" using hi(1) by (intro uint_push) linarith
    have "(2 :: real) powi (1 - bias TYPE('f) - int ?M) = 2 ^ k * 2 powi (1 - int k - bias TYPE('f) - int ?M)"
      by (simp add: algebra_simps flip: power_int_of_nat power_int_add)
    then have "sf_mag a = of_int (uint m * 2 ^ k) * 2 powi (1 - int k - bias TYPE('f) - int ?M)"
      using True assms(2) by (simp add: sf_mag_def)
    moreover have "with_leading_bit e m = (1 - int k, push_bit k m)"
      by (simp only: True with_leading_bit_def normalize_subnormal_sf_def Let_def k_def simp_thms if_True)
    ultimately show thesis using that [of "1 - int k" "push_bit k m"] hi u by simp
  qed
qed

subsection \<open>Multiplication\<close>

text \<open>The four products of half words are the product, on integers.\<close>

lemma half_products:
  fixes a0 a1 b0 b1 H :: int
  assumes "0 < H" "0 \<le> a0" "a0 < H" "0 \<le> a1" "a1 < H" "0 \<le> b0" "b0 < H" "0 \<le> b1" "b1 < H"
  defines "c1 \<equiv> a0 * b0 div H + a0 * b1 mod H + a1 * b0 mod H"
  defines "c2 \<equiv> c1 div H + a0 * b1 div H + a1 * b0 div H + a1 * b1 mod H"
  defines "c3 \<equiv> c2 div H + a1 * b1 div H"
  shows "(c3 * H + c2 mod H) * (H * H) + (c1 mod H * H + a0 * b0 mod H) = (a1 * H + a0) * (b1 * H + b0)"
    "0 \<le> c1" "c1 < 3 * H" "0 \<le> c2" "c2 < 4 * H" "0 \<le> c3" "c3 < H"
proof -
  have p: "0 \<le> x * y \<and> x * y < H * H \<and> 0 \<le> x * y div H \<and> x * y div H < H \<and> 0 \<le> x * y mod H \<and> x * y mod H < H"
    if "0 \<le> x" "x < H" "0 \<le> y" "y < H" for x y
  proof -
    have "x * y < H * H" using that assms(1) by (intro mult_strict_mono) auto
    then show ?thesis using that assms(1) div_less_int [of H "x * y" H] by (auto intro: pos_imp_zdiv_nonneg_iff [THEN iffD2])
  qed
  note p00 = p [OF assms(2,3,6,7)] and p01 = p [OF assms(2,3,8,9)] and p10 = p [OF assms(4,5,6,7)] and p11 = p [OF assms(4,5,8,9)]
  show c1: "0 \<le> c1" "c1 < 3 * H" using p00 p01 p10 unfolding c1_def by linarith+
  have "0 \<le> c1 div H" "c1 div H < 3" using c1 assms(1) div_less_int [of H c1 3] by (auto simp: pos_imp_zdiv_nonneg_iff)
  moreover have "a0 * b1 div H \<le> H - 1" "a1 * b0 div H \<le> H - 1" "a1 * b1 mod H \<le> H - 1" using p01 p10 p11 by auto
  ultimately show c2: "0 \<le> c2" "c2 < 4 * H" using p01 p10 p11 assms(1) unfolding c2_def by linarith+
  show c3: "0 \<le> c3" using c2(1) p11 assms(1) by (simp add: c3_def pos_imp_zdiv_nonneg_iff)
  have d: "x = x div H * H + x mod H" for x by simp
  show eq: "(c3 * H + c2 mod H) * (H * H) + (c1 mod H * H + a0 * b0 mod H) = (a1 * H + a0) * (b1 * H + b0)"
  proof -
    define q00 r00 where "q00 = a0 * b0 div H" and "r00 = a0 * b0 mod H"
    define q01 r01 where "q01 = a0 * b1 div H" and "r01 = a0 * b1 mod H"
    define q10 r10 where "q10 = a1 * b0 div H" and "r10 = a1 * b0 mod H"
    define q11 r11 where "q11 = a1 * b1 div H" and "r11 = a1 * b1 mod H"
    define u1 v1 where "u1 = c1 div H" and "v1 = c1 mod H"
    define u2 v2 where "u2 = c2 div H" and "v2 = c2 mod H"
    have e: "a0 * b0 = q00 * H + r00" "a0 * b1 = q01 * H + r01" "a1 * b0 = q10 * H + r10" "a1 * b1 = q11 * H + r11"
      unfolding q00_def r00_def q01_def r01_def q10_def r10_def q11_def r11_def by simp_all
    have "q00 + r01 + r10 = u1 * H + v1" "u1 + q01 + q10 + r11 = u2 * H + v2"
      using d [of c1] d [of c2] unfolding u1_def v1_def u2_def v2_def c2_def c1_def q00_def r01_def r10_def q01_def q10_def r11_def by simp_all
    then have f: "v1 = q00 + r01 + r10 - u1 * H" "v2 = u1 + q01 + q10 + r11 - u2 * H" by linarith+
    have "(a1 * H + a0) * (b1 * H + b0) = a1 * b1 * (H * H) + (a0 * b1 + a1 * b0) * H + a0 * b0"
      by (simp add: algebra_simps)
    then show ?thesis
      unfolding c3_def u2_def [symmetric] v2_def [symmetric] v1_def [symmetric] q11_def [symmetric] r00_def [symmetric]
      unfolding e f by (simp add: algebra_simps)
  qed
  show "c3 < H"
  proof (rule ccontr)
    assume "\<not> c3 < H"
    then have "H * H \<le> c3 * H" using assms(1) by (intro mult_right_mono) auto
    then have "H * H * (H * H) \<le> c3 * H * (H * H)" using assms(1) by (intro mult_right_mono) auto
    also have "\<dots> \<le> (a1 * H + a0) * (b1 * H + b0)"
      unfolding eq [symmetric] using assms(1) by (simp add: algebra_simps)
    also have "\<dots> < (H * H) * (H * H)"
    proof (rule mult_strict_mono)
      have h: "x * H + y < H * H" if "x < H" "y < H" for x y
      proof -
        have "(x + 1) * H \<le> H * H" using that assms(1) by (intro mult_right_mono) auto
        then show ?thesis using that by (simp add: algebra_simps)
      qed
      show "a1 * H + a0 < H * H" "b1 * H + b0 < H * H" using h assms by auto
    qed (use assms in auto)
    finally show False by simp
  qed
qed

lemma uint_take: "uint (take_bit n (w :: 'f::len word)) = uint w mod 2 ^ n"
  by (simp only: unsigned_take_bit_eq) (simp only: take_bit_eq_mod)

lemma uint_product:
  assumes "uint (a :: 'f::len word) * uint b < 2 ^ LENGTH('f)"
  shows "uint (a * b) = uint a * uint b"
  using assms by (simp add: uint_word_ariths)

lemma uint_push_or:
  assumes "uint (x :: 'f::len word) < 2 ^ n" and "uint y * 2 ^ n + uint x < 2 ^ LENGTH('f)"
  shows "uint (push_bit n y OR x) = uint y * 2 ^ n + uint x"
proof -
  have x: "x = take_bit n x"
    using assms(1) by (metis unsigned_take_bit_eq take_bit_int_eq_self uint_nonnegative word_uint_eqI)
  have "push_bit n y AND x = 0"
    by (subst x, rule bit_eqI) (auto simp: bit_simps)
  then have "push_bit n y OR x = push_bit n y + x" by (simp add: disjunctive_add_eq_or)
  moreover have p: "uint (push_bit n y) = uint y * 2 ^ n"
    using assms(2) uint_nonnegative [of x] by (intro uint_push) linarith
  ultimately show ?thesis using uint_sum [of "push_bit n y" x] assms(2) by (simp only: p)
qed

lemma mul_u_half_spec:
  fixes a b :: "'f::len word"
  assumes "LENGTH('f) = 2 * h" and "2 \<le> h" and "mul_u_half a b = (high, low)"
  shows "uint high * 2 ^ LENGTH('f) + uint low = uint a * uint b"
proof -
  define H where "H = (2 :: int) ^ h"
  have L: "(2 :: int) ^ LENGTH('f) = H * H" by (simp add: H_def assms(1) mult_2 power_add)
  have H: "4 \<le> H" using power_increasing [OF assms(2), of "2 :: int"] by (simp add: H_def)
  then have HH: "4 * H \<le> H * H" by (intro mult_right_mono) auto
  define a0 a1 b0 b1 where "a0 = uint a mod H" and "a1 = uint a div H" and "b0 = uint b mod H" and "b1 = uint b div H"
  have less: "0 \<le> uint w div H" "uint w div H < H" for w :: "'f word"
    using div_less_int [of H "uint w" H] uint_lt2p [of w] H L by (simp_all add: pos_imp_zdiv_nonneg_iff)
  have lim: "0 \<le> a0" "a0 < H" "0 \<le> a1" "a1 < H" "0 \<le> b0" "b0 < H" "0 \<le> b1" "b1 < H"
    using H less by (simp_all add: a0_def a1_def b0_def b1_def)
  have ab: "uint a = a1 * H + a0" "uint b = b1 * H + b0" by (simp_all add: a0_def a1_def b0_def b1_def)
  have lo: "uint (take_bit h w) = uint w mod H" and hi: "uint (drop_bit h w) = uint w div H" for w :: "'f word"
    by (simp_all only: uint_take uint_drop H_def)
  have hi2: "uint (take_bit h (drop_bit h w)) = uint w div H" for w :: "'f word"
    using less [of w] by (simp only: lo hi) simp
  define r00 r01 r10 r11 where "r00 = take_bit h a * take_bit h b" and "r01 = take_bit h a * take_bit h (drop_bit h b)"
    and "r10 = take_bit h (drop_bit h a) * take_bit h b" and "r11 = take_bit h (drop_bit h a) * take_bit h (drop_bit h b)"
  have prod: "uint (x * y) = uint x * uint y" if "uint x < H" "uint y < H" for x y :: "'f word"
    using that H unfolding L [symmetric] by (intro uint_product) (simp add: L, intro mult_strict_mono, auto)
  have r: "uint r00 = a0 * b0" "uint r01 = a0 * b1" "uint r10 = a1 * b0" "uint r11 = a1 * b1"
    unfolding r00_def r01_def r10_def r11_def a0_def a1_def b0_def b1_def lo [symmetric] hi2 [symmetric]
    using lim unfolding a0_def a1_def b0_def b1_def lo [symmetric] hi2 [symmetric] by (simp_all only: prod)
  define c1 where "c1 = drop_bit h r00 + take_bit h r01 + take_bit h r10"
  define c2 where "c2 = drop_bit h c1 + drop_bit h r01 + drop_bit h r10 + take_bit h r11"
  define c3 where "c3 = drop_bit h c2 + drop_bit h r11"
  note hp = half_products [of H, OF _ lim]
  have sum3: "uint (x + y + z) = uint x + uint y + uint z" if "uint x + uint y + uint z < H * H" for x y z :: "'f word"
  proof -
    have "uint x + uint y < H * H" using that uint_nonnegative [of z] by linarith
    then show ?thesis using that uint_sum [of x y] uint_sum [of "x + y" z] unfolding L by simp
  qed
  have c1: "uint c1 = a0 * b0 div H + a0 * b1 mod H + a1 * b0 mod H"
  proof -
    have "a0 * b0 div H + a0 * b1 mod H + a1 * b0 mod H < H * H" using hp(3) H HH by linarith
    then show ?thesis unfolding c1_def using sum3 [of "drop_bit h r00" "take_bit h r01" "take_bit h r10"] by (simp only: lo hi r)
  qed
  have c2: "uint c2 = uint c1 div H + a0 * b1 div H + a1 * b0 div H + a1 * b1 mod H"
  proof -
    have "uint c1 div H + a0 * b1 div H + a1 * b0 div H + a1 * b1 mod H < H * H"
      unfolding c1 using hp(5) H HH by linarith
    moreover have "0 \<le> a1 * b1 mod H" using H by simp
    ultimately show ?thesis
      unfolding c2_def using uint_sum [of "drop_bit h c1 + drop_bit h r01 + drop_bit h r10" "take_bit h r11"]
        sum3 [of "drop_bit h c1" "drop_bit h r01" "drop_bit h r10"] by (simp add: lo hi r L)
  qed
  have c3: "uint c3 = uint c2 div H + a1 * b1 div H" "uint c3 < H"
  proof -
    have l: "uint c2 div H + a1 * b1 div H < H" unfolding c2 c1 using hp(7) H by simp
    then show "uint c3 = uint c2 div H + a1 * b1 div H"
      unfolding c3_def using uint_sum [of "drop_bit h c2" "drop_bit h r11"] H HH by (simp add: hi r L)
    then show "uint c3 < H" using l by simp
  qed
  have "high = push_bit h (take_bit h c3) OR take_bit h c2" "low = push_bit h (take_bit h c1) OR take_bit h r00"
    using assms(3) unfolding mul_u_half_def Let_def assms(1) c1_def c2_def c3_def r00_def r01_def r10_def r11_def by auto
  moreover have comb: "uint (push_bit h (take_bit h x) OR take_bit h y) = uint x mod H * H + uint y mod H" for x y :: "'f word"
  proof -
    have "uint x mod H < H" using H by simp
    then have "(uint x mod H + 1) * H \<le> H * H" using H by (intro mult_right_mono) linarith+
    moreover have "uint y mod H < H" using H by simp
    ultimately have "uint x mod H * H + uint y mod H < H * H" by (simp add: algebra_simps)
    then show ?thesis
      using uint_push_or [of "take_bit h y" h "take_bit h x"] H unfolding L by (simp add: lo H_def [symmetric])
  qed
  ultimately have "uint high * 2 ^ LENGTH('f) + uint low = (uint c3 * H + uint c2 mod H) * (H * H) + (uint c1 mod H * H + a0 * b0 mod H)"
    using c3(2) uint_nonnegative [of c3] by (simp add: L r)
  also have "\<dots> = (a1 * H + a0) * (b1 * H + b0)"
    unfolding c3(1) c2 c1 using hp(1) H by simp
  finally show ?thesis by (simp only: ab)
qed

lemma mul_u_spec:
  fixes a b :: "'f::len word"
  assumes "sf_format TYPE('f)" and "mul_u a b = (high, low)"
  shows "uint high * 2 ^ LENGTH('f) + uint low = uint a * uint b"
proof (cases "LENGTH('f) = 32")
  case False
  then have "LENGTH('f) = 2 * 32" using assms(1) by (simp add: sf_format_def)
  then show ?thesis using mul_u_half_spec [of 32 a b high low] assms(2) False by (simp add: mul_u_def)
next
  case True
  let ?r = "unat a * unat b" and ?L = "2 ^ LENGTH('f) :: nat"
  have "?r < ?L * ?L" by (intro mult_strict_mono) auto
  then have "?r div ?L < ?L" by (simp add: less_mult_imp_div_less)
  then have u: "uint (word_of_nat (?r div ?L) :: 'f word) = int (?r div ?L)" "uint (word_of_nat ?r :: 'f word) = int (?r mod ?L)"
    by (simp_all only: uint_nat unat_of_nat mod_less)
  have hl: "high = word_of_nat (?r div ?L)" "low = word_of_nat ?r"
    using assms(2) True unfolding mul_u_def mul_u_long_def Let_def by (simp_all only: refl if_True prod.inject)
  have "int (?r div ?L) * int ?L + int (?r mod ?L) = int ?r"
    by (simp only: of_nat_mult [symmetric] of_nat_add [symmetric] div_mult_mod_eq)
  then have "int (?r div ?L) * 2 ^ LENGTH('f) + int (?r mod ?L) = uint a * uint b"
    by (simp only: of_nat_power of_nat_numeral of_nat_mult uint_nat)
  then show ?thesis unfolding hl u .
qed

text \<open>A double word whose low word becomes the sticky bit.\<close>

lemma sticky_low:
  fixes high low :: "'f::len word"
  assumes "uint high * 2 ^ LENGTH('f) + uint low = N"
  shows "uint (high OR of_bool (low \<noteq> 0)) = sticky (of_int N / 2 ^ LENGTH('f))"
proof -
  have d: "N div 2 ^ LENGTH('f) = uint high" and m: "N mod 2 ^ LENGTH('f) = uint low"
    using uint_lt2p [of low] unfolding assms [symmetric]
    by (simp_all only: div_mult_self3 mod_mult_self3) simp_all
  have z: "uint low \<noteq> 0 \<longleftrightarrow> low \<noteq> 0" by (simp add: uint_0_iff)
  have "sticky (of_int N / of_int (2 ^ LENGTH('f))) = (if low \<noteq> 0 then uint high OR 1 else uint high)"
    by (subst sticky_div) (simp_all only: d m z zero_less_power zero_less_numeral)
  then show ?thesis by (simp add: unsigned_or_eq)
qed

lemma sticky_nonneg: "0 \<le> y \<Longrightarrow> 0 \<le> sticky y"
  by (simp add: sticky_def)

text \<open>A mantissa that is the sticky form of \<open>y\<close>, with room above the rounding bits.\<close>

lemma normalize_sticky:
  fixes m :: "'f::len word"
  assumes fmt: "sf_format TYPE('f)" and rm: "rm \<le> RM_RMM" and m: "uint m = sticky y"
    and y: "2 ^ (LENGTH('f) - 3) \<le> y" "y < 2 ^ (LENGTH('f) - 1)"
  shows "normalize_sf s e m rm fl = round_sf rm s (y * 2 powi (e - bias TYPE('f) - int (IMANT_SIZE TYPE('f)))) fl"
proof -
  note ff = format_facts [OF fmt]
  have ag: "agree 2 (of_int (uint m)) y" unfolding m by (rule agree_sticky)
  have p: "of_int (2 ^ (k - 1)) * 2 = (2 :: real) ^ k" "2 ^ (k - 1) * 2 = (2 :: int) ^ k" if "0 < k" for k
    using that by (cases k; simp)+
  have "of_int (2 ^ (LENGTH('f) - 3 - 1)) * 2 \<le> y" "y < of_int (2 ^ (LENGTH('f) - 1 - 1)) * 2"
    using y ff(1,2) p(1) [of "LENGTH('f) - 3"] p(1) [of "LENGTH('f) - 1"] by simp_all
  then have "of_int (2 ^ (LENGTH('f) - 3 - 1)) * 2 \<le> (of_int (uint m) :: real)" "of_int (uint m) < (of_int (2 ^ (LENGTH('f) - 1 - 1)) * 2 :: real)"
    using agreeD(4) [OF ag] agreeD(1) [OF ag] by blast+
  then have "of_int (2 ^ (LENGTH('f) - 3 - 1) * 2) \<le> (of_int (uint m) :: real)" "of_int (uint m) < (of_int (2 ^ (LENGTH('f) - 1 - 1) * 2) :: real)"
    by simp_all
  then have b: "2 ^ (LENGTH('f) - 3) \<le> uint m" "uint m < 2 ^ (LENGTH('f) - 1)"
    unfolding of_int_le_iff of_int_less_iff using p(2) [of "LENGTH('f) - 3"] p(2) [of "LENGTH('f) - 1"] ff(1,2) by simp_all
  have "(2 :: int) ^ (MANT_SIZE TYPE('f) + 2) \<le> 2 ^ (LENGTH('f) - 3)" using ff(1,2) by (intro power_increasing) auto
  then have "2 ^ (MANT_SIZE TYPE('f) + 2) \<le> uint m" using b(1) by linarith
  moreover from this have "0 < uint m" using zero_less_power [of "2 :: int" "MANT_SIZE TYPE('f) + 2"] by linarith
  ultimately show ?thesis using ag b(2) by (intro normalize_sf_correct [OF fmt rm]) auto
qed

lemma sf_mag_zero:
  assumes "unpack_sf a = (s, 0, 0)"
  shows "sf_mag a = 0"
  using assms by (simp add: sf_mag_def)

lemma powi2: "(2 :: real) powi i * 2 powi j = 2 powi (i + j)" "(2 :: real) powi i / 2 powi j = 2 powi (i - j)" "(2 :: real) ^ n = 2 powi (int n)"
  by (simp_all add: power_int_add power_int_diff)

lemma mul_sf_correct:
  fixes a b :: "'f::len word"
  assumes fmt: "sf_format TYPE('f)" and rm: "rm \<le> RM_RMM" and fin: "finite_sf a" "finite_sf b"
  shows "mul_sf a b rm fl = round_sf rm (sf_sign a \<noteq> sf_sign b) (sf_mag a * sf_mag b) fl"
proof -
  note ff = format_facts [OF fmt]
  define M R where "M = MANT_SIZE TYPE('f)" and "R = RND_SIZE TYPE('f)"
  obtain sa ea ma where ua: "unpack_sf a = (sa, ea, ma)" by (metis prod_cases3)
  obtain sb eb mb where ub: "unpack_sf b = (sb, eb, mb)" by (metis prod_cases3)
  have sg: "sa = sf_sign a" "sb = sf_sign b" using unpack_bounds(4) [OF fmt] ua ub by auto
  have ne: "ea \<noteq> EXP_MASK TYPE('f)" "eb \<noteq> EXP_MASK TYPE('f)" using fin ua ub by (simp_all add: finite_sf_def)
  show ?thesis
  proof (cases "ea = 0 \<and> ma = 0 \<or> eb = 0 \<and> mb = 0")
    case True
    then have "sf_mag a * sf_mag b = 0" using sf_mag_zero ua ub by auto
    then show ?thesis using True ua ub ne by (auto simp: mul_sf_def Let_def sg round_sf_def)
  next
    case False
    then have nz: "\<not> (ea = 0 \<and> ma = 0)" "\<not> (eb = 0 \<and> mb = 0)" by auto
    obtain ea' ma' where a: "with_leading_bit ea ma = (ea', ma')" "2 ^ M \<le> uint ma'" "uint ma' < 2 ^ (M + 1)"
      "sf_mag a = of_int (uint ma') * 2 powi (ea' - bias TYPE('f) - int M)"
      using with_leading_bit_spec [OF fmt ua nz(1)] unfolding M_def by blast
    obtain eb' mb' where b: "with_leading_bit eb mb = (eb', mb')" "2 ^ M \<le> uint mb'" "uint mb' < 2 ^ (M + 1)"
      "sf_mag b = of_int (uint mb') * 2 powi (eb' - bias TYPE('f) - int M)"
      using with_leading_bit_spec [OF fmt ub nz(2)] unfolding M_def by blast
    have L: "LENGTH('f) = M + R + 2" using ff(1) by (simp add: M_def R_def)
    obtain high low where hl: "mul_u (push_bit R ma') (push_bit (R + 1) mb') = (high, low)" by fastforce
    have "uint ma' * 2 ^ R < 2 ^ (M + 1) * 2 ^ R" "uint mb' * 2 ^ (R + 1) < 2 ^ (M + 1) * 2 ^ (R + 1)"
      using a(3) b(3) by simp_all
    then have "uint ma' * 2 ^ R < 2 ^ (M + 1 + R)" "uint mb' * 2 ^ (R + 1) < 2 ^ (M + 1 + (R + 1))"
      by (simp_all only: power_add)
    moreover have "(2 :: int) ^ (M + 1 + R) \<le> 2 ^ LENGTH('f)" "(2 :: int) ^ (M + 1 + (R + 1)) \<le> 2 ^ LENGTH('f)"
      unfolding L by (intro power_increasing; simp)+
    ultimately have u: "uint (push_bit R ma') = uint ma' * 2 ^ R" "uint (push_bit (R + 1) mb') = uint mb' * 2 ^ (R + 1)"
      by (intro uint_push; linarith)+
    define N where "N = uint ma' * uint mb' * 2 ^ (2 * R + 1)"
    have "uint high * 2 ^ LENGTH('f) + uint low = N"
    proof -
      have "uint high * 2 ^ LENGTH('f) + uint low = (uint ma' * 2 ^ R) * (uint mb' * 2 ^ (R + 1))"
        using mul_u_spec [OF fmt hl] unfolding u .
      also have "\<dots> = N" unfolding N_def power_add mult_2 power_one_right by (simp only: ac_simps)
      finally show ?thesis .
    qed
    from sticky_low [OF this] have st: "uint (high OR of_bool (low \<noteq> 0)) = sticky (of_int N / 2 ^ LENGTH('f))" .
    have "2 ^ M * 2 ^ M \<le> uint ma' * uint mb'" using a(2) b(2) by (intro mult_mono) auto
    moreover have "uint ma' * uint mb' < 2 ^ (M + 1) * 2 ^ (M + 1)" using a(2,3) b(2,3) by (intro mult_strict_mono) auto
    ultimately have "2 ^ M * 2 ^ M * 2 ^ (2 * R + 1) \<le> N" "N < 2 ^ (M + 1) * 2 ^ (M + 1) * 2 ^ (2 * R + 1)"
      by (simp_all add: N_def)
    moreover have "2 ^ M * 2 ^ M * 2 ^ (2 * R + 1) = (2 :: int) ^ (LENGTH('f) - 3 + LENGTH('f))"
      "2 ^ (M + 1) * 2 ^ (M + 1) * 2 ^ (2 * R + 1) = (2 :: int) ^ (LENGTH('f) - 1 + LENGTH('f))"
    proof -
      have "M + M + (2 * R + 1) = LENGTH('f) - 3 + LENGTH('f)" "M + 1 + (M + 1) + (2 * R + 1) = LENGTH('f) - 1 + LENGTH('f)"
        using ff(2) L by (simp_all add: R_def [symmetric])
      then show "2 ^ M * 2 ^ M * 2 ^ (2 * R + 1) = (2 :: int) ^ (LENGTH('f) - 3 + LENGTH('f))"
        "2 ^ (M + 1) * 2 ^ (M + 1) * 2 ^ (2 * R + 1) = (2 :: int) ^ (LENGTH('f) - 1 + LENGTH('f))"
        unfolding power_add [symmetric] by (simp_all only:)
    qed
    ultimately have "of_int (2 ^ (LENGTH('f) - 3 + LENGTH('f))) \<le> (of_int N :: real)" "of_int N < (of_int (2 ^ (LENGTH('f) - 1 + LENGTH('f))) :: real)"
      by (simp_all only: of_int_le_iff of_int_less_iff)
    then have y: "2 ^ (LENGTH('f) - 3) \<le> of_int N / (2 :: real) ^ LENGTH('f)" "of_int N / (2 :: real) ^ LENGTH('f) < 2 ^ (LENGTH('f) - 1)"
      by (simp_all add: field_simps power_add)
    define e where "e = ea' + eb' - 2 ^ (EXP_SIZE TYPE('f) - 1) + 2"
    have e: "e = ea' + eb' - bias TYPE('f) + 1" using ff(7) by (simp add: e_def)
    have "of_int N / 2 ^ LENGTH('f) * 2 powi (e - bias TYPE('f) - int (IMANT_SIZE TYPE('f))) = sf_mag a * sf_mag b"
    proof -
      have "of_int N / 2 ^ LENGTH('f) * 2 powi (e - bias TYPE('f) - int (IMANT_SIZE TYPE('f))) =
          of_int (uint ma') * of_int (uint mb') * ((2 :: real) ^ (2 * R + 1) / 2 ^ LENGTH('f) * 2 powi (e - bias TYPE('f) - int (IMANT_SIZE TYPE('f))))"
        by (simp add: N_def)
      also have "(2 :: real) ^ (2 * R + 1) / 2 ^ LENGTH('f) * 2 powi (e - bias TYPE('f) - int (IMANT_SIZE TYPE('f))) =
          2 powi (ea' - bias TYPE('f) - int M) * 2 powi (eb' - bias TYPE('f) - int M)"
        unfolding powi2 e ff(8) L M_def [symmetric] R_def [symmetric] by (rule arg_cong [where f = "power_int 2"]) simp
      finally show ?thesis by (simp add: a(4) b(4))
    qed
    then have "normalize_sf (sa \<noteq> sb) e (high OR of_bool (low \<noteq> 0)) rm fl = round_sf rm (sa \<noteq> sb) (sf_mag a * sf_mag b) fl"
      using normalize_sticky [OF fmt rm st y] by simp
    moreover have "mul_sf a b rm fl = normalize_sf (sa \<noteq> sb) e (high OR of_bool (low \<noteq> 0)) rm fl"
      unfolding mul_sf_def Let_def ua ub prod.case using ne nz
      by (simp only: a(1) b(1) prod.case hl M_def [symmetric] R_def [symmetric] e_def [symmetric] simp_thms if_False)
    ultimately show ?thesis by (simp only: sg)
  qed
qed

end
