(* ===== verification/FloatAdd.thy ===== *)
theory FloatAdd
  imports FloatArith
begin

unbundle bit_operations_syntax

section \<open>Addition and subtraction round correctly\<close>

text \<open>
  The smaller operand is shifted to the exponent of the larger one, with three extra bits and a
  sticky bit; what is lost is too small to change the rounding.
\<close>

lemma magnitude_bits:
  fixes a :: "'f::len word"
  assumes fmt: "sf_format TYPE('f)" and ua: "unpack_sf a = (s, e, m)"
  shows "uint (a AND NOT SIGN_MASK) = e * 2 ^ MANT_SIZE TYPE('f) + uint m"
proof -
  note ff = format_facts [OF fmt]
  let ?M = "MANT_SIZE TYPE('f)" and ?E = "EXP_SIZE TYPE('f)"
  have m: "uint m = uint a mod 2 ^ ?M" using ua by (auto simp: unpack_sf_def uint_MANT_MASK_and)
  have "word_of_int (EXP_MASK TYPE('f)) = (push_bit ?E 1 - 1 :: 'f word)"
    by (simp add: EXP_MASK_def push_bit_eq_mult)
  then have e: "e = uint a div 2 ^ ?M mod 2 ^ ?E"
    using ua by (auto simp: unpack_sf_def uint_low uint_drop simp del: push_bit_of_1)
  have "a AND NOT SIGN_MASK = take_bit (LENGTH('f) - 1) a"
    by (rule bit_eqI) (auto simp: SIGN_MASK_def bit_simps simp del: push_bit_of_1)
  moreover have "LENGTH('f) - 1 = ?M + ?E" using ff(4) by simp
  ultimately have "uint (a AND NOT SIGN_MASK) = uint a mod (2 ^ ?M * 2 ^ ?E)"
    by (simp only: uint_take power_add)
  then show ?thesis by (simp add: zmod_zmult2_eq e m)
qed

text \<open>The mantissa with its leading bit and three more bits, and its exponent.\<close>

definition extended :: "int \<Rightarrow> 'f::len word \<Rightarrow> int \<times> 'f word" where
  "extended e m = (if e = 0 then (1, push_bit 3 m) else (e, push_bit 3 m OR push_bit (MANT_SIZE TYPE('f) + 3) 1))"

lemma extended_spec:
  fixes a :: "'f::len word"
  assumes fmt: "sf_format TYPE('f)" and ua: "unpack_sf a = (s, e, m)"
  obtains e' m' where "extended e m = (e', m')" "1 \<le> e'" "e' = max e 1"
    "uint m' = 8 * (uint m + (if e = 0 then 0 else 2 ^ MANT_SIZE TYPE('f)))"
    "sf_mag a = of_int (uint m') * 2 powi (e' - bias TYPE('f) - int (MANT_SIZE TYPE('f)) - 3)"
proof -
  note ff = format_facts [OF fmt] and ub = unpack_bounds [OF fmt ua]
  let ?M = "MANT_SIZE TYPE('f)"
  have p8: "(2 :: int) ^ (?M + 3) = 2 ^ ?M * 8" by (simp add: power_add)
  have lim: "(2 :: int) ^ (?M + 3) < 2 ^ LENGTH('f)" using ff(1,2) by (intro power_strict_increasing) auto
  have "uint m * 2 ^ 3 < 2 ^ LENGTH('f)" using ub(1) lim p8 by simp
  then have u: "uint (push_bit 3 m) = uint m * 2 ^ 3" by (rule uint_push)
  have "uint (push_bit 3 m) < 2 ^ (?M + 3)" using ub(1) by (simp only: u p8) simp
  then have o1: "uint (push_bit 3 m OR push_bit (?M + 3) 1) = uint (push_bit 3 m) + 2 ^ (?M + 3)"
    using ff(1,2) by (intro uint_or_disjoint) auto
  have eighth: "z * (2 :: real) powi i = (8 * z) * 2 powi (i - 3)" for z i
  proof -
    have "(2 :: real) powi i = 2 ^ 3 * 2 powi (i - 3)" unfolding powi2 by simp
    then show ?thesis by simp
  qed
  show thesis
  proof (cases "e = 0")
    case True
    have "uint (push_bit 3 m) = 8 * uint m" by (simp add: u)
    moreover have "sf_mag a = of_int (8 * uint m) * 2 powi (1 - bias TYPE('f) - int ?M - 3)"
      using True ua eighth [of "of_int (uint m)" "1 - bias TYPE('f) - int ?M"] by (simp add: sf_mag_def)
    ultimately show thesis using that [of 1 "push_bit 3 m"] True by (simp add: extended_def)
  next
    case False
    have "uint (push_bit 3 m OR push_bit (?M + 3) 1) = 8 * (uint m + 2 ^ ?M)"
      using o1 by (simp only: u p8) simp
    moreover have "sf_mag a = of_int (8 * (uint m + 2 ^ ?M)) * 2 powi (e - bias TYPE('f) - int ?M - 3)"
      using False ua eighth [of "of_int (uint m + 2 ^ ?M)" "e - bias TYPE('f) - int ?M"] by (simp add: sf_mag_def add.commute)
    moreover have "1 \<le> e" using ub(2) False by simp
    ultimately show thesis using that [of e "push_bit 3 m OR push_bit (?M + 3) 1"] False
      by (simp only: extended_def if_False max_def) simp
  qed
qed

text \<open>The aligned mantissas: their sum or difference agrees with the exact one.\<close>

lemma aligned_operand:
  fixes m :: "'f::len word"
  assumes "0 \<le> d" and "uint m = 8 * n" and "0 \<le> n" and "n < 2 ^ (k + 1)"
  defines "B \<equiv> of_int (uint m) / 2 ^ nat d :: real"
  shows "agree 2 (of_int (uint (rshift_rnd m d))) B" "0 \<le> B" "B \<le> of_int (uint m)"
    "of_int (uint (rshift_rnd m d)) = B \<or> 4 \<le> d \<and> uint (rshift_rnd m d) \<le> 2 ^ k \<and> 0 < uint (rshift_rnd m d)"
proof -
  have st: "uint (rshift_rnd m d) = sticky B" unfolding B_def by (rule uint_rshift_rnd [OF assms(1)])
  show ag: "agree 2 (of_int (uint (rshift_rnd m d))) B" unfolding st by (rule agree_sticky)
  show B0: "0 \<le> B"
    unfolding B_def by (rule divide_nonneg_pos [OF of_int_nonneg [OF uint_nonnegative]]) simp
  show "B \<le> of_int (uint m)"
    using divide_left_mono [of 1 "2 ^ nat d :: real" "of_int (uint m)"] of_int_nonneg [OF uint_nonnegative [of m], where 'a = real]
    by (simp add: B_def)
  show "of_int (uint (rshift_rnd m d)) = B \<or> 4 \<le> d \<and> uint (rshift_rnd m d) \<le> 2 ^ k \<and> 0 < uint (rshift_rnd m d)"
  proof (cases "of_int \<lfloor>B\<rfloor> = B")
    case True
    then have "of_int (sticky B) = B" unfolding sticky_def by presburger
    then show ?thesis by (simp only: st simp_thms)
  next
    case False
    have "4 \<le> d"
    proof (rule ccontr)
      assume "\<not> 4 \<le> d"
      then have "nat d = 0 \<or> nat d = 1 \<or> nat d = 2 \<or> nat d = 3" by arith
      then have "B = of_int (8 * n) \<or> B = of_int (4 * n) \<or> B = of_int (2 * n) \<or> B = of_int n"
        unfolding B_def assms(2) by auto
      then show False using False by (elim disjE) (simp_all only: floor_of_int simp_thms)
    qed
    have "k + 1 + 3 \<le> k + nat d" using \<open>4 \<le> d\<close> by simp
    have "uint m < 8 * 2 ^ (k + 1)" using assms(2,4) by simp
    also have "\<dots> = 2 ^ (k + 1 + 3)" by (simp add: power_add)
    also have "\<dots> \<le> 2 ^ (k + nat d)" using \<open>k + 1 + 3 \<le> k + nat d\<close> by (intro power_increasing) auto
    finally have "(of_int (uint m) :: real) < of_int (2 ^ (k + nat d))" by (simp only: of_int_less_iff)
    then have "B < of_int (2 ^ k)" by (simp add: B_def field_simps power_add)
    then have "\<lfloor>B\<rfloor> < 2 ^ k" by (simp only: floor_less_iff)
    then have "sticky B \<le> 2 ^ k" by (simp add: sticky_def)
    moreover have "0 < sticky B"
    proof -
      have "0 \<le> \<lfloor>B\<rfloor>" using B0 by simp
      moreover have "sticky B = (if odd \<lfloor>B\<rfloor> then \<lfloor>B\<rfloor> else \<lfloor>B\<rfloor> + 1)"
        using False by (simp only: sticky_def simp_thms)
      ultimately show ?thesis by presburger
    qed
    ultimately show ?thesis using \<open>4 \<le> d\<close> by (simp add: st)
  qed
qed

text \<open>The larger operand first.\<close>

lemma add_ordered:
  fixes a b :: "'f::len word"
  assumes fmt: "sf_format TYPE('f)" and rm: "rm \<le> RM_RMM"
    and ua: "unpack_sf a = (sa, ea, ma)" and ub: "unpack_sf b = (sb, eb, mb)"
    and le: "b AND NOT SIGN_MASK \<le> a AND NOT SIGN_MASK"
    and xa: "extended ea ma = (ea', ma')" and xb: "extended eb mb = (eb', mb')"
  defines "y \<equiv> (if sa = sb then sf_mag a + sf_mag b else sf_mag a - sf_mag b)"
    and "bm \<equiv> rshift_rnd mb' (ea' - eb')"
  defines "m \<equiv> (if sa = sb then ma' + bm else ma' - bm)"
  shows "normalize_sf s (ea' + int (RND_SIZE TYPE('f)) - 3) m rm fl = round_sf rm s y fl"
    "m = 0 \<longleftrightarrow> y = 0" "0 \<le> y"
proof -
  note ff = format_facts [OF fmt]
  define M where "M = MANT_SIZE TYPE('f)"
  obtain na where na: "1 \<le> ea'" "ea' = max ea 1" "uint ma' = 8 * na" "na = uint ma + (if ea = 0 then 0 else 2 ^ M)"
    "sf_mag a = of_int (uint ma') * 2 powi (ea' - bias TYPE('f) - int M - 3)"
    using extended_spec [OF fmt ua] xa unfolding M_def by (metis prod.inject)
  obtain nb where nb: "1 \<le> eb'" "eb' = max eb 1" "uint mb' = 8 * nb" "nb = uint mb + (if eb = 0 then 0 else 2 ^ M)"
    "sf_mag b = of_int (uint mb') * 2 powi (eb' - bias TYPE('f) - int M - 3)"
    using extended_spec [OF fmt ub] xb unfolding M_def by (metis prod.inject)
  have um: "uint ma < 2 ^ M" "0 \<le> ea" "uint mb < 2 ^ M" "0 \<le> eb"
    using unpack_bounds [OF fmt ua] unpack_bounds [OF fmt ub] by (simp_all add: M_def)
  have aux: "0 \<le> u + (if c then 0 else 2 ^ M) \<and> u + (if c then 0 else 2 ^ M) < 2 ^ (M + 1)"
    if "0 \<le> u" "u < 2 ^ M" for u :: int and c
  proof (cases c)
    case True
    have "(2 :: int) ^ M < 2 ^ (M + 1)" by (intro power_strict_increasing) auto
    then show ?thesis using True that by simp
  next
    case False
    have "(2 :: int) ^ (M + 1) = 2 ^ M + 2 ^ M" "(0 :: int) < 2 ^ M" by simp_all
    then show ?thesis using False that by (simp only: if_False) linarith
  qed
  have lim: "0 \<le> na" "na < 2 ^ (M + 1)" "0 \<le> nb" "nb < 2 ^ (M + 1)"
    using um aux unfolding na(4) nb(4) by (meson uint_nonnegative)+
  have ord: "eb * 2 ^ M + uint mb \<le> ea * 2 ^ M + uint ma"
    using le magnitude_bits [OF fmt ua] magnitude_bits [OF fmt ub] by (simp add: word_le_def M_def)
  have eo: "eb \<le> ea"
  proof (rule ccontr)
    assume "\<not> eb \<le> ea"
    then have "(ea + 1) * 2 ^ M \<le> eb * 2 ^ M" by (intro mult_right_mono) auto
    then show False using ord um uint_nonnegative [of mb] by (simp add: distrib_right)
  qed
  define d where "d = ea' - eb'"
  have d: "0 \<le> d" using eo na(2) nb(2) by (simp add: d_def)
  define B where "B = of_int (uint mb') / (2 :: real) ^ nat d"
  note al = aligned_operand [OF d nb(3) lim(3,4), folded B_def]
  have sameB: "sf_mag b = B * 2 powi (ea' - bias TYPE('f) - int M - 3)"
  proof -
    have "(2 :: real) powi (eb' - bias TYPE('f) - int M - 3) = 2 powi (ea' - bias TYPE('f) - int M - 3) / 2 ^ nat d"
      unfolding powi2 by (rule arg_cong [where f = "power_int 2"]) (use d in \<open>simp add: d_def\<close>)
    then show ?thesis by (simp add: nb(5) B_def)
  qed
  define Y where "Y = (if sa = sb then of_int (uint ma') + B else of_int (uint ma') - B)"
  have y: "y = Y * 2 powi (ea' - bias TYPE('f) - int M - 3)"
    by (simp add: y_def Y_def na(5) sameB algebra_simps)
  have pw: "(2 :: int) ^ (M + 3) = 8 * 2 ^ M" "(2 :: int) ^ (M + 2) = 4 * 2 ^ M" "(2 :: int) ^ (M + 1) = 2 * 2 ^ M" "(0 :: int) < 2 ^ M"
    by (simp_all add: power_add)
  have big: "2 ^ M \<le> na" if "0 < d"
    using that na(1,2) nb(1) uint_nonnegative [of ma] unfolding na(4) d_def by (cases "ea = 0") auto
  have dominate: "B \<le> of_int (uint ma')"
  proof (cases "d = 0")
    case True
    then have "ea = eb \<or> eb = 0 \<and> ea = 1"
      using eo na(2) nb(2) um unfolding d_def by (auto simp: max_def split: if_splits)
    then have "nb \<le> na"
      using ord um pw(4) uint_nonnegative [of ma] unfolding na(4) nb(4) by auto
    then show ?thesis using True by (simp add: B_def na(3) nb(3))
  next
    case False
    then have "2 * (1 :: real) \<le> 2 ^ nat d" using d power_increasing [of 1 "nat d" "2 :: real"] by simp
    then have "B \<le> of_int (uint mb') / 2"
      unfolding B_def using divide_left_mono [of 2 "2 ^ nat d :: real" "of_int (uint mb')"] of_int_nonneg [OF uint_nonnegative [of mb'], where 'a = real]
      by simp
    also have "\<dots> = of_int (4 * nb)" by (simp add: nb(3))
    also have "\<dots> \<le> of_int (uint ma')"
      unfolding of_int_le_iff na(3) using big lim(4) False d pw by linarith
    finally show ?thesis .
  qed
  have bm_ag: "agree 2 (of_int (uint bm)) B" using al(1) by (simp only: bm_def d_def)
  have inexact: "4 \<le> d \<and> uint bm \<le> 2 ^ M" if "of_int (uint bm) \<noteq> B"
    using al(4) that by (simp only: bm_def d_def) blast
  have bm_le: "uint bm \<le> uint mb' \<or> uint bm \<le> 2 ^ M" "uint bm \<le> uint ma'"
  proof -
    show "uint bm \<le> uint mb' \<or> uint bm \<le> 2 ^ M"
    proof (cases "of_int (uint bm) = B")
      case True
      then have "(of_int (uint bm) :: real) \<le> of_int (uint mb')" using al(3) by (simp only:)
      then show ?thesis by (simp only: of_int_le_iff simp_thms)
    qed (use inexact in blast)
    show "uint bm \<le> uint ma'"
    proof (cases "of_int (uint bm) = B")
      case True
      then have "(of_int (uint bm) :: real) \<le> of_int (uint ma')" using dominate by (simp only:)
      then show ?thesis by (simp only: of_int_le_iff)
    next
      case False
      then show ?thesis using inexact big pw(4) unfolding na(3) by linarith
    qed
  qed
  have small: "uint ma' + uint bm < 32 * 2 ^ M" using bm_le(1) lim pw unfolding na(3) nb(3) by linarith
  have "LENGTH('f) - 1 = M + RND_SIZE TYPE('f) + 1" using ff(1) by (simp add: M_def)
  then have "(2 :: int) ^ (M + 5) \<le> 2 ^ (LENGTH('f) - 1)" using ff(2) by (intro power_increasing) auto
  then have room: "32 * 2 ^ M \<le> (2 :: int) ^ (LENGTH('f) - 1)" by (simp add: power_add)
  have "(2 :: int) ^ (LENGTH('f) - 1) \<le> 2 ^ LENGTH('f)" by (intro power_increasing) auto
  then have "uint (ma' + bm) = uint ma' + uint bm" using small room by (intro uint_sum) linarith
  moreover have "uint (ma' - bm) = uint ma' - uint bm" using bm_le(2) uint_sub_lem [of bm ma'] by simp
  ultimately have um': "uint m = (if sa = sb then uint ma' + uint bm else uint ma' - uint bm)" by (simp add: m_def)
  moreover have "x - uint bm \<le> x + uint bm" for x using uint_nonnegative [of bm] by linarith
  ultimately have "uint m \<le> uint ma' + uint bm" by presburger
  then have mlt: "uint m < 2 ^ (LENGTH('f) - 1)" using small room by linarith
  have ex: "of_int (uint m) = Y \<or> agree 2 (of_int (uint m)) Y \<and> 2 ^ (M + 2) \<le> uint m"
  proof (cases "of_int (uint bm) = B")
    case True
    then show ?thesis using um' by (auto simp: Y_def)
  next
    case False
    note i = inexact [OF False]
    have "of_int (uint ma') = (of_int (4 * na) * 2 :: real)" by (simp add: na(3))
    then have "agree 2 (of_int (uint m)) Y"
      using agree_shift [OF bm_ag, of "4 * na"] agree_shift [OF agree_minus [OF bm_ag], of "4 * na"]
      unfolding Y_def um' by (simp split: if_split)
    moreover have "2 ^ (M + 2) \<le> uint m"
      using i big pw uint_nonnegative [of bm] unfolding um' na(3) by (simp only: split: if_split) linarith
    ultimately show ?thesis by blast
  qed
  have pos: "0 < (2 :: real) powi i" for i by simp
  have "0 \<le> Y" using dominate al(2) of_int_nonneg [OF uint_nonnegative [of ma'], where 'a = real] by (simp add: Y_def)
  then show "0 \<le> y" using pos by (simp only: y) simp
  have "uint m = 0 \<longleftrightarrow> Y = 0"
    using ex agreeD(5) [of 2 "of_int (uint m)" Y 0] by (metis mult_zero_left of_int_0 of_int_0_eq_iff)
  then show z: "m = 0 \<longleftrightarrow> y = 0" using pos by (simp add: y uint_0_iff)
  show "normalize_sf s (ea' + int (RND_SIZE TYPE('f)) - 3) m rm fl = round_sf rm s y fl"
  proof (cases "m = 0")
    case True
    then show ?thesis using z normalize_sf_zero [OF fmt rm] by (simp add: round_sf_def)
  next
    case False
    then have "0 < uint m" using uint_nonnegative [of m] by (simp add: uint_0_iff less_le)
    moreover have "ea' + int (RND_SIZE TYPE('f)) - 3 - bias TYPE('f) - int (IMANT_SIZE TYPE('f)) = ea' - bias TYPE('f) - int M - 3"
      using ff(8) by (simp add: M_def)
    ultimately show ?thesis
      using normalize_sf_correct [OF fmt rm _ mlt ex [unfolded M_def], of s "ea' + int (RND_SIZE TYPE('f)) - 3" fl] y by (simp only:)
  qed
qed

text \<open>The sign of a sum: of an exact zero the one of both operands, or by the rounding mode.\<close>

definition sum_sign :: "u32 \<Rightarrow> 'f::len word \<Rightarrow> 'f word \<Rightarrow> bool" where
  "sum_sign rm a b =
     (if sf_value a + sf_value b = 0 then if sf_sign a = sf_sign b then sf_sign a else rm = RM_RDN
      else sf_value a + sf_value b < 0)"

lemma add_sf_ordered:
  fixes a b :: "'f::len word"
  assumes fmt: "sf_format TYPE('f)" and rm: "rm \<le> RM_RMM" and fin: "finite_sf a" "finite_sf b"
    and le: "b AND NOT SIGN_MASK \<le> a AND NOT SIGN_MASK"
  shows "add_sf a b rm fl = round_sf rm (sum_sign rm a b) \<bar>sf_value a + sf_value b\<bar> fl"
proof -
  obtain sa ea ma where ua: "unpack_sf a = (sa, ea, ma)" by (metis prod_cases3)
  obtain sb eb mb where ub: "unpack_sf b = (sb, eb, mb)" by (metis prod_cases3)
  obtain ea' ma' where xa: "extended ea ma = (ea', ma')" by fastforce
  obtain eb' mb' where xb: "extended eb mb = (eb', mb')" by fastforce
  have sg: "sf_sign a = sa" "sf_sign b = sb" using unpack_bounds(4) [OF fmt] ua ub by auto
  have ne: "ea \<noteq> EXP_MASK TYPE('f)" using fin ua by (simp add: finite_sf_def)
  define m where "m = (if sa = sb then ma' + rshift_rnd mb' (ea' - eb') else ma' - rshift_rnd mb' (ea' - eb'))"
  define y where "y = (if sa = sb then sf_mag a + sf_mag b else sf_mag a - sf_mag b)"
  note ord = add_ordered [OF fmt rm ua ub le xa xb, folded m_def y_def]
  have v: "sf_value a + sf_value b = (if sa then - y else y)"
    by (auto simp: sf_value_def sg y_def)
  then have ab: "\<bar>sf_value a + sf_value b\<bar> = y" using ord(3) by simp
  define s where "s = (if sa = sb then sa else if m = 0 then rm = RM_RDN else sa)"
  have "sum_sign rm a b = s"
  proof (cases "y = 0")
    case True
    then have "m = 0" using ord(2) by blast
    then show ?thesis using v True by (simp add: sum_sign_def sg s_def)
  next
    case False
    then have "m \<noteq> 0" "0 < y" using ord(2,3) by auto
    then show ?thesis using v by (cases sa; simp add: sum_sign_def sg s_def)
  qed
  moreover have "add_sf a b rm fl = normalize_sf s (ea' + int (RND_SIZE TYPE('f)) - 3) m rm fl"
  proof -
    have nl: "\<not> a AND NOT SIGN_MASK < b AND NOT SIGN_MASK" using le by (simp add: not_less)
    have xa': "(if ea = 0 then (1, push_bit 3 ma) else (ea, push_bit 3 ma OR push_bit (MANT_SIZE TYPE('f) + 3) 1)) = (ea', ma')"
      and xb': "(if eb = 0 then (1, push_bit 3 mb) else (eb, push_bit 3 mb OR push_bit (MANT_SIZE TYPE('f) + 3) 1)) = (eb', mb')"
      using xa xb by (simp_all only: extended_def)
    have pair: "(if sa = sb then (sa, ma' + rshift_rnd mb' (ea' - eb'))
        else (if ma' - rshift_rnd mb' (ea' - eb') = 0 then rm = RM_RDN else sa, ma' - rshift_rnd mb' (ea' - eb'))) = (s, m)"
      by (simp add: s_def m_def)
    show ?thesis
      by (simp only: add_sf_def Let_def nl ne if_False prod.case ua ub xa' xb' pair)
  qed
  ultimately show ?thesis using ord(1) [of s fl] ab by simp
qed

lemma add_sf_correct:
  fixes a b :: "'f::len word"
  assumes fmt: "sf_format TYPE('f)" and rm: "rm \<le> RM_RMM" and fin: "finite_sf a" "finite_sf b"
  shows "add_sf a b rm fl = round_sf rm (sum_sign rm a b) \<bar>sf_value a + sf_value b\<bar> fl"
proof (cases "a AND NOT SIGN_MASK < b AND NOT SIGN_MASK")
  case False
  then show ?thesis using assms by (intro add_sf_ordered) simp_all
next
  case True
  then have "\<not> b AND NOT SIGN_MASK < a AND NOT SIGN_MASK" by simp
  then have "add_sf a b rm fl = add_sf b a rm fl" by (simp only: add_sf_def True if_True if_False)
  also have "\<dots> = round_sf rm (sum_sign rm b a) \<bar>sf_value b + sf_value a\<bar> fl"
    using True assms by (intro add_sf_ordered) simp_all
  also have "sum_sign rm b a = sum_sign rm a b" by (auto simp: sum_sign_def add.commute)
  finally show ?thesis by (simp add: add.commute)
qed

lemma unpack_negated:
  fixes b :: "'f::len word"
  assumes "sf_format TYPE('f)"
  shows "unpack_sf (b XOR SIGN_MASK) = (\<not> fst (unpack_sf b), snd (unpack_sf b))"
proof -
  note ff = format_facts [OF assms]
  have "word_of_int (EXP_MASK TYPE('f)) = (push_bit (EXP_SIZE TYPE('f)) 1 - 1 :: 'f word)"
    by (simp add: EXP_MASK_def push_bit_eq_mult)
  then have em: "w AND word_of_int (EXP_MASK TYPE('f)) = take_bit (EXP_SIZE TYPE('f)) w" for w :: "'f word"
    by (simp add: push_bit_eq_mult take_bit_eq_mask mask_eq_exp_minus_1)
  have s: "SIGN_MASK = push_bit (LENGTH('f) - 1) (1 :: 'f word)" by (simp add: SIGN_MASK_def)
  have "bit (b XOR SIGN_MASK) (LENGTH('f) - 1) = (\<not> bit b (LENGTH('f) - 1))"
    unfolding s by (simp only: bit_simps) simp
  moreover have "take_bit (EXP_SIZE TYPE('f)) (drop_bit (MANT_SIZE TYPE('f)) (b XOR SIGN_MASK)) =
      take_bit (EXP_SIZE TYPE('f)) (drop_bit (MANT_SIZE TYPE('f)) b)"
    unfolding s by (rule bit_eqI) (use ff(4) in \<open>auto simp: bit_simps simp del: push_bit_of_1\<close>)
  moreover have "(b XOR SIGN_MASK) AND MANT_MASK = b AND MANT_MASK"
    unfolding s MANT_MASK_mask by (rule bit_eqI) (use ff(4) in \<open>auto simp: bit_simps simp del: push_bit_of_1\<close>)
  ultimately show ?thesis by (simp only: unpack_sf_def em fst_conv snd_conv)
qed

lemma negated_value:
  fixes b :: "'f::len word"
  assumes "sf_format TYPE('f)"
  shows "sf_value (b XOR SIGN_MASK) = - sf_value b" "finite_sf (b XOR SIGN_MASK) \<longleftrightarrow> finite_sf b"
    "sf_sign (b XOR SIGN_MASK) \<longleftrightarrow> \<not> sf_sign b"
proof -
  note u = unpack_negated [OF assms, of b]
  obtain s e m where ub: "unpack_sf b = (s, e, m)" by (metis prod_cases3)
  show sg: "sf_sign (b XOR SIGN_MASK) \<longleftrightarrow> \<not> sf_sign b"
    using u ub unpack_bounds(4) [OF assms] by (metis fst_conv snd_conv)
  show "sf_value (b XOR SIGN_MASK) = - sf_value b" "finite_sf (b XOR SIGN_MASK) \<longleftrightarrow> finite_sf b"
    using u ub sg by (simp_all add: sf_value_def sf_mag_def finite_sf_def)
qed

end
