(* ===== verification/FloatDiv.thy ===== *)
theory FloatDiv
  imports FloatAdd
begin

unbundle bit_operations_syntax

section \<open>Division and square root round correctly\<close>

text \<open>
  The long division of the template gives the exact quotient and remainder, and the Newton
  iteration ends at the integer square root; the remainder and the inexactness become the sticky bit.
\<close>

subsection \<open>Division of a double word\<close>

lemma divrem_loop_spec:
  fixes a1 a0 b :: "'f::len word"
  assumes "uint a1 < uint b" and "n \<le> LENGTH('f)" and "divrem_loop n a1 a0 b = (q, r)"
  shows "uint r = (uint a1 * 2 ^ n + uint a0 div 2 ^ (LENGTH('f) - n)) mod uint b \<and>
    uint q = uint a0 mod 2 ^ (LENGTH('f) - n) * 2 ^ n + (uint a1 * 2 ^ n + uint a0 div 2 ^ (LENGTH('f) - n)) div uint b"
  using assms
proof (induction n arbitrary: a1 a0 q r)
  case 0
  have "uint a0 < 2 ^ LENGTH('f)" by (rule uint_lt2p)
  then show ?case using 0 by (auto simp: mod_pos_pos_trivial div_pos_pos_trivial)
next
  case (Suc n)
  let ?F = "LENGTH('f)"
  note pr = Suc.prems
  have F: "Suc (?F - Suc n) = ?F - n" using pr(2) by simp
  define Q where "Q = (2 :: int) ^ (?F - Suc n)"
  define H where "H = (2 :: int) ^ (?F - 1)"
  have pows: "(2 :: int) ^ (?F - n) = 2 * Q" "(2 :: int) ^ ?F = 2 * H" "0 < Q" "0 < H" "H = Q * 2 ^ n"
  proof -
    show "(2 :: int) ^ (?F - n) = 2 * Q" by (simp add: Q_def flip: F)
    show "(2 :: int) ^ ?F = 2 * H" by (simp add: H_def flip: power_Suc)
    show "0 < Q" "0 < H" by (simp_all add: Q_def H_def)
    have "?F - 1 = ?F - Suc n + n" using pr(2) by simp
    then show "H = Q * 2 ^ n" by (simp only: Q_def H_def power_add)
  qed
  define t where "t = uint a0 div H"
  have a0: "uint a0 < 2 * H" "uint a1 < 2 * H" "uint b < 2 * H" using uint_lt2p [of a0] uint_lt2p [of a1] uint_lt2p [of b] by (simp_all add: pows(2))
  then have t: "0 \<le> t" "t \<le> 1" "uint a0 = t * H + uint a0 mod H"
    using div_less_int [of H "uint a0" 2] pows(4) by (simp_all add: t_def pos_imp_zdiv_nonneg_iff)
  define v where "v = 2 * uint a1 + t"
  have v: "0 \<le> v" "v < 2 * uint b" using pr(1) t(1,2) by (simp_all add: v_def)
  define ab where "ab = bit a1 (?F - 1)"
  have ab: "ab \<longleftrightarrow> H \<le> uint a1"
  proof -
    have "ab \<longleftrightarrow> bit (uint a1) (?F - 1)" by (simp add: ab_def bit_uint_iff)
    then have "ab \<longleftrightarrow> odd (uint a1 div H)" by (simp only: bit_iff_odd H_def)
    moreover have "uint a1 div H < 2" "0 \<le> uint a1 div H"
      using div_less_int [of H "uint a1" 2] a0(2) pows(4) by (simp_all add: pos_imp_zdiv_nonneg_iff)
    moreover have "H \<le> uint a1 \<longleftrightarrow> 1 \<le> uint a1 div H"
      using div_less_int [of H "uint a1" 1] pows(4) by linarith
    moreover have "odd k \<longleftrightarrow> 1 \<le> k" if "0 \<le> k" "k < 2" for k :: int using that by presburger
    ultimately show ?thesis by simp
  qed
  define w where "w = push_bit 1 a1 OR drop_bit (?F - 1) a0"
  have w: "uint w = v mod (2 * H)"
  proof -
    have d: "uint (drop_bit (?F - 1) a0) = t" by (simp only: uint_drop t_def H_def)
    have "bit (push_bit 1 a1) 0 = False" by (simp only: bit_simps) simp
    have "push_bit 1 a1 AND drop_bit (?F - 1) a0 = 0"
      by (rule bit_eqI) (simp only: bit_simps, auto dest: bit_imp_le_length)
    then have "w = push_bit 1 a1 + drop_bit (?F - 1) a0" by (simp only: w_def disjunctive_add_eq_or)
    moreover have "push_bit 1 a1 = a1 * 2" by simp
    ultimately have "w = a1 * 2 + drop_bit (?F - 1) a0" by simp
    then have "uint w = ((uint a1 * 2) mod 2 ^ ?F + t) mod 2 ^ ?F"
      using d by (simp only: uint_word_ariths) simp
    then show ?thesis unfolding mod_add_left_eq pows(2) v_def by (simp only: mult.commute [of "uint a1" 2])
  qed
  define qb where "qb = (ab \<or> w \<ge> b)"
  have qb: "qb \<longleftrightarrow> uint b \<le> v"
  proof (cases ab)
    case True
    then have "uint b \<le> v" using ab a0 t by (simp add: v_def)
    then show ?thesis using True by (simp add: qb_def)
  next
    case False
    then have "v < 2 * H" using ab t by (simp add: v_def)
    then show ?thesis using False w v(1) by (simp add: qb_def word_le_def)
  qed
  define a1' where "a1' = (if qb then w - b else w)"
  have a1': "uint a1' = v - (if qb then uint b else 0)"
  proof (cases qb)
    case True
    then have "uint a1' = (v mod (2 * H) - uint b) mod (2 * H)" by (simp add: a1'_def uint_word_ariths w pows(2))
    also have "\<dots> = (v - uint b) mod (2 * H)" by (simp add: mod_simps)
    also have "\<dots> = v - uint b" using True qb v a0(3) by (intro mod_pos_pos_trivial) auto
    finally show ?thesis using True by simp
  next
    case False
    then have "v < 2 * H" using qb a0(3) by simp
    then show ?thesis using False w v(1) by (simp add: a1'_def)
  qed
  have less: "uint a1' < uint b" using a1' v qb by auto
  define a0' where "a0' = push_bit 1 a0 OR of_bool qb"
  have a0': "uint a0' = 2 * (uint a0 mod H) + of_bool qb"
  proof -
    have "push_bit 1 a0 AND of_bool qb = 0" by (rule bit_eqI) (simp only: bit_simps, auto dest: bit_imp_le_length)
    then have "a0' = push_bit 1 a0 + of_bool qb" by (simp only: a0'_def disjunctive_add_eq_or)
    moreover have "push_bit 1 a0 = a0 + a0" by (simp add: mult_2_right)
    ultimately have "a0' = a0 + a0 + of_bool qb" by simp
    then have "uint a0' = (uint a0 + uint a0 + of_bool qb) mod (2 * H)"
      by (simp only: uint_word_ariths mod_add_left_eq pows(2)) simp
    then have "uint a0' = (uint a0 * 2 + of_bool qb) mod (2 * H)" by (simp only: mult_2_right)
    also have "\<dots> = (2 * (uint a0 mod H) + of_bool qb) mod (2 * H)"
    proof -
      have "uint a0 * 2 + of_bool qb = 2 * (uint a0 mod H) + of_bool qb + t * (2 * H)"
        using t(3) by (simp add: algebra_simps)
      then show ?thesis by (simp only: mod_mult_self1)
    qed
    also have "\<dots> = 2 * (uint a0 mod H) + of_bool qb"
    proof (intro mod_pos_pos_trivial)
      have "uint a0 mod H < H" "0 \<le> uint a0 mod H" using pows(4) by simp_all
      then show "0 \<le> 2 * (uint a0 mod H) + of_bool qb" "2 * (uint a0 mod H) + of_bool qb < 2 * H" by (auto simp: of_bool_def)
    qed
    finally show ?thesis .
  qed
  have loop: "divrem_loop n a1' a0' b = (q, r)"
    using pr(3) by (simp only: divrem_loop.simps Let_def a1'_def a0'_def qb_def w_def ab_def)
  have dm: "uint a0' div (2 * Q) = uint a0 mod H div Q" "uint a0' mod (2 * Q) = 2 * (uint a0 mod Q) + of_bool qb"
  proof -
    define c :: int where "c = of_bool qb"
    have c: "0 \<le> c" "c \<le> 1" by (simp_all add: c_def)
    have m: "uint a0 mod H mod Q = uint a0 mod Q" unfolding pows(5) by (simp add: mod_mod_cancel)
    have m2: "2 * (x mod Q) + c < 2 * Q" "0 \<le> 2 * (x mod Q) + c" for x :: int
      using pows(3) c pos_mod_bound [of Q x] pos_mod_sign [of Q x] by linarith+
    have "uint a0' = (uint a0 mod H div Q) * (2 * Q) + (2 * (uint a0 mod Q) + c)"
      using div_mult_mod_eq [of "uint a0 mod H" Q] by (simp add: a0' m c_def algebra_simps)
    then show "uint a0' div (2 * Q) = uint a0 mod H div Q" "uint a0' mod (2 * Q) = 2 * (uint a0 mod Q) + of_bool qb"
      using m2 [of "uint a0"] pows(3) by (simp_all add: div_pos_pos_trivial mod_pos_pos_trivial c_def)
  qed
  have top: "uint a0 div Q = t * 2 ^ n + uint a0 mod H div Q"
  proof -
    have "uint a0 = uint a0 mod H + (t * 2 ^ n) * Q" using t(3) by (simp add: pows(5) algebra_simps)
    then have "uint a0 div Q = (uint a0 mod H + (t * 2 ^ n) * Q) div Q" by simp
    then show ?thesis using pows(3) by simp
  qed
  have val: "uint a1 * 2 ^ Suc n + uint a0 div Q = (if qb then 2 ^ n else 0) * uint b + (uint a1' * 2 ^ n + uint a0' div (2 * Q))"
    unfolding top dm a1' v_def by (simp add: algebra_simps)
  have b: "0 < uint b" using less uint_nonnegative [of a1'] by linarith
  have ih: "uint r = (uint a1' * 2 ^ n + uint a0' div (2 * Q)) mod uint b"
    "uint q = uint a0' mod (2 * Q) * 2 ^ n + (uint a1' * 2 ^ n + uint a0' div (2 * Q)) div uint b"
    using Suc.IH [OF less _ loop] pr(2) by (simp_all only: pows(1))
  have "uint r = (uint a1 * 2 ^ Suc n + uint a0 div Q) mod uint b"
    unfolding val ih(1) by simp
  moreover have "uint q = uint a0 mod Q * 2 ^ Suc n + (uint a1 * 2 ^ Suc n + uint a0 div Q) div uint b"
  proof -
    define X where "X = uint a1' * 2 ^ n + uint a0' div (2 * Q)"
    have "((if qb then 2 ^ n else 0) * uint b + X) div uint b = (if qb then 2 ^ n else 0) + X div uint b"
      using b by (intro div_mult_self3) simp
    then show ?thesis
      unfolding val ih(2) dm(2) X_def [symmetric] by (simp add: algebra_simps)
  qed
  ultimately show ?case by (simp only: Q_def simp_thms)
qed

lemma divrem_u_spec:
  fixes a1 a0 b :: "'f::len word"
  assumes "sf_format TYPE('f)" and "uint a1 < uint b" and "divrem_u a1 a0 b = (q, r)"
  shows "uint q = (uint a1 * 2 ^ LENGTH('f) + uint a0) div uint b" "uint r = (uint a1 * 2 ^ LENGTH('f) + uint a0) mod uint b"
proof -
  let ?N = "uint a1 * 2 ^ LENGTH('f) + uint a0"
  have "uint q = ?N div uint b \<and> uint r = ?N mod uint b"
  proof (cases "LENGTH('f) = 32")
    case False
    then have "divrem_loop LENGTH('f) a1 a0 b = (q, r)" using assms(3) by (simp add: divrem_u_def)
    then show ?thesis using divrem_loop_spec [OF assms(2) order.refl] by simp
  next
    case True
    let ?n = "unat a1 * 2 ^ LENGTH('f) + unat a0"
    have b: "0 < uint b" using assms(2) uint_nonnegative [of a1] by linarith
    have N: "int ?n = ?N" by (simp only: uint_nat of_nat_add of_nat_mult of_nat_power of_nat_numeral)
    have "(uint a1 + 1) * 2 ^ LENGTH('f) \<le> uint b * 2 ^ LENGTH('f)" using assms(2) by (intro mult_right_mono) auto
    moreover have "(uint a1 + 1) * 2 ^ LENGTH('f) = uint a1 * 2 ^ LENGTH('f) + 2 ^ LENGTH('f)" by (simp only: distrib_right mult_1)
    ultimately have "?N < uint b * 2 ^ LENGTH('f)" using uint_lt2p [of a0] by linarith
    also have "\<dots> = 2 ^ LENGTH('f) * uint b" by (rule mult.commute)
    finally have "?N < 2 ^ LENGTH('f) * uint b" .
    then have "?N div uint b < 2 ^ LENGTH('f)" using b by (simp only: div_less_int)
    moreover have "int (?n div unat b) = ?N div uint b" "int (?n mod unat b) = ?N mod uint b"
      by (simp_all only: of_nat_div of_nat_mod N uint_nat)
    moreover have "?N mod uint b < 2 ^ LENGTH('f)" using pos_mod_bound [OF b, of ?N] uint_lt2p [of b] by linarith
    moreover have "q = word_of_nat (?n div unat b)" "r = word_of_nat (?n mod unat b)"
      using assms(3) unfolding divrem_u_def divrem_u_long_def Let_def if_P [OF True] by (simp_all only: prod.inject)
    moreover have "uint (word_of_nat k :: 'f word) = int k" if "int k < 2 ^ LENGTH('f)" for k
    proof -
      have "k < 2 ^ LENGTH('f)" using that by (metis of_nat_less_iff of_nat_numeral of_nat_power)
      then show ?thesis by (simp only: uint_nat unat_of_nat mod_less)
    qed
    ultimately show ?thesis by (simp only: simp_thms)
  qed
  then show "uint q = ?N div uint b" "uint r = ?N mod uint b" by simp_all
qed

lemma sticky_rest:
  fixes q r :: "'f::len word"
  assumes "0 < D" and "uint q = N div D" and "uint r = N mod D"
  shows "uint (if r \<noteq> 0 then q OR 1 else q) = sticky (of_int N / of_int D)"
proof -
  have "r \<noteq> 0 \<longleftrightarrow> N mod D \<noteq> 0" using assms(3) by (metis uint_0_iff)
  then show ?thesis by (simp add: sticky_div [OF assms(1)] assms(2) unsigned_or_eq)
qed

subsection \<open>The quotient\<close>

lemma div_sf_correct:
  fixes a b :: "'f::len word"
  assumes fmt: "sf_format TYPE('f)" and rm: "rm \<le> RM_RMM" and fin: "finite_sf a" "finite_sf b" and nz: "sf_mag b \<noteq> 0"
  shows "div_sf a b rm fl = round_sf rm (sf_sign a \<noteq> sf_sign b) (sf_mag a / sf_mag b) fl"
proof -
  note ff = format_facts [OF fmt]
  define M where "M = MANT_SIZE TYPE('f)"
  obtain sa ea ma where ua: "unpack_sf a = (sa, ea, ma)" by (metis prod_cases3)
  obtain sb eb mb where ub: "unpack_sf b = (sb, eb, mb)" by (metis prod_cases3)
  have sg: "sa = sf_sign a" "sb = sf_sign b" using unpack_bounds(4) [OF fmt] ua ub by auto
  have ne: "ea \<noteq> EXP_MASK TYPE('f)" "eb \<noteq> EXP_MASK TYPE('f)" using fin ua ub by (simp_all add: finite_sf_def)
  have nzb: "\<not> (eb = 0 \<and> mb = 0)" using nz sf_mag_zero ub by blast
  show ?thesis
  proof (cases "ea = 0 \<and> ma = 0")
    case True
    then have "sf_mag a = 0" using sf_mag_zero ua by blast
    then show ?thesis using True ua ub ne nzb by (auto simp: div_sf_def Let_def sg round_sf_def)
  next
    case False
    obtain ea' ma' where a: "with_leading_bit ea ma = (ea', ma')" "2 ^ M \<le> uint ma'" "uint ma' < 2 ^ (M + 1)"
      "sf_mag a = of_int (uint ma') * 2 powi (ea' - bias TYPE('f) - int M)"
      using with_leading_bit_spec [OF fmt ua False] unfolding M_def by blast
    obtain eb' mb' where b: "with_leading_bit eb mb = (eb', mb')" "2 ^ M \<le> uint mb'" "uint mb' < 2 ^ (M + 1)"
      "sf_mag b = of_int (uint mb') * 2 powi (eb' - bias TYPE('f) - int M)"
      using with_leading_bit_spec [OF fmt ub nzb] unfolding M_def by blast
    obtain q r where qr: "divrem_u ma' 0 (push_bit 2 mb') = (q, r)" by fastforce
    have pM: "(0 :: int) < 2 ^ M" "(2 :: int) ^ (M + 1) = 2 * 2 ^ M" by simp_all
    have "(2 :: int) ^ (M + 3) \<le> 2 ^ LENGTH('f)" using ff(1,2) by (intro power_increasing) (auto simp: M_def)
    then have "8 * 2 ^ M \<le> (2 :: int) ^ LENGTH('f)" by (simp add: power_add)
    then have ub2: "uint (push_bit 2 mb') = uint mb' * 4" using b(3) pM uint_push [of mb' 2] by simp
    have lt: "uint ma' < uint (push_bit 2 mb')" using a(3) b(2) pM unfolding ub2 by linarith
    define N D where "N = uint ma' * 2 ^ LENGTH('f)" and "D = uint mb' * 4"
    have D: "0 < D" using b(2) pM(1) unfolding D_def by linarith
    have "uint q = N div D" "uint r = N mod D"
      using divrem_u_spec [OF fmt lt qr] by (simp_all add: N_def D_def ub2)
    from sticky_rest [OF D this] have st: "uint (if r \<noteq> 0 then q OR 1 else q) = sticky (of_int N / of_int D)" .
    define A B where "A = (of_int (uint ma') :: real)" and "B = (of_int (uint mb') :: real)"
    have "of_int (2 ^ M) \<le> A" "A < of_int (2 ^ (M + 1))" "of_int (2 ^ M) \<le> B" "B < of_int (2 ^ (M + 1))"
      unfolding A_def B_def of_int_le_iff of_int_less_iff using a b by blast+
    then have AB: "2 ^ M \<le> A" "A < 2 * 2 ^ M" "2 ^ M \<le> B" "B < 2 * 2 ^ M" "0 < (2 :: real) ^ M" by simp_all
    have F: "(2 :: real) ^ LENGTH('f) = 8 * 2 ^ (LENGTH('f) - 3)" "(2 :: real) ^ LENGTH('f) = 2 * 2 ^ (LENGTH('f) - 1)"
      using ff(1,2) power_add [of "2 :: real" 3 "LENGTH('f) - 3"] power_add [of "2 :: real" 1 "LENGTH('f) - 1"] by simp_all
    have yd: "of_int N / of_int D = A * 2 ^ LENGTH('f) / (B * 4)" by (simp add: N_def D_def A_def B_def)
    have y: "2 ^ (LENGTH('f) - 3) \<le> of_int N / (of_int D :: real)" "of_int N / (of_int D :: real) < 2 ^ (LENGTH('f) - 1)"
    proof -
      have B: "0 < B" using AB by linarith
      have "B * 4 * 2 ^ (LENGTH('f) - 3) \<le> A * 8 * 2 ^ (LENGTH('f) - 3)" using AB by (intro mult_right_mono) auto
      then show "2 ^ (LENGTH('f) - 3) \<le> of_int N / (of_int D :: real)"
        unfolding yd using B by (simp add: F(1) field_simps)
      have "A * 2 * 2 ^ (LENGTH('f) - 1) < B * 4 * 2 ^ (LENGTH('f) - 1)" using AB by (intro mult_strict_right_mono) auto
      then show "of_int N / (of_int D :: real) < 2 ^ (LENGTH('f) - 1)"
        unfolding yd using B by (simp add: F(2) field_simps)
    qed
    define e where "e = ea' - eb' + 2 ^ (EXP_SIZE TYPE('f) - 1) - 1"
    have e: "e = ea' - eb' + bias TYPE('f)" using ff(7) by (simp add: e_def)
    have "of_int N / of_int D * 2 powi (e - bias TYPE('f) - int (IMANT_SIZE TYPE('f))) = sf_mag a / sf_mag b"
    proof -
      have "of_int N / of_int D * 2 powi (e - bias TYPE('f) - int (IMANT_SIZE TYPE('f))) =
          A / B * (2 ^ LENGTH('f) / 2 ^ 2 * 2 powi (e - bias TYPE('f) - int (IMANT_SIZE TYPE('f))))"
        by (simp add: yd)
      also have "(2 :: real) ^ LENGTH('f) / 2 ^ 2 * 2 powi (e - bias TYPE('f) - int (IMANT_SIZE TYPE('f))) =
          2 powi (ea' - bias TYPE('f) - int M) / 2 powi (eb' - bias TYPE('f) - int M)"
        unfolding powi2 e ff(8) ff(1) M_def by (rule arg_cong [where f = "power_int 2"]) simp
      finally show ?thesis by (simp add: a(4) b(4) A_def B_def)
    qed
    then have "normalize_sf (sa \<noteq> sb) e (if r \<noteq> 0 then q OR 1 else q) rm fl = round_sf rm (sa \<noteq> sb) (sf_mag a / sf_mag b) fl"
      using normalize_sticky [OF fmt rm st y] by simp
    moreover have "div_sf a b rm fl = normalize_sf (sa \<noteq> sb) e (if r \<noteq> 0 then q OR 1 else q) rm fl"
      unfolding div_sf_def Let_def ua ub prod.case using ne nzb False
      by (simp only: a(1) b(1) prod.case qr e_def [symmetric] simp_thms if_False)
    ultimately show ?thesis by (simp only: sg)
  qed
qed

end
