(* ===== verification/FloatSqrt.thy ===== *)
theory FloatSqrt
  imports FloatDiv
begin

unbundle bit_operations_syntax

section \<open>The square root rounds correctly\<close>

text \<open>
  The Newton iteration starts above the root and descends; it ends at the integer square root. In
  the 64-bit format its divisions are on double words and nothing overflows.
\<close>

subsection \<open>Newton's iteration\<close>

lemma newton_step:
  fixes a s :: nat
  assumes "0 < s"
  shows "a < ((a div s + s) div 2 + 1) * ((a div s + s) div 2 + 1)"
proof -
  define q u where "q = a div s" and "u = (a div s + s) div 2"
  have "a < (q + 1) * s" using assms by (simp add: q_def dividend_less_div_times add.commute)
  moreover have "4 * ((q + 1) * s) \<le> (q + 1 + s) * (q + 1 + s)"
  proof -
    have "int 4 * (int (q + 1) * int s) \<le> int (q + 1 + s) * int (q + 1 + s)"
      using zero_le_square [of "int (q + 1) - int s"] by (simp add: algebra_simps)
    then show ?thesis by (simp only: of_nat_mult [symmetric] of_nat_le_iff)
  qed
  moreover have "q + 1 + s \<le> 2 * (u + 1)" by (simp add: u_def q_def)
  then have "(q + 1 + s) * (q + 1 + s) \<le> 2 * (u + 1) * (2 * (u + 1))" by (intro mult_mono) auto
  ultimately have "4 * a < 4 * ((u + 1) * (u + 1))" by simp
  then show ?thesis by (simp add: u_def)
qed

lemma newton_long_spec:
  assumes "0 < a" and "a < (s + 1) * (s + 1)" and "0 < s"
  shows "newton_long a s * newton_long a s \<le> a \<and> a < (newton_long a s + 1) * (newton_long a s + 1)"
  using assms
proof (induction a s rule: newton_long.induct)
  case (1 a s)
  let ?u = "(a div s + s) div 2"
  show ?case
  proof (cases "?u \<ge> s")
    case True
    then have "s \<le> a div s" by simp
    then have "s * s \<le> a div s * s" by (intro mult_right_mono) auto
    also have "\<dots> \<le> a" by simp
    finally show ?thesis using 1 True by (simp add: newton_long.simps [of a s] Let_def)
  next
    case False
    have "0 < ?u"
    proof (rule ccontr)
      assume "\<not> 0 < ?u"
      then have "a < 1" using newton_step [OF 1(4), of a] by simp
      then show False using 1(2) by simp
    qed
    then show ?thesis
      using 1(1) [OF refl False 1(2) newton_step [OF 1(4)]] False by (simp add: newton_long.simps [of a s] Let_def)
  qed
qed

text \<open>The iteration on words does the same.\<close>

lemma newton_word:
  fixes a1 s :: "'f::len word"
  assumes fmt: "sf_format TYPE('f)" and "0 < unat a1" and "4 * unat a1 < 2 ^ LENGTH('f)"
    and "unat a1 * 2 ^ LENGTH('f) < (unat s + 1) * (unat s + 1)" and "unat a1 < unat s" and "2 * unat s \<le> 2 ^ LENGTH('f)"
    and "LENGTH('f) = 64"
  shows "unat (newton a1 0 s) = newton_long (unat a1 * 2 ^ LENGTH('f)) (unat s)"
  using assms
proof (induction "unat s" arbitrary: s rule: less_induct)
  case less
  let ?L = "2 ^ LENGTH('f) :: nat" and ?a = "unat a1 * 2 ^ LENGTH('f)"
  note pr = less.prems(2-7) [folded One_nat_def]
  define P where "P = (2 :: nat) ^ 63"
  have LP: "?L = 2 * P" "P = 2 ^ 63" using pr(6) by (simp_all add: P_def)
  obtain q r where qr: "divrem_u a1 0 s = (q, r)" by fastforce
  have "uint a1 < uint s" using pr(4) by (simp only: uint_nat of_nat_less_iff)
  from divrem_u_spec(1) [OF fmt this qr] have "uint q = uint a1 * 2 ^ LENGTH('f) div uint s" by simp
  then have "int (unat q) = int (?a div unat s)"
    by (simp only: uint_nat of_nat_div of_nat_mult of_nat_power of_nat_numeral)
  then have q: "unat q = ?a div unat s" by (simp only: of_nat_eq_iff)
  have s: "0 < unat s" using pr(4) by simp
  have sum: "unat q + unat s < ?L"
  proof (rule ccontr)
    assume "\<not> unat q + unat s < ?L"
    then have big: "2 * P \<le> unat q + unat s" by (simp add: LP)
    have "unat q * unat s \<le> ?a" unfolding q by simp
    moreover have "?a < (unat s + 1) * (unat s + 1)" by (rule pr(3))
    ultimately have "unat q * unat s < unat s * unat s + 2 * unat s + 1" by simp
    then have "unat q * unat s < (unat s + 3) * unat s" using s by (simp add: algebra_simps)
    then have "unat q < unat s + 3" using s by simp
    moreover have sP: "unat s \<le> P" using pr(5) LP by simp
    ultimately have near: "P \<le> unat s + 1" using big by linarith
    define t where "t = P - unat s"
    have t: "unat s + t = P" "t \<le> 1" using sP near by (simp_all add: t_def)
    have "P + t \<le> unat q" using big t by linarith
    then have "(P + t) * unat s \<le> unat q * unat s" by (intro mult_right_mono) auto
    also have "\<dots> \<le> ?a" unfolding q by simp
    finally have low: "(P + t) * unat s \<le> ?a" .
    have "4 * unat a1 < 2 * P" using pr(2) LP by simp
    then have "2 * unat a1 + 1 \<le> P" by (simp add: P_def)
    then have "(2 * unat a1 + 1) * P \<le> P * P" by (intro mult_right_mono) auto
    then have "?a + P \<le> P * P" by (simp add: LP(1) algebra_simps)
    moreover have "P * P \<le> (P + t) * unat s + 1"
    proof -
      have "t = 0 \<or> t = 1" using t(2) by arith
      then show ?thesis using t(1) by (auto simp: algebra_simps)
    qed
    ultimately show False using low by (simp add: P_def)
  qed
  define u where "u = (q + s) div 2"
  have u: "unat u = (?a div unat s + unat s) div 2"
  proof -
    have "unat (q + s) = ?a div unat s + unat s" using sum unat_add_lem [of q s] q by (simp only:)
    moreover have "unat (2 :: 'f word) = 2" using pr(6) by simp
    ultimately show ?thesis by (simp only: u_def unat_div)
  qed
  have step: "newton a1 0 s = (if u \<ge> s then s else newton a1 0 u)"
    by (subst newton.simps) (simp add: Let_def qr u_def)
  have long: "newton_long ?a (unat s) = (if unat u \<ge> unat s then unat s else newton_long ?a (unat u))"
    by (subst newton_long.simps) (simp add: Let_def u)
  show ?case
  proof (cases "u \<ge> s")
    case True
    then show ?thesis using step long by (simp add: word_le_nat_alt)
  next
    case False
    then have us: "unat u < unat s" by (simp add: word_le_nat_alt)
    have a': "?a < (unat u + 1) * (unat u + 1)" unfolding u by (rule newton_step [OF s])
    have "unat a1 < unat u"
    proof (rule ccontr)
      assume "\<not> unat a1 < unat u"
      then have "(unat u + 1) * (unat u + 1) \<le> (unat a1 + 1) * (unat a1 + 1)" by (intro mult_mono) auto
      also have "\<dots> \<le> (unat a1 + 1) * P" using pr(2) LP by (intro mult_left_mono) auto
      also have "\<dots> \<le> ?a"
      proof -
        have "(unat a1 + 1) * P \<le> (2 * unat a1) * P" using pr(1) by (intro mult_right_mono) auto
        then show ?thesis by (simp add: LP(1) algebra_simps)
      qed
      finally show False using a' by simp
    qed
    then have "unat (newton a1 0 u) = newton_long ?a (unat u)"
      using us a' pr by (intro less.hyps [OF us fmt]) auto
    then show ?thesis using step long False us by simp
  qed
qed

text \<open>The start value is at least the root.\<close>

lemma newton_start:
  fixes a1 :: "'f::len word"
  assumes "0 < unat a1" and "unat a1 < 2 ^ (LENGTH('f) - 2)" and "8 \<le> LENGTH('f)"
  defines "s \<equiv> (2 :: nat) ^ ((sqrt_log a1 0 + 1) div 2)"
  shows "unat a1 * 2 ^ LENGTH('f) \<le> s * s" "(sqrt_log a1 0 + 1) div 2 \<le> LENGTH('f) - 1"
proof -
  define b where "b = bit_length (unat (a1 - 1))"
  have a1: "a1 \<noteq> 0" "unat (a1 - 1) = unat a1 - 1"
    using assms(1) by (auto simp: unat_gt_0 unat_minus_one)
  have "unat a1 \<le> 2 ^ b \<and> b \<le> LENGTH('f) - 2"
  proof (cases "unat (a1 - 1) = 0")
    case True
    then show ?thesis using a1 by (simp add: b_def bit_length.simps [of 0])
  next
    case False
    then have l: "2 ^ (b - 1) \<le> unat (a1 - 1)" "unat (a1 - 1) < 2 ^ b" "0 < b"
      using bit_length_bounds [of "unat (a1 - 1)"] by (auto simp: b_def)
    have "(2 :: nat) ^ (b - 1) < 2 ^ (LENGTH('f) - 2)" using l(1) a1(2) assms(2) by linarith
    then have "b - 1 < LENGTH('f) - 2" by (simp only: power_strict_increasing_iff one_less_numeral_iff semiring_norm)
    then show ?thesis using l a1(2) by linarith
  qed
  then have b: "unat a1 \<le> 2 ^ b" "b \<le> LENGTH('f) - 2" by simp_all
  have log: "sqrt_log a1 0 = LENGTH('f) + b"
    using a1(1) b(2) assms(3) by (simp add: sqrt_log_def clz_def flip: b_def)
  have "unat a1 * 2 ^ LENGTH('f) \<le> 2 ^ b * 2 ^ LENGTH('f)" using b(1) by (intro mult_right_mono) auto
  also have "\<dots> = (2 :: nat) ^ (LENGTH('f) + b)" by (simp add: power_add)
  also have "\<dots> \<le> 2 ^ ((sqrt_log a1 0 + 1) div 2 + (sqrt_log a1 0 + 1) div 2)"
    unfolding log by (intro power_increasing) auto
  finally show "unat a1 * 2 ^ LENGTH('f) \<le> s * s" by (simp add: s_def power_add)
  show "(sqrt_log a1 0 + 1) div 2 \<le> LENGTH('f) - 1" unfolding log using b(2) assms(3) by linarith
qed

lemma unat_bound: "unat (w :: 'f::len word) < 2 ^ LENGTH('f)"
  by (rule unsigned_less)

lemma sqrtrem_u_spec:
  fixes a1 :: "'f::len word"
  assumes fmt: "sf_format TYPE('f)" and a1: "0 < unat a1" "unat a1 < 2 ^ (LENGTH('f) - 2)"
    and sq: "sqrtrem_u a1 0 = (inexact, r)"
  defines "N \<equiv> unat a1 * 2 ^ LENGTH('f)"
  shows "unat r * unat r \<le> N" "N < (unat r + 1) * (unat r + 1)" "inexact \<longleftrightarrow> N \<noteq> unat r * unat r"
proof -
  have L: "8 \<le> LENGTH('f)" using fmt by (auto simp: sf_format_def)
  define k where "k = (sqrt_log a1 0 + 1) div 2"
  define s where "s = (2 :: nat) ^ k"
  note st = newton_start [OF a1 L, folded k_def, folded s_def N_def]
  have N0: "0 < N" and s0: "0 < s" using a1(1) by (simp_all add: N_def s_def)
  have s1: "N < (s + 1) * (s + 1)" using st(1) by simp
  note root = newton_long_spec [OF N0 s1 s0]
  define t where "t = newton_long N s"
  obtain n where n: "LENGTH('f) = Suc (Suc n)" using L by (cases "LENGTH('f)"; cases "LENGTH('f) - 1") auto
  have four: "4 * 2 ^ (LENGTH('f) - 2) = (2 :: nat) ^ LENGTH('f)" unfolding n by simp
  have tL: "t < 2 ^ LENGTH('f)"
  proof (rule ccontr)
    assume "\<not> t < 2 ^ LENGTH('f)"
    then have "2 ^ LENGTH('f) * 2 ^ LENGTH('f) \<le> t * t" by (intro mult_mono) auto
    also have "\<dots> \<le> N" using root by (simp add: t_def)
    finally show False using unat_bound [of a1] by (simp add: N_def)
  qed
  have "unat r = t \<and> (inexact \<longleftrightarrow> N \<noteq> t * t)"
  proof (cases "LENGTH('f) = 32")
    case True
    have "inexact \<longleftrightarrow> N - t * t \<noteq> 0" "r = word_of_nat t"
      using sq a1(1) True by (auto simp: sqrtrem_u_def Let_def t_def N_def s_def k_def unat_gt_0)
    then show ?thesis using tL root by (auto simp: unat_of_nat t_def)
  next
    case False
    then have L64: "LENGTH('f) = 64" using fmt by (simp add: sf_format_def)
    define sw where "sw = push_bit k (1 :: 'f word)"
    have "k < LENGTH('f)" using st(2) L by linarith
    then have "uint sw = 2 ^ k" unfolding sw_def by (rule uint_push_1)
    then have "int (unat sw) = int s" by (simp only: uint_nat s_def of_nat_power of_nat_numeral)
    then have sw: "unat sw = s" by (simp only: of_nat_eq_iff)
    have "unat a1 < s"
    proof (rule ccontr)
      assume "\<not> unat a1 < s"
      then have "s * s \<le> unat a1 * unat a1" by (intro mult_mono) auto
      also have "\<dots> < N" unfolding N_def using a1 unat_bound [of a1] by (intro mult_strict_left_mono) auto
      finally show False using st(1) by simp
    qed
    moreover have "2 * s \<le> 2 ^ LENGTH('f)"
    proof -
      have "(2 :: nat) ^ Suc k \<le> 2 ^ LENGTH('f)" using \<open>k < LENGTH('f)\<close> by (intro power_increasing) auto
      then show ?thesis by (simp add: s_def)
    qed
    moreover have "4 * unat a1 < 2 ^ LENGTH('f)" using a1(2) four by linarith
    ultimately have nw: "unat (newton a1 0 sw) = t"
      using newton_word [OF fmt a1(1), of sw] s1 L64 by (simp add: sw t_def N_def)
    obtain sq1 sq0 where mu: "mul_u (newton a1 0 sw) (newton a1 0 sw) = (sq1, sq0)" by fastforce
    have "int (unat sq1 * 2 ^ LENGTH('f) + unat sq0) = int (t * t)"
      using mul_u_spec [OF fmt mu] nw by (simp only: uint_nat of_nat_mult of_nat_add of_nat_power of_nat_numeral)
    then have sqs: "unat sq1 * 2 ^ LENGTH('f) + unat sq0 = t * t" by (simp only: of_nat_eq_iff)
    have ri: "r = newton a1 0 sw" "inexact \<longleftrightarrow> sq0 \<noteq> 0 \<or> sq1 \<noteq> a1"
      using sq a1(1) False mu by (auto simp: sqrtrem_u_def Let_def unat_gt_0 sw_def k_def)
    have "N = t * t \<longleftrightarrow> sq0 = 0 \<and> sq1 = a1"
    proof
      assume "N = t * t"
      then have e: "unat sq1 * 2 ^ LENGTH('f) + unat sq0 = unat a1 * 2 ^ LENGTH('f)" using sqs by (simp only: N_def)
      have "unat sq0 = 0"
        using arg_cong [OF e, of "\<lambda>n. n mod 2 ^ LENGTH('f)"] unat_bound [of sq0]
        by (simp only: mod_mult_self3 mod_mult_self2_is_0 mod_less)
      moreover from this have "unat sq1 = unat a1" using e by simp
      ultimately show "sq0 = 0 \<and> sq1 = a1" by (simp only: unat_eq_zero word_unat_eq_iff simp_thms)
    next
      assume "sq0 = 0 \<and> sq1 = a1"
      then show "N = t * t" using sqs by (simp add: N_def)
    qed
    then show ?thesis using ri nw by auto
  qed
  then show "unat r * unat r \<le> N" "N < (unat r + 1) * (unat r + 1)" "inexact \<longleftrightarrow> N \<noteq> unat r * unat r"
    using root by (simp_all add: t_def)
qed

subsection \<open>The root\<close>

lemma sqrt_floor:
  assumes "r * r \<le> N" and "N < (r + 1) * (r + 1)"
  shows "\<lfloor>sqrt (real N)\<rfloor> = int r" and "of_int \<lfloor>sqrt (real N)\<rfloor> = sqrt (real N) \<longleftrightarrow> N = r * r"
proof -
  have N: "real r * real r \<le> real N" "real N < (real r + 1) * (real r + 1)"
  proof -
    show "real r * real r \<le> real N" using assms(1) by (simp only: of_nat_mult [symmetric] of_nat_le_iff)
    have "real N < real ((r + 1) * (r + 1))" using assms(2) by (simp only: of_nat_less_iff)
    then show "real N < (real r + 1) * (real r + 1)" by (simp only: of_nat_mult of_nat_add of_nat_1)
  qed
  have "real r \<le> sqrt (real N)" using N(1) by (intro real_le_rsqrt) (simp add: power2_eq_square)
  moreover have "sqrt (real N) < real r + 1" using N(2) by (intro real_less_lsqrt) (simp_all add: power2_eq_square)
  ultimately show fl: "\<lfloor>sqrt (real N)\<rfloor> = int r" by (simp add: floor_eq_iff)
  have "real r = sqrt (real N) \<longleftrightarrow> real r * real r = real N"
    using real_sqrt_unique [of "real r" "real N"] by (auto simp: power2_eq_square)
  also have "\<dots> \<longleftrightarrow> N = r * r" by (simp only: of_nat_mult [symmetric] of_nat_eq_iff eq_commute)
  finally show "of_int \<lfloor>sqrt (real N)\<rfloor> = sqrt (real N) \<longleftrightarrow> N = r * r" by (simp add: fl)
qed

lemma sticky_root:
  fixes r :: "'f::len word"
  assumes "unat r * unat r \<le> N" and "N < (unat r + 1) * (unat r + 1)"
  shows "uint (if N \<noteq> unat r * unat r then r OR 1 else r) = sticky (sqrt (real N))"
proof -
  have "int (unat r) = uint r" by (simp only: uint_nat)
  then show ?thesis
    using sqrt_floor [OF assms] by (auto simp: sticky_def unsigned_or_eq or_1_int)
qed

text \<open>The mantissa below an even exponent.\<close>

lemma even_exponent:
  fixes m :: "'f::len word"
  assumes fmt: "sf_format TYPE('f)" and m: "2 ^ MANT_SIZE TYPE('f) \<le> uint m" "uint m < 2 ^ (MANT_SIZE TYPE('f) + 1)"
  obtains e2 m2 where "(if odd e then (e - 1, push_bit 1 m) else (e, m)) = (2 * e2, m2)"
    "2 ^ MANT_SIZE TYPE('f) \<le> uint m2" "uint m2 < 4 * 2 ^ MANT_SIZE TYPE('f)"
    "of_int (uint m2) * 2 powi (2 * e2) = (of_int (uint m) * 2 powi e :: real)"
proof (cases "odd e")
  case False
  then obtain k where "e = 2 * k" by (auto elim: evenE)
  then show thesis using that [of k m] m by simp
next
  case True
  then obtain k where k: "e = 2 * k + 1" by (auto elim: oddE)
  note ff = format_facts [OF fmt]
  have "(2 :: int) ^ (MANT_SIZE TYPE('f) + 2) \<le> 2 ^ LENGTH('f)" using ff(1,2) by (intro power_increasing) auto
  then have p: "uint (push_bit 1 m) = uint m * 2" using m uint_push [of m 1] by simp
  show thesis
  proof (rule that [of k "push_bit 1 m"])
    show "of_int (uint (push_bit 1 m)) * 2 powi (2 * k) = (of_int (uint m) * 2 powi e :: real)"
      unfolding p k by (simp add: power_int_add)
  qed (use True k m p in simp_all)
qed

lemma sqrt_sf_correct:
  fixes a :: "'f::len word"
  assumes fmt: "sf_format TYPE('f)" and rm: "rm \<le> RM_RMM" and fin: "finite_sf a" and pos: "\<not> sf_sign a"
  shows "sqrt_sf a rm fl = round_sf rm False (sqrt (sf_mag a)) fl"
proof -
  note ff = format_facts [OF fmt]
  define M R where "M = MANT_SIZE TYPE('f)" and "R = LENGTH('f) - 4 - M"
  obtain s e m where u: "unpack_sf a = (s, e, m)" by (metis prod_cases3)
  have s: "s = False" using unpack_bounds(4) [OF fmt u] pos by simp
  have ne: "e \<noteq> EXP_MASK TYPE('f)" using fin u by (simp add: finite_sf_def)
  show ?thesis
  proof (cases "e = 0 \<and> m = 0")
    case True
    then have "sf_mag a = 0" using sf_mag_zero u by blast
    then show ?thesis using True u ne s by (simp add: sqrt_sf_def Let_def round_sf_def)
  next
    case False
    obtain e' m' where a: "with_leading_bit e m = (e', m')" "2 ^ M \<le> uint m'" "uint m' < 2 ^ (M + 1)"
      "sf_mag a = of_int (uint m') * 2 powi (e' - bias TYPE('f) - int M)"
      using with_leading_bit_spec [OF fmt u False] unfolding M_def by blast
    obtain e2 m2 where b: "(if odd (e' - bias TYPE('f)) then (e' - bias TYPE('f) - 1, push_bit 1 m') else (e' - bias TYPE('f), m')) = (2 * e2, m2)"
      "2 ^ M \<le> uint m2" "uint m2 < 4 * 2 ^ M"
      "of_int (uint m2) * 2 powi (2 * e2) = (of_int (uint m') * 2 powi (e' - bias TYPE('f)) :: real)"
      using even_exponent [OF fmt a(2,3) [unfolded M_def], of "e' - bias TYPE('f)"] unfolding M_def by blast
    have L: "LENGTH('f) = M + R + 4" using ff(1,2) by (simp add: R_def M_def)
    define a1 where "a1 = push_bit R m2"
    have "uint m2 * 2 ^ R < 4 * 2 ^ M * 2 ^ R" using b(3) by (intro mult_strict_right_mono) auto
    then have lt: "uint m2 * 2 ^ R < 2 ^ (LENGTH('f) - 2)" unfolding L by (simp add: power_add mult_ac)
    have "(2 :: int) ^ (LENGTH('f) - 2) \<le> 2 ^ LENGTH('f)" by (intro power_increasing) auto
    then have a1: "uint a1 = uint m2 * 2 ^ R" unfolding a1_def using lt by (intro uint_push) linarith
    have "2 ^ M * 2 ^ R \<le> uint a1" unfolding a1 using b(2) by (intro mult_right_mono) auto
    then have low: "2 ^ (M + R) \<le> uint a1" by (simp add: power_add)
    have na: "int (unat a1) = uint a1" by (simp only: uint_nat)
    have "int (unat a1) < int (2 ^ (LENGTH('f) - 2))" using lt by (simp add: na a1)
    then have n1: "unat a1 < 2 ^ (LENGTH('f) - 2)" by (simp only: of_nat_less_iff)
    have "(0 :: int) < 2 ^ (M + R)" by simp
    then have n0: "0 < unat a1" using low na by linarith
    obtain inexact r where sq: "sqrtrem_u a1 0 = (inexact, r)" by fastforce
    define N where "N = unat a1 * 2 ^ LENGTH('f)"
    note root = sqrtrem_u_spec [OF fmt n0 n1 sq, folded N_def]
    have st: "uint (if inexact then r OR 1 else r) = sticky (sqrt (real N))"
      using sticky_root [OF root(1,2)] root(3) by simp
    have N: "real N = of_int (uint m2) * 2 ^ R * 2 ^ LENGTH('f)"
    proof -
      have "real N = of_int (int (unat a1)) * 2 ^ LENGTH('f)" by (simp add: N_def)
      then show ?thesis by (simp only: na a1 of_int_mult of_int_power of_int_numeral)
    qed
    define P X where "P = (2 :: real) ^ (M + R)" and "X = (of_int (uint m2) * 2 ^ R :: real)"
    have L2: "(2 :: real) ^ LENGTH('f) = 16 * P" "(2 :: real) ^ (LENGTH('f) - 3) = 2 * P" "(2 :: real) ^ (LENGTH('f) - 1) = 8 * P" "0 < P"
    proof -
      have d: "LENGTH('f) = Suc (Suc (Suc (Suc (M + R))))" "LENGTH('f) - 3 = Suc (M + R)" "LENGTH('f) - 1 = Suc (Suc (Suc (M + R)))"
        using L by simp_all
      show "(2 :: real) ^ LENGTH('f) = 16 * P" "(2 :: real) ^ (LENGTH('f) - 3) = 2 * P"
        "(2 :: real) ^ (LENGTH('f) - 1) = 8 * P" "0 < P"
        unfolding d power_Suc P_def by simp_all
    qed
    have X: "P \<le> X" "X < 4 * P"
    proof -
      have "of_int (2 ^ M) \<le> (of_int (uint m2) :: real)" "of_int (uint m2) < (of_int (4 * 2 ^ M) :: real)"
        unfolding of_int_le_iff of_int_less_iff by (rule b)+
      then have "2 ^ M * 2 ^ R \<le> X" "X < 4 * 2 ^ M * 2 ^ R" unfolding X_def by simp_all
      then show "P \<le> X" "X < 4 * P" by (simp_all add: P_def power_add)
    qed
    have NX: "real N = X * (16 * P)" by (simp add: N X_def L2(1))
    have y: "2 ^ (LENGTH('f) - 3) \<le> sqrt (real N) \<and> sqrt (real N) < 2 ^ (LENGTH('f) - 1)"
    proof
      have "2 * P * (2 * P) \<le> X * (16 * P)" using X(1) L2(4) by (simp add: mult_mono)
      then show "2 ^ (LENGTH('f) - 3) \<le> sqrt (real N)"
        unfolding L2 NX by (intro real_le_rsqrt) (simp add: power2_eq_square)
      have "X * (16 * P) < 4 * P * (16 * P)" using X(2) L2(4) by (intro mult_strict_right_mono) auto
      then show "sqrt (real N) < 2 ^ (LENGTH('f) - 1)"
        unfolding L2 NX using L2(4) by (intro real_less_lsqrt) (simp_all add: power2_eq_square)
    qed
    define E where "E = e2 + bias TYPE('f)"
    have "sqrt (real N) * 2 powi (E - bias TYPE('f) - int (IMANT_SIZE TYPE('f))) = sqrt (sf_mag a)"
    proof -
      define k where "k = e2 - int (IMANT_SIZE TYPE('f))"
      have k: "E - bias TYPE('f) - int (IMANT_SIZE TYPE('f)) = k" by (simp add: E_def k_def)
      have "sqrt (real N) * 2 powi k = sqrt (real N * (2 powi k * 2 powi k))"
        by (simp add: real_sqrt_mult)
      also have "real N * (2 powi k * 2 powi k) = of_int (uint m2) * (2 ^ R * 2 ^ LENGTH('f) * (2 powi k * 2 powi k))"
        by (simp only: N mult.assoc)
      also have "2 ^ R * 2 ^ LENGTH('f) * (2 powi k * 2 powi k) = 2 powi (2 * e2) * (2 :: real) powi (- int M)"
        unfolding powi2 k_def ff(8) using ff(1) L by (intro arg_cong [where f = "power_int 2"]) (simp add: M_def)
      also have "of_int (uint m2) * (2 powi (2 * e2) * (2 :: real) powi (- int M)) =
          of_int (uint m') * (2 powi (e' - bias TYPE('f)) * 2 powi (- int M))"
        using b(4) by (simp only: mult.assoc [symmetric])
      also have "\<dots> = sf_mag a" unfolding a(4) powi2 by simp
      finally show ?thesis by (simp only: k)
    qed
    then have "normalize_sf False E (if inexact then r OR 1 else r) rm fl = round_sf rm False (sqrt (sf_mag a)) fl"
      using normalize_sticky [OF fmt rm st] y by simp
    moreover have "sqrt_sf a rm fl = normalize_sf False E (if inexact then r OR 1 else r) rm fl"
    proof -
      have em: "EXP_MASK TYPE('f) div 2 = bias TYPE('f)" using ff(6) by simp
      show ?thesis
        unfolding sqrt_sf_def Let_def u prod.case using ne False s
        by (simp only: a(1) em b(1) prod.case M_def [symmetric] R_def [symmetric] a1_def [symmetric] sq E_def
            nonzero_mult_div_cancel_left simp_thms if_False zero_neq_numeral)
    qed
    ultimately show ?thesis by simp
  qed
qed

end
