(* ===== verification/FloatOrder.thy ===== *)
theory FloatOrder
  imports FloatSqrt
begin

unbundle bit_operations_syntax

section \<open>Order, equality and exact results\<close>

text \<open>
  The bits below the sign are in the order of the magnitudes they encode, so that the comparisons
  of the code are those of the values; a result that is a number of the format is not rounded.
\<close>

subsection \<open>The order of the encodings\<close>

definition low_bits :: "'f::len word \<Rightarrow> int" where
  "low_bits a = uint (a AND NOT SIGN_MASK)"

lemma magnitude_parts:
  fixes a :: "'f::len word"
  assumes "sf_format TYPE('f)"
  obtains e m where "1 \<le> e" "0 \<le> m" "m < 2 * 2 ^ MANT_SIZE TYPE('f)" "e = 1 \<or> 2 ^ MANT_SIZE TYPE('f) \<le> m"
    "low_bits a = (e - 1) * 2 ^ MANT_SIZE TYPE('f) + m" "e = max 1 (fst (snd (unpack_sf a)))"
    "sf_mag a = of_int m * 2 powi (e - bias TYPE('f) - int (MANT_SIZE TYPE('f)))"
proof -
  obtain s e m where u: "unpack_sf a = (s, e, m)" by (metis prod_cases3)
  note ub = unpack_bounds [OF assms u] and mb = magnitude_bits [OF assms u]
  define m' where "m' = uint m + (if e = 0 then 0 else 2 ^ MANT_SIZE TYPE('f))"
  have "0 \<le> uint m" "uint m < 2 * 2 ^ MANT_SIZE TYPE('f)" 
    using ub(1) zero_less_power [of "2 :: int" "MANT_SIZE TYPE('f)"] by (simp, linarith)
  then show thesis
    using ub(1,2) u mb
    by (intro that [of "max 1 e" m']) (auto simp: m'_def low_bits_def sf_mag_def algebra_simps max_def)
qed

lemma magnitude_mono:
  fixes a b :: "'f::len word"
  assumes fmt: "sf_format TYPE('f)" and "low_bits a < low_bits b"
  shows "sf_mag a < sf_mag b"
proof -
  define M where "M = MANT_SIZE TYPE('f)"
  obtain ea ma where a: "1 \<le> ea" "0 \<le> ma" "ma < 2 * 2 ^ M" "ea = 1 \<or> 2 ^ M \<le> ma" "low_bits a = (ea - 1) * 2 ^ M + ma"
    "sf_mag a = of_int ma * 2 powi (ea - bias TYPE('f) - int M)"
    using magnitude_parts [OF fmt, of a] unfolding M_def by metis
  obtain eb mb where b: "1 \<le> eb" "0 \<le> mb" "mb < 2 * 2 ^ M" "eb = 1 \<or> 2 ^ M \<le> mb" "low_bits b = (eb - 1) * 2 ^ M + mb"
    "sf_mag b = of_int mb * 2 powi (eb - bias TYPE('f) - int M)"
    using magnitude_parts [OF fmt, of b] unfolding M_def by metis
  define P where "P = (2 :: int) ^ M"
  have P: "0 < P" by (simp add: P_def)
  note ab = a(3-5) [folded P_def] b(3-5) [folded P_def]
  consider "ea = eb" | "ea < eb" | "eb < ea" by linarith
  then show ?thesis
  proof cases
    case 1
    then have "ma < mb" using assms(2) ab by simp
    then show ?thesis by (simp add: a(6) b(6) 1)
  next
    case 2
    then have "P \<le> mb" using ab(5) a(1) by auto
    then have "ma < 2 * mb" using ab(1) by linarith
    then have "of_int ma < (2 * of_int mb :: real)" by linarith
    moreover have "2 * 2 powi (ea - bias TYPE('f) - int M) \<le> (2 :: real) powi (eb - bias TYPE('f) - int M)"
    proof -
      have "2 * 2 powi (ea - bias TYPE('f) - int M) = (2 :: real) powi (ea + 1 - bias TYPE('f) - int M)"
        using powi2(1) [of 1 "ea - bias TYPE('f) - int M"] by (simp add: algebra_simps)
      also have "\<dots> \<le> 2 powi (eb - bias TYPE('f) - int M)" using 2 by (intro power_int_increasing) auto
      finally show ?thesis .
    qed
    moreover have "0 < (2 :: real) powi (ea - bias TYPE('f) - int M)" by simp
    ultimately have "of_int ma * 2 powi (ea - bias TYPE('f) - int M) < (2 * of_int mb) * (2 :: real) powi (ea - bias TYPE('f) - int M)"
      "of_int mb * (2 * 2 powi (ea - bias TYPE('f) - int M)) \<le> of_int mb * (2 :: real) powi (eb - bias TYPE('f) - int M)"
      using b(2) by (simp_all add: mult_left_mono)
    then show ?thesis unfolding a(6) b(6) by (simp only: mult_ac)
  next
    case 3
    then have "P \<le> ma" using ab(2) b(1) by auto
    moreover have "(eb - 1 + 1) * P \<le> (ea - 1) * P" using 3 P by (intro mult_right_mono) auto
    then have "(eb - 1) * P + P \<le> (ea - 1) * P" by (simp only: distrib_right mult_1)
    ultimately have "(eb - 1) * P + mb \<le> (ea - 1) * P + ma" using ab(4) by linarith
    then show ?thesis using assms(2) ab(3,6) by linarith
  qed
qed

lemma magnitude_order:
  fixes a b :: "'f::len word"
  assumes "sf_format TYPE('f)"
  shows "sf_mag a < sf_mag b \<longleftrightarrow> low_bits a < low_bits b" "sf_mag a = sf_mag b \<longleftrightarrow> low_bits a = low_bits b"
    "sf_mag a \<le> sf_mag b \<longleftrightarrow> low_bits a \<le> low_bits b"
proof -
  have eq: "sf_mag a = sf_mag b" if "low_bits a = low_bits b"
  proof -
    obtain sa ea ma where ua: "unpack_sf a = (sa, ea, ma)" by (metis prod_cases3)
    obtain sb eb mb where ub: "unpack_sf b = (sb, eb, mb)" by (metis prod_cases3)
    define P where "P = (2 :: int) ^ MANT_SIZE TYPE('f)"
    have m: "0 \<le> uint ma" "uint ma < P" "0 \<le> uint mb" "uint mb < P"
      using unpack_bounds(1) [OF assms ua] unpack_bounds(1) [OF assms ub] by (simp_all add: P_def)
    have e: "ea * P + uint ma = eb * P + uint mb"
      using that magnitude_bits [OF assms ua] magnitude_bits [OF assms ub] by (simp add: low_bits_def P_def)
    have "ea = eb" "uint ma = uint mb"
      using arg_cong [OF e, of "\<lambda>n. n div P"] arg_cong [OF e, of "\<lambda>n. n mod P"] m by simp_all
    then show ?thesis by (simp add: sf_mag_def ua ub)
  qed
  show "sf_mag a < sf_mag b \<longleftrightarrow> low_bits a < low_bits b" "sf_mag a = sf_mag b \<longleftrightarrow> low_bits a = low_bits b"
    "sf_mag a \<le> sf_mag b \<longleftrightarrow> low_bits a \<le> low_bits b"
    using magnitude_mono [OF assms, of a b] magnitude_mono [OF assms, of b a] eq by linarith+
qed

text \<open>A word is its sign and the bits below.\<close>

lemma uint_sign:
  fixes a :: "'f::len word"
  assumes "sf_format TYPE('f)"
  shows "uint a = low_bits a + (if sf_sign a then 2 ^ (LENGTH('f) - 1) else 0)" "0 \<le> low_bits a" "low_bits a < 2 ^ (LENGTH('f) - 1)"
proof -
  obtain n where n: "LENGTH('f) = Suc n" by (cases "LENGTH('f)") auto
  have "a AND NOT SIGN_MASK = take_bit n a"
    by (rule bit_eqI) (use n in \<open>auto simp: SIGN_MASK_def bit_simps simp del: push_bit_of_1\<close>)
  then have low: "low_bits a = uint a mod 2 ^ n" by (simp only: low_bits_def uint_take)
  have s: "sf_sign a \<longleftrightarrow> odd (uint a div 2 ^ n)" 
    using bit_uint_iff [of a n] by (simp add: sf_sign_def n bit_iff_odd [of "uint a"])
  define q where "q = uint a div 2 ^ n"
  have "uint a < 2 * 2 ^ n" using uint_lt2p [of a] by (simp add: n)
  then have "q < 2" unfolding q_def by (simp add: div_less_int)
  moreover have "0 \<le> q" by (simp add: q_def pos_imp_zdiv_nonneg_iff)
  ultimately have "q = (if sf_sign a then 1 else 0)" unfolding s q_def [symmetric] by presburger
  moreover have "uint a = q * 2 ^ n + low_bits a" by (simp only: q_def low div_mult_mod_eq)
  ultimately show "uint a = low_bits a + (if sf_sign a then 2 ^ (LENGTH('f) - 1) else 0)" by (simp add: n)
  show "0 \<le> low_bits a" "low_bits a < 2 ^ (LENGTH('f) - 1)" by (simp_all add: low n)
qed

lemma low_bits_zero:
  fixes a b :: "'f::len word"
  assumes "sf_format TYPE('f)"
  shows "push_bit 1 (a OR b) = 0 \<longleftrightarrow> low_bits a = 0 \<and> low_bits b = 0" "low_bits a = 0 \<longleftrightarrow> sf_mag a = 0" "0 \<le> sf_mag a"
proof -
  have "push_bit 1 w = 0 \<longleftrightarrow> w AND NOT SIGN_MASK = 0" for w :: "'f word"
  proof
    assume z: "push_bit 1 w = 0"
    have "bit w i \<Longrightarrow> i < LENGTH('f) - 1 \<Longrightarrow> bit (push_bit 1 w) (Suc i)" for i
      by (simp only: bit_simps) auto
    then have "\<not> (bit w i \<and> i < LENGTH('f) - 1)" for i by (simp only: z) auto
    then show "w AND NOT SIGN_MASK = 0"
      by (intro bit_eqI) (auto simp: SIGN_MASK_def bit_simps not_less simp del: push_bit_of_1)
  next
    assume z: "w AND NOT SIGN_MASK = 0"
    have "bit w i \<Longrightarrow> Suc i < LENGTH('f) \<Longrightarrow> bit (w AND NOT SIGN_MASK) i" for i
      by (auto simp: SIGN_MASK_def bit_simps simp del: push_bit_of_1)
    then have "\<not> (bit w i \<and> Suc i < LENGTH('f))" for i by (simp only: z) auto
    then show "push_bit 1 w = 0"
      by (intro bit_eqI) (metis One_nat_def Suc_pred bit_push_bit_iff bit_0_eq bot_apply bot_bool_def diff_Suc_1 not_less_zero order_less_le_trans possible_bit_word zero_less_iff_neq_zero)
  qed
  from this [of "a OR b"] show "push_bit 1 (a OR b) = 0 \<longleftrightarrow> low_bits a = 0 \<and> low_bits b = 0"
    by (simp add: low_bits_def uint_0_iff bit.conj_disj_distrib2 or_eq_0_iff)
  show "0 \<le> sf_mag a" using magnitude_parts [OF assms, of a] by (metis mult_nonneg_nonneg of_int_0_le_iff zero_le_power_int zero_le_numeral)
  have "low_bits (0 :: 'f word) = 0" "sf_mag (0 :: 'f word) = 0"
    by (simp_all add: low_bits_def sf_mag_def unpack_sf_def)
  then show "low_bits a = 0 \<longleftrightarrow> sf_mag a = 0" using magnitude_order(2) [OF assms, of a 0] by simp
qed

subsection \<open>The comparisons\<close>

lemma finite_not_nan: "finite_sf a \<Longrightarrow> \<not> isnan_sf a"
  by (auto simp: finite_sf_def isnan_sf_def unpack_sf_def)

lemma comparisons_correct:
  fixes a b :: "'f::len word"
  assumes fmt: "sf_format TYPE('f)" and fin: "finite_sf a" "finite_sf b"
  shows "eq_quiet_sf a b fl = (sf_value a = sf_value b, fl)"
    and "le_sf a b fl = (sf_value a \<le> sf_value b, fl)"
    and "lt_sf a b fl = (sf_value a < sf_value b, fl)"
proof -
  note nan = finite_not_nan [OF fin(1)] finite_not_nan [OF fin(2)]
  note ord = magnitude_order [OF fmt, of a b] magnitude_order [OF fmt, of b a]
  note zero = low_bits_zero(1) [OF fmt, of a b] low_bits_zero(2,3) [OF fmt, of a] low_bits_zero(2,3) [OF fmt, of b]
  note ua = uint_sign [OF fmt, of a] and ub = uint_sign [OF fmt, of b]
  have sg: "bit a (LENGTH('f) - 1) = sf_sign a" "bit b (LENGTH('f) - 1) = sf_sign b" by (simp_all add: sf_sign_def)
  have av: "a = b \<longleftrightarrow> uint a = uint b" "a \<le> b \<longleftrightarrow> uint a \<le> uint b" "a < b \<longleftrightarrow> uint a < uint b"
    "b \<le> a \<longleftrightarrow> uint b \<le> uint a" "b < a \<longleftrightarrow> uint b < uint a"
    by (auto simp: word_uint_eq_iff word_le_def word_less_def)
  have zz: "push_bit 1 (a OR b) = 0 \<longleftrightarrow> low_bits a = 0 \<and> low_bits b = 0" by (rule zero(1))
  have eq: "eq_quiet_sf a b fl = (low_bits a = 0 \<and> low_bits b = 0 \<or> uint a = uint b, fl)"
    by (simp only: eq_quiet_sf_def nan zz av) auto
  have le: "le_sf a b fl = (if sf_sign a \<noteq> sf_sign b then sf_sign a \<or> low_bits a = 0 \<and> low_bits b = 0
      else if sf_sign a then uint b \<le> uint a else uint a \<le> uint b, fl)"
    by (simp only: le_sf_def Let_def sg nan zz av) simp
  have lt: "lt_sf a b fl = (if sf_sign a \<noteq> sf_sign b then sf_sign a \<and> \<not> (low_bits a = 0 \<and> low_bits b = 0)
      else if sf_sign a then uint b < uint a else uint a < uint b, fl)"
    by (simp only: lt_sf_def Let_def sg nan zz av) simp
  note va = sf_value_def [of a] and vb = sf_value_def [of b]
  have pos: "sf_mag a = 0 \<longleftrightarrow> low_bits a = 0" "sf_mag b = 0 \<longleftrightarrow> low_bits b = 0" "0 \<le> sf_mag a" "0 \<le> sf_mag b"
    using zero by blast+
  consider "sf_sign a" "sf_sign b" | "sf_sign a" "\<not> sf_sign b" | "\<not> sf_sign a" "sf_sign b" | "\<not> sf_sign a" "\<not> sf_sign b"
    by blast
  then have "eq_quiet_sf a b fl = (sf_value a = sf_value b, fl) \<and> le_sf a b fl = (sf_value a \<le> sf_value b, fl) \<and>
      lt_sf a b fl = (sf_value a < sf_value b, fl)"
  proof cases
    case 1
    then show ?thesis unfolding eq le lt va vb using ua(1) ub(1) ord by simp metis
  next
    case 2
    then have "- sf_mag a = sf_mag b \<longleftrightarrow> low_bits a = 0 \<and> low_bits b = 0" "- sf_mag a \<le> sf_mag b"
      "- sf_mag a < sf_mag b \<longleftrightarrow> \<not> (low_bits a = 0 \<and> low_bits b = 0)"
      using pos by linarith+
    moreover have "uint a \<noteq> uint b" using 2 ua ub by simp
    ultimately show ?thesis unfolding eq le lt va vb using 2 by simp
  next
    case 3
    then have "sf_mag a = - sf_mag b \<longleftrightarrow> low_bits a = 0 \<and> low_bits b = 0" "\<not> sf_mag a < - sf_mag b"
      "sf_mag a \<le> - sf_mag b \<longleftrightarrow> low_bits a = 0 \<and> low_bits b = 0"
      using pos by linarith+
    moreover have "uint a \<noteq> uint b" using 3 ua ub by simp
    ultimately show ?thesis unfolding eq le lt va vb using 3 by simp
  next
    case 4
    then show ?thesis unfolding eq le lt va vb using ua(1) ub(1) ord by simp metis
  qed
  then show "eq_quiet_sf a b fl = (sf_value a = sf_value b, fl)" "le_sf a b fl = (sf_value a \<le> sf_value b, fl)"
    "lt_sf a b fl = (sf_value a < sf_value b, fl)"
    by simp_all
qed

subsection \<open>Exact results\<close>

lemma round_int_of_int [simp]: "round_int rm s (of_int n) = n"
  by (simp add: round_int_def)

lemma sign_or_low:
  fixes c :: "'f::len word"
  shows "push_bit (LENGTH('f) - 1) (of_bool (sf_sign c)) OR word_of_int (low_bits c) = c"
proof -
  have "word_of_int (low_bits c) = c AND NOT SIGN_MASK" by (simp add: low_bits_def)
  moreover obtain n where n: "LENGTH('f) = Suc n" by (cases "LENGTH('f)") auto
  have "push_bit (LENGTH('f) - 1) (of_bool (sf_sign c)) = c AND SIGN_MASK"
    by (rule bit_eqI) (use n in \<open>auto simp: SIGN_MASK_def sf_sign_def bit_simps less_Suc_eq simp del: push_bit_of_1\<close>)
  ultimately show ?thesis by (simp add: bit.conj_disj_distrib [symmetric])
qed

lemma round_sf_exact:
  fixes c :: "'f::len word"
  assumes fmt: "sf_format TYPE('f)" and fin: "finite_sf c"
  shows "round_sf rm (sf_sign c) (sf_mag c) fl = (c, fl)"
proof -
  define M P where "M = MANT_SIZE TYPE('f)" and "P = (2 :: int) ^ M"
  define B where "B = bias TYPE('f)"
  obtain e m where c: "1 \<le> e" "0 \<le> m" "m < 2 * P" "e = 1 \<or> P \<le> m" "low_bits c = (e - 1) * P + m"
    "sf_mag c = of_int m * 2 powi (e - B - int M)"
    using magnitude_parts [OF fmt, of c] unfolding M_def P_def B_def by metis
  show ?thesis
  proof (cases "sf_mag c = 0")
    case True
    then have "low_bits c = 0" using low_bits_zero(2) [OF fmt, of c] by blast
    then show ?thesis using True sign_or_low [of c] pack_sf_eq [OF fmt, of "sf_sign c" 0 0] by (simp add: round_sf_def)
  next
    case False
    define x where "x = sf_mag c"
    have "x = of_int m * 2 powi (e - B - int M)" by (simp only: c(6) x_def)
    moreover have "0 < x" using False low_bits_zero(3) [OF fmt, of c] by (simp add: x_def less_le)
    ultimately have x: "x = of_int m * 2 powi (e - B - int M)" "0 < x" by blast+
    have rP: "of_int P = (2 :: real) powi int M" by (simp add: P_def)
    have xe: "max \<lfloor>log 2 x\<rfloor> (1 - B) = e - B"
    proof (cases "P \<le> m")
      case True
      then have "of_int P * 2 powi (e - B - int M) \<le> x" "x < of_int (2 * P) * 2 powi (e - B - int M)"
        unfolding x(1) using c(3) by (intro mult_right_mono mult_strict_right_mono; simp)+
      moreover have "of_int P * (2 :: real) powi (e - B - int M) = 2 powi (e - B)"
        unfolding rP powi2 by (rule arg_cong [where f = "power_int 2"]) simp
      moreover have "of_int (2 * P) * (2 :: real) powi (e - B - int M) = 2 powi (e - B + 1)"
      proof -
        have "of_int (2 * P) * (2 :: real) powi (e - B - int M) = 2 powi 1 * (2 powi int M * 2 powi (e - B - int M))"
          by (simp only: of_int_mult rP mult.assoc) simp
        also have "\<dots> = 2 powi (e - B + 1)"
          unfolding powi2 by (rule arg_cong [where f = "power_int 2"]) simp
        finally show ?thesis .
      qed
      ultimately have "\<lfloor>log 2 x\<rfloor> = e - B" by (intro floor_log2) simp_all
      then show ?thesis using c(1) by simp
    next
      case False
      then have e: "e = 1" and "m \<le> P" using c(4) by simp_all
      then have "x \<le> of_int P * 2 powi (e - B - int M)" unfolding x(1) by (intro mult_right_mono) simp_all
      also have "of_int P * (2 :: real) powi (e - B - int M) = 2 powi (e - B)"
        unfolding rP powi2 by (rule arg_cong [where f = "power_int 2"]) simp
      also have "(2 :: real) powi k = 2 powr of_int k" for k by (simp add: powr_real_of_int')
      finally have "log 2 x \<le> of_int (e - B)" using x(2) by (subst log_le_iff) auto
      then have "\<lfloor>log 2 x\<rfloor> \<le> e - B" by linarith
      then show ?thesis using e by simp
    qed
    define q where "q = (2 :: real) powi (e - B - int M)"
    have q: "0 < q" "x / q = of_int m" "of_int m * q = x" by (simp_all add: q_def x(1))
    have k: "(e - B + B - 1) * P + m = low_bits c" by (simp add: c(5))
    have low: "low_bits c < EXP_MASK TYPE('f) * P"
    proof -
      obtain s e0 m0 where u: "unpack_sf c = (s, e0, m0)" by (metis prod_cases3)
      have "e0 \<noteq> EXP_MASK TYPE('f)" using fin u by (simp add: finite_sf_def)
      then have "e0 + 1 \<le> EXP_MASK TYPE('f)" using unpack_bounds(3) [OF fmt u] by linarith
      then have "(e0 + 1) * P \<le> EXP_MASK TYPE('f) * P" by (intro mult_right_mono) (simp_all add: P_def)
      then show ?thesis
        using magnitude_bits [OF fmt u] unpack_bounds(1) [OF fmt u] by (simp add: low_bits_def P_def M_def distrib_right)
    qed
    have "x \<noteq> 0" using x(2) by simp
    then show ?thesis
      unfolding x_def [symmetric]
      by (simp only: round_sf_def Let_def M_def [symmetric] B_def [symmetric] xe q_def [symmetric] q(2)
          round_int_of_int q(3) P_def [symmetric] k low sign_or_low not_True_eq_False simp_thms if_True if_False)
  qed
qed

end
