(* ===== verification/FloatProps.thy ===== *)
theory FloatProps
  imports FloatUnit FloatOrder RiscvFp SampleEnv
begin

unbundle bit_operations_syntax

section \<open>What the floating-point unit promises\<close>

text \<open>
  The contract of the unit: on finite operands its results are the exact ones, rounded, and its
  comparisons are those of the values. Both formats of the program meet it, and the instructions of
  the CPU deliver it to the registers.
\<close>

subsection \<open>The contract\<close>

text \<open>Sign and magnitude of the exact result of the operations that the instructions select.\<close>

definition exact_result :: "u32 \<Rightarrow> u32 \<Rightarrow> 'f::len word \<Rightarrow> 'f word \<Rightarrow> bool \<times> real" where
  "exact_result op rm a b =
     (if op = 0x00 then (sum_sign rm a b, \<bar>sf_value a + sf_value b\<bar>)
      else if op = 0x01 then (sum_sign rm a (b XOR SIGN_MASK), \<bar>sf_value a - sf_value b\<bar>)
      else if op = 0x02 then (sf_sign a \<noteq> sf_sign b, sf_mag a * sf_mag b)
      else if op = 0x03 then (sf_sign a \<noteq> sf_sign b, sf_mag a / sf_mag b)
      else (False, sqrt (sf_mag a)))"

text \<open>Operands for which the result is a number: no division by zero, no root of a negative one.\<close>

definition sound_operands :: "u32 \<Rightarrow> 'f::len word \<Rightarrow> 'f word \<Rightarrow> bool" where
  "sound_operands op a b \<longleftrightarrow> finite_sf a \<and>
     (if op = 0x0b then \<not> sf_sign a else finite_sf b \<and> op \<le> 0x03 \<and> (op = 0x03 \<longrightarrow> sf_mag b \<noteq> 0))"

definition apply_op :: "'f softfp_ops \<Rightarrow> u32 \<Rightarrow> u32 \<Rightarrow> 'f \<Rightarrow> 'f \<Rightarrow> u32 \<Rightarrow> 'f \<times> u32" where
  "apply_op ops op rm a b fl =
     (if op = 0x00 then sf_add ops a b rm fl
      else if op = 0x01 then sf_sub ops a b rm fl
      else if op = 0x02 then sf_mul ops a b rm fl
      else if op = 0x03 then sf_div ops a b rm fl
      else sf_sqrt ops a rm fl)"

lemma small_op: "(op :: u32) \<le> 3 \<Longrightarrow> op = 0 \<or> op = 1 \<or> op = 2 \<or> op = 3"
proof -
  assume "op \<le> 3"
  then have "unat op \<le> 3" by (simp add: word_le_nat_alt)
  then have "unat op = unat (0 :: u32) \<or> unat op = unat (1 :: u32) \<or> unat op = unat (2 :: u32) \<or> unat op = unat (3 :: u32)"
    by auto
  then show ?thesis by (simp only: word_unat_eq_iff)
qed

locale ieee_unit =
  fixes ops :: "'f::len word softfp_ops"
  assumes format: "sf_format TYPE('f)"
    and arith: "rm \<le> RM_RMM \<Longrightarrow> sound_operands op a b \<Longrightarrow>
      apply_op ops op rm a b fl = (case exact_result op rm a b of (s, x) \<Rightarrow> round_sf rm s x fl)"
    and equal: "finite_sf a \<Longrightarrow> finite_sf b \<Longrightarrow> sf_eq_quiet ops a b fl = (sf_value a = sf_value b, fl)"
    and leq: "finite_sf a \<Longrightarrow> finite_sf b \<Longrightarrow> sf_le ops a b fl = (sf_value a \<le> sf_value b, fl)"
    and less: "finite_sf a \<Longrightarrow> finite_sf b \<Longrightarrow> sf_lt ops a b fl = (sf_value a < sf_value b, fl)"
begin

text \<open>An exact result that is a number of the format is the result, and no flag is raised.\<close>

lemma exact:
  assumes "rm \<le> RM_RMM" and "sound_operands op a b" and "finite_sf c" and "exact_result op rm a b = (sf_sign c, sf_mag c)"
  shows "apply_op ops op rm a b fl = (c, fl)"
  using arith [OF assms(1,2), of fl] round_sf_exact [OF format assms(3), of rm fl] assms(4) by simp

lemma exact_sum:
  assumes "rm \<le> RM_RMM" and "finite_sf a" "finite_sf b" "finite_sf c" and "sf_value a + sf_value b = sf_value c" and "sf_value c \<noteq> 0"
  shows "sf_add ops a b rm fl = (c, fl)"
proof -
  have "sum_sign rm a b = sf_sign c \<and> \<bar>sf_value c\<bar> = sf_mag c"
    using assms(5,6) low_bits_zero(3) [OF format, of c] by (auto simp: sum_sign_def sf_value_def split: if_splits)
  then have "exact_result 0 rm a b = (sf_sign c, sf_mag c)" using assms(5) by (simp add: exact_result_def)
  moreover have "sound_operands 0 a b" using assms(2,3) by (simp add: sound_operands_def)
  ultimately show ?thesis using exact [OF assms(1) _ assms(4), of 0 a b fl] by (simp add: apply_op_def)
qed

lemma trichotomy:
  assumes "finite_sf a" "finite_sf b"
  shows "fst (sf_lt ops a b fl) \<or> fst (sf_lt ops b a fl) \<or> fst (sf_eq_quiet ops a b fl)"
  using assms by (auto simp: less equal)

text \<open>The arithmetic instructions.\<close>

lemma instruction:
  assumes "rm \<le> RM_RMM" and "sound_operands op (ucast (fp_reg s ! rs1) :: 'f word) (ucast (fp_reg s ! rs2))" and "op = 0x0b \<longrightarrow> rs2 = 0"
    and "exact_result op rm (ucast (fp_reg s ! rs1) :: 'f word) (ucast (fp_reg s ! rs2)) = (sg, x)"
  shows "fp_arith ops fmt op rd rs1 rs2 rm s = Some (fp_result rd (f_high fmt) (round_sf rm sg x (fflags s) :: 'f word \<times> u32) s)"
proof (cases "op = 0x0b")
  case True
  then show ?thesis using arith [OF assms(1,2), of "fflags s"] assms(3,4) by (simp add: fp_arith_def apply_op_def Let_def)
next
  case False
  then have "op \<le> 3" using assms(2) by (simp add: sound_operands_def)
  then show ?thesis using small_op [of op] arith [OF assms(1,2), of "fflags s"] assms(4) by (auto simp: fp_arith_def apply_op_def Let_def)
qed

end

subsection \<open>The program's formats\<close>

lemma sub_sf_correct:
  fixes a b :: "'f::len word"
  assumes fmt: "sf_format TYPE('f)" and rm: "rm \<le> RM_RMM" and fin: "finite_sf a" "finite_sf b"
  shows "sub_sf a b rm fl = round_sf rm (sum_sign rm a (b XOR SIGN_MASK)) \<bar>sf_value a - sf_value b\<bar> fl"
  using add_sf_correct [OF fmt rm fin(1), of "b XOR SIGN_MASK" fl] negated_value [OF fmt, of b] fin(2)
  by (simp add: sub_sf_def)

lemma sf_ops_arith:
  fixes a b :: "'f::len word"
  assumes "sf_format TYPE('f)" and "rm \<le> RM_RMM" and "sound_operands op a b"
  shows "apply_op sf_ops op rm a b fl = (case exact_result op rm a b of (s, x) \<Rightarrow> round_sf rm s x fl)"
proof (cases "op = 0x0b")
  case True
  then show ?thesis using assms by (simp add: sf_ops_def apply_op_def exact_result_def sound_operands_def sqrt_sf_correct)
next
  case False
  then have "finite_sf a" "finite_sf b" "op = 3 \<longrightarrow> sf_mag b \<noteq> 0" "op \<le> 3" using assms(3) by (simp_all add: sound_operands_def)
  then show ?thesis using small_op [of op] assms(1,2)
    by (auto simp: sf_ops_def apply_op_def exact_result_def add_sf_correct sub_sf_correct mul_sf_correct div_sf_correct)
qed

lemma sf_ops_contract: "sf_format TYPE('f::len) \<Longrightarrow> ieee_unit (sf_ops :: 'f word softfp_ops)"
  by unfold_locales (simp_all add: sf_ops_arith, simp_all add: sf_ops_def comparisons_correct)

interpretation single: ieee_unit "sf_ops :: u32 softfp_ops"
  by (rule sf_ops_contract) (simp add: sf_format_def)

interpretation double: ieee_unit "sf_ops :: u64 softfp_ops"
  by (rule sf_ops_contract) (simp add: sf_format_def)

subsection \<open>Properties\<close>

text \<open>
  C32: in both formats and every rounding mode, sums, differences, products, quotients and square
  roots of finite numbers are the exact real results rounded as IEEE 754 says, with the flags it
  asks for, whatever the steps of the algorithms lose on the way.
\<close>

theorem float_arithmetic_rounds_correctly:
  fixes a b :: "'f::len word"
  assumes "sf_format TYPE('f)" and "rm \<le> RM_RMM" and "finite_sf a" and "finite_sf b"
  shows "add_sf a b rm fl = round_sf rm (sum_sign rm a b) \<bar>sf_value a + sf_value b\<bar> fl \<and>
    sub_sf a b rm fl = round_sf rm (sum_sign rm a (b XOR SIGN_MASK)) \<bar>sf_value a - sf_value b\<bar> fl \<and>
    mul_sf a b rm fl = round_sf rm (sf_sign a \<noteq> sf_sign b) \<bar>sf_value a * sf_value b\<bar> fl \<and>
    (sf_value b \<noteq> 0 \<longrightarrow> div_sf a b rm fl = round_sf rm (sf_sign a \<noteq> sf_sign b) \<bar>sf_value a / sf_value b\<bar> fl) \<and>
    (\<not> sf_sign a \<longrightarrow> sqrt_sf a rm fl = round_sf rm False (sqrt (sf_value a)) fl)"
proof -
  have v: "\<bar>sf_value c\<bar> = sf_mag c" "sf_value c = 0 \<longleftrightarrow> sf_mag c = 0" for c :: "'f word"
    using low_bits_zero(3) [OF assms(1), of c] by (simp_all add: sf_value_def)
  show ?thesis
    unfolding abs_mult abs_divide v
    using add_sf_correct [OF assms] sub_sf_correct [OF assms] mul_sf_correct [OF assms] div_sf_correct [OF assms]
      sqrt_sf_correct [OF assms(1-3)]
    by (simp add: sf_value_def)
qed

text \<open>1.5 and -2.5, and their sum.\<close>

lemma sample_singles:
  "finite_sf (0x3fc00000 :: u32)" "finite_sf (0xc0200000 :: u32)" "finite_sf (0xbf800000 :: u32)"
  "sf_value (0x3fc00000 :: u32) = 3 / 2" "sf_value (0xc0200000 :: u32) = - 5 / 2" "sf_value (0xbf800000 :: u32) = - 1"
  "sf_sign (0xbf800000 :: u32)" "sf_mag (0xbf800000 :: u32) = 1"
  by (simp_all add: finite_sf_def sf_value_def sf_mag_def sf_sign_def unpack_sf_def MANT_SIZE_def EXP_SIZE_def EXP_MASK_def
      MANT_MASK_def bias_def power_int_def power_divide)

lemma float_arithmetic_rounds_correctly_witness:
  "add_sf (0x3fc00000 :: u32) 0xc0200000 RM_RNE 0 = (0xbf800000, 0)"
proof -
  have "sf_format TYPE(32)" "RM_RNE \<le> RM_RMM" by (simp_all add: sf_format_def rm_defs)
  moreover have "sum_sign RM_RNE (0x3fc00000 :: u32) 0xc0200000" by (simp add: sum_sign_def sample_singles)
  ultimately show ?thesis
    using float_arithmetic_rounds_correctly [where rm = RM_RNE and a = "0x3fc00000 :: u32" and b = "0xc0200000" and fl = 0] sample_singles
      round_sf_exact [where c = "0xbf800000 :: u32" and rm = RM_RNE and fl = 0] by simp
qed

text \<open>
  C33: an arithmetic instruction on doubles with finite operands writes the exact result, rounded in
  the mode the instruction names, to its destination register, accrues the flags, marks the state
  of the unit dirty and changes nothing else.
\<close>

theorem double_instruction_rounds_correctly:
  assumes "fpu env = softfp_unit" and "fs s \<noteq> 0" and "drop_bit 25 insn AND 3 = 1" and "op = drop_bit 27 insn"
    and "get_insn_rm s (drop_bit 12 insn AND 7) = Some rm" and "rm \<le> RM_RMM"
    and "sound_operands op (fp_reg s ! insn_rs1 insn) (fp_reg s ! insn_rs2 insn)" and "op = 0x0b \<Longrightarrow> insn_rs2 insn = 0"
    and "exact_result op rm (fp_reg s ! insn_rs1 insn) (fp_reg s ! insn_rs2 insn) = (sg, x)"
    and "round_sf rm sg x (fflags s) = (r, fl)"
  shows "exec_fp env insn s = Some (Next_insn 4, s\<lparr>fp_reg := (fp_reg s)[insn_rd insn := r], fflags := fl, fs := 3\<rparr>)"
proof -
  have op: "op \<in> {0x00, 0x01, 0x02, 0x03, 0x0b}"
    using assms(7) small_op [of op] by (auto simp: sound_operands_def split: if_splits)
  have "fp_arith (sf_ops :: u64 softfp_ops) 1 op (insn_rd insn) (insn_rs1 insn) (insn_rs2 insn) rm s =
      Some (fp_result (insn_rd insn) (f_high 1) (round_sf rm sg x (fflags s) :: u64 \<times> u32) s)"
    using assms(6-9) by (intro double.instruction) simp_all
  then have "fp_template softfp_unit (sf_ops :: u64 softfp_ops) 1 op (insn_rd insn) (insn_rs1 insn) (insn_rs2 insn) (drop_bit 12 insn AND 7) s =
      Some (fp_result (insn_rd insn) (f_high 1) (r, fl) s)"
    using op assms(5,10) by (simp add: fp_template_def)
  then show ?thesis
    using assms(1-4) by (simp add: exec_fp_def Let_def softfp_unit_def fp_result_def f_high_def F64_HIGH_def put_fp_def)
qed

text \<open>\<open>FADD.D f3, f1, f2\<close> with 1 and 2 in the registers.\<close>

lemma sample_doubles:
  "finite_sf (0x3ff0000000000000 :: u64)" "finite_sf (0x4000000000000000 :: u64)" "finite_sf (0x4008000000000000 :: u64)"
  "sf_value (0x3ff0000000000000 :: u64) = 1" "sf_value (0x4000000000000000 :: u64) = 2"
  "\<not> sf_sign (0x4008000000000000 :: u64)" "sf_mag (0x4008000000000000 :: u64) = 3"
  by (simp_all add: finite_sf_def sf_value_def sf_mag_def sf_sign_def unpack_sf_def MANT_SIZE_def EXP_SIZE_def EXP_MASK_def
      MANT_MASK_def bias_def power_int_def power_divide)

definition fadd_cpu :: riscv_cpu where
  "fadd_cpu = (riscv_cpu_init phys_mem_map_init ())
     \<lparr>fp_reg := [0, 0x3ff0000000000000, 0x4000000000000000, 0, 0], fs := 1\<rparr>"

lemma double_instruction_rounds_correctly_witness:
  "exec_fp sample_cpu_env 0x022081d3 fadd_cpu = Some (Next_insn 4, fadd_cpu
     \<lparr>fp_reg := [0, 0x3ff0000000000000, 0x4000000000000000, 0x4008000000000000, 0], fflags := 0, fs := 3\<rparr>)"
proof -
  let ?a = "0x3ff0000000000000 :: u64" and ?b = "0x4000000000000000 :: u64"
  have rd: "insn_rs1 0x022081d3 = 1" "insn_rs2 0x022081d3 = 2" "insn_rd 0x022081d3 = 3"
    by (simp_all add: insn_rs1_def insn_rs2_def insn_rd_def)
  have regs: "fp_reg fadd_cpu = [0, ?a, ?b, 0, 0]" "fs fadd_cpu = 1" "fflags fadd_cpu = 0"
    by (simp_all add: fadd_cpu_def riscv_cpu_init_def Let_def)
  have x: "exact_result 0 RM_RNE ?a ?b = (False, 3)" "sound_operands 0 ?a ?b"
    using sample_doubles by (simp_all add: exact_result_def sum_sign_def sound_operands_def)
  have r: "round_sf RM_RNE False 3 0 = (0x4008000000000000 :: u64, 0)"
    using round_sf_exact [of "0x4008000000000000 :: u64" RM_RNE 0] sample_doubles by (simp add: sf_format_def)
  have rm: "get_insn_rm fadd_cpu 0 = Some RM_RNE" "RM_RNE \<le> RM_RMM" by (simp_all add: get_insn_rm_def rm_defs)
  have env: "fpu sample_cpu_env = softfp_unit" by (simp add: sample_cpu_env_def)
  show ?thesis
    using double_instruction_rounds_correctly [of sample_cpu_env fadd_cpu "0x022081d3" 0 RM_RNE False 3 "0x4008000000000000" 0]
    by (simp add: env regs rd x r rm)
qed

end
