(* ===== verification/Virtio.thy ===== *)
theory Virtio
  imports RiscvCpu
begin

unbundle bit_operations_syntax

section \<open>Virtio devices: queues and registers (virtio.c)\<close>

text \<open>
  What all virtio devices share: the queues in the memory of the guest, and the registers that the
  guest programs, in the layouts of the MMIO and of the PCI transport.

  A device is a record that the kinds of devices extend. What its pointers reach outside it, the
  memory map and the interrupt controller, is the field \<open>vd_world\<close>; the functions through which
  it is reached are a \<open>virtio_bus\<close>. The function pointers of the device are \<open>virtio_ops\<close>. A
  request is identified by the index of its first descriptor, a \<open>u16\<close> in the queue. Sizes and
  offsets are \<open>int\<close> in the source and are compared with \<open>uint32_t\<close>; they are \<open>u32\<close> here,
  with signed comparison where both sides are \<open>int\<close>. A copy that would leave its buffer is
  \<open>None\<close>, as is a loop over a chain of descriptors that has no end.
\<close>

subsection \<open>Registers\<close>

definition VIRTIO_MMIO_MAGIC_VALUE :: u32 where "VIRTIO_MMIO_MAGIC_VALUE = 0x000"
definition VIRTIO_MMIO_VERSION :: u32 where "VIRTIO_MMIO_VERSION = 0x004"
definition VIRTIO_MMIO_DEVICE_ID :: u32 where "VIRTIO_MMIO_DEVICE_ID = 0x008"
definition VIRTIO_MMIO_VENDOR_ID :: u32 where "VIRTIO_MMIO_VENDOR_ID = 0x00c"
definition VIRTIO_MMIO_DEVICE_FEATURES :: u32 where "VIRTIO_MMIO_DEVICE_FEATURES = 0x010"
definition VIRTIO_MMIO_DEVICE_FEATURES_SEL :: u32 where "VIRTIO_MMIO_DEVICE_FEATURES_SEL = 0x014"
definition VIRTIO_MMIO_DRIVER_FEATURES :: u32 where "VIRTIO_MMIO_DRIVER_FEATURES = 0x020"
definition VIRTIO_MMIO_DRIVER_FEATURES_SEL :: u32 where "VIRTIO_MMIO_DRIVER_FEATURES_SEL = 0x024"
definition VIRTIO_MMIO_GUEST_PAGE_SIZE :: u32 where "VIRTIO_MMIO_GUEST_PAGE_SIZE = 0x028"
definition VIRTIO_MMIO_QUEUE_SEL :: u32 where "VIRTIO_MMIO_QUEUE_SEL = 0x030"
definition VIRTIO_MMIO_QUEUE_NUM_MAX :: u32 where "VIRTIO_MMIO_QUEUE_NUM_MAX = 0x034"
definition VIRTIO_MMIO_QUEUE_NUM :: u32 where "VIRTIO_MMIO_QUEUE_NUM = 0x038"
definition VIRTIO_MMIO_QUEUE_ALIGN :: u32 where "VIRTIO_MMIO_QUEUE_ALIGN = 0x03c"
definition VIRTIO_MMIO_QUEUE_PFN :: u32 where "VIRTIO_MMIO_QUEUE_PFN = 0x040"
definition VIRTIO_MMIO_QUEUE_READY :: u32 where "VIRTIO_MMIO_QUEUE_READY = 0x044"
definition VIRTIO_MMIO_QUEUE_NOTIFY :: u32 where "VIRTIO_MMIO_QUEUE_NOTIFY = 0x050"
definition VIRTIO_MMIO_INTERRUPT_STATUS :: u32 where "VIRTIO_MMIO_INTERRUPT_STATUS = 0x060"
definition VIRTIO_MMIO_INTERRUPT_ACK :: u32 where "VIRTIO_MMIO_INTERRUPT_ACK = 0x064"
definition VIRTIO_MMIO_STATUS :: u32 where "VIRTIO_MMIO_STATUS = 0x070"
definition VIRTIO_MMIO_QUEUE_DESC_LOW :: u32 where "VIRTIO_MMIO_QUEUE_DESC_LOW = 0x080"
definition VIRTIO_MMIO_QUEUE_DESC_HIGH :: u32 where "VIRTIO_MMIO_QUEUE_DESC_HIGH = 0x084"
definition VIRTIO_MMIO_QUEUE_AVAIL_LOW :: u32 where "VIRTIO_MMIO_QUEUE_AVAIL_LOW = 0x090"
definition VIRTIO_MMIO_QUEUE_AVAIL_HIGH :: u32 where "VIRTIO_MMIO_QUEUE_AVAIL_HIGH = 0x094"
definition VIRTIO_MMIO_QUEUE_USED_LOW :: u32 where "VIRTIO_MMIO_QUEUE_USED_LOW = 0x0a0"
definition VIRTIO_MMIO_QUEUE_USED_HIGH :: u32 where "VIRTIO_MMIO_QUEUE_USED_HIGH = 0x0a4"
definition VIRTIO_MMIO_CONFIG_GENERATION :: u32 where "VIRTIO_MMIO_CONFIG_GENERATION = 0x0fc"
definition VIRTIO_MMIO_CONFIG :: u32 where "VIRTIO_MMIO_CONFIG = 0x100"

lemmas mmio_registers =
  VIRTIO_MMIO_MAGIC_VALUE_def VIRTIO_MMIO_VERSION_def VIRTIO_MMIO_DEVICE_ID_def
  VIRTIO_MMIO_VENDOR_ID_def VIRTIO_MMIO_DEVICE_FEATURES_def VIRTIO_MMIO_DEVICE_FEATURES_SEL_def
  VIRTIO_MMIO_DRIVER_FEATURES_def VIRTIO_MMIO_DRIVER_FEATURES_SEL_def
  VIRTIO_MMIO_GUEST_PAGE_SIZE_def VIRTIO_MMIO_QUEUE_SEL_def VIRTIO_MMIO_QUEUE_NUM_MAX_def
  VIRTIO_MMIO_QUEUE_NUM_def VIRTIO_MMIO_QUEUE_ALIGN_def VIRTIO_MMIO_QUEUE_PFN_def
  VIRTIO_MMIO_QUEUE_READY_def VIRTIO_MMIO_QUEUE_NOTIFY_def VIRTIO_MMIO_INTERRUPT_STATUS_def
  VIRTIO_MMIO_INTERRUPT_ACK_def VIRTIO_MMIO_STATUS_def VIRTIO_MMIO_QUEUE_DESC_LOW_def
  VIRTIO_MMIO_QUEUE_DESC_HIGH_def VIRTIO_MMIO_QUEUE_AVAIL_LOW_def VIRTIO_MMIO_QUEUE_AVAIL_HIGH_def
  VIRTIO_MMIO_QUEUE_USED_LOW_def VIRTIO_MMIO_QUEUE_USED_HIGH_def VIRTIO_MMIO_CONFIG_GENERATION_def
  VIRTIO_MMIO_CONFIG_def

definition VIRTIO_PAGE_SIZE :: u64 where "VIRTIO_PAGE_SIZE = 4096"
definition MAX_QUEUE :: nat where "MAX_QUEUE = 8"
definition MAX_CONFIG_SPACE_SIZE :: nat where "MAX_CONFIG_SPACE_SIZE = 256"
definition MAX_QUEUE_NUM :: u32 where "MAX_QUEUE_NUM = 16"
definition VRING_DESC_F_NEXT :: u16 where "VRING_DESC_F_NEXT = 1"
definition VRING_DESC_F_WRITE :: u16 where "VRING_DESC_F_WRITE = 2"

subsection \<open>State\<close>

record queue_state =
  ready :: u32
  num :: u32
  last_avail_idx :: u16
  desc_addr :: u64
  avail_addr :: u64
  used_addr :: u64
  manual_recv :: bool

record 'w virtio_device =
  vd_world :: 'w
  vd_irq :: nat
  int_status :: u32
  vd_status :: u32
  device_features_sel :: u32
  queue_sel :: u32
  queue :: "queue_state list"
  device_id :: u32
  vendor_id :: u32
  device_features :: u32
  config_space_size :: u32
  config_space :: "u8 list"

record virtio_desc =
  vdesc_addr :: u64
  vdesc_len :: u32
  vdesc_flags :: u16
  vdesc_next :: u16

record 'w virtio_bus =
  bus_alloc :: vm_env
  bus_map :: "'w \<Rightarrow> phys_mem_map"
  bus_put_map :: "phys_mem_map \<Rightarrow> 'w \<Rightarrow> 'w"
  bus_set_irq :: "nat \<Rightarrow> bool \<Rightarrow> 'w \<Rightarrow> 'w"
  bus_junk :: "nat \<Rightarrow> u8"

text \<open>
  \<open>bus_junk\<close> is what fresh memory holds. \<open>device_recv\<close> has the index of the queue, the index of the first descriptor, and the sizes of
  what the device reads and writes; a negative result stops the notification. A \<open>config_write\<close>
  that is not set is the identity.
\<close>

record 's virtio_ops =
  device_recv :: "nat \<Rightarrow> u16 \<Rightarrow> u32 \<Rightarrow> u32 \<Rightarrow> 's \<Rightarrow> (int \<times> 's) option"
  config_write :: "'s \<Rightarrow> 's option"

definition queue_zero :: queue_state where
  "queue_zero = \<lparr>ready = 0, num = 0, last_avail_idx = 0, desc_addr = 0, avail_addr = 0, used_addr = 0,
     manual_recv = False\<rparr>"

text \<open>\<open>s->queue[i]\<close>.\<close>

definition the_queue :: "nat \<Rightarrow> ('w, 'z) virtio_device_scheme \<Rightarrow> queue_state option" where
  "the_queue i s = (if i < length (queue s) then Some (queue s ! i) else None)"

definition upd_queue ::
  "nat \<Rightarrow> (queue_state \<Rightarrow> queue_state) \<Rightarrow> ('w, 'z) virtio_device_scheme \<Rightarrow> ('w, 'z) virtio_device_scheme" where
  "upd_queue i f s = s\<lparr>queue := (queue s)[i := f (queue s ! i)]\<rparr>"

definition virtio_set_irq :: "'w virtio_bus \<Rightarrow> bool \<Rightarrow> ('w, 'z) virtio_device_scheme \<Rightarrow> ('w, 'z) virtio_device_scheme" where
  "virtio_set_irq bus level s = s\<lparr>vd_world := bus_set_irq bus (vd_irq s) level (vd_world s)\<rparr>"

definition reset_queue :: "queue_state \<Rightarrow> queue_state" where
  "reset_queue qs = qs\<lparr>ready := 0, num := MAX_QUEUE_NUM, desc_addr := 0, avail_addr := 0, used_addr := 0,
     last_avail_idx := 0\<rparr>"

definition virtio_reset :: "('w, 'z) virtio_device_scheme \<Rightarrow> ('w, 'z) virtio_device_scheme" where
  "virtio_reset s = s\<lparr>vd_status := 0, queue_sel := 0, device_features_sel := 0, int_status := 0,
     queue := List.map reset_queue (queue s)\<rparr>"

text \<open>The MMIO case: the device starts as zeros, and its registers become a range of the memory map.\<close>

definition virtio_zero :: "'w \<Rightarrow> 'z \<Rightarrow> ('w, 'z) virtio_device_scheme" where
  "virtio_zero world rest = \<lparr>vd_world = world, vd_irq = 0, int_status = 0, vd_status = 0,
     device_features_sel = 0, queue_sel = 0, queue = replicate MAX_QUEUE queue_zero, device_id = 0,
     vendor_id = 0, device_features = 0, config_space_size = 0,
     config_space = replicate MAX_CONFIG_SPACE_SIZE 0, \<dots> = rest\<rparr>"

definition virtio_init ::
  "'w virtio_bus \<Rightarrow> u64 \<Rightarrow> nat \<Rightarrow> nat \<Rightarrow> u32 \<Rightarrow> u32 \<Rightarrow> 'w \<Rightarrow> 'z \<Rightarrow> ('w, 'z) virtio_device_scheme option" where
  "virtio_init bus addr irq opaque dev_id config_size world rest = do {
     (_, memory) \<leftarrow> cpu_register_device (bus_map bus world) addr VIRTIO_PAGE_SIZE opaque
       (DEVIO_SIZE8 OR DEVIO_SIZE16 OR DEVIO_SIZE32);
     let s = (virtio_zero (bus_put_map bus memory world) rest)\<lparr>vd_irq := irq, device_id := dev_id,
       vendor_id := 0xffff, config_space_size := config_size\<rparr>;
     Some (virtio_reset s)
   }"

text \<open>\<open>malloc\<close> of a size that is an \<open>int\<close>, and the assertion that it succeeds: it does not for a negative size.\<close>

definition malloc_bytes :: "'w virtio_bus \<Rightarrow> u32 \<Rightarrow> u8 list option" where
  "malloc_bytes bus n = (if 0 \<le>s n then Some (List.map (bus_junk bus) [0..<unat n]) else None)"

subsection \<open>Memory of the guest\<close>

text \<open>\<open>assert(pr)\<close>, then an access through the virtual memory of the range.\<close>

definition guest_range :: "'w virtio_bus \<Rightarrow> u64 \<Rightarrow> ('w, 'z) virtio_device_scheme \<Rightarrow> (nat \<times> phys_mem_range \<times> vmm) option" where
  "guest_range bus addr s = do {
     i \<leftarrow> get_phys_mem_range (bus_map bus (vd_world s)) addr;
     pr \<leftarrow> range_at (bus_map bus (vd_world s)) i;
     v \<leftarrow> pr_vmm pr;
     Some (i, pr, v)
   }"

definition put_guest_range ::
  "'w virtio_bus \<Rightarrow> nat \<Rightarrow> phys_mem_range \<Rightarrow> vmm \<Rightarrow> ('w, 'z) virtio_device_scheme \<Rightarrow> ('w, 'z) virtio_device_scheme" where
  "put_guest_range bus i pr v s =
     s\<lparr>vd_world := bus_put_map bus (set_range (bus_map bus (vd_world s)) i (pr\<lparr>pr_vmm := Some v\<rparr>)) (vd_world s)\<rparr>"

definition virtio_memcpy_from_ram ::
  "'w virtio_bus \<Rightarrow> u64 \<Rightarrow> nat \<Rightarrow> ('w, 'z) virtio_device_scheme \<Rightarrow> (u8 list \<times> ('w, 'z) virtio_device_scheme) option" where
  "virtio_memcpy_from_ram bus addr count s = do {
     (i, pr, v) \<leftarrow> guest_range bus addr s;
     (bytes, v) \<leftarrow> vmm_read (bus_alloc bus) v (size_wrap (unat (addr - pr_addr pr))) (replicate count 0) count;
     Some (bytes, put_guest_range bus i pr v s)
   }"

definition virtio_memcpy_to_ram ::
  "'w virtio_bus \<Rightarrow> u64 \<Rightarrow> u8 list \<Rightarrow> ('w, 'z) virtio_device_scheme \<Rightarrow> ('w, 'z) virtio_device_scheme option" where
  "virtio_memcpy_to_ram bus addr bytes s = do {
     (i, pr, v) \<leftarrow> guest_range bus addr s;
     v \<leftarrow> vmm_write (bus_alloc bus) v (size_wrap (unat (addr - pr_addr pr))) bytes (length bytes);
     Some (put_guest_range bus i pr v s)
   }"

definition virtio_read16 ::
  "'w virtio_bus \<Rightarrow> u64 \<Rightarrow> ('w, 'z) virtio_device_scheme \<Rightarrow> (u16 \<times> ('w, 'z) virtio_device_scheme) option" where
  "virtio_read16 bus addr s =
     (if addr AND 1 \<noteq> 0 then Some (0, s)
      else do {
        (bytes, s) \<leftarrow> virtio_memcpy_from_ram bus addr 2 s;
        Some (le_word bytes, s)
      })"

definition virtio_write16 ::
  "'w virtio_bus \<Rightarrow> u64 \<Rightarrow> u16 \<Rightarrow> ('w, 'z) virtio_device_scheme \<Rightarrow> ('w, 'z) virtio_device_scheme option" where
  "virtio_write16 bus addr val s =
     (if addr AND 1 \<noteq> 0 then Some s else virtio_memcpy_to_ram bus addr (le_bytes 2 val) s)"

definition virtio_write32 ::
  "'w virtio_bus \<Rightarrow> u64 \<Rightarrow> u32 \<Rightarrow> ('w, 'z) virtio_device_scheme \<Rightarrow> ('w, 'z) virtio_device_scheme option" where
  "virtio_write32 bus addr val s =
     (if addr AND 3 \<noteq> 0 then Some s else virtio_memcpy_to_ram bus addr (le_bytes 4 val) s)"

subsection \<open>Descriptors\<close>

definition get_desc ::
  "'w virtio_bus \<Rightarrow> nat \<Rightarrow> u16 \<Rightarrow> ('w, 'z) virtio_device_scheme \<Rightarrow> (virtio_desc \<times> ('w, 'z) virtio_device_scheme) option" where
  "get_desc bus queue_idx desc_idx s = do {
     qs \<leftarrow> the_queue queue_idx s;
     (b, s) \<leftarrow> virtio_memcpy_from_ram bus (desc_addr qs + ucast desc_idx * 16) 16 s;
     Some (\<lparr>vdesc_addr = le_word (take 8 b), vdesc_len = le_word (take 4 (drop 8 b)),
       vdesc_flags = le_word (take 2 (drop 12 b)), vdesc_next = le_word (drop 14 b)\<rparr>, s)
   }"

definition has_next :: "virtio_desc \<Rightarrow> bool" where
  "has_next desc \<longleftrightarrow> vdesc_flags desc AND VRING_DESC_F_NEXT \<noteq> 0"

definition is_write :: "virtio_desc \<Rightarrow> bool" where
  "is_write desc \<longleftrightarrow> vdesc_flags desc AND VRING_DESC_F_WRITE \<noteq> 0"


subsection \<open>Copying to and from a request\<close>

text \<open>
  The three loops of \<open>memcpy_to_from_queue\<close>. \<open>buf\<close> is the whole buffer and \<open>pos\<close> the
  position of the pointer in it. The result is 0 or -1, and the buffer.
\<close>

partial_function (option) first_write ::
  "'w virtio_bus \<Rightarrow> nat \<Rightarrow> virtio_desc \<Rightarrow> ('w, 'z) virtio_device_scheme \<Rightarrow>
     (virtio_desc option \<times> ('w, 'z) virtio_device_scheme) option" where
  "first_write bus queue_idx desc s =
     (if is_write desc then Some (Some desc, s)
      else if \<not> has_next desc then Some (None, s)
      else Option.bind (get_desc bus queue_idx (vdesc_next desc) s) (\<lambda>r. first_write bus queue_idx (fst r) (snd r)))"

partial_function (option) desc_at_offset ::
  "'w virtio_bus \<Rightarrow> nat \<Rightarrow> bool \<Rightarrow> virtio_desc \<Rightarrow> u32 \<Rightarrow> ('w, 'z) virtio_device_scheme \<Rightarrow>
     ((virtio_desc \<times> u32) option \<times> ('w, 'z) virtio_device_scheme) option" where
  "desc_at_offset bus queue_idx write_flag desc offset s =
     (if is_write desc \<noteq> write_flag then Some (None, s)
      else if offset < vdesc_len desc then Some (Some (desc, offset), s)
      else if \<not> has_next desc then Some (None, s)
      else Option.bind (get_desc bus queue_idx (vdesc_next desc) s) (\<lambda>r.
        desc_at_offset bus queue_idx write_flag (fst r) (offset - vdesc_len desc) (snd r)))"

definition min_int :: "u32 \<Rightarrow> u32 \<Rightarrow> u32" where
  "min_int a b = (if a <s b then a else b)"

definition copy_piece ::
  "'w virtio_bus \<Rightarrow> bool \<Rightarrow> u64 \<Rightarrow> u8 list \<Rightarrow> nat \<Rightarrow> u32 \<Rightarrow> ('w, 'z) virtio_device_scheme \<Rightarrow>
     (u8 list \<times> ('w, 'z) virtio_device_scheme) option" where
  "copy_piece bus to_queue addr buf pos l s = do {
     guard (0 \<le>s l \<and> pos + unat l \<le> length buf);
     if to_queue then do {
       s \<leftarrow> virtio_memcpy_to_ram bus addr (slice buf pos (unat l)) s;
       Some (buf, s)
     } else do {
       (bytes, s) \<leftarrow> virtio_memcpy_from_ram bus addr (unat l) s;
       Some (splice buf pos bytes, s)
     }
   }"

partial_function (option) copy_loop ::
  "'w virtio_bus \<Rightarrow> nat \<Rightarrow> bool \<Rightarrow> virtio_desc \<Rightarrow> u32 \<Rightarrow> u8 list \<Rightarrow> nat \<Rightarrow> u32 \<Rightarrow> ('w, 'z) virtio_device_scheme \<Rightarrow>
     (int \<times> u8 list \<times> ('w, 'z) virtio_device_scheme) option" where
  "copy_loop bus queue_idx to_queue desc offset buf pos count s =
     (let l = min_int count (vdesc_len desc - offset) in
      Option.bind (copy_piece bus to_queue (vdesc_addr desc + scast offset) buf pos l s) (\<lambda>r.
        if count - l = 0 then Some (0, r)
        else if offset + l = vdesc_len desc then
          if \<not> has_next desc then Some (- 1, r)
          else Option.bind (get_desc bus queue_idx (vdesc_next desc) (snd r)) (\<lambda>d.
            if is_write (fst d) \<noteq> to_queue then Some (- 1, fst r, snd d)
            else copy_loop bus queue_idx to_queue (fst d) 0 (fst r) (pos + unat l) (count - l) (snd d))
        else copy_loop bus queue_idx to_queue desc (offset + l) (fst r) (pos + unat l) (count - l) (snd r)))"

definition memcpy_to_from_queue ::
  "'w virtio_bus \<Rightarrow> u8 list \<Rightarrow> nat \<Rightarrow> u16 \<Rightarrow> u32 \<Rightarrow> u32 \<Rightarrow> bool \<Rightarrow> ('w, 'z) virtio_device_scheme \<Rightarrow>
     (int \<times> u8 list \<times> ('w, 'z) virtio_device_scheme) option" where
  "memcpy_to_from_queue bus buf queue_idx desc_idx offset count to_queue s =
     (if count = 0 then Some (0, buf, s)
      else do {
        (desc, s) \<leftarrow> get_desc bus queue_idx desc_idx s;
        (first, s) \<leftarrow> (if to_queue then first_write bus queue_idx desc s else Some (Some desc, s));
        case first of
          None \<Rightarrow> Some (- 1, buf, s)
        | Some desc \<Rightarrow> do {
            (start, s) \<leftarrow> desc_at_offset bus queue_idx to_queue desc offset s;
            case start of
              None \<Rightarrow> Some (- 1, buf, s)
            | Some (desc, offset) \<Rightarrow> copy_loop bus queue_idx to_queue desc offset buf 0 count s
          }
      })"

definition memcpy_from_queue ::
  "'w virtio_bus \<Rightarrow> u8 list \<Rightarrow> nat \<Rightarrow> u16 \<Rightarrow> u32 \<Rightarrow> u32 \<Rightarrow> ('w, 'z) virtio_device_scheme \<Rightarrow>
     (int \<times> u8 list \<times> ('w, 'z) virtio_device_scheme) option" where
  "memcpy_from_queue bus buf queue_idx desc_idx offset count s =
     memcpy_to_from_queue bus buf queue_idx desc_idx offset count False s"

definition memcpy_to_queue ::
  "'w virtio_bus \<Rightarrow> nat \<Rightarrow> u16 \<Rightarrow> u32 \<Rightarrow> u8 list \<Rightarrow> u32 \<Rightarrow> ('w, 'z) virtio_device_scheme \<Rightarrow>
     (int \<times> ('w, 'z) virtio_device_scheme) option" where
  "memcpy_to_queue bus queue_idx desc_idx offset buf count s = do {
     (ret, _, s) \<leftarrow> memcpy_to_from_queue bus buf queue_idx desc_idx offset count True s;
     Some (ret, s)
   }"

subsection \<open>Completing a request, and taking the next ones\<close>

definition virtio_consume_desc ::
  "'w virtio_bus \<Rightarrow> nat \<Rightarrow> u16 \<Rightarrow> u32 \<Rightarrow> ('w, 'z) virtio_device_scheme \<Rightarrow> ('w, 'z) virtio_device_scheme option" where
  "virtio_consume_desc bus queue_idx desc_idx desc_len s = do {
     qs \<leftarrow> the_queue queue_idx s;
     (index, s) \<leftarrow> virtio_read16 bus (used_addr qs + 2) s;
     s \<leftarrow> virtio_write16 bus (used_addr qs + 2) (index + 1) s;
     let addr = used_addr qs + 4 + ucast ((ucast index AND (num qs - 1)) * 8 :: u32);
     s \<leftarrow> virtio_write32 bus addr (ucast desc_idx) s;
     s \<leftarrow> virtio_write32 bus (addr + 4) desc_len s;
     Some (virtio_set_irq bus True (s\<lparr>int_status := int_status s OR 1\<rparr>))
   }"

text \<open>
  The descriptors the device reads come before those it writes. The first loop gives the descriptor
  it stops at, or nothing where the chain has ended (\<open>goto done\<close>).
\<close>

partial_function (option) read_part ::
  "'w virtio_bus \<Rightarrow> nat \<Rightarrow> virtio_desc \<Rightarrow> u32 \<Rightarrow> ('w, 'z) virtio_device_scheme \<Rightarrow>
     ((virtio_desc option \<times> u32) \<times> ('w, 'z) virtio_device_scheme) option" where
  "read_part bus queue_idx desc read_size s =
     (if is_write desc then Some ((Some desc, read_size), s)
      else if \<not> has_next desc then Some ((None, read_size + vdesc_len desc), s)
      else Option.bind (get_desc bus queue_idx (vdesc_next desc) s) (\<lambda>r.
        read_part bus queue_idx (fst r) (read_size + vdesc_len desc) (snd r)))"

partial_function (option) write_part ::
  "'w virtio_bus \<Rightarrow> nat \<Rightarrow> virtio_desc \<Rightarrow> u32 \<Rightarrow> ('w, 'z) virtio_device_scheme \<Rightarrow>
     (u32 option \<times> ('w, 'z) virtio_device_scheme) option" where
  "write_part bus queue_idx desc write_size s =
     (if \<not> is_write desc then Some (None, s)
      else if \<not> has_next desc then Some (Some (write_size + vdesc_len desc), s)
      else Option.bind (get_desc bus queue_idx (vdesc_next desc) s) (\<lambda>r.
        write_part bus queue_idx (fst r) (write_size + vdesc_len desc) (snd r)))"

text \<open>The sizes of the two parts, or nothing for -1.\<close>

definition get_desc_rw_size ::
  "'w virtio_bus \<Rightarrow> nat \<Rightarrow> u16 \<Rightarrow> ('w, 'z) virtio_device_scheme \<Rightarrow>
     ((u32 \<times> u32) option \<times> ('w, 'z) virtio_device_scheme) option" where
  "get_desc_rw_size bus queue_idx desc_idx s = do {
     (desc, s) \<leftarrow> get_desc bus queue_idx desc_idx s;
     ((rest, read_size), s) \<leftarrow> read_part bus queue_idx desc 0 s;
     case rest of
       None \<Rightarrow> Some (Some (read_size, 0), s)
     | Some desc \<Rightarrow> do {
         (write_size, s) \<leftarrow> write_part bus queue_idx desc 0 s;
         Some (map_option (\<lambda>w. (read_size, w)) write_size, s)
       }
   }"

text \<open>The index of the first descriptor of the next request.\<close>

definition avail_desc ::
  "'w virtio_bus \<Rightarrow> queue_state \<Rightarrow> ('w, 'z) virtio_device_scheme \<Rightarrow> (u16 \<times> ('w, 'z) virtio_device_scheme) option" where
  "avail_desc bus qs s =
     virtio_read16 bus (avail_addr qs + 4 + ucast ((ucast (last_avail_idx qs) AND (num qs - 1)) * 2 :: u32)) s"

definition next_avail :: "nat \<Rightarrow> ('w, 'z) virtio_device_scheme \<Rightarrow> ('w, 'z) virtio_device_scheme" where
  "next_avail queue_idx s = upd_queue queue_idx (\<lambda>qs. qs\<lparr>last_avail_idx := last_avail_idx qs + 1\<rparr>) s"

text \<open>One round of the loop; the flag says whether the device stops the notification.\<close>

definition notify_round ::
  "'w virtio_bus \<Rightarrow> ('w, 'z) virtio_device_scheme virtio_ops \<Rightarrow> nat \<Rightarrow> queue_state \<Rightarrow> ('w, 'z) virtio_device_scheme \<Rightarrow>
     (bool \<times> ('w, 'z) virtio_device_scheme) option" where
  "notify_round bus ops queue_idx qs s = do {
     (desc_idx, s) \<leftarrow> avail_desc bus qs s;
     (sizes, s) \<leftarrow> get_desc_rw_size bus queue_idx desc_idx s;
     case sizes of
       None \<Rightarrow> Some (False, next_avail queue_idx s)
     | Some (read_size, write_size) \<Rightarrow> do {
         (ret, s) \<leftarrow> device_recv ops queue_idx desc_idx read_size write_size s;
         Some (if ret < 0 then (True, s) else (False, next_avail queue_idx s))
       }
   }"

partial_function (option) notify_loop ::
  "'w virtio_bus \<Rightarrow> ('w, 'z) virtio_device_scheme virtio_ops \<Rightarrow> nat \<Rightarrow> u16 \<Rightarrow> ('w, 'z) virtio_device_scheme \<Rightarrow>
     ('w, 'z) virtio_device_scheme option" where
  "notify_loop bus ops queue_idx avail_idx s =
     Option.bind (the_queue queue_idx s) (\<lambda>qs.
       if last_avail_idx qs = avail_idx then Some s
       else Option.bind (notify_round bus ops queue_idx qs s) (\<lambda>r.
         if fst r then Some (snd r) else notify_loop bus ops queue_idx avail_idx (snd r)))"

definition queue_notify ::
  "'w virtio_bus \<Rightarrow> ('w, 'z) virtio_device_scheme virtio_ops \<Rightarrow> nat \<Rightarrow> ('w, 'z) virtio_device_scheme \<Rightarrow>
     ('w, 'z) virtio_device_scheme option" where
  "queue_notify bus ops queue_idx s = do {
     qs \<leftarrow> the_queue queue_idx s;
     if manual_recv qs then Some s
     else do {
       (avail_idx, s) \<leftarrow> virtio_read16 bus (avail_addr qs + 2) s;
       notify_loop bus ops queue_idx avail_idx s
     }
   }"

end
