(* ===== verification/VirtioRegs.thy ===== *)
theory VirtioRegs
  imports Virtio
begin

unbundle bit_operations_syntax

section \<open>Virtio devices: the registers (virtio.c)\<close>

text \<open>
  The reads and writes of the guest, in the MMIO layout and in the layout of the PCI transport, with
  the configuration space of the device behind them. \<open>size_log2\<close> is the size of the access.
\<close>

subsection \<open>The configuration space\<close>

text \<open>The bytes at an offset; outside the array the C code is undefined.\<close>

definition config_bytes :: "nat \<Rightarrow> u32 \<Rightarrow> ('w, 'z) virtio_device_scheme \<Rightarrow> u8 list option" where
  "config_bytes n offset s = mem_load (config_space s) (unat offset) n"

definition virtio_config_read :: "u32 \<Rightarrow> nat \<Rightarrow> ('w, 'z) virtio_device_scheme \<Rightarrow> u32 option" where
  "virtio_config_read offset size_log2 s =
     (if size_log2 = 0 then
        if offset < config_space_size s then map_option le_word (config_bytes 1 offset s) else Some 0
      else if size_log2 = 1 then
        if offset < config_space_size s - 1 then map_option le_word (config_bytes 2 offset s) else Some 0
      else if size_log2 = 2 then
        if offset < config_space_size s - 3 then map_option le_word (config_bytes 4 offset s) else Some 0
      else None)"

definition put_config ::
  "('w, 'z) virtio_device_scheme virtio_ops \<Rightarrow> u32 \<Rightarrow> u8 list \<Rightarrow> ('w, 'z) virtio_device_scheme \<Rightarrow>
     ('w, 'z) virtio_device_scheme option" where
  "put_config ops offset bytes s = do {
     space \<leftarrow> mem_store (config_space s) (unat offset) bytes;
     config_write ops (s\<lparr>config_space := space\<rparr>)
   }"

definition virtio_config_write ::
  "('w, 'z) virtio_device_scheme virtio_ops \<Rightarrow> u32 \<Rightarrow> u32 \<Rightarrow> nat \<Rightarrow> ('w, 'z) virtio_device_scheme \<Rightarrow>
     ('w, 'z) virtio_device_scheme option" where
  "virtio_config_write ops offset val size_log2 s =
     (if size_log2 = 0 then
        if offset < config_space_size s then put_config ops offset (le_bytes 1 val) s else Some s
      else if size_log2 = 1 then
        if offset < config_space_size s - 1 then put_config ops offset (le_bytes 2 val) s else Some s
      else if size_log2 = 2 then
        if offset < config_space_size s - 3 then put_config ops offset (le_bytes 4 val) s else Some s
      else Some s)"

subsection \<open>What the registers do\<close>

text \<open>The queue that is selected, and a change of it.\<close>

definition selected :: "('w, 'z) virtio_device_scheme \<Rightarrow> queue_state option" where
  "selected s = the_queue (unat (queue_sel s)) s"

definition upd_selected ::
  "(queue_state \<Rightarrow> queue_state) \<Rightarrow> ('w, 'z) virtio_device_scheme \<Rightarrow> ('w, 'z) virtio_device_scheme option" where
  "upd_selected f s = do {
     _ \<leftarrow> selected s;
     Some (upd_queue (unat (queue_sel s)) f s)
   }"

definition set_low32 :: "u32 \<Rightarrow> u64 \<Rightarrow> u64" where
  "set_low32 val paddr = (paddr AND NOT 0xffffffff) OR ucast val"

definition set_high32 :: "u32 \<Rightarrow> u64 \<Rightarrow> u64" where
  "set_high32 val paddr = (paddr AND 0xffffffff) OR push_bit 32 (ucast val)"

definition high32 :: "u64 \<Rightarrow> u32" where
  "high32 paddr = ucast (drop_bit 32 paddr)"

definition read_features :: "('w, 'z) virtio_device_scheme \<Rightarrow> u32" where
  "read_features s =
     (if device_features_sel s = 0 then device_features s else if device_features_sel s = 1 then 1 else 0)"

definition select_queue :: "u32 \<Rightarrow> ('w, 'z) virtio_device_scheme \<Rightarrow> ('w, 'z) virtio_device_scheme" where
  "select_queue val s = (if val < word_of_nat MAX_QUEUE then s\<lparr>queue_sel := val\<rparr> else s)"

definition set_queue_num :: "u32 \<Rightarrow> ('w, 'z) virtio_device_scheme \<Rightarrow> ('w, 'z) virtio_device_scheme option" where
  "set_queue_num val s =
     (if val AND (val - 1) = 0 \<and> val > 0 then upd_selected (num_update (\<lambda>_. val)) s else Some s)"

definition set_status :: "'w virtio_bus \<Rightarrow> u32 \<Rightarrow> ('w, 'z) virtio_device_scheme \<Rightarrow> ('w, 'z) virtio_device_scheme" where
  "set_status bus val s =
     (let s = s\<lparr>vd_status := val\<rparr> in if val = 0 then virtio_reset (virtio_set_irq bus False s) else s)"

definition notify_register ::
  "'w virtio_bus \<Rightarrow> ('w, 'z) virtio_device_scheme virtio_ops \<Rightarrow> u32 \<Rightarrow> ('w, 'z) virtio_device_scheme \<Rightarrow>
     ('w, 'z) virtio_device_scheme option" where
  "notify_register bus ops val s =
     (if val < word_of_nat MAX_QUEUE then queue_notify bus ops (unat val) s else Some s)"

subsection \<open>MMIO\<close>

definition virtio_mmio_read ::
  "u32 \<Rightarrow> nat \<Rightarrow> ('w, 'z) virtio_device_scheme \<Rightarrow> u32 option" where
  "virtio_mmio_read offset size_log2 s =
     (if offset \<ge> VIRTIO_MMIO_CONFIG then virtio_config_read (offset - VIRTIO_MMIO_CONFIG) size_log2 s
      else if size_log2 = 2 then
        if offset = VIRTIO_MMIO_MAGIC_VALUE then Some 0x74726976
        else if offset = VIRTIO_MMIO_VERSION then Some 2
        else if offset = VIRTIO_MMIO_DEVICE_ID then Some (device_id s)
        else if offset = VIRTIO_MMIO_VENDOR_ID then Some (vendor_id s)
        else if offset = VIRTIO_MMIO_DEVICE_FEATURES then Some (read_features s)
        else if offset = VIRTIO_MMIO_DEVICE_FEATURES_SEL then Some (device_features_sel s)
        else if offset = VIRTIO_MMIO_QUEUE_SEL then Some (queue_sel s)
        else if offset = VIRTIO_MMIO_QUEUE_NUM_MAX then Some MAX_QUEUE_NUM
        else if offset = VIRTIO_MMIO_QUEUE_NUM then map_option num (selected s)
        else if offset = VIRTIO_MMIO_QUEUE_DESC_LOW then map_option (\<lambda>qs. ucast (desc_addr qs)) (selected s)
        else if offset = VIRTIO_MMIO_QUEUE_AVAIL_LOW then map_option (\<lambda>qs. ucast (avail_addr qs)) (selected s)
        else if offset = VIRTIO_MMIO_QUEUE_USED_LOW then map_option (\<lambda>qs. ucast (used_addr qs)) (selected s)
        else if offset = VIRTIO_MMIO_QUEUE_DESC_HIGH then map_option (\<lambda>qs. high32 (desc_addr qs)) (selected s)
        else if offset = VIRTIO_MMIO_QUEUE_AVAIL_HIGH then map_option (\<lambda>qs. high32 (avail_addr qs)) (selected s)
        else if offset = VIRTIO_MMIO_QUEUE_USED_HIGH then map_option (\<lambda>qs. high32 (used_addr qs)) (selected s)
        else if offset = VIRTIO_MMIO_QUEUE_READY then map_option ready (selected s)
        else if offset = VIRTIO_MMIO_INTERRUPT_STATUS then Some (int_status s)
        else if offset = VIRTIO_MMIO_STATUS then Some (vd_status s)
        else if offset = VIRTIO_MMIO_CONFIG_GENERATION then Some 0
        else Some 0
      else Some 0)"

definition virtio_mmio_write ::
  "'w virtio_bus \<Rightarrow> ('w, 'z) virtio_device_scheme virtio_ops \<Rightarrow> u32 \<Rightarrow> u32 \<Rightarrow> nat \<Rightarrow> ('w, 'z) virtio_device_scheme \<Rightarrow>
     ('w, 'z) virtio_device_scheme option" where
  "virtio_mmio_write bus ops offset val size_log2 s =
     (if offset \<ge> VIRTIO_MMIO_CONFIG then virtio_config_write ops (offset - VIRTIO_MMIO_CONFIG) val size_log2 s
      else if size_log2 = 2 then
        if offset = VIRTIO_MMIO_DEVICE_FEATURES_SEL then Some (s\<lparr>device_features_sel := val\<rparr>)
        else if offset = VIRTIO_MMIO_QUEUE_SEL then Some (select_queue val s)
        else if offset = VIRTIO_MMIO_QUEUE_NUM then set_queue_num val s
        else if offset = VIRTIO_MMIO_QUEUE_DESC_LOW then upd_selected (desc_addr_update (set_low32 val)) s
        else if offset = VIRTIO_MMIO_QUEUE_AVAIL_LOW then upd_selected (avail_addr_update (set_low32 val)) s
        else if offset = VIRTIO_MMIO_QUEUE_USED_LOW then upd_selected (used_addr_update (set_low32 val)) s
        else if offset = VIRTIO_MMIO_QUEUE_DESC_HIGH then upd_selected (desc_addr_update (set_high32 val)) s
        else if offset = VIRTIO_MMIO_QUEUE_AVAIL_HIGH then upd_selected (avail_addr_update (set_high32 val)) s
        else if offset = VIRTIO_MMIO_QUEUE_USED_HIGH then upd_selected (used_addr_update (set_high32 val)) s
        else if offset = VIRTIO_MMIO_STATUS then Some (set_status bus val s)
        else if offset = VIRTIO_MMIO_QUEUE_READY then upd_selected (ready_update (\<lambda>_. val AND 1)) s
        else if offset = VIRTIO_MMIO_QUEUE_NOTIFY then notify_register bus ops val s
        else if offset = VIRTIO_MMIO_INTERRUPT_ACK then
          let s = s\<lparr>int_status := int_status s AND NOT val\<rparr>
          in Some (if int_status s = 0 then virtio_set_irq bus False s else s)
        else Some s
      else Some s)"

subsection \<open>PCI\<close>

definition VIRTIO_PCI_DEVICE_FEATURE_SEL :: u32 where "VIRTIO_PCI_DEVICE_FEATURE_SEL = 0x000"
definition VIRTIO_PCI_DEVICE_FEATURE :: u32 where "VIRTIO_PCI_DEVICE_FEATURE = 0x004"
definition VIRTIO_PCI_GUEST_FEATURE_SEL :: u32 where "VIRTIO_PCI_GUEST_FEATURE_SEL = 0x008"
definition VIRTIO_PCI_GUEST_FEATURE :: u32 where "VIRTIO_PCI_GUEST_FEATURE = 0x00c"
definition VIRTIO_PCI_MSIX_CONFIG :: u32 where "VIRTIO_PCI_MSIX_CONFIG = 0x010"
definition VIRTIO_PCI_NUM_QUEUES :: u32 where "VIRTIO_PCI_NUM_QUEUES = 0x012"
definition VIRTIO_PCI_DEVICE_STATUS :: u32 where "VIRTIO_PCI_DEVICE_STATUS = 0x014"
definition VIRTIO_PCI_CONFIG_GENERATION :: u32 where "VIRTIO_PCI_CONFIG_GENERATION = 0x015"
definition VIRTIO_PCI_QUEUE_SEL :: u32 where "VIRTIO_PCI_QUEUE_SEL = 0x016"
definition VIRTIO_PCI_QUEUE_SIZE :: u32 where "VIRTIO_PCI_QUEUE_SIZE = 0x018"
definition VIRTIO_PCI_QUEUE_MSIX_VECTOR :: u32 where "VIRTIO_PCI_QUEUE_MSIX_VECTOR = 0x01a"
definition VIRTIO_PCI_QUEUE_ENABLE :: u32 where "VIRTIO_PCI_QUEUE_ENABLE = 0x01c"
definition VIRTIO_PCI_QUEUE_NOTIFY_OFF :: u32 where "VIRTIO_PCI_QUEUE_NOTIFY_OFF = 0x01e"
definition VIRTIO_PCI_QUEUE_DESC_LOW :: u32 where "VIRTIO_PCI_QUEUE_DESC_LOW = 0x020"
definition VIRTIO_PCI_QUEUE_DESC_HIGH :: u32 where "VIRTIO_PCI_QUEUE_DESC_HIGH = 0x024"
definition VIRTIO_PCI_QUEUE_AVAIL_LOW :: u32 where "VIRTIO_PCI_QUEUE_AVAIL_LOW = 0x028"
definition VIRTIO_PCI_QUEUE_AVAIL_HIGH :: u32 where "VIRTIO_PCI_QUEUE_AVAIL_HIGH = 0x02c"
definition VIRTIO_PCI_QUEUE_USED_LOW :: u32 where "VIRTIO_PCI_QUEUE_USED_LOW = 0x030"
definition VIRTIO_PCI_QUEUE_USED_HIGH :: u32 where "VIRTIO_PCI_QUEUE_USED_HIGH = 0x034"
definition VIRTIO_PCI_CFG_OFFSET :: u32 where "VIRTIO_PCI_CFG_OFFSET = 0x0000"
definition VIRTIO_PCI_ISR_OFFSET :: u32 where "VIRTIO_PCI_ISR_OFFSET = 0x1000"
definition VIRTIO_PCI_CONFIG_OFFSET :: u32 where "VIRTIO_PCI_CONFIG_OFFSET = 0x2000"
definition VIRTIO_PCI_NOTIFY_OFFSET :: u32 where "VIRTIO_PCI_NOTIFY_OFFSET = 0x3000"

lemmas pci_registers =
  VIRTIO_PCI_DEVICE_FEATURE_SEL_def VIRTIO_PCI_DEVICE_FEATURE_def VIRTIO_PCI_GUEST_FEATURE_SEL_def
  VIRTIO_PCI_GUEST_FEATURE_def VIRTIO_PCI_MSIX_CONFIG_def VIRTIO_PCI_NUM_QUEUES_def
  VIRTIO_PCI_DEVICE_STATUS_def VIRTIO_PCI_CONFIG_GENERATION_def VIRTIO_PCI_QUEUE_SEL_def
  VIRTIO_PCI_QUEUE_SIZE_def VIRTIO_PCI_QUEUE_MSIX_VECTOR_def VIRTIO_PCI_QUEUE_ENABLE_def
  VIRTIO_PCI_QUEUE_NOTIFY_OFF_def VIRTIO_PCI_QUEUE_DESC_LOW_def VIRTIO_PCI_QUEUE_DESC_HIGH_def
  VIRTIO_PCI_QUEUE_AVAIL_LOW_def VIRTIO_PCI_QUEUE_AVAIL_HIGH_def VIRTIO_PCI_QUEUE_USED_LOW_def
  VIRTIO_PCI_QUEUE_USED_HIGH_def VIRTIO_PCI_CFG_OFFSET_def VIRTIO_PCI_ISR_OFFSET_def
  VIRTIO_PCI_CONFIG_OFFSET_def VIRTIO_PCI_NOTIFY_OFFSET_def

text \<open>Reading the interrupt status acknowledges the interrupt.\<close>

definition virtio_pci_read ::
  "'w virtio_bus \<Rightarrow> u32 \<Rightarrow> nat \<Rightarrow> ('w, 'z) virtio_device_scheme \<Rightarrow> (u32 \<times> ('w, 'z) virtio_device_scheme) option" where
  "virtio_pci_read bus offset1 size_log2 s =
     (let offset = offset1 AND 0xfff; page = drop_bit 12 offset1; pure = map_option (\<lambda>v. (v, s)) in
      if page = drop_bit 12 VIRTIO_PCI_CFG_OFFSET then
        if size_log2 = 2 then
          if offset = VIRTIO_PCI_DEVICE_FEATURE then Some (read_features s, s)
          else if offset = VIRTIO_PCI_DEVICE_FEATURE_SEL then Some (device_features_sel s, s)
          else if offset = VIRTIO_PCI_QUEUE_DESC_LOW then pure (map_option (\<lambda>qs. ucast (desc_addr qs)) (selected s))
          else if offset = VIRTIO_PCI_QUEUE_AVAIL_LOW then pure (map_option (\<lambda>qs. ucast (avail_addr qs)) (selected s))
          else if offset = VIRTIO_PCI_QUEUE_USED_LOW then pure (map_option (\<lambda>qs. ucast (used_addr qs)) (selected s))
          else if offset = VIRTIO_PCI_QUEUE_DESC_HIGH then pure (map_option (\<lambda>qs. high32 (desc_addr qs)) (selected s))
          else if offset = VIRTIO_PCI_QUEUE_AVAIL_HIGH then pure (map_option (\<lambda>qs. high32 (avail_addr qs)) (selected s))
          else if offset = VIRTIO_PCI_QUEUE_USED_HIGH then pure (map_option (\<lambda>qs. high32 (used_addr qs)) (selected s))
          else Some (0, s)
        else if size_log2 = 1 then
          if offset = VIRTIO_PCI_NUM_QUEUES then Some (MAX_QUEUE_NUM, s)
          else if offset = VIRTIO_PCI_QUEUE_SEL then Some (queue_sel s, s)
          else if offset = VIRTIO_PCI_QUEUE_SIZE then pure (map_option num (selected s))
          else if offset = VIRTIO_PCI_QUEUE_ENABLE then pure (map_option ready (selected s))
          else if offset = VIRTIO_PCI_QUEUE_NOTIFY_OFF then Some (0, s)
          else Some (0, s)
        else if size_log2 = 0 then
          if offset = VIRTIO_PCI_DEVICE_STATUS then Some (vd_status s, s) else Some (0, s)
        else Some (0, s)
      else if page = drop_bit 12 VIRTIO_PCI_ISR_OFFSET then
        if offset = 0 \<and> size_log2 = 0
        then Some (int_status s, virtio_set_irq bus False (s\<lparr>int_status := 0\<rparr>)) else Some (0, s)
      else if page = drop_bit 12 VIRTIO_PCI_CONFIG_OFFSET then pure (virtio_config_read offset size_log2 s)
      else Some (0, s))"

definition virtio_pci_write ::
  "'w virtio_bus \<Rightarrow> ('w, 'z) virtio_device_scheme virtio_ops \<Rightarrow> u32 \<Rightarrow> u32 \<Rightarrow> nat \<Rightarrow> ('w, 'z) virtio_device_scheme \<Rightarrow>
     ('w, 'z) virtio_device_scheme option" where
  "virtio_pci_write bus ops offset1 val size_log2 s =
     (let offset = offset1 AND 0xfff; page = drop_bit 12 offset1 in
      if page = drop_bit 12 VIRTIO_PCI_CFG_OFFSET then
        if size_log2 = 2 then
          if offset = VIRTIO_PCI_DEVICE_FEATURE_SEL then Some (s\<lparr>device_features_sel := val\<rparr>)
          else if offset = VIRTIO_PCI_QUEUE_DESC_LOW then upd_selected (desc_addr_update (set_low32 val)) s
          else if offset = VIRTIO_PCI_QUEUE_AVAIL_LOW then upd_selected (avail_addr_update (set_low32 val)) s
          else if offset = VIRTIO_PCI_QUEUE_USED_LOW then upd_selected (used_addr_update (set_low32 val)) s
          else if offset = VIRTIO_PCI_QUEUE_DESC_HIGH then upd_selected (desc_addr_update (set_high32 val)) s
          else if offset = VIRTIO_PCI_QUEUE_AVAIL_HIGH then upd_selected (avail_addr_update (set_high32 val)) s
          else if offset = VIRTIO_PCI_QUEUE_USED_HIGH then upd_selected (used_addr_update (set_high32 val)) s
          else Some s
        else if size_log2 = 1 then
          if offset = VIRTIO_PCI_QUEUE_SEL then Some (select_queue val s)
          else if offset = VIRTIO_PCI_QUEUE_SIZE then set_queue_num val s
          else if offset = VIRTIO_PCI_QUEUE_ENABLE then upd_selected (ready_update (\<lambda>_. val AND 1)) s
          else Some s
        else if size_log2 = 0 then
          if offset = VIRTIO_PCI_DEVICE_STATUS then Some (set_status bus val s) else Some s
        else Some s
      else if page = drop_bit 12 VIRTIO_PCI_CONFIG_OFFSET then virtio_config_write ops offset val size_log2 s
      else if page = drop_bit 12 VIRTIO_PCI_NOTIFY_OFFSET then notify_register bus ops val s
      else Some s)"

definition virtio_config_change_notify ::
  "'w virtio_bus \<Rightarrow> ('w, 'z) virtio_device_scheme \<Rightarrow> ('w, 'z) virtio_device_scheme" where
  "virtio_config_change_notify bus s = virtio_set_irq bus True (s\<lparr>int_status := int_status s OR 2\<rparr>)"

end
