(* ===== verification/VirtioDevices.thy ===== *)
theory VirtioDevices
  imports VirtioRegs
begin

unbundle bit_operations_syntax

section \<open>Virtio devices: disk, network, console, input (virtio.c)\<close>

text \<open>
  The kinds of devices on top of the queues. What is behind a device, the disk image, the network
  and the terminal, is reached through function pointers, which are arguments here: they act on the
  world of the device.
\<close>

type_synonym ('w, 'z) vstate = "('w, 'z) virtio_device_scheme"

subsection \<open>Disk\<close>

record 'w virtio_block = "'w virtio_device" +
  req_in_progress :: bool
  req_type :: u32
  req_buf :: "u8 list"
  req_write_size :: u32
  req_queue_idx :: nat
  req_desc_idx :: u16

text \<open>
  \<open>read_async\<close> gives its result and what it has put into the start of the buffer so far. A
  positive result says that the request is in progress: the rest of the buffer is filled before
  \<open>virtio_block_req_cb\<close> is called.
\<close>

record 'w block_backend =
  get_sector_count :: "'w \<Rightarrow> u64"
  read_async :: "u64 \<Rightarrow> u32 \<Rightarrow> 'w \<Rightarrow> (int \<times> u8 list \<times> 'w) option"
  write_async :: "u64 \<Rightarrow> u8 list \<Rightarrow> u32 \<Rightarrow> 'w \<Rightarrow> (int \<times> 'w) option"

definition VIRTIO_BLK_T_IN :: u32 where "VIRTIO_BLK_T_IN = 0"
definition VIRTIO_BLK_T_OUT :: u32 where "VIRTIO_BLK_T_OUT = 1"
definition VIRTIO_BLK_S_OK :: u8 where "VIRTIO_BLK_S_OK = 0"
definition VIRTIO_BLK_S_IOERR :: u8 where "VIRTIO_BLK_S_IOERR = 1"
definition SECTOR_SIZE :: u32 where "SECTOR_SIZE = 512"

text \<open>\<open>n / SECTOR_SIZE\<close> on \<open>int\<close>, which truncates.\<close>

definition sectors :: "u32 \<Rightarrow> u32" where
  "sectors n = (if n <s 0 then - (- n div SECTOR_SIZE) else n div SECTOR_SIZE)"

definition block_status :: "int \<Rightarrow> u8" where
  "block_status ret = (if ret < 0 then VIRTIO_BLK_S_IOERR else VIRTIO_BLK_S_OK)"

definition virtio_block_req_end ::
  "'w virtio_bus \<Rightarrow> int \<Rightarrow> ('w, 'z) virtio_block_scheme \<Rightarrow> ('w, 'z) virtio_block_scheme option" where
  "virtio_block_req_end bus ret s =
     (if req_type s = VIRTIO_BLK_T_IN then do {
        guard (0 < req_write_size s);
        buf \<leftarrow> mem_store (req_buf s) (unat (req_write_size s - 1)) [block_status ret];
        (_, s) \<leftarrow> memcpy_to_queue bus (req_queue_idx s) (req_desc_idx s) 0 buf (req_write_size s) s;
        virtio_consume_desc bus (req_queue_idx s) (req_desc_idx s) (req_write_size s) s
      } else if req_type s = VIRTIO_BLK_T_OUT then do {
        (_, s) \<leftarrow> memcpy_to_queue bus (req_queue_idx s) (req_desc_idx s) 0 [block_status ret] 1 s;
        virtio_consume_desc bus (req_queue_idx s) (req_desc_idx s) 1 s
      } else None)"

definition block_finish ::
  "'w virtio_bus \<Rightarrow> int \<Rightarrow> ('w, 'z) virtio_block_scheme \<Rightarrow> ('w, 'z) virtio_block_scheme option" where
  "block_finish bus ret s =
     (if ret > 0 then Some (s\<lparr>req_in_progress := True\<rparr>) else virtio_block_req_end bus ret s)"

definition virtio_block_recv_request ::
  "'w virtio_bus \<Rightarrow> 'w block_backend \<Rightarrow> nat \<Rightarrow> u16 \<Rightarrow> u32 \<Rightarrow> u32 \<Rightarrow> ('w, 'z) virtio_block_scheme \<Rightarrow>
     (int \<times> ('w, 'z) virtio_block_scheme) option" where
  "virtio_block_recv_request bus bs queue_idx desc_idx read_size write_size s =
     (if req_in_progress s then Some (- 1, s)
      else do {
        (ret, h, s) \<leftarrow> memcpy_from_queue bus (replicate 16 0) queue_idx desc_idx 0 16 s;
        if ret < 0 then Some (0, s)
        else do {
          let h_type = le_word (take 4 h);
          let sector_num = le_word (drop 8 h);
          let s = s\<lparr>req_type := h_type, req_queue_idx := queue_idx, req_desc_idx := desc_idx\<rparr>;
          if h_type = VIRTIO_BLK_T_IN then do {
            buf \<leftarrow> malloc_bytes bus write_size;
            (ret, bytes, world) \<leftarrow> read_async bs sector_num (sectors (write_size - 1)) (vd_world s);
            buf \<leftarrow> mem_store buf 0 bytes;
            s \<leftarrow> block_finish bus ret (s\<lparr>req_buf := buf, req_write_size := write_size, vd_world := world\<rparr>);
            Some (0, s)
          } else if h_type = VIRTIO_BLK_T_OUT then do {
            guard (1 \<le>s write_size);
            let len = read_size - 16;
            buf \<leftarrow> malloc_bytes bus len;
            (_, buf, s) \<leftarrow> memcpy_from_queue bus buf queue_idx desc_idx 16 len s;
            (ret, world) \<leftarrow> write_async bs sector_num buf (sectors len) (vd_world s);
            s \<leftarrow> block_finish bus ret (s\<lparr>vd_world := world\<rparr>);
            Some (0, s)
          } else Some (0, s)
        }
      })"

definition block_ops ::
  "'w virtio_bus \<Rightarrow> 'w block_backend \<Rightarrow> ('w, 'z) virtio_block_scheme virtio_ops" where
  "block_ops bus bs = \<lparr>device_recv = virtio_block_recv_request bus bs, config_write = Some\<rparr>"

definition virtio_block_req_cb ::
  "'w virtio_bus \<Rightarrow> 'w block_backend \<Rightarrow> int \<Rightarrow> ('w, 'z) virtio_block_scheme \<Rightarrow> ('w, 'z) virtio_block_scheme option" where
  "virtio_block_req_cb bus bs ret s = do {
     s \<leftarrow> virtio_block_req_end bus ret s;
     let s = s\<lparr>req_in_progress := False\<rparr>;
     queue_notify bus (block_ops bus bs) (req_queue_idx s) s
   }"

definition virtio_block_init ::
  "'w virtio_bus \<Rightarrow> 'w block_backend \<Rightarrow> u64 \<Rightarrow> nat \<Rightarrow> nat \<Rightarrow> 'w \<Rightarrow> 'w virtio_block option" where
  "virtio_block_init bus bs addr irq opaque world = do {
     s \<leftarrow> virtio_init bus addr irq opaque 2 8 world
       \<lparr>req_in_progress = False, req_type = 0, req_buf = [], req_write_size = 0, req_queue_idx = 0, req_desc_idx = 0\<rparr>;
     let nb_sectors = get_sector_count bs (vd_world s);
     space \<leftarrow> mem_store (config_space s) 0 (le_bytes 4 nb_sectors);
     space \<leftarrow> mem_store space 4 (le_bytes 4 (drop_bit 32 nb_sectors));
     Some (s\<lparr>config_space := space\<rparr>)
   }"

subsection \<open>Network\<close>

record 'w virtio_net = "'w virtio_device" +
  header_size :: u32

definition virtio_net_recv_request ::
  "'w virtio_bus \<Rightarrow> (u8 list \<Rightarrow> 'w \<Rightarrow> 'w option) \<Rightarrow> nat \<Rightarrow> u16 \<Rightarrow> u32 \<Rightarrow> u32 \<Rightarrow> ('w, 'z) virtio_net_scheme \<Rightarrow>
     (int \<times> ('w, 'z) virtio_net_scheme) option" where
  "virtio_net_recv_request bus write_packet queue_idx desc_idx read_size write_size s =
     (if queue_idx = 1 then do {
        (ret, _, s) \<leftarrow> memcpy_from_queue bus (replicate 12 0) queue_idx desc_idx 0 (header_size s) s;
        if ret < 0 then Some (0, s)
        else do {
          let len = read_size - header_size s;
          buf \<leftarrow> malloc_bytes bus len;
          (_, buf, s) \<leftarrow> memcpy_from_queue bus buf queue_idx desc_idx (header_size s) len s;
          world \<leftarrow> write_packet buf (vd_world s);
          s \<leftarrow> virtio_consume_desc bus queue_idx desc_idx 0 (s\<lparr>vd_world := world\<rparr>);
          Some (0, s)
        }
      } else Some (0, s))"

definition net_ops ::
  "'w virtio_bus \<Rightarrow> (u8 list \<Rightarrow> 'w \<Rightarrow> 'w option) \<Rightarrow> ('w, 'z) virtio_net_scheme virtio_ops" where
  "net_ops bus write_packet = \<lparr>device_recv = virtio_net_recv_request bus write_packet, config_write = Some\<rparr>"

text \<open>Whether the guest has a buffer waiting in the queue.\<close>

definition has_avail ::
  "'w virtio_bus \<Rightarrow> nat \<Rightarrow> ('w, 'z) vstate \<Rightarrow> (bool \<times> ('w, 'z) vstate) option" where
  "has_avail bus queue_idx s = do {
     qs \<leftarrow> the_queue queue_idx s;
     if ready qs = 0 then Some (False, s)
     else do {
       (avail_idx, s) \<leftarrow> virtio_read16 bus (avail_addr qs + 2) s;
       Some (last_avail_idx qs \<noteq> avail_idx, s)
     }
   }"

definition first_avail ::
  "'w virtio_bus \<Rightarrow> nat \<Rightarrow> ('w, 'z) vstate \<Rightarrow> (u16 option \<times> ('w, 'z) vstate) option" where
  "first_avail bus queue_idx s = do {
     (avail, s) \<leftarrow> has_avail bus queue_idx s;
     if \<not> avail then Some (None, s)
     else do {
       qs \<leftarrow> the_queue queue_idx s;
       (desc_idx, s) \<leftarrow> avail_desc bus qs s;
       Some (Some desc_idx, s)
     }
   }"

definition virtio_net_can_write_packet ::
  "'w virtio_bus \<Rightarrow> ('w, 'z) virtio_net_scheme \<Rightarrow> (bool \<times> ('w, 'z) virtio_net_scheme) option" where
  "virtio_net_can_write_packet bus s = has_avail bus 0 s"

definition virtio_net_write_packet ::
  "'w virtio_bus \<Rightarrow> u8 list \<Rightarrow> ('w, 'z) virtio_net_scheme \<Rightarrow> ('w, 'z) virtio_net_scheme option" where
  "virtio_net_write_packet bus buf s = do {
     (first, s) \<leftarrow> first_avail bus 0 s;
     case first of
       None \<Rightarrow> Some s
     | Some desc_idx \<Rightarrow> do {
         (sizes, s) \<leftarrow> get_desc_rw_size bus 0 desc_idx s;
         case sizes of
           None \<Rightarrow> Some s
         | Some (_, write_size) \<Rightarrow>
             (let len = header_size s + word_of_nat (length buf) in
              if write_size <s len then Some s
              else do {
                (_, s) \<leftarrow> memcpy_to_queue bus 0 desc_idx 0 (replicate (unat (header_size s)) 0) (header_size s) s;
                (_, s) \<leftarrow> memcpy_to_queue bus 0 desc_idx (header_size s) buf (word_of_nat (length buf)) s;
                s \<leftarrow> virtio_consume_desc bus 0 desc_idx len s;
                Some (next_avail 0 s)
              })
       }
   }"

definition virtio_net_init ::
  "'w virtio_bus \<Rightarrow> u8 list \<Rightarrow> u64 \<Rightarrow> nat \<Rightarrow> nat \<Rightarrow> 'w \<Rightarrow> 'w virtio_net option" where
  "virtio_net_init bus mac_addr addr irq opaque world = do {
     s \<leftarrow> virtio_init bus addr irq opaque 1 8 world \<lparr>header_size = 0\<rparr>;
     let s = upd_queue 0 (manual_recv_update (\<lambda>_. True)) (s\<lparr>device_features := push_bit 5 1\<rparr>);
     space \<leftarrow> mem_store (config_space s) 0 (take 6 mac_addr @ [0, 0]);
     Some (s\<lparr>config_space := space, header_size := 12\<rparr>)
   }"

subsection \<open>Console\<close>

definition virtio_console_recv_request ::
  "'w virtio_bus \<Rightarrow> (u8 list \<Rightarrow> 'w \<Rightarrow> 'w option) \<Rightarrow> nat \<Rightarrow> u16 \<Rightarrow> u32 \<Rightarrow> u32 \<Rightarrow> ('w, 'z) vstate \<Rightarrow>
     (int \<times> ('w, 'z) vstate) option" where
  "virtio_console_recv_request bus write_data queue_idx desc_idx read_size write_size s =
     (if queue_idx = 1 then do {
        buf \<leftarrow> malloc_bytes bus read_size;
        (_, buf, s) \<leftarrow> memcpy_from_queue bus buf queue_idx desc_idx 0 read_size s;
        world \<leftarrow> write_data buf (vd_world s);
        s \<leftarrow> virtio_consume_desc bus queue_idx desc_idx 0 (s\<lparr>vd_world := world\<rparr>);
        Some (0, s)
      } else Some (0, s))"

definition console_ops ::
  "'w virtio_bus \<Rightarrow> (u8 list \<Rightarrow> 'w \<Rightarrow> 'w option) \<Rightarrow> ('w, 'z) vstate virtio_ops" where
  "console_ops bus write_data = \<lparr>device_recv = virtio_console_recv_request bus write_data, config_write = Some\<rparr>"

definition virtio_console_can_write_data ::
  "'w virtio_bus \<Rightarrow> ('w, 'z) vstate \<Rightarrow> (bool \<times> ('w, 'z) vstate) option" where
  "virtio_console_can_write_data bus s = has_avail bus 0 s"

definition virtio_console_get_write_len ::
  "'w virtio_bus \<Rightarrow> ('w, 'z) vstate \<Rightarrow> (u32 \<times> ('w, 'z) vstate) option" where
  "virtio_console_get_write_len bus s = do {
     (first, s) \<leftarrow> first_avail bus 0 s;
     case first of
       None \<Rightarrow> Some (0, s)
     | Some desc_idx \<Rightarrow> do {
         (sizes, s) \<leftarrow> get_desc_rw_size bus 0 desc_idx s;
         Some (case sizes of None \<Rightarrow> 0 | Some (_, write_size) \<Rightarrow> write_size, s)
       }
   }"

definition virtio_console_write_data ::
  "'w virtio_bus \<Rightarrow> u8 list \<Rightarrow> ('w, 'z) vstate \<Rightarrow> (u32 \<times> ('w, 'z) vstate) option" where
  "virtio_console_write_data bus buf s = do {
     (first, s) \<leftarrow> first_avail bus 0 s;
     case first of
       None \<Rightarrow> Some (0, s)
     | Some desc_idx \<Rightarrow> do {
         let buf_len = word_of_nat (length buf);
         (_, s) \<leftarrow> memcpy_to_queue bus 0 desc_idx 0 buf buf_len s;
         s \<leftarrow> virtio_consume_desc bus 0 desc_idx buf_len s;
         Some (buf_len, next_avail 0 s)
       }
   }"

definition virtio_console_resize_event ::
  "'w virtio_bus \<Rightarrow> u32 \<Rightarrow> u32 \<Rightarrow> ('w, 'z) vstate \<Rightarrow> ('w, 'z) vstate option" where
  "virtio_console_resize_event bus width height s = do {
     space \<leftarrow> mem_store (config_space s) 0 (le_bytes 2 width);
     space \<leftarrow> mem_store space 2 (le_bytes 2 height);
     Some (virtio_config_change_notify bus (s\<lparr>config_space := space\<rparr>))
   }"

definition virtio_console_init ::
  "'w virtio_bus \<Rightarrow> u64 \<Rightarrow> nat \<Rightarrow> nat \<Rightarrow> 'w \<Rightarrow> 'w virtio_device option" where
  "virtio_console_init bus addr irq opaque world = do {
     s \<leftarrow> virtio_init bus addr irq opaque 3 4 world ();
     Some (upd_queue 0 (manual_recv_update (\<lambda>_. True)) (s\<lparr>device_features := 1\<rparr>))
   }"

end
