(* ===== verification/VirtioInput.thy ===== *)
theory VirtioInput
  imports VirtioDevices
begin

unbundle bit_operations_syntax

section \<open>Virtio devices: keyboard, mouse, tablet (virtio.c)\<close>

text \<open>
  The events of an input device are sent through queue 0; what the device can do is told through
  its configuration space, which answers the selector that the guest writes there.
\<close>

datatype virtio_input_type =
  VIRTIO_INPUT_TYPE_KEYBOARD | VIRTIO_INPUT_TYPE_MOUSE | VIRTIO_INPUT_TYPE_TABLET

record 'w virtio_input = "'w virtio_device" +
  vi_type :: virtio_input_type
  buttons_state :: u32

definition VIRTIO_INPUT_CFG_UNSET :: u8 where "VIRTIO_INPUT_CFG_UNSET = 0x00"
definition VIRTIO_INPUT_CFG_ID_NAME :: u8 where "VIRTIO_INPUT_CFG_ID_NAME = 0x01"
definition VIRTIO_INPUT_CFG_EV_BITS :: u8 where "VIRTIO_INPUT_CFG_EV_BITS = 0x11"
definition VIRTIO_INPUT_CFG_ABS_INFO :: u8 where "VIRTIO_INPUT_CFG_ABS_INFO = 0x12"
definition VIRTIO_INPUT_EV_SYN :: u16 where "VIRTIO_INPUT_EV_SYN = 0x00"
definition VIRTIO_INPUT_EV_KEY :: u16 where "VIRTIO_INPUT_EV_KEY = 0x01"
definition VIRTIO_INPUT_EV_REL :: u16 where "VIRTIO_INPUT_EV_REL = 0x02"
definition VIRTIO_INPUT_EV_ABS :: u16 where "VIRTIO_INPUT_EV_ABS = 0x03"
definition VIRTIO_INPUT_EV_REP :: u16 where "VIRTIO_INPUT_EV_REP = 0x14"
definition REL_X :: u16 where "REL_X = 0x00"
definition REL_Y :: u16 where "REL_Y = 0x01"
definition REL_WHEEL :: u16 where "REL_WHEEL = 0x08"
definition ABS_X :: u16 where "ABS_X = 0x00"
definition ABS_Y :: u16 where "ABS_Y = 0x01"
definition VIRTIO_INPUT_ABS_SCALE :: u32 where "VIRTIO_INPUT_ABS_SCALE = 32768"

text \<open>\<open>BTN_LEFT\<close>, \<open>BTN_RIGHT\<close>, \<open>BTN_MIDDLE\<close>.\<close>

definition buttons_list :: "u16 list" where
  "buttons_list = [0x110, 0x111, 0x112]"

definition virtio_input_recv_request ::
  "'w virtio_bus \<Rightarrow> nat \<Rightarrow> u16 \<Rightarrow> u32 \<Rightarrow> u32 \<Rightarrow> ('w, 'z) virtio_input_scheme \<Rightarrow>
     (int \<times> ('w, 'z) virtio_input_scheme) option" where
  "virtio_input_recv_request bus queue_idx desc_idx read_size write_size s =
     (if queue_idx = 1 then map_option (Pair 0) (virtio_consume_desc bus queue_idx desc_idx 0 s) else Some (0, s))"

subsection \<open>Events\<close>

definition virtio_input_queue_event ::
  "'w virtio_bus \<Rightarrow> u16 \<Rightarrow> u16 \<Rightarrow> u32 \<Rightarrow> ('w, 'z) virtio_input_scheme \<Rightarrow> (int \<times> ('w, 'z) virtio_input_scheme) option" where
  "virtio_input_queue_event bus type code val s = do {
     (first, s) \<leftarrow> first_avail bus 0 s;
     case first of
       None \<Rightarrow> Some (- 1, s)
     | Some desc_idx \<Rightarrow> do {
         let buf = le_bytes 2 type @ le_bytes 2 code @ le_bytes 4 val;
         (_, s) \<leftarrow> memcpy_to_queue bus 0 desc_idx 0 buf 8 s;
         s \<leftarrow> virtio_consume_desc bus 0 desc_idx 8 s;
         Some (0, next_avail 0 s)
       }
   }"

text \<open>A list of events, up to the first one that cannot be sent.\<close>

fun send_events ::
  "'w virtio_bus \<Rightarrow> (u16 \<times> u16 \<times> u32) list \<Rightarrow> ('w, 'z) virtio_input_scheme \<Rightarrow> (int \<times> ('w, 'z) virtio_input_scheme) option" where
  "send_events bus [] s = Some (0, s)"
| "send_events bus ((type, code, val) # evs) s = do {
     (ret, s) \<leftarrow> virtio_input_queue_event bus type code val s;
     if ret \<noteq> 0 then Some (ret, s) else send_events bus evs s
   }"

definition virtio_input_send_key_event ::
  "'w virtio_bus \<Rightarrow> bool \<Rightarrow> u16 \<Rightarrow> ('w, 'z) virtio_input_scheme \<Rightarrow> (int \<times> ('w, 'z) virtio_input_scheme) option" where
  "virtio_input_send_key_event bus pressed key_code s =
     (if vi_type s \<noteq> VIRTIO_INPUT_TYPE_KEYBOARD then Some (- 1, s)
      else send_events bus [(VIRTIO_INPUT_EV_KEY, key_code, of_bool pressed), (VIRTIO_INPUT_EV_SYN, 0, 0)] s)"

definition position_events :: "virtio_input_type \<Rightarrow> u32 \<Rightarrow> u32 \<Rightarrow> u32 \<Rightarrow> (u16 \<times> u16 \<times> u32) list" where
  "position_events type dx dy dz =
     (if type = VIRTIO_INPUT_TYPE_MOUSE
      then [(VIRTIO_INPUT_EV_REL, REL_X, dx), (VIRTIO_INPUT_EV_REL, REL_Y, dy)]
      else [(VIRTIO_INPUT_EV_ABS, ABS_X, dx), (VIRTIO_INPUT_EV_ABS, ABS_Y, dy)]) @
     (if dz \<noteq> 0 then [(VIRTIO_INPUT_EV_REL, REL_WHEEL, dz)] else [])"

text \<open>One event for each button that has changed.\<close>

definition button_events :: "u32 \<Rightarrow> u32 \<Rightarrow> (u16 \<times> u16 \<times> u32) list" where
  "button_events buttons prev =
     concat (map (\<lambda>i.
       let b = drop_bit i buttons AND 1; last_b = drop_bit i prev AND 1
       in if b \<noteq> last_b then [(VIRTIO_INPUT_EV_KEY, buttons_list ! i, b)] else [])
     [0..<length buttons_list])"

definition virtio_input_send_mouse_event ::
  "'w virtio_bus \<Rightarrow> u32 \<Rightarrow> u32 \<Rightarrow> u32 \<Rightarrow> u32 \<Rightarrow> ('w, 'z) virtio_input_scheme \<Rightarrow>
     (int \<times> ('w, 'z) virtio_input_scheme) option" where
  "virtio_input_send_mouse_event bus dx dy dz buttons s =
     (if vi_type s \<noteq> VIRTIO_INPUT_TYPE_MOUSE \<and> vi_type s \<noteq> VIRTIO_INPUT_TYPE_TABLET then Some (- 1, s)
      else do {
        (ret, s) \<leftarrow> send_events bus (position_events (vi_type s) dx dy dz) s;
        if ret \<noteq> 0 then Some (ret, s)
        else do {
          (ret, s) \<leftarrow> (if buttons \<noteq> buttons_state s then do {
              (ret, s) \<leftarrow> send_events bus (button_events buttons (buttons_state s)) s;
              Some (ret, if ret \<noteq> 0 then s else s\<lparr>buttons_state := buttons\<rparr>)
            } else Some (0, s));
          if ret \<noteq> 0 then Some (ret, s)
          else virtio_input_queue_event bus VIRTIO_INPUT_EV_SYN 0 0 s
        }
      })"

subsection \<open>Configuration\<close>

definition set_bit_at :: "nat \<Rightarrow> u16 \<Rightarrow> u8 list \<Rightarrow> u8 list option" where
  "set_bit_at off k bits = do {
     let i = off + unat (drop_bit 3 k);
     guard (i < length bits);
     Some (bits[i := bits ! i OR push_bit (unat (k AND 7)) 1])
   }"

fun set_bits_at :: "nat \<Rightarrow> u16 list \<Rightarrow> u8 list \<Rightarrow> u8 list option" where
  "set_bits_at off [] bits = Some bits"
| "set_bits_at off (k # ks) bits = Option.bind (set_bit_at off k bits) (set_bits_at off ks)"

definition input_name :: "virtio_input_type \<Rightarrow> string" where
  "input_name type = (case type of
       VIRTIO_INPUT_TYPE_KEYBOARD \<Rightarrow> ''virtio_keyboard''
     | VIRTIO_INPUT_TYPE_MOUSE \<Rightarrow> ''virtio_mouse''
     | VIRTIO_INPUT_TYPE_TABLET \<Rightarrow> ''virtio_tablet'')"

definition name_bytes :: "string \<Rightarrow> u8 list" where
  "name_bytes cs = List.map (\<lambda>c. word_of_nat (of_char c)) cs"

text \<open>The answer to \<open>VIRTIO_INPUT_CFG_EV_BITS\<close>: its size is in byte 2, its bytes follow byte 8.\<close>

definition button_bits :: "u8 list \<Rightarrow> u8 list option" where
  "button_bits config = do {
     config \<leftarrow> mem_store config 2 [512 div 8];
     config \<leftarrow> mem_store config 8 (replicate (512 div 8) 0);
     set_bits_at 8 buttons_list config
   }"

definition ev_bits :: "virtio_input_type \<Rightarrow> u8 list \<Rightarrow> u8 list option" where
  "ev_bits type config = do {
     config \<leftarrow> mem_store config 2 [0];
     guard (1 < length config);
     let ev = (ucast (config ! 1) :: u16);
     (case type of
       VIRTIO_INPUT_TYPE_KEYBOARD \<Rightarrow>
        (if ev = VIRTIO_INPUT_EV_KEY then do {
           config \<leftarrow> mem_store config 2 [128 div 8];
           mem_store config 8 (replicate (128 div 8) 0xff)
         } else if ev = VIRTIO_INPUT_EV_REP then mem_store config 2 [1]
         else Some config)
     | VIRTIO_INPUT_TYPE_MOUSE \<Rightarrow>
        (if ev = VIRTIO_INPUT_EV_KEY then button_bits config
         else if ev = VIRTIO_INPUT_EV_REL then do {
           config \<leftarrow> mem_store config 2 [2];
           config \<leftarrow> mem_store config 8 [0, 0];
           set_bits_at 8 [REL_X, REL_Y, REL_WHEEL] config
         } else Some config)
     | VIRTIO_INPUT_TYPE_TABLET \<Rightarrow>
        (if ev = VIRTIO_INPUT_EV_KEY then button_bits config
         else if ev = VIRTIO_INPUT_EV_REL then do {
           config \<leftarrow> mem_store config 2 [2];
           config \<leftarrow> mem_store config 8 [0, 0];
           set_bits_at 8 [REL_WHEEL] config
         } else if ev = VIRTIO_INPUT_EV_ABS then do {
           config \<leftarrow> mem_store config 2 [1];
           config \<leftarrow> mem_store config 8 [0];
           set_bits_at 8 [ABS_X, ABS_Y] config
         } else Some config))
   }"

text \<open>Five words for each axis: the least and the greatest value, then zeros.\<close>

definition abs_info :: "virtio_input_type \<Rightarrow> u8 list \<Rightarrow> u8 list option" where
  "abs_info type config = do {
     guard (1 < length config);
     if type = VIRTIO_INPUT_TYPE_TABLET \<and> config ! 1 \<le> 1 then do {
       config \<leftarrow> mem_store config 2 [5 * 4];
       mem_store config 8 (le_bytes 4 (0 :: u32) @ le_bytes 4 (VIRTIO_INPUT_ABS_SCALE - 1) @
         le_bytes 4 (0 :: u32) @ le_bytes 4 (0 :: u32) @ le_bytes 4 (0 :: u32))
     } else Some config
   }"

definition virtio_input_config_write :: "('w, 'z) virtio_input_scheme \<Rightarrow> ('w, 'z) virtio_input_scheme option" where
  "virtio_input_config_write s = do {
     let config = config_space s;
     guard (0 < length config);
     config \<leftarrow>
       (if config ! 0 = VIRTIO_INPUT_CFG_UNSET then Some config
        else if config ! 0 = VIRTIO_INPUT_CFG_ID_NAME then do {
          let name = name_bytes (input_name (vi_type s));
          config \<leftarrow> mem_store config 2 [word_of_nat (length name)];
          mem_store config 8 name
        } else if config ! 0 = VIRTIO_INPUT_CFG_EV_BITS then ev_bits (vi_type s) config
        else if config ! 0 = VIRTIO_INPUT_CFG_ABS_INFO then abs_info (vi_type s) config
        else mem_store config 2 [0]);
     Some (s\<lparr>config_space := config\<rparr>)
   }"

definition input_ops :: "'w virtio_bus \<Rightarrow> ('w, 'z) virtio_input_scheme virtio_ops" where
  "input_ops bus = \<lparr>device_recv = virtio_input_recv_request bus, config_write = virtio_input_config_write\<rparr>"

definition virtio_input_init ::
  "'w virtio_bus \<Rightarrow> virtio_input_type \<Rightarrow> u64 \<Rightarrow> nat \<Rightarrow> nat \<Rightarrow> 'w \<Rightarrow> 'w virtio_input option" where
  "virtio_input_init bus type addr irq opaque world = do {
     s \<leftarrow> virtio_init bus addr irq opaque 18 256 world
       \<lparr>vi_type = type, buttons_state = 0\<rparr>;
     Some (upd_queue 0 (manual_recv_update (\<lambda>_. True)) (s\<lparr>device_features := 0\<rparr>))
   }"

end
