(* ===== verification/VirtioSpec.thy ===== *)
theory VirtioSpec
  imports VirtioInput RamAccess
begin

unbundle bit_operations_syntax

section \<open>Requests in the memory of the guest\<close>

text \<open>
  What the operations on the queues do when the structures the guest has laid out lie in RAM. The
  contents of the RAM are a function from physical addresses to bytes. The laws of the bus, that
  the memory map is a cell of the world and that raising an interrupt leaves it alone, are the
  assumptions of a locale; the machine is its instance.
\<close>

subsection \<open>The RAM of the guest\<close>

definition in_ram :: "nat \<Rightarrow> nat \<Rightarrow> u64 \<Rightarrow> nat \<Rightarrow> bool" where
  "in_ram base M a n \<longleftrightarrow> base \<le> unat a \<and> unat a + n \<le> base + M"

definition guest_ram :: "'w virtio_bus \<Rightarrow> nat \<Rightarrow> nat \<Rightarrow> nat \<Rightarrow> (nat \<Rightarrow> u8) \<Rightarrow> 'w \<Rightarrow> bool" where
  "guest_ram bus i base M mem w \<longleftrightarrow>
     (\<exists>pr. range_at (bus_map bus w) i = Some pr \<and> ram_range base M (\<lambda>x. mem (base + x)) pr) \<and>
     (\<forall>a :: u64. base \<le> unat a \<longrightarrow> unat a < base + M \<longrightarrow> get_phys_mem_range (bus_map bus w) a = Some i)"

lemma shifted_bytes: "base \<le> a \<Longrightarrow> mem_bytes (\<lambda>x. mem (base + x)) (a - base) n = mem_bytes mem a n"
  by (simp add: mem_bytes_def)

lemma shifted_write:
  "base \<le> a \<Longrightarrow> mem_write (\<lambda>x. mem (base + x)) (a - base) bs = (\<lambda>x. mem_write mem a bs (base + x))"
  by (auto simp: mem_write_def fun_eq_iff add.commute)

text \<open>The states that differ in the memory map only.\<close>

definition same_device ::
  "'w virtio_bus \<Rightarrow> ('w, 'z) virtio_device_scheme \<Rightarrow> ('w, 'z) virtio_device_scheme \<Rightarrow> bool" where
  "same_device bus s s' \<longleftrightarrow> (\<exists>m. s' = s\<lparr>vd_world := bus_put_map bus m (vd_world s)\<rparr>)"

lemma same_deviceD:
  assumes "same_device bus s s'"
  shows "queue s' = queue s" "vd_irq s' = vd_irq s" "int_status s' = int_status s" "the_queue i s' = the_queue i s"
  using assms by (auto simp: same_device_def the_queue_def)

locale memory_bus =
  fixes bus :: "'w virtio_bus"
  assumes map_put: "bus_map bus (bus_put_map bus m w) = m"
    and put_map: "bus_put_map bus (bus_map bus w) w = w"
    and put_put: "bus_put_map bus m (bus_put_map bus m' w) = bus_put_map bus m w"
    and map_irq: "bus_map bus (bus_set_irq bus n l w) = bus_map bus w"
begin

lemma same_device_refl [simp]: "same_device bus s s"
  unfolding same_device_def by (rule exI [of _ "bus_map bus (vd_world s)"]) (simp add: put_map)

lemma same_device_trans: "same_device bus s t \<Longrightarrow> same_device bus t u \<Longrightarrow> same_device bus s u"
  by (auto simp: same_device_def put_put)

lemma ram_update:
  assumes "guest_ram bus i base M mem w" and "range_at (bus_map bus w) i = Some pr" and "flat M v (\<lambda>x. mem' (base + x))"
  shows "guest_ram bus i base M mem' (bus_put_map bus (set_range (bus_map bus w) i (pr\<lparr>pr_vmm := Some v\<rparr>)) w)"
  using assms
  by (auto simp: guest_ram_def ram_range_def range_at_def set_range_def get_phys_mem_range_def map_put
      find_range_update split: if_splits)

lemma guest_range_ram:
  assumes "guest_ram bus i base M mem (vd_world s)" and "in_ram base M a n" and "0 < n"
  obtains pr v where "guest_range bus a s = Some (i, pr, v)" "range_at (bus_map bus (vd_world s)) i = Some pr"
    "flat M v (\<lambda>x. mem (base + x))" "size_wrap (unat (a - pr_addr pr)) = unat a - base"
proof -
  obtain pr v where pr: "range_at (bus_map bus (vd_world s)) i = Some pr" "ram_range base M (\<lambda>x. mem (base + x)) pr"
    "pr_vmm pr = Some v" "flat M v (\<lambda>x. mem (base + x))"
    using assms(1) by (auto simp: guest_ram_def ram_range_def)
  have a: "base \<le> unat a" "unat a < base + M" using assms(2,3) by (auto simp: in_ram_def)
  have p: "unat (pr_addr pr) = base" "M < size_limit" using pr(2) by (auto simp: ram_range_def)
  have "pr_addr pr \<le> a" using a p by (simp add: word_le_nat_alt)
  then have "unat (a - pr_addr pr) = unat a - base" using p by (simp add: unat_sub)
  then have "size_wrap (unat (a - pr_addr pr)) = unat a - base" using a p by simp
  moreover have "get_phys_mem_range (bus_map bus (vd_world s)) a = Some i" using assms(1) a by (auto simp: guest_ram_def)
  then have "guest_range bus a s = Some (i, pr, v)" using pr by (simp add: guest_range_def)
  ultimately show thesis using that pr by blast
qed

lemma from_ram:
  assumes "guest_ram bus i base M mem (vd_world s)" and "in_ram base M a n" and "0 < n"
  shows "\<exists>s'. virtio_memcpy_from_ram bus a n s = Some (mem_bytes mem (unat a) n, s') \<and>
    guest_ram bus i base M mem (vd_world s') \<and> same_device bus s s'"
proof -
  obtain pr v where g: "guest_range bus a s = Some (i, pr, v)" "range_at (bus_map bus (vd_world s)) i = Some pr"
    "flat M v (\<lambda>x. mem (base + x))" "size_wrap (unat (a - pr_addr pr)) = unat a - base"
    by (rule guest_range_ram [OF assms])
  have a: "unat a - base + n \<le> M" "base \<le> unat a" using assms(2) by (auto simp: in_ram_def)
  obtain v' where v': "vmm_rd (bus_alloc bus) v (unat a - base) n = Some (mem_bytes mem (unat a) n, v')"
    "flat M v' (\<lambda>x. mem (base + x))"
    using ram.read_law [OF g(3) a(1)] shifted_bytes [OF a(2), of mem n] by auto
  then show ?thesis using g ram_update [OF assms(1) g(2) v'(2)]
    by (auto simp: virtio_memcpy_from_ram_def vmm_rd_def put_guest_range_def same_device_def)
qed

lemma to_ram:
  assumes "guest_ram bus i base M mem (vd_world s)" and "in_ram base M a (length bs)" and "bs \<noteq> []"
  shows "\<exists>s'. virtio_memcpy_to_ram bus a bs s = Some s' \<and>
    guest_ram bus i base M (mem_write mem (unat a) bs) (vd_world s') \<and> same_device bus s s'"
proof -
  obtain pr v where g: "guest_range bus a s = Some (i, pr, v)" "range_at (bus_map bus (vd_world s)) i = Some pr"
    "flat M v (\<lambda>x. mem (base + x))" "size_wrap (unat (a - pr_addr pr)) = unat a - base"
    using guest_range_ram [OF assms(1,2)] assms(3) by blast
  have a: "unat a - base + length bs \<le> M" "base \<le> unat a" using assms(2) by (auto simp: in_ram_def)
  obtain v' where v': "vmm_wr (bus_alloc bus) v (unat a - base) bs = Some v'"
    "flat M v' (\<lambda>x. mem_write mem (unat a) bs (base + x))"
    using ram.write_law [OF g(3) a(1)] unfolding shifted_write [OF a(2), of mem bs] by blast
  then show ?thesis using g ram_update [OF assms(1) g(2) v'(2)]
    by (auto simp: virtio_memcpy_to_ram_def vmm_wr_def put_guest_range_def same_device_def)
qed

lemma read16_ram:
  assumes "guest_ram bus i base M mem (vd_world s)" and "in_ram base M a 2" and "a AND 1 = 0"
  shows "\<exists>s'. virtio_read16 bus a s = Some (le_word (mem_bytes mem (unat a) 2), s') \<and>
    guest_ram bus i base M mem (vd_world s') \<and> same_device bus s s'"
  using from_ram [OF assms(1,2)] assms(3) by (auto simp: virtio_read16_def)

lemma write16_ram:
  assumes "guest_ram bus i base M mem (vd_world s)" and "in_ram base M a 2" and "a AND 1 = 0"
  shows "\<exists>s'. virtio_write16 bus a v s = Some s' \<and>
    guest_ram bus i base M (mem_write mem (unat a) (le_bytes 2 v)) (vd_world s') \<and> same_device bus s s'"
proof -
  have "le_bytes 2 v \<noteq> []" by (simp add: numeral_2_eq_2)
  then show ?thesis using to_ram [OF assms(1), of a "le_bytes 2 v"] assms(2,3) by (auto simp: virtio_write16_def)
qed

lemma write32_ram:
  assumes "guest_ram bus i base M mem (vd_world s)" and "in_ram base M a 4" and "a AND 3 = 0"
  shows "\<exists>s'. virtio_write32 bus a v s = Some s' \<and>
    guest_ram bus i base M (mem_write mem (unat a) (le_bytes 4 v)) (vd_world s') \<and> same_device bus s s'"
proof -
  have "le_bytes 4 v \<noteq> []" by (simp add: eval_nat_numeral)
  then show ?thesis using to_ram [OF assms(1), of a "le_bytes 4 v"] assms(2,3) by (auto simp: virtio_write32_def)
qed

end

subsection \<open>Chains of descriptors\<close>

definition desc_of :: "(nat \<Rightarrow> u8) \<Rightarrow> u64 \<Rightarrow> virtio_desc" where
  "desc_of mem a = \<lparr>vdesc_addr = le_word (mem_bytes mem (unat a) 8), vdesc_len = le_word (mem_bytes mem (unat a + 8) 4),
     vdesc_flags = le_word (mem_bytes mem (unat a + 12) 2), vdesc_next = le_word (mem_bytes mem (unat a + 14) 2)\<rparr>"

definition desc_pos :: "u64 \<Rightarrow> u16 \<Rightarrow> u64" where
  "desc_pos table idx = table + ucast idx * 16"

text \<open>\<open>chain base M mem table idx ds\<close>: the descriptors from \<open>idx\<close> on, of which the last one has no successor.\<close>

fun chain :: "nat \<Rightarrow> nat \<Rightarrow> (nat \<Rightarrow> u8) \<Rightarrow> u64 \<Rightarrow> u16 \<Rightarrow> virtio_desc list \<Rightarrow> bool" where
  "chain base M mem table idx [] \<longleftrightarrow> False"
| "chain base M mem table idx (d # ds) \<longleftrightarrow>
     in_ram base M (desc_pos table idx) 16 \<and> d = desc_of mem (desc_pos table idx) \<and>
     (if ds = [] then \<not> has_next d else has_next d \<and> chain base M mem table (vdesc_next d) ds)"

lemma take_mem_bytes: "n \<le> k \<Longrightarrow> take n (mem_bytes mem a k) = mem_bytes mem a n"
  by (rule nth_equalityI) (simp_all add: mem_bytes_def)

lemma drop_mem_bytes: "drop n (mem_bytes mem a k) = mem_bytes mem (a + n) (k - n)"
  by (rule nth_equalityI) (auto simp: mem_bytes_def nth_upt less_diff_conv ac_simps)

text \<open>The descriptors that the device reads, and those that it writes.\<close>

abbreviation reads :: "virtio_desc list \<Rightarrow> virtio_desc list" where
  "reads \<equiv> takeWhile (\<lambda>d. \<not> is_write d)"

abbreviation writes :: "virtio_desc list \<Rightarrow> virtio_desc list" where
  "writes \<equiv> dropWhile (\<lambda>d. \<not> is_write d)"

definition total_len :: "virtio_desc list \<Rightarrow> u32" where
  "total_len ds = sum_list (List.map vdesc_len ds)"

text \<open>The sizes of the two parts; nothing where the device would read after it has written.\<close>

definition request_sizes :: "virtio_desc list \<Rightarrow> (u32 \<times> u32) option" where
  "request_sizes ds =
     (if list_all is_write (writes ds) then Some (total_len (reads ds), total_len (writes ds)) else None)"

text \<open>A set of descriptors, all read or all written, whose successors stay in the set.\<close>

definition endless :: "nat \<Rightarrow> nat \<Rightarrow> (nat \<Rightarrow> u8) \<Rightarrow> u64 \<Rightarrow> bool \<Rightarrow> u16 set \<Rightarrow> bool" where
  "endless base M mem table W S \<longleftrightarrow> (\<forall>idx \<in> S. in_ram base M (desc_pos table idx) 16 \<and>
     has_next (desc_of mem (desc_pos table idx)) \<and> is_write (desc_of mem (desc_pos table idx)) = W \<and>
     vdesc_next (desc_of mem (desc_pos table idx)) \<in> S)"

context memory_bus
begin

lemma get_desc_ram:
  assumes "guest_ram bus i base M mem (vd_world s)" and "the_queue q s = Some qs" and "in_ram base M (desc_pos (desc_addr qs) idx) 16"
  shows "\<exists>s'. get_desc bus q idx s = Some (desc_of mem (desc_pos (desc_addr qs) idx), s') \<and>
    guest_ram bus i base M mem (vd_world s') \<and> same_device bus s s'"
proof -
  obtain s' where s': "virtio_memcpy_from_ram bus (desc_pos (desc_addr qs) idx) 16 s = Some (mem_bytes mem (unat (desc_pos (desc_addr qs) idx)) 16, s')"
    "guest_ram bus i base M mem (vd_world s')" "same_device bus s s'"
    using from_ram [OF assms(1,3)] by auto
  then show ?thesis using assms(2)
    by (auto simp: get_desc_def desc_pos_def desc_of_def take_mem_bytes drop_mem_bytes)
qed

lemma write_part_chain:
  assumes "guest_ram bus i base M mem (vd_world s)" and "the_queue q s = Some qs" and "chain base M mem (desc_addr qs) idx (d # ds)"
  shows "\<exists>s'. write_part bus q d sz s =
      Some (if list_all is_write (d # ds) then Some (sz + total_len (d # ds)) else None, s') \<and>
    guest_ram bus i base M mem (vd_world s') \<and> same_device bus s s'"
  using assms
proof (induction ds arbitrary: d idx sz s)
  case Nil
  then show ?case by (subst write_part.simps) (auto simp: total_len_def intro!: exI [of _ s])
next
  case (Cons e ds)
  show ?case
  proof (cases "is_write d")
    case False
    then show ?thesis using Cons.prems by (subst write_part.simps) (auto intro!: exI [of _ s])
  next
    case True
    have n: "has_next d" "chain base M mem (desc_addr qs) (vdesc_next d) (e # ds)" using Cons.prems(3) by auto
    then have e: "in_ram base M (desc_pos (desc_addr qs) (vdesc_next d)) 16" "e = desc_of mem (desc_pos (desc_addr qs) (vdesc_next d))"
      by auto
    obtain t where t: "get_desc bus q (vdesc_next d) s = Some (e, t)" "guest_ram bus i base M mem (vd_world t)" "same_device bus s t"
      using get_desc_ram [OF Cons.prems(1,2) e(1)] e(2) by auto
    have "the_queue q t = Some qs" using Cons.prems(2) same_deviceD(4) [OF t(3)] by simp
    from Cons.IH [OF t(2) this n(2), of "sz + vdesc_len d"] obtain s' where
      "write_part bus q e (sz + vdesc_len d) t =
        Some (if list_all is_write (e # ds) then Some (sz + vdesc_len d + total_len (e # ds)) else None, s')"
      "guest_ram bus i base M mem (vd_world s')" "same_device bus t s'"
      by auto
    then show ?thesis using True n(1) t same_device_trans [OF t(3)]
      by (subst write_part.simps) (auto simp: total_len_def add.assoc)
  qed
qed

text \<open>
  The first loop stops at the first descriptor that the device writes, from which the rest of the
  chain goes on, or at the end of the chain.
\<close>

lemma read_part_chain:
  assumes "guest_ram bus i base M mem (vd_world s)" and "the_queue q s = Some qs" and "chain base M mem (desc_addr qs) idx (d # ds)"
  shows "\<exists>s'. read_part bus q d sz s =
      Some ((case writes (d # ds) of [] \<Rightarrow> None | e # es \<Rightarrow> Some e, sz + total_len (reads (d # ds))), s') \<and>
    guest_ram bus i base M mem (vd_world s') \<and> same_device bus s s' \<and>
    (\<forall>e es. writes (d # ds) = e # es \<longrightarrow> (\<exists>idx. chain base M mem (desc_addr qs) idx (e # es)))"
  using assms
proof (induction ds arbitrary: d idx sz s)
  case Nil
  then show ?case by (subst read_part.simps) (auto simp: total_len_def intro!: exI [of _ s])
next
  case (Cons e ds)
  show ?case
  proof (cases "is_write d")
    case True
    then show ?thesis using Cons.prems by (subst read_part.simps) (auto simp: total_len_def intro!: exI [of _ s])
  next
    case False
    have n: "has_next d" "chain base M mem (desc_addr qs) (vdesc_next d) (e # ds)" using Cons.prems(3) by auto
    then have e: "in_ram base M (desc_pos (desc_addr qs) (vdesc_next d)) 16" "e = desc_of mem (desc_pos (desc_addr qs) (vdesc_next d))"
      by auto
    obtain t where t: "get_desc bus q (vdesc_next d) s = Some (e, t)" "guest_ram bus i base M mem (vd_world t)" "same_device bus s t"
      using get_desc_ram [OF Cons.prems(1,2) e(1)] e(2) by auto
    have q: "the_queue q t = Some qs" using Cons.prems(2) same_deviceD(4) [OF t(3)] by simp
    have "read_part bus q d sz s = read_part bus q e (sz + vdesc_len d) t" using False n(1) t(1)
      by (subst read_part.simps) simp
    then show ?thesis using Cons.IH [OF t(2) q n(2), of "sz + vdesc_len d"] same_device_trans [OF t(3)] False
      by (auto simp: total_len_def add.assoc)
  qed
qed

text \<open>The walk along a chain that ends returns, with the sizes of its two parts.\<close>

lemma rw_size_chain:
  assumes "guest_ram bus i base M mem (vd_world s)" and "the_queue q s = Some qs" and "chain base M mem (desc_addr qs) idx ds"
  shows "\<exists>s'. get_desc_rw_size bus q idx s = Some (request_sizes ds, s') \<and>
    guest_ram bus i base M mem (vd_world s') \<and> same_device bus s s'"
proof -
  obtain d ds' where ds: "ds = d # ds'" using assms(3) by (cases ds) auto
  then have d: "in_ram base M (desc_pos (desc_addr qs) idx) 16" "d = desc_of mem (desc_pos (desc_addr qs) idx)"
    using assms(3) by auto
  obtain t where t: "get_desc bus q idx s = Some (d, t)" "guest_ram bus i base M mem (vd_world t)" "same_device bus s t"
    using get_desc_ram [OF assms(1,2) d(1)] d(2) by auto
  have q: "the_queue q t = Some qs" using assms(2) same_deviceD(4) [OF t(3)] by simp
  obtain u where u: "read_part bus q d 0 t = Some ((case writes ds of [] \<Rightarrow> None | e # es \<Rightarrow> Some e, total_len (reads ds)), u)"
    "guest_ram bus i base M mem (vd_world u)" "same_device bus t u"
    "\<And>e es. writes ds = e # es \<Longrightarrow> \<exists>idx. chain base M mem (desc_addr qs) idx (e # es)"
    using read_part_chain [OF t(2) q assms(3) [unfolded ds], of 0] unfolding ds [symmetric] by auto
  have qu: "the_queue q u = Some qs" using q same_deviceD(4) [OF u(3)] by simp
  show ?thesis
  proof (cases "writes ds")
    case Nil
    have "get_desc_rw_size bus q idx s = Some (Some (total_len (reads ds), 0), u)"
      using t(1) u(1) unfolding Nil get_desc_rw_size_def by simp
    moreover have "request_sizes ds = Some (total_len (reads ds), 0)"
      unfolding request_sizes_def Nil by (simp add: total_len_def)
    ultimately show ?thesis using u(2) same_device_trans [OF t(3) u(3)] by auto
  next
    case (Cons e es)
    obtain k where k: "chain base M mem (desc_addr qs) k (e # es)" using u(4) [OF Cons] by blast
    obtain s' where s': "write_part bus q e 0 u = Some (if list_all is_write (e # es) then Some (0 + total_len (e # es)) else None, s')"
      "guest_ram bus i base M mem (vd_world s')" "same_device bus u s'"
      using write_part_chain [OF u(2) qu k, of 0] by blast
    then have "get_desc_rw_size bus q idx s = Some (request_sizes ds, s')"
      using t(1) u(1) Cons by (simp add: get_desc_rw_size_def request_sizes_def)
    then show ?thesis using s' same_device_trans [OF same_device_trans [OF t(3) u(3)] s'(3)] by blast
  qed
qed

text \<open>A chain that never ends: the walk along it does not return, whatever its state.\<close>

lemma get_desc_endless:
  assumes "endless base M mem table W S" and "guest_ram bus i base M mem (vd_world s)" and "the_queue q s = Some qs"
    and "desc_addr qs = table" and "idx \<in> S" and "get_desc bus q idx s = Some (d, s')"
  shows "has_next d" "is_write d = W" "vdesc_next d \<in> S" "guest_ram bus i base M mem (vd_world s')" "the_queue q s' = Some qs"
proof -
  have d: "in_ram base M (desc_pos (desc_addr qs) idx) 16" "has_next (desc_of mem (desc_pos table idx))"
    "is_write (desc_of mem (desc_pos table idx)) = W" "vdesc_next (desc_of mem (desc_pos table idx)) \<in> S"
    using assms(1,4,5) by (auto simp: endless_def)
  obtain t where "get_desc bus q idx s = Some (desc_of mem (desc_pos (desc_addr qs) idx), t)"
    "guest_ram bus i base M mem (vd_world t)" "same_device bus s t"
    using get_desc_ram [OF assms(2,3) d(1)] by blast
  then show "has_next d" "is_write d = W" "vdesc_next d \<in> S" "guest_ram bus i base M mem (vd_world s')" "the_queue q s' = Some qs"
    using d assms(3,4,6) same_deviceD(4) [of bus s t q] by auto
qed

lemma read_part_endless:
  assumes "endless base M mem table False S" and "guest_ram bus i base M mem (vd_world s)" and "the_queue q s = Some qs"
    and "desc_addr qs = table" and "has_next d" and "\<not> is_write d" and "vdesc_next d \<in> S"
  shows "read_part bus q d sz s = None"
proof -
  have "(b, p) = (bus, q) \<longrightarrow> guest_ram bus i base M mem (vd_world s) \<longrightarrow> the_queue q s = Some qs \<longrightarrow>
      has_next d \<longrightarrow> \<not> is_write d \<longrightarrow> vdesc_next d \<notin> S" if "read_part b p d sz s = Some r" for b p d sz s r
  proof (rule read_part.raw_induct [where P = "\<lambda>b p d sz s r. (b, p) = (bus, q) \<longrightarrow>
      guest_ram bus i base M mem (vd_world s) \<longrightarrow> the_queue q s = Some qs \<longrightarrow>
      has_next d \<longrightarrow> \<not> is_write d \<longrightarrow> vdesc_next d \<notin> S", OF _ that])
    fix f b p d sz s r
    assume IH: "\<And>b p d sz s r. f b p d sz s = Some r \<Longrightarrow> (b, p) = (bus, q) \<longrightarrow>
        guest_ram bus i base M mem (vd_world s) \<longrightarrow> the_queue q s = Some qs \<longrightarrow>
        has_next d \<longrightarrow> \<not> is_write d \<longrightarrow> vdesc_next d \<notin> S"
      and hyp: "(if is_write d then Some ((Some d, sz), s)
        else if \<not> has_next d then Some ((None, sz + vdesc_len d), s)
        else Option.bind (get_desc b p (vdesc_next d) s) (\<lambda>r. f b p (fst r) (sz + vdesc_len d) (snd r))) = Some r"
    show "(b, p) = (bus, q) \<longrightarrow> guest_ram bus i base M mem (vd_world s) \<longrightarrow> the_queue q s = Some qs \<longrightarrow>
        has_next d \<longrightarrow> \<not> is_write d \<longrightarrow> vdesc_next d \<notin> S"
    proof (intro impI notI)
      assume a: "(b, p) = (bus, q)" "guest_ram bus i base M mem (vd_world s)" "the_queue q s = Some qs"
        "has_next d" "\<not> is_write d" "vdesc_next d \<in> S"
      then obtain e t where t: "get_desc bus q (vdesc_next d) s = Some (e, t)" "f b p e (sz + vdesc_len d) t = Some r"
        using hyp by (auto split: bind_splits)
      note g = get_desc_endless [OF assms(1) a(2,3) assms(4) a(6) t(1)]
      show False using IH [OF t(2)] a(1) g by simp
    qed
  qed
  then show ?thesis using assms(2-7) by (metis not_None_eq)
qed

lemma write_part_endless:
  assumes "endless base M mem table True S" and "guest_ram bus i base M mem (vd_world s)" and "the_queue q s = Some qs"
    and "desc_addr qs = table" and "has_next d" and "is_write d" and "vdesc_next d \<in> S"
  shows "write_part bus q d sz s = None"
proof -
  have "(b, p) = (bus, q) \<longrightarrow> guest_ram bus i base M mem (vd_world s) \<longrightarrow> the_queue q s = Some qs \<longrightarrow>
      has_next d \<longrightarrow> is_write d \<longrightarrow> vdesc_next d \<notin> S" if "write_part b p d sz s = Some r" for b p d sz s r
  proof (rule write_part.raw_induct [where P = "\<lambda>b p d sz s r. (b, p) = (bus, q) \<longrightarrow>
      guest_ram bus i base M mem (vd_world s) \<longrightarrow> the_queue q s = Some qs \<longrightarrow>
      has_next d \<longrightarrow> is_write d \<longrightarrow> vdesc_next d \<notin> S", OF _ that])
    fix f b p d sz s r
    assume IH: "\<And>b p d sz s r. f b p d sz s = Some r \<Longrightarrow> (b, p) = (bus, q) \<longrightarrow>
        guest_ram bus i base M mem (vd_world s) \<longrightarrow> the_queue q s = Some qs \<longrightarrow>
        has_next d \<longrightarrow> is_write d \<longrightarrow> vdesc_next d \<notin> S"
      and hyp: "(if \<not> is_write d then Some (None, s)
        else if \<not> has_next d then Some (Some (sz + vdesc_len d), s)
        else Option.bind (get_desc b p (vdesc_next d) s) (\<lambda>r. f b p (fst r) (sz + vdesc_len d) (snd r))) = Some r"
    show "(b, p) = (bus, q) \<longrightarrow> guest_ram bus i base M mem (vd_world s) \<longrightarrow> the_queue q s = Some qs \<longrightarrow>
        has_next d \<longrightarrow> is_write d \<longrightarrow> vdesc_next d \<notin> S"
    proof (intro impI notI)
      assume a: "(b, p) = (bus, q)" "guest_ram bus i base M mem (vd_world s)" "the_queue q s = Some qs"
        "has_next d" "is_write d" "vdesc_next d \<in> S"
      then obtain e t where t: "get_desc bus q (vdesc_next d) s = Some (e, t)" "f b p e (sz + vdesc_len d) t = Some r"
        using hyp by (auto split: bind_splits)
      note g = get_desc_endless [OF assms(1) a(2,3) assms(4) a(6) t(1)]
      show False using IH [OF t(2)] a(1) g by simp
    qed
  qed
  then show ?thesis using assms(2-7) by (metis not_None_eq)
qed

lemma rw_size_endless:
  assumes "endless base M mem (desc_addr qs) W S" and "guest_ram bus i base M mem (vd_world s)" and "the_queue q s = Some qs"
    and "idx \<in> S"
  shows "get_desc_rw_size bus q idx s = None"
proof (cases "get_desc bus q idx s")
  case None
  then show ?thesis by (simp add: get_desc_rw_size_def)
next
  case (Some p)
  obtain d t where p: "p = (d, t)" by (cases p)
  note e = get_desc_endless [OF assms(1-3) refl assms(4), of d t]
  show ?thesis
  proof (cases W)
    case False
    then have "read_part bus q d 0 t = None"
      using e Some p assms(1) by (intro read_part_endless [of base M mem "desc_addr qs" S i t q qs d 0]) auto
    then show ?thesis using Some p by (simp add: get_desc_rw_size_def)
  next
    case True
    then have w: "is_write d" using e Some p by simp
    have "write_part bus q d 0 t = None"
      using True e Some p assms(1) by (intro write_part_endless [of base M mem "desc_addr qs" S i t q qs d 0]) auto
    moreover have "read_part bus q d 0 t = Some ((Some d, 0), t)" using w by (subst read_part.simps) simp
    ultimately show ?thesis using Some p by (simp add: get_desc_rw_size_def)
  qed
qed

end

subsection \<open>Reading a request\<close>

definition buffer_ok :: "nat \<Rightarrow> nat \<Rightarrow> virtio_desc \<Rightarrow> bool" where
  "buffer_ok base M d \<longleftrightarrow> in_ram base M (vdesc_addr d) (unat (vdesc_len d)) \<and> 0 < vdesc_len d \<and> unat (vdesc_len d) < 2 ^ 31"

definition desc_bytes :: "(nat \<Rightarrow> u8) \<Rightarrow> virtio_desc \<Rightarrow> u8 list" where
  "desc_bytes mem d = mem_bytes mem (unat (vdesc_addr d)) (unat (vdesc_len d))"

definition chain_bytes :: "(nat \<Rightarrow> u8) \<Rightarrow> virtio_desc list \<Rightarrow> u8 list" where
  "chain_bytes mem ds = concat (List.map (desc_bytes mem) ds)"

lemma chain_bytes_simps [simp]:
  "chain_bytes mem [] = []" "chain_bytes mem (d # ds) = desc_bytes mem d @ chain_bytes mem ds"
  by (simp_all add: chain_bytes_def)

lemma length_desc_bytes [simp]: "length (desc_bytes mem d) = unat (vdesc_len d)"
  by (simp add: desc_bytes_def)

lemma small_sint: "unat (w :: u32) < 2 ^ 31 \<Longrightarrow> sint w = int (unat w)"
proof -
  assume a: "unat w < 2 ^ 31"
  have u: "uint w = int (unat w)" by (simp only: uint_nat)
  have "int (unat w) < int (2 ^ 31)" using a by (simp only: of_nat_less_iff)
  then have "uint w < 2 ^ 31" by (simp only: u of_nat_power of_nat_numeral)
  then have "sint w = uint w" by (simp add: sint_uint signed_take_bit_int_eq_self_iff order.trans [OF _ uint_nonnegative])
  then show ?thesis by (simp only: u)
qed

lemma small_sless:
  assumes "unat a < 2 ^ 31" and "unat b < 2 ^ 31"
  shows "(a :: u32) <s b \<longleftrightarrow> unat a < unat b"
  by (simp only: word_sless_alt small_sint [OF assms(1)] small_sint [OF assms(2)] of_nat_less_iff)

lemma small_nonneg: "unat a < 2 ^ 31 \<Longrightarrow> (0 :: u32) \<le>s a"
  by (simp add: word_sle_eq small_sint)

lemma min_int_small:
  assumes "unat a < 2 ^ 31" and "unat b < 2 ^ 31"
  shows "min_int a b = (if unat a < unat b then a else b)"
  using small_sless [OF assms] by (simp add: min_int_def)

lemma len64: "LENGTH(64) = 64"
  by simp

lemma buffer_address:
  fixes off :: u32
  assumes "buffer_ok base M d" and "unat off \<le> unat (vdesc_len d)" and "base + M \<le> 2 ^ 32"
  shows "unat (vdesc_addr d + scast off) = unat (vdesc_addr d) + unat off"
proof -
  have o: "unat off < 2 ^ 31" using assms(1,2) by (simp add: buffer_ok_def)
  have "scast off = (word_of_int (sint off) :: u64)" by (rule scast_eq)
  also have "\<dots> = word_of_nat (unat off)" by (simp only: small_sint [OF o] of_int_of_nat_eq)
  finally have s: "scast off = (word_of_nat (unat off) :: u64)" .
  have "unat (vdesc_addr d) + unat off < 2 ^ 64" using assms by (simp add: buffer_ok_def in_ram_def)
  moreover have "unat (word_of_nat (unat off) :: u64) = unat off" using o by (simp add: unat_of_nat)
  moreover have "unat (vdesc_addr d + word_of_nat (unat off)) =
      (unat (vdesc_addr d) + unat (word_of_nat (unat off) :: u64)) mod 2 ^ 64"
    by (simp only: unat_word_ariths len64)
  ultimately show ?thesis unfolding s by (simp only: mod_less)
qed

context memory_bus
begin

lemma copy_piece_from:
  fixes off l :: u32
  assumes "guest_ram bus i base M mem (vd_world s)" and "base + M \<le> 2 ^ 32" and "buffer_ok base M d"
    and "unat off + unat l \<le> unat (vdesc_len d)" and "0 < l" and "pos + unat l \<le> length buf"
  shows "\<exists>s'. copy_piece bus False (vdesc_addr d + scast off) buf pos l s =
      Some (splice buf pos (slice (desc_bytes mem d) (unat off) (unat l)), s') \<and>
    guest_ram bus i base M mem (vd_world s') \<and> same_device bus s s'"
proof -
  have a: "unat (vdesc_addr d + scast off) = unat (vdesc_addr d) + unat off"
    using assms(3,4) by (intro buffer_address [OF assms(3) _ assms(2)]) simp
  then have r: "in_ram base M (vdesc_addr d + scast off) (unat l)"
    using assms(3,4) by (simp add: in_ram_def buffer_ok_def)
  have l: "0 < unat l" "unat l < 2 ^ 31" using assms(3-5) by (auto simp: buffer_ok_def unat_gt_0)
  have "slice (desc_bytes mem d) (unat off) (unat l) = mem_bytes mem (unat (vdesc_addr d) + unat off) (unat l)"
    using assms(4) by (simp add: slice_def desc_bytes_def drop_mem_bytes take_mem_bytes)
  then show ?thesis
    using from_ram [OF assms(1) r l(1)] assms(6) small_nonneg [OF l(2)] by (auto simp: copy_piece_def a)
qed

end

lemma chain_next:
  assumes "chain base M mem table idx (d # ds)" and "ds \<noteq> []"
  obtains e es where "ds = e # es" "has_next d" "chain base M mem table (vdesc_next d) (e # es)"
    "in_ram base M (desc_pos table (vdesc_next d)) 16" "e = desc_of mem (desc_pos table (vdesc_next d))"
  using assms by (cases ds) auto

lemma slice_append1: "off + n \<le> length xs \<Longrightarrow> slice (xs @ ys) off n = slice xs off n"
  by (simp add: slice_def)

lemma slice_append_split:
  "off \<le> length xs \<Longrightarrow> length xs \<le> off + n \<Longrightarrow>
     slice (xs @ ys) off n = slice xs off (length xs - off) @ slice ys 0 (n - (length xs - off))"
  by (simp add: slice_def)

context memory_bus
begin

text \<open>The copying loop, from a position within the first descriptor.\<close>

lemma copy_loop_from:
  assumes "guest_ram bus i base M mem (vd_world s)" and "base + M \<le> 2 ^ 32" and "the_queue q s = Some qs"
    and "chain base M mem (desc_addr qs) idx (d # ds)" and "list_all (buffer_ok base M) (reads (d # ds))" and "\<not> is_write d"
    and "unat off < unat (vdesc_len d)" and "0 < unat count" and "unat count < 2 ^ 31" and "pos + unat count \<le> length buf"
    and "unat off + unat count \<le> length (chain_bytes mem (reads (d # ds)))"
  shows "\<exists>s'. copy_loop bus q False d off buf pos count s =
      Some (0, splice buf pos (slice (chain_bytes mem (reads (d # ds))) (unat off) (unat count)), s') \<and>
    guest_ram bus i base M mem (vd_world s') \<and> same_device bus s s'"
  using assms
proof (induction ds arbitrary: d idx off buf pos count s rule: length_induct)
  case (1 ds)
  note prems = "1.prems" and IH = "1.IH" [rule_format]
  let ?D = "desc_bytes mem d" and ?R = "chain_bytes mem (reads ds)" and ?L = "unat (vdesc_len d)"
  let ?a = "vdesc_addr d + scast off"
  have R: "chain_bytes mem (reads (d # ds)) = ?D @ ?R" using prems(6) by simp
  have bd: "buffer_ok base M d" using prems(5,6) by simp
  then have Ls: "?L < 2 ^ 31" by (simp add: buffer_ok_def)
  have rest: "unat (vdesc_len d - off) = ?L - unat off" using prems(7) by (simp add: unat_sub word_le_nat_alt)
  define l where "l = min_int count (vdesc_len d - off)"
  have l1: "unat l = min (unat count) (?L - unat off)"
    using min_int_small [of count "vdesc_len d - off"] prems(7-9) Ls rest by (auto simp: l_def)
  then have l2: "0 < unat l" using prems(7,8) by linarith
  note l = l1 l2
  have "0 < l" using l2 by (simp add: word_less_nat_alt)
  have fits: "unat off + unat l \<le> ?L" "pos + unat l \<le> length buf" using l1 prems(7,10) by linarith+
  obtain t where t: "copy_piece bus False ?a buf pos l s = Some (splice buf pos (slice ?D (unat off) (unat l)), t)"
    "guest_ram bus i base M mem (vd_world t)" "same_device bus s t"
    using copy_piece_from [OF prems(1,2) bd fits(1) \<open>0 < l\<close> fits(2)] by blast
  have lc: "l \<le> count" using l(1) by (simp add: word_le_nat_alt)
  show ?case
  proof (cases "unat count \<le> ?L - unat off")
    case True
    then have "l = count" using l(1) by (simp add: word_unat_eq_iff)
    then have "copy_loop bus q False d off buf pos count s = Some (0, splice buf pos (slice ?D (unat off) (unat count)), t)"
      using t(1) by (subst copy_loop.simps) (simp add: l_def [symmetric])
    moreover have "slice (?D @ ?R) (unat off) (unat count) = slice ?D (unat off) (unat count)"
      using True prems(7) by (intro slice_append1) simp
    ultimately show ?thesis using t(2,3) by (simp only: R) blast
  next
    case False
    then have ul: "unat l = ?L - unat off" using l(1) by simp
    have "l = vdesc_len d - off" by (simp only: word_unat_eq_iff ul rest)
    then have off: "off + l = vdesc_len d" by simp
    have cl: "unat (count - l) = unat count - unat l" using lc by (simp add: unat_sub)
    then have more: "0 < unat (count - l)" using False ul by simp
    have "unat off + unat count \<le> ?L + length ?R" using prems(11) by (simp only: R length_append length_desc_bytes)
    then have len: "unat (count - l) \<le> length ?R" using cl ul prems(7) by simp
    then have "ds \<noteq> []" using more by auto
    then obtain e es where e: "ds = e # es" "has_next d" "chain base M mem (desc_addr qs) (vdesc_next d) (e # es)"
      "in_ram base M (desc_pos (desc_addr qs) (vdesc_next d)) 16" "e = desc_of mem (desc_pos (desc_addr qs) (vdesc_next d))"
      using chain_next [OF prems(4)] by blast
    have w: "\<not> is_write e" using len more e(1) by (cases "is_write e") auto
    have q: "the_queue q t = Some qs" using prems(3) same_deviceD(4) [OF t(3)] by simp
    obtain u where u: "get_desc bus q (vdesc_next d) t = Some (e, u)" "guest_ram bus i base M mem (vd_world u)" "same_device bus t u"
      using get_desc_ram [OF t(2) q e(4)] e(5) by auto
    have qu: "the_queue q u = Some qs" using q same_deviceD(4) [OF u(3)] by simp
    let ?buf = "splice buf pos (slice ?D (unat off) (unat l))"
    have be: "list_all (buffer_ok base M) (reads (e # es))" using prems(5,6) e(1) by simp
    have ce: "0 < unat (vdesc_len e)" using be w by (simp add: buffer_ok_def word_less_nat_alt)
    have lenD: "length (slice ?D (unat off) (unat l)) = unat l" using ul prems(7) by simp
    have pre: "length es < length ds" "unat (0 :: u32) < unat (vdesc_len e)" "unat (count - l) < 2 ^ 31"
      "pos + unat l + unat (count - l) \<le> length ?buf"
      "unat (0 :: u32) + unat (count - l) \<le> length (chain_bytes mem (reads (e # es)))"
      using e(1) ce cl lc prems(9,10) lenD len fits(2) by (simp_all add: word_le_nat_alt)
    obtain s' where s': "copy_loop bus q False e 0 ?buf (pos + unat l) (count - l) u =
        Some (0, splice ?buf (pos + unat l) (slice ?R 0 (unat (count - l))), s')"
      "guest_ram bus i base M mem (vd_world s')" "same_device bus u s'"
      using IH [OF pre(1) u(2) prems(2) qu e(3) be w pre(2) more pre(3-5)] e(1) by auto
    have "count - l \<noteq> 0" using more by (metis less_irrefl unat_0)
    then have "copy_loop bus q False d off buf pos count s =
        Some (0, splice ?buf (pos + unat l) (slice ?R 0 (unat (count - l))), s')"
      using t(1) off e(2) u(1) w s'(1) by (subst copy_loop.simps) (simp add: l_def [symmetric])
    moreover have "splice ?buf (pos + unat l) (slice ?R 0 (unat (count - l))) =
        splice buf pos (slice (?D @ ?R) (unat off) (unat count))"
    proof -
      have "slice (?D @ ?R) (unat off) (unat count) = slice ?D (unat off) (unat l) @ slice ?R 0 (unat (count - l))"
        using slice_append_split [of "unat off" ?D "unat count" ?R] False prems(7) ul cl by simp
      moreover have "pos + unat l + unat (count - l) \<le> length buf" using prems(10) cl lc by (simp add: word_le_nat_alt)
      ultimately show ?thesis
        using splice_splice [of pos "slice ?D (unat off) (unat l)" "slice ?R 0 (unat (count - l))" buf] lenD len by simp
    qed
    ultimately show ?thesis using s'(2) same_device_trans [OF same_device_trans [OF t(3) u(3)] s'(3)]
      by (simp only: R) blast
  qed
qed

lemma desc_at_offset_from:
  assumes "guest_ram bus i base M mem (vd_world s)" and "the_queue q s = Some qs"
    and "chain base M mem (desc_addr qs) idx (d # ds)" and "list_all (buffer_ok base M) (reads (d # ds))" and "\<not> is_write d"
    and "unat off < length (chain_bytes mem (reads (d # ds)))"
  shows "\<exists>s' idx' d' ds' off'. desc_at_offset bus q False d off s = Some (Some (d', off'), s') \<and>
    chain base M mem (desc_addr qs) idx' (d' # ds') \<and> list_all (buffer_ok base M) (reads (d' # ds')) \<and> \<not> is_write d' \<and>
    unat off' < unat (vdesc_len d') \<and>
    drop (unat off) (chain_bytes mem (reads (d # ds))) = drop (unat off') (chain_bytes mem (reads (d' # ds'))) \<and>
    guest_ram bus i base M mem (vd_world s') \<and> same_device bus s s'"
  using assms
proof (induction ds arbitrary: d idx off s rule: length_induct)
  case (1 ds)
  note prems = "1.prems" and IH = "1.IH" [rule_format]
  let ?L = "unat (vdesc_len d)"
  show ?case
  proof (cases "off < vdesc_len d")
    case True
    have "desc_at_offset bus q False d off s = Some (Some (d, off), s)"
      using True prems(5) by (subst desc_at_offset.simps) simp
    moreover have "unat off < ?L" using True by (simp add: word_less_nat_alt)
    ultimately show ?thesis using prems(1,3-5) same_device_refl [of s] by blast
  next
    case False
    have le: "?L \<le> unat off" using False by (simp add: word_le_nat_alt not_less)
    have sub: "unat (off - vdesc_len d) = unat off - ?L" using False by (simp add: unat_sub)
    have rlen: "unat off < ?L + length (chain_bytes mem (reads ds))" using prems(5,6) by simp
    then have "ds \<noteq> []" using le by auto
    then obtain e es where e: "ds = e # es" "has_next d" "chain base M mem (desc_addr qs) (vdesc_next d) (e # es)"
      "in_ram base M (desc_pos (desc_addr qs) (vdesc_next d)) 16" "e = desc_of mem (desc_pos (desc_addr qs) (vdesc_next d))"
      using chain_next [OF prems(3)] by blast
    have w: "\<not> is_write e" using rlen le e(1) by (cases "is_write e") auto
    have be: "list_all (buffer_ok base M) (reads (e # es))" using prems(4,5) e(1) by simp
    obtain u where u: "get_desc bus q (vdesc_next d) s = Some (e, u)" "guest_ram bus i base M mem (vd_world u)" "same_device bus s u"
      using get_desc_ram [OF prems(1,2) e(4)] e(5) by auto
    have qu: "the_queue q u = Some qs" using prems(2) same_deviceD(4) [OF u(3)] by simp
    have pre: "length es < length ds" "unat (off - vdesc_len d) < length (chain_bytes mem (reads (e # es)))"
      using e(1) sub rlen le by simp_all
    have step: "desc_at_offset bus q False d off s = desc_at_offset bus q False e (off - vdesc_len d) u"
      using False prems(5) e(2) u(1) by (subst desc_at_offset.simps) simp
    have "drop (unat off) (chain_bytes mem (reads (d # ds))) = drop (unat off - ?L) (chain_bytes mem (reads (e # es)))"
      using prems(5) le e(1) by simp
    then show ?thesis using IH [OF pre(1) u(2) qu e(3) be w pre(2)] same_device_trans [OF u(3)] unfolding step sub by metis
  qed
qed

text \<open>Reading a part of a request.\<close>

lemma memcpy_from_chain:
  assumes "guest_ram bus i base M mem (vd_world s)" and "base + M \<le> 2 ^ 32" and "the_queue q s = Some qs"
    and "chain base M mem (desc_addr qs) idx ds" and "list_all (buffer_ok base M) (reads ds)"
    and "unat count < 2 ^ 31" and "unat count \<le> length buf" and "unat off + unat count \<le> length (chain_bytes mem (reads ds))"
  shows "\<exists>s'. memcpy_from_queue bus buf q idx off count s =
      Some (0, splice buf 0 (slice (chain_bytes mem (reads ds)) (unat off) (unat count)), s') \<and>
    guest_ram bus i base M mem (vd_world s') \<and> same_device bus s s'"
proof (cases "count = 0")
  case True
  then show ?thesis using assms(1)
    by (intro exI [of _ s]) (simp add: memcpy_from_queue_def memcpy_to_from_queue_def slice_def splice_def)
next
  case False
  then have c: "0 < unat count" by (simp add: unat_gt_0)
  obtain d ds' where ds: "ds = d # ds'" using assms(4) by (cases ds) auto
  then have d: "in_ram base M (desc_pos (desc_addr qs) idx) 16" "d = desc_of mem (desc_pos (desc_addr qs) idx)"
    using assms(4) by auto
  obtain t where t: "get_desc bus q idx s = Some (d, t)" "guest_ram bus i base M mem (vd_world t)" "same_device bus s t"
    using get_desc_ram [OF assms(1,3) d(1)] d(2) by auto
  have qt: "the_queue q t = Some qs" using assms(3) same_deviceD(4) [OF t(3)] by simp
  have w: "\<not> is_write d" using assms(8) c ds by (cases "is_write d") auto
  have off: "unat off < length (chain_bytes mem (reads (d # ds')))" using assms(8) c ds by simp
  obtain u idx' d' es off' where u: "desc_at_offset bus q False d off t = Some (Some (d', off'), u)"
    "chain base M mem (desc_addr qs) idx' (d' # es)" "list_all (buffer_ok base M) (reads (d' # es))" "\<not> is_write d'"
    "unat off' < unat (vdesc_len d')"
    "drop (unat off) (chain_bytes mem (reads (d # ds'))) = drop (unat off') (chain_bytes mem (reads (d' # es)))"
    "guest_ram bus i base M mem (vd_world u)" "same_device bus t u"
    using desc_at_offset_from [OF t(2) qt assms(4) [unfolded ds] assms(5) [unfolded ds] w off] by blast
  have qu: "the_queue q u = Some qs" using qt same_deviceD(4) [OF u(8)] by simp
  have "length (drop (unat off) (chain_bytes mem (reads (d # ds')))) = length (drop (unat off') (chain_bytes mem (reads (d' # es))))"
    using u(6) by (rule arg_cong)
  then have len: "unat off' + unat count \<le> length (chain_bytes mem (reads (d' # es)))" using assms(8) ds c by simp
  obtain s' where s': "copy_loop bus q False d' off' buf 0 count u =
      Some (0, splice buf 0 (slice (chain_bytes mem (reads (d' # es))) (unat off') (unat count)), s')"
    "guest_ram bus i base M mem (vd_world s')" "same_device bus u s'"
    using copy_loop_from [OF u(7) assms(2) qu u(2-5) c assms(6) _ len, of 0 buf] assms(7) by auto
  have "slice (chain_bytes mem (reads (d' # es))) (unat off') (unat count) = slice (chain_bytes mem (reads ds)) (unat off) (unat count)"
    using u(6) by (simp only: slice_def ds)
  then have "memcpy_from_queue bus buf q idx off count s =
      Some (0, splice buf 0 (slice (chain_bytes mem (reads ds)) (unat off) (unat count)), s')"
    using False t(1) u(1) s'(1) by (simp add: memcpy_from_queue_def memcpy_to_from_queue_def)
  then show ?thesis using s'(2) same_device_trans [OF same_device_trans [OF t(3) u(8)] s'(3)] by blast
qed

end

end
