(* ===== verification/VirtioQueue.thy ===== *)
theory VirtioQueue
  imports VirtioSpec
begin

unbundle bit_operations_syntax

section \<open>Serving the requests of a queue\<close>

text \<open>
  A notification serves the requests that are available, each once and in order, and reports each
  in the used ring. What the device does with a request is the assumption of a locale, of which the
  kinds of devices are instances.
\<close>

subsection \<open>Layout\<close>

definition queue_ok :: "nat \<Rightarrow> nat \<Rightarrow> queue_state \<Rightarrow> bool" where
  "queue_ok base M qs \<longleftrightarrow> 0 < unat (num qs) \<and> unat (num qs) \<le> 2 ^ 15 \<and> base + M \<le> 2 ^ 32 \<and>
     in_ram base M (avail_addr qs) (4 + 2 * unat (num qs)) \<and> even (unat (avail_addr qs)) \<and>
     in_ram base M (used_addr qs) (4 + 8 * unat (num qs)) \<and> 4 dvd unat (used_addr qs)"

text \<open>Places that the used ring does not overlap.\<close>

definition clear_of_used :: "queue_state \<Rightarrow> nat \<Rightarrow> nat \<Rightarrow> bool" where
  "clear_of_used qs a n \<longleftrightarrow> a + n \<le> unat (used_addr qs) \<or> unat (used_addr qs) + 4 + 8 * unat (num qs) \<le> a"

definition ring_pos :: "queue_state \<Rightarrow> u16 \<Rightarrow> u64" where
  "ring_pos qs k = avail_addr qs + 4 + ucast ((ucast k AND (num qs - 1)) * 2 :: u32)"

definition ring_entry :: "(nat \<Rightarrow> u8) \<Rightarrow> queue_state \<Rightarrow> u16 \<Rightarrow> u16" where
  "ring_entry mem qs k = le_word (mem_bytes mem (unat (ring_pos qs k)) 2)"

definition used_pos :: "queue_state \<Rightarrow> u16 \<Rightarrow> u64" where
  "used_pos qs u = used_addr qs + 4 + ucast ((ucast u AND (num qs - 1)) * 8 :: u32)"

definition push_used :: "queue_state \<Rightarrow> u16 \<Rightarrow> u32 \<Rightarrow> (nat \<Rightarrow> u8) \<Rightarrow> nat \<Rightarrow> u8" where
  "push_used qs idx len mem =
     (let u = le_word (mem_bytes mem (unat (used_addr qs + 2)) 2) :: u16;
          mem = mem_write mem (unat (used_addr qs + 2)) (le_bytes 2 (u + 1));
          mem = mem_write mem (unat (used_pos qs u)) (le_bytes 4 (ucast idx :: u32))
      in mem_write mem (unat (used_pos qs u + 4)) (le_bytes 4 len))"

lemma masked_index:
  fixes n :: u32
  assumes "0 < unat n"
  shows "unat (w AND (n - 1)) < unat n"
proof -
  have "unat (w AND (n - 1)) \<le> unat (n - 1)" by (metis word_and_le1 word_le_nat_alt)
  moreover have "unat (n - 1) = unat n - 1" using assms by (intro unat_minus_one) auto
  ultimately show ?thesis using assms by linarith
qed

lemma unat_ucast64: "unat (ucast (y :: u32) :: u64) = unat y"
  by (simp add: unsigned_ucast_eq take_bit_nat_eq_self order.strict_trans [OF unsigned_less])

lemma unat_sum64: "unat (a :: u64) + unat b < 2 ^ 64 \<Longrightarrow> unat (a + b) = unat a + unat b"
  by (simp only: unat_word_ariths len64 mod_less)

lemma ring_position:
  fixes a :: u64 and n w c :: u32
  assumes "0 < unat n" and "unat n \<le> 2 ^ 15" and "unat c \<le> 8" and "unat a + 4 + unat c * unat n < 2 ^ 64"
  shows "unat (a + 4 + ucast ((w AND (n - 1)) * c :: u32)) = unat a + 4 + unat c * unat (w AND (n - 1))"
proof -
  have x: "unat (w AND (n - 1)) < unat n" by (rule masked_index [OF assms(1)])
  then have le: "unat (w AND (n - 1)) * unat c \<le> unat n * unat c" by (intro mult_right_mono) auto
  also have "\<dots> \<le> 2 ^ 15 * 8" using assms(2,3) by (intro mult_mono) auto
  finally have "unat (w AND (n - 1)) * unat c < 2 ^ LENGTH(32)" by simp
  then have y: "unat ((w AND (n - 1)) * c) = unat (w AND (n - 1)) * unat c"
    by (simp only: unat_word_ariths mod_less)
  have "unat (a + 4) = unat a + unat (4 :: u64)" using assms(4) by (intro unat_sum64) simp
  then have a4: "unat (a + 4) = unat a + 4" by simp
  have "unat (a + 4 + ucast ((w AND (n - 1)) * c :: u32)) = unat (a + 4) + unat (ucast ((w AND (n - 1)) * c) :: u64)"
    using assms(4) le by (intro unat_sum64) (simp only: a4 unat_ucast64 y mult.commute [of "unat c"])
  then show ?thesis by (simp only: a4 unat_ucast64 y mult.commute [of "unat c"])
qed

lemma aligned_iff: "(a :: u64) AND 1 = 0 \<longleftrightarrow> 2 dvd unat a" "a AND 3 = 0 \<longleftrightarrow> 4 dvd unat a"
proof -
  have t: "take_bit n a = 0 \<longleftrightarrow> unat a mod 2 ^ n = 0" for n
  proof -
    have "take_bit n a = 0 \<longleftrightarrow> unat (take_bit n a) = 0" by (simp only: unat_eq_zero)
    also have "unat (take_bit n a) = unat a mod 2 ^ n" by (simp only: unsigned_take_bit_eq take_bit_nat_def)
    finally show ?thesis .
  qed
  have "a AND 1 = take_bit 1 a" "a AND 3 = take_bit 2 a" by (simp_all add: take_bit_eq_mask mask_eq_exp_minus_1)
  then show "a AND 1 = 0 \<longleftrightarrow> 2 dvd unat a" "a AND 3 = 0 \<longleftrightarrow> 4 dvd unat a"
    using t [of 1] t [of 2] by (simp_all add: dvd_eq_mod_eq_0)
qed

lemma ring_pos_in:
  assumes "queue_ok base M qs"
  shows "in_ram base M (ring_pos qs k) 2" "ring_pos qs k AND 1 = 0"
    "unat (avail_addr qs) \<le> unat (ring_pos qs k)" "unat (ring_pos qs k) + 2 \<le> unat (avail_addr qs) + 4 + 2 * unat (num qs)"
proof -
  have q: "0 < unat (num qs)" "unat (num qs) \<le> 2 ^ 15" "base + M \<le> 2 ^ 32" "base \<le> unat (avail_addr qs)"
    "unat (avail_addr qs) + (4 + 2 * unat (num qs)) \<le> base + M" "even (unat (avail_addr qs))"
    using assms by (auto simp: queue_ok_def in_ram_def)
  have p: "unat (ring_pos qs k) = unat (avail_addr qs) + 4 + 2 * unat (ucast k AND (num qs - 1))"
    using ring_position [of "num qs" 2 "avail_addr qs" "ucast k"] q(1-3,5) by (simp add: ring_pos_def)
  have x: "unat ((ucast k :: u32) AND (num qs - 1)) < unat (num qs)" by (rule masked_index [OF q(1)])
  show "in_ram base M (ring_pos qs k) 2" using q x by (simp add: in_ram_def p)
  show "unat (avail_addr qs) \<le> unat (ring_pos qs k)" "unat (ring_pos qs k) + 2 \<le> unat (avail_addr qs) + 4 + 2 * unat (num qs)"
    using x by (simp_all add: p)
  have "even (unat (ring_pos qs k))" using q(6) by (simp add: p)
  then show "ring_pos qs k AND 1 = 0" by (simp only: aligned_iff)
qed

lemma avail_index_in:
  assumes "queue_ok base M qs"
  shows "in_ram base M (avail_addr qs + 2) 2" "(avail_addr qs + 2) AND 1 = 0" "unat (avail_addr qs + 2) = unat (avail_addr qs) + 2"
proof -
  have q: "base + M \<le> 2 ^ 32" "base \<le> unat (avail_addr qs)" "unat (avail_addr qs) + (4 + 2 * unat (num qs)) \<le> base + M"
    "even (unat (avail_addr qs))"
    using assms by (auto simp: queue_ok_def in_ram_def)
  have "unat (avail_addr qs + 2) = unat (avail_addr qs) + unat (2 :: u64)" using q by (intro unat_sum64) simp
  then show u: "unat (avail_addr qs + 2) = unat (avail_addr qs) + 2" by simp
  show "in_ram base M (avail_addr qs + 2) 2" using q by (simp add: in_ram_def u)
  have "even (unat (avail_addr qs + 2))" using q by (simp add: u)
  then show "(avail_addr qs + 2) AND 1 = 0" by (simp only: aligned_iff)
qed

lemma used_pos_in:
  assumes "queue_ok base M qs"
  shows "in_ram base M (used_pos qs u) 8" "in_ram base M (used_addr qs + 2) 2"
    "used_pos qs u AND 3 = 0" "(used_pos qs u + 4) AND 3 = 0" "(used_addr qs + 2) AND 1 = 0"
    "unat (used_pos qs u + 4) = unat (used_pos qs u) + 4" "unat (used_addr qs + 2) = unat (used_addr qs) + 2"
    "unat (used_addr qs) + 4 \<le> unat (used_pos qs u)" "unat (used_pos qs u) + 8 \<le> unat (used_addr qs) + 4 + 8 * unat (num qs)"
proof -
  have q: "0 < unat (num qs)" "unat (num qs) \<le> 2 ^ 15" "base + M \<le> 2 ^ 32" "base \<le> unat (used_addr qs)"
    "unat (used_addr qs) + (4 + 8 * unat (num qs)) \<le> base + M" "4 dvd unat (used_addr qs)"
    using assms by (auto simp: queue_ok_def in_ram_def)
  have p: "unat (used_pos qs u) = unat (used_addr qs) + 4 + 8 * unat (ucast u AND (num qs - 1))"
    using ring_position [of "num qs" 8 "used_addr qs" "ucast u"] q(1-3,5) by (simp add: used_pos_def)
  have x: "unat ((ucast u :: u32) AND (num qs - 1)) < unat (num qs)" by (rule masked_index [OF q(1)])
  have "unat (used_pos qs u + 4) = unat (used_pos qs u) + unat (4 :: u64)"
    using q x by (intro unat_sum64) (simp add: p)
  then show p4: "unat (used_pos qs u + 4) = unat (used_pos qs u) + 4" by simp
  have "unat (used_addr qs + 2) = unat (used_addr qs) + unat (2 :: u64)" using q by (intro unat_sum64) simp
  then show u2: "unat (used_addr qs + 2) = unat (used_addr qs) + 2" by simp
  show "in_ram base M (used_pos qs u) 8" "in_ram base M (used_addr qs + 2) 2" using q x by (simp_all add: in_ram_def p u2)
  have d: "4 dvd unat (used_pos qs u)" using q(6) by (simp add: p)
  then have "4 dvd unat (used_pos qs u + 4)" by (simp add: p4)
  then show "used_pos qs u AND 3 = 0" "(used_pos qs u + 4) AND 3 = 0" using d by (simp_all only: aligned_iff)
  have "2 dvd unat (used_addr qs)" using q(6) by (rule dvd_trans [rotated]) simp
  then have "2 dvd unat (used_addr qs + 2)" by (simp add: u2)
  then show "(used_addr qs + 2) AND 1 = 0" by (simp only: aligned_iff)
  show "unat (used_addr qs) + 4 \<le> unat (used_pos qs u)" "unat (used_pos qs u) + 8 \<le> unat (used_addr qs) + 4 + 8 * unat (num qs)"
    using x by (simp_all add: p)
qed


lemma queue_ok_simps [simp]: "queue_ok base M (qs\<lparr>last_avail_idx := k\<rparr>) = queue_ok base M qs"
  by (simp add: queue_ok_def)

lemma push_used_simps [simp]: "push_used (qs\<lparr>last_avail_idx := k\<rparr>) = push_used qs"
  by (simp add: push_used_def used_pos_def fun_eq_iff)

lemma push_used_elsewhere:
  assumes "queue_ok base M qs" and "clear_of_used qs a n"
  shows "mem_bytes (push_used qs idx len mem) a n = mem_bytes mem a n"
proof -
  define u where "u = (le_word (mem_bytes mem (unat (used_addr qs + 2)) 2) :: u16)"
  note p = used_pos_in(6,8,9) [OF assms(1), of u]
  have "push_used qs idx len mem = mem_write (mem_write (mem_write mem (unat (used_addr qs + 2)) (le_bytes 2 (u + 1)))
      (unat (used_pos qs u)) (le_bytes 4 (ucast idx :: u32))) (unat (used_pos qs u + 4)) (le_bytes 4 len)"
    by (simp only: push_used_def Let_def u_def [symmetric])
  moreover have "a + n \<le> unat (used_addr qs + 2) \<or> unat (used_addr qs + 2) + 2 \<le> a"
    "a + n \<le> unat (used_pos qs u) \<or> unat (used_pos qs u) + 4 \<le> a"
    "a + n \<le> unat (used_pos qs u + 4) \<or> unat (used_pos qs u + 4) + 4 \<le> a"
    using assms(2) p used_pos_in(7) [OF assms(1)] by (auto simp: clear_of_used_def)
  ultimately show ?thesis by (simp only: mem_bytes_write_other length_le_bytes)
qed

subsection \<open>Completing a request\<close>

context memory_bus
begin

lemma consume_ram:
  assumes "guest_ram bus i base M mem (vd_world s)" and "the_queue q s = Some qs" and "queue_ok base M qs"
  shows "\<exists>m s'. virtio_consume_desc bus q idx len s = Some s' \<and>
    guest_ram bus i base M (push_used qs idx len mem) (vd_world s') \<and>
    s' = s\<lparr>int_status := int_status s OR 1, vd_world := bus_set_irq bus (vd_irq s) True (bus_put_map bus m (vd_world s))\<rparr>"
proof -
  define u where "u = (le_word (mem_bytes mem (unat (used_addr qs + 2)) 2) :: u16)"
  note p = used_pos_in(1,3,4,6) [OF assms(3), of u] and c = used_pos_in(2,5) [OF assms(3)]
  have r: "in_ram base M (used_pos qs u) 4" "in_ram base M (used_pos qs u + 4) 4"
    using p(1,4) by (simp_all add: in_ram_def)
  obtain s1 where s1: "virtio_read16 bus (used_addr qs + 2) s = Some (u, s1)" "guest_ram bus i base M mem (vd_world s1)" "same_device bus s s1"
    using read16_ram [OF assms(1) c] unfolding u_def by blast
  define m1 where "m1 = mem_write mem (unat (used_addr qs + 2)) (le_bytes 2 (u + 1))"
  obtain s2 where s2: "virtio_write16 bus (used_addr qs + 2) (u + 1) s1 = Some s2" "guest_ram bus i base M m1 (vd_world s2)" "same_device bus s1 s2"
    using write16_ram [OF s1(2) c] unfolding m1_def by blast
  define m2 where "m2 = mem_write m1 (unat (used_pos qs u)) (le_bytes 4 (ucast idx :: u32))"
  obtain s3 where s3: "virtio_write32 bus (used_pos qs u) (ucast idx) s2 = Some s3" "guest_ram bus i base M m2 (vd_world s3)" "same_device bus s2 s3"
    using write32_ram [OF s2(2) r(1) p(2)] unfolding m2_def by blast
  define m3 where "m3 = mem_write m2 (unat (used_pos qs u + 4)) (le_bytes 4 len)"
  obtain s4 where s4: "virtio_write32 bus (used_pos qs u + 4) len s3 = Some s4" "guest_ram bus i base M m3 (vd_world s4)" "same_device bus s3 s4"
    using write32_ram [OF s3(2) r(2) p(3)] unfolding m3_def by blast
  have "virtio_consume_desc bus q idx len s = Some (virtio_set_irq bus True (s4\<lparr>int_status := int_status s4 OR 1\<rparr>))"
    using assms(2) s1(1) s2(1) s3(1) s4(1) by (simp add: virtio_consume_desc_def used_pos_def)
  moreover have "push_used qs idx len mem = m3" by (simp add: push_used_def u_def [symmetric] m3_def m2_def m1_def)
  moreover have "guest_ram bus i base M m3 (bus_set_irq bus n l (vd_world s4))" for n l
    using s4(2) by (simp add: guest_ram_def map_irq)
  moreover have "same_device bus s s4" using s1(3) s2(3) s3(3) s4(3) same_device_trans by blast
  ultimately show ?thesis by (auto simp: same_device_def virtio_set_irq_def)
qed

end

subsection \<open>The requests that are available\<close>

text \<open>
  The guest has queued the requests \<open>rs\<close>, given by the index of their first descriptor and their
  chain, from entry \<open>k\<close> of the ring on. The memory that the device reads for a request is not the
  used ring, which it writes.
\<close>

definition desc_clear :: "queue_state \<Rightarrow> u64 \<Rightarrow> bool" where
  "desc_clear qs a \<longleftrightarrow> clear_of_used qs (unat a) 16"

definition served :: "virtio_desc list \<Rightarrow> bool" where
  "served ds \<longleftrightarrow> request_sizes ds \<noteq> None"

fun chain_clear :: "queue_state \<Rightarrow> u16 \<Rightarrow> virtio_desc list \<Rightarrow> bool" where
  "chain_clear qs idx [] \<longleftrightarrow> True"
| "chain_clear qs idx (d # ds) \<longleftrightarrow> desc_clear qs (desc_pos (desc_addr qs) idx) \<and> chain_clear qs (vdesc_next d) ds"

lemma chain_clear_last [simp]: "chain_clear (qs\<lparr>last_avail_idx := k\<rparr>) idx ds = chain_clear qs idx ds"
  by (induction ds arbitrary: idx) (simp_all add: desc_clear_def clear_of_used_def)

definition request_ok :: "nat \<Rightarrow> nat \<Rightarrow> (nat \<Rightarrow> u8) \<Rightarrow> queue_state \<Rightarrow> u16 \<Rightarrow> virtio_desc list \<Rightarrow> bool" where
  "request_ok base M mem qs idx ds \<longleftrightarrow> chain base M mem (desc_addr qs) idx ds \<and> chain_clear qs idx ds \<and>
     list_all (buffer_ok base M) (reads ds) \<and>
     list_all (\<lambda>d. clear_of_used qs (unat (vdesc_addr d)) (unat (vdesc_len d))) (reads ds) \<and>
     length (chain_bytes mem (reads ds)) < 2 ^ 31"

fun available :: "nat \<Rightarrow> nat \<Rightarrow> (nat \<Rightarrow> u8) \<Rightarrow> queue_state \<Rightarrow> u16 \<Rightarrow> (u16 \<times> virtio_desc list) list \<Rightarrow> bool" where
  "available base M mem qs k [] \<longleftrightarrow> True"
| "available base M mem qs k ((idx, ds) # rs) \<longleftrightarrow> ring_entry mem qs k = idx \<and> request_ok base M mem qs idx ds \<and>
     available base M mem qs (k + 1) rs"

lemma desc_of_cong:
  assumes "\<And>a n. clear_of_used qs a n \<Longrightarrow> mem_bytes mem' a n = mem_bytes mem a n" and "desc_clear qs a"
  shows "desc_of mem' a = desc_of mem a"
proof -
  have c: "clear_of_used qs (unat a + x) n" if "x + n \<le> 16" for x n
    using assms(2) that by (auto simp: desc_clear_def clear_of_used_def)
  have "mem_bytes mem' (unat a + x) n = mem_bytes mem (unat a + x) n" if "x + n \<le> 16" for x n
    using c [OF that] by (rule assms(1))
  from this [of 0 8] this [of 8 4] this [of 12 2] this [of 14 2] show ?thesis by (simp add: desc_of_def)
qed

lemma chain_cong:
  assumes "\<And>a n. clear_of_used qs a n \<Longrightarrow> mem_bytes mem' a n = mem_bytes mem a n" and "chain_clear qs idx ds"
  shows "chain base M mem' (desc_addr qs) idx ds = chain base M mem (desc_addr qs) idx ds"
  using assms(2)
proof (induction ds arbitrary: idx)
  case (Cons d ds)
  then show ?case using desc_of_cong [OF assms(1), of qs "desc_pos (desc_addr qs) idx"] by auto
qed simp

lemma request_ok_cong:
  assumes "\<And>a n. clear_of_used qs a n \<Longrightarrow> mem_bytes mem' a n = mem_bytes mem a n" and "request_ok base M mem qs idx ds"
  shows "request_ok base M mem' qs idx ds" "chain_bytes mem' (reads ds) = chain_bytes mem (reads ds)"
proof -
  have "List.map (desc_bytes mem') (reads ds) = List.map (desc_bytes mem) (reads ds)"
    using assms(2) by (intro list.map_cong0) (auto simp: request_ok_def list_all_iff desc_bytes_def intro: assms(1))
  then show c: "chain_bytes mem' (reads ds) = chain_bytes mem (reads ds)" unfolding chain_bytes_def by (rule arg_cong)
  have "chain base M mem' (desc_addr qs) idx ds" if "chain_clear qs idx ds" "chain base M mem (desc_addr qs) idx ds"
    using chain_cong [OF assms(1) that(1)] that(2) by blast
  then show "request_ok base M mem' qs idx ds" using assms(2) c by (auto simp: request_ok_def)
qed

lemma available_cong:
  assumes "\<And>a n. clear_of_used qs a n \<Longrightarrow> mem_bytes mem' a n = mem_bytes mem a n" and "available base M mem qs k rs"
    and "\<And>k. clear_of_used qs (unat (ring_pos qs k)) 2"
  shows "available base M mem' qs k rs"
    "List.map (\<lambda>r. chain_bytes mem' (reads (snd r))) rs = List.map (\<lambda>r. chain_bytes mem (reads (snd r))) rs"
proof -
  have "available base M mem' qs k rs \<and>
    List.map (\<lambda>r. chain_bytes mem' (reads (snd r))) rs = List.map (\<lambda>r. chain_bytes mem (reads (snd r))) rs"
    using assms(2)
  proof (induction rs arbitrary: k)
    case (Cons r rs)
    obtain idx ds where r: "r = (idx, ds)" by (cases r)
    have "ring_entry mem' qs k = ring_entry mem qs k" using assms(1) [OF assms(3)] by (simp add: ring_entry_def)
    then show ?case using Cons r request_ok_cong [OF assms(1), of qs] by auto
  qed simp
  then show "available base M mem' qs k rs"
    "List.map (\<lambda>r. chain_bytes mem' (reads (snd r))) rs = List.map (\<lambda>r. chain_bytes mem (reads (snd r))) rs" by auto
qed


subsection \<open>A request without an end\<close>

context memory_bus
begin

lemma notify_endless:
  assumes "guest_ram bus i base M mem (vd_world s)" and "the_queue q s = Some qs" and "\<not> manual_recv qs"
    and "queue_ok base M qs" and "endless base M mem (desc_addr qs) W S" and "ring_entry mem qs (last_avail_idx qs) \<in> S"
    and "le_word (mem_bytes mem (unat (avail_addr qs + 2)) 2) \<noteq> last_avail_idx qs"
  shows "queue_notify bus ops q s = None"
proof -
  obtain t where t: "virtio_read16 bus (avail_addr qs + 2) s = Some (le_word (mem_bytes mem (unat (avail_addr qs + 2)) 2), t)"
    "guest_ram bus i base M mem (vd_world t)" "same_device bus s t"
    using read16_ram [OF assms(1) avail_index_in(1,2) [OF assms(4)]] by auto
  have qt: "the_queue q t = Some qs" using assms(2) same_deviceD(4) [OF t(3)] by simp
  obtain u where u: "avail_desc bus qs t = Some (ring_entry mem qs (last_avail_idx qs), u)"
    "guest_ram bus i base M mem (vd_world u)" "same_device bus t u"
    using read16_ram [OF t(2) ring_pos_in(1,2) [OF assms(4), of "last_avail_idx qs"]]
    unfolding avail_desc_def ring_pos_def [symmetric] ring_entry_def by blast
  have qu: "the_queue q u = Some qs" using qt same_deviceD(4) [OF u(3)] by simp
  have "get_desc_rw_size bus q (ring_entry mem qs (last_avail_idx qs)) u = None"
    by (rule rw_size_endless [OF assms(5) u(2) qu assms(6)])
  then have "notify_round bus ops q qs t = None" using u(1) by (simp add: notify_round_def)
  then show ?thesis using assms(2,3,7) t(1) qt by (simp add: queue_notify_def) (subst notify_loop.simps, simp)
qed

end

end
