(* ===== verification/VirtioServe.thy ===== *)
theory VirtioServe
  imports VirtioQueue
begin

unbundle bit_operations_syntax

section \<open>A notification serves the requests in order\<close>

text \<open>
  \<open>request_server\<close> is the interface between the queue and a device that consumes what the guest
  sends: the device has to handle one request, that is to take its bytes and to report it in the used
  ring. The theorem about all requests of a notification is proved once. The console and the input
  devices are the instances.
\<close>

subsection \<open>The loop of the notification\<close>

text \<open>The memory after the requests have been reported; the malformed ones are skipped.\<close>

fun completed :: "queue_state \<Rightarrow> (u16 \<times> virtio_desc list) list \<Rightarrow> (nat \<Rightarrow> u8) \<Rightarrow> nat \<Rightarrow> u8" where
  "completed qs [] mem = mem"
| "completed qs ((idx, ds) # rs) mem = completed qs rs (if served ds then push_used qs idx 0 mem else mem)"

definition sent :: "(nat \<Rightarrow> u8) \<Rightarrow> (u16 \<times> virtio_desc list) list \<Rightarrow> u8 list list" where
  "sent mem rs = List.map (\<lambda>r. chain_bytes mem (reads (snd r))) (filter (\<lambda>r. served (snd r)) rs)"

definition ring_clear :: "queue_state \<Rightarrow> bool" where
  "ring_clear qs \<longleftrightarrow> clear_of_used qs (unat (avail_addr qs)) (4 + 2 * unat (num qs))"

lemma sent_simps [simp]:
  "sent mem [] = []"
  "sent mem ((idx, ds) # rs) = (if served ds then [chain_bytes mem (reads ds)] else []) @ sent mem rs"
  by (simp_all add: sent_def)

lemma ring_clear_entry:
  assumes "queue_ok base M qs" and "ring_clear qs"
  shows "clear_of_used qs (unat (ring_pos qs k)) 2"
  using ring_pos_in(3,4) [OF assms(1), of k] assms(2) by (auto simp: ring_clear_def clear_of_used_def)

lemma available_after:
  assumes "queue_ok base M qs" and "ring_clear qs" and "available base M mem qs k rs"
  shows "available base M (push_used qs idx len mem) qs k rs" "sent (push_used qs idx len mem) rs = sent mem rs"
proof -
  note c = push_used_elsewhere [OF assms(1), where idx = idx and len = len and mem = mem]
  note a = available_cong [OF c assms(3) ring_clear_entry [OF assms(1,2)]]
  show "available base M (push_used qs idx len mem) qs k rs" by (rule a(1))
  show "sent (push_used qs idx len mem) rs = sent mem rs" using a(2) by (auto simp: sent_def)
qed

locale request_server = memory_bus bus for bus :: "'w virtio_bus" +
  fixes ops :: "('w, 'z) virtio_device_scheme virtio_ops"
    and q :: nat
    and inv :: "('w, 'z) virtio_device_scheme \<Rightarrow> bool"
    and accepts :: "u8 list \<Rightarrow> bool"
    and out :: "'w \<Rightarrow> u8 list"
    and payload :: "u8 list \<Rightarrow> u8 list"
  assumes handle: "guest_ram bus i base M mem (vd_world s) \<Longrightarrow> the_queue q s = Some qs \<Longrightarrow> queue_ok base M qs \<Longrightarrow>
      request_ok base M mem qs idx ds \<Longrightarrow> request_sizes ds = Some (rd, wr) \<Longrightarrow> accepts (chain_bytes mem (reads ds)) \<Longrightarrow> inv s \<Longrightarrow>
      \<exists>s'. device_recv ops q idx rd wr s = Some (0, s') \<and> guest_ram bus i base M (push_used qs idx 0 mem) (vd_world s') \<and>
        queue s' = queue s \<and> inv s' \<and> out (vd_world s') = out (vd_world s) @ payload (chain_bytes mem (reads ds))"
    and inv_world: "inv (s\<lparr>vd_world := bus_put_map bus m (vd_world s)\<rparr>) = inv s"
    and inv_queue: "inv (s\<lparr>queue := qss\<rparr>) = inv s"
    and out_put: "out (bus_put_map bus m w) = out w"
begin

lemma same_device_keeps: "same_device bus s s' \<Longrightarrow> inv s' = inv s \<and> out (vd_world s') = out (vd_world s)"
  by (auto simp: same_device_def inv_world out_put)

lemma next_avail_queue:
  assumes "the_queue q s = Some (qs\<lparr>last_avail_idx := k\<rparr>)"
  shows "queue (next_avail q s) = (queue s)[q := qs\<lparr>last_avail_idx := k + 1\<rparr>]"
    "the_queue q (next_avail q s) = Some (qs\<lparr>last_avail_idx := k + 1\<rparr>)"
    "vd_world (next_avail q s) = vd_world s" "inv (next_avail q s) = inv s"
  using assms by (auto simp: next_avail_def upd_queue_def the_queue_def inv_queue split: if_splits)

lemma round_serves:
  assumes "guest_ram bus i base M mem (vd_world s)" and "the_queue q s = Some (qs\<lparr>last_avail_idx := k\<rparr>)"
    and "queue_ok base M qs" and "ring_entry mem qs k = idx" and "request_ok base M mem qs idx ds"
    and "served ds \<Longrightarrow> accepts (chain_bytes mem (reads ds))" and "inv s"
  shows "\<exists>s'. notify_round bus ops q (qs\<lparr>last_avail_idx := k\<rparr>) s = Some (False, s') \<and>
    guest_ram bus i base M (completed qs [(idx, ds)] mem) (vd_world s') \<and> inv s' \<and>
    queue s' = (queue s)[q := qs\<lparr>last_avail_idx := k + 1\<rparr>] \<and>
    out (vd_world s') = out (vd_world s) @ concat (List.map payload (sent mem [(idx, ds)]))"
proof -
  let ?qs = "qs\<lparr>last_avail_idx := k\<rparr>"
  have pos: "avail_addr ?qs + 4 + ucast ((ucast (last_avail_idx ?qs) AND (num ?qs - 1)) * 2 :: u32) = ring_pos qs k"
    by (simp add: ring_pos_def)
  obtain t where t: "avail_desc bus ?qs s = Some (idx, t)" "guest_ram bus i base M mem (vd_world t)" "same_device bus s t"
    using read16_ram [OF assms(1) ring_pos_in(1,2) [OF assms(3), of k]] assms(4)
    unfolding avail_desc_def pos ring_entry_def by blast
  have qt: "the_queue q t = Some ?qs" using assms(2) same_deviceD(4) [OF t(3)] by simp
  have "chain base M mem (desc_addr ?qs) idx ds" using assms(5) by (simp add: request_ok_def)
  then obtain u where u: "get_desc_rw_size bus q idx t = Some (request_sizes ds, u)" "guest_ram bus i base M mem (vd_world u)" "same_device bus t u"
    using rw_size_chain [OF t(2) qt] by blast
  have qu: "the_queue q u = Some ?qs" using qt same_deviceD(4) [OF u(3)] by simp
  have su: "queue u = queue s" "inv u" "out (vd_world u) = out (vd_world s)"
    using same_deviceD(1) [OF t(3)] same_deviceD(1) [OF u(3)] same_device_keeps [OF t(3)] same_device_keeps [OF u(3)] assms(7) by simp_all
  show ?thesis
  proof (cases "request_sizes ds")
    case None
    then have "\<not> served ds" by (simp add: served_def)
    then show ?thesis using t(1) u(1,2) su None next_avail_queue [OF qu]
      by (intro exI [of _ "next_avail q u"]) (simp add: notify_round_def)
  next
    case (Some p)
    obtain r w where p: "p = (r, w)" by (cases p)
    have sv: "served ds" using Some by (simp add: served_def)
    have ok: "request_ok base M mem ?qs idx ds" using assms(5) by (simp add: request_ok_def list_all_iff clear_of_used_def)
    obtain s' where s': "device_recv ops q idx r w u = Some (0, s')" "guest_ram bus i base M (push_used qs idx 0 mem) (vd_world s')"
      "queue s' = queue u" "inv s'" "out (vd_world s') = out (vd_world u) @ payload (chain_bytes mem (reads ds))"
      using handle [OF u(2) qu _ ok, of r w] assms(3,6) Some p sv su(2) by auto
    have qs': "the_queue q s' = Some ?qs" using qu s'(3) by (simp add: the_queue_def split: if_splits)
    show ?thesis using t(1) u(1) Some p s' su sv next_avail_queue [OF qs']
      by (intro exI [of _ "next_avail q s'"]) (simp add: notify_round_def)
  qed
qed

lemma loop_serves:
  assumes "guest_ram bus i base M mem (vd_world s)" and "the_queue q s = Some (qs\<lparr>last_avail_idx := k\<rparr>)"
    and "queue_ok base M qs" and "ring_clear qs" and "available base M mem qs k rs" and "list_all accepts (sent mem rs)"
    and "length rs < 2 ^ 16" and "inv s"
  shows "\<exists>s'. notify_loop bus ops q (k + word_of_nat (length rs)) s = Some s' \<and>
    guest_ram bus i base M (completed qs rs mem) (vd_world s') \<and> inv s' \<and>
    queue s' = (queue s)[q := qs\<lparr>last_avail_idx := k + word_of_nat (length rs)\<rparr>] \<and>
    out (vd_world s') = out (vd_world s) @ concat (List.map payload (sent mem rs))"
  using assms
proof (induction rs arbitrary: mem k s)
  case Nil
  then have "queue s ! q = qs\<lparr>last_avail_idx := k\<rparr>" by (simp add: the_queue_def split: if_splits)
  then have "queue s = (queue s)[q := qs\<lparr>last_avail_idx := k\<rparr>]" by (metis list_update_id)
  then show ?case using Nil by (subst notify_loop.simps) auto
next
  case (Cons x rs)
  obtain idx ds where x: "x = (idx, ds)" by (cases x)
  let ?n = "word_of_nat (length (x # rs)) :: u16"
  have "unat ?n = length (x # rs) mod 2 ^ LENGTH(16)" by (rule unat_of_nat)
  then have "unat ?n = length (x # rs)" using Cons.prems(7) by simp
  then have n: "?n \<noteq> 0" by (metis length_0_conv list.distinct(1) unat_0)
  have a: "ring_entry mem qs k = idx" "request_ok base M mem qs idx ds" "available base M mem qs (k + 1) rs"
    using Cons.prems(5) x by auto
  let ?mem = "if served ds then push_used qs idx 0 mem else mem"
  obtain t where t: "notify_round bus ops q (qs\<lparr>last_avail_idx := k\<rparr>) s = Some (False, t)"
    "guest_ram bus i base M ?mem (vd_world t)" "inv t" "queue t = (queue s)[q := qs\<lparr>last_avail_idx := k + 1\<rparr>]"
    "out (vd_world t) = out (vd_world s) @ concat (List.map payload (sent mem [(idx, ds)]))"
    using round_serves [OF Cons.prems(1-3) a(1,2) _ Cons.prems(8)] Cons.prems(6) x by (auto split: if_splits)
  have qt: "the_queue q t = Some (qs\<lparr>last_avail_idx := k + 1\<rparr>)"
    using t(4) Cons.prems(2) by (auto simp: the_queue_def split: if_splits)
  have rest: "available base M ?mem qs (k + 1) rs" "sent ?mem rs = sent mem rs"
    using available_after [OF Cons.prems(3,4) a(3)] a(3) by auto
  have acc: "list_all accepts (sent ?mem rs)" using Cons.prems(6) rest(2) x by (auto simp: list_all_append)
  have len: "k + 1 + word_of_nat (length rs) = k + ?n" by simp
  obtain s' where s': "notify_loop bus ops q (k + ?n) t = Some s'" "guest_ram bus i base M (completed qs rs ?mem) (vd_world s')"
    "inv s'" "queue s' = (queue t)[q := qs\<lparr>last_avail_idx := k + ?n\<rparr>]"
    "out (vd_world s') = out (vd_world t) @ concat (List.map payload (sent ?mem rs))"
    using Cons.IH [OF t(2) qt Cons.prems(3,4) rest(1) acc _ t(3)] Cons.prems(7) unfolding len by auto
  have "k + ?n \<noteq> k" using n by simp
  then have "notify_loop bus ops q (k + ?n) s = Some s'"
    using Cons.prems(2) t(1) s'(1) by (subst notify_loop.simps) simp
  then show ?case using s' t(4,5) rest(2) x by auto
qed

text \<open>The whole notification.\<close>

lemma notify_serves:
  assumes "guest_ram bus i base M mem (vd_world s)" and "the_queue q s = Some qs" and "\<not> manual_recv qs"
    and "queue_ok base M qs" and "ring_clear qs" and "available base M mem qs (last_avail_idx qs) rs"
    and "le_word (mem_bytes mem (unat (avail_addr qs + 2)) 2) = last_avail_idx qs + word_of_nat (length rs)"
    and "list_all accepts (sent mem rs)" and "length rs < 2 ^ 16" and "inv s"
  shows "\<exists>s'. queue_notify bus ops q s = Some s' \<and>
    guest_ram bus i base M (completed qs rs mem) (vd_world s') \<and> inv s' \<and>
    queue s' = (queue s)[q := qs\<lparr>last_avail_idx := last_avail_idx qs + word_of_nat (length rs)\<rparr>] \<and>
    out (vd_world s') = out (vd_world s) @ concat (List.map payload (sent mem rs))"
proof -
  have a: "in_ram base M (avail_addr qs + 2) 2" "(avail_addr qs + 2) AND 1 = 0"
    using avail_index_in [OF assms(4)] by auto
  obtain t where t: "virtio_read16 bus (avail_addr qs + 2) s = Some (last_avail_idx qs + word_of_nat (length rs), t)"
    "guest_ram bus i base M mem (vd_world t)" "same_device bus s t"
    using read16_ram [OF assms(1) a] assms(7) by auto
  have "the_queue q t = Some (qs\<lparr>last_avail_idx := last_avail_idx qs\<rparr>)" using assms(2) same_deviceD(4) [OF t(3)] by simp
  then show ?thesis using loop_serves [OF t(2) _ assms(4,5,6,8,9)] t same_device_keeps [OF t(3)] same_deviceD(1) [OF t(3)] assms(2,3,10)
    by (simp add: queue_notify_def)
qed

end

end
