(* ===== verification/Virtio9p.thy ===== *)
theory Virtio9p
  imports VirtioDevices
begin

section \<open>Virtio devices: 9P file system (virtio.c, fs.h)\<close>

text \<open>
  The device answers the requests of the 9P2000.L protocol that arrive in queue 0. The file system
  behind it is the function table \<open>FSDevice\<close>, an argument here; its functions act on the world of the
  device. A file of it is known by a number, the pointer of the source. What the guest calls a file
  is a \<open>fid\<close>, and the device keeps the list of the open ones.
\<close>

subsection \<open>The file system\<close>

record fs_qid =
  qid_type :: u8
  qid_version :: u32
  qid_path :: u64

record fs_statfs =
  f_bsize :: u32
  f_blocks :: u64
  f_bfree :: u64
  f_bavail :: u64
  f_files :: u64
  f_ffree :: u64

record fs_stat =
  st_qid :: fs_qid
  st_mode :: u32
  st_uid :: u32
  st_gid :: u32
  st_nlink :: u64
  st_rdev :: u64
  st_size :: u64
  st_blksize :: u64
  st_blocks :: u64
  st_atime_sec :: u64
  st_atime_nsec :: u32
  st_mtime_sec :: u64
  st_mtime_nsec :: u32
  st_ctime_sec :: u64
  st_ctime_nsec :: u32

record fs_lock =
  lock_type :: u8
  lock_flags :: u32
  lock_start :: u64
  lock_length :: u64
  lock_proc_id :: u32
  lock_client_id :: "u8 list"

text \<open>
  Strings are lists of the bytes before the end. An \<open>int\<close> result is 0 or a positive number, or the
  negative of an error number. \<open>fs_open\<close> may be still in progress when it returns (a positive result);
  \<open>virtio_9p_open_cb\<close> is called when it is done.
\<close>

record 'w fs_device =
  fs_delete :: "nat \<Rightarrow> 'w \<Rightarrow> (unit \<times> 'w) option"
  fs_statfs :: "'w \<Rightarrow> (fs_statfs \<times> 'w) option"
  fs_attach :: "u32 \<Rightarrow> u8 list \<Rightarrow> u8 list \<Rightarrow> 'w \<Rightarrow> ((int \<times> nat \<times> fs_qid) \<times> 'w) option"
  fs_walk :: "nat \<Rightarrow> u8 list list \<Rightarrow> 'w \<Rightarrow> ((int \<times> nat \<times> fs_qid list) \<times> 'w) option"
  fs_mkdir :: "nat \<Rightarrow> u8 list \<Rightarrow> u32 \<Rightarrow> u32 \<Rightarrow> 'w \<Rightarrow> ((int \<times> fs_qid) \<times> 'w) option"
  fs_open :: "nat \<Rightarrow> u32 \<Rightarrow> 'w \<Rightarrow> ((int \<times> fs_qid) \<times> 'w) option"
  fs_create :: "nat \<Rightarrow> u8 list \<Rightarrow> u32 \<Rightarrow> u32 \<Rightarrow> u32 \<Rightarrow> 'w \<Rightarrow> ((int \<times> fs_qid) \<times> 'w) option"
  fs_getattr :: "nat \<Rightarrow> 'w \<Rightarrow> ((int \<times> fs_stat) \<times> 'w) option"
  fs_setattr :: "nat \<Rightarrow> u32 \<Rightarrow> u32 \<Rightarrow> u32 \<Rightarrow> u32 \<Rightarrow> u64 \<Rightarrow> u64 \<Rightarrow> u64 \<Rightarrow> u64 \<Rightarrow> u64 \<Rightarrow> 'w \<Rightarrow> (int \<times> 'w) option"
  fs_readdir :: "nat \<Rightarrow> u64 \<Rightarrow> u32 \<Rightarrow> 'w \<Rightarrow> ((int \<times> u8 list) \<times> 'w) option"
  fs_read :: "nat \<Rightarrow> u64 \<Rightarrow> u32 \<Rightarrow> 'w \<Rightarrow> ((int \<times> u8 list) \<times> 'w) option"
  fs_write :: "nat \<Rightarrow> u64 \<Rightarrow> u8 list \<Rightarrow> u32 \<Rightarrow> 'w \<Rightarrow> (int \<times> 'w) option"
  fs_link :: "nat \<Rightarrow> nat \<Rightarrow> u8 list \<Rightarrow> 'w \<Rightarrow> (int \<times> 'w) option"
  fs_symlink :: "nat \<Rightarrow> u8 list \<Rightarrow> u8 list \<Rightarrow> u32 \<Rightarrow> 'w \<Rightarrow> ((int \<times> fs_qid) \<times> 'w) option"
  fs_mknod :: "nat \<Rightarrow> u8 list \<Rightarrow> u32 \<Rightarrow> u32 \<Rightarrow> u32 \<Rightarrow> u32 \<Rightarrow> 'w \<Rightarrow> ((int \<times> fs_qid) \<times> 'w) option"
  fs_readlink :: "nat \<Rightarrow> 'w \<Rightarrow> ((int \<times> u8 list) \<times> 'w) option"
  fs_renameat :: "nat \<Rightarrow> u8 list \<Rightarrow> nat \<Rightarrow> u8 list \<Rightarrow> 'w \<Rightarrow> (int \<times> 'w) option"
  fs_unlinkat :: "nat \<Rightarrow> u8 list \<Rightarrow> 'w \<Rightarrow> (int \<times> 'w) option"
  fs_lock_file :: "nat \<Rightarrow> fs_lock \<Rightarrow> 'w \<Rightarrow> (int \<times> 'w) option"
  fs_getlock :: "nat \<Rightarrow> fs_lock \<Rightarrow> 'w \<Rightarrow> ((int \<times> fs_lock) \<times> 'w) option"

definition P9_EPROTO :: int where "P9_EPROTO = 71"
definition P9_ENOTSUP :: int where "P9_ENOTSUP = 524"

subsection \<open>State and files\<close>

text \<open>\<open>open_info\<close> is what \<open>fs_open\<close> was given for the call of \<open>virtio_9p_open_cb\<close>: queue, descriptor and tag.\<close>

record 'w virtio_9p = "'w virtio_device" +
  msize :: u32
  fid_list :: "(u32 \<times> nat) list"
  p9_in_progress :: bool
  open_info :: "(nat \<times> u16 \<times> u16) option"

definition call_fs ::
  "('w \<Rightarrow> ('r \<times> 'w) option) \<Rightarrow> ('w, 'z) virtio_device_scheme \<Rightarrow> ('r \<times> ('w, 'z) virtio_device_scheme) option" where
  "call_fs f s = map_option (\<lambda>(r, w). (r, s\<lparr>vd_world := w\<rparr>)) (f (vd_world s))"

definition fid_find :: "('w, 'z) virtio_9p_scheme \<Rightarrow> u32 \<Rightarrow> nat option" where
  "fid_find s fid = map_of (fid_list s) fid"

fun drop_fid :: "u32 \<Rightarrow> (u32 \<times> nat) list \<Rightarrow> (u32 \<times> nat) list" where
  "drop_fid fid [] = []"
| "drop_fid fid (x # xs) = (if fst x = fid then xs else x # drop_fid fid xs)"

fun put_fid :: "u32 \<Rightarrow> nat \<Rightarrow> (u32 \<times> nat) list \<Rightarrow> (u32 \<times> nat) list" where
  "put_fid fid fd [] = []"
| "put_fid fid fd (x # xs) = (if fst x = fid then (fid, fd) # xs else x # put_fid fid fd xs)"

definition fid_delete ::
  "'w fs_device \<Rightarrow> u32 \<Rightarrow> ('w, 'z) virtio_9p_scheme \<Rightarrow> ('w, 'z) virtio_9p_scheme option" where
  "fid_delete fsd fid s =
     (case fid_find s fid of
        None \<Rightarrow> Some s
      | Some fd \<Rightarrow> do {
          (_, s) \<leftarrow> call_fs (fs_delete fsd fd) s;
          Some (s\<lparr>fid_list := drop_fid fid (fid_list s)\<rparr>)
        })"

definition fid_set ::
  "'w fs_device \<Rightarrow> u32 \<Rightarrow> nat \<Rightarrow> ('w, 'z) virtio_9p_scheme \<Rightarrow> ('w, 'z) virtio_9p_scheme option" where
  "fid_set fsd fid fd s =
     (case fid_find s fid of
        Some old \<Rightarrow> do {
          (_, s) \<leftarrow> call_fs (fs_delete fsd old) s;
          Some (s\<lparr>fid_list := put_fid fid fd (fid_list s)\<rparr>)
        }
      | None \<Rightarrow> Some (s\<lparr>fid_list := (fid, fd) # fid_list s\<rparr>))"

subsection \<open>Messages\<close>

text \<open>
  The arguments of a message: \<open>b\<close>, \<open>h\<close> and \<open>w\<close> are numbers of 8, 16 and 32 bits, which C passes as
  \<open>int\<close>, \<open>d\<close> is one of 64 bits, \<open>s\<close> a string, \<open>Q\<close> a \<open>FSQID\<close>. An argument of the wrong type is
  undefined; the one exception is the identifier of \<open>statfs\<close>, a 32-bit zero that is taken as the 64-bit
  zero that is read. A message that does not fit into the buffer fails an assertion.
\<close>

datatype p9_value = P9_Int u32 | P9_Long u64 | P9_String "u8 list" | P9_Qid fs_qid

definition marshall1 :: "char \<Rightarrow> p9_value \<Rightarrow> u8 list option" where
  "marshall1 c val =
     (case val of
        P9_Int v \<Rightarrow>
          (if c = CHR ''b'' then Some (le_bytes 1 v)
           else if c = CHR ''h'' then Some (le_bytes 2 v)
           else if c = CHR ''w'' then Some (le_bytes 4 v)
           else None)
      | P9_Long v \<Rightarrow> (if c = CHR ''d'' then Some (le_bytes 8 v) else None)
      | P9_String str \<Rightarrow>
          (if c = CHR ''s'' \<and> length str \<le> 65535
           then Some (le_bytes 2 (word_of_nat (length str) :: u32) @ str) else None)
      | P9_Qid qid \<Rightarrow>
          (if c = CHR ''Q'' then Some (qid_type qid # le_bytes 4 (qid_version qid) @ le_bytes 8 (qid_path qid))
           else None))"

fun marshall :: "nat \<Rightarrow> string \<Rightarrow> p9_value list \<Rightarrow> u8 list option" where
  "marshall max_len [] vals = Some []"
| "marshall max_len (c # fmt) [] = None"
| "marshall max_len (c # fmt) (val # vals) = do {
     bytes \<leftarrow> marshall1 c val;
     guard (length bytes \<le> max_len);
     rest \<leftarrow> marshall (max_len - length bytes) fmt vals;
     Some (bytes @ rest)
   }"

text \<open>The string that ends at the first zero byte.\<close>

definition c_string :: "u8 list \<Rightarrow> u8 list" where
  "c_string bytes = takeWhile (\<lambda>b. b \<noteq> 0) bytes"

text \<open>One item of a request, and what follows it; nothing for -1.\<close>

definition read_number ::
  "'w virtio_bus \<Rightarrow> nat \<Rightarrow> u16 \<Rightarrow> u32 \<Rightarrow> nat \<Rightarrow> ('w, 'z) vstate \<Rightarrow> (u8 list option \<times> ('w, 'z) vstate) option" where
  "read_number bus queue_idx desc_idx offset n s = do {
     (ret, buf, s) \<leftarrow> memcpy_from_queue bus (replicate 16 0) queue_idx desc_idx offset (word_of_nat n) s;
     Some (if ret \<noteq> 0 then None else Some (take n buf), s)
   }"

definition read_string ::
  "'w virtio_bus \<Rightarrow> nat \<Rightarrow> u16 \<Rightarrow> u32 \<Rightarrow> ('w, 'z) vstate \<Rightarrow> ((p9_value \<times> u32) option \<times> ('w, 'z) vstate) option" where
  "read_string bus queue_idx desc_idx offset s = do {
     (buf, s) \<leftarrow> read_number bus queue_idx desc_idx offset 2 s;
     case buf of
       None \<Rightarrow> Some (None, s)
     | Some b \<Rightarrow> do {
         let len = (le_word b :: u32);
         str \<leftarrow> malloc_bytes bus (len + 1);
         (ret, str, s) \<leftarrow> memcpy_from_queue bus str queue_idx desc_idx (offset + 2) len s;
         Some (if ret \<noteq> 0 then None else Some (P9_String (c_string (take (unat len) str)), offset + 2 + len), s)
       }
   }"

definition unmarshall1 ::
  "'w virtio_bus \<Rightarrow> nat \<Rightarrow> u16 \<Rightarrow> u32 \<Rightarrow> char \<Rightarrow> ('w, 'z) vstate \<Rightarrow> ((p9_value \<times> u32) option \<times> ('w, 'z) vstate) option" where
  "unmarshall1 bus queue_idx desc_idx offset c s =
     (let number = (\<lambda>n val. do {
        (buf, s) \<leftarrow> read_number bus queue_idx desc_idx offset n s;
        Some (map_option (\<lambda>b. (val b, offset + word_of_nat n)) buf, s)
      }) in
      if c = CHR ''b'' then number 1 (\<lambda>b. P9_Int (le_word b))
      else if c = CHR ''h'' then number 2 (\<lambda>b. P9_Int (le_word b))
      else if c = CHR ''w'' then number 4 (\<lambda>b. P9_Int (le_word b))
      else if c = CHR ''d'' then number 8 (\<lambda>b. P9_Long (le_word b))
      else if c = CHR ''s'' then read_string bus queue_idx desc_idx offset s
      else None)"

fun unmarshall ::
  "'w virtio_bus \<Rightarrow> nat \<Rightarrow> u16 \<Rightarrow> u32 \<Rightarrow> string \<Rightarrow> ('w, 'z) vstate \<Rightarrow>
     ((p9_value list \<times> u32) option \<times> ('w, 'z) vstate) option" where
  "unmarshall bus queue_idx desc_idx offset [] s = Some (Some ([], offset), s)"
| "unmarshall bus queue_idx desc_idx offset (c # fmt) s = do {
     (item, s) \<leftarrow> unmarshall1 bus queue_idx desc_idx offset c s;
     case item of
       None \<Rightarrow> Some (None, s)
     | Some (val, offset) \<Rightarrow> do {
         (rest, s) \<leftarrow> unmarshall bus queue_idx desc_idx offset fmt s;
         Some (map_option (\<lambda>(vals, offset). (val # vals, offset)) rest, s)
       }
   }"

text \<open>The variables that \<open>unmarshall\<close> has set, by their place in the format.\<close>

definition int_arg :: "p9_value list \<Rightarrow> nat \<Rightarrow> u32" where
  "int_arg vals i = (case vals ! i of P9_Int v \<Rightarrow> v | _ \<Rightarrow> 0)"

definition long_arg :: "p9_value list \<Rightarrow> nat \<Rightarrow> u64" where
  "long_arg vals i = (case vals ! i of P9_Long v \<Rightarrow> v | _ \<Rightarrow> 0)"

definition string_arg :: "p9_value list \<Rightarrow> nat \<Rightarrow> u8 list" where
  "string_arg vals i = (case vals ! i of P9_String str \<Rightarrow> str | _ \<Rightarrow> [])"

subsection \<open>Replies\<close>

definition virtio_9p_send_reply ::
  "'w virtio_bus \<Rightarrow> nat \<Rightarrow> u16 \<Rightarrow> u8 \<Rightarrow> u16 \<Rightarrow> u8 list \<Rightarrow> ('w, 'z) vstate \<Rightarrow> ('w, 'z) vstate option" where
  "virtio_9p_send_reply bus queue_idx desc_idx op tag buf s = do {
     let len = word_of_nat (length buf) + 7;
     let buf1 = le_bytes 4 len @ [op + 1] @ le_bytes 2 tag @ buf;
     (_, s) \<leftarrow> memcpy_to_queue bus queue_idx desc_idx 0 buf1 len s;
     virtio_consume_desc bus queue_idx desc_idx len s
   }"

definition virtio_9p_send_error ::
  "'w virtio_bus \<Rightarrow> nat \<Rightarrow> u16 \<Rightarrow> u16 \<Rightarrow> int \<Rightarrow> ('w, 'z) vstate \<Rightarrow> ('w, 'z) vstate option" where
  "virtio_9p_send_error bus queue_idx desc_idx tag err s = do {
     buf \<leftarrow> marshall 4 ''w'' [P9_Int (word_of_int (- err))];
     virtio_9p_send_reply bus queue_idx desc_idx 6 tag buf s
   }"

definition virtio_9p_open_reply ::
  "'w virtio_bus \<Rightarrow> fs_qid \<Rightarrow> int \<Rightarrow> nat \<times> u16 \<times> u16 \<Rightarrow> ('w, 'z) virtio_9p_scheme \<Rightarrow> ('w, 'z) virtio_9p_scheme option" where
  "virtio_9p_open_reply bus qid err oi s =
     (case oi of (queue_idx, desc_idx, tag) \<Rightarrow>
        if err < 0 then virtio_9p_send_error bus queue_idx desc_idx tag err s
        else do {
          buf \<leftarrow> marshall 32 ''Qw'' [P9_Qid qid, P9_Int (msize s - 24)];
          virtio_9p_send_reply bus queue_idx desc_idx 12 tag buf s
        })"

subsection \<open>Requests\<close>

text \<open>
  How the branch of a request ends: with a reply under the request's own identifier, with an error
  (\<open>goto error\<close>), or without either, where it has sent its reply itself or will do so later.
\<close>

datatype p9_outcome = P9_Reply "u8 list" | P9_Error int | P9_Done

definition REPLY_MAX :: nat where "REPLY_MAX = 1024"

definition reply ::
  "string \<Rightarrow> p9_value list \<Rightarrow> ('w, 'z) virtio_9p_scheme \<Rightarrow> (p9_outcome \<times> ('w, 'z) virtio_9p_scheme) option" where
  "reply fmt vals s = map_option (\<lambda>buf. (P9_Reply buf, s)) (marshall REPLY_MAX fmt vals)"

text \<open>The arguments of the request, or \<open>goto protocol_error\<close>; the file of a fid, or \<open>goto fid_not_found\<close>.\<close>

definition with_args ::
  "'w virtio_bus \<Rightarrow> nat \<Rightarrow> u16 \<Rightarrow> u32 \<Rightarrow> string \<Rightarrow>
     (p9_value list \<Rightarrow> u32 \<Rightarrow> ('w, 'z) virtio_9p_scheme \<Rightarrow> (p9_outcome \<times> ('w, 'z) virtio_9p_scheme) option) \<Rightarrow>
     ('w, 'z) virtio_9p_scheme \<Rightarrow> (p9_outcome \<times> ('w, 'z) virtio_9p_scheme) option" where
  "with_args bus queue_idx desc_idx offset fmt k s = do {
     (args, s) \<leftarrow> unmarshall bus queue_idx desc_idx offset fmt s;
     case args of
       None \<Rightarrow> Some (P9_Error (- P9_EPROTO), s)
     | Some (vals, offset) \<Rightarrow> k vals offset s
   }"

definition with_file ::
  "u32 \<Rightarrow> (nat \<Rightarrow> ('w, 'z) virtio_9p_scheme \<Rightarrow> (p9_outcome \<times> ('w, 'z) virtio_9p_scheme) option) \<Rightarrow>
     ('w, 'z) virtio_9p_scheme \<Rightarrow> (p9_outcome \<times> ('w, 'z) virtio_9p_scheme) option" where
  "with_file fid k s =
     (case fid_find s fid of
        None \<Rightarrow> Some (P9_Error (- P9_EPROTO), s)
      | Some f \<Rightarrow> k f s)"

text \<open>The answers of the operations that only report success, and of those that report a \<open>FSQID\<close>.\<close>

definition reply_none ::
  "int \<times> ('w, 'z) virtio_9p_scheme \<Rightarrow> (p9_outcome \<times> ('w, 'z) virtio_9p_scheme) option" where
  "reply_none r = (case r of (err, s) \<Rightarrow> if err \<noteq> 0 then Some (P9_Error err, s) else Some (P9_Reply [], s))"

definition reply_qid ::
  "(int \<times> fs_qid) \<times> ('w, 'z) virtio_9p_scheme \<Rightarrow> (p9_outcome \<times> ('w, 'z) virtio_9p_scheme) option" where
  "reply_qid r = (case r of ((err, qid), s) \<Rightarrow>
     if err \<noteq> 0 then Some (P9_Error err, s) else reply ''Q'' [P9_Qid qid] s)"

definition p9_statfs ::
  "'w fs_device \<Rightarrow> ('w, 'z) virtio_9p_scheme \<Rightarrow> (p9_outcome \<times> ('w, 'z) virtio_9p_scheme) option" where
  "p9_statfs fsd s = do {
     (st, s) \<leftarrow> call_fs (fs_statfs fsd) s;
     reply ''wwddddddw'' [P9_Int 0, P9_Int (f_bsize st), P9_Long (f_blocks st), P9_Long (f_bfree st),
       P9_Long (f_bavail st), P9_Long (f_files st), P9_Long (f_ffree st), P9_Long 0, P9_Int 256] s
   }"

definition p9_lopen ::
  "'w virtio_bus \<Rightarrow> 'w fs_device \<Rightarrow> nat \<Rightarrow> u16 \<Rightarrow> u16 \<Rightarrow> p9_value list \<Rightarrow> ('w, 'z) virtio_9p_scheme \<Rightarrow>
     (p9_outcome \<times> ('w, 'z) virtio_9p_scheme) option" where
  "p9_lopen bus fsd queue_idx desc_idx tag vals =
     with_file (int_arg vals 0) (\<lambda>f s. do {
       let oi = (queue_idx, desc_idx, tag);
       ((err, qid), s) \<leftarrow> call_fs (fs_open fsd f (int_arg vals 1)) s;
       if err \<le> 0 then do {
         s \<leftarrow> virtio_9p_open_reply bus qid err oi s;
         Some (P9_Done, s)
       } else Some (P9_Done, s\<lparr>p9_in_progress := True, open_info := Some oi\<rparr>)
     })"

definition p9_lcreate ::
  "'w fs_device \<Rightarrow> p9_value list \<Rightarrow> ('w, 'z) virtio_9p_scheme \<Rightarrow> (p9_outcome \<times> ('w, 'z) virtio_9p_scheme) option" where
  "p9_lcreate fsd vals =
     with_file (int_arg vals 0) (\<lambda>f s. do {
       ((err, qid), s) \<leftarrow> call_fs (fs_create fsd f (string_arg vals 1) (int_arg vals 2) (int_arg vals 3) (int_arg vals 4)) s;
       if err \<noteq> 0 then Some (P9_Error err, s)
       else reply ''Qw'' [P9_Qid qid, P9_Int (msize s - 24)] s
     })"

definition p9_symlink ::
  "'w fs_device \<Rightarrow> p9_value list \<Rightarrow> ('w, 'z) virtio_9p_scheme \<Rightarrow> (p9_outcome \<times> ('w, 'z) virtio_9p_scheme) option" where
  "p9_symlink fsd vals =
     with_file (int_arg vals 0) (\<lambda>f s.
       call_fs (fs_symlink fsd f (string_arg vals 1) (string_arg vals 2) (int_arg vals 3)) s \<bind> reply_qid)"

definition p9_mknod ::
  "'w fs_device \<Rightarrow> p9_value list \<Rightarrow> ('w, 'z) virtio_9p_scheme \<Rightarrow> (p9_outcome \<times> ('w, 'z) virtio_9p_scheme) option" where
  "p9_mknod fsd vals =
     with_file (int_arg vals 0) (\<lambda>f s.
       call_fs (fs_mknod fsd f (string_arg vals 1) (int_arg vals 2) (int_arg vals 3) (int_arg vals 4) (int_arg vals 5)) s
         \<bind> reply_qid)"

definition p9_readlink ::
  "'w fs_device \<Rightarrow> p9_value list \<Rightarrow> ('w, 'z) virtio_9p_scheme \<Rightarrow> (p9_outcome \<times> ('w, 'z) virtio_9p_scheme) option" where
  "p9_readlink fsd vals =
     with_file (int_arg vals 0) (\<lambda>f s. do {
       ((err, str), s) \<leftarrow> call_fs (fs_readlink fsd f) s;
       if err \<noteq> 0 then Some (P9_Error err, s) else reply ''s'' [P9_String str] s
     })"

definition p9_getattr ::
  "'w fs_device \<Rightarrow> p9_value list \<Rightarrow> ('w, 'z) virtio_9p_scheme \<Rightarrow> (p9_outcome \<times> ('w, 'z) virtio_9p_scheme) option" where
  "p9_getattr fsd vals =
     with_file (int_arg vals 0) (\<lambda>f s. do {
       ((err, st), s) \<leftarrow> call_fs (fs_getattr fsd f) s;
       if err \<noteq> 0 then Some (P9_Error err, s)
       else reply ''dQwwwddddddddddddddd''
         [P9_Long (long_arg vals 1), P9_Qid (st_qid st), P9_Int (st_mode st), P9_Int (st_uid st), P9_Int (st_gid st),
          P9_Long (st_nlink st), P9_Long (st_rdev st), P9_Long (st_size st), P9_Long (st_blksize st),
          P9_Long (st_blocks st), P9_Long (st_atime_sec st), P9_Long (ucast (st_atime_nsec st)),
          P9_Long (st_mtime_sec st), P9_Long (ucast (st_mtime_nsec st)), P9_Long (st_ctime_sec st),
          P9_Long (ucast (st_ctime_nsec st)), P9_Long 0, P9_Long 0, P9_Long 0, P9_Long 0] s
     })"

definition p9_setattr ::
  "'w fs_device \<Rightarrow> p9_value list \<Rightarrow> ('w, 'z) virtio_9p_scheme \<Rightarrow> (p9_outcome \<times> ('w, 'z) virtio_9p_scheme) option" where
  "p9_setattr fsd vals =
     with_file (int_arg vals 0) (\<lambda>f s.
       call_fs (fs_setattr fsd f (int_arg vals 1) (int_arg vals 2) (int_arg vals 3) (int_arg vals 4) (long_arg vals 5)
         (long_arg vals 6) (long_arg vals 7) (long_arg vals 8) (long_arg vals 9)) s \<bind> reply_none)"

text \<open>
  The two requests that read data. The file system writes \<open>bytes\<close> behind the first four bytes of a
  buffer of \<open>count + 4\<close> bytes, a sum of 32 bits, and its result is how many of them count.
\<close>

definition p9_data ::
  "'w virtio_bus \<Rightarrow> (nat \<Rightarrow> u64 \<Rightarrow> u32 \<Rightarrow> 'w \<Rightarrow> ((int \<times> u8 list) \<times> 'w) option) \<Rightarrow> p9_value list \<Rightarrow>
     ('w, 'z) virtio_9p_scheme \<Rightarrow> (p9_outcome \<times> ('w, 'z) virtio_9p_scheme) option" where
  "p9_data bus get_data vals =
     with_file (int_arg vals 0) (\<lambda>f s. do {
       let count = int_arg vals 2;
       let buf = List.map (bus_junk bus) [0..<unat (count + 4)];
       ((n, bytes), s) \<leftarrow> call_fs (get_data f (long_arg vals 1) count) s;
       buf \<leftarrow> (if bytes = [] then Some buf else mem_store buf 4 bytes);
       if n < 0 then Some (P9_Error n, s)
       else do {
         buf \<leftarrow> mem_store buf 0 (le_bytes 4 (word_of_int n :: u32));
         out \<leftarrow> mem_load buf 0 (nat n + 4);
         Some (P9_Reply out, s)
       }
     })"

definition p9_write_data ::
  "'w fs_device \<Rightarrow> nat \<Rightarrow> u64 \<Rightarrow> u32 \<Rightarrow> int \<times> u8 list \<times> ('w, 'z) virtio_9p_scheme \<Rightarrow>
     (p9_outcome \<times> ('w, 'z) virtio_9p_scheme) option" where
  "p9_write_data fsd f offs count r =
     (case r of (ret, buf1, s) \<Rightarrow>
        if ret \<noteq> 0 then Some (P9_Error (- P9_EPROTO), s)
        else do {
          (n, s) \<leftarrow> call_fs (fs_write fsd f offs buf1 count) s;
          if n < 0 then Some (P9_Error n, s) else reply ''w'' [P9_Int (word_of_int n)] s
        })"

definition p9_write ::
  "'w virtio_bus \<Rightarrow> 'w fs_device \<Rightarrow> nat \<Rightarrow> u16 \<Rightarrow> p9_value list \<Rightarrow> u32 \<Rightarrow> ('w, 'z) virtio_9p_scheme \<Rightarrow>
     (p9_outcome \<times> ('w, 'z) virtio_9p_scheme) option" where
  "p9_write bus fsd queue_idx desc_idx vals offset =
     with_file (int_arg vals 0) (\<lambda>f s.
       let count = int_arg vals 2 in
       memcpy_from_queue bus (List.map (bus_junk bus) [0..<unat count]) queue_idx desc_idx offset count s
         \<bind> p9_write_data fsd f (long_arg vals 1) count)"

text \<open>
  The reply to \<open>getlock\<close> gives the addresses of its values to \<open>marshall\<close> instead of the values, which
  is undefined. \<open>lock.flags\<close> is not set before the call.
\<close>

definition p9_lock ::
  "'w fs_device \<Rightarrow> p9_value list \<Rightarrow> ('w, 'z) virtio_9p_scheme \<Rightarrow> (p9_outcome \<times> ('w, 'z) virtio_9p_scheme) option" where
  "p9_lock fsd vals =
     with_file (int_arg vals 0) (\<lambda>f s. do {
       let lock = \<lparr>lock_type = ucast (int_arg vals 1), lock_flags = int_arg vals 2, lock_start = long_arg vals 3,
         lock_length = long_arg vals 4, lock_proc_id = int_arg vals 5, lock_client_id = string_arg vals 6\<rparr>;
       (err, s) \<leftarrow> call_fs (fs_lock_file fsd f lock) s;
       if err < 0 then Some (P9_Error err, s) else reply ''b'' [P9_Int (word_of_int err)] s
     })"

definition p9_getlock ::
  "'w virtio_bus \<Rightarrow> 'w fs_device \<Rightarrow> p9_value list \<Rightarrow> ('w, 'z) virtio_9p_scheme \<Rightarrow>
     (p9_outcome \<times> ('w, 'z) virtio_9p_scheme) option" where
  "p9_getlock bus fsd vals =
     with_file (int_arg vals 0) (\<lambda>f s. do {
       let lock = \<lparr>lock_type = ucast (int_arg vals 1), lock_flags = le_word (List.map (bus_junk bus) [0..<4]),
         lock_start = long_arg vals 2, lock_length = long_arg vals 3, lock_proc_id = int_arg vals 4,
         lock_client_id = string_arg vals 5\<rparr>;
       ((err, _), s) \<leftarrow> call_fs (fs_getlock fsd f lock) s;
       if err < 0 then Some (P9_Error err, s) else None
     })"

definition p9_link ::
  "'w fs_device \<Rightarrow> p9_value list \<Rightarrow> ('w, 'z) virtio_9p_scheme \<Rightarrow> (p9_outcome \<times> ('w, 'z) virtio_9p_scheme) option" where
  "p9_link fsd vals =
     with_file (int_arg vals 0) (\<lambda>df. with_file (int_arg vals 1) (\<lambda>f s.
       call_fs (fs_link fsd df f (string_arg vals 2)) s \<bind> reply_none))"

definition p9_mkdir ::
  "'w fs_device \<Rightarrow> p9_value list \<Rightarrow> ('w, 'z) virtio_9p_scheme \<Rightarrow> (p9_outcome \<times> ('w, 'z) virtio_9p_scheme) option" where
  "p9_mkdir fsd vals =
     with_file (int_arg vals 0) (\<lambda>f s.
       call_fs (fs_mkdir fsd f (string_arg vals 1) (int_arg vals 2) (int_arg vals 3)) s \<bind> reply_qid)"

definition p9_renameat ::
  "'w fs_device \<Rightarrow> p9_value list \<Rightarrow> ('w, 'z) virtio_9p_scheme \<Rightarrow> (p9_outcome \<times> ('w, 'z) virtio_9p_scheme) option" where
  "p9_renameat fsd vals =
     with_file (int_arg vals 0) (\<lambda>f. with_file (int_arg vals 2) (\<lambda>new_f s.
       call_fs (fs_renameat fsd f (string_arg vals 1) new_f (string_arg vals 3)) s \<bind> reply_none))"

definition p9_unlinkat ::
  "'w fs_device \<Rightarrow> p9_value list \<Rightarrow> ('w, 'z) virtio_9p_scheme \<Rightarrow> (p9_outcome \<times> ('w, 'z) virtio_9p_scheme) option" where
  "p9_unlinkat fsd vals =
     with_file (int_arg vals 0) (\<lambda>f s.
       call_fs (fs_unlinkat fsd f (string_arg vals 1)) s \<bind> reply_none)"

definition p9_version ::
  "p9_value list \<Rightarrow> ('w, 'z) virtio_9p_scheme \<Rightarrow> (p9_outcome \<times> ('w, 'z) virtio_9p_scheme) option" where
  "p9_version vals s = (let s = s\<lparr>msize := int_arg vals 0\<rparr> in
     reply ''ws'' [P9_Int (msize s), P9_String [0x39, 0x50, 0x32, 0x30, 0x30, 0x30, 0x2E, 0x4C]] s)"

definition p9_attach ::
  "'w fs_device \<Rightarrow> p9_value list \<Rightarrow> ('w, 'z) virtio_9p_scheme \<Rightarrow> (p9_outcome \<times> ('w, 'z) virtio_9p_scheme) option" where
  "p9_attach fsd vals s = do {
     ((err, f, qid), s) \<leftarrow> call_fs (fs_attach fsd (int_arg vals 4) (string_arg vals 2) (string_arg vals 3)) s;
     if err \<noteq> 0 then Some (P9_Error err, s)
     else do {
       s \<leftarrow> fid_set fsd (int_arg vals 0) f s;
       reply ''Q'' [P9_Qid qid] s
     }
   }"

text \<open>The names of a walk, of which there are \<open>n\<close>.\<close>

fun walk_names ::
  "'w virtio_bus \<Rightarrow> nat \<Rightarrow> u16 \<Rightarrow> u32 \<Rightarrow> nat \<Rightarrow> ('w, 'z) vstate \<Rightarrow> (u8 list list option \<times> ('w, 'z) vstate) option" where
  "walk_names bus queue_idx desc_idx offset 0 s = Some (Some [], s)"
| "walk_names bus queue_idx desc_idx offset (Suc n) s = do {
     (item, s) \<leftarrow> unmarshall bus queue_idx desc_idx offset ''s'' s;
     case item of
       None \<Rightarrow> Some (None, s)
     | Some (vals, offset) \<Rightarrow> do {
         (names, s) \<leftarrow> walk_names bus queue_idx desc_idx offset n s;
         Some (map_option (\<lambda>ns. string_arg vals 0 # ns) names, s)
       }
   }"

definition p9_walk_to ::
  "'w fs_device \<Rightarrow> u32 \<Rightarrow> nat \<Rightarrow> u8 list list option \<times> ('w, 'z) virtio_9p_scheme \<Rightarrow>
     (p9_outcome \<times> ('w, 'z) virtio_9p_scheme) option" where
  "p9_walk_to fsd newfid f r =
     (case r of
        (None, s) \<Rightarrow> Some (P9_Error (- P9_EPROTO), s)
      | (Some names, s) \<Rightarrow> do {
          ((err, f, qids), s) \<leftarrow> call_fs (fs_walk fsd f names) s;
          if err < 0 then Some (P9_Error err, s)
          else do {
            guard (nat err \<le> length qids);
            buf \<leftarrow> marshall REPLY_MAX (CHR ''h'' # replicate (nat err) CHR ''Q'')
              (P9_Int (word_of_int err) # List.map P9_Qid (take (nat err) qids));
            s \<leftarrow> fid_set fsd newfid f s;
            Some (P9_Reply buf, s)
          }
        })"

definition p9_walk ::
  "'w virtio_bus \<Rightarrow> 'w fs_device \<Rightarrow> nat \<Rightarrow> u16 \<Rightarrow> p9_value list \<Rightarrow> u32 \<Rightarrow> ('w, 'z) virtio_9p_scheme \<Rightarrow>
     (p9_outcome \<times> ('w, 'z) virtio_9p_scheme) option" where
  "p9_walk bus fsd queue_idx desc_idx vals offset =
     with_file (int_arg vals 0) (\<lambda>f s.
       walk_names bus queue_idx desc_idx offset (unat (int_arg vals 2)) s \<bind> p9_walk_to fsd (int_arg vals 1) f)"

definition p9_clunk ::
  "'w fs_device \<Rightarrow> p9_value list \<Rightarrow> ('w, 'z) virtio_9p_scheme \<Rightarrow> (p9_outcome \<times> ('w, 'z) virtio_9p_scheme) option" where
  "p9_clunk fsd vals s = map_option (\<lambda>s. (P9_Reply [], s)) (fid_delete fsd (int_arg vals 0) s)"

definition p9_request ::
  "'w virtio_bus \<Rightarrow> 'w fs_device \<Rightarrow> nat \<Rightarrow> u16 \<Rightarrow> u8 \<Rightarrow> u16 \<Rightarrow> ('w, 'z) virtio_9p_scheme \<Rightarrow>
     (p9_outcome \<times> ('w, 'z) virtio_9p_scheme) option" where
  "p9_request bus fsd queue_idx desc_idx op tag =
     (let args = with_args bus queue_idx desc_idx 7 in
      if op = 8 then p9_statfs fsd
      else if op = 12 then args ''ww'' (\<lambda>vals _. p9_lopen bus fsd queue_idx desc_idx tag vals)
      else if op = 14 then args ''wswww'' (\<lambda>vals _. p9_lcreate fsd vals)
      else if op = 16 then args ''wssw'' (\<lambda>vals _. p9_symlink fsd vals)
      else if op = 18 then args ''wswwww'' (\<lambda>vals _. p9_mknod fsd vals)
      else if op = 22 then args ''w'' (\<lambda>vals _. p9_readlink fsd vals)
      else if op = 24 then args ''wd'' (\<lambda>vals _. p9_getattr fsd vals)
      else if op = 26 then args ''wwwwwddddd'' (\<lambda>vals _. p9_setattr fsd vals)
      else if op = 30 then (\<lambda>s. Some (P9_Error (- P9_ENOTSUP), s))
      else if op = 40 then args ''wdw'' (\<lambda>vals _. p9_data bus (fs_readdir fsd) vals)
      else if op = 50 then args ''w'' (\<lambda>_ _ s. Some (P9_Reply [], s))
      else if op = 52 then args ''wbwddws'' (\<lambda>vals _. p9_lock fsd vals)
      else if op = 54 then args ''wbddws'' (\<lambda>vals _. p9_getlock bus fsd vals)
      else if op = 70 then args ''wws'' (\<lambda>vals _. p9_link fsd vals)
      else if op = 72 then args ''wsww'' (\<lambda>vals _. p9_mkdir fsd vals)
      else if op = 74 then args ''wsws'' (\<lambda>vals _. p9_renameat fsd vals)
      else if op = 76 then args ''wsw'' (\<lambda>vals _. p9_unlinkat fsd vals)
      else if op = 100 then args ''ws'' (\<lambda>vals _. p9_version vals)
      else if op = 104 then args ''wwssw'' (\<lambda>vals _. p9_attach fsd vals)
      else if op = 108 then args ''h'' (\<lambda>_ _ s. Some (P9_Reply [], s))
      else if op = 110 then args ''wwh'' (p9_walk bus fsd queue_idx desc_idx)
      else if op = 116 then args ''wdw'' (\<lambda>vals _. p9_data bus (fs_read fsd) vals)
      else if op = 118 then args ''wdw'' (p9_write bus fsd queue_idx desc_idx)
      else if op = 120 then args ''w'' (\<lambda>vals _. p9_clunk fsd vals)
      else (\<lambda>s. Some (P9_Error (- P9_EPROTO), s)))"

definition p9_finish ::
  "'w virtio_bus \<Rightarrow> nat \<Rightarrow> u16 \<Rightarrow> u8 \<Rightarrow> u16 \<Rightarrow> p9_outcome \<times> ('w, 'z) virtio_9p_scheme \<Rightarrow> ('w, 'z) virtio_9p_scheme option" where
  "p9_finish bus queue_idx desc_idx op tag r =
     (case r of
        (P9_Reply buf, s) \<Rightarrow> virtio_9p_send_reply bus queue_idx desc_idx op tag buf s
      | (P9_Error err, s) \<Rightarrow> virtio_9p_send_error bus queue_idx desc_idx tag err s
      | (P9_Done, s) \<Rightarrow> Some s)"

definition virtio_9p_recv_request ::
  "'w virtio_bus \<Rightarrow> 'w fs_device \<Rightarrow> nat \<Rightarrow> u16 \<Rightarrow> u32 \<Rightarrow> u32 \<Rightarrow> ('w, 'z) virtio_9p_scheme \<Rightarrow>
     (int \<times> ('w, 'z) virtio_9p_scheme) option" where
  "virtio_9p_recv_request bus fsd queue_idx desc_idx read_size write_size s =
     (if queue_idx \<noteq> 0 then Some (0, s)
      else if p9_in_progress s then Some (- 1, s)
      else do {
        (ret, buf, s) \<leftarrow> memcpy_from_queue bus (replicate 7 0) queue_idx desc_idx 0 7 s;
        if ret \<noteq> 0 then do {
          s \<leftarrow> virtio_9p_send_error bus queue_idx desc_idx 0 (- P9_EPROTO) s;
          Some (0, s)
        } else do {
          let op = buf ! 4;
          let tag = le_word (drop 5 buf);
          r \<leftarrow> p9_request bus fsd queue_idx desc_idx op tag s;
          s \<leftarrow> p9_finish bus queue_idx desc_idx op tag r;
          Some (0, s)
        }
      })"

definition p9_ops ::
  "'w virtio_bus \<Rightarrow> 'w fs_device \<Rightarrow> ('w, 'z) virtio_9p_scheme virtio_ops" where
  "p9_ops bus fsd = \<lparr>device_recv = virtio_9p_recv_request bus fsd, config_write = Some\<rparr>"

text \<open>The call of the file system when an open has been completed.\<close>

definition virtio_9p_open_cb ::
  "'w virtio_bus \<Rightarrow> 'w fs_device \<Rightarrow> fs_qid \<Rightarrow> int \<Rightarrow> ('w, 'z) virtio_9p_scheme \<Rightarrow> ('w, 'z) virtio_9p_scheme option" where
  "virtio_9p_open_cb bus fsd qid err s = do {
     oi \<leftarrow> open_info s;
     s \<leftarrow> virtio_9p_open_reply bus qid err oi s;
     let s = s\<lparr>p9_in_progress := False, open_info := None\<rparr>;
     queue_notify bus (p9_ops bus fsd) (fst oi) s
   }"

definition virtio_9p_init ::
  "'w virtio_bus \<Rightarrow> u8 list \<Rightarrow> u64 \<Rightarrow> nat \<Rightarrow> nat \<Rightarrow> 'w \<Rightarrow> 'w virtio_9p option" where
  "virtio_9p_init bus mount_tag addr irq opaque world = do {
     let len = (word_of_nat (length mount_tag) :: u32);
     s \<leftarrow> virtio_init bus addr irq opaque 9 (2 + len) world
       \<lparr>msize = 0, fid_list = [], p9_in_progress = False, open_info = None\<rparr>;
     cfg \<leftarrow> mem_store (config_space s) 0 [ucast len, ucast (drop_bit 8 len)];
     cfg \<leftarrow> mem_store cfg 2 mount_tag;
     Some (s\<lparr>device_features := 1, config_space := cfg, msize := 8192\<rparr>)
   }"

end
