(* ===== verification/SimpleFb.thy ===== *)
theory SimpleFb
  imports PhysMem
begin

unbundle bit_operations_syntax

section \<open>Frame buffer (simplefb.c)\<close>

text \<open>
  The display is a range of RAM with dirty bits. A refresh turns the pages that have been written
  into bands of lines and gives these to the drawing function; here it returns the list of the bands,
  as pairs of the first line and the height. Sizes are \<open>int\<close>; the sizes of a display are small
  enough for the C type.
\<close>

record fb_device =
  fb_width :: int
  fb_height :: int
  fb_stride :: int
  fb_size :: int

record simplefb_state =
  fb_dev :: fb_device
  fb_page_count :: nat
  fb_range :: nat

definition FB_ALLOC_ALIGN :: int where "FB_ALLOC_ALIGN = 65536"
definition MAX_MERGE_DISTANCE :: int where "MAX_MERGE_DISTANCE = 3"

subsection \<open>The bands to redraw\<close>

text \<open>
  A pending band is \<open>y0\<close> to \<open>y1\<close>; it is empty where they are equal.
\<close>

type_synonym band = "int \<times> int"

definition page_lines :: "fb_device \<Rightarrow> nat \<Rightarrow> int \<times> int" where
  "page_lines fb page =
     (let byte_pos = int page * uint DEVRAM_PAGE_SIZE;
          page_y0 = byte_pos div fb_stride fb;
          page_y1 = (byte_pos + uint DEVRAM_PAGE_SIZE - 1) div fb_stride fb + 1
      in (page_y0, min page_y1 (fb_height fb)))"

definition add_page :: "fb_device \<Rightarrow> nat \<Rightarrow> band \<times> band list \<Rightarrow> band \<times> band list" where
  "add_page fb page st =
     (let ((y0, y1), out) = st; (page_y0, page_y1) = page_lines fb page
      in if y0 = y1 then ((page_y0, page_y1), out)
         else if page_y0 \<le> y1 + MAX_MERGE_DISTANCE then ((y0, page_y1), out)
         else ((page_y0, page_y1), out @ [(y0, y1 - y0)]))"

text \<open>
  The loop over the bits of a word. The bit that has been handled is cleared, so that the search for
  the next one goes on behind it.
\<close>

function refresh_word ::
  "fb_device \<Rightarrow> nat \<Rightarrow> nat \<Rightarrow> u32 \<Rightarrow> band \<times> band list \<Rightarrow> band \<times> band list" where
  "refresh_word fb page_index bit_pos dirty_val st =
     (if dirty_val = 0 \<or> 32 \<le> bit_pos then st
      else if drop_bit bit_pos dirty_val AND 1 = 0
        then refresh_word fb page_index (bit_pos + 1) dirty_val st
      else refresh_word fb page_index (bit_pos + 1) (dirty_val AND NOT (push_bit bit_pos 1))
             (add_page fb (page_index + bit_pos) st))"
  by pat_completeness auto

termination refresh_word
  by (relation "measure (\<lambda>(_, _, bit_pos, _, _). 32 - bit_pos)") auto

declare refresh_word.simps [simp del]

function refresh_pages ::
  "fb_device \<Rightarrow> nat \<Rightarrow> u32 list \<Rightarrow> nat \<Rightarrow> band \<times> band list \<Rightarrow> (band \<times> band list) option" where
  "refresh_pages fb page_count dirty_bits page_index st =
     (if page_index < page_count then
        if drop_bit 5 page_index < length dirty_bits
        then refresh_pages fb page_count dirty_bits (page_index + 32)
               (refresh_word fb page_index 0 (dirty_bits ! drop_bit 5 page_index) st)
        else None
      else Some st)"
  by pat_completeness auto

termination refresh_pages
  by (relation "measure (\<lambda>(_, count, _, i, _). count - i)") auto

declare refresh_pages.simps [simp del]

definition simplefb_refresh ::
  "'w flush_tlb \<Rightarrow> fb_device \<Rightarrow> phys_mem_range \<Rightarrow> nat \<Rightarrow> 'w \<Rightarrow> (band list \<times> phys_mem_range \<times> 'w) option" where
  "simplefb_refresh flush_tlb fb pr page_count world = do {
     (dirty_bits, pr, world) \<leftarrow> phys_mem_get_dirty_bits flush_tlb pr world;
     ((y0, y1), out) \<leftarrow> refresh_pages fb page_count dirty_bits 0 ((0, 0), []);
     Some (if y0 \<noteq> y1 then out @ [(y0, y1 - y0)] else out, pr, world)
   }"

definition simplefb_refresh1 ::
  "'w flush_tlb \<Rightarrow> simplefb_state \<Rightarrow> phys_mem_map \<Rightarrow> 'w \<Rightarrow> (band list \<times> phys_mem_map \<times> 'w) option" where
  "simplefb_refresh1 flush_tlb s mem world = do {
     pr \<leftarrow> range_at mem (fb_range s);
     (out, pr, world) \<leftarrow> simplefb_refresh flush_tlb (fb_dev s) pr (fb_page_count s) world;
     Some (out, set_range mem (fb_range s) pr, world)
   }"

definition simplefb_init ::
  "ram_setup \<Rightarrow> phys_mem_map \<Rightarrow> u64 \<Rightarrow> int \<Rightarrow> int \<Rightarrow> (simplefb_state \<times> phys_mem_map) option" where
  "simplefb_init setup mem phys_addr width height = do {
     let stride = width * 4;
     let sz = (height * stride + FB_ALLOC_ALIGN - 1) AND NOT (FB_ALLOC_ALIGN - 1);
     let fb = \<lparr>fb_width = width, fb_height = height, fb_stride = stride, fb_size = sz\<rparr>;
     (i, mem) \<leftarrow> cpu_register_ram setup mem phys_addr (word_of_int sz) DEVRAM_FLAG_DIRTY_BITS;
     Some (\<lparr>fb_dev = fb, fb_page_count = nat (drop_bit DEVRAM_PAGE_SIZE_LOG2 sz), fb_range = i\<rparr>, mem)
   }"

end
