(* ===== verification/VirtioMachine.thy ===== *)
theory VirtioMachine
  imports RiscvMachine VirtioInput Virtio9p SimpleFb
begin

section \<open>The virtio devices of the machine (riscv_machine.c)\<close>

text \<open>
  The machine with its virtio devices, the frame buffer and the keyboard and mouse. A device record
  at rest has no world of its own; for an access it is given the machine as its world, and what it
  did to the machine is taken over. The network, the disks and the file systems are function tables
  of the source: their functions are fields of \<open>host_ops\<close> and act on the field \<open>host\<close> of the machine. Device \<open>n\<close> of
  the list has the number \<open>4 + n\<close> in the memory map.
\<close>

subsection \<open>State\<close>

datatype virtio_dev =
    Virtio_Console "unit virtio_device"
  | Virtio_Net nat "unit virtio_net"
  | Virtio_Block nat "unit virtio_block"
  | Virtio_9p nat "unit virtio_9p"
  | Virtio_Input "unit virtio_input"

record 'h virt_machine = riscv_machine +
  host :: 'h
  virtio_devs :: "virtio_dev list"
  keyboard_dev :: "nat option"
  mouse_dev :: "nat option"
  frame_buffer :: "simplefb_state option"

record 'h host_ops =
  host_alloc :: vm_env
  host_junk :: "nat \<Rightarrow> u8"
  send_packet :: "nat \<Rightarrow> u8 list \<Rightarrow> 'h \<Rightarrow> 'h option"
  disk :: "nat \<Rightarrow> 'h block_backend"
  file_system :: "nat \<Rightarrow> 'h fs_device"

definition FIRST_VIRTIO_DEV :: nat where "FIRST_VIRTIO_DEV = 4"

definition with_world :: "'w \<Rightarrow> ('v, 'z) virtio_device_scheme \<Rightarrow> ('w, 'z) virtio_device_scheme" where
  "with_world w d = \<lparr>vd_world = w, vd_irq = vd_irq d, int_status = int_status d, vd_status = vd_status d,
     device_features_sel = device_features_sel d, queue_sel = queue_sel d, queue = queue d,
     device_id = device_id d, vendor_id = vendor_id d, device_features = device_features d,
     config_space_size = config_space_size d, config_space = config_space d, \<dots> = virtio_device.more d\<rparr>"

text \<open>The memory map, the interrupt lines of the PLIC and the console of the machine.\<close>

definition machine_bus :: "vm_env \<Rightarrow> (nat \<Rightarrow> u8) \<Rightarrow> 'z riscv_machine_scheme virtio_bus" where
  "machine_bus env junk = \<lparr>bus_alloc = env, bus_map = mem_map, bus_put_map = (\<lambda>m s. s\<lparr>mem_map := m\<rparr>),
     bus_set_irq = plic_set_irq, bus_junk = junk\<rparr>"

definition console_write :: "u8 list \<Rightarrow> 'z riscv_machine_scheme \<Rightarrow> 'z riscv_machine_scheme option" where
  "console_write buf s = Some (s\<lparr>console_out := console_out s @ buf\<rparr>)"

definition net_write :: "'h host_ops \<Rightarrow> nat \<Rightarrow> u8 list \<Rightarrow> 'h virt_machine \<Rightarrow> 'h virt_machine option" where
  "net_write hops i buf s = map_option (\<lambda>h. s\<lparr>host := h\<rparr>) (send_packet hops i buf (host s))"

definition machine_disk :: "'h host_ops \<Rightarrow> nat \<Rightarrow> 'h virt_machine block_backend" where
  "machine_disk hops i = \<lparr>get_sector_count = (\<lambda>s. get_sector_count (disk hops i) (host s)),
     read_async = (\<lambda>sector n s. map_option (\<lambda>(ret, bytes, h). (ret, bytes, s\<lparr>host := h\<rparr>)) (read_async (disk hops i) sector n (host s))),
     write_async = (\<lambda>sector buf n s. map_option (\<lambda>(ret, h). (ret, s\<lparr>host := h\<rparr>)) (write_async (disk hops i) sector buf n (host s)))\<rparr>"

definition in_host :: "('h \<Rightarrow> ('r \<times> 'h) option) \<Rightarrow> 'h virt_machine \<Rightarrow> ('r \<times> 'h virt_machine) option" where
  "in_host f s = map_option (\<lambda>(r, h). (r, s\<lparr>host := h\<rparr>)) (f (host s))"

definition machine_fs :: "'h host_ops \<Rightarrow> nat \<Rightarrow> 'h virt_machine fs_device" where
  "machine_fs hops i = (let fsd = file_system hops i in
     \<lparr>fs_delete = (\<lambda>f. in_host (fs_delete fsd f)),
      fs_statfs = in_host (fs_statfs fsd),
      fs_attach = (\<lambda>uid uname aname. in_host (fs_attach fsd uid uname aname)),
      fs_walk = (\<lambda>f names. in_host (fs_walk fsd f names)),
      fs_mkdir = (\<lambda>f name mode gid. in_host (fs_mkdir fsd f name mode gid)),
      fs_open = (\<lambda>f flags. in_host (fs_open fsd f flags)),
      fs_create = (\<lambda>f name flags mode gid. in_host (fs_create fsd f name flags mode gid)),
      fs_getattr = (\<lambda>f. in_host (fs_getattr fsd f)),
      fs_setattr = (\<lambda>f mask mode uid gid size asec ansec msec mnsec.
        in_host (fs_setattr fsd f mask mode uid gid size asec ansec msec mnsec)),
      fs_readdir = (\<lambda>f offs count. in_host (fs_readdir fsd f offs count)),
      fs_read = (\<lambda>f offs count. in_host (fs_read fsd f offs count)),
      fs_write = (\<lambda>f offs buf count. in_host (fs_write fsd f offs buf count)),
      fs_link = (\<lambda>df f name. in_host (fs_link fsd df f name)),
      fs_symlink = (\<lambda>f name target gid. in_host (fs_symlink fsd f name target gid)),
      fs_mknod = (\<lambda>f name mode major minor gid. in_host (fs_mknod fsd f name mode major minor gid)),
      fs_readlink = (\<lambda>f. in_host (fs_readlink fsd f)),
      fs_renameat = (\<lambda>f name new_f new_name. in_host (fs_renameat fsd f name new_f new_name)),
      fs_unlinkat = (\<lambda>f name. in_host (fs_unlinkat fsd f name)),
      fs_lock_file = (\<lambda>f lock. in_host (fs_lock_file fsd f lock)),
      fs_getlock = (\<lambda>f lock. in_host (fs_getlock fsd f lock))\<rparr>)"

abbreviation hbus :: "'h host_ops \<Rightarrow> 'h virt_machine virtio_bus" where
  "hbus hops \<equiv> machine_bus (host_alloc hops) (host_junk hops)"

subsection \<open>Accesses of the CPU\<close>

text \<open>A step of a device with the machine as its world.\<close>

definition in_machine ::
  "(('w, 'z) virtio_device_scheme \<Rightarrow> ('w, 'z) virtio_device_scheme option) \<Rightarrow>
     (unit, 'z) virtio_device_scheme \<Rightarrow> 'w \<Rightarrow> ((unit, 'z) virtio_device_scheme \<times> 'w) option" where
  "in_machine f d s = map_option (\<lambda>d. (with_world () d, vd_world d)) (f (with_world s d))"

definition device_write ::
  "'h host_ops \<Rightarrow> u32 \<Rightarrow> u32 \<Rightarrow> nat \<Rightarrow> virtio_dev \<Rightarrow> 'h virt_machine \<Rightarrow> (virtio_dev \<times> 'h virt_machine) option" where
  "device_write hops offset val size_log2 dev s =
     (case dev of
        Virtio_Console d \<Rightarrow> map_option (map_prod Virtio_Console id)
          (in_machine (virtio_mmio_write (hbus hops) (console_ops (hbus hops) console_write) offset val size_log2) d s)
      | Virtio_Net i d \<Rightarrow> map_option (map_prod (Virtio_Net i) id)
          (in_machine (virtio_mmio_write (hbus hops) (net_ops (hbus hops) (net_write hops i)) offset val size_log2) d s)
      | Virtio_Block i d \<Rightarrow> map_option (map_prod (Virtio_Block i) id)
          (in_machine (virtio_mmio_write (hbus hops) (block_ops (hbus hops) (machine_disk hops i)) offset val size_log2) d s)
      | Virtio_9p i d \<Rightarrow> map_option (map_prod (Virtio_9p i) id)
          (in_machine (virtio_mmio_write (hbus hops) (p9_ops (hbus hops) (machine_fs hops i)) offset val size_log2) d s)
      | Virtio_Input d \<Rightarrow> map_option (map_prod Virtio_Input id)
          (in_machine (virtio_mmio_write (hbus hops) (input_ops (hbus hops)) offset val size_log2) d s))"

definition device_read :: "u32 \<Rightarrow> nat \<Rightarrow> virtio_dev \<Rightarrow> u32 option" where
  "device_read offset size_log2 dev =
     (case dev of
        Virtio_Console d \<Rightarrow> virtio_mmio_read offset size_log2 d
      | Virtio_Net i d \<Rightarrow> virtio_mmio_read offset size_log2 d
      | Virtio_Block i d \<Rightarrow> virtio_mmio_read offset size_log2 d
      | Virtio_9p i d \<Rightarrow> virtio_mmio_read offset size_log2 d
      | Virtio_Input d \<Rightarrow> virtio_mmio_read offset size_log2 d)"

definition the_dev :: "nat \<Rightarrow> 'h virt_machine \<Rightarrow> virtio_dev option" where
  "the_dev i s = (if i < length (virtio_devs s) then Some (virtio_devs s ! i) else None)"

definition put_dev :: "nat \<Rightarrow> virtio_dev \<times> 'h virt_machine \<Rightarrow> 'h virt_machine" where
  "put_dev i r = (snd r)\<lparr>virtio_devs := (virtio_devs (snd r))[i := fst r]\<rparr>"

definition machine_virtio_read :: "nat \<Rightarrow> u32 \<Rightarrow> nat \<Rightarrow> 'h virt_machine \<Rightarrow> (u32 \<times> 'h virt_machine) option" where
  "machine_virtio_read n offset size_log2 s = do {
     dev \<leftarrow> the_dev (n - FIRST_VIRTIO_DEV) s;
     val \<leftarrow> device_read offset size_log2 dev;
     Some (val, s)
   }"

definition machine_virtio_write ::
  "'h host_ops \<Rightarrow> nat \<Rightarrow> u32 \<Rightarrow> u32 \<Rightarrow> nat \<Rightarrow> 'h virt_machine \<Rightarrow> 'h virt_machine option" where
  "machine_virtio_write hops n offset val size_log2 s = do {
     dev \<leftarrow> the_dev (n - FIRST_VIRTIO_DEV) s;
     map_option (put_dev (n - FIRST_VIRTIO_DEV)) (device_write hops offset val size_log2 dev s)
   }"

subsection \<open>Events from outside\<close>

text \<open>What a key or a move of the mouse does; without the device, nothing.\<close>

definition input_event ::
  "('h virt_machine virtio_input \<Rightarrow> (int \<times> 'h virt_machine virtio_input) option) \<Rightarrow> nat option \<Rightarrow>
     'h virt_machine \<Rightarrow> 'h virt_machine option" where
  "input_event f dev s =
     (case dev of
        None \<Rightarrow> Some s
      | Some i \<Rightarrow> (case the_dev i s of
          Some (Virtio_Input d) \<Rightarrow> map_option (\<lambda>r. put_dev i (Virtio_Input (fst r), snd r))
            (in_machine (\<lambda>d. map_option snd (f d)) d s)
        | _ \<Rightarrow> None))"

definition riscv_vm_send_key_event :: "'h host_ops \<Rightarrow> bool \<Rightarrow> u16 \<Rightarrow> 'h virt_machine \<Rightarrow> 'h virt_machine option" where
  "riscv_vm_send_key_event hops pressed key_code s =
     input_event (virtio_input_send_key_event (hbus hops) pressed key_code) (keyboard_dev s) s"

definition riscv_vm_mouse_is_absolute :: "'h virt_machine \<Rightarrow> bool" where
  "riscv_vm_mouse_is_absolute s = True"

definition riscv_vm_send_mouse_event ::
  "'h host_ops \<Rightarrow> u32 \<Rightarrow> u32 \<Rightarrow> u32 \<Rightarrow> u32 \<Rightarrow> 'h virt_machine \<Rightarrow> 'h virt_machine option" where
  "riscv_vm_send_mouse_event hops dx dy dz buttons s =
     input_event (virtio_input_send_mouse_event (hbus hops) dx dy dz buttons) (mouse_dev s) s"

text \<open>The disk has finished a request that was in progress.\<close>

definition disk_done :: "'h host_ops \<Rightarrow> nat \<Rightarrow> int \<Rightarrow> 'h virt_machine \<Rightarrow> 'h virt_machine option" where
  "disk_done hops i ret s =
     (case the_dev i s of
        Some (Virtio_Block k d) \<Rightarrow> map_option (\<lambda>r. put_dev i (Virtio_Block k (fst r), snd r))
          (in_machine (virtio_block_req_cb (hbus hops) (machine_disk hops k) ret) d s)
      | _ \<Rightarrow> None)"

text \<open>A file system has completed an open that was in progress.\<close>

definition fs_open_done :: "'h host_ops \<Rightarrow> nat \<Rightarrow> fs_qid \<Rightarrow> int \<Rightarrow> 'h virt_machine \<Rightarrow> 'h virt_machine option" where
  "fs_open_done hops i qid err s =
     (case the_dev i s of
        Some (Virtio_9p k d) \<Rightarrow> map_option (\<lambda>r. put_dev i (Virtio_9p k (fst r), snd r))
          (in_machine (virtio_9p_open_cb (hbus hops) (machine_fs hops k) qid err) d s)
      | _ \<Rightarrow> None)"

subsection \<open>Creation\<close>

text \<open>
  The rest of \<open>riscv_machine_init\<close>: each device takes the next page of the bus and the next
  interrupt. \<open>virtio_count\<close> is the number of the devices so far.
\<close>

definition slot_addr :: "'z riscv_machine_scheme \<Rightarrow> u64" where
  "slot_addr s = VIRTIO_BASE_ADDR + word_of_nat (virtio_count s) * VIRTIO_SIZE"

definition slot_irq :: "'z riscv_machine_scheme \<Rightarrow> nat" where
  "slot_irq s = VIRTIO_IRQ + virtio_count s"

definition slot_dev :: "'z riscv_machine_scheme \<Rightarrow> nat" where
  "slot_dev s = FIRST_VIRTIO_DEV + virtio_count s"

definition attach ::
  "((unit, 'z) virtio_device_scheme \<Rightarrow> virtio_dev) \<Rightarrow> ('h virt_machine, 'z) virtio_device_scheme \<Rightarrow> 'h virt_machine" where
  "attach kind d = (let s = vd_world d in
     s\<lparr>virtio_devs := virtio_devs s @ [kind (with_world () d)], virtio_count := virtio_count s + 1\<rparr>)"

definition add_console :: "'h host_ops \<Rightarrow> 'h virt_machine \<Rightarrow> 'h virt_machine option" where
  "add_console hops s = map_option (attach Virtio_Console)
     (virtio_console_init (hbus hops) (slot_addr s) (slot_irq s) (slot_dev s) s)"

fun add_nets :: "'h host_ops \<Rightarrow> nat \<Rightarrow> u8 list list \<Rightarrow> 'h virt_machine \<Rightarrow> 'h virt_machine option" where
  "add_nets hops i [] s = Some s"
| "add_nets hops i (mac # macs) s = do {
     d \<leftarrow> virtio_net_init (hbus hops) mac (slot_addr s) (slot_irq s) (slot_dev s) s;
     add_nets hops (Suc i) macs (attach (Virtio_Net i) d)
   }"

fun add_drives :: "'h host_ops \<Rightarrow> nat list \<Rightarrow> 'h virt_machine \<Rightarrow> 'h virt_machine option" where
  "add_drives hops [] s = Some s"
| "add_drives hops (i # drives) s = do {
     d \<leftarrow> virtio_block_init (hbus hops) (machine_disk hops i) (slot_addr s) (slot_irq s) (slot_dev s) s;
     add_drives hops drives (attach (Virtio_Block i) d)
   }"

fun add_file_systems :: "'h host_ops \<Rightarrow> nat \<Rightarrow> u8 list list \<Rightarrow> 'h virt_machine \<Rightarrow> 'h virt_machine option" where
  "add_file_systems hops i [] s = Some s"
| "add_file_systems hops i (tag # tags) s = do {
     d \<leftarrow> virtio_9p_init (hbus hops) tag (slot_addr s) (slot_irq s) (slot_dev s) s;
     add_file_systems hops (Suc i) tags (attach (Virtio_9p i) d)
   }"

definition add_display ::
  "ram_setup \<Rightarrow> string option \<Rightarrow> int \<Rightarrow> int \<Rightarrow> 'h virt_machine \<Rightarrow> 'h virt_machine option" where
  "add_display setup display width height s =
     (case display of
        None \<Rightarrow> Some s
      | Some name \<Rightarrow> do {
          guard (name = ''simplefb'');
          (fb, memory) \<leftarrow> simplefb_init setup (mem_map s) FRAMEBUFFER_BASE_ADDR width height;
          Some (s\<lparr>mem_map := memory, frame_buffer := Some fb\<rparr>)
        })"

definition add_input :: "'h host_ops \<Rightarrow> string option \<Rightarrow> 'h virt_machine \<Rightarrow> 'h virt_machine option" where
  "add_input hops input s =
     (case input of
        None \<Rightarrow> Some s
      | Some name \<Rightarrow> do {
          guard (name = ''virtio'');
          d \<leftarrow> virtio_input_init (hbus hops) VIRTIO_INPUT_TYPE_KEYBOARD (slot_addr s) (slot_irq s) (slot_dev s) s;
          let s = (attach Virtio_Input d)\<lparr>keyboard_dev := Some (virtio_count s)\<rparr>;
          d \<leftarrow> virtio_input_init (hbus hops) VIRTIO_INPUT_TYPE_TABLET (slot_addr s) (slot_irq s) (slot_dev s) s;
          Some ((attach Virtio_Input d)\<lparr>mouse_dev := Some (virtio_count s)\<rparr>)
        })"

text \<open>The part of \<open>VirtMachineParams\<close> that selects the devices; of a file system, the mount tag.\<close>

record vm_devices =
  vp_console :: bool
  vp_eth :: "u8 list list"
  vp_drives :: nat
  vp_file_systems :: "u8 list list"
  vp_display :: "string option"
  vp_width :: int
  vp_height :: int
  vp_input :: "string option"

definition add_devices :: "'h host_ops \<Rightarrow> ram_setup \<Rightarrow> vm_devices \<Rightarrow> 'h virt_machine \<Rightarrow> 'h virt_machine option" where
  "add_devices hops setup p s = do {
     s \<leftarrow> (if vp_console p then add_console hops s else Some s);
     s \<leftarrow> add_nets hops 0 (vp_eth p) s;
     s \<leftarrow> add_drives hops [0..<vp_drives p] s;
     s \<leftarrow> add_file_systems hops 0 (vp_file_systems p) s;
     s \<leftarrow> add_display setup (vp_display p) (vp_width p) (vp_height p) s;
     add_input hops (vp_input p) s
   }"

end
