(* ===== verification/VirtioFrame.thy ===== *)
theory VirtioFrame
  imports VirtioRegs
begin

unbundle bit_operations_syntax

section \<open>What the queue operations leave alone\<close>

text \<open>
  The operations on the queues act on the memory of the guest and on the interrupt line, and on the
  device only through the interrupt status. \<open>bus_frame\<close> draws the conclusion for any relation that
  these effects respect: the operations respect it, however the structures in the memory look.
\<close>

locale bus_frame =
  fixes bus :: "'w virtio_bus"
    and R :: "('w, 'z) virtio_device_scheme \<Rightarrow> ('w, 'z) virtio_device_scheme \<Rightarrow> bool"
  assumes frame_refl: "R s s"
    and frame_trans: "R s t \<Longrightarrow> R t u \<Longrightarrow> R s u"
    and frame_put: "R s (put_guest_range bus i pr v s)"
    and frame_irq: "R s (virtio_set_irq bus level s)"
    and frame_status: "R s (s\<lparr>int_status := x\<rparr>)"
begin

lemma memory_frame:
  "virtio_memcpy_from_ram bus a n s = Some (bs, s') \<Longrightarrow> R s s'"
  "virtio_memcpy_to_ram bus a bs s = Some s' \<Longrightarrow> R s s'"
  by (auto simp: virtio_memcpy_from_ram_def virtio_memcpy_to_ram_def frame_put split: bind_splits)

lemma word_frame:
  "virtio_read16 bus a s = Some (x, s') \<Longrightarrow> R s s'"
  "virtio_write16 bus a x s = Some s' \<Longrightarrow> R s s'"
  "virtio_write32 bus a y s = Some s' \<Longrightarrow> R s s'"
  by (auto simp: virtio_read16_def virtio_write16_def virtio_write32_def frame_refl dest: memory_frame split: if_splits bind_splits)

lemma desc_frame: "get_desc bus q i s = Some (d, s') \<Longrightarrow> R s s'"
  by (auto simp: get_desc_def dest: memory_frame split: bind_splits)

text \<open>The loops along a chain, by induction on the recursion.\<close>

lemma first_write_frame:
  assumes "first_write b q d s = Some r"
  shows "b = bus \<longrightarrow> R s (snd r)"
  by (rule first_write.raw_induct [where P = "\<lambda>b q d s r. b = bus \<longrightarrow> R s (snd r)", OF _ assms])
    (fastforce simp: frame_refl dest: desc_frame intro: frame_trans split: if_splits bind_splits)

lemma desc_at_offset_frame:
  assumes "desc_at_offset b q w d off s = Some r"
  shows "b = bus \<longrightarrow> R s (snd r)"
  by (rule desc_at_offset.raw_induct [where P = "\<lambda>b q w d off s r. b = bus \<longrightarrow> R s (snd r)", OF _ assms])
    (fastforce simp: frame_refl dest: desc_frame intro: frame_trans split: if_splits bind_splits)

lemma read_part_frame:
  assumes "read_part b q d sz s = Some r"
  shows "b = bus \<longrightarrow> R s (snd r)"
  by (rule read_part.raw_induct [where P = "\<lambda>b q d sz s r. b = bus \<longrightarrow> R s (snd r)", OF _ assms])
    (fastforce simp: frame_refl dest: desc_frame intro: frame_trans split: if_splits bind_splits)

lemma write_part_frame:
  assumes "write_part b q d sz s = Some r"
  shows "b = bus \<longrightarrow> R s (snd r)"
  by (rule write_part.raw_induct [where P = "\<lambda>b q d sz s r. b = bus \<longrightarrow> R s (snd r)", OF _ assms])
    (fastforce simp: frame_refl dest: desc_frame intro: frame_trans split: if_splits bind_splits)

lemma copy_piece_frame: "copy_piece bus dir a buf pos l s = Some (buf', s') \<Longrightarrow> R s s'"
  by (auto simp: copy_piece_def dest: memory_frame split: if_splits bind_splits)

lemma copy_loop_frame:
  assumes "copy_loop b q dir d off buf pos count s = Some r"
  shows "b = bus \<longrightarrow> R s (snd (snd r))"
  by (rule copy_loop.raw_induct [where P = "\<lambda>b q dir d off buf pos count s r. b = bus \<longrightarrow> R s (snd (snd r))", OF _ assms])
    (fastforce simp: Let_def dest: desc_frame copy_piece_frame intro: frame_trans split: if_splits bind_splits)

lemma chain_frame:
  "first_write bus q d s = Some (x, s') \<Longrightarrow> R s s'"
  "desc_at_offset bus q w d off s = Some (y, s') \<Longrightarrow> R s s'"
  "read_part bus q d sz s = Some (z, s') \<Longrightarrow> R s s'"
  "write_part bus q d sz s = Some (v, s') \<Longrightarrow> R s s'"
  "copy_loop bus q dir d off buf pos count s = Some (ret, buf', s') \<Longrightarrow> R s s'"
  by (auto dest: first_write_frame desc_at_offset_frame read_part_frame write_part_frame copy_loop_frame)

lemma copy_frame:
  "memcpy_to_from_queue bus buf q i off n dir s = Some (ret, buf', s') \<Longrightarrow> R s s'"
  by (auto simp: memcpy_to_from_queue_def frame_refl dest!: chain_frame desc_frame
      split: if_splits bind_splits option.splits) (blast intro: frame_trans)+

text \<open>What the devices use.\<close>

lemma request_frame:
  "memcpy_from_queue bus buf q i off n s = Some (ret, buf', s') \<Longrightarrow> R s s'"
  "memcpy_to_queue bus q i off buf n s = Some (ret, s') \<Longrightarrow> R s s'"
  "get_desc_rw_size bus q i s = Some (sizes, s') \<Longrightarrow> R s s'"
  "avail_desc bus qs s = Some (k, s') \<Longrightarrow> R s s'"
  by (auto simp: memcpy_from_queue_def memcpy_to_queue_def get_desc_rw_size_def avail_desc_def
      dest!: copy_frame chain_frame desc_frame word_frame split: bind_splits option.splits) (blast intro: frame_trans)+

lemma consume_frame: "virtio_consume_desc bus q i n s = Some s' \<Longrightarrow> R s s'"
proof -
  assume "virtio_consume_desc bus q i n s = Some s'"
  then obtain a b c k x t u v w where steps: "virtio_read16 bus a s = Some (k, t)"
    "virtio_write16 bus a x t = Some u" "virtio_write32 bus b (ucast i) u = Some v" "virtio_write32 bus c n v = Some w"
    "s' = virtio_set_irq bus True (w\<lparr>int_status := int_status w OR 1\<rparr>)"
    by (auto simp: virtio_consume_desc_def Let_def split: bind_splits)
  have "R s w" using word_frame(1) [OF steps(1)] word_frame(2) [OF steps(2)] word_frame(3) [OF steps(3)]
      word_frame(3) [OF steps(4)] by (blast intro: frame_trans)
  then show "R s s'" unfolding steps(5) by (rule frame_trans [OF frame_trans [OF _ frame_status] frame_irq])
qed

end

subsection \<open>Invariants\<close>

text \<open>
  An invariant of a device that these effects and the next entry of a queue keep is kept by a
  notification, if the handling of a request keeps it.
\<close>

definition keeps :: "('s \<Rightarrow> bool) \<Rightarrow> 's virtio_ops \<Rightarrow> bool" where
  "keeps P ops \<longleftrightarrow> (\<forall>q i rd wr s ret s'. device_recv ops q i rd wr s = Some (ret, s') \<longrightarrow> P s \<longrightarrow> P s')"

locale bus_invariant =
  fixes bus :: "'w virtio_bus" and P :: "('w, 'z) virtio_device_scheme \<Rightarrow> bool"
  assumes inv_put: "P s \<Longrightarrow> P (put_guest_range bus i pr v s)"
    and inv_irq: "P s \<Longrightarrow> P (virtio_set_irq bus level s)"
    and inv_status: "P s \<Longrightarrow> P (s\<lparr>int_status := x\<rparr>)"
    and inv_next: "P s \<Longrightarrow> P (next_avail q s)"

sublocale bus_invariant \<subseteq> bus_frame bus "\<lambda>s s'. P s \<longrightarrow> P s'"
  by unfold_locales (auto intro: inv_put inv_irq inv_status)

context bus_invariant
begin

lemma round_keeps:
  "keeps P ops \<Longrightarrow> notify_round bus ops q qs s = Some (stop, s') \<Longrightarrow> P s \<Longrightarrow> P s'"
  by (auto simp: notify_round_def keeps_def inv_next dest!: request_frame split: if_splits bind_splits option.splits)

lemma loop_keeps:
  assumes "notify_loop b ops q k s = Some s'"
  shows "b = bus \<longrightarrow> keeps P ops \<longrightarrow> P s \<longrightarrow> P s'"
  by (rule notify_loop.raw_induct [where P = "\<lambda>b ops q k s s'. b = bus \<longrightarrow> keeps P ops \<longrightarrow> P s \<longrightarrow> P s'", OF _ assms])
    (fastforce dest: round_keeps split: if_splits bind_splits)

lemma notify_keeps: "keeps P ops \<Longrightarrow> queue_notify bus ops q s = Some s' \<Longrightarrow> P s \<Longrightarrow> P s'"
  by (auto simp: queue_notify_def dest: loop_keeps dest!: word_frame split: if_splits bind_splits)

end

text \<open>Two ways to handle requests that agree where the invariant holds give the same notifications.\<close>

definition agree :: "('s \<Rightarrow> bool) \<Rightarrow> 's virtio_ops \<Rightarrow> 's virtio_ops \<Rightarrow> bool" where
  "agree P ops ops' \<longleftrightarrow> (\<forall>q i rd wr s. P s \<longrightarrow> device_recv ops' q i rd wr s = device_recv ops q i rd wr s)"

context bus_invariant
begin

lemma round_agree:
  assumes "agree P ops ops'" and "notify_round bus ops q qs s = Some r" and "P s"
  shows "notify_round bus ops' q qs s = Some r"
proof -
  obtain idx t sizes u where t: "avail_desc bus qs s = Some (idx, t)" "get_desc_rw_size bus q idx t = Some (sizes, u)"
    using assms(2) by (auto simp: notify_round_def split: bind_splits)
  have "P u" using request_frame(4) [OF t(1)] request_frame(3) [OF t(2)] assms(3) by blast
  then have "device_recv ops' q i rd wr u = device_recv ops q i rd wr u" for i rd wr using assms(1) by (simp add: agree_def)
  then show ?thesis using assms(2) t by (cases sizes) (auto simp: notify_round_def)
qed

lemma loop_agree:
  assumes "notify_loop b ops q k s = Some s'"
  shows "b = bus \<longrightarrow> keeps P ops \<longrightarrow> agree P ops ops' \<longrightarrow> P s \<longrightarrow> notify_loop bus ops' q k s = Some s'"
proof (rule notify_loop.raw_induct [where P = "\<lambda>b ops q k s s'. b = bus \<longrightarrow> keeps P ops \<longrightarrow> agree P ops ops' \<longrightarrow> P s \<longrightarrow>
    notify_loop bus ops' q k s = Some s'", OF _ assms], intro impI)
  fix loop b ops q k and s :: "('w, 'z) virtio_device_scheme" and s'
  assume IH: "\<And>b ops q k s s'. loop b ops q k s = Some s' \<Longrightarrow> b = bus \<longrightarrow> keeps P ops \<longrightarrow> agree P ops ops' \<longrightarrow> P s \<longrightarrow>
      notify_loop bus ops' q k s = Some s'"
    and loop: "the_queue q s \<bind> (\<lambda>qs. if last_avail_idx qs = k then Some s
      else notify_round b ops q qs s \<bind> (\<lambda>r. if fst r then Some (snd r) else loop b ops q k (snd r))) = Some s'"
    and b: "b = bus" and ops: "keeps P ops" "agree P ops ops'" and P: "P s"
  obtain qs where qs: "the_queue q s = Some qs" using loop by (auto split: bind_splits)
  show "notify_loop bus ops' q k s = Some s'"
  proof (cases "last_avail_idx qs = k")
    case True
    then show ?thesis using loop qs by (subst notify_loop.simps) simp
  next
    case False
    then obtain r where r: "notify_round bus ops q qs s = Some r" "(if fst r then Some (snd r) else loop b ops q k (snd r)) = Some s'"
      using loop qs b by (auto split: bind_splits)
    have "P (snd r)" using round_keeps [OF ops(1) _ P, of q qs "fst r" "snd r"] r(1) by simp
    then have "(if fst r then Some (snd r) else notify_loop bus ops' q k (snd r)) = Some s'"
      using r(2) IH [of b ops q k "snd r" s'] b ops by (simp split: if_splits)
    then show ?thesis using False qs round_agree [OF ops(2) r(1) P] by (subst notify_loop.simps) simp
  qed
qed

lemma notify_agree:
  assumes "keeps P ops" and "agree P ops ops'" and "queue_notify bus ops q s = Some s'" and "P s"
  shows "queue_notify bus ops' q s = Some s'"
proof -
  obtain qs where qs: "the_queue q s = Some qs" using assms(3) by (auto simp: queue_notify_def split: bind_splits)
  show ?thesis
  proof (cases "manual_recv qs")
    case True
    then show ?thesis using assms(3) qs by (simp add: queue_notify_def)
  next
    case False
    then obtain k t where t: "virtio_read16 bus (avail_addr qs + 2) s = Some (k, t)" "notify_loop bus ops q k t = Some s'"
      using assms(3) qs by (auto simp: queue_notify_def split: bind_splits)
    have "notify_loop bus ops' q k t = Some s'"
      using loop_agree [OF t(2)] word_frame(1) [OF t(1)] assms by blast
    then show ?thesis using False qs t(1) by (simp add: queue_notify_def)
  qed
qed

end

text \<open>The fields that a kind of device adds are never touched.\<close>

interpretation fields: bus_frame bus "\<lambda>s s'. virtio_device.more s' = virtio_device.more s" for bus
  by unfold_locales (simp_all add: put_guest_range_def virtio_set_irq_def)

end
