(* ===== verification/Virtio9pSpec.thy ===== *)
theory Virtio9pSpec
  imports Virtio9p VirtioFrame
begin

section \<open>Invariants of the 9P device\<close>

text \<open>
  \<open>fs_uses\<close> are the steps of the file system that neither open nor close a file. \<open>p9_invariant\<close> says
  what a property of the device has to survive so that every request keeps it: the effects of the
  queue operations, a step of the file system on open files, and the changes of the fids.
\<close>

subsection \<open>Steps of the file system\<close>

inductive fs_uses :: "'w fs_device \<Rightarrow> nat set \<Rightarrow> 'w \<Rightarrow> 'w \<Rightarrow> bool" for fsd F w w' where
  use_statfs: "fs_statfs fsd w = Some (st, w') \<Longrightarrow> fs_uses fsd F w w'"
| use_mkdir: "f \<in> F \<Longrightarrow> fs_mkdir fsd f name mode gid w = Some (x, w') \<Longrightarrow> fs_uses fsd F w w'"
| use_open: "f \<in> F \<Longrightarrow> fs_open fsd f flags w = Some (x, w') \<Longrightarrow> fs_uses fsd F w w'"
| use_create: "f \<in> F \<Longrightarrow> fs_create fsd f name flags mode gid w = Some (x, w') \<Longrightarrow> fs_uses fsd F w w'"
| use_getattr: "f \<in> F \<Longrightarrow> fs_getattr fsd f w = Some (y, w') \<Longrightarrow> fs_uses fsd F w w'"
| use_setattr: "f \<in> F \<Longrightarrow> fs_setattr fsd f bits mode uid gid len t1 n1 t2 n2 w = Some (err, w') \<Longrightarrow> fs_uses fsd F w w'"
| use_readdir: "f \<in> F \<Longrightarrow> fs_readdir fsd f offs count w = Some (b, w') \<Longrightarrow> fs_uses fsd F w w'"
| use_read: "f \<in> F \<Longrightarrow> fs_read fsd f offs count w = Some (b, w') \<Longrightarrow> fs_uses fsd F w w'"
| use_write: "f \<in> F \<Longrightarrow> fs_write fsd f offs buf count w = Some (err, w') \<Longrightarrow> fs_uses fsd F w w'"
| use_link: "f \<in> F \<Longrightarrow> f' \<in> F \<Longrightarrow> fs_link fsd f f' name w = Some (err, w') \<Longrightarrow> fs_uses fsd F w w'"
| use_symlink: "f \<in> F \<Longrightarrow> fs_symlink fsd f name target gid w = Some (x, w') \<Longrightarrow> fs_uses fsd F w w'"
| use_mknod: "f \<in> F \<Longrightarrow> fs_mknod fsd f name mode major minor gid w = Some (x, w') \<Longrightarrow> fs_uses fsd F w w'"
| use_readlink: "f \<in> F \<Longrightarrow> fs_readlink fsd f w = Some (b, w') \<Longrightarrow> fs_uses fsd F w w'"
| use_renameat: "f \<in> F \<Longrightarrow> f' \<in> F \<Longrightarrow> fs_renameat fsd f name f' name' w = Some (err, w') \<Longrightarrow> fs_uses fsd F w w'"
| use_unlinkat: "f \<in> F \<Longrightarrow> fs_unlinkat fsd f name w = Some (err, w') \<Longrightarrow> fs_uses fsd F w w'"
| use_lock: "f \<in> F \<Longrightarrow> fs_lock_file fsd f lock w = Some (err, w') \<Longrightarrow> fs_uses fsd F w w'"
| use_getlock: "f \<in> F \<Longrightarrow> fs_getlock fsd f lock w = Some (l, w') \<Longrightarrow> fs_uses fsd F w w'"

definition files :: "('w, 'z) virtio_9p_scheme \<Rightarrow> nat set" where
  "files s = snd ` set (fid_list s)"

lemma fid_find_files: "fid_find s fid = Some f \<Longrightarrow> f \<in> files s"
  by (force simp: fid_find_def files_def dest: map_of_SomeD)

lemma files_more:
  fixes s s' :: "('w, 'z) virtio_9p_scheme"
  assumes "virtio_device.more s' = virtio_device.more s"
  shows "files s' = files s" and "fid_list s' = fid_list s"
  using assms by (cases s; cases s'; simp add: files_def)+

lemma call_fs_elim:
  assumes "call_fs f s = Some (r, s')"
  obtains w where "f (vd_world s) = Some (r, w)" "s' = s\<lparr>vd_world := w\<rparr>"
  using assms by (auto simp: call_fs_def)

subsection \<open>Messages touch the queue only\<close>

context bus_frame
begin

lemma read_number_frame: "read_number bus q i off n s = Some (b, s') \<Longrightarrow> R s s'"
  by (auto simp: read_number_def dest!: request_frame split: bind_splits)

lemma read_string_frame: "read_string bus q i off s = Some (b, s') \<Longrightarrow> R s s'"
  by (auto simp: read_string_def Let_def dest!: request_frame read_number_frame intro: frame_trans split: bind_splits option.splits)

lemma unmarshall1_frame: "unmarshall1 bus q i off c s = Some (b, s') \<Longrightarrow> R s s'"
  by (auto simp: unmarshall1_def Let_def dest!: read_number_frame read_string_frame split: bind_splits if_splits)

lemma unmarshall_frame: "unmarshall bus q i off fmt s = Some (b, s') \<Longrightarrow> R s s'"
proof (induction fmt arbitrary: off s b s')
  case Nil
  then show ?case by (simp add: frame_refl)
next
  case (Cons c fmt)
  then show ?case
    by (auto simp: frame_refl dest!: unmarshall1_frame split: bind_splits option.splits)
      (blast intro: frame_trans)+
qed

lemma walk_names_frame: "walk_names bus q i off n s = Some (b, s') \<Longrightarrow> R s s'"
proof (induction n arbitrary: off s b s')
  case 0
  then show ?case by (simp add: frame_refl)
next
  case (Suc n)
  then show ?case
    by (auto simp: frame_refl simp del: unmarshall.simps dest!: unmarshall_frame split: bind_splits option.splits)
      (blast intro: frame_trans)+
qed

lemma send_reply_frame: "virtio_9p_send_reply bus q i op tag buf s = Some s' \<Longrightarrow> R s s'"
  by (auto simp: virtio_9p_send_reply_def Let_def dest!: request_frame consume_frame split: bind_splits intro: frame_trans)

lemma send_error_frame: "virtio_9p_send_error bus q i tag err s = Some s' \<Longrightarrow> R s s'"
  by (auto simp: virtio_9p_send_error_def simp del: marshall.simps dest!: send_reply_frame split: bind_splits)

end

lemma queue_files:
  fixes s t :: "('w, 'z) virtio_9p_scheme"
  shows "memcpy_from_queue bus buf q i off n s = Some (ret, buf', t) \<Longrightarrow> files t = files s"
    "walk_names bus q i off k s = Some (b, t) \<Longrightarrow> files t = files s"
  by (rule files_more(1), erule fields.request_frame fields.walk_names_frame)+

subsection \<open>Requests keep invariants\<close>

lemmas branch_defs = p9_statfs_def p9_lcreate_def p9_symlink_def p9_mknod_def p9_readlink_def p9_getattr_def
  p9_setattr_def p9_lock_def p9_getlock_def p9_link_def p9_mkdir_def p9_renameat_def p9_unlinkat_def p9_data_def

definition branch_ok ::
  "(('w, 'z) virtio_9p_scheme \<Rightarrow> bool) \<Rightarrow>
     (('w, 'z) virtio_9p_scheme \<Rightarrow> (p9_outcome \<times> ('w, 'z) virtio_9p_scheme) option) \<Rightarrow> bool" where
  "branch_ok P k \<longleftrightarrow> (\<forall>s r s'. k s = Some (r, s') \<longrightarrow> P s \<longrightarrow> P s')"

locale p9_invariant = bus_invariant bus P
  for bus :: "'w virtio_bus" and P :: "('w, 'z) virtio_9p_scheme \<Rightarrow> bool" +
  fixes fsd :: "'w fs_device"
  assumes inv_msize: "P s \<Longrightarrow> P (s\<lparr>msize := x\<rparr>)"
    and inv_progress: "P s \<Longrightarrow> P (s\<lparr>p9_in_progress := b, open_info := oi\<rparr>)"
    and inv_uses: "P s \<Longrightarrow> fs_uses fsd (files s) (vd_world s) w \<Longrightarrow> P (s\<lparr>vd_world := w\<rparr>)"
    and inv_attach_failed: "P s \<Longrightarrow> fs_attach fsd uid uname aname (vd_world s) = Some ((err, f, qid), w) \<Longrightarrow> err \<noteq> 0 \<Longrightarrow>
      P (s\<lparr>vd_world := w\<rparr>)"
    and inv_attach: "P s \<Longrightarrow> fs_attach fsd uid uname aname (vd_world s) = Some ((0, f, qid), w) \<Longrightarrow>
      fid_set fsd fid f (s\<lparr>vd_world := w\<rparr>) = Some s' \<Longrightarrow> P s'"
    and inv_walk_failed: "P s \<Longrightarrow> f \<in> files s \<Longrightarrow> fs_walk fsd f names (vd_world s) = Some ((err, f', qids), w) \<Longrightarrow> err < 0 \<Longrightarrow>
      P (s\<lparr>vd_world := w\<rparr>)"
    and inv_walk: "P s \<Longrightarrow> f \<in> files s \<Longrightarrow> fs_walk fsd f names (vd_world s) = Some ((err, f', qids), w) \<Longrightarrow> 0 \<le> err \<Longrightarrow>
      fid_set fsd fid f' (s\<lparr>vd_world := w\<rparr>) = Some s' \<Longrightarrow> P s'"
    and inv_clunk: "P s \<Longrightarrow> fid_delete fsd fid s = Some s' \<Longrightarrow> P s'"
begin

lemma uses_keeps:
  assumes "call_fs f s = Some (r, s')" and "P s" and "\<And>w. f (vd_world s) = Some (r, w) \<Longrightarrow> fs_uses fsd (files s) (vd_world s) w"
  shows "P s'"
  using assms by (auto elim!: call_fs_elim intro: inv_uses)

lemma open_reply_keeps: "virtio_9p_open_reply bus qid err oi s = Some s' \<Longrightarrow> P s \<Longrightarrow> P s'"
  by (auto simp: virtio_9p_open_reply_def simp del: marshall.simps dest!: send_reply_frame send_error_frame
      split: bind_splits prod.splits if_splits)

lemma reading_keeps:
  "memcpy_from_queue bus buf q i off n s = Some (ret, buf', s') \<Longrightarrow> P s \<Longrightarrow> P s'"
  "unmarshall bus q i off fmt s = Some (a, s') \<Longrightarrow> P s \<Longrightarrow> P s'"
  "walk_names bus q i off k s = Some (b, s') \<Longrightarrow> P s \<Longrightarrow> P s'"
  by (rule mp [OF request_frame(1)] mp [OF unmarshall_frame] mp [OF walk_names_frame]; assumption)+

text \<open>The branches.\<close>

lemma with_file_keeps:
  assumes "with_file fid k s = Some (r, s')" and "P s" and "\<And>f. f \<in> files s \<Longrightarrow> k f s = Some (r, s') \<Longrightarrow> P s'"
  shows "P s'"
  using assms by (auto simp: with_file_def dest: fid_find_files split: option.splits)

lemma with_args_keeps:
  assumes "with_args bus q i off fmt k s = Some (r, s')" and "P s"
    and "\<And>vals off s. k vals off s = Some (r, s') \<Longrightarrow> P s \<Longrightarrow> P s'"
  shows "P s'"
proof -
  obtain a t where t: "unmarshall bus q i off fmt s = Some (a, t)"
    "(case a of None \<Rightarrow> Some (P9_Error (- P9_EPROTO), t) | Some (vals, off) \<Rightarrow> k vals off t) = Some (r, s')"
    using assms(1) by (auto simp: with_args_def split: bind_splits)
  have "P t" using unmarshall_frame [OF t(1)] assms(2) by blast
  then show ?thesis using t(2) assms(3) by (auto split: option.splits)
qed

lemma reply_same:
  "reply fmt vals s = Some (r, s') \<Longrightarrow> s' = s" "reply_none (err, s) = Some (r, s') \<Longrightarrow> s' = s"
  "reply_qid (x, s) = Some (r, s') \<Longrightarrow> s' = s"
  by (auto simp: reply_def reply_none_def reply_qid_def split: if_splits prod.splits)

lemma branch_keeps:
  "p9_statfs fsd s = Some (r, s') \<Longrightarrow> P s \<Longrightarrow> P s'"
  "p9_lcreate fsd vals s = Some (r, s') \<Longrightarrow> P s \<Longrightarrow> P s'"
  "p9_symlink fsd vals s = Some (r, s') \<Longrightarrow> P s \<Longrightarrow> P s'"
  "p9_mknod fsd vals s = Some (r, s') \<Longrightarrow> P s \<Longrightarrow> P s'"
  "p9_readlink fsd vals s = Some (r, s') \<Longrightarrow> P s \<Longrightarrow> P s'"
  "p9_getattr fsd vals s = Some (r, s') \<Longrightarrow> P s \<Longrightarrow> P s'"
  "p9_setattr fsd vals s = Some (r, s') \<Longrightarrow> P s \<Longrightarrow> P s'"
  "p9_lock fsd vals s = Some (r, s') \<Longrightarrow> P s \<Longrightarrow> P s'"
  "p9_getlock bus fsd vals s = Some (r, s') \<Longrightarrow> P s \<Longrightarrow> P s'"
  "p9_link fsd vals s = Some (r, s') \<Longrightarrow> P s \<Longrightarrow> P s'"
  "p9_mkdir fsd vals s = Some (r, s') \<Longrightarrow> P s \<Longrightarrow> P s'"
  "p9_renameat fsd vals s = Some (r, s') \<Longrightarrow> P s \<Longrightarrow> P s'"
  "p9_unlinkat fsd vals s = Some (r, s') \<Longrightarrow> P s \<Longrightarrow> P s'"
  by (auto simp: branch_defs Let_def elim!: with_file_keeps uses_keeps dest!: reply_same split: bind_splits if_splits)
    (blast intro: fs_uses.intros)+

lemma data_keeps:
  "p9_data bus (fs_readdir fsd) vals s = Some (r, s') \<Longrightarrow> P s \<Longrightarrow> P s'"
  "p9_data bus (fs_read fsd) vals s = Some (r, s') \<Longrightarrow> P s \<Longrightarrow> P s'"
  by (auto simp: p9_data_def Let_def elim!: with_file_keeps uses_keeps split: bind_splits if_splits)
    (blast intro: fs_uses.intros)+

lemma lopen_keeps: "p9_lopen bus fsd q i tag vals s = Some (r, s') \<Longrightarrow> P s \<Longrightarrow> P s'"
proof (unfold p9_lopen_def, elim with_file_keeps)
  fix f assume P: "P s" and f: "f \<in> files s"
    and k: "(let oi = (q, i, tag) in call_fs (fs_open fsd f (int_arg vals 1)) s \<bind> (\<lambda>((err, qid), s).
      if err \<le> 0 then virtio_9p_open_reply bus qid err oi s \<bind> (\<lambda>s. Some (P9_Done, s))
      else Some (P9_Done, s\<lparr>p9_in_progress := True, open_info := Some oi\<rparr>))) = Some (r, s')"
  obtain err qid t where t: "call_fs (fs_open fsd f (int_arg vals 1)) s = Some ((err, qid), t)"
    "(if err \<le> 0 then virtio_9p_open_reply bus qid err (q, i, tag) t \<bind> (\<lambda>s. Some (P9_Done, s))
      else Some (P9_Done, t\<lparr>p9_in_progress := True, open_info := Some (q, i, tag)\<rparr>)) = Some (r, s')"
    using k by (auto simp: Let_def split: bind_splits)
  have "P t" by (rule uses_keeps [OF t(1) P]) (rule use_open [OF f])
  then show "P s'" using t(2) by (auto simp: inv_progress dest: open_reply_keeps split: if_splits bind_splits)
qed

lemma write_keeps: "p9_write bus fsd q i vals off s = Some (r, s') \<Longrightarrow> P s \<Longrightarrow> P s'"
proof (unfold p9_write_def, elim with_file_keeps)
  fix f assume P: "P s" and f: "f \<in> files s"
    and k: "(let count = int_arg vals 2 in memcpy_from_queue bus (List.map (bus_junk bus) [0..<unat count]) q i off count s
      \<bind> p9_write_data fsd f (long_arg vals 1) count) = Some (r, s')"
  then obtain ret buf t where t: "memcpy_from_queue bus (List.map (bus_junk bus) [0..<unat (int_arg vals 2)]) q i off (int_arg vals 2) s = Some (ret, buf, t)"
    "p9_write_data fsd f (long_arg vals 1) (int_arg vals 2) (ret, buf, t) = Some (r, s')"
    by (auto simp: Let_def split: bind_splits)
  have "P t" "f \<in> files t" using request_frame(1) [OF t(1)] queue_files(1) [OF t(1)] P f by simp_all
  then show "P s'" using t(2)
    by (auto simp: p9_write_data_def dest!: reply_same elim!: uses_keeps split: if_splits bind_splits intro: use_write)
qed

lemma walk_keeps: "p9_walk bus fsd q i vals off s = Some (r, s') \<Longrightarrow> P s \<Longrightarrow> P s'"
proof (unfold p9_walk_def, elim with_file_keeps)
  fix f assume P: "P s" and f: "f \<in> files s"
    and k: "walk_names bus q i off (unat (int_arg vals 2)) s \<bind> p9_walk_to fsd (int_arg vals 1) f = Some (r, s')"
  then obtain names t where t: "walk_names bus q i off (unat (int_arg vals 2)) s = Some (names, t)"
    "p9_walk_to fsd (int_arg vals 1) f (names, t) = Some (r, s')"
    by (auto split: bind_splits)
  have "P t" "f \<in> files t" using walk_names_frame [OF t(1)] queue_files(2) [OF t(1)] P f by simp_all
  then show "P s'" using t(2)
    by (auto simp: p9_walk_to_def simp del: marshall.simps elim!: call_fs_elim split: bind_splits option.splits if_splits)
      (blast intro: inv_walk_failed inv_walk [OF _ _ _ leI])+
qed

lemma version_keeps: "p9_version vals s = Some (r, s') \<Longrightarrow> P s \<Longrightarrow> P s'"
  by (auto simp: p9_version_def Let_def inv_msize dest!: reply_same)

lemma attach_keeps: "p9_attach fsd vals s = Some (r, s') \<Longrightarrow> P s \<Longrightarrow> P s'"
  by (auto simp: p9_attach_def elim!: call_fs_elim dest!: reply_same split: bind_splits if_splits
      intro: inv_attach inv_attach_failed)

lemma clunk_keeps: "p9_clunk fsd vals s = Some (r, s') \<Longrightarrow> P s \<Longrightarrow> P s'"
  by (auto simp: p9_clunk_def intro: inv_clunk)

lemma branch_ok_args: "(\<And>vals off. branch_ok P (k vals off)) \<Longrightarrow> branch_ok P (with_args bus q i off fmt k)"
  unfolding branch_ok_def by (intro allI impI, erule (1) with_args_keeps) blast

lemma branch_ok_if: "branch_ok P a \<Longrightarrow> branch_ok P b \<Longrightarrow> branch_ok P (if c then a else b)"
  by simp

lemma branches_ok:
  "branch_ok P (p9_statfs fsd)" "branch_ok P (p9_lcreate fsd vals)" "branch_ok P (p9_symlink fsd vals)"
  "branch_ok P (p9_mknod fsd vals)" "branch_ok P (p9_readlink fsd vals)" "branch_ok P (p9_getattr fsd vals)"
  "branch_ok P (p9_setattr fsd vals)" "branch_ok P (p9_lock fsd vals)" "branch_ok P (p9_getlock bus fsd vals)"
  "branch_ok P (p9_link fsd vals)" "branch_ok P (p9_mkdir fsd vals)" "branch_ok P (p9_renameat fsd vals)"
  "branch_ok P (p9_unlinkat fsd vals)" "branch_ok P (p9_data bus (fs_readdir fsd) vals)"
  "branch_ok P (p9_data bus (fs_read fsd) vals)" "branch_ok P (p9_lopen bus fsd q i tag vals)"
  "branch_ok P (p9_write bus fsd q i vals off)" "branch_ok P (p9_version vals)" "branch_ok P (p9_attach fsd vals)"
  "branch_ok P (p9_walk bus fsd q i vals off)" "branch_ok P (p9_clunk fsd vals)" "branch_ok P (\<lambda>s. Some (x, s))"
  unfolding branch_ok_def
  by (blast dest: branch_keeps data_keeps lopen_keeps write_keeps version_keeps attach_keeps walk_keeps clunk_keeps)+

lemma request_ok: "branch_ok P (p9_request bus fsd q i op tag)"
  unfolding p9_request_def Let_def by (intro branch_ok_if branch_ok_args branches_ok)

lemma request_keeps: "p9_request bus fsd q i op tag s = Some (r, s') \<Longrightarrow> P s \<Longrightarrow> P s'"
  using request_ok unfolding branch_ok_def by blast

lemma finish_keeps: "p9_finish bus q i op tag (r, s) = Some s' \<Longrightarrow> P s \<Longrightarrow> P s'"
  by (cases r) (auto simp: p9_finish_def dest: send_reply_frame send_error_frame)

lemma recv_keeps: "virtio_9p_recv_request bus fsd q i rd wr s = Some (ret, s') \<Longrightarrow> P s \<Longrightarrow> P s'"
  by (auto simp: virtio_9p_recv_request_def Let_def dest!: request_frame(1) send_error_frame
      split: if_splits bind_splits elim!: finish_keeps request_keeps)

lemma p9_keeps: "keeps P (p9_ops bus fsd)"
  by (auto simp: keeps_def p9_ops_def dest: recv_keeps)

lemma open_cb_keeps:
  assumes "virtio_9p_open_cb bus fsd qid err s = Some s'" and "P s"
  shows "P s'"
proof -
  obtain oi t where t: "virtio_9p_open_reply bus qid err oi s = Some t"
    "queue_notify bus (p9_ops bus fsd) (fst oi) (t\<lparr>p9_in_progress := False, open_info := None\<rparr>) = Some s'"
    using assms(1) by (auto simp: virtio_9p_open_cb_def Let_def split: bind_splits)
  have "P t" using open_reply_keeps [OF t(1) assms(2)] .
  then have "P (t\<lparr>p9_in_progress := False, open_info := None\<rparr>)" by (rule inv_progress)
  then show ?thesis by (rule notify_keeps [OF p9_keeps t(2)])
qed

lemmas p9_notify_keeps = notify_keeps [OF p9_keeps]

lemma p9_notify_agree:
  "agree P (p9_ops bus fsd) (p9_ops bus fsd') \<Longrightarrow> queue_notify bus (p9_ops bus fsd) q s = Some s' \<Longrightarrow> P s \<Longrightarrow>
     queue_notify bus (p9_ops bus fsd') q s = Some s'"
  by (rule notify_agree [OF p9_keeps])

end

end
