(* ===== verification/VirtioTyped.thy ===== *)
theory VirtioTyped
  imports VirtioMachine Virtio9pSpec SampleEnv
begin

unbundle bit_operations_syntax

section \<open>The devices stay well-formed\<close>

text \<open>
  \<open>device_ok\<close> says what the registers and queues of a device may hold. Everything the guest can do to a
  device keeps it, however the structures in its memory look. Underneath, the world of the device
  only has to have a property that the memory map and the interrupt lines do not matter for:
  \<open>typed_bus\<close>, of which the machine, with all its devices, is the instance.
\<close>

subsection \<open>Well-formed devices\<close>

definition queue_wf :: "queue_state \<Rightarrow> bool" where
  "queue_wf qs \<longleftrightarrow> ready qs \<le> 1 \<and> 0 < num qs \<and> num qs AND (num qs - 1) = 0"

definition device_ok :: "('w, 'z) virtio_device_scheme \<Rightarrow> bool" where
  "device_ok s \<longleftrightarrow> length (queue s) = MAX_QUEUE \<and> unat (queue_sel s) < MAX_QUEUE \<and>
     length (config_space s) = MAX_CONFIG_SPACE_SIZE \<and> 3 \<le> unat (config_space_size s) \<and>
     unat (config_space_size s) \<le> MAX_CONFIG_SPACE_SIZE \<and> (\<forall>qs \<in> set (queue s). queue_wf qs)"

definition typed :: "('w \<Rightarrow> bool) \<Rightarrow> ('w, 'z) virtio_device_scheme \<Rightarrow> bool" where
  "typed ok_w s \<longleftrightarrow> device_ok s \<and> ok_w (vd_world s)"

lemma typed_updates [simp]:
  "typed ok_w (s\<lparr>vd_status := x\<rparr>) = typed ok_w s" "typed ok_w (s\<lparr>int_status := x\<rparr>) = typed ok_w s"
  "typed ok_w (s\<lparr>device_features_sel := x\<rparr>) = typed ok_w s" "typed ok_w (s\<lparr>device_features := x\<rparr>) = typed ok_w s"
  by (simp_all add: typed_def device_ok_def)

lemma typed_world: "typed ok_w s \<Longrightarrow> ok_w w \<Longrightarrow> typed ok_w (s\<lparr>vd_world := w\<rparr>)"
  by (simp add: typed_def device_ok_def)

lemma typed_queue:
  assumes "typed ok_w s" and "\<And>qs. queue_wf qs \<Longrightarrow> queue_wf (f qs)"
  shows "typed ok_w (upd_queue i f s)"
proof (cases "i < length (queue s)")
  case True
  then have "queue_wf (f (queue s ! i))" using assms by (simp add: typed_def device_ok_def)
  then show ?thesis using assms(1) set_update_subset_insert [of "queue s" i "f (queue s ! i)"]
    by (auto simp: typed_def device_ok_def upd_queue_def)
next
  case False
  then show ?thesis using assms(1) by (simp add: upd_queue_def not_less list_update_beyond)
qed

lemma typed_next: "typed ok_w s \<Longrightarrow> typed ok_w (next_avail q s)"
  unfolding next_avail_def by (rule typed_queue) (auto simp: queue_wf_def)

lemma typed_config: "typed ok_w s \<Longrightarrow> length space = length (config_space s) \<Longrightarrow> typed ok_w (s\<lparr>config_space := space\<rparr>)"
  by (simp add: typed_def device_ok_def)

lemma mem_store_length: "mem_store xs off ys = Some zs \<Longrightarrow> length zs = length xs"
  by (auto simp: mem_store_def splice_def split: if_splits)

lemma typed_reset: "typed ok_w s \<Longrightarrow> typed ok_w (virtio_reset s)"
  by (auto simp: typed_def device_ok_def virtio_reset_def reset_queue_def queue_wf_def MAX_QUEUE_NUM_def MAX_QUEUE_def)

subsection \<open>Queues\<close>

locale typed_bus =
  fixes bus :: "'w virtio_bus" and ok_w :: "'w \<Rightarrow> bool"
  assumes ok_put: "ok_w (bus_put_map bus m w) = ok_w w"
    and ok_irq: "ok_w (bus_set_irq bus n l w) = ok_w w"
begin

lemma typed_put [simp]: "typed ok_w (put_guest_range bus i pr v s) = typed ok_w s"
  by (simp add: put_guest_range_def typed_def device_ok_def ok_put)

lemma typed_irq [simp]: "typed ok_w (virtio_set_irq bus l s) = typed ok_w s"
  by (simp add: virtio_set_irq_def typed_def device_ok_def ok_irq)

end

sublocale typed_bus \<subseteq> frame: bus_frame bus "\<lambda>s s'. typed ok_w s' = typed ok_w s"
  by unfold_locales simp_all

sublocale typed_bus \<subseteq> inv: bus_invariant bus "typed ok_w"
  by unfold_locales (simp_all add: typed_next)

context typed_bus
begin

lemmas word_typed = frame.word_frame

lemma request_typed:
  "memcpy_from_queue bus buf q i off n s = Some (ret, buf', s') \<Longrightarrow> typed ok_w s' = typed ok_w s"
  "memcpy_to_queue bus q i off buf n s = Some (ret, s') \<Longrightarrow> typed ok_w s' = typed ok_w s"
  "virtio_consume_desc bus q i n s = Some s' \<Longrightarrow> typed ok_w s' = typed ok_w s"
  "get_desc_rw_size bus q i s = Some (sizes, s') \<Longrightarrow> typed ok_w s' = typed ok_w s"
  "avail_desc bus qs s = Some (k, s') \<Longrightarrow> typed ok_w s' = typed ok_w s"
  by (rule frame.request_frame frame.consume_frame; assumption)+

lemmas notify_typed = inv.notify_keeps

subsection \<open>Registers\<close>

definition config_typed :: "('w, 'z) virtio_device_scheme virtio_ops \<Rightarrow> bool" where
  "config_typed ops \<longleftrightarrow> (\<forall>s s'. config_write ops s = Some s' \<longrightarrow> typed ok_w s \<longrightarrow> typed ok_w s')"

lemma config_write_typed:
  "config_typed ops \<Longrightarrow> virtio_config_write ops off val sz s = Some s' \<Longrightarrow> typed ok_w s \<Longrightarrow> typed ok_w s'"
  by (auto simp: virtio_config_write_def put_config_def config_typed_def dest: mem_store_length
      intro: typed_config split: if_splits bind_splits)

lemma upd_selected_typed:
  "upd_selected f s = Some s' \<Longrightarrow> typed ok_w s \<Longrightarrow> (\<And>qs. queue_wf qs \<Longrightarrow> queue_wf (f qs)) \<Longrightarrow> typed ok_w s'"
  by (auto simp: upd_selected_def intro: typed_queue split: bind_splits)

lemma register_typed:
  "typed ok_w s \<Longrightarrow> typed ok_w (select_queue val s)"
  "set_queue_num val s = Some s' \<Longrightarrow> typed ok_w s \<Longrightarrow> typed ok_w s'"
  "typed ok_w s \<Longrightarrow> typed ok_w (set_status bus val s)"
  "keeps (typed ok_w) ops \<Longrightarrow> notify_register bus ops val s = Some s' \<Longrightarrow> typed ok_w s \<Longrightarrow> typed ok_w s'"
proof -
  show "typed ok_w (select_queue val s)" if "typed ok_w s"
    using that by (auto simp: select_queue_def typed_def device_ok_def MAX_QUEUE_def word_less_nat_alt)
  show "typed ok_w s'" if "set_queue_num val s = Some s'" "typed ok_w s"
    using that by (auto simp: set_queue_num_def queue_wf_def intro: upd_selected_typed split: if_splits)
  show "typed ok_w (set_status bus val s)" if "typed ok_w s"
    using that by (simp add: set_status_def Let_def typed_reset)
  show "typed ok_w s'" if "keeps (typed ok_w) ops" "notify_register bus ops val s = Some s'" "typed ok_w s"
    using that by (auto simp: notify_register_def intro: notify_typed split: if_splits)
qed

lemma queue_wf_updates [simp]:
  "queue_wf (desc_addr_update f qs) = queue_wf qs" "queue_wf (avail_addr_update f qs) = queue_wf qs"
  "queue_wf (used_addr_update f qs) = queue_wf qs" "queue_wf qs \<Longrightarrow> queue_wf (qs\<lparr>ready := val AND 1\<rparr>)"
  by (simp_all add: queue_wf_def word_and_le1)

lemma mmio_write_typed:
  assumes "keeps (typed ok_w) ops" and "config_typed ops" and "virtio_mmio_write bus ops off val sz s = Some s'" and "typed ok_w s"
  shows "typed ok_w s'"
  using assms(3,4) unfolding virtio_mmio_write_def
  by (auto simp: Let_def register_typed(1,3) split: if_splits
      elim!: config_write_typed [OF assms(2)] upd_selected_typed register_typed(2) register_typed(4) [OF assms(1)])


subsection \<open>The four kinds of devices\<close>

lemma console_typed:
  assumes "\<And>bs w w'. write_data bs w = Some w' \<Longrightarrow> ok_w w \<Longrightarrow> ok_w w'"
  shows "keeps (typed ok_w) (console_ops bus write_data)" "config_typed (console_ops bus write_data)"
proof -
  have "typed ok_w s'" if "virtio_console_recv_request bus write_data q i rd wr s = Some (ret, s')" "typed ok_w s" for q i rd wr s ret s'
    using that by (auto simp: virtio_console_recv_request_def dest!: request_typed(1,3) assms split: if_splits bind_splits)
      (auto simp: typed_def device_ok_def)
  then show "keeps (typed ok_w) (console_ops bus write_data)" "config_typed (console_ops bus write_data)"
    by (auto simp: keeps_def config_typed_def console_ops_def)
qed

lemma net_typed:
  assumes "\<And>bs w w'. write_packet bs w = Some w' \<Longrightarrow> ok_w w \<Longrightarrow> ok_w w'"
  shows "keeps (typed ok_w) (net_ops bus write_packet)" "config_typed (net_ops bus write_packet)"
proof -
  have "typed ok_w s'" if "virtio_net_recv_request bus write_packet q i rd wr s = Some (ret, s')" "typed ok_w s" for q i rd wr s ret s'
    using that by (auto simp: virtio_net_recv_request_def Let_def dest!: request_typed(1,3) assms split: if_splits bind_splits)
      (auto simp: typed_def device_ok_def)
  then show "keeps (typed ok_w) (net_ops bus write_packet)" "config_typed (net_ops bus write_packet)"
    by (auto simp: keeps_def config_typed_def net_ops_def)
qed

lemma set_bit_length: "set_bit_at off k bits = Some bits' \<Longrightarrow> length bits' = length bits"
  by (auto simp: set_bit_at_def Let_def split: bind_splits)

lemma input_config_length: "set_bits_at off ks bits = Some bits' \<Longrightarrow> length bits' = length bits"
  by (induction off ks bits rule: set_bits_at.induct) (auto dest: set_bit_length split: bind_splits)

lemma button_bits_length: "button_bits config = Some config' \<Longrightarrow> length config' = length config"
  by (auto simp: button_bits_def dest!: mem_store_length input_config_length split: bind_splits)

lemma ev_bits_length: "ev_bits type config = Some config' \<Longrightarrow> length config' = length config"
  by (cases type; simp add: ev_bits_def Let_def bind_eq_Some_conv del: set_bits_at.simps split: if_splits;
      fastforce dest!: mem_store_length input_config_length button_bits_length)

lemma abs_info_length: "abs_info type config = Some config' \<Longrightarrow> length config' = length config"
  by (auto simp: abs_info_def dest!: mem_store_length split: bind_splits if_splits)

lemma input_typed:
  "keeps (typed ok_w) (input_ops bus)" "config_typed (input_ops bus)"
proof -
  have "typed ok_w s'" if "virtio_input_recv_request bus q i rd wr s = Some (ret, s')" "typed ok_w s" for q i rd wr s ret s'
    using that by (auto simp: virtio_input_recv_request_def dest!: request_typed(3) split: if_splits)
  then show "keeps (typed ok_w) (input_ops bus)" by (auto simp: keeps_def input_ops_def)
  have "typed ok_w s'" if "virtio_input_config_write s = Some s'" "typed ok_w s" for s s'
    using that by (auto simp: virtio_input_config_write_def Let_def dest!: mem_store_length ev_bits_length abs_info_length
        intro!: typed_config split: if_splits bind_splits)
  then show "config_typed (input_ops bus)" by (auto simp: config_typed_def input_ops_def)
qed

lemma block_end_typed: "virtio_block_req_end bus ret s = Some s' \<Longrightarrow> typed ok_w s' = typed ok_w s"
  by (auto simp: virtio_block_req_end_def dest!: request_typed(2,3) split: if_splits bind_splits)

lemma block_typed_updates [simp]:
  "typed ok_w (s\<lparr>req_in_progress := b\<rparr>) = typed ok_w s" "typed ok_w (s\<lparr>req_type := x\<rparr>) = typed ok_w s"
  "typed ok_w (s\<lparr>req_queue_idx := i\<rparr>) = typed ok_w s" "typed ok_w (s\<lparr>req_desc_idx := k\<rparr>) = typed ok_w s"
  "typed ok_w (s\<lparr>req_buf := bs\<rparr>) = typed ok_w s" "typed ok_w (s\<lparr>req_write_size := y\<rparr>) = typed ok_w s"
  by (simp_all add: typed_def device_ok_def)

lemma block_finish_typed: "block_finish bus ret s = Some s' \<Longrightarrow> typed ok_w s' = typed ok_w s"
  by (auto simp: block_finish_def dest: block_end_typed split: if_splits)

lemma block_typed:
  assumes "\<And>sec n w ret bs w'. read_async dk sec n w = Some (ret, bs, w') \<Longrightarrow> ok_w w \<Longrightarrow> ok_w w'"
    and "\<And>sec bs n w ret w'. write_async dk sec bs n w = Some (ret, w') \<Longrightarrow> ok_w w \<Longrightarrow> ok_w w'"
  shows "keeps (typed ok_w) (block_ops bus dk)" "config_typed (block_ops bus dk)"
proof -
  have "typed ok_w s'" if "virtio_block_recv_request bus dk q i rd wr s = Some (ret, s')" "typed ok_w s" for q i rd wr s ret s'
    using that by (auto simp: virtio_block_recv_request_def Let_def dest!: request_typed(1) block_finish_typed
        split: if_splits bind_splits)
      (auto simp: typed_def device_ok_def dest: assms)
  then show "keeps (typed ok_w) (block_ops bus dk)" "config_typed (block_ops bus dk)"
    by (auto simp: keeps_def config_typed_def block_ops_def)
qed

end


subsection \<open>The 9P device\<close>

lemma p9_typed_updates [simp]:
  "typed ok_w (s\<lparr>msize := x\<rparr>) = typed ok_w s" "typed ok_w (s\<lparr>fid_list := l\<rparr>) = typed ok_w s"
  "typed ok_w (s\<lparr>p9_in_progress := b, open_info := oi\<rparr>) = typed ok_w s"
  by (simp_all add: typed_def device_ok_def)

locale typed_fs = typed_bus bus ok_w for bus :: "'w virtio_bus" and ok_w :: "'w \<Rightarrow> bool" +
  fixes fsd :: "'w fs_device"
  assumes ok_uses: "fs_uses fsd F w w' \<Longrightarrow> ok_w w \<Longrightarrow> ok_w w'"
    and ok_delete: "fs_delete fsd f w = Some (r, w') \<Longrightarrow> ok_w w \<Longrightarrow> ok_w w'"
    and ok_attach: "fs_attach fsd uid uname aname w = Some (x, w') \<Longrightarrow> ok_w w \<Longrightarrow> ok_w w'"
    and ok_walk: "fs_walk fsd f names w = Some (y, w') \<Longrightarrow> ok_w w \<Longrightarrow> ok_w w'"
begin

lemma fid_typed:
  "fid_set fsd fid f s = Some s' \<Longrightarrow> typed ok_w s \<Longrightarrow> typed ok_w s'"
  "fid_delete fsd fid s = Some s' \<Longrightarrow> typed ok_w s \<Longrightarrow> typed ok_w s'"
  by (auto simp: fid_set_def fid_delete_def elim!: call_fs_elim split: option.splits bind_splits)
    (auto simp: typed_def device_ok_def dest: ok_delete)

lemma typed_step: "typed ok_w s \<Longrightarrow> (ok_w (vd_world s) \<Longrightarrow> ok_w w) \<Longrightarrow> typed ok_w (s\<lparr>vd_world := w\<rparr>)"
  by (simp add: typed_def device_ok_def)

end

sublocale typed_fs \<subseteq> p9: p9_invariant bus "typed ok_w" fsd
proof unfold_locales
  show "typed ok_w (s\<lparr>vd_world := w\<rparr>)" if "typed ok_w s" "fs_uses fsd (files s) (vd_world s) w" for s :: "('w, 'z) virtio_9p_scheme" and w
    using that(1) ok_uses [OF that(2)] by (rule typed_step)
  show "typed ok_w (s\<lparr>vd_world := w\<rparr>)" if "typed ok_w s" "fs_attach fsd uid un an (vd_world s) = Some ((err, f, qid), w)"
    for s :: "('w, 'z) virtio_9p_scheme" and w uid un an err f qid
    using that(1) ok_attach [OF that(2)] by (rule typed_step)
  show "typed ok_w (s\<lparr>vd_world := w\<rparr>)" if "typed ok_w s" "fs_walk fsd f names (vd_world s) = Some ((err, f', qids), w)"
    for s :: "('w, 'z) virtio_9p_scheme" and w f names err f' qids
    using that(1) ok_walk [OF that(2)] by (rule typed_step)
  show "typed ok_w s'" if "typed ok_w s" "fs_attach fsd uid un an (vd_world s) = Some ((0, f, qid), w)"
    "fid_set fsd fid f (s\<lparr>vd_world := w\<rparr>) = Some s'" for s s' :: "('w, 'z) virtio_9p_scheme" and w uid un an f qid fid
    by (rule fid_typed(1) [OF that(3) typed_step [OF that(1) ok_attach [OF that(2)]]])
  show "typed ok_w s'" if "typed ok_w s" "fs_walk fsd f names (vd_world s) = Some ((err, f', qids), w)"
    "fid_set fsd fid f' (s\<lparr>vd_world := w\<rparr>) = Some s'" for s s' :: "('w, 'z) virtio_9p_scheme" and w f names err f' qids fid
    by (rule fid_typed(1) [OF that(3) typed_step [OF that(1) ok_walk [OF that(2)]]])
  show "typed ok_w s'" if "typed ok_w s" "fid_delete fsd fid s = Some s'" for s s' :: "('w, 'z) virtio_9p_scheme" and fid
    by (rule fid_typed(2) [OF that(2,1)])
qed simp_all

subsection \<open>Events and creation\<close>

context typed_bus
begin

lemma avail_typed:
  "has_avail bus q s = Some (b, s') \<Longrightarrow> typed ok_w s' = typed ok_w s"
  "first_avail bus q s = Some (i, s') \<Longrightarrow> typed ok_w s' = typed ok_w s"
  by (auto simp: has_avail_def first_avail_def dest!: word_typed(1) request_typed(5) split: if_splits bind_splits)

lemma queue_event_typed:
  "virtio_input_queue_event bus type code val s = Some (ret, s') \<Longrightarrow> typed ok_w s \<Longrightarrow> typed ok_w s'"
  by (auto simp: virtio_input_queue_event_def Let_def typed_next dest!: avail_typed request_typed(2,3)
      split: bind_splits option.splits)

lemma send_events_typed: "send_events bus evs s = Some (ret, s') \<Longrightarrow> typed ok_w s \<Longrightarrow> typed ok_w s'"
proof (induction evs arbitrary: s)
  case (Cons e evs)
  obtain type code val where e: "e = (type, code, val)" by (metis prod.exhaust)
  obtain r t where t: "virtio_input_queue_event bus type code val s = Some (r, t)"
    "(if r \<noteq> 0 then Some (r, t) else send_events bus evs t) = Some (ret, s')"
    using Cons.prems(1) e by (auto split: bind_splits)
  have "typed ok_w t" by (rule queue_event_typed [OF t(1) Cons.prems(2)])
  then show ?case using Cons.IH t(2) by (auto split: if_splits)
qed simp

lemma buttons_typed [simp]: "typed ok_w (s\<lparr>buttons_state := x\<rparr>) = typed ok_w s"
  by (simp add: typed_def device_ok_def)

lemma key_event_typed:
  "virtio_input_send_key_event bus down code s = Some (ret, s') \<Longrightarrow> typed ok_w s \<Longrightarrow> typed ok_w s'"
  unfolding virtio_input_send_key_event_def by (auto simp del: send_events.simps intro: send_events_typed split: if_splits)

lemma mouse_event_typed:
  "virtio_input_send_mouse_event bus dx dy dz buttons s = Some (ret, s') \<Longrightarrow> typed ok_w s \<Longrightarrow> typed ok_w s'"
  unfolding virtio_input_send_mouse_event_def
  by (auto dest!: send_events_typed queue_event_typed split: if_splits bind_splits)

lemma req_cb_typed:
  fixes s :: "('w, 'z) virtio_block_scheme"
  assumes "keeps (typed ok_w) (block_ops bus dk :: ('w, 'z) virtio_block_scheme virtio_ops)" and "virtio_block_req_cb bus dk ret s = Some s'" and "typed ok_w s"
  shows "typed ok_w s'"
proof -
  obtain t where t: "virtio_block_req_end bus ret s = Some t"
    "queue_notify bus (block_ops bus dk) (req_queue_idx t) (t\<lparr>req_in_progress := False\<rparr>) = Some s'"
    using assms(2) by (auto simp: virtio_block_req_cb_def Let_def split: bind_splits)
  have "typed ok_w (t\<lparr>req_in_progress := False\<rparr>)" using block_end_typed [OF t(1)] assms(3) by simp
  then show ?thesis by (rule notify_typed [OF assms(1) t(2)])
qed

lemma init_typed:
  assumes "virtio_init bus addr irq opaque dev_id n w rest = Some s" and "ok_w w" and "3 \<le> unat n" and "unat n \<le> MAX_CONFIG_SPACE_SIZE"
  shows "typed ok_w s"
  using assms by (auto simp: virtio_init_def Let_def virtio_reset_def virtio_zero_def typed_def device_ok_def ok_put
      reset_queue_def queue_wf_def queue_zero_def MAX_QUEUE_def MAX_QUEUE_NUM_def MAX_CONFIG_SPACE_SIZE_def split: bind_splits)

lemma header_typed [simp]: "typed ok_w (s\<lparr>header_size := x\<rparr>) = typed ok_w s"
  by (simp add: typed_def device_ok_def)

lemma manual_typed [simp]: "queue_wf (qs\<lparr>manual_recv := b\<rparr>) = queue_wf qs"
  by (simp add: queue_wf_def)

lemma device_init_typed:
  "virtio_console_init bus addr irq opaque w = Some c \<Longrightarrow> ok_w w \<Longrightarrow> typed ok_w c"
  "virtio_net_init bus mac addr irq opaque w = Some n \<Longrightarrow> ok_w w \<Longrightarrow> typed ok_w n"
  "virtio_block_init bus dk addr irq opaque w = Some b \<Longrightarrow> ok_w w \<Longrightarrow> typed ok_w b"
  "virtio_input_init bus type addr irq opaque w = Some i \<Longrightarrow> ok_w w \<Longrightarrow> typed ok_w i"
  by (auto simp: virtio_console_init_def virtio_net_init_def virtio_block_init_def virtio_input_init_def Let_def
      MAX_CONFIG_SPACE_SIZE_def dest!: init_typed mem_store_length intro!: typed_queue typed_config split: bind_splits)

end

subsection \<open>Reading the registers\<close>

lemma config_read_returns:
  assumes "device_ok s" and "size_log2 \<le> 2"
  shows "virtio_config_read off size_log2 s \<noteq> None"
proof -
  let ?n = "config_space_size s"
  have c: "length (config_space s) = 256" "3 \<le> unat ?n" "unat ?n \<le> 256"
    using assms(1) by (simp_all add: device_ok_def MAX_CONFIG_SPACE_SIZE_def)
  have m: "unat (?n - k) = unat ?n - unat k" if "unat k \<le> 3" for k
    using that c(2) by (intro unat_sub) (simp add: word_le_nat_alt)
  have n: "unat (?n - 1) = unat ?n - 1" "unat (?n - 3) = unat ?n - 3" using m [of 1] m [of 3] by simp_all
  have "size_log2 = 0 \<or> size_log2 = 1 \<or> size_log2 = 2" using assms(2) by auto
  then show ?thesis using c n
    by (elim disjE) (auto simp: virtio_config_read_def config_bytes_def mem_load_def word_less_nat_alt)
qed

lemma mmio_read_returns:
  assumes "device_ok s" and "size_log2 \<le> 2"
  shows "virtio_mmio_read off size_log2 s \<noteq> None"
proof -
  obtain qs where "selected s = Some qs" using assms(1) by (auto simp: selected_def the_queue_def device_ok_def)
  then show ?thesis using config_read_returns [OF assms] by (simp add: virtio_mmio_read_def)
qed

subsection \<open>The machine\<close>

definition dev_ok :: "virtio_dev \<Rightarrow> bool" where
  "dev_ok dev = (case dev of Virtio_Console d \<Rightarrow> device_ok d | Virtio_Net i d \<Rightarrow> device_ok d
     | Virtio_Block i d \<Rightarrow> device_ok d | Virtio_9p i d \<Rightarrow> device_ok d | Virtio_Input d \<Rightarrow> device_ok d)"

definition devices_ok :: "'h virt_machine \<Rightarrow> bool" where
  "devices_ok s \<longleftrightarrow> list_all dev_ok (virtio_devs s) \<and> virtio_count s = length (virtio_devs s)"

lemma devices_ok_updates [simp]:
  "devices_ok (s\<lparr>mem_map := m\<rparr>) = devices_ok s" "devices_ok (s\<lparr>console_out := bs\<rparr>) = devices_ok s"
  "devices_ok (s\<lparr>host := h\<rparr>) = devices_ok s" "devices_ok (plic_set_irq n l s) = devices_ok s"
  by (simp_all add: devices_ok_def plic_set_irq_def plic_update_mip_def riscv_cpu_set_mip_def riscv_cpu_reset_mip_def Let_def)

lemma machine_bus_fields [simp]:
  "bus_put_map (machine_bus env junk) m s = s\<lparr>mem_map := m\<rparr>"
  "bus_set_irq (machine_bus env junk) = plic_set_irq"
  by (simp_all add: machine_bus_def)

interpretation machine: typed_bus "machine_bus env junk" devices_ok for env junk
  by unfold_locales simp_all

lemma in_host_ok: "in_host f w = Some (r, w') \<Longrightarrow> devices_ok w \<Longrightarrow> devices_ok w'"
  by (auto simp: in_host_def)

lemma in_host_elim:
  assumes "in_host f s = Some (r, s')"
  obtains h where "f (host s) = Some (r, h)" "s' = s\<lparr>host := h\<rparr>"
  using assms by (auto simp: in_host_def)

lemma machine_fs_uses:
  "fs_uses (machine_fs hops i) F s s' \<Longrightarrow> \<exists>h. s' = s\<lparr>host := h\<rparr> \<and> fs_uses (file_system hops i) F (host s) h"
  by (erule fs_uses.cases) (auto simp: machine_fs_def Let_def elim!: in_host_elim, (blast intro: fs_uses.intros)+)

lemma machine_fs_ok:
  "fs_uses (machine_fs hops i) F w w' \<Longrightarrow> devices_ok w \<Longrightarrow> devices_ok w'"
  "fs_delete (machine_fs hops i) f w = Some (r, w') \<Longrightarrow> devices_ok w \<Longrightarrow> devices_ok w'"
  "fs_attach (machine_fs hops i) uid uname aname w = Some (x, w') \<Longrightarrow> devices_ok w \<Longrightarrow> devices_ok w'"
  "fs_walk (machine_fs hops i) f names w = Some (y, w') \<Longrightarrow> devices_ok w \<Longrightarrow> devices_ok w'"
  by (auto dest!: machine_fs_uses) (auto simp: machine_fs_def Let_def intro: in_host_ok)

interpretation machine_files: typed_fs "machine_bus env junk" devices_ok "machine_fs hops i" for env junk hops i
  by unfold_locales (erule (1) machine_fs_ok)+

lemma typed_in_machine [simp]: "typed ok_w (with_world w d) = (device_ok d \<and> ok_w w)"
  by (simp add: typed_def device_ok_def with_world_def)

lemma device_ok_at_rest [simp]: "device_ok (with_world w d) = device_ok d"
  by (simp add: device_ok_def with_world_def)

lemma in_machine_typed:
  assumes "in_machine f d s = Some (d', s')" and "device_ok d" and "devices_ok s"
    and "\<And>d d'. f d = Some d' \<Longrightarrow> typed devices_ok d \<Longrightarrow> typed devices_ok d'"
  shows "device_ok d' \<and> devices_ok s'"
proof -
  obtain t where t: "f (with_world s d) = Some t" "d' = with_world () t" "s' = vd_world t"
    using assms(1) by (auto simp: in_machine_def)
  have "typed devices_ok t" using assms(4) [OF t(1)] assms(2,3) by simp
  then show ?thesis using t(2,3) by (simp add: typed_def)
qed

lemma put_dev_ok: "dev_ok dev \<Longrightarrow> devices_ok s \<Longrightarrow> devices_ok (put_dev i (dev, s))"
  using set_update_subset_insert [of "virtio_devs s" i dev] by (auto simp: devices_ok_def put_dev_def list_all_iff)

lemma world_ops_ok:
  "console_write bs w = Some w' \<Longrightarrow> devices_ok w \<Longrightarrow> devices_ok w'"
  "net_write hops i bs w = Some w' \<Longrightarrow> devices_ok w \<Longrightarrow> devices_ok w'"
  "read_async (machine_disk hops i) sec n w = Some (ret, bs, w') \<Longrightarrow> devices_ok w \<Longrightarrow> devices_ok w'"
  "write_async (machine_disk hops i) sec bs n w = Some (ret, w') \<Longrightarrow> devices_ok w \<Longrightarrow> devices_ok w'"
  by (auto simp: console_write_def net_write_def machine_disk_def)

lemma mmio_access_ok:
  assumes "keeps (typed devices_ok) ops" and "machine.config_typed ops" and "device_ok d" and "devices_ok s"
    and "in_machine (virtio_mmio_write (machine_bus env junk) ops off val sz) d s = Some (d', s')"
  shows "device_ok d' \<and> devices_ok s'"
  by (rule in_machine_typed [OF assms(5,3,4)]) (rule machine.mmio_write_typed [OF assms(1,2)])

lemma kinds_typed:
  "keeps (typed devices_ok) (console_ops (hbus hops) console_write)" "machine.config_typed (console_ops (hbus hops) console_write)"
  "keeps (typed devices_ok) (net_ops (hbus hops) (net_write hops i))" "machine.config_typed (net_ops (hbus hops) (net_write hops i))"
  "keeps (typed devices_ok) (block_ops (hbus hops) (machine_disk hops i))"
  "machine.config_typed (block_ops (hbus hops) (machine_disk hops i))"
  by (rule machine.console_typed machine.net_typed machine.block_typed; erule (1) world_ops_ok)+

lemma p9_config_typed: "machine.config_typed (p9_ops bus fsd)"
  by (simp add: machine.config_typed_def p9_ops_def)

lemma device_write_ok:
  assumes "device_write hops off val sz dev s = Some (dev', s')" and "dev_ok dev" and "devices_ok s"
  shows "dev_ok dev' \<and> devices_ok s'"
proof (cases dev)
  case (Virtio_Console d)
  then obtain d' where "in_machine (virtio_mmio_write (hbus hops) (console_ops (hbus hops) console_write) off val sz) d s = Some (d', s')"
    "dev' = Virtio_Console d'"
    using assms(1) by (auto simp: device_write_def)
  then show ?thesis using mmio_access_ok [OF kinds_typed(1,2) _ assms(3)] assms(2) Virtio_Console by (simp add: dev_ok_def)
next
  case (Virtio_Net i d)
  then obtain d' where "in_machine (virtio_mmio_write (hbus hops) (net_ops (hbus hops) (net_write hops i)) off val sz) d s = Some (d', s')"
    "dev' = Virtio_Net i d'"
    using assms(1) by (auto simp: device_write_def)
  then show ?thesis using mmio_access_ok [OF kinds_typed(3,4) _ assms(3)] assms(2) Virtio_Net by (simp add: dev_ok_def)
next
  case (Virtio_Block i d)
  then obtain d' where "in_machine (virtio_mmio_write (hbus hops) (block_ops (hbus hops) (machine_disk hops i)) off val sz) d s = Some (d', s')"
    "dev' = Virtio_Block i d'"
    using assms(1) by (auto simp: device_write_def)
  then show ?thesis using mmio_access_ok [OF kinds_typed(5,6) _ assms(3)] assms(2) Virtio_Block by (simp add: dev_ok_def)
next
  case (Virtio_9p i d)
  then obtain d' where "in_machine (virtio_mmio_write (hbus hops) (p9_ops (hbus hops) (machine_fs hops i)) off val sz) d s = Some (d', s')"
    "dev' = Virtio_9p i d'"
    using assms(1) by (auto simp: device_write_def)
  then show ?thesis using mmio_access_ok [OF machine_files.p9.p9_keeps p9_config_typed _ assms(3)] assms(2) Virtio_9p by (simp add: dev_ok_def)
next
  case (Virtio_Input d)
  then obtain d' where "in_machine (virtio_mmio_write (hbus hops) (input_ops (hbus hops)) off val sz) d s = Some (d', s')"
    "dev' = Virtio_Input d'"
    using assms(1) by (auto simp: device_write_def)
  then show ?thesis using mmio_access_ok [OF machine.input_typed _ assms(3)] assms(2) Virtio_Input by (simp add: dev_ok_def)
qed

lemma the_dev_ok: "the_dev i s = Some dev \<Longrightarrow> devices_ok s \<Longrightarrow> dev_ok dev"
  by (auto simp: the_dev_def devices_ok_def list_all_iff split: if_splits)

lemma machine_write_ok:
  assumes "machine_virtio_write hops n off val sz s = Some s'" and "devices_ok s"
  shows "devices_ok s'"
  using assms by (auto simp: machine_virtio_write_def dest!: device_write_ok the_dev_ok intro: put_dev_ok split: bind_splits)

lemma machine_read_returns:
  assumes "devices_ok s" and "sz \<le> 2" and "n - FIRST_VIRTIO_DEV < length (virtio_devs s)"
  shows "\<exists>v. machine_virtio_read n off sz s = Some (v, s)"
proof -
  obtain dev where dev: "the_dev (n - FIRST_VIRTIO_DEV) s = Some dev" "dev_ok dev"
    using the_dev_ok [OF _ assms(1), of "n - FIRST_VIRTIO_DEV"] assms(3) by (auto simp: the_dev_def)
  have "device_read off sz dev \<noteq> None" using dev(2) assms(2)
    by (cases dev) (simp_all only: device_read_def dev_ok_def virtio_dev.case mmio_read_returns not_False_eq_True)
  then show ?thesis using dev(1) by (auto simp: machine_virtio_read_def)
qed

lemma input_event_ok:
  assumes "input_event f dev s = Some s'" and "devices_ok s"
    and "\<And>d ret d'. f d = Some (ret, d') \<Longrightarrow> typed devices_ok d \<Longrightarrow> typed devices_ok d'"
  shows "devices_ok s'"
proof (cases dev)
  case None
  then show ?thesis using assms(1,2) by (simp add: input_event_def)
next
  case (Some i)
  then obtain d r where d: "the_dev i s = Some (Virtio_Input d)"
    "in_machine (\<lambda>d. map_option snd (f d)) d s = Some r" "s' = put_dev i (Virtio_Input (fst r), snd r)"
    using assms(1) by (auto simp: input_event_def split: option.splits virtio_dev.splits)
  have "device_ok (fst r) \<and> devices_ok (snd r)"
    using in_machine_typed [of "\<lambda>d. map_option snd (f d)" d s "fst r" "snd r"] d(2) the_dev_ok [OF d(1) assms(2)] assms(2,3)
    by (fastforce simp: dev_ok_def)
  then show ?thesis using put_dev_ok [of "Virtio_Input (fst r)" "snd r" i] d(3) by (simp add: dev_ok_def)
qed

lemma disk_done_ok:
  assumes "disk_done hops i ret s = Some s'" and "devices_ok s"
  shows "devices_ok s'"
proof -
  obtain k d r where d: "the_dev i s = Some (Virtio_Block k d)"
    "in_machine (virtio_block_req_cb (hbus hops) (machine_disk hops k) ret) d s = Some r" "s' = put_dev i (Virtio_Block k (fst r), snd r)"
    using assms(1) by (auto simp: disk_done_def split: option.splits virtio_dev.splits)
  have "device_ok (fst r) \<and> devices_ok (snd r)"
    using in_machine_typed [OF _ _ assms(2), of "virtio_block_req_cb (hbus hops) (machine_disk hops k) ret" d "fst r" "snd r"]
      d(2) the_dev_ok [OF d(1) assms(2)] machine.req_cb_typed [OF kinds_typed(5)]
    by (fastforce simp: dev_ok_def)
  then show ?thesis using put_dev_ok [of "Virtio_Block k (fst r)" "snd r" i] d(3) by (simp add: dev_ok_def)
qed

lemma fs_open_done_ok:
  assumes "fs_open_done hops i qid err s = Some s'" and "devices_ok s"
  shows "devices_ok s'"
proof -
  obtain k d r where d: "the_dev i s = Some (Virtio_9p k d)"
    "in_machine (virtio_9p_open_cb (hbus hops) (machine_fs hops k) qid err) d s = Some r" "s' = put_dev i (Virtio_9p k (fst r), snd r)"
    using assms(1) by (auto simp: fs_open_done_def split: option.splits virtio_dev.splits)
  have "device_ok d" using the_dev_ok [OF d(1) assms(2)] by (simp add: dev_ok_def)
  then have "device_ok (fst r) \<and> devices_ok (snd r)"
    by (rule in_machine_typed [of _ d s "fst r" "snd r", simplified, OF d(2) _ assms(2)]) (rule machine_files.p9.open_cb_keeps)
  then show ?thesis using put_dev_ok [of "Virtio_9p k (fst r)" "snd r" i] d(3) by (simp add: dev_ok_def)
qed

subsection \<open>Creation of the machine\<close>

lemma attach_ok:
  assumes "typed devices_ok d" and "dev_ok (kind (with_world () d))"
  shows "devices_ok (attach kind d)"
  using assms by (simp add: typed_def devices_ok_def attach_def Let_def)

lemma attach_kinds:
  "typed devices_ok c \<Longrightarrow> devices_ok (attach Virtio_Console c)" "typed devices_ok n \<Longrightarrow> devices_ok (attach (Virtio_Net i) n)"
  "typed devices_ok b \<Longrightarrow> devices_ok (attach (Virtio_Block i) b)" "typed devices_ok p \<Longrightarrow> devices_ok (attach (Virtio_9p i) p)"
  "typed devices_ok k \<Longrightarrow> devices_ok (attach Virtio_Input k)"
  by (rule attach_ok; simp add: dev_ok_def typed_def)+

lemma add_nets_ok: "add_nets hops i macs s = Some s' \<Longrightarrow> devices_ok s \<Longrightarrow> devices_ok s'"
  by (induction macs arbitrary: i s) (auto dest!: machine.device_init_typed(2) attach_kinds(2) split: bind_splits)

lemma add_drives_ok: "add_drives hops ks s = Some s' \<Longrightarrow> devices_ok s \<Longrightarrow> devices_ok s'"
  by (induction ks arbitrary: s) (auto dest!: machine.device_init_typed(3) attach_kinds(3) split: bind_splits)

text \<open>The configuration space of a file system holds the length of the tag and the tag.\<close>

lemma p9_init_typed:
  assumes "virtio_9p_init (machine_bus env junk) tag addr irq opaque w = Some d" and "tag \<noteq> []" and "devices_ok w"
  shows "typed devices_ok d"
proof -
  let ?len = "word_of_nat (length tag) :: u32"
  obtain t space space' where t: "virtio_init (machine_bus env junk) addr irq opaque 9 (2 + ?len) w
      \<lparr>msize = 0, fid_list = [], p9_in_progress = False, open_info = None\<rparr> = Some t"
    "mem_store (config_space t) 0 [ucast ?len, ucast (drop_bit 8 ?len)] = Some space" "mem_store space 2 tag = Some space'"
    "d = t\<lparr>device_features := 1, config_space := space', msize := 8192\<rparr>"
    using assms(1) by (auto simp: virtio_9p_init_def Let_def split: bind_splits)
  have "length (config_space t) = 256"
    using t(1) by (auto simp: virtio_init_def virtio_zero_def virtio_reset_def Let_def MAX_CONFIG_SPACE_SIZE_def split: bind_splits)
  then have len: "length tag \<le> 254" using t(2,3) mem_store_length [OF t(2)] by (auto simp: mem_store_def split: if_splits)
  then have "unat ?len = length tag" by (simp add: unat_of_nat take_bit_nat_eq_self)
  then have "unat (2 + ?len) = 2 + length tag" using len by (simp add: unat_word_ariths)
  then have "3 \<le> unat (2 + ?len)" "unat (2 + ?len) \<le> MAX_CONFIG_SPACE_SIZE"
    using len assms(2) by (cases tag; simp add: MAX_CONFIG_SPACE_SIZE_def)+
  then have "typed devices_ok t" by (rule machine.init_typed [OF t(1) assms(3)])
  then show ?thesis using mem_store_length [OF t(2)] mem_store_length [OF t(3)] unfolding t(4) by (simp add: typed_config)
qed

lemma add_file_systems_ok:
  "add_file_systems hops i tags s = Some s' \<Longrightarrow> list_all (\<lambda>tag. tag \<noteq> []) tags \<Longrightarrow> devices_ok s \<Longrightarrow> devices_ok s'"
  by (induction tags arbitrary: i s) (auto dest!: p9_init_typed attach_kinds(4) split: bind_splits)

lemma devices_ok_fields [simp]:
  "devices_ok (s\<lparr>frame_buffer := fb\<rparr>) = devices_ok s" "devices_ok (s\<lparr>keyboard_dev := k\<rparr>) = devices_ok s"
  "devices_ok (s\<lparr>mouse_dev := m\<rparr>) = devices_ok s"
  by (simp_all add: devices_ok_def)

lemma add_input_ok: "add_input hops input s = Some s' \<Longrightarrow> devices_ok s \<Longrightarrow> devices_ok s'"
  by (auto simp: add_input_def Let_def dest!: machine.device_init_typed(4) attach_kinds(5) split: bind_splits option.splits)

lemma add_display_ok: "add_display setup display w h s = Some s' \<Longrightarrow> devices_ok s \<Longrightarrow> devices_ok s'"
  by (auto simp: add_display_def split: bind_splits option.splits)

lemma add_console_ok: "add_console hops s = Some s' \<Longrightarrow> devices_ok s \<Longrightarrow> devices_ok s'"
  by (auto simp: add_console_def dest!: machine.device_init_typed(1) attach_kinds(1))

lemma add_devices_ok:
  "add_devices hops setup p s = Some s' \<Longrightarrow> list_all (\<lambda>tag. tag \<noteq> []) (vp_file_systems p) \<Longrightarrow> devices_ok s \<Longrightarrow> devices_ok s'"
  unfolding add_devices_def
  by (auto dest!: add_console_ok add_nets_ok add_drives_ok add_file_systems_ok add_display_ok add_input_ok split: if_splits bind_splits)


subsection \<open>Histories of the devices\<close>

text \<open>
  What happens to the devices: the guest writes a register or changes its memory, and keys, mouse,
  disks and file systems report events.
\<close>

datatype dev_action =
    Write_Register nat u32 u32 nat
  | Guest_Memory phys_mem_map
  | Key bool u16
  | Mouse u32 u32 u32 u32
  | Disk_Done nat int
  | Fs_Opened nat fs_qid int

fun dev_step :: "'h host_ops \<Rightarrow> dev_action \<Rightarrow> 'h virt_machine \<Rightarrow> 'h virt_machine option" where
  "dev_step hops (Write_Register n off val sz) s = machine_virtio_write hops n off val sz s"
| "dev_step hops (Guest_Memory m) s = Some (s\<lparr>mem_map := m\<rparr>)"
| "dev_step hops (Key down code) s = riscv_vm_send_key_event hops down code s"
| "dev_step hops (Mouse dx dy dz buttons) s = riscv_vm_send_mouse_event hops dx dy dz buttons s"
| "dev_step hops (Disk_Done i ret) s = disk_done hops i ret s"
| "dev_step hops (Fs_Opened i qid err) s = fs_open_done hops i qid err s"

fun dev_run :: "'h host_ops \<Rightarrow> dev_action list \<Rightarrow> 'h virt_machine \<Rightarrow> 'h virt_machine option" where
  "dev_run hops [] s = Some s"
| "dev_run hops (a # acts) s = Option.bind (dev_step hops a s) (dev_run hops acts)"

lemma dev_step_ok: "dev_step hops a s = Some s' \<Longrightarrow> devices_ok s \<Longrightarrow> devices_ok s'"
  by (cases a) (auto simp: riscv_vm_send_key_event_def riscv_vm_send_mouse_event_def
      dest: machine_write_ok disk_done_ok fs_open_done_ok input_event_ok [OF _ _ machine.key_event_typed]
        input_event_ok [OF _ _ machine.mouse_event_typed])

lemma dev_run_ok: "dev_run hops acts s = Some s' \<Longrightarrow> devices_ok s \<Longrightarrow> devices_ok s'"
  by (induction acts arbitrary: s) (auto dest: dev_step_ok split: bind_splits)


definition bare_machine :: "unit virt_machine" where
  "bare_machine = machine_zero (riscv_cpu_init phys_mem_map_init ())
     \<lparr>host = (), virtio_devs = [], keyboard_dev = None, mouse_dev = None, frame_buffer = None\<rparr>"

definition no_fs :: "'h fs_device" where
  "no_fs = \<lparr>fs_delete = (\<lambda>_ _. None), fs_statfs = (\<lambda>_. None), fs_attach = (\<lambda>_ _ _ _. None), fs_walk = (\<lambda>_ _ _. None),
     fs_mkdir = (\<lambda>_ _ _ _ _. None), fs_open = (\<lambda>_ _ _. None), fs_create = (\<lambda>_ _ _ _ _ _. None), fs_getattr = (\<lambda>_ _. None),
     fs_setattr = (\<lambda>_ _ _ _ _ _ _ _ _ _ _. None), fs_readdir = (\<lambda>_ _ _ _. None), fs_read = (\<lambda>_ _ _ _. None),
     fs_write = (\<lambda>_ _ _ _ _. None), fs_link = (\<lambda>_ _ _ _. None), fs_symlink = (\<lambda>_ _ _ _ _. None),
     fs_mknod = (\<lambda>_ _ _ _ _ _ _. None), fs_readlink = (\<lambda>_ _. None), fs_renameat = (\<lambda>_ _ _ _ _. None),
     fs_unlinkat = (\<lambda>_ _ _. None), fs_lock_file = (\<lambda>_ _ _. None), fs_getlock = (\<lambda>_ _ _. None)\<rparr>"

definition sample_host :: "unit host_ops" where
  "sample_host = \<lparr>host_alloc = sample_env, host_junk = (\<lambda>_. 0), send_packet = (\<lambda>_ _ h. Some h),
     disk = (\<lambda>_. \<lparr>get_sector_count = (\<lambda>_. 0), read_async = (\<lambda>_ _ _. None), write_async = (\<lambda>_ _ _ _. None)\<rparr>),
     file_system = (\<lambda>_. no_fs)\<rparr>"

definition sample_setup :: ram_setup where
  "sample_setup = \<lparr>ru_cwd = [], ru_created = True, ru_reopened = True, ru_junk = (\<lambda>_. 0), ru_junk_lines = (\<lambda>_. 0), ru_junk_lines' = (\<lambda>_. 0)\<rparr>"

definition sample_devices :: vm_devices where
  "sample_devices = \<lparr>vp_console = True, vp_eth = [], vp_drives = 0, vp_file_systems = [[0x2F]], vp_display = None, vp_width = 0, vp_height = 0, vp_input = None\<rparr>"

definition sample_actions :: "dev_action list" where
  "sample_actions = [Write_Register 5 VIRTIO_MMIO_QUEUE_SEL 1 2, Write_Register 5 VIRTIO_MMIO_QUEUE_NUM 8 2]"

lemma sample_device_run:
  "case add_devices sample_host sample_setup sample_devices bare_machine of None \<Rightarrow> False
   | Some t \<Rightarrow> (case dev_run sample_host sample_actions t of None \<Rightarrow> False | Some u \<Rightarrow> length (virtio_devs u) = 2)"
  by code_simp


end
