(* ===== verification/Virtio9pMessages.thy ===== *)
theory Virtio9pMessages
  imports Virtio9p VirtioSpec RamAccess
begin

section \<open>Messages in the memory of the guest\<close>

text \<open>
  \<open>marshall\<close> writes numbers and strings as bytes; \<open>unmarshall\<close> reads them from the descriptors of a
  request. What is read is what was written, up to the width of the field and to the end of a string
  at its first zero byte, wherever the descriptors split the bytes.
\<close>

subsection \<open>Lengths and values\<close>

text \<open>What the receiver of an item gets.\<close>

fun received :: "char \<Rightarrow> p9_value \<Rightarrow> p9_value" where
  "received c (P9_Int v) = P9_Int (if c = CHR ''b'' then take_bit 8 v else if c = CHR ''h'' then take_bit 16 v else v)"
| "received c (P9_String str) = P9_String (c_string str)"
| "received c val = val"

fun all_received :: "string \<Rightarrow> p9_value list \<Rightarrow> p9_value list" where
  "all_received (c # fmt) (val # vals) = received c val # all_received fmt vals"
| "all_received fmt vals = []"

lemma take_splice: "length ys = n \<Longrightarrow> n \<le> length xs \<Longrightarrow> take n (splice xs 0 ys) = ys"
  by (simp add: splice_def)

lemma byte_back: "(ucast (ucast (v :: u32) :: u8) :: u32) = take_bit 8 v"
  using le_word_le_bytes [of 1 v] by simp

text \<open>The part of a message that is at position \<open>off\<close> of the request.\<close>

definition bytes_at :: "u8 list \<Rightarrow> u32 \<Rightarrow> u8 list \<Rightarrow> bool" where
  "bytes_at req off bytes \<longleftrightarrow> unat off + length bytes \<le> length req \<and> slice req (unat off) (length bytes) = bytes"

lemma bytes_at_append:
  assumes "bytes_at req off (xs @ ys)" and "length req < 2 ^ 31"
  shows "bytes_at req off xs" and "bytes_at req (off + word_of_nat (length xs)) ys"
    and "unat (off + word_of_nat (length xs)) = unat off + length xs"
proof -
  have l: "unat off + length xs + length ys \<le> length req" using assms(1) by (simp add: bytes_at_def)
  have "unat (word_of_nat (length xs) :: u32) = length xs"
    using l assms(2) by (simp add: unat_of_nat take_bit_nat_eq_self)
  then show u: "unat (off + word_of_nat (length xs)) = unat off + length xs"
    using l assms(2) by (simp add: unat_word_ariths)
  have s: "slice req (unat off) (length xs + length ys) = xs @ ys" using assms(1) by (simp add: bytes_at_def)
  have "slice req (unat off) (length xs) = take (length xs) (slice req (unat off) (length xs + length ys))"
    "slice req (unat off + length xs) (length ys) = drop (length xs) (slice req (unat off) (length xs + length ys))"
    by (simp_all add: slice_def drop_take add.commute)
  then show "bytes_at req off xs" "bytes_at req (off + word_of_nat (length xs)) ys"
    using l s u by (simp_all add: bytes_at_def)
qed

subsection \<open>Reading items\<close>

text \<open>A request whose readable part is in RAM.\<close>

definition request_in_ram ::
  "'w virtio_bus \<Rightarrow> nat \<Rightarrow> nat \<Rightarrow> nat \<Rightarrow> (nat \<Rightarrow> u8) \<Rightarrow> nat \<Rightarrow> u16 \<Rightarrow> virtio_desc list \<Rightarrow> ('w, 'z) vstate \<Rightarrow> bool" where
  "request_in_ram bus i base M mem q idx ds s \<longleftrightarrow>
     guest_ram bus i base M mem (vd_world s) \<and> base + M \<le> 2 ^ 32 \<and> list_all (buffer_ok base M) (reads ds) \<and>
     length (chain_bytes mem (reads ds)) < 2 ^ 31 \<and>
     (\<exists>qs. the_queue q s = Some qs \<and> chain base M mem (desc_addr qs) idx ds)"

abbreviation request_bytes :: "(nat \<Rightarrow> u8) \<Rightarrow> virtio_desc list \<Rightarrow> u8 list" where
  "request_bytes mem ds \<equiv> chain_bytes mem (reads ds)"

context memory_bus
begin

lemma read_at:
  assumes "request_in_ram bus i base M mem q idx ds s" and "bytes_at (request_bytes mem ds) off bytes" and "length bytes \<le> length buf"
  shows "\<exists>s'. memcpy_from_queue bus buf q idx off (word_of_nat (length bytes)) s = Some (0, splice buf 0 bytes, s') \<and>
    request_in_ram bus i base M mem q idx ds s' \<and> same_device bus s s'"
proof -
  have n: "unat (word_of_nat (length bytes) :: u32) = length bytes" "length bytes < 2 ^ 31"
    using assms(1,2) by (auto simp: request_in_ram_def bytes_at_def unat_of_nat take_bit_nat_eq_self)
  obtain qs where qs: "the_queue q s = Some qs" "chain base M mem (desc_addr qs) idx ds"
    using assms(1) by (auto simp: request_in_ram_def)
  obtain s' where s': "memcpy_from_queue bus buf q idx off (word_of_nat (length bytes)) s =
      Some (0, splice buf 0 (slice (request_bytes mem ds) (unat off) (length bytes)), s')"
    "guest_ram bus i base M mem (vd_world s')" "same_device bus s s'"
    using memcpy_from_chain [of i base M mem s q qs idx ds "word_of_nat (length bytes)" buf off] assms qs n
    by (auto simp: request_in_ram_def bytes_at_def)
  moreover have "request_in_ram bus i base M mem q idx ds s'"
    using assms(1) s'(2) same_deviceD(4) [OF s'(3)] by (simp add: request_in_ram_def)
  ultimately show ?thesis using assms(2) by (auto simp: bytes_at_def)
qed

lemma read_number_at:
  assumes "request_in_ram bus i base M mem q idx ds s" and "bytes_at (request_bytes mem ds) off bytes" and "length bytes \<le> 16"
  shows "\<exists>s'. read_number bus q idx off (length bytes) s = Some (Some bytes, s') \<and>
    request_in_ram bus i base M mem q idx ds s' \<and> same_device bus s s'"
  using read_at [OF assms(1,2), of "replicate 16 0"] assms(3) by (auto simp: read_number_def take_splice)

lemma read_string_at:
  assumes "request_in_ram bus i base M mem q idx ds s" and "length str \<le> 65535"
    and "bytes_at (request_bytes mem ds) off (le_bytes 2 (word_of_nat (length str) :: u32) @ str)"
  shows "\<exists>s'. read_string bus q idx off s = Some (Some (P9_String (c_string str), off + 2 + word_of_nat (length str)), s') \<and>
    request_in_ram bus i base M mem q idx ds s' \<and> same_device bus s s'"
proof -
  let ?n = "word_of_nat (length str) :: u32"
  have n: "unat ?n = length str" using assms(2) by (simp add: unat_of_nat take_bit_nat_eq_self)
  then have n1: "unat (?n + 1) = length str + 1" using assms(2) by (simp add: unat_word_ariths)
  have len: "length (request_bytes mem ds) < 2 ^ 31" using assms(1) by (simp add: request_in_ram_def)
  note split = bytes_at_append [OF assms(3) len]
  obtain t where t: "read_number bus q idx off 2 s = Some (Some (le_bytes 2 ?n), t)"
    "request_in_ram bus i base M mem q idx ds t" "same_device bus s t"
    using read_number_at [OF assms(1) split(1)] by auto
  have "take_bit 16 ?n = ?n" using assms(2)
    by (simp add: unsigned_take_bit_eq word_unat_eq_iff unat_of_nat take_bit_nat_eq_self)
  then have w: "le_word (le_bytes 2 ?n) = ?n" by (simp add: le_word_le_bytes)
  let ?buf = "List.map (bus_junk bus) [0..<length str + 1]"
  have m: "malloc_bytes bus (?n + 1) = Some ?buf"
    using small_nonneg [of "?n + 1"] n1 assms(2) by (simp add: malloc_bytes_def)
  obtain s' where s': "memcpy_from_queue bus ?buf q idx (off + 2) ?n t = Some (0, splice ?buf 0 str, s')"
    "request_in_ram bus i base M mem q idx ds s'" "same_device bus t s'"
    using read_at [OF t(2) split(2), of ?buf] by auto
  have "take (length str) (splice ?buf 0 str) = str" by (rule take_splice) simp_all
  then have "read_string bus q idx off s = Some (Some (P9_String (c_string str), off + 2 + ?n), s')"
    using t(1) w m s'(1) n by (simp add: read_string_def Let_def)
  then show ?thesis using s'(2) same_device_trans [OF t(3) s'(3)] by blast
qed

lemma unmarshall1_at:
  assumes "request_in_ram bus i base M mem q idx ds s" and "marshall1 c val = Some bytes" and "c \<noteq> CHR ''Q''"
    and "bytes_at (request_bytes mem ds) off bytes"
  shows "\<exists>s'. unmarshall1 bus q idx off c s = Some (Some (received c val, off + word_of_nat (length bytes)), s') \<and>
    request_in_ram bus i base M mem q idx ds s' \<and> same_device bus s s'"
proof (cases val)
  case (P9_Int v)
  have "take_bit 32 v = v" by (rule take_bit_word_eq_self) simp
  then show ?thesis using assms(2) read_number_at [OF assms(1,4)] P9_Int
    by (auto simp: marshall1_def unmarshall1_def Let_def le_word_le_bytes byte_back split: if_splits)
next
  case (P9_Long v)
  have "take_bit 64 v = v" by (rule take_bit_word_eq_self) simp
  then show ?thesis using assms(2) read_number_at [OF assms(1,4)] P9_Long
    by (auto simp: marshall1_def unmarshall1_def Let_def le_word_le_bytes split: if_splits)
next
  case (P9_String str)
  then have c: "c = CHR ''s''" "length str \<le> 65535" "bytes = le_bytes 2 (word_of_nat (length str) :: u32) @ str"
    using assms(2) by (auto simp: marshall1_def split: if_splits)
  then show ?thesis using read_string_at [OF assms(1) c(2) assms(4) [unfolded c(3)]] P9_String
    by (simp add: unmarshall1_def Let_def add.assoc)
next
  case (P9_Qid qid)
  then show ?thesis using assms(2,3) by (simp add: marshall1_def split: if_splits)
qed

lemma unmarshall_at:
  assumes "request_in_ram bus i base M mem q idx ds s" and "marshall n fmt vals = Some bytes" and "CHR ''Q'' \<notin> set fmt"
    and "bytes_at (request_bytes mem ds) off bytes"
  shows "\<exists>s'. unmarshall bus q idx off fmt s = Some (Some (all_received fmt vals, off + word_of_nat (length bytes)), s') \<and>
    request_in_ram bus i base M mem q idx ds s' \<and> same_device bus s s'"
  using assms
proof (induction fmt arbitrary: n vals bytes off s)
  case Nil
  then show ?case by (intro exI [of _ s]) simp
next
  case (Cons c fmt)
  obtain val vals' xs ys where v: "vals = val # vals'" "marshall1 c val = Some xs" "marshall (n - length xs) fmt vals' = Some ys"
    "bytes = xs @ ys"
    using Cons.prems(2) by (cases vals) (auto split: bind_splits)
  have len: "length (request_bytes mem ds) < 2 ^ 31" using Cons.prems(1) by (simp add: request_in_ram_def)
  note split = bytes_at_append [OF Cons.prems(4) [unfolded v(4)] len]
  have c: "c \<noteq> CHR ''Q''" "CHR ''Q'' \<notin> set fmt" using Cons.prems(3) by auto
  obtain t where t: "unmarshall1 bus q idx off c s = Some (Some (received c val, off + word_of_nat (length xs)), t)"
    "request_in_ram bus i base M mem q idx ds t" "same_device bus s t"
    using unmarshall1_at [OF Cons.prems(1) v(2) c(1) split(1)] by blast
  obtain s' where s': "unmarshall bus q idx (off + word_of_nat (length xs)) fmt t =
      Some (Some (all_received fmt vals', off + word_of_nat (length xs) + word_of_nat (length ys)), s')"
    "request_in_ram bus i base M mem q idx ds s'" "same_device bus t s'"
    using Cons.IH [OF t(2) v(3) c(2) split(2)] by blast
  then show ?case using t(1) v(1,4) same_device_trans [OF t(3) s'(3)] by (simp add: add.assoc)
qed

end

end
