(* ===== verification/VirtioProps.thy ===== *)
theory VirtioProps
  imports VirtioServe VirtioTyped Virtio9pMessages
begin

unbundle bit_operations_syntax

section \<open>The virtio devices of the machine are correct\<close>

text \<open>
  The memory map, the interrupt controller and the console of the machine satisfy what the queues
  need, so that the console device and the input devices are instances of \<open>request_server\<close>. The
  theorems are about an access of the guest to the registers of a device.
\<close>

subsection \<open>The machine as a bus\<close>

lemma plic_set_irq_keeps [simp]:
  "mem_map (plic_set_irq n l s) = mem_map s" "console_out (plic_set_irq n l s) = console_out s"
  "riscv_machine.more (plic_set_irq n l s) = riscv_machine.more s"
  by (simp_all add: plic_set_irq_def plic_update_mip_def riscv_cpu_set_mip_def riscv_cpu_reset_mip_def Let_def)

lemma machine_bus_simps [simp]:
  "bus_map (machine_bus env junk) = mem_map"
  "bus_junk (machine_bus env junk) = junk"
  by (simp_all add: machine_bus_def)

interpretation guest: memory_bus "machine_bus env junk" for env junk
  by unfold_locales simp_all

subsection \<open>Console\<close>

lemma total_len_reads:
  assumes "length (chain_bytes mem ds) < 2 ^ 31"
  shows "unat (total_len ds) = length (chain_bytes mem ds)"
  using assms
proof (induction ds)
  case (Cons d ds)
  then have IH: "unat (total_len ds) = length (chain_bytes mem ds)" by simp
  have "unat (vdesc_len d + total_len ds) = unat (vdesc_len d) + unat (total_len ds)"
    using Cons.prems by (simp add: unat_word_ariths IH)
  then show ?case using IH by (simp add: total_len_def)
qed (simp add: total_len_def)

lemma splice_whole: "length ys = length xs \<Longrightarrow> splice xs 0 ys = ys"
  by (simp add: splice_def)

lemma slice_whole: "slice xs 0 (length xs) = xs"
  by (simp add: slice_def)

lemma request_sizes_reads: "request_sizes ds = Some (rd, wr) \<Longrightarrow> rd = total_len (reads ds)"
  by (auto simp: request_sizes_def split: if_splits)

lemma console_request:
  fixes s :: "('z riscv_machine_scheme, 'y) virtio_device_scheme"
  assumes "guest_ram (machine_bus env junk) i base M mem (vd_world s)" and "the_queue 1 s = Some qs" and "queue_ok base M qs"
    and "request_ok base M mem qs idx ds" and "request_sizes ds = Some (rd, wr)"
  shows "\<exists>s'. virtio_console_recv_request (machine_bus env junk) console_write 1 idx rd wr s = Some (0, s') \<and>
    guest_ram (machine_bus env junk) i base M (push_used qs idx 0 mem) (vd_world s') \<and> queue s' = queue s \<and>
    riscv_machine.more (vd_world s') = riscv_machine.more (vd_world s) \<and>
    console_out (vd_world s') = console_out (vd_world s) @ chain_bytes mem (reads ds)"
proof -
  let ?bus = "machine_bus env junk" and ?B = "chain_bytes mem (reads ds)"
  have r: "chain base M mem (desc_addr qs) idx ds" "list_all (buffer_ok base M) (reads ds)" "length ?B < 2 ^ 31"
    using assms(4) by (simp_all add: request_ok_def)
  have rd: "unat rd = length ?B" using total_len_reads [OF r(3)] request_sizes_reads [OF assms(5)] by simp
  define buf where "buf = List.map junk [0..<unat rd]"
  have buf: "malloc_bytes (machine_bus env junk :: 'z riscv_machine_scheme virtio_bus) rd = Some buf" "length buf = length ?B"
    using small_nonneg [of rd] r(3) rd by (simp_all add: malloc_bytes_def buf_def)
  have lim: "base + M \<le> 2 ^ 32" using assms(3) by (simp add: queue_ok_def)
  obtain t where t: "memcpy_from_queue ?bus buf 1 idx 0 rd s = Some (0, splice buf 0 (slice ?B 0 (unat rd)), t)"
    "guest_ram ?bus i base M mem (vd_world t)" "same_device ?bus s t"
    using guest.memcpy_from_chain [OF assms(1) lim assms(2) r(1,2), of rd buf 0] r(3) rd buf(2) by auto
  have data: "splice buf 0 (slice ?B 0 (unat rd)) = ?B" by (simp add: rd slice_whole splice_whole buf(2))
  obtain m where m: "t = s\<lparr>vd_world := (vd_world s)\<lparr>mem_map := m\<rparr>\<rparr>" using t(3) by (auto simp: same_device_def)
  define u where "u = t\<lparr>vd_world := (vd_world t)\<lparr>console_out := console_out (vd_world t) @ ?B\<rparr>\<rparr>"
  have u: "guest_ram ?bus i base M mem (vd_world u)" "the_queue 1 u = Some qs"
    using t(2) assms(2) by (simp_all add: u_def guest_ram_def m the_queue_def split: if_splits)
  obtain m' s' where s': "virtio_consume_desc ?bus 1 idx 0 u = Some s'" "guest_ram ?bus i base M (push_used qs idx 0 mem) (vd_world s')"
    "s' = u\<lparr>int_status := int_status u OR 1, vd_world := plic_set_irq (vd_irq u) True ((vd_world u)\<lparr>mem_map := m'\<rparr>)\<rparr>"
    using guest.consume_ram [OF u assms(3), of idx 0] by auto
  have "virtio_console_recv_request ?bus console_write 1 idx rd wr s = Some (0, s')"
    using buf(1) t(1) s'(1) by (simp add: virtio_console_recv_request_def data console_write_def u_def)
  then show ?thesis using s'(2,3) by (simp add: u_def m)
qed

interpretation console: request_server "machine_bus env junk" "console_ops (machine_bus env junk) console_write" 1
    "\<lambda>s. riscv_machine.more (vd_world s) = rest" "\<lambda>_. True" console_out "\<lambda>bs. bs" for env junk rest
proof unfold_locales
  fix i base M mem and s :: "('a riscv_machine_scheme, 'b) virtio_device_scheme" and qs idx ds rd wr
  assume "guest_ram (machine_bus env junk) i base M mem (vd_world s)" "the_queue 1 s = Some qs" "queue_ok base M qs"
    "request_ok base M mem qs idx ds" "request_sizes ds = Some (rd, wr)"
  note r = console_request [OF this]
  assume "riscv_machine.more (vd_world s) = rest"
  then  show "\<exists>s'. device_recv (console_ops (machine_bus env junk) console_write) 1 idx rd wr s = Some (0, s') \<and>
      guest_ram (machine_bus env junk) i base M (push_used qs idx 0 mem) (vd_world s') \<and> queue s' = queue s \<and> riscv_machine.more (vd_world s') = rest \<and>
      console_out (vd_world s') = console_out (vd_world s) @ chain_bytes mem (reads ds)"
    using r by (simp add: console_ops_def)
qed simp_all

subsection \<open>Input devices\<close>

text \<open>The status updates of the keyboard are accepted and ignored.\<close>

interpretation leds: request_server "machine_bus env junk" "input_ops (machine_bus env junk)" 1
    "\<lambda>s. riscv_machine.more (vd_world s) = rest" "\<lambda>_. True" console_out "\<lambda>_. []" for env junk rest
proof unfold_locales
  fix i base M mem and s :: "('a riscv_machine_scheme, 'b) virtio_input_scheme" and qs idx ds rd wr
  assume a: "guest_ram (machine_bus env junk) i base M mem (vd_world s)" "the_queue 1 s = Some qs" "queue_ok base M qs"
  obtain m s' where "virtio_consume_desc (machine_bus env junk) 1 idx 0 s = Some s'"
    "guest_ram (machine_bus env junk) i base M (push_used qs idx 0 mem) (vd_world s')"
    "s' = s\<lparr>int_status := int_status s OR 1, vd_world := plic_set_irq (vd_irq s) True ((vd_world s)\<lparr>mem_map := m\<rparr>)\<rparr>"
    using guest.consume_ram [OF a, of idx 0] by auto
  moreover assume "riscv_machine.more (vd_world s) = rest"
  ultimately show "\<exists>s'. device_recv (input_ops (machine_bus env junk)) 1 idx rd wr s = Some (0, s') \<and>
      guest_ram (machine_bus env junk) i base M (push_used qs idx 0 mem) (vd_world s') \<and> queue s' = queue s \<and> riscv_machine.more (vd_world s') = rest \<and>
      console_out (vd_world s') = console_out (vd_world s) @ []"
    by (auto simp: input_ops_def virtio_input_recv_request_def)
qed simp_all


subsection \<open>What the guest prints\<close>

lemma with_world_simps [simp]:
  "vd_world (with_world w d) = w" "queue (with_world w d) = queue d" "int_status (with_world w d) = int_status d"
  by (simp_all add: with_world_def)

lemma the_queue_with_world [simp]: "the_queue q (with_world w d) = the_queue q d"
  by (simp add: the_queue_def)

lemma devs_more: "riscv_machine.more s = riscv_machine.more t \<Longrightarrow> virtio_devs s = virtio_devs t"
  by (cases s; cases t) simp

lemma notify_register_access:
  "virtio_mmio_write bus ops VIRTIO_MMIO_QUEUE_NOTIFY 1 2 s = queue_notify bus ops 1 s"
  by (simp add: virtio_mmio_write_def mmio_registers notify_register_def MAX_QUEUE_def)



subsection \<open>A machine with a request\<close>

text \<open>
  For the witnesses: descriptor 0 is a request of two bytes, descriptor 1 is its own successor, and
  the ring holds descriptor 0.
\<close>

definition sample_descs :: "u8 list" where
  "sample_descs = [0, 2, 0, 0x80, 0, 0, 0, 0, 2, 0, 0, 0, 0, 0, 0, 0] @ [0, 0, 0, 0, 0, 0, 0, 0, 0, 0, 0, 0, 1, 0, 1, 0]"

definition sample_at :: "nat \<Rightarrow> nat \<Rightarrow> u8" where
  "sample_at base = mem_write (mem_write (mem_write (\<lambda>_. 0) base sample_descs) (base + 0x40) [0, 0, 1, 0]) (base + 0x200) [0x48, 0x69]"

abbreviation sample_mem :: "nat \<Rightarrow> u8" where
  "sample_mem \<equiv> sample_at 0x80000000"

definition sample_queue :: queue_state where
  "sample_queue = \<lparr>ready = 1, num = 16, last_avail_idx = 0, desc_addr = 0x80000000, avail_addr = 0x80000040,
     used_addr = 0x80000080, manual_recv = False\<rparr>"

definition sample_console :: "unit virtio_device" where
  "sample_console = upd_queue 1 (\<lambda>_. sample_queue) (virtio_zero () ())"

definition sample_machine :: "vmm \<Rightarrow> unit virt_machine" where
  "sample_machine v = machine_zero (riscv_cpu_init (one_range v) ())
     \<lparr>host = (), virtio_devs = [Virtio_Console sample_console], keyboard_dev = None, mouse_dev = None, frame_buffer = None\<rparr>"

lemma sample_ram: "\<exists>v. guest_ram (hbus sample_host) 0 0x80000000 4096 sample_mem (sample_machine v)"
proof -
  obtain v where v: "flat 4096 v (\<lambda>_. 0)" using one_range_vmm by blast
  obtain v1 where v1: "flat 4096 v1 (mem_write (\<lambda>_. 0) 0 sample_descs)"
    using ram.write_law [OF v, where a = 0 and bs = sample_descs and env = sample_env] by (auto simp: sample_descs_def)
  obtain v2 where v2: "flat 4096 v2 (mem_write (mem_write (\<lambda>_. 0) 0 sample_descs) 0x40 [0, 0, 1, 0])"
    using ram.write_law [OF v1, where a = 64 and bs = "[0, 0, 1, 0]" and env = sample_env] by auto
  obtain v' where v': "flat 4096 v' (sample_at 0)"
    using ram.write_law [OF v2, where a = 512 and bs = "[0x48, 0x69]" and env = sample_env] by (auto simp: sample_at_def)
  have "(\<lambda>x. sample_mem (0x80000000 + x)) = sample_at 0"
    by (auto simp: sample_at_def mem_write_def fun_eq_iff)
  then have "guest_ram (hbus sample_host) 0 0x80000000 4096 sample_mem (sample_machine v')" using v'
    by (simp add: guest_ram_def ram_range_def sample_machine_def machine_zero_def riscv_cpu.defs riscv_cpu_init_def
        one_range_def range_at_def get_phys_mem_range_def range_zero_def size_limit_def word_le_nat_alt word_less_nat_alt Let_def)
  then show ?thesis by blast
qed

lemma sample_reads [simp]:
  "mem_bytes sample_mem 0x80000000 8 = [0, 2, 0, 0x80, 0, 0, 0, 0]" "mem_bytes sample_mem 0x80000008 4 = [2, 0, 0, 0]"
  "mem_bytes sample_mem 0x8000000C 2 = [0, 0]" "mem_bytes sample_mem 0x8000000E 2 = [0, 0]"
  "mem_bytes sample_mem 0x80000010 8 = [0, 0, 0, 0, 0, 0, 0, 0]" "mem_bytes sample_mem 0x80000018 4 = [0, 0, 0, 0]"
  "mem_bytes sample_mem 0x8000001C 2 = [1, 0]" "mem_bytes sample_mem 0x8000001E 2 = [1, 0]"
  "mem_bytes sample_mem 0x80000042 2 = [1, 0]" "mem_bytes sample_mem 0x80000044 2 = [0, 0]"
  "mem_bytes sample_mem 0x80000200 2 = [0x48, 0x69]"
  by (simp_all add: mem_bytes_def sample_at_def sample_descs_def mem_write_def upt_rec)

lemma sample_chain [simp]:
  "desc_of sample_mem 0x80000000 = \<lparr>vdesc_addr = 0x80000200, vdesc_len = 2, vdesc_flags = 0, vdesc_next = 0\<rparr>"
  "desc_of sample_mem 0x80000010 = \<lparr>vdesc_addr = 0, vdesc_len = 0, vdesc_flags = 1, vdesc_next = 1\<rparr>"
  by (simp_all add: desc_of_def)


subsection \<open>When the walk along a request ends\<close>


lemma sample_queue_console: "the_queue 1 (with_world w sample_console) = Some sample_queue"
  by (simp add: sample_console_def the_queue_def upd_queue_def virtio_zero_def MAX_QUEUE_def)



end
