(* ===== verification/Virtio9pFiles.thy ===== *)
theory Virtio9pFiles
  imports Virtio9pSpec
begin

section \<open>The files of the 9P device\<close>

text \<open>
  Every file that the file system has opened for the device is in the list of the fids, once, and
  every call of the file system is for a file that is open: none is lost, deleted twice or used after
  it has been deleted. \<open>fs_tracks\<close> is the contract of the file system, over the set \<open>opened\<close> of the
  files it has open for the device.
\<close>

subsection \<open>The contract of the file system\<close>

definition fs_tracks :: "('w \<Rightarrow> nat set) \<Rightarrow> 'w fs_device \<Rightarrow> bool" where
  "fs_tracks opened fsd \<longleftrightarrow>
     (\<forall>w w'. fs_uses fsd (opened w) w w' \<longrightarrow> opened w' = opened w) \<and>
     (\<forall>f w r w'. f \<in> opened w \<longrightarrow> fs_delete fsd f w = Some (r, w') \<longrightarrow> opened w' = opened w - {f}) \<and>
     (\<forall>uid uname aname w err f qid w'. fs_attach fsd uid uname aname w = Some ((err, f, qid), w') \<longrightarrow>
        (if err = 0 then f \<notin> opened w \<and> opened w' = insert f (opened w) else opened w' = opened w)) \<and>
     (\<forall>f names w err f' qids w'. f \<in> opened w \<longrightarrow> fs_walk fsd f names w = Some ((err, f', qids), w') \<longrightarrow>
        (if 0 \<le> err then f' \<notin> opened w \<and> opened w' = insert f' (opened w) else opened w' = opened w))"

lemma fs_tracksD:
  assumes "fs_tracks opened fsd"
  shows "fs_uses fsd (opened w) w w' \<Longrightarrow> opened w' = opened w"
    and "fs_delete fsd f w = Some (r, w') \<Longrightarrow> f \<in> opened w \<Longrightarrow> opened w' = opened w - {f}"
    and "fs_attach fsd uid uname aname w = Some ((err, f, qid), w') \<Longrightarrow>
      (if err = 0 then f \<notin> opened w \<and> opened w' = insert f (opened w) else opened w' = opened w)"
    and "fs_walk fsd f names w = Some ((err, f', qids), w') \<Longrightarrow> f \<in> opened w \<Longrightarrow>
      (if 0 \<le> err then f' \<notin> opened w \<and> opened w' = insert f' (opened w) else opened w' = opened w)"
proof -
  note t = assms [unfolded fs_tracks_def]
  show "fs_uses fsd (opened w) w w' \<Longrightarrow> opened w' = opened w" by (rule t [THEN conjunct1, rule_format])
  show "fs_delete fsd f w = Some (r, w') \<Longrightarrow> f \<in> opened w \<Longrightarrow> opened w' = opened w - {f}"
    by (rule t [THEN conjunct2, THEN conjunct1, rule_format])
  show "fs_attach fsd uid uname aname w = Some ((err, f, qid), w') \<Longrightarrow>
      (if err = 0 then f \<notin> opened w \<and> opened w' = insert f (opened w) else opened w' = opened w)"
    by (rule t [THEN conjunct2, THEN conjunct2, THEN conjunct1, THEN spec, THEN spec, THEN spec, THEN spec, THEN spec, THEN spec, THEN spec, THEN spec, THEN mp])
  show "fs_walk fsd f names w = Some ((err, f', qids), w') \<Longrightarrow> f \<in> opened w \<Longrightarrow>
      (if 0 \<le> err then f' \<notin> opened w \<and> opened w' = insert f' (opened w) else opened w' = opened w)"
    by (rule t [THEN conjunct2, THEN conjunct2, THEN conjunct2, THEN spec, THEN spec, THEN spec, THEN spec, THEN spec, THEN spec, THEN spec, THEN mp, THEN mp])
qed

definition files_ok :: "('w \<Rightarrow> nat set) \<Rightarrow> ('w, 'z) virtio_9p_scheme \<Rightarrow> bool" where
  "files_ok opened s \<longleftrightarrow> distinct (List.map fst (fid_list s)) \<and> distinct (List.map snd (fid_list s)) \<and>
     opened (vd_world s) = files s"

text \<open>The transport does not concern the files.\<close>

definition files_apart :: "('w \<Rightarrow> nat set) \<Rightarrow> 'w virtio_bus \<Rightarrow> bool" where
  "files_apart opened bus \<longleftrightarrow> (\<forall>m w. opened (bus_put_map bus m w) = opened w) \<and>
     (\<forall>n l w. opened (bus_set_irq bus n l w) = opened w)"

subsection \<open>The list of the fids\<close>

lemma drop_fid_files:
  assumes "map_of xs fid = Some old" and "distinct (List.map snd xs)"
  shows "snd ` set (drop_fid fid xs) = snd ` set xs - {old}"
  using assms by (induction xs) (auto split: if_splits dest!: map_of_SomeD intro: rev_image_eqI)

lemma drop_fid_subset: "set (drop_fid fid xs) \<subseteq> set xs"
  by (induction xs) auto

lemma drop_fid_distinct: "distinct (List.map g xs) \<Longrightarrow> distinct (List.map g (drop_fid fid xs))"
  by (induction xs) (use drop_fid_subset in fastforce)+

lemma put_fid_files:
  assumes "map_of xs fid = Some old" and "distinct (List.map snd xs)"
  shows "snd ` set (put_fid fid f xs) = insert f (snd ` set xs - {old})"
  using assms by (induction xs) (auto split: if_splits dest!: map_of_SomeD intro: rev_image_eqI)

lemma put_fid_fst [simp]: "List.map fst (put_fid fid f xs) = List.map fst xs"
  by (induction xs) auto

lemma put_fid_distinct:
  assumes "map_of xs fid = Some old" and "distinct (List.map snd xs)" and "f \<notin> snd ` set xs"
  shows "distinct (List.map snd (put_fid fid f xs))"
  using assms
proof (induction xs)
  case (Cons x xs)
  then show ?case using put_fid_files [of xs fid old f] by (auto split: if_splits)
qed simp

lemma fid_set_ok:
  assumes "fs_tracks opened fsd" and "fid_set fsd fid f (s\<lparr>vd_world := w\<rparr>) = Some s'"
    and "files_ok opened s" and "f \<notin> files s" and "opened w = insert f (files s)"
  shows "files_ok opened s'"
proof (cases "map_of (fid_list s) fid")
  case None
  then have "s' = s\<lparr>vd_world := w, fid_list := (fid, f) # fid_list s\<rparr>" using assms(2) by (simp add: fid_set_def fid_find_def)
  then show ?thesis using assms(3-5) None by (auto simp: files_ok_def files_def map_of_eq_None_iff)
next
  case (Some old)
  then obtain w' where w': "fs_delete fsd old w = Some ((), w')" "s' = s\<lparr>vd_world := w', fid_list := put_fid fid f (fid_list s)\<rparr>"
    using assms(2) by (auto simp: fid_set_def fid_find_def elim!: call_fs_elim split: bind_splits)
  have old: "old \<in> files s" "f \<noteq> old" using Some assms(4) by (force simp: files_def dest: map_of_SomeD)+
  then have "old \<in> opened w" using assms(5) by simp
  then have "opened w' = opened w - {old}" using assms(1) w'(1) unfolding fs_tracks_def by blast
  then show ?thesis using w'(2) assms(3-5) old Some put_fid_files [OF Some, of f] put_fid_distinct [OF Some, of f]
    by (auto simp: files_ok_def files_def)
qed

lemma fid_delete_ok:
  assumes "fs_tracks opened fsd" and "fid_delete fsd fid s = Some s'" and "files_ok opened s"
  shows "files_ok opened s'"
proof (cases "map_of (fid_list s) fid")
  case None
  then show ?thesis using assms(2,3) by (simp add: fid_delete_def fid_find_def)
next
  case (Some old)
  then obtain w' where w': "fs_delete fsd old (vd_world s) = Some ((), w')" "s' = s\<lparr>vd_world := w', fid_list := drop_fid fid (fid_list s)\<rparr>"
    using assms(2) by (auto simp: fid_delete_def fid_find_def elim!: call_fs_elim split: bind_splits)
  have "old \<in> opened (vd_world s)" using Some assms(3) by (force simp: files_ok_def files_def dest: map_of_SomeD)
  then have "opened w' = opened (vd_world s) - {old}" using assms(1) w'(1) unfolding fs_tracks_def by blast
  then show ?thesis using w'(2) assms(3) drop_fid_files [OF Some] by (simp add: files_ok_def files_def drop_fid_distinct)
qed

subsection \<open>The invariant\<close>

lemma files_ok_updates [simp]:
  "files_ok opened (s\<lparr>int_status := x\<rparr>) = files_ok opened s" "files_ok opened (next_avail q s) = files_ok opened s"
  "files_ok opened (s\<lparr>msize := y\<rparr>) = files_ok opened s"
  "files_ok opened (s\<lparr>p9_in_progress := b, open_info := oi\<rparr>) = files_ok opened s"
  by (simp_all add: files_ok_def files_def next_avail_def upd_queue_def)

lemma files_ok_world: "opened w = opened (vd_world s) \<Longrightarrow> files_ok opened (s\<lparr>vd_world := w\<rparr>) = files_ok opened s"
  by (simp add: files_ok_def files_def)

lemma files_invariant:
  assumes "fs_tracks opened fsd" and "files_apart opened bus"
  shows "p9_invariant bus (files_ok opened) fsd"
proof unfold_locales
  note t = assms(1) [unfolded fs_tracks_def] and a = assms(2) [unfolded files_apart_def]
  show "files_ok opened (put_guest_range bus i pr v s)" "files_ok opened (virtio_set_irq bus l s)" if "files_ok opened s" for s i pr v l
    using that a by (simp_all add: put_guest_range_def virtio_set_irq_def files_ok_world)
  show "files_ok opened (s\<lparr>vd_world := w\<rparr>)" if "files_ok opened s" "fs_uses fsd (files s) (vd_world s) w" for s w
    using that t by (metis files_ok_def files_ok_world)
  show "files_ok opened (s\<lparr>vd_world := w\<rparr>)"
    if "files_ok opened s" "fs_attach fsd uid un an (vd_world s) = Some ((err, f, qid), w)" "err \<noteq> 0" for s w uid un an err f qid
    using that t by (metis files_ok_world)
  show "files_ok opened s'"
    if "files_ok opened s" "fs_attach fsd uid un an (vd_world s) = Some ((0, f, qid), w)" "fid_set fsd fid f (s\<lparr>vd_world := w\<rparr>) = Some s'"
    for s s' w uid un an f qid fid
    using that t fid_set_ok [OF assms(1) that(3,1)] by (metis files_ok_def)
  show "files_ok opened (s\<lparr>vd_world := w\<rparr>)"
    if "files_ok opened s" "f \<in> files s" "fs_walk fsd f names (vd_world s) = Some ((err, f', qids), w)" "err < 0" for s w f names err f' qids
    using that t by (metis files_ok_def files_ok_world not_less)
  show "files_ok opened s'"
    if "files_ok opened s" "f \<in> files s" "fs_walk fsd f names (vd_world s) = Some ((err, f', qids), w)" "0 \<le> err"
      "fid_set fsd fid f' (s\<lparr>vd_world := w\<rparr>) = Some s'" for s s' w f names err f' qids fid
    using that t fid_set_ok [OF assms(1) that(5,1)] by (metis files_ok_def)
  show "files_ok opened s'" if "files_ok opened s" "fid_delete fsd fid s = Some s'" for s s' fid
    using fid_delete_ok [OF assms(1) that(2,1)] .
qed simp_all

subsection \<open>Calls on open files only\<close>

text \<open>The file system that does not answer a call for a file that is not open.\<close>

definition only_for :: "('w \<Rightarrow> nat set) \<Rightarrow> nat \<Rightarrow> ('w \<Rightarrow> 'a option) \<Rightarrow> 'w \<Rightarrow> 'a option" where
  "only_for opened f g w = (if f \<in> opened w then g w else None)"

definition strict_fs :: "('w \<Rightarrow> nat set) \<Rightarrow> 'w fs_device \<Rightarrow> 'w fs_device" where
  "strict_fs opened fsd =
     \<lparr>fs_delete = (\<lambda>f. only_for opened f (fs_delete fsd f)),
      fs_statfs = fs_statfs fsd,
      fs_attach = fs_attach fsd,
      fs_walk = (\<lambda>f names. only_for opened f (fs_walk fsd f names)),
      fs_mkdir = (\<lambda>f name mode gid. only_for opened f (fs_mkdir fsd f name mode gid)),
      fs_open = (\<lambda>f flags. only_for opened f (fs_open fsd f flags)),
      fs_create = (\<lambda>f name flags mode gid. only_for opened f (fs_create fsd f name flags mode gid)),
      fs_getattr = (\<lambda>f. only_for opened f (fs_getattr fsd f)),
      fs_setattr = (\<lambda>f bits mode uid gid len asec ansec msec mnsec.
        only_for opened f (fs_setattr fsd f bits mode uid gid len asec ansec msec mnsec)),
      fs_readdir = (\<lambda>f offs count. only_for opened f (fs_readdir fsd f offs count)),
      fs_read = (\<lambda>f offs count. only_for opened f (fs_read fsd f offs count)),
      fs_write = (\<lambda>f offs buf count. only_for opened f (fs_write fsd f offs buf count)),
      fs_link = (\<lambda>df f name. only_for opened df (only_for opened f (fs_link fsd df f name))),
      fs_symlink = (\<lambda>f name target gid. only_for opened f (fs_symlink fsd f name target gid)),
      fs_mknod = (\<lambda>f name mode major minor gid. only_for opened f (fs_mknod fsd f name mode major minor gid)),
      fs_readlink = (\<lambda>f. only_for opened f (fs_readlink fsd f)),
      fs_renameat = (\<lambda>f name new_f new_name. only_for opened f (only_for opened new_f (fs_renameat fsd f name new_f new_name))),
      fs_unlinkat = (\<lambda>f name. only_for opened f (fs_unlinkat fsd f name)),
      fs_lock_file = (\<lambda>f lock. only_for opened f (fs_lock_file fsd f lock)),
      fs_getlock = (\<lambda>f lock. only_for opened f (fs_getlock fsd f lock))\<rparr>"

lemma call_only_for [simp]: "f \<in> opened (vd_world s) \<Longrightarrow> call_fs (only_for opened f g) s = call_fs g s"
  by (simp add: call_fs_def only_for_def)

lemma with_file_strict:
  assumes "files_ok opened s" and "\<And>f. f \<in> opened (vd_world s) \<Longrightarrow> k f s = k' f s"
  shows "with_file fid k s = with_file fid k' s"
  using assms by (auto simp: with_file_def files_ok_def dest: fid_find_files split: option.splits)

lemma strict_branches:
  fixes s :: "('w, 'z) virtio_9p_scheme"
  assumes "files_ok opened s"
  shows "p9_statfs (strict_fs opened fsd) s = p9_statfs fsd s"
    "p9_lcreate (strict_fs opened fsd) vals s = p9_lcreate fsd vals s"
    "p9_symlink (strict_fs opened fsd) vals s = p9_symlink fsd vals s"
    "p9_mknod (strict_fs opened fsd) vals s = p9_mknod fsd vals s"
    "p9_readlink (strict_fs opened fsd) vals s = p9_readlink fsd vals s"
    "p9_getattr (strict_fs opened fsd) vals s = p9_getattr fsd vals s"
    "p9_setattr (strict_fs opened fsd) vals s = p9_setattr fsd vals s"
    "p9_lock (strict_fs opened fsd) vals s = p9_lock fsd vals s"
    "p9_getlock bus (strict_fs opened fsd) vals s = p9_getlock bus fsd vals s"
    "p9_link (strict_fs opened fsd) vals s = p9_link fsd vals s"
    "p9_mkdir (strict_fs opened fsd) vals s = p9_mkdir fsd vals s"
    "p9_renameat (strict_fs opened fsd) vals s = p9_renameat fsd vals s"
    "p9_unlinkat (strict_fs opened fsd) vals s = p9_unlinkat fsd vals s"
    "p9_data bus (fs_readdir (strict_fs opened fsd)) vals s = p9_data bus (fs_readdir fsd) vals s"
    "p9_data bus (fs_read (strict_fs opened fsd)) vals s = p9_data bus (fs_read fsd) vals s"
    "p9_lopen bus (strict_fs opened fsd) q i tag vals s = p9_lopen bus fsd q i tag vals s"
  unfolding branch_defs p9_lopen_def
  by ((intro with_file_strict [OF assms])?, simp add: strict_fs_def Let_def)+

lemma fid_strict:
  assumes "files s \<subseteq> opened (vd_world s)"
  shows "fid_set (strict_fs opened fsd) fid f s = fid_set fsd fid f s"
    and "fid_delete (strict_fs opened fsd) fid s = fid_delete fsd fid s"
  using assms by (auto simp: fid_set_def fid_delete_def strict_fs_def dest!: fid_find_files split: option.splits)

lemma attach_strict:
  assumes "fs_tracks opened fsd" and "files_ok opened s"
  shows "p9_attach (strict_fs opened fsd) vals s = p9_attach fsd vals s"
proof (cases "call_fs (fs_attach fsd (int_arg vals 4) (string_arg vals 2) (string_arg vals 3)) s")
  case None
  then show ?thesis by (simp add: p9_attach_def strict_fs_def)
next
  case (Some r)
  then obtain err f qid w where w: "fs_attach fsd (int_arg vals 4) (string_arg vals 2) (string_arg vals 3) (vd_world s) = Some ((err, f, qid), w)"
    "r = ((err, f, qid), s\<lparr>vd_world := w\<rparr>)"
    by (cases r) (auto elim!: call_fs_elim)
  have "files s \<subseteq> opened w"
    using assms w(1) unfolding fs_tracks_def files_ok_def by (metis subset_insertI order_refl)
  then have "fid_set (strict_fs opened fsd) fid f (s\<lparr>vd_world := w\<rparr>) = fid_set fsd fid f (s\<lparr>vd_world := w\<rparr>)" for fid
    by (intro fid_strict) (simp add: files_def)
  then show ?thesis using Some w(2) by (simp add: p9_attach_def strict_fs_def)
qed

context p9_invariant
begin

lemma args_same:
  assumes "P s" and "\<And>vals off s. P s \<Longrightarrow> k' vals off s = k vals off s"
  shows "with_args bus q i off fmt k' s = with_args bus q i off fmt k s"
proof (cases "unmarshall bus q i off fmt s")
  case (Some r)
  obtain a t where r: "r = (a, t)" by (cases r)
  have "P t" using reading_keeps(2) [OF Some [unfolded r] assms(1)] .
  then show ?thesis using assms(2) Some r by (cases a) (auto simp: with_args_def)
qed (simp add: with_args_def)

end

lemma opened_file: "files_ok opened s \<Longrightarrow> files s = opened (vd_world s)"
  by (simp add: files_ok_def)

lemma write_strict:
  fixes s :: "('w, 'z) virtio_9p_scheme"
  assumes "fs_tracks opened fsd" and "files_apart opened bus" and "files_ok opened s"
  shows "p9_write bus (strict_fs opened fsd) q i vals off s = p9_write bus fsd q i vals off s"
  unfolding p9_write_def Let_def
proof (intro with_file_strict [OF assms(3)])
  fix f assume f: "f \<in> opened (vd_world s)"
  let ?read = "memcpy_from_queue bus (List.map (bus_junk bus) [0..<unat (int_arg vals 2)]) q i off (int_arg vals 2) s"
  have "p9_write_data (strict_fs opened fsd) f offs count (ret, buf, t) = p9_write_data fsd f offs count (ret, buf, t)"
    if "?read = Some (ret, buf, t)" for offs count ret buf t
    using p9_invariant.reading_keeps(1) [OF files_invariant [OF assms(1,2)] that assms(3)] queue_files(1) [OF that] assms(3) f
    by (simp add: files_ok_def p9_write_data_def strict_fs_def)
  then show "?read \<bind> p9_write_data (strict_fs opened fsd) f (long_arg vals 1) (int_arg vals 2) =
      ?read \<bind> p9_write_data fsd f (long_arg vals 1) (int_arg vals 2)"
    by (cases ?read) auto
qed

lemma p9_walk_to_strict:
  assumes "fs_tracks opened fsd" and "files_ok opened s" and "f \<in> files s"
  shows "p9_walk_to (strict_fs opened fsd) newfid f (names, s) = p9_walk_to fsd newfid f (names, s)"
proof (cases names)
  case (Some ns)
  have o: "files s = opened (vd_world s)" using assms(2) by (simp add: files_ok_def)
  have "fid_set (strict_fs opened fsd) newfid f' (s\<lparr>vd_world := w\<rparr>) = fid_set fsd newfid f' (s\<lparr>vd_world := w\<rparr>)"
    if "fs_walk fsd f ns (vd_world s) = Some ((err, f', qids), w)" for err f' qids w
  proof -
    have "opened (vd_world s) \<subseteq> opened w" using assms(1,3) that unfolding fs_tracks_def o by (metis subset_insertI order_refl)
    then show ?thesis using o by (intro fid_strict) (simp add: files_def)
  qed
  moreover have "call_fs (fs_walk (strict_fs opened fsd) f ns) s = call_fs (fs_walk fsd f ns) s"
    using assms(3) o by (simp add: strict_fs_def)
  ultimately show ?thesis using Some
    by (cases "call_fs (fs_walk fsd f ns) s") (auto simp: p9_walk_to_def elim!: call_fs_elim)
qed (simp add: p9_walk_to_def)

lemma walk_strict:
  fixes s :: "('w, 'z) virtio_9p_scheme"
  assumes "fs_tracks opened fsd" and "files_apart opened bus" and "files_ok opened s"
  shows "p9_walk bus (strict_fs opened fsd) q i vals off s = p9_walk bus fsd q i vals off s"
  unfolding p9_walk_def
proof (intro with_file_strict [OF assms(3)])
  fix f assume f: "f \<in> opened (vd_world s)"
  let ?read = "walk_names bus q i off (unat (int_arg vals 2)) s"
  have "p9_walk_to (strict_fs opened fsd) (int_arg vals 1) f (names, t) = p9_walk_to fsd (int_arg vals 1) f (names, t)"
    if "?read = Some (names, t)" for names t
    using p9_invariant.reading_keeps(3) [OF files_invariant [OF assms(1,2)] that assms(3)] queue_files(2) [OF that] assms(3) f
    by (intro p9_walk_to_strict [OF assms(1)]) (simp_all add: files_ok_def)
  then show "?read \<bind> p9_walk_to (strict_fs opened fsd) (int_arg vals 1) f = ?read \<bind> p9_walk_to fsd (int_arg vals 1) f"
    by (cases ?read) auto
qed

text \<open>All requests.\<close>

definition same_on :: "('s \<Rightarrow> bool) \<Rightarrow> ('s \<Rightarrow> 'r) \<Rightarrow> ('s \<Rightarrow> 'r) \<Rightarrow> bool" where
  "same_on P k' k \<longleftrightarrow> (\<forall>s. P s \<longrightarrow> k' s = k s)"

lemma same_on_intros:
  "same_on P k k" "same_on P a' a \<Longrightarrow> same_on P b' b \<Longrightarrow> same_on P (if c then a' else b') (if c then a else b)"
  by (simp_all add: same_on_def)

lemma same_on_args:
  fixes k :: "p9_value list \<Rightarrow> u32 \<Rightarrow> ('w, 'z) virtio_9p_scheme \<Rightarrow> (p9_outcome \<times> ('w, 'z) virtio_9p_scheme) option"
  assumes "fs_tracks opened fsd" and "files_apart opened bus" and "\<And>vals off. same_on (files_ok opened) (k' vals off) (k vals off)"
  shows "same_on (files_ok opened) (with_args bus q i off fmt k') (with_args bus q i off fmt k)"
  unfolding same_on_def
  by (intro allI impI p9_invariant.args_same [OF files_invariant [OF assms(1,2)]])
    (use assms(3) in \<open>auto simp: same_on_def\<close>)

lemma clunk_strict:
  "files_ok opened s \<Longrightarrow> p9_clunk (strict_fs opened fsd) vals s = p9_clunk fsd vals s"
  by (simp add: p9_clunk_def fid_strict files_ok_def)

lemma request_strict:
  assumes "fs_tracks opened fsd" and "files_apart opened bus"
  shows "same_on (files_ok opened) (p9_request bus (strict_fs opened fsd) q i op tag) (p9_request bus fsd q i op tag)"
  unfolding p9_request_def Let_def
  by (intro same_on_intros same_on_args [OF assms])
    (auto simp: same_on_def strict_branches attach_strict [OF assms(1)] clunk_strict walk_strict [OF assms] write_strict [OF assms])

lemma recv_strict:
  fixes s :: "('w, 'z) virtio_9p_scheme"
  assumes "fs_tracks opened fsd" and "files_apart opened bus" and "files_ok opened s"
  shows "virtio_9p_recv_request bus (strict_fs opened fsd) q i rd wr s = virtio_9p_recv_request bus fsd q i rd wr s"
proof (cases "memcpy_from_queue bus (replicate 7 0) q i 0 7 s")
  case (Some r)
  obtain ret buf t where r: "r = (ret, buf, t)" by (cases r)
  have "files_ok opened t"
    using p9_invariant.reading_keeps(1) [OF files_invariant [OF assms(1,2)] Some [unfolded r] assms(3)] .
  then have "p9_request bus (strict_fs opened fsd) q i op tag t = p9_request bus fsd q i op tag t" for op tag
    by (rule request_strict [OF assms(1,2), unfolded same_on_def, rule_format])
  then show ?thesis using Some r by (auto simp: virtio_9p_recv_request_def Let_def)
qed (auto simp: virtio_9p_recv_request_def)

lemma strict_agrees:
  assumes "fs_tracks opened fsd" and "files_apart opened bus"
  shows "agree (files_ok opened) (p9_ops bus fsd) (p9_ops bus (strict_fs opened fsd))"
  by (simp add: agree_def p9_ops_def recv_strict [OF assms])

subsection \<open>Histories of a device\<close>

text \<open>The guest writes a register or its memory, or the file system has completed an open.\<close>

datatype p9_event = P9_Register u32 u32 nat | P9_Memory phys_mem_map | P9_Opened fs_qid int

fun p9_step :: "'w virtio_bus \<Rightarrow> 'w fs_device \<Rightarrow> p9_event \<Rightarrow> ('w, 'z) virtio_9p_scheme \<Rightarrow> ('w, 'z) virtio_9p_scheme option" where
  "p9_step bus fsd (P9_Register off val sz) s = virtio_mmio_write bus (p9_ops bus fsd) off val sz s"
| "p9_step bus fsd (P9_Memory m) s = Some (s\<lparr>vd_world := bus_put_map bus m (vd_world s)\<rparr>)"
| "p9_step bus fsd (P9_Opened qid err) s = virtio_9p_open_cb bus fsd qid err s"

fun p9_run :: "'w virtio_bus \<Rightarrow> 'w fs_device \<Rightarrow> p9_event list \<Rightarrow> ('w, 'z) virtio_9p_scheme \<Rightarrow> ('w, 'z) virtio_9p_scheme option" where
  "p9_run bus fsd [] s = Some s"
| "p9_run bus fsd (ev # evs) s = p9_step bus fsd ev s \<bind> p9_run bus fsd evs"

text \<open>The registers other than the notification leave the files alone.\<close>

lemma register_files:
  assumes "virtio_mmio_write bus ops off val sz s = Some s'" and "files_apart opened bus" and "files_ok opened s"
    and "config_write ops = Some" and "\<And>q t. queue_notify bus ops q s = Some t \<Longrightarrow> files_ok opened t"
  shows "files_ok opened s'"
proof -
  have q [simp]: "files_ok opened (upd_queue i f t) = files_ok opened t" for i f t by (simp add: upd_queue_def files_ok_def files_def)
  have irq [simp]: "files_ok opened (virtio_set_irq bus l t) = files_ok opened t" for l t
    using assms(2) by (simp add: virtio_set_irq_def files_apart_def files_ok_world)
  have [simp]: "files_ok opened (t\<lparr>vd_status := x\<rparr>) = files_ok opened t" "files_ok opened (t\<lparr>queue_sel := x\<rparr>) = files_ok opened t"
    "files_ok opened (t\<lparr>device_features_sel := x\<rparr>) = files_ok opened t" "files_ok opened (t\<lparr>config_space := c\<rparr>) = files_ok opened t"
    "files_ok opened (virtio_reset t) = files_ok opened t" for t x c
    by (simp_all add: files_ok_def files_def virtio_reset_def)
  have sel: "files_ok opened t'" if "upd_selected f t = Some t'" "files_ok opened t" for f t t'
    using that by (auto simp: upd_selected_def split: bind_splits)
  show ?thesis
    using assms(1,3-5) unfolding virtio_mmio_write_def
    by (auto simp: Let_def virtio_config_write_def put_config_def select_queue_def set_status_def set_queue_num_def notify_register_def
        elim!: sel split: if_splits bind_splits)
qed

lemma step_files_ok:
  assumes "fs_tracks opened fsd" and "files_apart opened bus" and "p9_step bus fsd ev s = Some s'" and "files_ok opened s"
  shows "files_ok opened s'"
proof (cases ev)
  case (P9_Register off val sz)
  have "files_ok opened t" if "queue_notify bus (p9_ops bus fsd) q s = Some t" for q t
    using p9_invariant.p9_notify_keeps [OF files_invariant [OF assms(1,2)] that assms(4)] .
  then show ?thesis using register_files [OF _ assms(2,4), of "p9_ops bus fsd" off val sz s'] assms(3) P9_Register by (simp add: p9_ops_def)
next
  case (P9_Opened qid err)
  then show ?thesis using p9_invariant.open_cb_keeps [OF files_invariant [OF assms(1,2)]] assms(3,4) by simp
qed (use assms in \<open>auto simp: files_apart_def files_ok_world\<close>)

lemma if_Some:
  "(if c then a else b) = Some x \<Longrightarrow> (a = Some x \<Longrightarrow> a' = Some x) \<Longrightarrow> (b = Some x \<Longrightarrow> b' = Some x) \<Longrightarrow>
     (if c then a' else b') = Some x"
  by (simp split: if_splits)

lemma register_agree:
  assumes "virtio_mmio_write bus ops off val sz s = Some s'" and "config_write ops' = config_write ops"
    and "\<And>q t. queue_notify bus ops q s = Some t \<Longrightarrow> queue_notify bus ops' q s = Some t"
  shows "virtio_mmio_write bus ops' off val sz s = Some s'"
proof -
  have n: "notify_register bus ops' val s = Some t" if "notify_register bus ops val s = Some t" for t
    using that assms(3) by (simp add: notify_register_def split: if_splits)
  have c: "virtio_config_write ops' = virtio_config_write ops"
    by (simp add: fun_eq_iff virtio_config_write_def put_config_def assms(2))
  show ?thesis by (insert assms(1), unfold virtio_mmio_write_def c) (assumption | erule if_Some | erule n)+
qed

lemma step_strict:
  assumes "fs_tracks opened fsd" and "files_apart opened bus" and "p9_step bus fsd ev s = Some s'" and "files_ok opened s"
  shows "p9_step bus (strict_fs opened fsd) ev s = Some s'"
proof (cases ev)
  case (P9_Register off val sz)
  have "queue_notify bus (p9_ops bus (strict_fs opened fsd)) q s = Some t" if "queue_notify bus (p9_ops bus fsd) q s = Some t" for q t
    using p9_invariant.p9_notify_agree [OF files_invariant [OF assms(1,2)] strict_agrees [OF assms(1,2)] that assms(4)] .
  moreover have "config_write (p9_ops bus (strict_fs opened fsd)) = config_write (p9_ops bus fsd)" by (simp add: p9_ops_def)
  moreover have "virtio_mmio_write bus (p9_ops bus fsd) off val sz s = Some s'" using assms(3) P9_Register by simp
  ultimately have "virtio_mmio_write bus (p9_ops bus (strict_fs opened fsd)) off val sz s = Some s'" by (blast intro: register_agree)
  then show ?thesis using P9_Register by simp
next
  case (P9_Opened qid err)
  then obtain oi t where t: "open_info s = Some oi" "virtio_9p_open_reply bus qid err oi s = Some t"
    "queue_notify bus (p9_ops bus fsd) (fst oi) (t\<lparr>p9_in_progress := False, open_info := None\<rparr>) = Some s'"
    using assms(3) by (auto simp: virtio_9p_open_cb_def Let_def split: bind_splits)
  have "files_ok opened t" using p9_invariant.open_reply_keeps [OF files_invariant [OF assms(1,2)] t(2) assms(4)] .
  then have "files_ok opened (t\<lparr>p9_in_progress := False, open_info := None\<rparr>)" by simp
  then show ?thesis
    using p9_invariant.p9_notify_agree [OF files_invariant [OF assms(1,2)] strict_agrees [OF assms(1,2)] t(3)] t(1,2) P9_Opened
    by (simp add: virtio_9p_open_cb_def)
qed (use assms in simp)

lemma run_files:
  assumes "fs_tracks opened fsd" and "files_apart opened bus" and "p9_run bus fsd evs s = Some s'" and "files_ok opened s"
  shows "files_ok opened s' \<and> p9_run bus (strict_fs opened fsd) evs s = Some s'"
  using assms(3,4)
proof (induction evs arbitrary: s)
  case (Cons ev evs)
  then obtain t where t: "p9_step bus fsd ev s = Some t" "p9_run bus fsd evs t = Some s'" by (auto split: bind_splits)
  show ?case
    using Cons.IH [OF t(2) step_files_ok [OF assms(1,2) t(1) Cons.prems(2)]] step_strict [OF assms(1,2) t(1) Cons.prems(2)] by simp
qed simp

lemma init_files:
  assumes "virtio_9p_init bus tag addr irq opaque w = Some s" and "files_apart opened bus" and "opened w = {}"
  shows "files_ok opened s"
  using assms by (auto simp: virtio_9p_init_def virtio_init_def virtio_zero_def virtio_reset_def Let_def files_ok_def files_def
      files_apart_def split: bind_splits)

end
