(* ===== verification/Virtio9pProps.thy ===== *)
theory Virtio9pProps
  imports VirtioProps Virtio9pFiles
begin

unbundle bit_operations_syntax

section \<open>The 9P device of the machine\<close>

text \<open>
  The memory of the machine is the memory of the messages, and the file systems of the host are those
  of the machine, so that the results on messages and files hold for the machine.
\<close>

text \<open>C38: A message that a guest has composed from numbers and strings, wherever its descriptors split it, is
  read back by the device as composed: each number up to the width of its field, each string up to its
  first zero byte, and the position after it. Reading changes nothing but the caches of the memory.\<close>

theorem p9_message_roundtrip:
  assumes "guest_ram (machine_bus env junk) i base M mem (vd_world s)" and "base + M \<le> 2 ^ 32" and "the_queue q s = Some qs"
    and "chain base M mem (desc_addr qs) idx ds" and "list_all (buffer_ok base M) (reads ds)"
    and "length (chain_bytes mem (reads ds)) < 2 ^ 31"
    and "marshall n fmt vals = Some bytes" and "CHR ''Q'' \<notin> set fmt"
    and "unat off + length bytes \<le> length (chain_bytes mem (reads ds))"
    and "slice (chain_bytes mem (reads ds)) (unat off) (length bytes) = bytes"
  shows "\<exists>s'. unmarshall (machine_bus env junk) q idx off fmt s =
      Some (Some (all_received fmt vals, off + word_of_nat (length bytes)), s') \<and>
    guest_ram (machine_bus env junk) i base M mem (vd_world s') \<and> same_device (machine_bus env junk) s s'"
proof -
  have "request_in_ram (machine_bus env junk) i base M mem q idx ds s" "bytes_at (chain_bytes mem (reads ds)) off bytes"
    using assms by (auto simp: request_in_ram_def bytes_at_def)
  then show ?thesis using guest.unmarshall_at assms(7,8) by (fastforce simp: request_in_ram_def)
qed

lemma p9_message_roundtrip_witness:
  "\<exists>(s :: unit virt_machine virtio_device) s'.
    unmarshall (hbus sample_host) 1 0 0 ''h'' s = Some (Some ([P9_Int 0x6948], 2), s')"
proof -
  obtain v where v: "guest_ram (hbus sample_host) 0 0x80000000 4096 sample_mem (sample_machine v)" using sample_ram by blast
  let ?s = "with_world (sample_machine v) sample_console"
  have g: "guest_ram (hbus sample_host) 0 0x80000000 4096 sample_mem (vd_world ?s)" using v by simp
  let ?d = "\<lparr>vdesc_addr = 0x80000200, vdesc_len = 2, vdesc_flags = 0, vdesc_next = 0\<rparr>"
  have c: "chain 0x80000000 4096 sample_mem (desc_addr sample_queue) 0 [?d]"
    by (simp add: sample_queue_def desc_pos_def in_ram_def has_next_def)
  have r: "chain_bytes sample_mem (reads [?d]) = [0x48, 0x69]" by (simp add: is_write_def desc_bytes_def)
  have m: "marshall 2 ''h'' [P9_Int 0x6948] = Some [0x48, 0x69]" by code_simp
  have "list_all (buffer_ok 0x80000000 4096) (reads [?d])" by (simp add: is_write_def buffer_ok_def in_ram_def)
  then show ?thesis
    using p9_message_roundtrip [OF g _ sample_queue_console c _ _ m, of 0] r by (simp add: slice_def) blast
qed

subsection \<open>Open files\<close>

lemma host_updates [simp]: "host (plic_set_irq n l s) = host s"
  by (simp add: plic_set_irq_def plic_update_mip_def riscv_cpu_set_mip_def riscv_cpu_reset_mip_def Let_def)

lemma machine_files_apart: "files_apart (\<lambda>s. opened (host s)) (machine_bus env junk)"
  by (simp add: files_apart_def)

lemma machine_fs_calls:
  "fs_delete (machine_fs hops i) f = in_host (fs_delete (file_system hops i) f)"
  "fs_attach (machine_fs hops i) uid uname aname = in_host (fs_attach (file_system hops i) uid uname aname)"
  "fs_walk (machine_fs hops i) f names = in_host (fs_walk (file_system hops i) f names)"
  by (simp_all add: machine_fs_def Let_def)

lemma machine_fs_tracks:
  assumes "fs_tracks opened (file_system hops i)"
  shows "fs_tracks (\<lambda>s. opened (host s)) (machine_fs hops i)"
  unfolding fs_tracks_def machine_fs_calls
proof (intro conjI allI impI)
  note t = fs_tracksD [OF assms]
  show "opened (host w') = opened (host w)" if "fs_uses (machine_fs hops i) (opened (host w)) w w'" for w w'
    using machine_fs_uses [OF that] t(1) by auto
  show "opened (host w') = opened (host w) - {f}"
    if "f \<in> opened (host w)" "in_host (fs_delete (file_system hops i) f) w = Some (r, w')" for f w r w'
    using that(2) t(2) [OF _ that(1)] by (elim in_host_elim) simp
  show "if err = 0 then f \<notin> opened (host w) \<and> opened (host w') = insert f (opened (host w)) else opened (host w') = opened (host w)"
    if "in_host (fs_attach (file_system hops i) uid uname aname) w = Some ((err, f, qid), w')" for uid uname aname w err f qid w'
    using that t(3) by (elim in_host_elim) simp
  show "if 0 \<le> err then f' \<notin> opened (host w) \<and> opened (host w') = insert f' (opened (host w)) else opened (host w') = opened (host w)"
    if "f \<in> opened (host w)" "in_host (fs_walk (file_system hops i) f names) w = Some ((err, f', qids), w')" for f names w err f' qids w'
    using that(2) t(4) [OF _ that(1)] by (elim in_host_elim) simp
qed

text \<open>C39: With a file system that keeps its contract, the 9P device neither loses a file nor uses one that is
  not open: from its creation on, after every history of register writes, changes of the memory of the
  guest and completed opens, the files that are open are exactly those of the list of fids, each of
  them once, and the history is the same with a file system that refuses every call for a file that
  is not open.\<close>

theorem p9_files_tracked:
  assumes "fs_tracks opened (file_system hops i)"
  shows "(virtio_9p_init (hbus hops) tag addr irq n s = Some d\<^sub>0 \<longrightarrow> opened (host s) = {} \<longrightarrow> files_ok (\<lambda>s. opened (host s)) d\<^sub>0) \<and>
    (files_ok (\<lambda>s. opened (host s)) d \<longrightarrow> p9_run (hbus hops) (machine_fs hops i) evs d = Some d' \<longrightarrow>
      files_ok (\<lambda>s. opened (host s)) d' \<and>
      p9_run (hbus hops) (strict_fs (\<lambda>s. opened (host s)) (machine_fs hops i)) evs d = Some d')"
  using init_files [OF _ machine_files_apart] run_files [OF machine_fs_tracks [OF assms] machine_files_apart] by blast

text \<open>A file system with one file, which can be opened once; its state is the set of the open files.\<close>

definition one_file_fs :: "nat set fs_device" where
  "one_file_fs = no_fs
     \<lparr>fs_attach := (\<lambda>_ _ _ w. Some ((if 0 \<in> w then - 5 else 0, 0, \<lparr>qid_type = 0, qid_version = 0, qid_path = 0\<rparr>), insert 0 w)),
      fs_delete := (\<lambda>f w. Some ((), w - {f}))\<rparr>"

definition one_file_host :: "nat set host_ops" where
  "one_file_host = \<lparr>host_alloc = sample_env, host_junk = (\<lambda>_. 0), send_packet = (\<lambda>_ _ h. Some h),
     disk = (\<lambda>_. \<lparr>get_sector_count = (\<lambda>_. 0), read_async = (\<lambda>_ _ _. None), write_async = (\<lambda>_ _ _ _. None)\<rparr>),
     file_system = (\<lambda>_. one_file_fs)\<rparr>"

definition one_file_machine :: "nat set virt_machine" where
  "one_file_machine = machine_zero (riscv_cpu_init phys_mem_map_init ())
     \<lparr>host = {0}, virtio_devs = [], keyboard_dev = None, mouse_dev = None, frame_buffer = None\<rparr>"

definition one_file_device :: "nat set virt_machine virtio_9p" where
  "one_file_device = virtio_zero one_file_machine \<lparr>msize = 8192, fid_list = [(7, 0)], p9_in_progress = False, open_info = None\<rparr>"

lemma one_file_tracks: "fs_tracks (\<lambda>w. w) (file_system one_file_host 0)"
proof -
  have "\<not> fs_uses one_file_fs F w w'" for F w w'
    by (auto simp: one_file_fs_def no_fs_def elim: fs_uses.cases)
  then show ?thesis by (auto simp: fs_tracks_def one_file_host_def) (auto simp: one_file_fs_def no_fs_def split: if_splits)
qed

lemma p9_files_tracked_witness:
  "\<exists>d'. p9_run (hbus one_file_host) (machine_fs one_file_host 0)
      [P9_Register VIRTIO_MMIO_QUEUE_SEL 1 2, P9_Register VIRTIO_MMIO_QUEUE_NUM 8 2] one_file_device = Some d' \<and>
    files_ok host d' \<and> files d' = {0}"
proof -
  let ?evs = "[P9_Register VIRTIO_MMIO_QUEUE_SEL 1 2, P9_Register VIRTIO_MMIO_QUEUE_NUM 8 2]"
  have ok: "files_ok host one_file_device"
    by (simp add: files_ok_def files_def one_file_device_def one_file_machine_def virtio_zero_def machine_zero_def riscv_cpu.defs)
  obtain d' where d': "p9_run (hbus one_file_host) (machine_fs one_file_host 0) ?evs one_file_device = Some d'" "fid_list d' = [(7, 0)]"
    by (auto simp: one_file_device_def virtio_mmio_write_def mmio_registers select_queue_def set_queue_num_def upd_selected_def
        selected_def the_queue_def virtio_zero_def MAX_QUEUE_def upd_queue_def)
  then show ?thesis using p9_files_tracked [OF one_file_tracks, where d = one_file_device and evs = ?evs and d' = d'] ok
    by (simp add: files_def)
qed

end
