(* ===== verification/SimpleFbSpec.thy ===== *)
theory SimpleFbSpec
  imports SimpleFb
begin

unbundle bit_operations_syntax

section \<open>A refresh of the frame buffer redraws what has changed\<close>

text \<open>
  Every line of the display of which a byte lies in a page with its dirty bit set is part of a band
  that is redrawn. The invariant of the loops: the pending band and the bands given out cover the
  lines of the pages handled so far, and the next page does not begin before the pending band.
\<close>

definition lines_of :: "fb_device \<Rightarrow> nat \<Rightarrow> int set" where
  "lines_of fb p = {y. y * fb_stride fb < (int p + 1) * 4096 \<and> int p * 4096 < (y + 1) * fb_stride fb \<and> y < fb_height fb}"

definition covers :: "band \<times> band list \<Rightarrow> int \<Rightarrow> bool" where
  "covers st y \<longleftrightarrow> fst (fst st) \<le> y \<and> y < snd (fst st) \<or> (\<exists>(a, h) \<in> set (snd st). a \<le> y \<and> y < a + h)"

definition within :: "fb_device \<Rightarrow> band \<times> band list \<Rightarrow> bool" where
  "within fb st \<longleftrightarrow> 0 \<le> fst (fst st) \<and> snd (fst st) \<le> fb_height fb \<and> (\<forall>(a, h) \<in> set (snd st). 0 \<le> a \<and> a + h \<le> fb_height fb)"

definition before :: "fb_device \<Rightarrow> band \<times> band list \<Rightarrow> nat \<Rightarrow> bool" where
  "before fb st p \<longleftrightarrow> fst (fst st) \<le> fst (page_lines fb p) \<and> snd (fst st) \<le> snd (page_lines fb p) \<and> within fb st"

lemma page_size_int [simp]: "uint DEVRAM_PAGE_SIZE = 4096"
  by (simp add: DEVRAM_PAGE_SIZE_def)

lemma page_lines_simps [simp]:
  "fst (page_lines fb p) = int p * 4096 div fb_stride fb"
  "snd (page_lines fb p) = min ((int p * 4096 + 4095) div fb_stride fb + 1) (fb_height fb)"
  by (simp_all add: page_lines_def Let_def add.commute)

lemma page_lines_mono:
  assumes "0 < fb_stride fb" and "p \<le> p'"
  shows "fst (page_lines fb p) \<le> fst (page_lines fb p')" "snd (page_lines fb p) \<le> snd (page_lines fb p')"
proof -
  have "int p * 4096 \<le> int p' * 4096" using assms(2) by simp
  then have "int p * 4096 div fb_stride fb \<le> int p' * 4096 div fb_stride fb"
    "(int p * 4096 + 4095) div fb_stride fb \<le> (int p' * 4096 + 4095) div fb_stride fb"
    using assms(1) by (auto intro!: zdiv_mono1)
  then show "fst (page_lines fb p) \<le> fst (page_lines fb p')" "snd (page_lines fb p) \<le> snd (page_lines fb p')"
    by (auto simp: min_def)
qed

lemma before_mono: "0 < fb_stride fb \<Longrightarrow> before fb st p \<Longrightarrow> p \<le> p' \<Longrightarrow> before fb st p'"
  unfolding before_def using page_lines_mono [of fb p p'] by (meson order_trans)

lemma int_div_less:
  assumes "0 < (k :: int)" and "a < b * k"
  shows "a div k < b"
proof (rule ccontr)
  assume "\<not> a div k < b"
  then have "b * k \<le> a div k * k" using assms(1) by simp
  also have "\<dots> \<le> a" using assms(1) by (simp add: minus_mod_eq_div_mult [symmetric])
  finally show False using assms(2) by simp
qed

lemma lines_of_page:
  assumes "0 < fb_stride fb" and "y \<in> lines_of fb p"
  shows "fst (page_lines fb p) \<le> y" "y < snd (page_lines fb p)"
proof -
  have y: "y * fb_stride fb < (int p + 1) * 4096" "int p * 4096 < (y + 1) * fb_stride fb" "y < fb_height fb"
    using assms(2) by (auto simp: lines_of_def)
  have "int p * 4096 div fb_stride fb < y + 1" using assms(1) y(2) by (rule int_div_less)
  then show "fst (page_lines fb p) \<le> y" by simp
  have "y * fb_stride fb div fb_stride fb \<le> (int p * 4096 + 4095) div fb_stride fb"
    using y(1) assms(1) by (intro zdiv_mono1) auto
  then show "y < snd (page_lines fb p)" using y(3) assms(1) by simp
qed

lemma add_page_step:
  assumes "0 < fb_stride fb" and "before fb st p"
  shows "before fb (add_page fb p st) p" "covers st y \<Longrightarrow> covers (add_page fb p st) y"
    "y \<in> lines_of fb p \<Longrightarrow> covers (add_page fb p st) y"
proof -
  obtain y0 y1 out where st: "st = ((y0, y1), out)" by (metis prod.exhaust)
  obtain a b where ab: "page_lines fb p = (a, b)" by (metis prod.exhaust)
  have b: "y0 \<le> a" "y1 \<le> b" "0 \<le> y0" "y1 \<le> fb_height fb" "\<forall>(a, h) \<in> set out. 0 \<le> a \<and> a + h \<le> fb_height fb"
    using assms(2) ab by (auto simp: before_def within_def st simp del: page_lines_simps)
  have "b \<le> fb_height fb" using page_lines_simps(2) [of fb p] ab by simp
  then show "before fb (add_page fb p st) p" using b ab
    by (auto simp: before_def within_def st add_page_def simp del: page_lines_simps)
  show "covers st y \<Longrightarrow> covers (add_page fb p st) y" using b
    by (auto simp: covers_def st add_page_def ab simp del: page_lines_simps)
  show "y \<in> lines_of fb p \<Longrightarrow> covers (add_page fb p st) y" using lines_of_page [OF assms(1), of y p] b
    by (auto simp: covers_def st add_page_def ab simp del: page_lines_simps)
qed

lemma refresh_word_step:
  assumes "0 < fb_stride fb" and "before fb st (page + pos)" and "pos \<le> 32"
  shows "before fb (refresh_word fb page pos dirty st) (page + 32) \<and> (covers st y \<longrightarrow> covers (refresh_word fb page pos dirty st) y) \<and>
    (\<forall>j. pos \<le> j \<longrightarrow> bit dirty j \<longrightarrow> y \<in> lines_of fb (page + j) \<longrightarrow> covers (refresh_word fb page pos dirty st) y)"
  using assms
proof (induction fb page pos dirty st rule: refresh_word.induct)
  case (1 fb page pos dirty st)
  show ?case
  proof (cases "dirty = 0 \<or> 32 \<le> pos")
    case True
    have "\<not> bit dirty j" if "pos \<le> j" for j using True that bit_imp_le_length [of dirty j] by auto
    moreover have "before fb st (page + 32)" using before_mono [OF "1.prems"(1,2)] "1.prems"(3) by simp
    moreover have "refresh_word fb page pos dirty st = st" using True by (subst refresh_word.simps) simp
    ultimately show ?thesis by auto
  next
    case False
    have nxt: "before fb st (page + (pos + 1))" using before_mono [OF "1.prems"(1,2)] by simp
    have lim: "pos + 1 \<le> 32" using False by simp
    have b: "drop_bit pos dirty AND 1 = 0 \<longleftrightarrow> \<not> bit dirty pos"
      by (simp add: and_one_eq bit_iff_odd_drop_bit odd_iff_mod_2_eq_one)
    show ?thesis
    proof (cases "bit dirty pos")
      case clear: False
      have "refresh_word fb page pos dirty st = refresh_word fb page (pos + 1) dirty st"
        using False b clear by (subst refresh_word.simps) simp
      then show ?thesis using "1.IH"(1) [OF False _ "1.prems"(1) nxt lim] b clear
        by (metis Suc_eq_plus1 le_antisym not_less_eq_eq)
    next
      case set: True
      let ?d = "dirty AND NOT (push_bit pos 1)" and ?st = "add_page fb (page + pos) st"
      note add = add_page_step [OF "1.prems"(1,2)]
      have nxt': "before fb ?st (page + (pos + 1))" using before_mono [OF "1.prems"(1) add(1)] by simp
      have "refresh_word fb page pos dirty st = refresh_word fb page (pos + 1) ?d ?st"
        using False b set by (subst refresh_word.simps) simp
      moreover have "bit ?d j" if "pos + 1 \<le> j" "bit dirty j" for j
        using that bit_imp_le_length [OF that(2)] by (auto simp: bit_simps)
      moreover have "before fb (refresh_word fb page (pos + 1) ?d ?st) (page + 32) \<and>
          (covers ?st y \<longrightarrow> covers (refresh_word fb page (pos + 1) ?d ?st) y) \<and>
          (\<forall>j. pos + 1 \<le> j \<longrightarrow> bit ?d j \<longrightarrow> y \<in> lines_of fb (page + j) \<longrightarrow>
            covers (refresh_word fb page (pos + 1) ?d ?st) y)"
        using "1.IH"(2) [OF False _ "1.prems"(1) nxt' lim] b set by blast
      ultimately show ?thesis using add(2,3) [of y]
        by (metis Suc_eq_plus1 le_antisym not_less_eq_eq)
    qed
  qed
qed


lemma refresh_pages_step:
  assumes "0 < fb_stride fb" and "before fb st i" and "32 dvd i" and "refresh_pages fb count bits i st = Some st'"
  shows "within fb st' \<and> (covers st y \<longrightarrow> covers st' y) \<and>
    (\<forall>p. i \<le> p \<longrightarrow> p div 32 * 32 < count \<longrightarrow> bit (bits ! (p div 32)) (p mod 32) \<longrightarrow> y \<in> lines_of fb p \<longrightarrow> covers st' y)"
  using assms
proof (induction fb count bits i st rule: refresh_pages.induct)
  case (1 fb count bits i st)
  show ?case
  proof (cases "i < count")
    case False
    have "\<not> p div 32 * 32 < count" if "i \<le> p" for p
    proof -
      have "i div 32 * 32 \<le> p div 32 * 32" using that by (intro mult_le_mono1 div_le_mono)
      moreover have "i div 32 * 32 = i" using "1.prems"(3) by (rule dvd_div_mult_self)
      ultimately show ?thesis using False by simp
    qed
    moreover have "st' = st" using False "1.prems"(4) by (subst (asm) refresh_pages.simps) simp
    ultimately show ?thesis using "1.prems"(2) by (auto simp: before_def)
  next
    case True
    define w where "w = bits ! drop_bit 5 i"
    let ?st = "refresh_word fb i 0 w st"
    have len: "drop_bit 5 i < length bits" and rest: "refresh_pages fb count bits (i + 32) ?st = Some st'"
      using True "1.prems"(4) by (simp_all add: refresh_pages.simps [of fb count bits i st] w_def split: if_splits)
    have step: "before fb ?st (i + 32)" "covers st y \<longrightarrow> covers ?st y"
      "\<And>j. bit w j \<Longrightarrow> y \<in> lines_of fb (i + j) \<Longrightarrow> covers ?st y"
      using refresh_word_step [OF "1.prems"(1), of st i 0 w y] "1.prems"(2) by auto
    have IH: "within fb st' \<and> (covers ?st y \<longrightarrow> covers st' y) \<and>
        (\<forall>p. i + 32 \<le> p \<longrightarrow> p div 32 * 32 < count \<longrightarrow> bit (bits ! (p div 32)) (p mod 32) \<longrightarrow> y \<in> lines_of fb p \<longrightarrow> covers st' y)"
      using "1.IH" [OF True len "1.prems"(1)] step(1) "1.prems"(3) rest by (simp add: w_def)
    have "covers st' y" if p: "i \<le> p" "p div 32 * 32 < count" "bit (bits ! (p div 32)) (p mod 32)" "y \<in> lines_of fb p" for p
    proof (cases "i + 32 \<le> p")
      case True
      then show ?thesis using IH p by blast
    next
      case False
      obtain k where k: "i = 32 * k" using "1.prems"(3) by (rule dvdE)
      have d: "p div 32 = k" using p(1) False k by (intro div_nat_eqI) auto
      then have "p mod 32 = p - i" using k by (simp add: modulo_nat_def mult.commute)
      moreover note d
      moreover have "drop_bit 5 i = k" by (simp add: k drop_bit_eq_div)
      ultimately show ?thesis using step(3) [of "p - i"] p IH by (simp add: w_def)
    qed
    then show ?thesis using IH step(2) by blast
  qed
qed

lemma covers_band: "covers ((y0, y1), out) y \<Longrightarrow> \<exists>(a, h) \<in> set (if y0 \<noteq> y1 then out @ [(y0, y1 - y0)] else out). a \<le> y \<and> y < a + h"
  by (auto simp: covers_def)



definition sample_display :: "u32 \<Rightarrow> phys_mem_range" where
  "sample_display bits = range_zero\<lparr>pr_dirty_bits := Some 0, pr_dirty_bits_size := 4, pr_dirty_bits_tab := [[bits], [0]]\<rparr>"

definition sample_fb :: "int \<Rightarrow> int \<Rightarrow> fb_device" where
  "sample_fb width height = \<lparr>fb_width = width, fb_height = height, fb_stride = width * 4, fb_size = 65536\<rparr>"

lemma sample_dirty:
  "\<exists>pr. phys_mem_get_dirty_bits (\<lambda>_ _ w. Some w) (sample_display bits) () = Some ([bits], pr, ())"
  by (simp add: phys_mem_get_dirty_bits_def default_get_dirty_bits_def sample_display_def dirty_table_def range_zero_def)


text \<open>
  The range is larger than the display. A page behind its last line gives a band of negative height.
\<close>

lemma refresh_behind_display:
  "\<exists>pr. simplefb_refresh (\<lambda>_ _ w. Some w) (sample_fb 100 100) (sample_display 0x8000) 16 () = Some ([(153, - 53)], pr, ())"
proof -
  obtain pr where pr: "phys_mem_get_dirty_bits (\<lambda>_ _ w. Some w) (sample_display 0x8000) () = Some ([0x8000], pr, ())"
    using sample_dirty by blast
  have w: "refresh_word (sample_fb 100 100) 0 0 0x8000 ((0, 0), []) = ((153, 100), [])"
    by (simp add: refresh_word.simps add_page_def page_lines_def sample_fb_def)
  show ?thesis using pr w by (simp add: simplefb_refresh_def refresh_pages.simps)
qed

end
