(* ===== verification/VirtioQuiet.thy ===== *)
theory VirtioQuiet
  imports MachineRun VirtioTyped
begin

section \<open>The virtio devices leave the CPU alone\<close>

text \<open>
  The theorems on runs of the machine ask of the virtio devices that an access changes the interrupt
  lines, the power-down flag and the memory at most. \<open>world_bus\<close> is about any property of the machine
  that the memory map and the interrupt lines do not affect: the registers of every device keep it,
  whatever they hold. For the state of the CPU this gives what was asked.
\<close>

subsection \<open>Properties of the world\<close>

locale world_bus =
  fixes bus :: "'w virtio_bus" and Q :: "'w \<Rightarrow> bool"
  assumes world_put: "Q (bus_put_map bus m w) = Q w"
    and world_irq: "Q (bus_set_irq bus n l w) = Q w"

sublocale world_bus \<subseteq> frame: bus_frame bus "\<lambda>s s'. Q (vd_world s') = Q (vd_world s)"
  by unfold_locales (simp_all add: put_guest_range_def virtio_set_irq_def world_put world_irq)

sublocale world_bus \<subseteq> inv: bus_invariant bus "\<lambda>s. Q (vd_world s)"
  by unfold_locales
    (simp_all add: put_guest_range_def virtio_set_irq_def next_avail_def upd_queue_def world_put world_irq)

context world_bus
begin

abbreviation at_world :: "('w, 'z) virtio_device_scheme \<Rightarrow> bool" where
  "at_world s \<equiv> Q (vd_world s)"

lemma request_world:
  "memcpy_from_queue bus buf q i off n s = Some (ret, buf', s') \<Longrightarrow> at_world s' = at_world s"
  "memcpy_to_queue bus q i off buf n s = Some (ret, s') \<Longrightarrow> at_world s' = at_world s"
  "virtio_consume_desc bus q i n s = Some s' \<Longrightarrow> at_world s' = at_world s"
  by (rule frame.request_frame frame.consume_frame; assumption)+

lemma upd_selected_world: "upd_selected f s = Some s' \<Longrightarrow> vd_world s' = vd_world s"
  by (auto simp: upd_selected_def upd_queue_def split: bind_splits)

lemma register_world:
  "vd_world (select_queue val s) = vd_world s"
  "set_queue_num val s = Some s' \<Longrightarrow> vd_world s' = vd_world s"
  "at_world (set_status bus val s) = at_world s"
  "at_world (virtio_set_irq bus l s) = at_world s"
  by (auto simp: select_queue_def set_queue_num_def set_status_def virtio_reset_def virtio_set_irq_def world_irq Let_def
      dest: upd_selected_world split: if_splits)

definition config_world :: "('w, 'z) virtio_device_scheme virtio_ops \<Rightarrow> bool" where
  "config_world ops \<longleftrightarrow> (\<forall>s s'. config_write ops s = Some s' \<longrightarrow> vd_world s' = vd_world s)"

lemma config_write_world:
  "config_world ops \<Longrightarrow> virtio_config_write ops off val sz s = Some s' \<Longrightarrow> vd_world s' = vd_world s"
  by (auto simp: virtio_config_write_def put_config_def config_world_def split: if_splits bind_splits)

lemma mmio_write_world:
  assumes "keeps at_world ops" and "config_world ops" and "virtio_mmio_write bus ops off val sz s = Some s'" and "at_world s"
  shows "at_world s'"
  using assms(3,4) unfolding virtio_mmio_write_def
  by (auto simp: Let_def register_world(1,3,4) notify_register_def split: if_splits
      dest: config_write_world [OF assms(2)] upd_selected_world register_world(2) inv.notify_keeps [OF assms(1)])

subsection \<open>The kinds of devices\<close>

lemma console_world:
  assumes "\<And>bs w w'. write_data bs w = Some w' \<Longrightarrow> Q w \<Longrightarrow> Q w'"
  shows "keeps at_world (console_ops bus write_data)"
  by (auto simp: keeps_def console_ops_def virtio_console_recv_request_def dest!: request_world(1,3)
      split: if_splits bind_splits)
    (auto dest: assms)

lemma net_world:
  assumes "\<And>bs w w'. write_packet bs w = Some w' \<Longrightarrow> Q w \<Longrightarrow> Q w'"
  shows "keeps at_world (net_ops bus write_packet)"
  by (auto simp: keeps_def net_ops_def virtio_net_recv_request_def Let_def dest!: request_world(1,3)
      split: if_splits bind_splits)
    (auto dest: assms)

lemma input_world: "keeps at_world (input_ops bus)"
  by (auto simp: keeps_def input_ops_def virtio_input_recv_request_def dest!: request_world(3) split: if_splits)

lemma block_end_world:
  "virtio_block_req_end bus ret s = Some s' \<Longrightarrow> at_world s' = at_world s"
  "block_finish bus ret s = Some s' \<Longrightarrow> at_world s' = at_world s"
proof -
  show e: "at_world s' = at_world s" if "virtio_block_req_end bus ret s = Some s'" for s s' :: "('w, 'z) virtio_block_scheme"
    using that by (auto simp: virtio_block_req_end_def dest!: request_world(2,3) split: if_splits bind_splits)
  show "block_finish bus ret s = Some s' \<Longrightarrow> at_world s' = at_world s"
    by (auto simp: block_finish_def dest: e split: if_splits)
qed

lemma block_world:
  assumes "\<And>sec n w ret bs w'. read_async dk sec n w = Some (ret, bs, w') \<Longrightarrow> Q w \<Longrightarrow> Q w'"
    and "\<And>sec bs n w ret w'. write_async dk sec bs n w = Some (ret, w') \<Longrightarrow> Q w \<Longrightarrow> Q w'"
  shows "keeps at_world (block_ops bus dk)"
  by (auto simp: keeps_def block_ops_def virtio_block_recv_request_def Let_def
      dest!: request_world(1) block_end_world(2) split: if_splits bind_splits)
    (auto dest: assms)

lemma input_config_world: "virtio_input_config_write s = Some s' \<Longrightarrow> vd_world s' = vd_world s"
  by (auto simp: virtio_input_config_write_def Let_def split: if_splits bind_splits)

lemma configs_world:
  "config_world (console_ops bus write_data)" "config_world (net_ops bus write_packet)" "config_world (block_ops bus dk)"
  "config_world (input_ops bus)" "config_world (p9_ops bus fsd)"
  by (auto simp: config_world_def console_ops_def net_ops_def block_ops_def input_ops_def p9_ops_def dest: input_config_world)

end

locale world_fs = world_bus bus Q for bus :: "'w virtio_bus" and Q :: "'w \<Rightarrow> bool" +
  fixes fsd :: "'w fs_device"
  assumes uses_world: "fs_uses fsd F w w' \<Longrightarrow> Q w \<Longrightarrow> Q w'"
    and delete_world: "fs_delete fsd f w = Some (r, w') \<Longrightarrow> Q w \<Longrightarrow> Q w'"
    and attach_world: "fs_attach fsd uid uname aname w = Some (x, w') \<Longrightarrow> Q w \<Longrightarrow> Q w'"
    and walk_world: "fs_walk fsd f names w = Some (y, w') \<Longrightarrow> Q w \<Longrightarrow> Q w'"
begin

lemma fid_world:
  "fid_set fsd fid f s = Some s' \<Longrightarrow> at_world s \<Longrightarrow> at_world s'"
  "fid_delete fsd fid s = Some s' \<Longrightarrow> at_world s \<Longrightarrow> at_world s'"
  by (auto simp: fid_set_def fid_delete_def elim!: call_fs_elim dest: delete_world split: option.splits bind_splits)

lemma fid_world_step: "fid_set fsd fid f (s\<lparr>vd_world := w\<rparr>) = Some s' \<Longrightarrow> Q w \<Longrightarrow> at_world s'"
  by (drule fid_world(1)) simp_all

end

sublocale world_fs \<subseteq> p9: p9_invariant bus "\<lambda>s. Q (vd_world s)" fsd
  by unfold_locales (simp_all, (blast intro: uses_world attach_world walk_world fid_world_step fid_world(2))+)

subsection \<open>The machine\<close>

lemma core_virt [simp]:
  "core (s\<lparr>mem_map := m\<rparr>) = core s" "core (s\<lparr>host := h\<rparr>) = core s" "core (s\<lparr>virtio_devs := ds\<rparr>) = core s"
  by (simp_all add: core_def riscv_cpu.truncate_def)

lemma core_set_irq [simp]: "core (plic_set_irq n l s) = core s"
  by (simp add: plic_set_irq_def Let_def)

interpretation cpu_state: world_bus "machine_bus env junk" "\<lambda>s. core s = c" for env junk c
  by unfold_locales simp_all

lemma in_host_core: "in_host f s = Some (r, s') \<Longrightarrow> core s' = core s"
  by (elim in_host_elim) simp

interpretation cpu_files: world_fs "machine_bus env junk" "\<lambda>s. core s = c" "machine_fs hops i" for env junk c hops i
  by unfold_locales (auto dest!: machine_fs_uses, auto dest!: in_host_core simp: machine_fs_def Let_def)

lemma world_ops_core:
  "console_write bs w = Some w' \<Longrightarrow> core w = c \<Longrightarrow> core w' = c"
  "net_write hops i bs w = Some w' \<Longrightarrow> core w = c \<Longrightarrow> core w' = c"
  "read_async (machine_disk hops i) sec n w = Some (ret, bs, w') \<Longrightarrow> core w = c \<Longrightarrow> core w' = c"
  "write_async (machine_disk hops i) sec bs n w = Some (ret, w') \<Longrightarrow> core w = c \<Longrightarrow> core w' = c"
  by (auto simp: console_write_def net_write_def machine_disk_def)

lemma kinds_core:
  "keeps (\<lambda>s. core (vd_world s) = c) (console_ops (hbus hops) console_write)"
  "keeps (\<lambda>s. core (vd_world s) = c) (net_ops (hbus hops) (net_write hops i))"
  "keeps (\<lambda>s. core (vd_world s) = c) (block_ops (hbus hops) (machine_disk hops i))"
  by (rule cpu_state.console_world cpu_state.net_world cpu_state.block_world; erule (1) world_ops_core)+

lemma in_machine_core:
  assumes "in_machine (virtio_mmio_write (machine_bus env junk) ops off val sz) d s = Some r"
    and "keeps (\<lambda>t. core (vd_world t) = core s) ops" and "cpu_state.config_world ops"
  shows "core (snd r) = core s"
proof -
  obtain t where t: "virtio_mmio_write (machine_bus env junk) ops off val sz (with_world s d) = Some t" "snd r = vd_world t"
    using assms(1) by (auto simp: in_machine_def)
  have "core (vd_world (with_world s d)) = core s" by (simp add: with_world_def)
  then show ?thesis using cpu_state.mmio_write_world [OF assms(2,3) t(1)] t(2) by simp
qed

lemma virtio_dev_write_core:
  assumes "device_write hops off val sz dev s = Some r"
  shows "core (snd r) = core s"
  using assms
  by (cases dev)
    (auto simp: device_write_def dest!: in_machine_core
      intro: kinds_core cpu_files.p9.p9_keeps cpu_state.input_world cpu_state.configs_world)

definition with_virtio :: "'h host_ops \<Rightarrow> 'h virt_machine machine_env \<Rightarrow> 'h virt_machine machine_env" where
  "with_virtio hops menv = menv\<lparr>virtio_read := machine_virtio_read, virtio_write := machine_virtio_write hops\<rparr>"

lemma machine_virtio_core:
  "machine_virtio_write hops n off val sz s = Some s' \<Longrightarrow> core s' = core s"
  "machine_virtio_read n off sz s = Some (v, s') \<Longrightarrow> core s' = core s"
  by (auto simp: machine_virtio_write_def machine_virtio_read_def put_dev_def dest: virtio_dev_write_core split: bind_splits)

text \<open>So the results on runs hold for the machine with its devices, as they do for the one without.\<close>

interpretation virtio_machine: quiet_devices "machine_cpu_env (with_virtio hops menv)" for hops menv
  by (rule machine_quiet) (auto simp: virtio_quiet_def with_virtio_def dest: machine_virtio_core)

interpretation virtio_below: confined "machine_cpu_env (with_virtio hops menv)" "below_machine p" "left_below p" for hops menv p
  by (rule virtio_machine.below_confined)

interpretation virtio_user: confined "machine_cpu_env (with_virtio hops menv)" "user_of p" "left_user p" for hops menv p
  by (rule virtio_machine.user_confined)


end
