(* ===== verification/Spec2Isabelle.thy ===== *)
theory Spec2Isabelle
  imports BootRun MachineRun AluSpec Mmu DeviceSpec FdtSpec FloatProps Virtio9pProps SimpleFbSpec VirtioQuiet
begin

text \<open>
  A verification development for esp32-tinyemu, a port of the TinyEMU emulator that runs a 32-bit
  RISC-V machine with Linux on an ESP32. Names like \<open>vmm.c\<close> are files of \<open>src/lib\<close>, most of them in
  \<open>src/lib/tinyemu\<close>; a definition has the name of its C function or structure where Isabelle allows it.

  The program. The ESP32 has less memory than the guest, so the RAM of the guest is a file
  (\<open>VMM/vmm.c\<close>) of which some pages are in memory. A page is found through a direct-mapped cache and
  an LRU cache, an LRU cache is a doubly linked list and an AVL tree, and an evicted page goes through
  a page cache (\<open>page_cache.c\<close>) with its own blocks of memory (\<open>HimemAllocator\<close>) before it reaches the
  file. The physical memory map (\<open>iomem.c\<close>) gives a range of addresses either such a memory or the
  functions of a device. The CPU (\<open>riscv_cpu.c\<close> and the template of the interpreter) fetches, loads
  and stores through the map, with Sv32 translation, and computes floating point with \<open>softfp\<close>. The
  machine (\<open>riscv_machine.c\<close>) adds timer, interrupt controller, host interface, device tree and
  firmware, and the virtio devices (\<open>virtio.c\<close>), whose queues are in the RAM of the guest, and a
  frame buffer (\<open>simplefb.c\<close>).

  Conventions. A C function is a function on explicit states with an \<open>option\<close> result: \<open>None\<close> is
  what C leaves undefined, a failed assertion, \<open>abort\<close>, or a loop that never ends. A pointer into
  the heap is a key of a map (\<open>Prelude\<close>); a pointer to a RAM page is an offset. Machine integers are words
  of their C width, which wrap around; \<open>size_t\<close> and list positions are natural numbers, with the
  wrap-around written out where the code can reach it. Callbacks and function tables are arguments or
  records of functions. Memory that \<open>malloc\<close> returns holds unknown bytes, which are a parameter.

  The theories, from the bottom up.

  \<^item> \<open>Prelude\<close>: guards, heaps, byte order, shared lemmas.
  \<^item> \<open>LList\<close> (\<open>list/\<close>), \<open>AvlTree\<close> (\<open>avltree.c\<close>) with \<open>AvlBalance\<close>, \<open>AvlOps\<close> and \<open>AvlSpec\<close>, where insertion
    and removal are proved to keep the order and the balance (C8, C9), and \<open>MemoryIndexer\<close>.
  \<^item> \<open>DirectCache\<close>, \<open>LruCache\<close> and their combination \<open>BackedCache\<close>, with the interfaces \<open>lossy_cache\<close>,
    \<open>map_store\<close> and \<open>backed_cache\<close>; \<open>Himem\<close> with \<open>block_store\<close> (C7); \<open>PageCache\<close> (C6).
  \<^item> \<open>Vmm\<close>, \<open>VmmBacking\<close>, \<open>VmmCorrect\<close>: the virtual memory refines a flat array of bytes (C1 to C5).
  \<^item> \<open>PhysMem\<close>: \<open>iomem.c\<close>, with the dirty bits of the frame buffer and the interrupt lines.
  \<^item> \<open>SoftFp\<close>, \<open>SoftFpOps\<close>, \<open>FloatUnit\<close>: the template \<open>softfp_template.h\<close> for words of any length, as
    compiled for 32 and 64 bits. \<open>FloatSpec\<close>, \<open>FloatArith\<close>, \<open>FloatAdd\<close>, \<open>FloatDiv\<close>, \<open>FloatSqrt\<close>,
    \<open>FloatOrder\<close> and \<open>FloatProps\<close> prove it correct against rounding of real numbers (C32, C33).
  \<^item> \<open>RiscvCpu\<close> (state, translation, loads and stores), \<open>RiscvCsr\<close> (control registers, traps),
    \<open>RiscvAlu\<close>, \<open>RiscvInsn\<close>, \<open>RiscvFp\<close> (instructions) and \<open>RiscvInterp\<close> (system and atomic
    instructions, fetch and loop): the CPU as \<open>riscv_cpu32.c\<close> compiles it. \<open>AluSpec\<close>, \<open>RamAccess\<close>,
    \<open>Mmu\<close>, \<open>TrapSpec\<close> state what the RISC-V manuals ask of them (C20 to C22 for arithmetic, C13 to
    C15 for memory, C23 and C24 for translation, C16 to C19 for traps and control registers).
  \<^item> \<open>RiscvMachine\<close> (timer, PLIC, host interface, the run loop), \<open>Fdt\<close> and \<open>Boot\<close> (device tree,
    images, reset code). \<open>CpuFrame\<close>, \<open>CpuTame\<close>, \<open>CpuInvariant\<close>, \<open>CpuRun\<close>, \<open>Confinement\<close> and
    \<open>MachineRun\<close> carry the invariant of the CPU and the separation of the privilege levels through
    every instruction (C10 to C12). \<open>DeviceSpec\<close>, \<open>FdtSpec\<close> and \<open>BootRun\<close> hold the theorems on devices
    (C28 to C31), on the device tree (C26, C27) and on the boot code (C25).
  \<^item> \<open>Virtio\<close> (queues and descriptor chains), \<open>VirtioRegs\<close> (registers), \<open>VirtioDevices\<close> (disk, network,
    console), \<open>VirtioInput\<close> (keyboard, mouse, tablet), \<open>Virtio9p\<close> (file systems) and \<open>VirtioMachine\<close>
    (the devices in the machine). \<open>VirtioSpec\<close>, \<open>VirtioQueue\<close> and \<open>VirtioServe\<close> say what a chain of
    descriptors holds and how a device that consumes requests serves a queue; \<open>VirtioFrame\<close> is the
    interface for facts that every access to a queue keeps, and \<open>VirtioTyped\<close> uses it for
    well-formedness (C37). \<open>VirtioProps\<close> has the theorems on the walk along a chain (C34) and on
    the console (C35).
  \<^item> \<open>Virtio9pMessages\<close> (what the device reads from a request), \<open>Virtio9pSpec\<close> (which calls of the file
    system a request makes) and \<open>Virtio9pFiles\<close> (the list of fids against the open files) lead to
    \<open>Virtio9pProps\<close> (C38, C39).
  \<^item> \<open>SimpleFb\<close> and \<open>SimpleFbSpec\<close>: the refresh of the display (C36).
  \<^item> \<open>SampleEnv\<close>: concrete parameters, at which the witnesses apply the theorems.

  Bounds and loops. The loops whose end depends on data of the guest or on a heap are partial
  functions with \<open>None\<close> for a loop that does not end: the loops of the caches and of the virtual
  memory, the walks along descriptor chains, the notification, and the interpreter. For those of the virtual
  memory, the theorems prove that they end and with what result. A chain of descriptors may lead
  back to itself; C34 proves that the walk ends on every chain with an end and on no cycle.
  The interpreter counts its cycles between blocks of straight code only, so that its theorems on
  runs speak of the runs that return; C25 is about one that does. No fuel is used. The map holds 32
  ranges, a virtio device 8 queues of at most 16 entries, a configuration space 256 bytes, a reply
  of the 9P device 1024 bytes: the bounds of the source.

  Parameters, for code outside the repository or of the host: the clock, the terminal, the network,
  the disk images (\<open>BlockDevice\<close>), the file systems (\<open>FSDevice\<close>), the files of the images, and the
  contents of fresh memory. C39 states the contract that a file system has to keep. The page
  file is a list of bytes whose reads and writes succeed. C10 to C12 ask of the virtio
  devices, which are a parameter of \<open>RiscvMachine\<close>, only that they leave the CPU alone; \<open>VirtioQuiet\<close>
  proves this of the modelled devices (C40) and so carries the results over to the whole machine.

  Not modelled: the PCI transport beyond its registers, the x86 machine and its devices, the slirp
  network stack, the file systems and block devices behind the tables, configuration files, the
  command line, displays, and the ESP32 drivers; the memory banks of the ESP32 are replaced by the
  emulated ones of the repository. Debug output and logging are left out. Further limits are named
  where they apply, as are the places where the code differs from its comments or from the manuals.
\<close>

end
